(* ===== verification/Prelude.thy ===== *)
theory Prelude
  imports Main
begin

text \<open>
  Shared vocabulary of the development.

  A SQL table of the hub is a list of records in rowid order.  The statements the stores
  run are four operations on such lists (\<open>upd_where\<close>, \<open>del_where\<close>, \<open>sel_where\<close>,
  \<open>first_where\<close>) together with \<open>n_where\<close>, the number of rows a statement touches
  (\<open>changes\<close> of the driver, \<open>src/src/lib/server/store/driver.ts\<close>).  A nullable column is an
  \<open>option\<close>; comparisons with NULL are not true, which \<open>sql_lt\<close>, \<open>sql_eq\<close> and
  friends spell out.  Instants are milliseconds (\<open>Date.now()\<close>) as integers, and a JavaScript
  string is the list of its UTF-16 code units, written as a \<open>string\<close>.
\<close>

named_theorems row_simps \<open>unfolding rules of row level predicates and updates\<close>
named_theorems table_simps \<open>rewriting of table operations\<close>
named_theorems step_intros \<open>introduction rules of the step relations\<close>

type_synonym ms = int

section \<open>Options as nullable columns\<close>

definition sql_eq :: "'a option \<Rightarrow> 'a option \<Rightarrow> bool" where
  "sql_eq a b = (case a of None \<Rightarrow> False | Some x \<Rightarrow> (case b of None \<Rightarrow> False | Some y \<Rightarrow> x = y))"

definition sql_lt :: "int option \<Rightarrow> int \<Rightarrow> bool" where
  "sql_lt a k = (case a of None \<Rightarrow> False | Some x \<Rightarrow> x < k)"

definition sql_le :: "int option \<Rightarrow> int \<Rightarrow> bool" where
  "sql_le a k = (case a of None \<Rightarrow> False | Some x \<Rightarrow> x \<le> k)"

definition or_default :: "'a option \<Rightarrow> 'a \<Rightarrow> 'a" where
  "or_default a d = (case a of None \<Rightarrow> d | Some x \<Rightarrow> x)"

lemma sql_eq_simps [simp]:
  "sql_eq None b = False" "sql_eq a None = False" "sql_eq (Some x) (Some y) = (x = y)"
  by (auto simp: sql_eq_def split: option.splits)

lemma sql_eq_Some: "sql_eq a (Some y) = (a = Some y)"
  by (cases a) simp_all

lemma sql_lt_simps [simp]: "sql_lt None k = False" "sql_lt (Some x) k = (x < k)"
  by (simp_all add: sql_lt_def)

lemma sql_le_simps [simp]: "sql_le None k = False" "sql_le (Some x) k = (x \<le> k)"
  by (simp_all add: sql_le_def)

lemma or_default_simps [simp]: "or_default None d = d" "or_default (Some x) d = x"
  by (simp_all add: or_default_def)

section \<open>Statements on tables\<close>

definition upd_where :: "('r \<Rightarrow> bool) \<Rightarrow> ('r \<Rightarrow> 'r) \<Rightarrow> 'r list \<Rightarrow> 'r list" where
  "upd_where P f t = map (\<lambda>r. if P r then f r else r) t"

definition del_where :: "('r \<Rightarrow> bool) \<Rightarrow> 'r list \<Rightarrow> 'r list" where
  "del_where P t = filter (\<lambda>r. \<not> P r) t"

definition sel_where :: "('r \<Rightarrow> bool) \<Rightarrow> 'r list \<Rightarrow> 'r list" where
  "sel_where P t = filter P t"

definition n_where :: "('r \<Rightarrow> bool) \<Rightarrow> 'r list \<Rightarrow> nat" where
  "n_where P t = length (filter P t)"

definition first_where :: "('r \<Rightarrow> bool) \<Rightarrow> 'r list \<Rightarrow> 'r option" where
  "first_where P t = find P t"

text \<open>\<open>ORDER BY k\<close> (ascending, ties in rowid order) and \<open>ORDER BY k DESC\<close>.\<close>

definition order_by :: "('r \<Rightarrow> 'k::linorder) \<Rightarrow> 'r list \<Rightarrow> 'r list" where
  "order_by k t = sort_key k t"

definition order_by_desc :: "('r \<Rightarrow> 'k::linorder) \<Rightarrow> 'r list \<Rightarrow> 'r list" where
  "order_by_desc k t = rev (sort_key k t)"

definition limit_one :: "'r list \<Rightarrow> 'r option" where
  "limit_one t = (case t of [] \<Rightarrow> None | r # _ \<Rightarrow> Some r)"

lemma limit_one_simps [simp]: "limit_one [] = None" "limit_one (r # t) = Some r"
  by (simp_all add: limit_one_def)

lemma limit_one_SomeD: "limit_one t = Some r \<Longrightarrow> r \<in> set t"
  by (cases t) auto

lemma limit_one_None: "limit_one t = None \<longleftrightarrow> t = []"
  by (cases t) auto

lemma upd_where_Nil [table_simps, simp]: "upd_where P f [] = []"
  by (simp add: upd_where_def)

lemma upd_where_Cons [table_simps]:
  "upd_where P f (r # t) = (if P r then f r else r) # upd_where P f t"
  by (simp add: upd_where_def)

lemma set_upd_where [table_simps]:
  "set (upd_where P f t) = f ` {r \<in> set t. P r} \<union> {r \<in> set t. \<not> P r}"
  by (auto simp: upd_where_def)

lemma set_upd_whereD: "r \<in> set (upd_where P f t) \<Longrightarrow> \<exists>r0 \<in> set t. r = (if P r0 then f r0 else r0)"
  by (auto simp: upd_where_def)

lemma length_upd_where [simp]: "length (upd_where P f t) = length t"
  by (simp add: upd_where_def)

lemma map_upd_where:
  assumes "\<And>r. P r \<Longrightarrow> k (f r) = k r"
  shows "map k (upd_where P f t) = map k t"
  using assms by (auto simp: upd_where_def)

lemma upd_where_id: "(\<And>r. r \<in> set t \<Longrightarrow> \<not> P r) \<Longrightarrow> upd_where P f t = t"
  by (induction t) (auto simp: upd_where_def)

lemma n_where_0 [simp]: "n_where P t = 0 \<longleftrightarrow> (\<forall>r \<in> set t. \<not> P r)"
  by (auto simp: n_where_def filter_empty_conv)

lemma n_where_pos: "0 < n_where P t \<longleftrightarrow> (\<exists>r \<in> set t. P r)"
  using n_where_0 [of P t] by (metis neq0_conv)

lemma set_del_where [table_simps, simp]: "set (del_where P t) = {r \<in> set t. \<not> P r}"
  by (auto simp: del_where_def)

lemma set_sel_where [table_simps, simp]: "set (sel_where P t) = {r \<in> set t. P r}"
  by (auto simp: sel_where_def)

lemma length_del_where: "length (del_where P t) + n_where P t = length t"
  by (induction t) (auto simp: del_where_def n_where_def)

lemma first_where_SomeD: "first_where P t = Some r \<Longrightarrow> r \<in> set t \<and> P r"
  by (auto simp: first_where_def find_Some_iff)

lemma first_where_None: "first_where P t = None \<longleftrightarrow> (\<forall>r \<in> set t. \<not> P r)"
  by (auto simp: first_where_def find_None_iff)

lemma first_where_Nil [simp]: "first_where P [] = None"
  by (simp add: first_where_def)

lemma first_where_Cons: "first_where P (r # t) = (if P r then Some r else first_where P t)"
  by (simp add: first_where_def)

lemma set_order_by [simp]: "set (order_by k t) = set t"
  by (simp add: order_by_def)

lemma set_order_by_desc [simp]: "set (order_by_desc k t) = set t"
  by (simp add: order_by_desc_def)

lemma length_order_by [simp]: "length (order_by k t) = length t"
  by (simp add: order_by_def)

lemma order_by_sorted: "sorted (map k (order_by k t))"
  by (simp add: order_by_def)

lemma limit_one_order_by_least:
  assumes "limit_one (order_by k t) = Some r"
  shows "r \<in> set t \<and> (\<forall>r' \<in> set t. k r \<le> k r')"
proof -
  obtain rs where rs: "order_by k t = r # rs"
    using assms by (cases "order_by k t") auto
  have "sorted (map k (r # rs))" using order_by_sorted [of k t] rs by simp
  moreover have "set t = set (r # rs)" using rs set_order_by [of k t] by simp
  ultimately show ?thesis by auto
qed

section \<open>Unique columns\<close>

text \<open>A column declared UNIQUE or PRIMARY KEY.\<close>

definition unique_on :: "('r \<Rightarrow> 'k) \<Rightarrow> 'r list \<Rightarrow> bool" where
  "unique_on k t = distinct (map k t)"

lemma unique_onD: "unique_on k t \<Longrightarrow> r \<in> set t \<Longrightarrow> r' \<in> set t \<Longrightarrow> k r = k r' \<Longrightarrow> r = r'"
  by (auto simp: unique_on_def distinct_map dest: inj_onD)

lemma unique_on_Nil [simp]: "unique_on k []"
  by (simp add: unique_on_def)

lemma unique_on_snoc: "unique_on k (t @ [r]) \<longleftrightarrow> unique_on k t \<and> (\<forall>r' \<in> set t. k r' \<noteq> k r)"
  by (auto simp: unique_on_def image_iff)

lemma unique_on_upd_where:
  "(\<And>r. P r \<Longrightarrow> k (f r) = k r) \<Longrightarrow> unique_on k t \<Longrightarrow> unique_on k (upd_where P f t)"
  unfolding unique_on_def by (subst map_upd_where) auto

lemma unique_on_filter: "unique_on k t \<Longrightarrow> unique_on k (filter P t)"
  by (simp add: unique_on_def distinct_map_filter)

lemma unique_on_del_where: "unique_on k t \<Longrightarrow> unique_on k (del_where P t)"
  by (simp add: del_where_def unique_on_filter)

lemma first_where_unique:
  assumes "unique_on k t" "r \<in> set t" "P r" "\<And>r'. P r' \<Longrightarrow> k r' = k r"
  shows "first_where P t = Some r"
proof (cases "first_where P t")
  case None
  with assms show ?thesis by (auto simp: first_where_None)
next
  case (Some r')
  then have "r' \<in> set t" "P r'" by (auto dest: first_where_SomeD)
  with assms have "r' = r" by (auto intro: unique_onD)
  with Some show ?thesis by simp
qed

lemma n_where_unique_le1:
  assumes u: "unique_on k t" and one: "\<And>r r'. P r \<Longrightarrow> P r' \<Longrightarrow> k r = k r'"
  shows "n_where P t \<le> 1"
proof (cases "filter P t")
  case (Cons a rest)
  have d: "distinct (map k (filter P t))"
    using u by (simp add: unique_on_def distinct_map_filter)
  have "rest = []"
  proof (cases rest)
    case (Cons b rest')
    with \<open>filter P t = a # rest\<close> have "a \<in> set (filter P t)" "b \<in> set (filter P t)" by simp_all
    then have "P a" "P b" by simp_all
    then have "k a = k b" by (rule one)
    with d Cons \<open>filter P t = a # rest\<close> show ?thesis by simp
  qed
  with Cons show ?thesis by (simp add: n_where_def)
qed (simp add: n_where_def)

lemma n_where_eq_1:
  assumes u: "unique_on k t" and one: "\<And>r r'. P r \<Longrightarrow> P r' \<Longrightarrow> k r = k r'"
  shows "n_where P t = 1 \<longleftrightarrow> (\<exists>r \<in> set t. P r)"
proof -
  have "n_where P t \<le> 1" using u one by (rule n_where_unique_le1)
  then show ?thesis using n_where_pos [of P t] by linarith
qed

section \<open>Strings and slices\<close>

text \<open>\<open>s.slice(-n)\<close> for a positive \<open>n\<close>: the last \<open>n\<close> units.\<close>

definition slice_last :: "nat \<Rightarrow> 'a list \<Rightarrow> 'a list" where
  "slice_last n s = drop (length s - n) s"

lemma length_slice_last: "length (slice_last n s) = min n (length s)"
  by (auto simp: slice_last_def)

lemma slice_last_id [simp]: "length s \<le> n \<Longrightarrow> slice_last n s = s"
  by (simp add: slice_last_def)

lemma slice_last_suffix: "\<exists>p. s = p @ slice_last n s"
  by (metis append_take_drop_id slice_last_def)

section \<open>Tables under a step relation\<close>

text \<open>
  The contract every AUTOINCREMENT table of the hub keeps: identifiers are unique and never
  exceed the counter, the counter never goes back, and every row found after a step either
  comes from the row with its identifier by a permitted change \<open>evo\<close>, or is newer than every
  row there was.  The client's conclusion is about whole runs.
\<close>

locale autoinc_table =
  fixes tbl :: "'s \<Rightarrow> 'r list"
    and rid :: "'r \<Rightarrow> nat"
    and ctr :: "'s \<Rightarrow> nat"
    and step :: "'s \<Rightarrow> 's \<Rightarrow> bool"
    and evo :: "'r \<Rightarrow> 'r \<Rightarrow> bool"
    and ok :: "'s \<Rightarrow> bool"
  assumes ids_unique: "ok s \<Longrightarrow> unique_on rid (tbl s)"
    and ids_bounded: "ok s \<Longrightarrow> r \<in> set (tbl s) \<Longrightarrow> rid r \<le> ctr s"
    and ok_step: "ok s \<Longrightarrow> step s t \<Longrightarrow> ok t"
    and ctr_mono: "ok s \<Longrightarrow> step s t \<Longrightarrow> ctr s \<le> ctr t"
    and step_back: "ok s \<Longrightarrow> step s t \<Longrightarrow> r' \<in> set (tbl t) \<Longrightarrow>
      (\<exists>r \<in> set (tbl s). rid r = rid r' \<and> evo r r') \<or> ctr s < rid r'"
begin

lemma ok_run: "step\<^sup>*\<^sup>* s t \<Longrightarrow> ok s \<Longrightarrow> ok t"
  by (induction rule: rtranclp_induct) (auto intro: ok_step)

lemma ctr_run: "step\<^sup>*\<^sup>* s t \<Longrightarrow> ok s \<Longrightarrow> ctr s \<le> ctr t"
  by (induction rule: rtranclp_induct) (auto intro: order_trans ctr_mono ok_run)

lemma run_back:
  assumes "step\<^sup>*\<^sup>* s t" "ok s" "r' \<in> set (tbl t)"
  shows "(\<exists>r \<in> set (tbl s). rid r = rid r' \<and> evo\<^sup>*\<^sup>* r r') \<or> ctr s < rid r'"
  using assms
proof (induction arbitrary: r' rule: rtranclp_induct)
  case base
  then show ?case by auto
next
  case (step u t)
  then have ok: "ok u" and le: "ctr s \<le> ctr u" by (auto intro: ok_run ctr_run)
  from step_back [OF ok step.hyps(2) step.prems(2)] show ?case
  proof
    assume "\<exists>r \<in> set (tbl u). rid r = rid r' \<and> evo r r'"
    then obtain r where r: "r \<in> set (tbl u)" "rid r = rid r'" "evo r r'" by blast
    from step.IH [OF step.prems(1) r(1)] r show ?thesis
      by (metis rtranclp.rtrancl_into_rtrancl)
  next
    assume "ctr u < rid r'"
    with le show ?thesis by linarith
  qed
qed

text \<open>A row that no permitted change touches is found again as it was, or not at all.\<close>

lemma final_stays:
  assumes "step\<^sup>*\<^sup>* s t" "ok s" "r \<in> set (tbl s)" "r' \<in> set (tbl t)" "rid r' = rid r"
    and fin: "\<And>x. evo r x \<Longrightarrow> x = r"
  shows "r' = r"
proof -
  have "rid r' \<le> ctr s" using assms ids_bounded by metis
  then obtain r0 where r0: "r0 \<in> set (tbl s)" "rid r0 = rid r'" "evo\<^sup>*\<^sup>* r0 r'"
    using run_back [OF assms(1,2,4)] by auto
  have "r0 = r" using ids_unique [OF assms(2)] r0 assms by (metis unique_onD)
  with r0(3) have "evo\<^sup>*\<^sup>* r r'" by simp
  then show "r' = r" by (induction rule: rtranclp_induct) (auto dest: fin)
qed

text \<open>A column no permitted change writes keeps its value along a run.\<close>

lemma column_frozen:
  assumes "step\<^sup>*\<^sup>* s t" "ok s" "r \<in> set (tbl s)" "r' \<in> set (tbl t)" "rid r' = rid r"
    and col: "\<And>x y. evo x y \<Longrightarrow> c y = c x"
  shows "c r' = c r"
proof -
  have "rid r' \<le> ctr s" using assms ids_bounded by metis
  then obtain r0 where r0: "r0 \<in> set (tbl s)" "rid r0 = rid r'" "evo\<^sup>*\<^sup>* r0 r'"
    using run_back [OF assms(1,2,4)] by auto
  have "r0 = r" using ids_unique [OF assms(2)] r0 assms by (metis unique_onD)
  with r0(3) have "evo\<^sup>*\<^sup>* r r'" by simp
  then show "c r' = c r" by (induction rule: rtranclp_induct) (auto dest: col)
qed

end

section \<open>Things that can be used once\<close>

text \<open>
  The contract of a conditional update that hands something out once: a successful claim spends
  it, what is spent stays spent along every step, and a claim of something spent is refused.
\<close>

locale single_use =
  fixes step :: "'s \<Rightarrow> 's \<Rightarrow> bool"
    and ok :: "'s \<Rightarrow> bool"
    and spent :: "'k \<Rightarrow> 's \<Rightarrow> bool"
    and claim :: "'k \<Rightarrow> ms \<Rightarrow> 's \<Rightarrow> 's \<times> bool"
  assumes claim_spends: "ok s \<Longrightarrow> claim k now s = (s', True) \<Longrightarrow> spent k s'"
    and spent_step: "spent k s \<Longrightarrow> step s t \<Longrightarrow> spent k t"
    and spent_refused: "spent k s \<Longrightarrow> \<not> snd (claim k now s)"
begin

lemma spent_run: "step\<^sup>*\<^sup>* s t \<Longrightarrow> spent k s \<Longrightarrow> spent k t"
  by (induction rule: rtranclp_induct) (auto intro: spent_step)

lemma once: "ok s \<Longrightarrow> claim k now s = (s', True) \<Longrightarrow> step\<^sup>*\<^sup>* s' t \<Longrightarrow> \<not> snd (claim k now' t)"
  using claim_spends spent_run spent_refused by blast

end

section \<open>Optimistic concurrency\<close>

text \<open>
  Optimistic concurrency by a stamp: a save moves the stamp of its record up, and a step indexed with a
  value \<open>a\<close> leaves the stamp above \<open>a\<close> once it is.  Then a writer that still expects \<open>a\<close> after a save and
  any such steps never finds its record.
\<close>

locale stamped =
  fixes step :: "'k \<Rightarrow> ms \<Rightarrow> 's \<Rightarrow> 's \<Rightarrow> bool"
    and ok :: "'s \<Rightarrow> bool"
    and stamp :: "'k \<Rightarrow> 's \<Rightarrow> ms option"
    and saved :: "'k \<Rightarrow> 's \<Rightarrow> 's \<Rightarrow> bool"
  assumes ok_step: "ok s \<Longrightarrow> step k a s t \<Longrightarrow> ok t"
    and step_above: "ok s \<Longrightarrow> step k a s t \<Longrightarrow> (\<And>b. stamp k s = Some b \<Longrightarrow> a < b) \<Longrightarrow> stamp k t = Some c \<Longrightarrow> a < c"
    and save_moves: "ok s \<Longrightarrow> saved k s t \<Longrightarrow> stamp k s = Some a \<Longrightarrow> stamp k t = Some b \<Longrightarrow> a < b"
    and save_ok: "ok s \<Longrightarrow> saved k s t \<Longrightarrow> ok t"
begin

lemma run_above:
  "(step k a)\<^sup>*\<^sup>* s t \<Longrightarrow> ok s \<Longrightarrow> (\<And>b. stamp k s = Some b \<Longrightarrow> a < b) \<Longrightarrow>
     ok t \<and> (\<forall>c. stamp k t = Some c \<longrightarrow> a < c)"
proof (induction rule: rtranclp_induct)
  case (step u t)
  then have u: "ok u" "\<And>b. stamp k u = Some b \<Longrightarrow> a < b" by auto
  show ?case using ok_step [OF u(1) step.hyps(2)] step_above [OF u(1) step.hyps(2) u(2)] by blast
qed auto

lemma overtaken:
  assumes "ok s" "saved k s t" "(step k a)\<^sup>*\<^sup>* t u" "stamp k s = Some a"
  shows "ok u \<and> stamp k u \<noteq> Some a"
  using run_above [OF assms(3) save_ok [OF assms(1,2)] save_moves [OF assms(1,2,4)]] by auto

end

end
