(* ===== verification/Jobs.thy ===== *)
theory Jobs
  imports Prelude
begin

text \<open>
  The durable job queue: \<open>src/src/lib/server/jobs/queue.ts\<close> over the job types of
  \<open>src/src/lib/shared/jobs.ts\<close>.  \<open>job_row\<close> is the \<open>jobs\<close> table, \<open>job\<close> the record the
  rest of the hub sees, \<open>jobs_db\<close> the table with its AUTOINCREMENT counter.  Each method of
  \<open>JobQueue\<close> is one definition on \<open>jobs_db\<close>; the wall clock, the random lease token and the
  random job key are arguments, and a spec or result is its JSON text.
\<close>

section \<open>Types\<close>

datatype job_status = Queued | Claimed | Running | Succeeded | Failed | RolledBack | Unknown

definition JOB_STATUSES :: "job_status list" where
  "JOB_STATUSES = [Queued, Claimed, Running, Succeeded, Failed, RolledBack, Unknown]"

datatype job_kind = Deploy | Teardown | AgentTask | Scan

definition isTerminal :: "job_status \<Rightarrow> bool" where
  "isTerminal s = (s \<in> set [Succeeded, Failed, RolledBack])"

definition TERMINAL :: "job_status list" where
  "TERMINAL = filter isTerminal JOB_STATUSES"

record job_row =
  jr_id :: nat
  jr_job_key :: string
  jr_kind :: job_kind
  jr_target :: "string option"
  jr_status :: job_status
  jr_spec :: string
  jr_result :: "string option"
  jr_log :: "string option"
  jr_lease_owner :: "string option"
  jr_lease_until :: "ms option"
  jr_not_before :: "ms option"
  jr_attempts :: int
  jr_max_attempts :: int
  jr_created_at :: ms
  jr_updated_at :: ms

record job =
  jb_id :: nat
  jb_jobKey :: string
  jb_kind :: job_kind
  jb_target :: "string option"
  jb_status :: job_status
  jb_spec :: string
  jb_result :: "string option"
  jb_log :: "string option"
  jb_leaseOwner :: "string option"
  jb_leaseUntil :: "ms option"
  jb_notBefore :: "ms option"
  jb_attempts :: int
  jb_maxAttempts :: int
  jb_createdAt :: ms
  jb_updatedAt :: ms

record claimed_job =
  cj_id :: nat
  cj_kind :: job_kind
  cj_spec :: string
  cj_lease :: string
  cj_leaseUntil :: ms
  cj_attempt :: int

record jobs_db =
  rows :: "job_row list"
  seq :: nat

datatype queue_error = SpecTooLarge | ResultTooLarge | NoRow

definition toJob :: "job_row \<Rightarrow> job" where
  "toJob r = \<lparr> jb_id = jr_id r, jb_jobKey = jr_job_key r, jb_kind = jr_kind r,
     jb_target = jr_target r, jb_status = jr_status r, jb_spec = jr_spec r,
     jb_result = jr_result r, jb_log = jr_log r, jb_leaseOwner = jr_lease_owner r,
     jb_leaseUntil = jr_lease_until r, jb_notBefore = jr_not_before r,
     jb_attempts = jr_attempts r, jb_maxAttempts = jr_max_attempts r,
     jb_createdAt = jr_created_at r, jb_updatedAt = jr_updated_at r \<rparr>"

definition MAX_SPEC_BYTES :: nat where "MAX_SPEC_BYTES = 64 * 1024"

definition MAX_RESULT_BYTES :: nat where "MAX_RESULT_BYTES = 256 * 1024"

definition MAX_LOG_BYTES :: nat where "MAX_LOG_BYTES = 512 * 1024"

definition DEFAULT_LEASE_MS :: ms where "DEFAULT_LEASE_MS = 120000"

section \<open>Enqueue\<close>

record enqueue_opts =
  eo_kind :: job_kind
  eo_target :: "string option"
  eo_spec :: string
  eo_jobKey :: "string option"
  eo_maxAttempts :: "int option"
  eo_notBefore :: "ms option"

definition new_row :: "enqueue_opts \<Rightarrow> string \<Rightarrow> ms \<Rightarrow> nat \<Rightarrow> job_row" where
  "new_row opts jobKey now i =
     \<lparr> jr_id = i, jr_job_key = jobKey, jr_kind = eo_kind opts, jr_target = eo_target opts,
       jr_status = Queued, jr_spec = eo_spec opts, jr_result = None, jr_log = None,
       jr_lease_owner = None, jr_lease_until = None, jr_not_before = eo_notBefore opts,
       jr_attempts = 0, jr_max_attempts = or_default (eo_maxAttempts opts) 3,
       jr_created_at = now, jr_updated_at = now \<rparr>"

text \<open>\<open>INSERT OR IGNORE\<close>: a taken \<open>job_key\<close> leaves the table (and the counter) alone.\<close>

definition insert_or_ignore :: "enqueue_opts \<Rightarrow> string \<Rightarrow> ms \<Rightarrow> jobs_db \<Rightarrow> jobs_db" where
  "insert_or_ignore opts jobKey now db =
     (if \<exists>r \<in> set (rows db). jr_job_key r = jobKey then db
      else db\<lparr> rows := rows db @ [new_row opts jobKey now (Suc (seq db))], seq := Suc (seq db) \<rparr>)"

definition enqueue ::
  "enqueue_opts \<Rightarrow> string \<Rightarrow> ms \<Rightarrow> jobs_db \<Rightarrow> queue_error + (jobs_db \<times> job \<times> bool)" where
  "enqueue opts fresh_key now db =
     (if length (eo_spec opts) > MAX_SPEC_BYTES then Inl SpecTooLarge
      else let jobKey = or_default (eo_jobKey opts) fresh_key;
               db' = insert_or_ignore opts jobKey now db
           in case first_where (\<lambda>r. jr_job_key r = jobKey) (rows db') of
                None \<Rightarrow> Inl NoRow
              | Some row \<Rightarrow> Inr (db', toJob row, jr_created_at row = now))"

section \<open>Claim\<close>

definition for_target :: "string option \<Rightarrow> job_row \<Rightarrow> bool" where
  "for_target target r = (sql_eq (jr_target r) target \<or> jr_target r = None)"

definition claimable :: "job_kind \<Rightarrow> string option \<Rightarrow> ms \<Rightarrow> job_row \<Rightarrow> bool" where
  "claimable kind target now r =
     (jr_status r = Queued \<and> jr_kind r = kind \<and> for_target target r \<and>
      (jr_not_before r = None \<or> sql_le (jr_not_before r) now))"

definition claim_set :: "string \<Rightarrow> ms \<Rightarrow> ms \<Rightarrow> job_row \<Rightarrow> job_row" where
  "claim_set owner leaseMs now r =
     r\<lparr> jr_status := Claimed, jr_lease_owner := Some owner, jr_lease_until := Some (now + leaseMs),
        jr_attempts := jr_attempts r + 1, jr_updated_at := now \<rparr>"

definition claim_row :: "nat \<Rightarrow> job_row \<Rightarrow> bool" where
  "claim_row i r = (jr_id r = i \<and> jr_status r = Queued)"

definition claim ::
  "job_kind \<Rightarrow> string option \<Rightarrow> ms \<Rightarrow> string \<Rightarrow> ms \<Rightarrow> jobs_db \<Rightarrow> jobs_db \<times> claimed_job option" where
  "claim kind target leaseMs owner now db =
     (case limit_one (order_by jr_id (sel_where (claimable kind target now) (rows db))) of
        None \<Rightarrow> (db, None)
      | Some cand \<Rightarrow>
          (let P = claim_row (jr_id cand); f = claim_set owner leaseMs now in
           case first_where P (rows db) of
             None \<Rightarrow> (db, None)
           | Some r0 \<Rightarrow>
               (let row = f r0 in
                (db\<lparr> rows := upd_where P f (rows db) \<rparr>,
                 Some \<lparr> cj_id = jr_id row, cj_kind = jr_kind row, cj_spec = jr_spec row,
                        cj_lease = owner,
                        cj_leaseUntil = or_default (jr_lease_until row) (now + leaseMs),
                        cj_attempt = jr_attempts row \<rparr>))))"

definition pending :: "string option \<Rightarrow> job_kind option \<Rightarrow> jobs_db \<Rightarrow> nat" where
  "pending target kind db =
     (case kind of
        Some k \<Rightarrow> n_where (\<lambda>r. jr_status r = Queued \<and> jr_kind r = k \<and> for_target target r) (rows db)
      | None \<Rightarrow> n_where (\<lambda>r. jr_status r = Queued \<and> for_target target r) (rows db))"

section \<open>Operations of the lease owner\<close>

text \<open>\<open>WHERE id = ? AND lease_owner = ? AND status IN ('claimed', 'running')\<close>\<close>

definition live_lease :: "nat \<Rightarrow> string \<Rightarrow> job_row \<Rightarrow> bool" where
  "live_lease jobId lease r =
     (jr_id r = jobId \<and> jr_lease_owner r = Some lease \<and> jr_status r \<in> {Claimed, Running})"

definition heartbeat :: "nat \<Rightarrow> string \<Rightarrow> ms \<Rightarrow> ms \<Rightarrow> jobs_db \<Rightarrow> jobs_db \<times> bool" where
  "heartbeat jobId lease leaseMs now db =
     (let P = live_lease jobId lease;
          f = (\<lambda>r. r\<lparr> jr_lease_until := Some (now + leaseMs), jr_updated_at := now \<rparr>)
      in (db\<lparr> rows := upd_where P f (rows db) \<rparr>, n_where P (rows db) = 1))"

definition progress :: "nat \<Rightarrow> string \<Rightarrow> string \<Rightarrow> ms \<Rightarrow> jobs_db \<Rightarrow> jobs_db \<times> bool" where
  "progress jobId lease chunk now db =
     (if chunk = [] then (db, True)
      else let clipped = take MAX_LOG_BYTES chunk; P = live_lease jobId lease in
           case first_where P (rows db) of
             None \<Rightarrow> (db, False)
           | Some cur \<Rightarrow>
               (let nxt = slice_last MAX_LOG_BYTES (or_default (jr_log cur) [] @ clipped)
                in (db\<lparr> rows := upd_where P (\<lambda>r. r\<lparr> jr_log := Some nxt, jr_updated_at := now \<rparr>)
                          (rows db) \<rparr>,
                    n_where P (rows db) = 1)))"

definition start_row :: "nat \<Rightarrow> string \<Rightarrow> job_row \<Rightarrow> bool" where
  "start_row jobId lease r =
     (jr_id r = jobId \<and> jr_lease_owner r = Some lease \<and> jr_status r = Claimed)"

definition start :: "nat \<Rightarrow> string \<Rightarrow> ms \<Rightarrow> jobs_db \<Rightarrow> jobs_db \<times> bool" where
  "start jobId lease now db =
     (let P = start_row jobId lease
      in (db\<lparr> rows := upd_where P (\<lambda>r. r\<lparr> jr_status := Running, jr_updated_at := now \<rparr>) (rows db) \<rparr>,
          n_where P (rows db) = 1))"

text \<open>\<open>JSON.stringify(result ?? null)\<close>, given the JSON text of a result that is present.\<close>

definition result_json :: "string option \<Rightarrow> string" where
  "result_json result = or_default result ''null''"

definition finish_set :: "job_status \<Rightarrow> string \<Rightarrow> ms \<Rightarrow> job_row \<Rightarrow> job_row" where
  "finish_set status res now r =
     r\<lparr> jr_status := status, jr_result := Some res, jr_lease_owner := None,
        jr_lease_until := None, jr_updated_at := now \<rparr>"

definition finish ::
  "nat \<Rightarrow> string \<Rightarrow> job_status \<Rightarrow> string option \<Rightarrow> ms \<Rightarrow> jobs_db \<Rightarrow> queue_error + (jobs_db \<times> bool)" where
  "finish jobId lease status result now db =
     (let r = result_json result; P = live_lease jobId lease in
      if length r > MAX_RESULT_BYTES then Inl ResultTooLarge
      else Inr (db\<lparr> rows := upd_where P (finish_set status r now) (rows db) \<rparr>,
                n_where P (rows db) = 1))"

definition succeed ::
  "nat \<Rightarrow> string \<Rightarrow> string option \<Rightarrow> ms \<Rightarrow> jobs_db \<Rightarrow> queue_error + (jobs_db \<times> bool)" where
  "succeed jobId lease result now db = finish jobId lease Succeeded result now db"

text \<open>
  \<open>fail\<close> is a SELECT followed, in a later turn of the event loop, by an UPDATE.  The two
  halves are \<open>fail_read\<close> and \<open>fail_write\<close>; \<open>fail\<close> runs them back to back.
\<close>

definition fail_read :: "nat \<Rightarrow> string \<Rightarrow> jobs_db \<Rightarrow> (int \<times> int) option" where
  "fail_read jobId lease db =
     map_option (\<lambda>r. (jr_attempts r, jr_max_attempts r))
       (first_where (\<lambda>r. jr_id r = jobId \<and> jr_lease_owner r = Some lease) (rows db))"

definition capped_result :: "string option \<Rightarrow> string" where
  "capped_result result =
     (let r = result_json result
      in if length r > MAX_RESULT_BYTES then ''\"result too large\"'' else r)"

definition fail_write ::
  "nat \<Rightarrow> string \<Rightarrow> string option \<Rightarrow> bool \<Rightarrow> ms \<Rightarrow> (int \<times> int) option \<Rightarrow> jobs_db
     \<Rightarrow> queue_error + (jobs_db \<times> job_status)" where
  "fail_write jobId lease result rolledBack now row db =
     (case row of
        None \<Rightarrow> Inr (db, Unknown)
      | Some (att, mx) \<Rightarrow>
          if rolledBack then
            map_sum id (\<lambda>(db', _). (db', RolledBack)) (finish jobId lease RolledBack result now db)
          else if att < mx then
            Inr (db\<lparr> rows := upd_where (live_lease jobId lease)
                        (finish_set Queued (capped_result result) now) (rows db) \<rparr>, Queued)
          else
            map_sum id (\<lambda>(db', _). (db', Failed)) (finish jobId lease Failed result now db))"

definition fail ::
  "nat \<Rightarrow> string \<Rightarrow> string option \<Rightarrow> bool \<Rightarrow> ms \<Rightarrow> jobs_db \<Rightarrow> queue_error + (jobs_db \<times> job_status)" where
  "fail jobId lease result rolledBack now db =
     fail_write jobId lease result rolledBack now (fail_read jobId lease db) db"

section \<open>Recovery, reconciliation, reads and retention\<close>

definition recover_requeue :: "ms \<Rightarrow> job_row \<Rightarrow> bool" where
  "recover_requeue now r =
     (jr_status r = Claimed \<and> sql_lt (jr_lease_until r) now \<and> jr_attempts r < jr_max_attempts r)"

definition recover_lost :: "ms \<Rightarrow> job_row \<Rightarrow> bool" where
  "recover_lost now r = (jr_status r \<in> {Claimed, Running} \<and> sql_lt (jr_lease_until r) now)"

definition requeue_set :: "ms \<Rightarrow> job_row \<Rightarrow> job_row" where
  "requeue_set now r =
     r\<lparr> jr_status := Queued, jr_lease_owner := None, jr_lease_until := None, jr_updated_at := now \<rparr>"

definition lose_set :: "ms \<Rightarrow> job_row \<Rightarrow> job_row" where
  "lose_set now r = r\<lparr> jr_status := Unknown, jr_updated_at := now \<rparr>"

definition recover :: "ms \<Rightarrow> jobs_db \<Rightarrow> jobs_db \<times> nat \<times> nat" where
  "recover now db =
     (let requeued = n_where (recover_requeue now) (rows db);
          t1 = upd_where (recover_requeue now) (requeue_set now) (rows db);
          unknown = n_where (recover_lost now) t1;
          t2 = upd_where (recover_lost now) (lose_set now) t1
      in (db\<lparr> rows := t2 \<rparr>, requeued, unknown))"

definition reconcile ::
  "nat \<Rightarrow> job_status \<Rightarrow> string option \<Rightarrow> ms \<Rightarrow> jobs_db \<Rightarrow> jobs_db \<times> bool" where
  "reconcile jobId outcome result now db =
     (let P = (\<lambda>r. jr_id r = jobId \<and> jr_status r = Unknown);
          f = (\<lambda>r. r\<lparr> jr_status := outcome, jr_result := Some (capped_result result),
                     jr_updated_at := now \<rparr>)
      in (db\<lparr> rows := upd_where P f (rows db) \<rparr>, n_where P (rows db) = 1))"

definition get_job :: "nat \<Rightarrow> jobs_db \<Rightarrow> job option" where
  "get_job i db = map_option toJob (first_where (\<lambda>r. jr_id r = i) (rows db))"

definition byKey :: "string \<Rightarrow> jobs_db \<Rightarrow> job option" where
  "byKey jobKey db = map_option toJob (first_where (\<lambda>r. jr_job_key r = jobKey) (rows db))"

text \<open>An empty \<open>target\<close> string is falsy in the source, so it adds no condition.\<close>

definition list_jobs ::
  "job_status option \<Rightarrow> job_kind option \<Rightarrow> string option \<Rightarrow> nat option \<Rightarrow> jobs_db \<Rightarrow> job list" where
  "list_jobs status kind target limit db =
     map toJob (take (or_default limit 100) (order_by_desc jr_id (sel_where
       (\<lambda>r. (case status of None \<Rightarrow> True | Some s \<Rightarrow> jr_status r = s) \<and>
            (case kind of None \<Rightarrow> True | Some k \<Rightarrow> jr_kind r = k) \<and>
            (case target of None \<Rightarrow> True | Some t \<Rightarrow> t = [] \<or> jr_target r = Some t)) (rows db))))"

definition prune_jobs :: "ms \<Rightarrow> jobs_db \<Rightarrow> jobs_db \<times> nat" where
  "prune_jobs olderThan db =
     (let P = (\<lambda>r. jr_status r \<in> set TERMINAL \<and> jr_updated_at r < olderThan)
      in (db\<lparr> rows := del_where P (rows db) \<rparr>, n_where P (rows db)))"

end
