(* ===== verification/Job_Queue.thy ===== *)
theory Job_Queue
  imports Jobs
begin

text \<open>
  The queue as a transition system.  \<open>qstate\<close> adds to the table the lease tokens handed out so
  far (the model of \<open>randomBytes\<close> never repeating a token) and the answers of \<open>fail\<close>'s SELECT
  that still wait for their UPDATE, so that \<open>qstep\<close> interleaves the two halves of \<open>fail\<close> with
  everything else.  \<open>queue_inv\<close> is the invariant, \<open>row_evo\<close> the permitted change of one row.
\<close>

section \<open>Rows\<close>

definition row_ok :: "job_row \<Rightarrow> bool" where
  "row_ok r \<longleftrightarrow>
     (jr_status r = Queued \<longrightarrow> jr_lease_owner r = None \<and> jr_lease_until r = None \<and>
        (jr_attempts r = 0 \<or> jr_attempts r < jr_max_attempts r)) \<and>
     (jr_status r \<in> {Claimed, Running} \<longrightarrow> jr_lease_owner r \<noteq> None \<and> jr_lease_until r \<noteq> None) \<and>
     0 \<le> jr_attempts r \<and> jr_attempts r \<le> max 1 (jr_max_attempts r) \<and>
     length (or_default (jr_log r) []) \<le> MAX_LOG_BYTES \<and>
     length (jr_spec r) \<le> MAX_SPEC_BYTES"

text \<open>The lifecycle: the status changes the queue permits.\<close>

fun allowed :: "job_status \<Rightarrow> job_status \<Rightarrow> bool" where
  "allowed Queued s = (s \<in> {Queued, Claimed})"
| "allowed Claimed s = True"
| "allowed Running s = (s \<noteq> Claimed)"
| "allowed Unknown s = (s \<in> {Unknown, Succeeded, Failed, RolledBack})"
| "allowed Succeeded s = (s = Succeeded)"
| "allowed Failed s = (s = Failed)"
| "allowed RolledBack s = (s = RolledBack)"

definition frozen_part :: "job_row \<Rightarrow> nat \<times> string \<times> job_kind \<times> string option \<times> string \<times> ms option \<times> int \<times> ms" where
  "frozen_part r = (jr_id r, jr_job_key r, jr_kind r, jr_target r, jr_spec r, jr_not_before r,
     jr_max_attempts r, jr_created_at r)"

definition row_evo :: "job_row \<Rightarrow> job_row \<Rightarrow> bool" where
  "row_evo r r' \<longleftrightarrow> frozen_part r' = frozen_part r \<and> allowed (jr_status r) (jr_status r') \<and>
     jr_attempts r \<le> jr_attempts r' \<and> (isTerminal (jr_status r) \<longrightarrow> r' = r)"

lemma isTerminal_simps [simp]:
  "isTerminal Succeeded" "isTerminal Failed" "isTerminal RolledBack"
  "\<not> isTerminal Queued" "\<not> isTerminal Claimed" "\<not> isTerminal Running" "\<not> isTerminal Unknown"
  by (simp_all add: isTerminal_def)

lemma allowed_refl [simp]: "allowed s s"
  by (cases s) auto

lemma row_evo_refl [simp]: "row_evo r r"
  by (simp add: row_evo_def)

lemmas row_defs = live_lease_def start_row_def claim_row_def recover_requeue_def recover_lost_def
  requeue_set_def lose_set_def finish_set_def claim_set_def frozen_part_def

section \<open>The transition system\<close>

record qstate =
  q_db :: jobs_db
  q_issued :: "string set"
  q_reads :: "(nat \<times> string \<times> int \<times> int) set"

definition q_init :: qstate where
  "q_init = \<lparr> q_db = \<lparr> rows = [], seq = 0 \<rparr>, q_issued = {}, q_reads = {} \<rparr>"

datatype qevent =
    EEnqueue | EClaim string | EHeartbeat string | EProgress string | EStart string
  | ESucceed string | EFailRead string | EFail string | ERecover | EReconcile | EPrune

inductive qstep :: "qstate \<Rightarrow> qevent \<Rightarrow> qstate \<Rightarrow> bool" where
  enq: "enqueue opts key now (q_db s) = Inr (db', j, c) \<Longrightarrow> qstep s EEnqueue (s\<lparr>q_db := db'\<rparr>)"
| clm: "owner \<notin> q_issued s \<Longrightarrow> claim kind target leaseMs owner now (q_db s) = (db', c) \<Longrightarrow>
    qstep s (EClaim owner) (s\<lparr>q_db := db', q_issued := insert owner (q_issued s)\<rparr>)"
| hb: "heartbeat i l leaseMs now (q_db s) = (db', b) \<Longrightarrow> qstep s (EHeartbeat l) (s\<lparr>q_db := db'\<rparr>)"
| prg: "progress i l chunk now (q_db s) = (db', b) \<Longrightarrow> qstep s (EProgress l) (s\<lparr>q_db := db'\<rparr>)"
| sta: "start i l now (q_db s) = (db', b) \<Longrightarrow> qstep s (EStart l) (s\<lparr>q_db := db'\<rparr>)"
| suc: "succeed i l res now (q_db s) = Inr (db', b) \<Longrightarrow> qstep s (ESucceed l) (s\<lparr>q_db := db'\<rparr>)"
| frd: "fail_read i l (q_db s) = Some (att, mx) \<Longrightarrow>
    qstep s (EFailRead l) (s\<lparr>q_reads := insert (i, l, att, mx) (q_reads s)\<rparr>)"
| fwr: "(i, l, att, mx) \<in> q_reads s \<Longrightarrow>
    fail_write i l res rb now (Some (att, mx)) (q_db s) = Inr (db', st) \<Longrightarrow>
    qstep s (EFail l) (s\<lparr>q_db := db'\<rparr>)"
| rec: "recover now (q_db s) = (db', n, m) \<Longrightarrow> qstep s ERecover (s\<lparr>q_db := db'\<rparr>)"
| rcn: "outcome \<in> {Succeeded, Failed, RolledBack} \<Longrightarrow>
    reconcile i outcome res now (q_db s) = (db', b) \<Longrightarrow> qstep s EReconcile (s\<lparr>q_db := db'\<rparr>)"
| prn: "prune_jobs olderThan (q_db s) = (db', n) \<Longrightarrow> qstep s EPrune (s\<lparr>q_db := db'\<rparr>)"

definition qrel :: "qstate \<Rightarrow> qstate \<Rightarrow> bool" where
  "qrel s t = (\<exists>e. qstep s e t)"

inductive_cases qstep_claimE: "qstep s (EClaim l) t"
inductive_cases qstep_failE: "qstep s (EFail l) t"
inductive_cases qstep_recoverE: "qstep s ERecover t"
inductive_simps qstep_prune_iff: "qstep s EPrune t"

definition leases_unique :: "job_row list \<Rightarrow> bool" where
  "leases_unique t \<longleftrightarrow> (\<forall>r \<in> set t. \<forall>r' \<in> set t.
     jr_lease_owner r \<noteq> None \<and> jr_lease_owner r = jr_lease_owner r' \<longrightarrow> jr_id r = jr_id r')"

definition db_inv :: "jobs_db \<Rightarrow> bool" where
  "db_inv db \<longleftrightarrow> unique_on jr_id (rows db) \<and> unique_on jr_job_key (rows db) \<and>
     (\<forall>r \<in> set (rows db). jr_id r \<le> seq db \<and> row_ok r) \<and> leases_unique (rows db)"

definition queue_inv :: "qstate \<Rightarrow> bool" where
  "queue_inv s \<longleftrightarrow> db_inv (q_db s) \<and>
     (\<forall>r \<in> set (rows (q_db s)). \<forall>l. jr_lease_owner r = Some l \<longrightarrow> l \<in> q_issued s) \<and>
     (\<forall>(i, l, att, mx) \<in> q_reads s. l \<in> q_issued s \<and>
        (\<forall>r \<in> set (rows (q_db s)). jr_id r = i \<and> jr_lease_owner r = Some l \<longrightarrow>
           jr_attempts r = att \<and> jr_max_attempts r = mx))"

section \<open>Pointwise updates keep the invariant\<close>

text \<open>
  Every operation but enqueue, claim and prune rewrites rows in place.  Such a rewrite is
  \<open>tame\<close> when it follows \<open>row_evo\<close>, keeps \<open>row_ok\<close> and neither moves a lease nor the attempt
  count of a leased row.
\<close>

definition tame :: "job_row \<Rightarrow> job_row \<Rightarrow> bool" where
  "tame r r' \<longleftrightarrow> row_evo r r' \<and> row_ok r' \<and> jr_attempts r' = jr_attempts r \<and>
     (jr_lease_owner r' = None \<or> jr_lease_owner r' = jr_lease_owner r)"

definition tame_upd :: "jobs_db \<Rightarrow> jobs_db \<Rightarrow> bool" where
  "tame_upd db db' \<longleftrightarrow> seq db' = seq db \<and>
     (\<exists>g. rows db' = map g (rows db) \<and> (\<forall>r \<in> set (rows db). tame r (g r)))"

lemma tameD:
  assumes "tame r r'"
  shows "jr_id r' = jr_id r" "jr_job_key r' = jr_job_key r" "jr_max_attempts r' = jr_max_attempts r"
    "jr_attempts r' = jr_attempts r" "row_ok r'" "row_evo r r'"
    "jr_lease_owner r' = None \<or> jr_lease_owner r' = jr_lease_owner r"
  using assms by (simp_all add: tame_def row_evo_def frozen_part_def)

lemma tameE:
  assumes "tame r r'"
  obtains "jr_id r' = jr_id r" "jr_job_key r' = jr_job_key r" "jr_max_attempts r' = jr_max_attempts r"
    "jr_attempts r' = jr_attempts r" "row_ok r'"
    "jr_lease_owner r' = None \<or> jr_lease_owner r' = jr_lease_owner r"
  using tameD [OF assms] by blast

lemma tame_refl: "row_ok r \<Longrightarrow> tame r r"
  by (simp add: tame_def)

lemma tame_updI:
  assumes "\<And>r. r \<in> set (rows db) \<Longrightarrow> P r \<Longrightarrow> tame r (f r)" "\<forall>r \<in> set (rows db). row_ok r"
  shows "tame_upd db (db\<lparr>rows := upd_where P f (rows db)\<rparr>)"
  unfolding tame_upd_def upd_where_def using assms
  by (auto intro!: exI [where x = "\<lambda>r. if P r then f r else r"] tame_refl)

lemma tame_ids:
  assumes "tame_upd db db'"
  shows "map jr_id (rows db') = map jr_id (rows db)"
    and "map jr_job_key (rows db') = map jr_job_key (rows db)"
  using assms unfolding tame_upd_def by (auto simp: tameD(1) tameD(2))

lemma tame_upd_back:
  assumes "tame_upd db db'" "r' \<in> set (rows db')"
  shows "\<exists>r \<in> set (rows db). tame r r'"
proof -
  obtain g where g: "rows db' = map g (rows db)" "\<forall>r \<in> set (rows db). tame r (g r)"
    using assms(1) by (auto simp: tame_upd_def)
  then obtain r where "r \<in> set (rows db)" "r' = g r" using assms(2) by auto
  with g(2) show ?thesis by blast
qed

lemma tame_db_inv:
  assumes t: "tame_upd db db'" and inv: "db_inv db"
  shows "db_inv db'"
proof -
  note ids = tame_ids [OF t]
  have "unique_on jr_id (rows db')" "unique_on jr_job_key (rows db')"
    using inv ids by (simp_all add: db_inv_def unique_on_def)
  moreover have "jr_id r' \<le> seq db' \<and> row_ok r'" if "r' \<in> set (rows db')" for r'
    using tame_upd_back [OF t that] inv t
    by (auto simp: db_inv_def tame_upd_def elim!: tameE)
  moreover have "leases_unique (rows db')"
    unfolding leases_unique_def
  proof (intro ballI impI)
    fix r r' assume r: "r \<in> set (rows db')" "r' \<in> set (rows db')"
      and l: "jr_lease_owner r \<noteq> None \<and> jr_lease_owner r = jr_lease_owner r'"
    obtain r0 r0' where "r0 \<in> set (rows db)" "tame r0 r" "r0' \<in> set (rows db)" "tame r0' r'"
      using tame_upd_back [OF t r(1)] tame_upd_back [OF t r(2)] by blast
    then have id: "jr_id r = jr_id r0" "jr_id r' = jr_id r0'"
      and own: "jr_lease_owner r = jr_lease_owner r0" "jr_lease_owner r' = jr_lease_owner r0'"
      using l tameD(7) [of r0 r] tameD(7) [of r0' r'] by (auto simp: tameD(1))
    then have "jr_lease_owner r0 \<noteq> None \<and> jr_lease_owner r0 = jr_lease_owner r0'"
      using l own by metis
    then have "jr_id r0 = jr_id r0'"
      using inv \<open>r0 \<in> set (rows db)\<close> \<open>r0' \<in> set (rows db)\<close>
      unfolding db_inv_def leases_unique_def by blast
    with id show "jr_id r = jr_id r'" by simp
  qed
  ultimately show ?thesis by (simp add: db_inv_def)
qed

lemma tame_queue_inv:
  assumes t: "tame_upd (q_db s) db'" and inv: "queue_inv s"
  shows "queue_inv (s\<lparr>q_db := db'\<rparr>)"
proof -
  have "db_inv db'" using t inv by (auto simp: queue_inv_def intro: tame_db_inv)
  moreover have "l \<in> q_issued s" if r': "r' \<in> set (rows db')" "jr_lease_owner r' = Some l" for r' l
    using tame_upd_back [OF t r'(1)] r'(2) inv by (fastforce simp: queue_inv_def tame_def)
  moreover have "jr_attempts r' = att \<and> jr_max_attempts r' = mx"
    if rd: "(i, l, att, mx) \<in> q_reads s" and r': "r' \<in> set (rows db')" "jr_id r' = i"
      "jr_lease_owner r' = Some l"
    for i l att mx r'
  proof -
    obtain r where "r \<in> set (rows (q_db s))" "tame r r'"
      using tame_upd_back [OF t r'(1)] by blast
    then have r: "r \<in> set (rows (q_db s))" "jr_id r = i" "jr_lease_owner r = Some l"
      "jr_attempts r' = jr_attempts r" "jr_max_attempts r' = jr_max_attempts r"
      using r' by (auto elim!: tameE)
    then show ?thesis using inv rd by (fastforce simp: queue_inv_def)
  qed
  ultimately show ?thesis using inv unfolding queue_inv_def by simp blast
qed


section \<open>Every operation is tame, a fresh row, a claim or a deletion\<close>

lemma db_inv_row_ok: "db_inv db \<Longrightarrow> r \<in> set (rows db) \<Longrightarrow> row_ok r"
  by (simp add: db_inv_def)

lemma heartbeat_tame:
  assumes "db_inv db" "heartbeat i l leaseMs now db = (db', b)"
  shows "tame_upd db db'"
proof -
  have "db' = db\<lparr>rows := upd_where (live_lease i l)
      (\<lambda>r. r\<lparr>jr_lease_until := Some (now + leaseMs), jr_updated_at := now\<rparr>) (rows db)\<rparr>"
    using assms(2) by (simp add: heartbeat_def Let_def)
  then show ?thesis using db_inv_row_ok [OF assms(1)]
    by (simp only:) (rule tame_updI,
      auto simp: tame_def row_evo_def frozen_part_def live_lease_def row_ok_def)
qed

lemma progress_tame:
  assumes inv: "db_inv db" and p: "progress i l chunk now db = (db', b)"
  shows "tame_upd db db'"
proof (cases "chunk = [] \<or> first_where (live_lease i l) (rows db) = None")
  case True
  then have "db' = db" using p
    by (auto simp: progress_def Let_def split: if_splits)
  then show ?thesis using inv
    by (auto simp: tame_upd_def db_inv_def intro!: exI [where x = "\<lambda>r. r"] tame_refl)
next
  case False
  then obtain cur where "first_where (live_lease i l) (rows db) = Some cur"
    by (auto)
  then have "\<exists>nxt. length nxt \<le> MAX_LOG_BYTES \<and> db' = db\<lparr>rows := upd_where (live_lease i l)
      (\<lambda>r. r\<lparr>jr_log := Some nxt, jr_updated_at := now\<rparr>) (rows db)\<rparr>"
    using False p by (auto simp: progress_def Let_def length_slice_last
        intro!: exI [where x = "slice_last MAX_LOG_BYTES (or_default (jr_log cur) [] @ take MAX_LOG_BYTES chunk)"])
  then obtain nxt where "length nxt \<le> MAX_LOG_BYTES" "db' = db\<lparr>rows := upd_where (live_lease i l)
      (\<lambda>r. r\<lparr>jr_log := Some nxt, jr_updated_at := now\<rparr>) (rows db)\<rparr>" by blast
  then show ?thesis using db_inv_row_ok [OF inv]
    by (simp only:) (rule tame_updI,
      auto simp: tame_def row_evo_def frozen_part_def live_lease_def row_ok_def)
qed

lemma start_tame:
  assumes "db_inv db" "start i l now db = (db', b)"
  shows "tame_upd db db'"
proof -
  have "db' = db\<lparr>rows := upd_where (start_row i l)
      (\<lambda>r. r\<lparr>jr_status := Running, jr_updated_at := now\<rparr>) (rows db)\<rparr>"
    using assms(2) by (simp add: start_def Let_def)
  then show ?thesis using db_inv_row_ok [OF assms(1)]
    by (simp only:) (rule tame_updI,
      auto simp: tame_def row_evo_def frozen_part_def start_row_def row_ok_def)
qed

lemma finish_tame:
  assumes "db_inv db" "finish i l st res now db = Inr (db', b)" "isTerminal st"
  shows "tame_upd db db'"
proof -
  have "db' = db\<lparr>rows := upd_where (live_lease i l) (finish_set st (result_json res) now) (rows db)\<rparr>"
    using assms(2) by (auto simp: finish_def Let_def split: if_splits)
  then show ?thesis using db_inv_row_ok [OF assms(1)] assms(3)
    by (simp only:) (rule tame_updI, cases st,
      auto simp: tame_def row_evo_def frozen_part_def live_lease_def finish_set_def row_ok_def)
qed

lemma fail_retry_tame:
  assumes "db_inv db"
    and "\<And>r. r \<in> set (rows db) \<Longrightarrow> live_lease i l r \<Longrightarrow> jr_attempts r < jr_max_attempts r"
  shows "tame_upd db (db\<lparr>rows := upd_where (live_lease i l) (finish_set Queued res now) (rows db)\<rparr>)"
  using db_inv_row_ok [OF assms(1)] assms(2)
  by (intro tame_updI)
    (auto simp: tame_def row_evo_def frozen_part_def live_lease_def finish_set_def row_ok_def)

lemma fail_write_tame:
  assumes inv: "db_inv db" and w: "fail_write i l res rb now (Some (att, mx)) db = Inr (db', st)"
    and rd: "\<And>r. r \<in> set (rows db) \<Longrightarrow> live_lease i l r \<Longrightarrow> jr_attempts r = att \<and> jr_max_attempts r = mx"
  shows "tame_upd db db'"
proof -
  consider (rb) b where "finish i l RolledBack res now db = Inr (db', b)"
    | (retry) "att < mx" "db' = db\<lparr>rows := upd_where (live_lease i l)
        (finish_set Queued (capped_result res) now) (rows db)\<rparr>"
    | (final) b where "finish i l Failed res now db = Inr (db', b)"
    using w by (cases "finish i l RolledBack res now db"; cases "finish i l Failed res now db")
      (auto simp: fail_write_def split: if_splits)
  then show ?thesis
  proof cases
    case rb
    then show ?thesis by (rule finish_tame [OF inv]) simp
  next
    case retry
    then show ?thesis using rd by (auto intro!: fail_retry_tame [OF inv])
  next
    case final
    then show ?thesis by (rule finish_tame [OF inv]) simp
  qed
qed

text \<open>\<open>recover\<close> makes two passes; on each row they amount to one.\<close>

definition recover_row :: "ms \<Rightarrow> job_row \<Rightarrow> job_row" where
  "recover_row now r =
     (if recover_requeue now r then requeue_set now r
      else if recover_lost now r then lose_set now r else r)"

lemma recover_rows: "rows (fst (recover now db)) = map (recover_row now) (rows db)"
  by (auto simp: recover_def Let_def upd_where_def recover_row_def recover_lost_def requeue_set_def)

lemma recover_row_tame:
  assumes ok: "row_ok r"
  shows "tame r (recover_row now r)"
proof (cases "recover_requeue now r")
  case True
  then show ?thesis using ok
    by (simp add: recover_row_def tame_def row_evo_def frozen_part_def recover_requeue_def
        requeue_set_def row_ok_def)
next
  case no_requeue: False
  show ?thesis
  proof (cases "recover_lost now r")
    case True
    then have "jr_status r = Claimed \<or> jr_status r = Running" by (simp add: recover_lost_def)
    moreover have "recover_row now r = lose_set now r"
      using no_requeue True by (simp add: recover_row_def)
    ultimately show ?thesis using ok
      by (elim disjE) (simp_all add: lose_set_def tame_def row_evo_def frozen_part_def row_ok_def)
  next
    case False
    then show ?thesis using no_requeue ok by (simp add: recover_row_def tame_refl)
  qed
qed

lemma recover_tame:
  assumes "db_inv db" "recover now db = (db', n, m)"
  shows "tame_upd db db'"
proof -
  have "rows db' = map (recover_row now) (rows db)" "seq db' = seq db"
    using recover_rows [of now db] assms(2) by (auto simp: recover_def Let_def)
  then show ?thesis using db_inv_row_ok [OF assms(1)]
    by (auto simp: tame_upd_def intro!: exI [where x = "recover_row now"] recover_row_tame)
qed

lemma reconcile_tame:
  assumes "db_inv db" "reconcile i outcome res now db = (db', b)" "isTerminal outcome"
  shows "tame_upd db db'"
proof -
  have "db' = db\<lparr>rows := upd_where (\<lambda>r. jr_id r = i \<and> jr_status r = Unknown)
      (\<lambda>r. r\<lparr>jr_status := outcome, jr_result := Some (capped_result res), jr_updated_at := now\<rparr>)
      (rows db)\<rparr>"
    using assms(2) by (simp add: reconcile_def Let_def)
  then show ?thesis using db_inv_row_ok [OF assms(1)] assms(3)
    by (simp only:) (rule tame_updI, cases outcome,
      auto simp: tame_def row_evo_def frozen_part_def row_ok_def)
qed


section \<open>Enqueue, claim and prune\<close>

lemma claim_cases:
  assumes "claim kind target leaseMs owner now db = (db', c)"
  obtains (none) "db' = db" "c = None"
  | (some) cand where "cand \<in> set (rows db)" "claimable kind target now cand"
      "\<And>r. r \<in> set (rows db) \<Longrightarrow> claimable kind target now r \<Longrightarrow> jr_id cand \<le> jr_id r"
      "db' = db\<lparr>rows := upd_where (claim_row (jr_id cand)) (claim_set owner leaseMs now) (rows db)\<rparr>"
      "c \<noteq> None" "cj_id (the c) = jr_id cand" "cj_lease (the c) = owner"
proof (cases "limit_one (order_by jr_id (sel_where (claimable kind target now) (rows db)))")
  case None
  then have "db' = db" "c = None" using assms by (simp_all add: claim_def)
  then show thesis by (rule none)
next
  case (Some cand)
  from limit_one_order_by_least [OF this] have cand: "cand \<in> set (rows db)"
    "claimable kind target now cand" and
    least: "\<And>r. r \<in> set (rows db) \<Longrightarrow> claimable kind target now r \<Longrightarrow> jr_id cand \<le> jr_id r"
    by auto
  then have "claim_row (jr_id cand) cand" by (simp add: claim_row_def claimable_def)
  then have "first_where (claim_row (jr_id cand)) (rows db) \<noteq> None" using cand by (auto simp: first_where_None)
  then obtain r0 where r0: "first_where (claim_row (jr_id cand)) (rows db) = Some r0" by auto
  then have "jr_id r0 = jr_id cand" by (auto dest: first_where_SomeD simp: claim_row_def)
  moreover have "db' = db\<lparr>rows := upd_where (claim_row (jr_id cand)) (claim_set owner leaseMs now) (rows db)\<rparr>"
    "c \<noteq> None" "cj_id (the c) = jr_id r0" "cj_lease (the c) = owner"
    using assms Some r0 by (auto simp: claim_def Let_def claim_set_def)
  ultimately show thesis using cand least by (intro some) auto
qed

lemma row_ok_claim: "row_ok r \<Longrightarrow> jr_status r = Queued \<Longrightarrow> row_ok (claim_set owner leaseMs now r)"
  by (auto simp: row_ok_def claim_set_def)

lemma claim_set_simps [simp]:
  "jr_id (claim_set owner leaseMs now r) = jr_id r"
  "jr_job_key (claim_set owner leaseMs now r) = jr_job_key r"
  "jr_lease_owner (claim_set owner leaseMs now r) = Some owner"
  "jr_status (claim_set owner leaseMs now r) = Claimed"
  by (simp_all add: claim_set_def)

text \<open>After a claim a row is either as before, or it is the claimed one.\<close>

lemma claimed_rowsD:
  assumes "r' \<in> set (upd_where (claim_row i) (claim_set owner leaseMs now) t)"
  shows "r' \<in> set t \<and> \<not> claim_row i r' \<or>
    (\<exists>r \<in> set t. claim_row i r \<and> r' = claim_set owner leaseMs now r)"
  using set_upd_whereD [OF assms] by (auto split: if_splits)

lemma claim_db_inv:
  assumes inv: "db_inv db" and c: "claim kind target leaseMs owner now db = (db', c)"
    and fresh: "\<And>r. r \<in> set (rows db) \<Longrightarrow> jr_lease_owner r \<noteq> Some owner"
  shows "db_inv db'"
  using c
proof (cases rule: claim_cases)
  case (some cand)
  let ?P = "claim_row (jr_id cand)" and ?f = "claim_set owner leaseMs now"
  have u: "unique_on jr_id (upd_where ?P ?f (rows db))" "unique_on jr_job_key (upd_where ?P ?f (rows db))"
    using inv by (auto simp: db_inv_def intro: unique_on_upd_where)
  have ok: "jr_id r' \<le> seq db \<and> row_ok r'" if "r' \<in> set (upd_where ?P ?f (rows db))" for r'
    using claimed_rowsD [OF that] inv
    by (auto simp: db_inv_def claim_row_def intro: row_ok_claim)
  have "leases_unique (upd_where ?P ?f (rows db))"
    unfolding leases_unique_def
  proof (intro ballI impI)
    fix r r' assume r: "r \<in> set (upd_where ?P ?f (rows db))" "r' \<in> set (upd_where ?P ?f (rows db))"
      and l: "jr_lease_owner r \<noteq> None \<and> jr_lease_owner r = jr_lease_owner r'"
    from claimed_rowsD [OF r(1)] claimed_rowsD [OF r(2)] show "jr_id r = jr_id r'"
    proof (elim disjE)
      assume "r \<in> set (rows db) \<and> \<not> ?P r" "r' \<in> set (rows db) \<and> \<not> ?P r'"
      with l inv show ?thesis unfolding db_inv_def leases_unique_def by blast
    qed (use l fresh in \<open>auto simp: claim_row_def\<close>)
  qed
  with u ok some(4) show ?thesis by (simp add: db_inv_def)
qed (use inv in simp)

lemma claim_queue_inv:
  assumes inv: "queue_inv s" and c: "claim kind target leaseMs owner now (q_db s) = (db', c)"
    and fresh: "owner \<notin> q_issued s"
  shows "queue_inv (s\<lparr>q_db := db', q_issued := insert owner (q_issued s)\<rparr>)"
proof -
  have nl: "jr_lease_owner r \<noteq> Some owner" if "r \<in> set (rows (q_db s))" for r
    using inv fresh that by (auto simp: queue_inv_def)
  have "db_inv db'" using inv c nl by (auto simp: queue_inv_def intro: claim_db_inv)
  moreover have "\<forall>r \<in> set (rows db'). \<forall>l. jr_lease_owner r = Some l \<longrightarrow>
      l = owner \<or> r \<in> set (rows (q_db s))"
    using c by (cases rule: claim_cases) (auto dest!: claimed_rowsD)
  ultimately show ?thesis using inv fresh unfolding queue_inv_def
    by (simp; intro conjI; fastforce)
qed

lemma new_row_simps [simp]:
  "jr_id (new_row opts key now i) = i" "jr_job_key (new_row opts key now i) = key"
  "jr_lease_owner (new_row opts key now i) = None" "jr_status (new_row opts key now i) = Queued"
  by (simp_all add: new_row_def)

lemma leases_unique_snoc:
  assumes "jr_lease_owner x = None" "leases_unique t"
  shows "leases_unique (t @ [x])"
  unfolding leases_unique_def
proof (intro ballI impI)
  fix r r' assume r: "r \<in> set (t @ [x])" "r' \<in> set (t @ [x])"
    and l: "jr_lease_owner r \<noteq> None \<and> jr_lease_owner r = jr_lease_owner r'"
  then have "r \<noteq> x" "r' \<noteq> x" using assms(1) by metis+
  with r have "r \<in> set t" "r' \<in> set t" by simp_all
  with l assms(2) show "jr_id r = jr_id r'" unfolding leases_unique_def by blast
qed

lemma insert_or_ignore_inv:
  assumes "db_inv db" "length (eo_spec opts) \<le> MAX_SPEC_BYTES"
  shows "db_inv (insert_or_ignore opts key now db)"
proof (cases "\<exists>r \<in> set (rows db). jr_job_key r = key")
  case False
  have "row_ok (new_row opts key now (Suc (seq db)))"
    using assms(2) by (simp add: row_ok_def new_row_def)
  moreover have "\<forall>r \<in> set (rows db). jr_id r \<noteq> Suc (seq db)"
    using assms(1) by (auto simp: db_inv_def)
  moreover have "leases_unique (rows db @ [new_row opts key now (Suc (seq db))])"
    using assms(1) by (simp add: db_inv_def leases_unique_snoc)
  ultimately have "db_inv (db\<lparr>rows := rows db @ [new_row opts key now (Suc (seq db))], seq := Suc (seq db)\<rparr>)"
    using assms(1) False unfolding db_inv_def by (simp add: unique_on_snoc le_SucI)
  then show ?thesis using False by (auto simp: insert_or_ignore_def)
qed (use assms in \<open>simp add: insert_or_ignore_def\<close>)

lemma enqueue_db:
  assumes "enqueue opts key now db = Inr (db', j, c)"
  shows "db' = insert_or_ignore opts (or_default (eo_jobKey opts) key) now db"
    and "length (eo_spec opts) \<le> MAX_SPEC_BYTES"
  using assms by (auto simp: enqueue_def Let_def split: if_splits option.splits)

lemma enqueue_rows:
  assumes "enqueue opts key now db = Inr (db', j, c)" "r' \<in> set (rows db')"
  shows "r' \<in> set (rows db) \<or> r' = new_row opts (or_default (eo_jobKey opts) key) now (Suc (seq db))"
  using assms(2) by (auto simp: enqueue_db(1) [OF assms(1)] insert_or_ignore_def split: if_splits)

lemma enqueue_queue_inv:
  assumes inv: "queue_inv s" and e: "enqueue opts key now (q_db s) = Inr (db', j, c)"
  shows "queue_inv (s\<lparr>q_db := db'\<rparr>)"
proof -
  have "db_inv db'" using inv enqueue_db [OF e] by (auto simp: queue_inv_def intro: insert_or_ignore_inv)
  moreover have "\<forall>r \<in> set (rows db'). \<forall>l. jr_lease_owner r = Some l \<longrightarrow> r \<in> set (rows (q_db s))"
    using enqueue_rows [OF e] by fastforce
  ultimately show ?thesis using inv unfolding queue_inv_def by (simp; fastforce)
qed

lemma prune_queue_inv:
  assumes inv: "queue_inv s" and p: "prune_jobs olderThan (q_db s) = (db', n)"
  shows "queue_inv (s\<lparr>q_db := db'\<rparr>)"
proof -
  have db': "db' = (q_db s)\<lparr>rows := del_where (\<lambda>r. jr_status r \<in> set TERMINAL \<and> jr_updated_at r < olderThan)
      (rows (q_db s))\<rparr>"
    using p by (simp add: prune_jobs_def Let_def)
  have "db_inv db'" using inv unfolding db' queue_inv_def db_inv_def leases_unique_def
    by (auto intro: unique_on_del_where)
  then show ?thesis using inv unfolding queue_inv_def db' by fastforce
qed

section \<open>The invariant\<close>

lemma read_matches:
  assumes "queue_inv s" "(i, l, att, mx) \<in> q_reads s" "r \<in> set (rows (q_db s))" "live_lease i l r"
  shows "jr_attempts r = att \<and> jr_max_attempts r = mx"
  using assms by (fastforce simp: queue_inv_def live_lease_def)

lemma fail_read_queue_inv:
  assumes inv: "queue_inv s" and rd: "fail_read i l (q_db s) = Some (att, mx)"
  shows "queue_inv (s\<lparr>q_reads := insert (i, l, att, mx) (q_reads s)\<rparr>)"
proof -
  obtain r where r: "r \<in> set (rows (q_db s))" "jr_id r = i" "jr_lease_owner r = Some l"
    "jr_attempts r = att" "jr_max_attempts r = mx"
    using rd by (auto simp: fail_read_def dest!: first_where_SomeD)
  have "jr_attempts r' = att \<and> jr_max_attempts r' = mx"
    if "r' \<in> set (rows (q_db s))" "jr_id r' = i" for r'
  proof -
    have "r' = r" using inv r that by (auto simp: queue_inv_def db_inv_def intro: unique_onD)
    then show ?thesis using r by simp
  qed
  moreover have "l \<in> q_issued s" using inv r by (auto simp: queue_inv_def)
  ultimately show ?thesis using inv unfolding queue_inv_def by simp
qed

lemma qstep_inv: "qstep s e t \<Longrightarrow> queue_inv s \<Longrightarrow> queue_inv t"
proof (induction rule: qstep.induct)
  case (fwr i l att mx s res rb now db' st)
  then have "db_inv (q_db s)" by (simp add: queue_inv_def)
  then have "tame_upd (q_db s) db'"
    using fwr(2) by (rule fail_write_tame) (rule read_matches [OF fwr(3) fwr(1)])
  then show ?case using fwr(3) by (rule tame_queue_inv)
next
  case (enq opts key now s db' j c)
  then show ?case by (intro enqueue_queue_inv)
next
  case (clm owner s kind target leaseMs now db' c)
  then show ?case by (intro claim_queue_inv)
next
  case (frd i l s att mx)
  then show ?case by (intro fail_read_queue_inv)
next
  case (prn olderThan s db' n)
  then show ?case by (intro prune_queue_inv)
next
  case (suc i l res now s db' b)
  then have "db_inv (q_db s)" by (simp add: queue_inv_def)
  with suc show ?case by (auto simp: succeed_def intro!: tame_queue_inv elim!: finish_tame)
next
  case (rcn outcome i res now s db' b)
  then have "db_inv (q_db s)" "isTerminal outcome" by (auto simp: queue_inv_def)
  with rcn show ?case by (intro tame_queue_inv reconcile_tame)
next
  case (hb i l leaseMs now s db' b)
  then show ?case by (intro tame_queue_inv heartbeat_tame) (auto simp: queue_inv_def)
next
  case (prg i l chunk now s db' b)
  then show ?case by (intro tame_queue_inv progress_tame) (auto simp: queue_inv_def)
next
  case (sta i l now s db' b)
  then show ?case by (intro tame_queue_inv start_tame) (auto simp: queue_inv_def)
next
  case (rec now s db' n m)
  then show ?case by (intro tame_queue_inv recover_tame) (auto simp: queue_inv_def)
qed

inductive qreach :: "qstate \<Rightarrow> bool" where
  qr_init: "qreach q_init"
| qr_step: "qreach s \<Longrightarrow> qstep s e t \<Longrightarrow> qreach t"

lemma queue_inv_init: "queue_inv q_init"
  by (simp add: q_init_def queue_inv_def db_inv_def leases_unique_def)

lemma qreach_inv: "qreach s \<Longrightarrow> queue_inv s"
  by (induction rule: qreach.induct) (auto intro: queue_inv_init qstep_inv)

end
