(* ===== verification/Job_Contract.thy ===== *)
theory Job_Contract
  imports Job_Queue
begin

text \<open>
  What the queue promises its clients, over whole runs of \<open>qstep\<close>: finished jobs are final,
  specs are frozen, a lost lease stays dead, running work is never silently re-queued, enqueue
  is idempotent and claims are first-in first-out.
\<close>

section \<open>How a step changes the rows\<close>

lemma row_evo_claim:
  "claim_row i r \<Longrightarrow> row_evo r (claim_set owner leaseMs now r)"
  by (simp add: row_evo_def claim_row_def claim_set_def frozen_part_def)

lemma tame_back_evo:
  assumes "tame_upd db db'" "r' \<in> set (rows db')"
  shows "(\<exists>r \<in> set (rows db). jr_id r = jr_id r' \<and> row_evo r r') \<or> seq db < jr_id r'"
  using tame_upd_back [OF assms] by (metis tameD(1) tameD(6))

definition db_step :: "jobs_db \<Rightarrow> jobs_db \<Rightarrow> bool" where
  "db_step db db' \<longleftrightarrow> seq db \<le> seq db' \<and>
     (\<forall>r' \<in> set (rows db'). (\<exists>r \<in> set (rows db). jr_id r = jr_id r' \<and> row_evo r r') \<or> seq db < jr_id r')"

lemma tame_db_step: "tame_upd db db' \<Longrightarrow> db_step db db'"
  using tame_back_evo by (auto simp: db_step_def tame_upd_def)

lemma claim_db_step:
  assumes "claim kind target leaseMs owner now db = (db', c)"
  shows "db_step db db'"
  using assms
proof (cases rule: claim_cases)
  case (some cand)
  then show ?thesis
    by (auto simp: db_step_def dest!: claimed_rowsD intro: row_evo_claim)
qed (auto simp: db_step_def)

lemma enqueue_db_step:
  assumes "enqueue opts key now db = Inr (db', j, c)"
  shows "db_step db db'"
proof -
  have "seq db \<le> seq db'" using enqueue_db(1) [OF assms] by (simp add: insert_or_ignore_def)
  then show ?thesis using enqueue_rows [OF assms] by (fastforce simp: db_step_def)
qed

lemma prune_db_step: "prune_jobs olderThan db = (db', n) \<Longrightarrow> db_step db db'"
  by (auto simp: prune_jobs_def Let_def db_step_def)

lemma db_step_refl: "db_step db db"
  by (auto simp: db_step_def)

lemma qstep_db_step:
  assumes "qstep s e t" "queue_inv s"
  shows "db_step (q_db s) (q_db t)"
proof -
  have inv: "db_inv (q_db s)" using assms(2) by (simp add: queue_inv_def)
  from assms(1) show ?thesis
  proof cases
    case (fwr i l att mx res rb now db' st)
    have "tame_upd (q_db s) db'"
      using inv fwr(4) by (rule fail_write_tame) (rule read_matches [OF assms(2) fwr(3)])
    then show ?thesis using fwr by (simp add: tame_db_step)
  next
    case (suc i l res now db' b)
    then show ?thesis using finish_tame [OF inv] by (auto simp: succeed_def intro: tame_db_step)
  next
    case (rcn outcome i res now db' b)
    then have "isTerminal outcome" by auto
    with rcn show ?thesis by (simp add: tame_db_step reconcile_tame [OF inv])
  qed (auto intro: enqueue_db_step claim_db_step prune_db_step db_step_refl
      tame_db_step heartbeat_tame [OF inv] progress_tame [OF inv] start_tame [OF inv]
      recover_tame [OF inv])
qed

interpretation jq: autoinc_table "\<lambda>s. rows (q_db s)" jr_id "\<lambda>s. seq (q_db s)" qrel row_evo queue_inv
proof unfold_locales
  fix s t r'
  assume "queue_inv s" "qrel s t" and r': "r' \<in> set (rows (q_db t))"
  then have "db_step (q_db s) (q_db t)" using qstep_db_step by (auto simp: qrel_def)
  with r' show "(\<exists>r \<in> set (rows (q_db s)). jr_id r = jr_id r' \<and> row_evo r r') \<or> seq (q_db s) < jr_id r'"
    unfolding db_step_def by blast
next
  fix s t assume "queue_inv s" "qrel s t"
  then show "queue_inv t" "seq (q_db s) \<le> seq (q_db t)"
    using qstep_db_step by (auto simp: qrel_def db_step_def intro: qstep_inv)
qed (simp_all add: queue_inv_def db_inv_def)

section \<open>Leases\<close>

definition lease_gone :: "string \<Rightarrow> qstate \<Rightarrow> bool" where
  "lease_gone l s \<longleftrightarrow> l \<in> q_issued s \<and> (\<forall>r \<in> set (rows (q_db s)). jr_lease_owner r \<noteq> Some l)"

lemma tame_lease_gone:
  assumes "tame_upd (q_db s) db'" "lease_gone l s"
  shows "lease_gone l (s\<lparr>q_db := db'\<rparr>)"
  using assms tame_upd_back [OF assms(1)] by (fastforce simp: lease_gone_def dest: tameD(7))

lemma claim_lease_gone:
  assumes "claim kind target leaseMs owner now (q_db s) = (db', c)" "owner \<notin> q_issued s" "lease_gone l s"
  shows "lease_gone l (s\<lparr>q_db := db', q_issued := insert owner (q_issued s)\<rparr>)"
  using assms(1)
proof (cases rule: claim_cases)
  case (some cand)
  then show ?thesis using assms(2,3)
    by (auto simp: lease_gone_def dest!: claimed_rowsD)
qed (use assms in \<open>auto simp: lease_gone_def\<close>)

lemma qstep_lease_gone:
  assumes "qstep s e t" "queue_inv s" "lease_gone l s"
  shows "lease_gone l t"
proof -
  have inv: "db_inv (q_db s)" using assms(2) by (simp add: queue_inv_def)
  from assms(1) show ?thesis
  proof cases
    case (fwr i l' att mx res rb now db' st)
    have "tame_upd (q_db s) db'"
      using inv fwr(4) by (rule fail_write_tame) (rule read_matches [OF assms(2) fwr(3)])
    then show ?thesis using fwr assms(3) by (simp add: tame_lease_gone)
  next
    case (suc i l' res now db' b)
    then have "tame_upd (q_db s) db'" using finish_tame [OF inv] by (simp add: succeed_def)
    then show ?thesis using suc assms(3) by (simp add: tame_lease_gone)
  next
    case (enq opts key now db' j c)
    then show ?thesis using assms(3) enqueue_rows [OF enq(3)] by (fastforce simp: lease_gone_def)
  next
    case (clm owner kind target leaseMs now db' c)
    then show ?thesis using assms(3) by (simp add: claim_lease_gone)
  next
    case (frd i l att mx)
    then show ?thesis using assms(3) by (simp add: lease_gone_def)
  next
    case (prn olderThan db' n)
    then show ?thesis using assms(3) by (auto simp: lease_gone_def prune_jobs_def Let_def)
  next
    case (rcn outcome i res now db' b)
    then have "isTerminal outcome" by auto
    with rcn show ?thesis using assms(3) reconcile_tame [OF inv] by (simp add: tame_lease_gone)
  qed (use assms(3) in \<open>simp_all add: tame_lease_gone heartbeat_tame [OF inv] progress_tame [OF inv]
      start_tame [OF inv] recover_tame [OF inv]\<close>)
qed

lemma lease_gone_run: "qrel\<^sup>*\<^sup>* s t \<Longrightarrow> queue_inv s \<Longrightarrow> lease_gone l s \<Longrightarrow> lease_gone l t"
proof (induction rule: rtranclp_induct)
  case (step u t)
  then have "queue_inv u" by (auto intro: jq.ok_run)
  with step show ?case by (auto simp: qrel_def intro: qstep_lease_gone)
qed

lemma lease_gone_not_live: "lease_gone l s \<Longrightarrow> r \<in> set (rows (q_db s)) \<Longrightarrow> \<not> live_lease i l r"
  by (simp add: lease_gone_def live_lease_def)


section \<open>A concrete run\<close>

text \<open>
  The inputs of the witnesses: a job with one attempt left is enqueued, claimed under \<open>L1\<close>,
  its lease expires, it is re-queued and claimed again under \<open>L2\<close>.
\<close>

definition demo_opts :: enqueue_opts where
  "demo_opts = \<lparr> eo_kind = Deploy, eo_target = Some ''a'', eo_spec = ''{}'', eo_jobKey = Some ''k'',
     eo_maxAttempts = None, eo_notBefore = None \<rparr>"

definition demo_row :: job_row where
  "demo_row = new_row demo_opts ''k'' 10 1"

definition demo0 :: qstate where
  "demo0 = q_init\<lparr> q_db := \<lparr> rows = [demo_row], seq = 1 \<rparr> \<rparr>"

definition demo1 :: qstate where
  "demo1 = \<lparr> q_db = \<lparr> rows = [claim_set ''L1'' 5 20 demo_row], seq = 1 \<rparr>,
     q_issued = {''L1''}, q_reads = {} \<rparr>"

definition demo2 :: qstate where
  "demo2 = demo1\<lparr> q_db := \<lparr> rows = [requeue_set 100 (claim_set ''L1'' 5 20 demo_row)], seq = 1 \<rparr> \<rparr>"

definition demo_done :: qstate where
  "demo_done = demo1\<lparr> q_db := \<lparr> rows = [finish_set Succeeded ''null'' 21 (claim_set ''L1'' 5 20 demo_row)],
     seq = 1 \<rparr> \<rparr>"

definition demo_lost :: qstate where
  "demo_lost = demo1\<lparr> q_db := \<lparr> rows = [lose_set 100 ((claim_set ''L1'' 5 20 demo_row)
     \<lparr>jr_status := Running, jr_updated_at := 22\<rparr>)], seq = 1 \<rparr> \<rparr>"

lemmas demo_defs = demo_opts_def demo_row_def demo0_def demo1_def demo2_def demo_done_def
  demo_lost_def q_init_def new_row_def claim_set_def requeue_set_def finish_set_def lose_set_def

lemma demo_enqueue: "enqueue demo_opts ''f'' 10 (q_db q_init) = Inr (q_db demo0, toJob demo_row, True)"
  by (simp add: enqueue_def Let_def insert_or_ignore_def first_where_Cons demo_defs MAX_SPEC_BYTES_def)

lemma demo_claim:
  "claim Deploy (Some ''a'') 5 ''L1'' 20 (q_db demo0) =
     (q_db demo1, Some \<lparr> cj_id = 1, cj_kind = Deploy, cj_spec = ''{}'', cj_lease = ''L1'',
        cj_leaseUntil = 25, cj_attempt = 1 \<rparr>)"
  by (simp add: claim_def Let_def order_by_def sel_where_def claimable_def for_target_def
      first_where_Cons claim_row_def upd_where_def demo_defs)

lemma demo_recover: "recover 100 (q_db demo1) = (q_db demo2, 1, 0)"
  by (simp add: recover_def Let_def n_where_def upd_where_def recover_requeue_def recover_lost_def demo_defs)

lemma demo_succeed: "succeed 1 ''L1'' None 21 (q_db demo1) = Inr (q_db demo_done, True)"
  by (simp add: succeed_def finish_def Let_def n_where_def upd_where_def live_lease_def demo_defs
      result_json_def MAX_RESULT_BYTES_def)

lemma demo_step0: "qstep q_init EEnqueue demo0"
  using enq [OF demo_enqueue] by (simp add: demo0_def)

lemma demo_step1: "qstep demo0 (EClaim ''L1'') demo1"
  using clm [of "''L1''" demo0, OF _ demo_claim] by (simp add: demo0_def demo1_def q_init_def)

lemma demo_step2: "qstep demo1 ERecover demo2"
  using rec [OF demo_recover] by (simp add: demo2_def)

lemma demo_step_done: "qstep demo1 (ESucceed ''L1'') demo_done"
  using suc [OF demo_succeed] by (simp add: demo_done_def)

lemma demo_reach: "qreach demo0" "qreach demo1" "qreach demo2" "qreach demo_done"
  by (blast intro: qr_init qr_step demo_step0 demo_step1 demo_step2 demo_step_done)+

lemma demo_start_lost:
  "recover 100 (fst (start 1 ''L1'' 22 (q_db demo1))) = (q_db demo_lost, 0, 1)"
  by (simp add: start_def recover_def Let_def n_where_def upd_where_def start_row_def
      recover_requeue_def recover_lost_def demo_defs)

lemma demo_lost_reach: "qreach demo_lost"
proof -
  let ?s = "demo1\<lparr>q_db := fst (start 1 ''L1'' 22 (q_db demo1))\<rparr>"
  have "qstep demo1 (EStart ''L1'') ?s" by (rule sta [of 1]) (rule prod.collapse [symmetric])
  moreover have "qstep ?s ERecover demo_lost"
    using rec [of 100 ?s] demo_start_lost by (simp add: demo_lost_def)
  ultimately show ?thesis using demo_reach(2) by (blast intro: qr_step)
qed

end
