(* ===== verification/Job_Props.thy ===== *)
theory Job_Props
  imports Job_Contract
begin

text \<open>The properties of the job queue.\<close>

text \<open>
  C4. In every reachable state of the queue, under any interleaving: job ids and job keys are
  unique; a queued job holds no lease, a claimed or running job holds one; no two jobs share a
  lease token; attempts never exceed the maximum (one when the maximum is below one); log and
  spec are within their bounds.
\<close>

theorem queue_invariant:
  assumes "qreach s"
  shows "unique_on jr_id (rows (q_db s)) \<and> unique_on jr_job_key (rows (q_db s)) \<and>
    (\<forall>r \<in> set (rows (q_db s)).
       (jr_status r = Queued \<longrightarrow> jr_lease_owner r = None) \<and>
       (jr_status r \<in> {Claimed, Running} \<longrightarrow> jr_lease_owner r \<noteq> None \<and> jr_lease_until r \<noteq> None) \<and>
       jr_attempts r \<le> max 1 (jr_max_attempts r) \<and>
       length (or_default (jr_log r) []) \<le> MAX_LOG_BYTES \<and> length (jr_spec r) \<le> MAX_SPEC_BYTES \<and>
       (\<forall>r' \<in> set (rows (q_db s)). jr_lease_owner r \<noteq> None \<and> jr_lease_owner r = jr_lease_owner r' \<longrightarrow>
          jr_id r = jr_id r'))"
  using qreach_inv [OF assms] unfolding queue_inv_def db_inv_def leases_unique_def row_ok_def
  by blast

theorem queue_invariant_witness:
  "jr_attempts (claim_set ''L1'' 5 20 demo_row) \<le> max 1 (jr_max_attempts (claim_set ''L1'' 5 20 demo_row)) \<and>
   claim_set ''L1'' 5 20 demo_row \<in> set (rows (q_db demo1))"
  using queue_invariant [OF demo_reach(2)] by (simp add: demo1_def)

text \<open>
  C9. A finished job is final: once a job is succeeded, failed or rolled back, no operation of
  the queue, in any order, changes any column of it; it is found unchanged until it is pruned.
\<close>

theorem finished_jobs_final:
  assumes "qreach s" "qrel\<^sup>*\<^sup>* s t"
    and "r \<in> set (rows (q_db s))" "isTerminal (jr_status r)"
    and "r' \<in> set (rows (q_db t))" "jr_id r' = jr_id r"
  shows "r' = r"
  using jq.final_stays [OF assms(2) qreach_inv [OF assms(1)] assms(3,5,6)] assms(4)
  by (simp add: row_evo_def)

theorem finished_jobs_final_witness:
  "\<exists>r. r \<in> set (rows (q_db demo_done)) \<and> isTerminal (jr_status r) \<and>
     (\<forall>r' \<in> set (rows (q_db demo_done)). jr_id r' = jr_id r \<longrightarrow> r' = r)"
  using finished_jobs_final [OF demo_reach(4) rtranclp.rtrancl_refl,
      of "finish_set Succeeded ''null'' 21 (claim_set ''L1'' 5 20 demo_row)"]
  by (intro exI [of _ "finish_set Succeeded ''null'' 21 (claim_set ''L1'' 5 20 demo_row)"])
    (simp add: demo_done_def finish_set_def)

text \<open>
  The spec snapshot is frozen: along any run, a job keeps its key, kind, target, spec,
  schedule, attempt bound and creation time.
\<close>

theorem spec_frozen:
  assumes "qreach s" "qrel\<^sup>*\<^sup>* s t" "r \<in> set (rows (q_db s))" "r' \<in> set (rows (q_db t))" "jr_id r' = jr_id r"
  shows "frozen_part r' = frozen_part r"
  using jq.column_frozen [OF assms(2) qreach_inv [OF assms(1)] assms(3-5), of frozen_part]
  by (simp add: row_evo_def)

theorem spec_frozen_witness:
  "frozen_part (claim_set ''L1'' 5 20 demo_row) = frozen_part demo_row"
proof (rule spec_frozen [OF demo_reach(1)])
  show "qrel\<^sup>*\<^sup>* demo0 demo1" by (rule r_into_rtranclp) (use demo_step1 in \<open>auto simp: qrel_def\<close>)
qed (simp_all add: demo0_def demo1_def)

text \<open>
  C25. A lost lease is dead: when an issued lease token is on no row (its job was re-queued or
  finished), then after any further run, whatever other claims were made, heartbeat, start,
  progress, succeed and fail with it are refused and change nothing.
\<close>

theorem lost_lease_dead:
  assumes "qreach s" "qrel\<^sup>*\<^sup>* s t" "lease_gone l s" "chunk \<noteq> []"
    and "length (result_json res) \<le> MAX_RESULT_BYTES"
  shows "heartbeat i l leaseMs now (q_db t) = (q_db t, False) \<and>
    start i l now (q_db t) = (q_db t, False) \<and>
    progress i l chunk now (q_db t) = (q_db t, False) \<and>
    succeed i l res now (q_db t) = Inr (q_db t, False) \<and>
    fail i l res rb now (q_db t) = Inr (q_db t, Unknown)"
proof -
  have g: "lease_gone l t" using assms(1-3) by (blast intro: lease_gone_run qreach_inv)
  note nl = lease_gone_not_live [OF g]
  have n: "n_where (live_lease i l) (rows (q_db t)) = 0" "n_where (start_row i l) (rows (q_db t)) = 0"
    using nl g by (simp_all add: lease_gone_def start_row_def)
  have u: "upd_where (live_lease i l) f (rows (q_db t)) = rows (q_db t)"
    "upd_where (start_row i l) f (rows (q_db t)) = rows (q_db t)" for f
    using nl g by (auto intro!: upd_where_id simp: lease_gone_def start_row_def)
  have f: "first_where (live_lease i l) (rows (q_db t)) = None" "fail_read i l (q_db t) = None"
    using nl g by (auto simp: first_where_None fail_read_def lease_gone_def)
  show ?thesis
    using n u f assms(4,5)
    by (simp add: heartbeat_def start_def progress_def succeed_def finish_def fail_def fail_write_def Let_def
        del: n_where_0)
qed

theorem lost_lease_dead_witness:
  "lease_gone ''L1'' demo2 \<and> succeed 1 ''L1'' None 200 (q_db demo2) = Inr (q_db demo2, False)"
proof -
  have g: "lease_gone ''L1'' demo2" by (simp add: lease_gone_def demo_defs)
  then show ?thesis
    using lost_lease_dead [OF demo_reach(3) rtranclp.rtrancl_refl g, of "''x''" None 1 0 200]
    by (simp add: result_json_def MAX_RESULT_BYTES_def)
qed

text \<open>
  Recovery never re-queues work that may have run: it maps every row independently; a
  running job whose lease expired becomes unknown, a claimed one is queued again only while
  attempts remain and becomes unknown otherwise, every other row is untouched, and the two
  counts it reports are the numbers of such rows.
\<close>

theorem recover_spec:
  "recover now db =
     (db\<lparr>rows := map (\<lambda>r.
          if jr_status r \<in> {Claimed, Running} \<and> sql_lt (jr_lease_until r) now then
            if jr_status r = Claimed \<and> jr_attempts r < jr_max_attempts r
            then r\<lparr>jr_status := Queued, jr_lease_owner := None, jr_lease_until := None, jr_updated_at := now\<rparr>
            else r\<lparr>jr_status := Unknown, jr_updated_at := now\<rparr>
          else r) (rows db)\<rparr>,
      n_where (\<lambda>r. jr_status r = Claimed \<and> sql_lt (jr_lease_until r) now \<and>
        jr_attempts r < jr_max_attempts r) (rows db),
      n_where (\<lambda>r. jr_status r \<in> {Claimed, Running} \<and> sql_lt (jr_lease_until r) now \<and>
        \<not> (jr_status r = Claimed \<and> jr_attempts r < jr_max_attempts r)) (rows db))"
proof -
  have "n_where (recover_lost now) (upd_where (recover_requeue now) (requeue_set now) t) =
      n_where (\<lambda>r. jr_status r \<in> {Claimed, Running} \<and> sql_lt (jr_lease_until r) now \<and>
        \<not> (jr_status r = Claimed \<and> jr_attempts r < jr_max_attempts r)) t" for t
    by (induction t) (auto simp: n_where_def upd_where_Cons recover_lost_def recover_requeue_def requeue_set_def)
  moreover have "rows (fst (recover now db)) = map (recover_row now) (rows db)" by (rule recover_rows)
  ultimately show ?thesis
    by (auto simp: recover_def Let_def recover_row_def recover_requeue_def [abs_def]
        recover_lost_def requeue_set_def lose_set_def)
qed

text \<open>
  Enqueue is idempotent on the job key: when a job with the key exists, the table is left
  as it is and the existing job is returned, with no effect of the new options.
\<close>

theorem enqueue_idempotent:
  assumes "enqueue opts key now db = Inr (db1, j, c)" "eo_jobKey opts' = Some (jb_jobKey j)"
    and "length (eo_spec opts') \<le> MAX_SPEC_BYTES"
  shows "\<exists>c'. enqueue opts' key' now' db1 = Inr (db1, j, c')"
proof -
  let ?k = "or_default (eo_jobKey opts) key"
  obtain row where row: "first_where (\<lambda>r. jr_job_key r = ?k) (rows db1) = Some row" "j = toJob row"
    using assms(1) by (auto simp: enqueue_def Let_def split: if_splits option.splits)
  then have k: "row \<in> set (rows db1)" "jr_job_key row = ?k" by (auto dest: first_where_SomeD)
  then have "jb_jobKey j = ?k" using row(2) by (simp add: toJob_def)
  moreover have "insert_or_ignore opts' ?k now' db1 = db1"
    using k by (auto simp: insert_or_ignore_def)
  ultimately show ?thesis using assms(2,3) row by (simp add: enqueue_def Let_def)
qed

theorem enqueue_idempotent_witness:
  "\<exists>c. enqueue (demo_opts\<lparr>eo_spec := ''[1]''\<rparr>) ''g'' 99 (q_db demo0) = Inr (q_db demo0, toJob demo_row, c)"
  by (rule enqueue_idempotent [OF demo_enqueue]) (simp_all add: demo_defs toJob_def MAX_SPEC_BYTES_def)

text \<open>
  Claims are first-in first-out and respect the schedule: a claim fails exactly when no
  queued job of the kind is due for the target; otherwise it takes the due job with the least
  id, marks it claimed under the new lease with one more attempt, hands out that job's spec
  and leaves every other row alone.
\<close>

theorem claim_fifo:
  assumes "unique_on jr_id (rows db)" "claim kind target leaseMs owner now db = (db', c)"
  shows "(c = None \<longleftrightarrow> (\<forall>r \<in> set (rows db). \<not> claimable kind target now r)) \<and>
    (c = None \<longrightarrow> db' = db) \<and>
    (\<forall>cj. c = Some cj \<longrightarrow>
      (\<exists>r \<in> set (rows db). claimable kind target now r \<and>
         (\<forall>x \<in> set (rows db). claimable kind target now x \<longrightarrow> jr_id r \<le> jr_id x) \<and>
         cj = \<lparr> cj_id = jr_id r, cj_kind = kind, cj_spec = jr_spec r, cj_lease = owner,
                cj_leaseUntil = now + leaseMs, cj_attempt = jr_attempts r + 1 \<rparr> \<and>
         rows db' = map (\<lambda>x. if x = r then claim_set owner leaseMs now r else x) (rows db)))"
proof (cases "limit_one (order_by jr_id (sel_where (claimable kind target now) (rows db)))")
  case None
  then have "\<forall>r \<in> set (rows db). \<not> claimable kind target now r"
    by (auto simp: limit_one_None order_by_def sel_where_def filter_empty_conv dest!: arg_cong [where f = set])
  with None assms(2) show ?thesis by (auto simp: claim_def)
next
  case (Some r)
  from limit_one_order_by_least [OF this] have r: "r \<in> set (rows db)" "claimable kind target now r" and
    least: "\<forall>x \<in> set (rows db). claimable kind target now x \<longrightarrow> jr_id r \<le> jr_id x" by auto
  have "claim_row (jr_id r) r" using r(2) by (simp add: claim_row_def claimable_def)
  then have f: "first_where (claim_row (jr_id r)) (rows db) = Some r"
    by (intro first_where_unique [OF assms(1) r(1)]) (auto simp: claim_row_def)
  have eq: "claim_row (jr_id r) x \<longleftrightarrow> x = r" if "x \<in> set (rows db)" for x
    using that r assms(1) \<open>claim_row (jr_id r) r\<close> by (auto simp: claim_row_def dest: unique_onD)
  then have upd: "upd_where (claim_row (jr_id r)) (claim_set owner leaseMs now) (rows db) =
      map (\<lambda>x. if x = r then claim_set owner leaseMs now r else x) (rows db)"
    by (auto simp: upd_where_def)
  have k: "jr_kind r = kind" using r(2) by (simp add: claimable_def)
  have cl: "claim kind target leaseMs owner now db =
      (db\<lparr>rows := upd_where (claim_row (jr_id r)) (claim_set owner leaseMs now) (rows db)\<rparr>,
       Some \<lparr> cj_id = jr_id r, cj_kind = kind, cj_spec = jr_spec r, cj_lease = owner,
         cj_leaseUntil = now + leaseMs, cj_attempt = jr_attempts r + 1 \<rparr>)"
    by (simp add: claim_def Some f k Let_def claim_set_def [of owner leaseMs now r])
  have c: "c = Some \<lparr> cj_id = jr_id r, cj_kind = kind, cj_spec = jr_spec r, cj_lease = owner,
      cj_leaseUntil = now + leaseMs, cj_attempt = jr_attempts r + 1 \<rparr>"
    and db': "db' = db\<lparr>rows := upd_where (claim_row (jr_id r)) (claim_set owner leaseMs now) (rows db)\<rparr>"
    using cl assms(2) by (simp_all only: prod.inject)
  from upd have "rows db' = map (\<lambda>x. if x = r then claim_set owner leaseMs now r else x) (rows db)"
    unfolding db' by simp
  with c r least show ?thesis by blast
qed

theorem claim_fifo_witness:
  "\<exists>r \<in> set (rows (q_db demo0)). claimable Deploy (Some ''a'') 20 r \<and>
     rows (q_db demo1) = map (\<lambda>x. if x = r then claim_set ''L1'' 5 20 r else x) (rows (q_db demo0))"
proof -
  have "unique_on jr_id (rows (q_db demo0))" by (simp add: demo0_def unique_on_def)
  from claim_fifo [OF this demo_claim] show ?thesis by blast
qed

text \<open>
  The answer of fail can be wrong: its SELECT does not test the status, so when recovery has
  already moved the job to unknown, fail reports that the job was re-queued although the row
  stays unknown.
\<close>

theorem fail_misreports_requeue:
  "\<exists>s i l. qreach s \<and> fail i l None False 200 (q_db s) = Inr (q_db s, Queued) \<and>
     (\<exists>r \<in> set (rows (q_db s)). jr_id r = i \<and> jr_status r = Unknown)"
proof (intro exI conjI)
  show "qreach demo_lost" by (rule demo_lost_reach)
  show "fail 1 ''L1'' None False 200 (q_db demo_lost) = Inr (q_db demo_lost, Queued)"
    by (simp add: fail_def fail_read_def fail_write_def first_where_Cons upd_where_def live_lease_def demo_defs)
  show "\<exists>r \<in> set (rows (q_db demo_lost)). jr_id r = 1 \<and> jr_status r = Unknown"
    by (simp add: demo_defs)
qed

text \<open>
  The created flag of enqueue compares clock readings, so two enqueues of one key within a
  millisecond both report a creation although the second inserts nothing.
\<close>

theorem created_flag_ambiguous:
  "\<exists>opts db j. enqueue opts ''f'' 10 (q_db q_init) = Inr (db, j, True) \<and>
     enqueue opts ''g'' 10 db = Inr (db, j, True)"
proof (intro exI conjI)
  show "enqueue demo_opts ''f'' 10 (q_db q_init) = Inr (q_db demo0, toJob demo_row, True)"
    by (rule demo_enqueue)
  show "enqueue demo_opts ''g'' 10 (q_db demo0) = Inr (q_db demo0, toJob demo_row, True)"
    by (simp add: enqueue_def Let_def insert_or_ignore_def first_where_Cons demo_defs MAX_SPEC_BYTES_def)
qed

end
