(* ===== verification/Json.thy ===== *)
theory Json
  imports Prelude
begin

text \<open>
  \<open>JSON.stringify\<close> and \<open>JSON.parse\<close> of the language's standard library, as far as the stores
  use them: the compact serialisation of a value and the parser of a text, with \<open>None\<close> for the
  SyntaxError.  A number is kept as its decimal text, so no floating point is involved.
  The main fact is the round trip \<open>json_roundtrip\<close> and with it the injectivity of the
  serialisation, on which the audit chain rests.
\<close>

datatype json = JNull | JBool bool | JNum string | JStr string | JArr "json list"
  | JObj "(string \<times> json) list"

section \<open>Characters\<close>

definition c_quote :: char where "c_quote = CHR 0x22"
definition c_bslash :: char where "c_bslash = CHR 0x5C"

definition is_ws :: "char \<Rightarrow> bool" where
  "is_ws c = (c \<in> {CHR 0x20, CHR 0x09, CHR 0x0A, CHR 0x0D})"

definition is_digit :: "char \<Rightarrow> bool" where
  "is_digit c = (48 \<le> (of_char c :: nat) \<and> (of_char c :: nat) \<le> 57)"

definition is_num_char :: "char \<Rightarrow> bool" where
  "is_num_char c = (is_digit c \<or> c \<in> {CHR ''-'', CHR ''+'', CHR ''.'', CHR ''e'', CHR ''E''})"

definition hex_digit :: "nat \<Rightarrow> char" where
  "hex_digit n = (if n < 10 then char_of (48 + n) else char_of (87 + n))"

definition hex_val :: "char \<Rightarrow> nat option" where
  "hex_val c = (let k = of_char c :: nat in
     if 48 \<le> k \<and> k \<le> 57 then Some (k - 48)
     else if 97 \<le> k \<and> k \<le> 102 then Some (k - 87)
     else if 65 \<le> k \<and> k \<le> 70 then Some (k - 55) else None)"

section \<open>Serialisation\<close>

definition escape_char :: "char \<Rightarrow> string" where
  "escape_char c =
     (if c = c_quote then [c_bslash, c_quote]
      else if c = c_bslash then [c_bslash, c_bslash]
      else if c = CHR 0x08 then [c_bslash, CHR ''b'']
      else if c = CHR 0x0C then [c_bslash, CHR ''f'']
      else if c = CHR 0x0A then [c_bslash, CHR ''n'']
      else if c = CHR 0x0D then [c_bslash, CHR ''r'']
      else if c = CHR 0x09 then [c_bslash, CHR ''t'']
      else if (of_char c :: nat) < 32 then
        [c_bslash, CHR ''u'', CHR ''0'', CHR ''0'', hex_digit (of_char c div 16), hex_digit (of_char c mod 16)]
      else [c])"

fun escape_all :: "string \<Rightarrow> string" where
  "escape_all [] = []"
| "escape_all (c # cs) = escape_char c @ escape_all cs"

definition quote_json :: "string \<Rightarrow> string" where
  "quote_json s = c_quote # escape_all s @ [c_quote]"

fun stringify :: "json \<Rightarrow> string"
  and stringify_elems :: "json list \<Rightarrow> string"
  and stringify_fields :: "(string \<times> json) list \<Rightarrow> string" where
  "stringify JNull = ''null''"
| "stringify (JBool b) = (if b then ''true'' else ''false'')"
| "stringify (JNum n) = n"
| "stringify (JStr s) = quote_json s"
| "stringify (JArr vs) = CHR ''['' # stringify_elems vs"
| "stringify (JObj fs) = CHR ''{'' # stringify_fields fs"
| "stringify_elems [] = '']''"
| "stringify_elems [v] = stringify v @ '']''"
| "stringify_elems (v # vs) = stringify v @ CHR '','' # stringify_elems vs"
| "stringify_fields [] = ''}''"
| "stringify_fields [(k, v)] = quote_json k @ CHR '':'' # stringify v @ ''}''"
| "stringify_fields ((k, v) # fs) = quote_json k @ CHR '':'' # stringify v @ CHR '','' # stringify_fields fs"

section \<open>Parsing\<close>

fun skip_ws :: "string \<Rightarrow> string" where
  "skip_ws [] = []"
| "skip_ws (c # cs) = (if is_ws c then skip_ws cs else c # cs)"

text \<open>The four hex digits of a \<open>\u\<close> escape; a code unit above 255 is outside this alphabet.\<close>

definition unicode_escape :: "string \<Rightarrow> (char \<times> string) option" where
  "unicode_escape s = (case s of
     a # b # c # d # r \<Rightarrow>
       (case (hex_val a, hex_val b, hex_val c, hex_val d) of
          (Some w, Some x, Some y, Some z) \<Rightarrow>
            (if w = 0 \<and> x = 0 then Some (char_of (16 * y + z), r) else None)
        | _ \<Rightarrow> None)
   | _ \<Rightarrow> None)"

definition simple_escape :: "char \<Rightarrow> char option" where
  "simple_escape c =
     (if c = c_quote \<or> c = c_bslash \<or> c = CHR ''/'' then Some c
      else if c = CHR ''b'' then Some (CHR 0x08)
      else if c = CHR ''f'' then Some (CHR 0x0C)
      else if c = CHR ''n'' then Some (CHR 0x0A)
      else if c = CHR ''r'' then Some (CHR 0x0D)
      else if c = CHR ''t'' then Some (CHR 0x09)
      else None)"

lemma unicode_escape_shorter: "unicode_escape s = Some (c, r) \<Longrightarrow> length r < length s"
  by (auto simp: unicode_escape_def split: list.splits option.splits if_splits)

text \<open>The body of a string literal, after the opening quote.\<close>

function parse_str :: "string \<Rightarrow> (string \<times> string) option" where
  "parse_str [] = None"
| "parse_str (c # cs) =
     (if c = c_quote then Some ([], cs)
      else if (of_char c :: nat) < 32 then None
      else if c = c_bslash then
        (case cs of
           [] \<Rightarrow> None
         | e # r \<Rightarrow>
             if e = CHR ''u'' then
               (case unicode_escape r of
                  None \<Rightarrow> None
                | Some (x, r') \<Rightarrow> map_option (\<lambda>(s, t). (x # s, t)) (parse_str r'))
             else
               (case simple_escape e of
                  None \<Rightarrow> None
                | Some x \<Rightarrow> map_option (\<lambda>(s, t). (x # s, t)) (parse_str r)))
      else map_option (\<lambda>(s, t). (c # s, t)) (parse_str cs))"
  by pat_completeness auto
termination
  by (relation "measure length") (auto dest: unicode_escape_shorter)

text \<open>The number grammar: \<open>-?(0|[1-9][0-9]*)([.][0-9]+)?([eE][+-]?[0-9]+)?\<close>.\<close>

definition valid_exp :: "string \<Rightarrow> bool" where
  "valid_exp s = (case s of
     [] \<Rightarrow> True
   | e # r \<Rightarrow> (e = CHR ''e'' \<or> e = CHR ''E'') \<and>
       (let d = (case r of [] \<Rightarrow> [] | x # y \<Rightarrow> if x = CHR ''+'' \<or> x = CHR ''-'' then y else r)
        in d \<noteq> [] \<and> list_all is_digit d))"

definition valid_frac :: "string \<Rightarrow> bool" where
  "valid_frac s = (case s of
     [] \<Rightarrow> True
   | x # r \<Rightarrow> if x = CHR ''.'' then takeWhile is_digit r \<noteq> [] \<and> valid_exp (dropWhile is_digit r)
              else valid_exp s)"

definition valid_number :: "string \<Rightarrow> bool" where
  "valid_number s =
     (let m = (case s of [] \<Rightarrow> [] | x # r \<Rightarrow> if x = CHR ''-'' then r else s);
          i = takeWhile is_digit m
      in i \<noteq> [] \<and> (hd i = CHR ''0'' \<longrightarrow> length i = 1) \<and> valid_frac (dropWhile is_digit m))"

definition expect :: "string \<Rightarrow> string \<Rightarrow> string option" where
  "expect w s = (if take (length w) s = w then Some (drop (length w) s) else None)"

fun parse_value :: "nat \<Rightarrow> string \<Rightarrow> (json \<times> string) option"
  and parse_elems :: "nat \<Rightarrow> string \<Rightarrow> (json list \<times> string) option"
  and parse_fields :: "nat \<Rightarrow> string \<Rightarrow> ((string \<times> json) list \<times> string) option" where
  "parse_value 0 s = None"
| "parse_value (Suc n) s =
     (case skip_ws s of
        [] \<Rightarrow> None
      | c # cs \<Rightarrow>
          if c = c_quote then map_option (\<lambda>(x, r). (JStr x, r)) (parse_str cs)
          else if c = CHR ''['' then
            (case skip_ws cs of
               [] \<Rightarrow> None
             | d # r \<Rightarrow> if d = CHR '']'' then Some (JArr [], r)
                        else map_option (\<lambda>(vs, r). (JArr vs, r)) (parse_elems n cs))
          else if c = CHR ''{'' then
            (case skip_ws cs of
               [] \<Rightarrow> None
             | d # r \<Rightarrow> if d = CHR ''}'' then Some (JObj [], r)
                        else map_option (\<lambda>(fs, r). (JObj fs, r)) (parse_fields n cs))
          else if c = CHR ''n'' then map_option (\<lambda>r. (JNull, r)) (expect ''null'' (c # cs))
          else if c = CHR ''t'' then map_option (\<lambda>r. (JBool True, r)) (expect ''true'' (c # cs))
          else if c = CHR ''f'' then map_option (\<lambda>r. (JBool False, r)) (expect ''false'' (c # cs))
          else
            (let num = takeWhile is_num_char (c # cs)
             in if valid_number num then Some (JNum num, dropWhile is_num_char (c # cs)) else None))"
| "parse_elems 0 s = None"
| "parse_elems (Suc n) s =
     (case parse_value n s of
        None \<Rightarrow> None
      | Some (v, r) \<Rightarrow>
          (case skip_ws r of
             [] \<Rightarrow> None
           | d # r' \<Rightarrow>
               if d = CHR '','' then map_option (\<lambda>(vs, r). (v # vs, r)) (parse_elems n r')
               else if d = CHR '']'' then Some ([v], r') else None))"
| "parse_fields 0 s = None"
| "parse_fields (Suc n) s =
     (case skip_ws s of
        [] \<Rightarrow> None
      | q # qs \<Rightarrow>
          if q = c_quote then
            (case parse_str qs of
               None \<Rightarrow> None
             | Some (k, r0) \<Rightarrow>
                 (case skip_ws r0 of
                    [] \<Rightarrow> None
                  | col # r1 \<Rightarrow>
                      if col = CHR '':'' then
                        (case parse_value n r1 of
                           None \<Rightarrow> None
                         | Some (v, r) \<Rightarrow>
                             (case skip_ws r of
                                [] \<Rightarrow> None
                              | d # r' \<Rightarrow>
                                  if d = CHR '','' then
                                    map_option (\<lambda>(fs, r). ((k, v) # fs, r)) (parse_fields n r')
                                  else if d = CHR ''}'' then Some ([(k, v)], r') else None))
                      else None))
          else None)"

definition json_parse :: "string \<Rightarrow> json option" where
  "json_parse s =
     (case parse_value (Suc (2 * length s)) s of
        None \<Rightarrow> None
      | Some (v, r) \<Rightarrow> if skip_ws r = [] then Some v else None)"

section \<open>The round trip\<close>

text \<open>A value as the stores build them: numbers are valid decimal texts.\<close>

fun json_ok :: "json \<Rightarrow> bool"
  and json_ok_elems :: "json list \<Rightarrow> bool"
  and json_ok_fields :: "(string \<times> json) list \<Rightarrow> bool" where
  "json_ok (JNum n) = (valid_number n \<and> list_all is_num_char n)"
| "json_ok (JArr vs) = json_ok_elems vs"
| "json_ok (JObj fs) = json_ok_fields fs"
| "json_ok _ = True"
| "json_ok_elems [] = True"
| "json_ok_elems (v # vs) = (json_ok v \<and> json_ok_elems vs)"
| "json_ok_fields [] = True"
| "json_ok_fields ((k, v) # fs) = (json_ok v \<and> json_ok_fields fs)"

lemma hex_val_hex_digit: "n < 16 \<Longrightarrow> hex_val (hex_digit n) = Some n"
  by (auto simp: hex_val_def hex_digit_def Let_def)

lemma unicode_escape_hex:
  "k < 256 \<Longrightarrow> unicode_escape (CHR ''0'' # CHR ''0'' # hex_digit (k div 16) # hex_digit (k mod 16) # r)
     = Some (char_of k, r)"
proof -
  assume "k < 256"
  then have "k div 16 < 16" "k mod 16 < 16" by auto
  moreover have "hex_val (CHR ''0'') = Some 0" by (simp add: hex_val_def)
  ultimately show ?thesis by (simp add: unicode_escape_def hex_val_hex_digit)
qed

lemmas json_chars = c_quote_def c_bslash_def

lemma parse_str_escape_char:
  "parse_str (escape_char c @ r) = map_option (\<lambda>(s, t). (c # s, t)) (parse_str r)"
proof -
  have "(of_char c :: nat) < 256" by simp
  then show ?thesis
    by (auto simp: escape_char_def json_chars simple_escape_def unicode_escape_hex)
qed

lemma parse_str_escape_all: "parse_str (escape_all s @ c_quote # r) = Some (s, r)"
  by (induction s) (auto simp: parse_str_escape_char)


text \<open>Fuel that suffices to read a serialised value back.\<close>

fun jfuel :: "json \<Rightarrow> nat"
  and jfuel_elems :: "json list \<Rightarrow> nat"
  and jfuel_fields :: "(string \<times> json) list \<Rightarrow> nat" where
  "jfuel (JArr vs) = Suc (jfuel_elems vs)"
| "jfuel (JObj fs) = Suc (jfuel_fields fs)"
| "jfuel _ = 1"
| "jfuel_elems [] = 1"
| "jfuel_elems (v # vs) = Suc (max (jfuel v) (jfuel_elems vs))"
| "jfuel_fields [] = 1"
| "jfuel_fields ((k, v) # fs) = Suc (max (jfuel v) (jfuel_fields fs))"

lemma valid_number_head:
  "valid_number n \<Longrightarrow> \<exists>c cs. n = c # cs \<and> (c = CHR ''-'' \<or> is_digit c)"
  by (cases n) (auto simp: valid_number_def Let_def split: if_splits)

text \<open>The first character of a serialised value decides the branch of the parser.\<close>

lemma stringify_head:
  "json_ok v \<Longrightarrow> \<exists>c cs. stringify v = c # cs \<and> \<not> is_ws c \<and> c \<noteq> CHR '']'' \<and> c \<noteq> CHR ''}''"
proof (cases v)
  case (JNum n)
  assume "json_ok v"
  with JNum have "valid_number n" by simp
  then obtain c cs where "n = c # cs" "c = CHR ''-'' \<or> is_digit c"
    using valid_number_head by blast
  moreover have "is_digit c \<Longrightarrow> \<not> is_ws c \<and> c \<noteq> CHR '']'' \<and> c \<noteq> CHR ''}''" for c
    by (auto simp: is_digit_def is_ws_def)
  ultimately show ?thesis using JNum by (auto simp: is_ws_def)
qed (auto simp: is_ws_def quote_json_def c_quote_def)

definition follows_ok :: "string \<Rightarrow> bool" where
  "follows_ok r = (case r of [] \<Rightarrow> True | c # _ \<Rightarrow> \<not> is_num_char c)"

lemma takeWhile_num: "list_all is_num_char n \<Longrightarrow> follows_ok r \<Longrightarrow> takeWhile is_num_char (n @ r) = n"
  by (induction n) (auto simp: follows_ok_def split: list.splits)

lemma dropWhile_num: "list_all is_num_char n \<Longrightarrow> follows_ok r \<Longrightarrow> dropWhile is_num_char (n @ r) = r"
  by (induction n) (auto simp: follows_ok_def split: list.splits)

lemma follows_ok_simps [simp]:
  "follows_ok []" "follows_ok (CHR '','' # r)" "follows_ok (CHR '']'' # r)" "follows_ok (CHR ''}'' # r)"
  by (auto simp: follows_ok_def is_num_char_def is_digit_def)

lemma skip_ws_head: "\<not> is_ws c \<Longrightarrow> skip_ws (c # cs) = c # cs"
  by simp

lemma ws_simps [simp]:
  "\<not> is_ws c_quote" "\<not> is_ws (CHR ''['')" "\<not> is_ws (CHR ''{'')" "\<not> is_ws (CHR '']'')"
  "\<not> is_ws (CHR ''}'')" "\<not> is_ws (CHR '','')" "\<not> is_ws (CHR '':'')"
  by (auto simp: is_ws_def c_quote_def)

lemma parse_value_num:
  assumes "valid_number n" "list_all is_num_char n" "follows_ok r"
  shows "parse_value (Suc k) (n @ r) = Some (JNum n, r)"
proof -
  obtain c cs where n: "n = c # cs" "c = CHR ''-'' \<or> is_digit c"
    using valid_number_head [OF assms(1)] by blast
  moreover have "c \<noteq> c_quote" "c \<noteq> CHR ''[''" "c \<noteq> CHR ''{''" "c \<noteq> CHR ''n''" "c \<noteq> CHR ''t''"
    "c \<noteq> CHR ''f''" "\<not> is_ws c"
    using n(2) by (auto simp: is_digit_def is_ws_def c_quote_def)
  ultimately show ?thesis
    using takeWhile_num [OF assms(2,3)] dropWhile_num [OF assms(2,3)] assms(1)
    by (simp del: takeWhile.simps dropWhile.simps add: Let_def)
qed

lemma parse_stringify:
  "json_ok v \<Longrightarrow> follows_ok r \<Longrightarrow> jfuel v \<le> n \<Longrightarrow> parse_value n (stringify v @ r) = Some (v, r)"
  "json_ok_elems vs \<Longrightarrow> vs \<noteq> [] \<Longrightarrow> jfuel_elems vs \<le> n \<Longrightarrow>
     parse_elems n (stringify_elems vs @ r) = Some (vs, r)"
  "json_ok_fields fs \<Longrightarrow> fs \<noteq> [] \<Longrightarrow> jfuel_fields fs \<le> n \<Longrightarrow>
     parse_fields n (stringify_fields fs @ r) = Some (fs, r)"
proof (induction v and vs and fs arbitrary: r n and r n and r n
    rule: stringify_stringify_elems_stringify_fields.induct)
  case 1
  then show ?case by (cases n) (auto simp: c_quote_def expect_def is_ws_def)
next
  case (2 b)
  then show ?case by (cases n) (auto simp: c_quote_def expect_def is_ws_def)
next
  case (3 x)
  then show ?case by (cases n) (auto intro: parse_value_num simp del: parse_value.simps)
next
  case (4 s)
  then show ?case by (cases n) (auto simp: quote_json_def parse_str_escape_all)
next
  case (5 vs)
  then obtain k where n: "n = Suc k" by (cases n) auto
  show ?case
  proof (cases vs)
    case Nil
    then show ?thesis using n by (auto simp: c_quote_def)
  next
    case (Cons v ws)
    have "json_ok v" using 5 Cons by auto
    then obtain c cs where c: "stringify v = c # cs" "\<not> is_ws c" "c \<noteq> CHR '']''"
      using stringify_head by blast
    have "\<exists>cs'. stringify_elems vs = c # cs'" using c Cons by (cases ws) auto
    moreover have "parse_elems k (stringify_elems vs @ r) = Some (vs, r)"
      using 5 Cons n by auto
    ultimately show ?thesis using n c by (auto simp: c_quote_def)
  qed
next
  case (6 fs)
  then obtain k where n: "n = Suc k" by (cases n) auto
  show ?case
  proof (cases fs)
    case Nil
    then show ?thesis using n by (auto simp: c_quote_def)
  next
    case (Cons f gs)
    have "\<exists>cs'. stringify_fields fs = c_quote # cs'" using Cons by (cases f; cases gs) (auto simp: quote_json_def)
    moreover have "parse_fields k (stringify_fields fs @ r) = Some (fs, r)"
      using 6 Cons n by auto
    ultimately show ?thesis using n by (auto simp: c_quote_def is_ws_def)
  qed
next
  case 7
  then show ?case by simp
next
  case (8 v)
  then show ?case by (cases n) auto
next
  case (9 v w ws)
  then show ?case by (cases n) auto
next
  case 10
  then show ?case by simp
next
  case (11 k v)
  then show ?case by (cases n) (auto simp: quote_json_def parse_str_escape_all)
next
  case (12 k v f fs)
  then show ?case by (cases n) (auto simp: quote_json_def parse_str_escape_all)
qed

lemma jfuel_bound:
  "json_ok v \<Longrightarrow> jfuel v \<le> 2 * length (stringify v)"
  "json_ok_elems vs \<Longrightarrow> jfuel_elems vs \<le> 2 * length (stringify_elems vs)"
  "json_ok_fields fs \<Longrightarrow> jfuel_fields fs \<le> 2 * length (stringify_fields fs)"
proof (induction v and vs and fs rule: stringify_stringify_elems_stringify_fields.induct)
  case (3 n)
  then show ?case using valid_number_head [of n] by auto
qed (auto simp: quote_json_def)

lemma json_roundtrip: "json_ok v \<Longrightarrow> json_parse (stringify v) = Some v"
  using parse_stringify(1) [of v "[]" "Suc (2 * length (stringify v))"] jfuel_bound(1) [of v]
  by (simp add: json_parse_def)

lemma stringify_inject: "json_ok v \<Longrightarrow> json_ok w \<Longrightarrow> stringify v = stringify w \<longleftrightarrow> v = w"
  by (metis json_roundtrip option.inject)

section \<open>Integers as JSON numbers\<close>

function nat_digits :: "nat \<Rightarrow> string" where
  "nat_digits n = (if n < 10 then [char_of (48 + n)] else nat_digits (n div 10) @ [char_of (48 + n mod 10)])"
  by pat_completeness auto
termination by (relation "measure id") auto

declare nat_digits.simps [simp del]

definition int_text :: "int \<Rightarrow> string" where
  "int_text i = (if i < 0 then CHR ''-'' # nat_digits (nat (- i)) else nat_digits (nat i))"

fun digits_val :: "string \<Rightarrow> nat \<Rightarrow> nat" where
  "digits_val [] acc = acc"
| "digits_val (c # cs) acc = digits_val cs (10 * acc + (of_char c - 48))"

lemma digits_val_append: "digits_val (xs @ ys) acc = digits_val ys (digits_val xs acc)"
  by (induction xs arbitrary: acc) auto

lemma digits_val_nat_digits: "digits_val (nat_digits n) 0 = n"
proof (induction n rule: nat_digits.induct)
  case (1 n)
  then show ?case by (subst nat_digits.simps) (auto simp: digits_val_append)
qed

lemma nat_digits_inject: "nat_digits m = nat_digits n \<longleftrightarrow> m = n"
  by (metis digits_val_nat_digits)

lemma is_digit_char_of: "n < 10 \<Longrightarrow> is_digit (char_of (48 + n :: nat))"
  by (simp add: is_digit_def)

lemma nat_digits_all: "list_all is_digit (nat_digits n)"
proof (induction n rule: nat_digits.induct)
  case (1 n)
  then show ?case by (subst nat_digits.simps) (auto simp: is_digit_char_of)
qed

lemma nat_digits_head:
  "\<exists>c cs. nat_digits n = c # cs \<and> (c = CHR ''0'' \<longrightarrow> cs = []) \<and> (0 < n \<longrightarrow> c \<noteq> CHR ''0'')"
proof (induction n rule: nat_digits.induct)
  case (1 n)
  show ?case
  proof (cases "n < 10")
    case True
    have "n = 0" if "char_of (48 + n) = CHR ''0''"
    proof -
      have "(of_char (char_of (48 + n) :: char) :: nat) = of_char (CHR ''0'')" using that by simp
      then show ?thesis using True by simp
    qed
    then show ?thesis using True by (subst nat_digits.simps) auto
  next
    case False
    with 1 have "\<exists>c cs. nat_digits (n div 10) = c # cs \<and> c \<noteq> CHR ''0''" by fastforce
    with False show ?thesis by (subst nat_digits.simps) auto
  qed
qed


lemma digit_not_others:
  "is_digit c \<Longrightarrow> c \<noteq> CHR ''-'' \<and> c \<noteq> CHR ''.'' \<and> is_num_char c"
  by (auto simp: is_digit_def is_num_char_def)

lemma nat_digits_valid: "valid_number (nat_digits n) \<and> list_all is_num_char (nat_digits n)"
proof -
  obtain c cs where c: "nat_digits n = c # cs" "c = CHR ''0'' \<longrightarrow> cs = []"
    using nat_digits_head by blast
  have all: "list_all is_digit (c # cs)" using nat_digits_all [of n] c by simp
  have tw: "is_digit c" "takeWhile is_digit cs = cs" "dropWhile is_digit cs = []"
    using all by (auto simp: list_all_iff takeWhile_eq_all_conv dropWhile_eq_Nil_conv)
  have "c \<noteq> CHR ''-''" using all digit_not_others by simp
  then have "valid_number (c # cs)" using c(2)
    by (auto simp: valid_number_def valid_frac_def tw)
  moreover have "list_all is_num_char (c # cs)"
    using all digit_not_others by (auto simp: list_all_iff)
  ultimately show ?thesis using c(1) by simp
qed

lemma int_text_valid: "json_ok (JNum (int_text i))"
proof (cases "i < 0")
  case True
  obtain c cs where c: "nat_digits (nat (- i)) = c # cs" using nat_digits_head by blast
  have "c \<noteq> CHR ''-''" using nat_digits_all [of "nat (- i)"] c digit_not_others by simp
  then have "valid_number (CHR ''-'' # c # cs)"
    using nat_digits_valid [of "nat (- i)"] c by (simp add: valid_number_def Let_def)
  then show ?thesis using True nat_digits_valid [of "nat (- i)"] c
    by (simp add: int_text_def is_num_char_def)
next
  case False
  then show ?thesis using nat_digits_valid by (simp add: int_text_def)
qed

lemma int_text_inject: "int_text i = int_text j \<longleftrightarrow> i = j"
proof -
  have "hd (nat_digits n) \<noteq> CHR ''-''" "nat_digits n \<noteq> []" for n
    using nat_digits_all [of n] nat_digits_head [of n] digit_not_others by (cases "nat_digits n"; auto)+
  then have "nat_digits n \<noteq> CHR ''-'' # s" for n s by (metis list.sel(1))
  then have "nat_digits n \<noteq> CHR ''-'' # s" "CHR ''-'' # s \<noteq> nat_digits n" for n s by metis+
  then show ?thesis by (auto simp: int_text_def nat_digits_inject)
qed

text \<open>\<open>null\<close> or the value, as the stores serialise nullable columns.\<close>

definition json_opt :: "('a \<Rightarrow> json) \<Rightarrow> 'a option \<Rightarrow> json" where
  "json_opt f x = (case x of None \<Rightarrow> JNull | Some y \<Rightarrow> f y)"

definition json_int :: "int \<Rightarrow> json" where
  "json_int i = JNum (int_text i)"

lemma json_int_ok [simp]: "json_ok (json_int i)"
  using int_text_valid by (simp add: json_int_def)

lemma json_int_inject [simp]: "json_int i = json_int j \<longleftrightarrow> i = j"
  by (simp add: json_int_def int_text_inject)

lemma json_opt_ok [simp]: "(\<And>y. json_ok (f y)) \<Longrightarrow> json_ok (json_opt f x)"
  by (cases x) (simp_all add: json_opt_def)

lemma json_opt_inject:
  "(\<And>y z. f y = f z \<longleftrightarrow> y = z) \<Longrightarrow> (\<And>y. f y \<noteq> JNull) \<Longrightarrow> json_opt f x = json_opt f x' \<longleftrightarrow> x = x'"
  by (cases x; cases x') (auto simp: json_opt_def dest: sym)

lemma json_int_not_null [simp]: "json_int i \<noteq> JNull"
  by (simp add: json_int_def)

text \<open>A list of strings, and the strings of an arbitrary JSON array.\<close>

definition json_strings :: "string list \<Rightarrow> json" where
  "json_strings xs = JArr (map JStr xs)"

lemma json_strings_ok [simp]: "json_ok (json_strings xs)"
proof -
  have "json_ok_elems (map JStr xs)" by (induction xs) auto
  then show ?thesis by (simp add: json_strings_def)
qed

end
