(* ===== verification/Audit_Log.thy ===== *)
theory Audit_Log
  imports Json "HOL-Library.List_Lexorder" "HOL-Library.Char_ord"
begin

text \<open>
  The tamper-evident audit log, \<open>src/src/lib/server/admin/audit.ts\<close>.  SHA-256 in hex is the
  parameter \<open>H\<close>.  A write is an INSERT followed by the UPDATE that stores the row's own hash;
  \<open>write_outcome\<close> says at which statement a failing write stopped, since \<open>log\<close> swallows errors.
  Writes are chained by the store's promise, so they are applied one after the other.
\<close>

section \<open>Rows and hashes\<close>

record audit_row =
  au_id :: nat
  au_user_id :: "nat option"
  au_username :: "string option"
  au_action :: string
  au_detail :: "string option"
  au_ip :: "string option"
  au_at :: ms
  au_prev_hash :: "string option"
  au_hash :: "string option"

record audit_entry =
  ae_id :: nat
  ae_userId :: "nat option"
  ae_username :: "string option"
  ae_action :: string
  ae_detail :: "string option"
  ae_ip :: "string option"
  ae_at :: ms

record log_entry =
  le_userId :: "nat option"
  le_username :: "string option"
  le_action :: string
  le_detail :: "string option"
  le_ip :: "string option"

record audit_log =
  al_rows :: "audit_row list"
  al_seq :: nat

definition AUDIT_GENESIS :: string where
  "AUDIT_GENESIS = replicate 64 (CHR ''0'')"

definition AUDIT_LOG_MAX :: nat where "AUDIT_LOG_MAX = 5000"

definition hash_input :: "audit_row \<Rightarrow> string \<Rightarrow> json" where
  "hash_input r prevHash =
     JArr [json_int (int (au_id r)), json_opt (\<lambda>n. json_int (int n)) (au_user_id r),
       json_opt JStr (au_username r), JStr (au_action r), json_opt JStr (au_detail r),
       json_opt JStr (au_ip r), json_int (au_at r), JStr prevHash]"

definition auditRowHash :: "(string \<Rightarrow> string) \<Rightarrow> audit_row \<Rightarrow> string \<Rightarrow> string" where
  "auditRowHash H r prevHash = H (stringify (hash_input r prevHash))"

section \<open>Writing\<close>

datatype write_outcome = Written | NotInserted | NotSealed

definition chain_head :: "audit_row list \<Rightarrow> string" where
  "chain_head t = (case limit_one (order_by_desc au_id t) of
     None \<Rightarrow> AUDIT_GENESIS | Some r \<Rightarrow> or_default (au_hash r) AUDIT_GENESIS)"

definition audit_new_row :: "log_entry \<Rightarrow> ms \<Rightarrow> nat \<Rightarrow> string \<Rightarrow> audit_row" where
  "audit_new_row e now i prevHash =
     \<lparr> au_id = i, au_user_id = le_userId e, au_username = le_username e, au_action = le_action e,
       au_detail = le_detail e, au_ip = le_ip e, au_at = now, au_prev_hash = Some prevHash,
       au_hash = None \<rparr>"

definition writeEntry ::
  "(string \<Rightarrow> string) \<Rightarrow> log_entry \<Rightarrow> ms \<Rightarrow> write_outcome \<Rightarrow> audit_log \<Rightarrow> audit_log" where
  "writeEntry H e now outcome l =
     (let prevHash = chain_head (al_rows l); i = Suc (al_seq l); r = audit_new_row e now i prevHash;
          inserted = l\<lparr> al_rows := al_rows l @ [r], al_seq := i \<rparr>
      in case outcome of
           NotInserted \<Rightarrow> l
         | NotSealed \<Rightarrow> inserted
         | Written \<Rightarrow> inserted\<lparr> al_rows := upd_where (\<lambda>x. au_id x = i)
               (\<lambda>x. x\<lparr> au_hash := Some (auditRowHash H r prevHash) \<rparr>) (al_rows inserted) \<rparr>)"

text \<open>The promise chain applies the pending writes in the order \<open>log\<close> was called.\<close>

fun log_all ::
  "(string \<Rightarrow> string) \<Rightarrow> (log_entry \<times> ms \<times> write_outcome) list \<Rightarrow> audit_log \<Rightarrow> audit_log" where
  "log_all H [] l = l"
| "log_all H ((e, now, outcome) # es) l = log_all H es (writeEntry H e now outcome l)"

section \<open>Verification\<close>

datatype verdict = VOk nat | VBad nat nat

fun verify_from :: "(string \<Rightarrow> string) \<Rightarrow> string option \<Rightarrow> nat \<Rightarrow> audit_row list \<Rightarrow> verdict" where
  "verify_from H prev i [] = VOk i"
| "verify_from H prev i (r # rs) =
     (let linked = (prev = None \<or> au_prev_hash r = prev);
          intact = (au_hash r \<noteq> None \<and>
            au_hash r = Some (auditRowHash H r (or_default (au_prev_hash r) AUDIT_GENESIS)))
      in if \<not> linked \<or> \<not> intact then VBad (i + 1) (au_id r)
         else verify_from H (au_hash r) (i + 1) rs)"

definition audit_verify :: "(string \<Rightarrow> string) \<Rightarrow> audit_log \<Rightarrow> verdict" where
  "audit_verify H l = verify_from H None 0 (order_by au_id (al_rows l))"

section \<open>Reading\<close>

definition toEntry :: "audit_row \<Rightarrow> audit_entry" where
  "toEntry r = \<lparr> ae_id = au_id r, ae_userId = au_user_id r, ae_username = au_username r,
     ae_action = au_action r, ae_detail = au_detail r, ae_ip = au_ip r, ae_at = au_at r \<rparr>"

definition js_space :: "char \<Rightarrow> bool" where
  "js_space c = (let k = of_char c :: nat in (9 \<le> k \<and> k \<le> 13) \<or> k = 32 \<or> k = 160)"

definition js_trim :: "string \<Rightarrow> string" where
  "js_trim s = rev (dropWhile js_space (rev (dropWhile js_space s)))"

definition lower_char :: "char \<Rightarrow> char" where
  "lower_char c = (let k = of_char c :: nat in
     if (65 \<le> k \<and> k \<le> 90) \<or> (192 \<le> k \<and> k \<le> 222 \<and> k \<noteq> 215) then char_of (k + 32) else c)"

definition js_lower :: "string \<Rightarrow> string" where
  "js_lower s = map lower_char s"

fun starts_with :: "string \<Rightarrow> string \<Rightarrow> bool" where
  "starts_with [] s = True"
| "starts_with (p # ps) [] = False"
| "starts_with (p # ps) (c # cs) = (p = c \<and> starts_with ps cs)"

fun js_includes :: "string \<Rightarrow> string \<Rightarrow> bool" where
  "js_includes [] q = (q = [])"
| "js_includes (c # cs) q = (starts_with q (c # cs) \<or> js_includes cs q)"

definition js_ends_with :: "string \<Rightarrow> string \<Rightarrow> bool" where
  "js_ends_with s q = starts_with (rev q) (rev s)"

text \<open>An absent or empty filter adds no condition.\<close>

definition audit_filter :: "string option \<Rightarrow> string option \<Rightarrow> audit_row \<Rightarrow> bool" where
  "audit_filter action user r =
     ((case action of None \<Rightarrow> True | Some a \<Rightarrow> a = [] \<or> au_action r = a) \<and>
      (case user of None \<Rightarrow> True | Some u \<Rightarrow> u = [] \<or> au_username r = Some u))"

definition needle :: "string option \<Rightarrow> string option" where
  "needle q = (case q of None \<Rightarrow> None | Some s \<Rightarrow>
     (let t = js_lower (js_trim s) in if t = [] then None else Some t))"

definition entry_matches :: "audit_entry \<Rightarrow> string \<Rightarrow> bool" where
  "entry_matches e q =
     (js_includes (js_lower (ae_action e)) q \<or>
      js_includes (js_lower (or_default (ae_username e) [])) q \<or>
      js_includes (js_lower (or_default (ae_detail e) [])) q \<or>
      js_includes (js_lower (or_default (ae_ip e) [])) q)"

definition filteredRows :: "string option \<Rightarrow> string option \<Rightarrow> audit_log \<Rightarrow> audit_entry list" where
  "filteredRows action user l =
     map toEntry (order_by_desc au_at (sel_where (audit_filter action user) (al_rows l)))"

definition audit_list ::
  "nat \<Rightarrow> nat \<Rightarrow> string option \<Rightarrow> string option \<Rightarrow> string option \<Rightarrow> audit_log \<Rightarrow> audit_entry list \<times> nat" where
  "audit_list limit offset action q user l =
     (case needle q of
        None \<Rightarrow> (take limit (drop offset (filteredRows action user l)),
                 n_where (audit_filter action user) (al_rows l))
      | Some n \<Rightarrow> (let matched = filter (\<lambda>e. entry_matches e n) (filteredRows action user l)
                  in (take limit (drop offset matched), length matched)))"

definition exportRows ::
  "string option \<Rightarrow> string option \<Rightarrow> string option \<Rightarrow> nat \<Rightarrow> audit_log \<Rightarrow> audit_entry list" where
  "exportRows action q user mx l =
     (case needle q of
        None \<Rightarrow> take mx (filteredRows action user l)
      | Some n \<Rightarrow> take mx (filter (\<lambda>e. entry_matches e n) (filteredRows action user l)))"

record audit_counts =
  ac_today :: nat
  ac_week :: nat
  ac_actors :: nat
  ac_failedAuth :: nat

definition failed_auth :: "audit_entry \<Rightarrow> bool" where
  "failed_auth e = (starts_with ''auth.'' (ae_action e) \<and>
     (js_ends_with (ae_action e) ''.fail'' \<or> js_ends_with (ae_action e) ''.denied'' \<or>
      js_ends_with (ae_action e) ''.disabled''))"

definition audit_summary ::
  "string option \<Rightarrow> string option \<Rightarrow> string option \<Rightarrow> ms \<Rightarrow> ms \<Rightarrow> audit_log \<Rightarrow> audit_counts" where
  "audit_summary action q user dayStartMs now l =
     (let es = filter (\<lambda>e. case needle q of None \<Rightarrow> True | Some n \<Rightarrow> entry_matches e n)
                 (filteredRows action user l);
          weekStart = now - 7 * 86400000
      in \<lparr> ac_today = n_where (\<lambda>e. ae_at e \<ge> dayStartMs) es,
           ac_week = n_where (\<lambda>e. ae_at e \<ge> weekStart) es,
           ac_actors = length (remdups (List.map_filter ae_username es)),
           ac_failedAuth = n_where failed_auth es \<rparr>)"

definition audit_actions :: "audit_log \<Rightarrow> string list" where
  "audit_actions l = remdups (map au_action (order_by au_action (al_rows l)))"

definition audit_prune_to :: "nat \<Rightarrow> audit_log \<Rightarrow> audit_log" where
  "audit_prune_to mx l =
     (let keep = map au_id (take mx (order_by_desc au_at (al_rows l))) in
      if keep = [] then l\<lparr> al_rows := [] \<rparr>
      else l\<lparr> al_rows := del_where (\<lambda>r. au_id r \<notin> set keep) (al_rows l) \<rparr>)"

definition audit_prune :: "audit_log \<Rightarrow> audit_log" where
  "audit_prune l = audit_prune_to AUDIT_LOG_MAX l"

end
