(* ===== verification/Audit_Props.thy ===== *)
theory Audit_Props
  imports Audit_Log
begin

text \<open>
  The audit chain.  \<open>log_inv\<close> says that the rows stand in id order and verify; honest writes keep
  it, and under a hash without collisions on the texts concerned a log that verifies is
  determined by its length and its last hash.
\<close>

section \<open>Chains in id order\<close>

definition last_hash :: "string option \<Rightarrow> audit_row list \<Rightarrow> string option" where
  "last_hash prev t = (if t = [] then prev else au_hash (last t))"

definition seal_ok :: "(string \<Rightarrow> string) \<Rightarrow> string option \<Rightarrow> audit_row \<Rightarrow> bool" where
  "seal_ok H prev r =
     ((prev = None \<or> au_prev_hash r = prev) \<and>
      au_hash r = Some (auditRowHash H r (or_default (au_prev_hash r) AUDIT_GENESIS)))"

fun chain_ok :: "(string \<Rightarrow> string) \<Rightarrow> string option \<Rightarrow> audit_row list \<Rightarrow> bool" where
  "chain_ok H prev [] = True"
| "chain_ok H prev (r # rs) = (seal_ok H prev r \<and> chain_ok H (au_hash r) rs)"

lemma verify_Cons:
  "verify_from H prev i (r # t) =
     (if seal_ok H prev r then verify_from H (au_hash r) (i + 1) t else VBad (i + 1) (au_id r))"
  by (auto simp: seal_ok_def Let_def)

lemma verify_from_ok:
  "verify_from H prev i t = VOk n \<longleftrightarrow> chain_ok H prev t \<and> n = i + length t"
  by (induction t arbitrary: prev i) (auto simp: verify_Cons simp del: verify_from.simps(2))

lemma verify_bad_append:
  "verify_from H prev i t = VBad n k \<Longrightarrow> verify_from H prev i (t @ u) = VBad n k"
  by (induction t arbitrary: prev i) (auto simp: verify_Cons simp del: verify_from.simps(2) split: if_splits)

lemma verify_ok_append:
  "chain_ok H prev t \<Longrightarrow>
     verify_from H prev i (t @ v) = verify_from H (if t = [] then prev else au_hash (last t)) (i + length t) v"
  by (induction t arbitrary: prev i) (simp_all add: verify_Cons del: verify_from.simps(2))

lemma chain_ok_append:
  "chain_ok H prev (t @ u) \<longleftrightarrow> chain_ok H prev t \<and> chain_ok H (last_hash prev t) u"
  by (induction t arbitrary: prev) (auto simp: last_hash_def)

lemma chain_ok_hash: "chain_ok H prev t \<Longrightarrow> t \<noteq> [] \<Longrightarrow> au_hash (last t) \<noteq> None"
  by (induction t arbitrary: prev) (auto simp: seal_ok_def split: if_splits)

lemma chain_ok_None: "chain_ok H prev t \<Longrightarrow> chain_ok H None t"
  by (cases t) (auto simp: seal_ok_def)

definition log_inv :: "(string \<Rightarrow> string) \<Rightarrow> audit_log \<Rightarrow> bool" where
  "log_inv H l =
     (sorted_wrt (<) (map au_id (al_rows l)) \<and> (\<forall>r \<in> set (al_rows l). au_id r \<le> al_seq l) \<and>
      chain_ok H None (al_rows l))"

lemma order_by_ids: "sorted_wrt (<) (map au_id t) \<Longrightarrow> order_by au_id t = t"
  unfolding order_by_def by (rule sort_key_id_if_sorted) (simp add: strict_sorted_iff)

lemma order_by_desc_ids: "sorted_wrt (<) (map au_id t) \<Longrightarrow> order_by_desc au_id t = rev t"
  using order_by_ids [of t] by (simp add: order_by_def order_by_desc_def)

lemma log_inv_verifies: "log_inv H l \<Longrightarrow> audit_verify H l = VOk (length (al_rows l))"
  by (simp add: log_inv_def audit_verify_def order_by_ids verify_from_ok)

lemma chain_head_last:
  "sorted_wrt (<) (map au_id t) \<Longrightarrow> chain_head t = or_default (last_hash None t) AUDIT_GENESIS"
  unfolding chain_head_def by (cases t rule: rev_cases) (simp_all only: order_by_desc_ids, simp_all add: last_hash_def order_by_desc_def)

lemma auditRowHash_cong:
  "au_id r = au_id s \<Longrightarrow> toEntry r = toEntry s \<Longrightarrow> auditRowHash H r p = auditRowHash H s p"
  by (simp add: auditRowHash_def hash_input_def toEntry_def)

lemma writeEntry_rows:
  assumes "log_inv H l"
  shows "writeEntry H e now Written l = \<lparr> al_rows = al_rows l @
     [(audit_new_row e now (Suc (al_seq l)) (chain_head (al_rows l)))
        \<lparr> au_hash := Some (auditRowHash H (audit_new_row e now (Suc (al_seq l)) (chain_head (al_rows l)))
             (chain_head (al_rows l))) \<rparr>], al_seq = Suc (al_seq l) \<rparr>"
proof -
  have "\<forall>r \<in> set (al_rows l). au_id r \<noteq> Suc (al_seq l)" using assms by (fastforce simp: log_inv_def)
  then have "upd_where (\<lambda>x. au_id x = Suc (al_seq l)) f (al_rows l) = al_rows l" for f
    by (intro upd_where_id) auto
  then show ?thesis
    by (simp add: writeEntry_def Let_def audit_new_row_def upd_where_def)
qed

lemma writeEntry_inv:
  assumes "log_inv H l"
  shows "log_inv H (writeEntry H e now Written l)"
proof -
  let ?h = "chain_head (al_rows l)"
  let ?r = "audit_new_row e now (Suc (al_seq l)) ?h"
  have "seal_ok H (last_hash None (al_rows l)) (?r\<lparr> au_hash := Some (auditRowHash H ?r ?h) \<rparr>)"
  proof -
    have "last_hash None (al_rows l) = None \<or> last_hash None (al_rows l) = Some ?h"
      using assms by (cases "last_hash None (al_rows l)") (simp_all add: log_inv_def chain_head_last)
    moreover have "auditRowHash H (?r\<lparr> au_hash := x \<rparr>) p = auditRowHash H ?r p" for x p
      by (rule auditRowHash_cong) (simp_all add: toEntry_def)
    ultimately show ?thesis by (auto simp: seal_ok_def) (simp_all add: audit_new_row_def)
  qed
  with assms show ?thesis unfolding writeEntry_rows [OF assms] log_inv_def
    by (auto simp: chain_ok_append sorted_wrt_append audit_new_row_def less_Suc_eq_le intro: le_SucI)
qed

lemma writeEntry_snoc:
  assumes "log_inv H l"
  shows "\<exists>r. al_rows (writeEntry H e now Written l) = al_rows l @ [r] \<and> au_at r = now \<and>
     au_id r = Suc (al_seq l) \<and> al_seq (writeEntry H e now Written l) = Suc (al_seq l)"
  unfolding writeEntry_rows [OF assms] by (simp add: audit_new_row_def)

lemma writeEntry_grows: "length (al_rows (writeEntry H e now Written l)) = Suc (length (al_rows l))"
  by (simp add: writeEntry_def Let_def)

section \<open>Properties\<close>

text \<open>
  However many entries are logged, the log verifies with all its rows, and it still does
  when any number of the oldest rows has been dropped.
\<close>

theorem honest_log_verifies:
  assumes "log_inv H l" "\<forall>x \<in> set es. snd (snd x) = Written"
  shows "audit_verify H (log_all H es l) = VOk (length (al_rows l) + length es) \<and>
    (\<forall>k. let t = drop k (al_rows (log_all H es l)) in
       audit_verify H (log_all H es l\<lparr> al_rows := t \<rparr>) = VOk (length t))"
proof -
  have "log_inv H (log_all H es l) \<and> length (al_rows (log_all H es l)) = length (al_rows l) + length es"
    using assms
  proof (induction H es l rule: log_all.induct)
    case (2 H e now outcome es l)
    then show ?case using writeEntry_inv [of H l e now] writeEntry_grows [of H e now l] by simp
  qed simp
  moreover have "log_inv H (l'\<lparr> al_rows := drop k (al_rows l') \<rparr>)" if "log_inv H l'" for l' k
  proof -
    have "chain_ok H None (take k (al_rows l') @ drop k (al_rows l'))" using that by (simp add: log_inv_def)
    then have "chain_ok H None (drop k (al_rows l'))"
      using chain_ok_None unfolding chain_ok_append by blast
    with that show ?thesis
      by (auto simp: log_inv_def drop_map [symmetric] sorted_wrt_drop dest: in_set_dropD)
  qed
  ultimately show ?thesis using log_inv_verifies by (auto simp: Let_def)
qed


definition empty_log :: audit_log where
  "empty_log = \<lparr> al_rows = [], al_seq = 0 \<rparr>"

lemma empty_log_inv: "log_inv H empty_log"
  by (simp add: log_inv_def empty_log_def)

definition demo_entry :: "string \<Rightarrow> log_entry" where
  "demo_entry a = \<lparr> le_userId = Some 1, le_username = Some ''ada'', le_action = a, le_detail = None, le_ip = None \<rparr>"

lemma honest_log_verifies_witness:
  "audit_verify id (log_all id [(demo_entry ''a'', 1, Written), (demo_entry ''b'', 2, Written)] empty_log) = VOk 2"
  using honest_log_verifies [OF empty_log_inv, of "[(demo_entry ''a'', 1, Written), (demo_entry ''b'', 2, Written)]" id]
  by (simp add: empty_log_def)

definition hash_texts :: "audit_row list \<Rightarrow> string set" where
  "hash_texts t = (\<lambda>r. stringify (hash_input r (or_default (au_prev_hash r) AUDIT_GENESIS))) ` set t"

lemma hash_input_inject:
  "hash_input r p = hash_input s q \<longleftrightarrow> toEntry r = toEntry s \<and> p = q"
  by (auto simp: hash_input_def toEntry_def json_opt_inject)

lemma hash_input_ok: "json_ok (hash_input r p)"
  by (simp add: hash_input_def)

lemma same_hash_same_row:
  assumes "seal_ok H p r" "seal_ok H q s" "au_hash r = au_hash s"
    and "inj_on H (hash_texts (r # t) \<union> hash_texts (s # u))"
  shows "toEntry r = toEntry s \<and>
    or_default (au_prev_hash r) AUDIT_GENESIS = or_default (au_prev_hash s) AUDIT_GENESIS"
proof -
  let ?r = "hash_input r (or_default (au_prev_hash r) AUDIT_GENESIS)"
  let ?s = "hash_input s (or_default (au_prev_hash s) AUDIT_GENESIS)"
  have "H (stringify ?r) = H (stringify ?s)" using assms(1-3) by (simp add: seal_ok_def auditRowHash_def)
  moreover have "stringify ?r \<in> hash_texts (r # t) \<union> hash_texts (s # u)"
    "stringify ?s \<in> hash_texts (r # t) \<union> hash_texts (s # u)" by (simp_all add: hash_texts_def)
  ultimately have "stringify ?r = stringify ?s" using assms(4) by (blast dest: inj_onD)
  then show ?thesis using stringify_inject [OF hash_input_ok hash_input_ok] by (simp add: hash_input_inject)
qed

lemma hash_texts_snoc: "hash_texts (t @ [r]) = hash_texts (r # t)"
  by (simp add: hash_texts_def)

lemma chains_agree:
  assumes "length t = length u" "chain_ok H None t" "chain_ok H None u"
    and "last_hash None t = last_hash None u" "inj_on H (hash_texts t \<union> hash_texts u)"
  shows "map toEntry t = map toEntry u \<and> map au_hash t = map au_hash u"
  using assms
proof (induction t arbitrary: u rule: rev_induct)
  case (snoc r t)
  then obtain s v where u: "u = v @ [s]" by (cases u rule: rev_cases) auto
  have ok: "chain_ok H None t" "seal_ok H (last_hash None t) r" "chain_ok H None v" "seal_ok H (last_hash None v) s"
    using snoc.prems by (auto simp: u chain_ok_append)
  have hs: "au_hash r = au_hash s" using snoc.prems(4) by (simp add: u last_hash_def)
  have inj: "inj_on H (hash_texts (r # t) \<union> hash_texts (s # v))"
    using snoc.prems(5) by (simp add: u hash_texts_snoc)
  have row: "toEntry r = toEntry s"
    "or_default (au_prev_hash r) AUDIT_GENESIS = or_default (au_prev_hash s) AUDIT_GENESIS"
    using same_hash_same_row [OF ok(2) ok(4) hs inj] by blast+
  have len: "length t = length v" using snoc.prems(1) by (simp add: u)
  have "last_hash None t = last_hash None v"
  proof (cases "t = []")
    case False
    with len have "v \<noteq> []" by auto
    with False ok have "last_hash None t \<noteq> None" "last_hash None v \<noteq> None"
      by (simp_all add: last_hash_def chain_ok_hash)
    with ok(2,4) row(2) show ?thesis by (auto simp: seal_ok_def)
  qed (use len in \<open>simp add: last_hash_def\<close>)
  moreover have "inj_on H (hash_texts t \<union> hash_texts v)"
    using inj by (rule inj_on_subset) (auto simp: hash_texts_def)
  ultimately have "map toEntry t = map toEntry v \<and> map au_hash t = map au_hash v"
    using snoc.IH [of v] len ok by blast
  with row hs show ?case by (simp add: u)
qed simp

lemma verified_chain:
  "audit_verify H l = VOk n \<longleftrightarrow> chain_ok H None (order_by au_id (al_rows l)) \<and> n = length (al_rows l)"
  by (simp add: audit_verify_def verify_from_ok)

text \<open>
  C8. Tamper evidence: if the hash has no collision among the texts concerned, two logs of the same
  length that verify and end in the same hash hold the same entries.  So whoever keeps the last
  hash of a log detects every edit, insertion and exchange of rows in it.
\<close>

theorem tamper_evident:
  assumes "audit_verify H l = VOk n" "audit_verify H l' = VOk n"
    and "last_hash None (order_by au_id (al_rows l)) = last_hash None (order_by au_id (al_rows l'))"
    and "inj_on H (hash_texts (al_rows l) \<union> hash_texts (al_rows l'))"
  shows "map toEntry (order_by au_id (al_rows l)) = map toEntry (order_by au_id (al_rows l'))"
proof -
  have "hash_texts (order_by au_id t) = hash_texts t" for t by (simp add: hash_texts_def)
  with assms chains_agree [of "order_by au_id (al_rows l)" "order_by au_id (al_rows l')" H]
  show ?thesis by (simp add: verified_chain)
qed

definition demo_log :: audit_log where
  "demo_log = log_all id [(demo_entry ''a'', 1, Written), (demo_entry ''b'', 2, Written)] empty_log"

lemma tamper_evident_witness:
  "\<exists>l'. audit_verify id demo_log = VOk 2 \<and> audit_verify id l' = VOk 2 \<and>
     map toEntry (order_by au_id (al_rows demo_log)) = map toEntry (order_by au_id (al_rows l'))"
proof -
  have "log_inv id demo_log \<and> length (al_rows demo_log) = 2" unfolding demo_log_def
    by (simp add: writeEntry_inv empty_log_inv writeEntry_grows) (simp add: empty_log_def)
  then have v: "audit_verify id demo_log = VOk 2" using log_inv_verifies by metis
  from tamper_evident [OF v v refl] v show ?thesis by blast
qed

text \<open>
  What the chain cannot show: a log cut at either end verifies again, so missing newest
  entries are not noticed by \<open>verify\<close> itself.
\<close>

theorem truncation_unnoticed:
  assumes "log_inv H l"
  shows "audit_verify H (l\<lparr> al_rows := take a (drop b (al_rows l)) \<rparr>)
           = VOk (length (take a (drop b (al_rows l))))"
proof -
  have "chain_ok H None (take b (al_rows l) @ take a (drop b (al_rows l)) @ drop a (drop b (al_rows l)))"
    using assms by (simp add: log_inv_def del: drop_drop)
  then have "chain_ok H None (take a (drop b (al_rows l)))"
    using chain_ok_None unfolding chain_ok_append by blast
  moreover have "sorted_wrt (<) (map au_id (take a (drop b (al_rows l))))"
    using assms by (simp add: log_inv_def take_map [symmetric] drop_map [symmetric] sorted_wrt_drop sorted_wrt_take)
  ultimately show ?thesis by (simp add: audit_verify_def order_by_ids verify_from_ok)
qed

lemma truncation_unnoticed_witness:
  "\<exists>l. log_inv id l \<and> length (al_rows l) = 2 \<and> audit_verify id (l\<lparr> al_rows := take 1 (drop 0 (al_rows l)) \<rparr>) = VOk 1"
proof -
  let ?l = "writeEntry id (demo_entry ''b'') 2 Written (writeEntry id (demo_entry ''a'') 1 Written empty_log)"
  have "log_inv id ?l" using writeEntry_inv empty_log_inv by blast
  moreover have "length (al_rows ?l) = 2" by (simp add: writeEntry_grows) (simp add: empty_log_def)
  ultimately show ?thesis using truncation_unnoticed [of id ?l 1 0] by auto
qed


section \<open>Failing writes and pruning\<close>

lemma writeEntry_prefix:
  assumes "sorted_wrt (<) (map au_id (al_rows l))" "\<forall>r \<in> set (al_rows l). au_id r \<le> al_seq l"
  shows "\<exists>u. al_rows (writeEntry H e now outcome l) = al_rows l @ u \<and>
     sorted_wrt (<) (map au_id (al_rows l @ u)) \<and>
     (\<forall>r \<in> set (al_rows l @ u). au_id r \<le> al_seq (writeEntry H e now outcome l))"
proof -
  have "\<forall>r \<in> set (al_rows l). au_id r \<noteq> Suc (al_seq l)" using assms(2) by fastforce
  then have "upd_where (\<lambda>x. au_id x = Suc (al_seq l)) f (al_rows l @ [r]) =
      al_rows l @ upd_where (\<lambda>x. au_id x = Suc (al_seq l)) f [r]" for f r
    using upd_where_id [of "al_rows l"] by (auto simp: upd_where_def)
  with assms show ?thesis
    by (cases outcome)
      (auto simp: writeEntry_def Let_def audit_new_row_def sorted_wrt_append less_Suc_eq_le upd_where_def le_SucI)
qed

lemma log_all_prefix:
  assumes "sorted_wrt (<) (map au_id (al_rows l))" "\<forall>r \<in> set (al_rows l). au_id r \<le> al_seq l"
  shows "\<exists>u. al_rows (log_all H es l) = al_rows l @ u \<and> sorted_wrt (<) (map au_id (al_rows l @ u))"
  using assms
proof (induction H es l rule: log_all.induct)
  case (2 H e now outcome es l)
  from writeEntry_prefix [OF 2(2,3), of H e now outcome] obtain u where
    u: "al_rows (writeEntry H e now outcome l) = al_rows l @ u" "sorted_wrt (<) (map au_id (al_rows l @ u))"
    "\<forall>r \<in> set (al_rows l @ u). au_id r \<le> al_seq (writeEntry H e now outcome l)" by blast
  with 2(1) show ?case by (metis append.assoc log_all.simps(2))
qed simp

text \<open>
  If the UPDATE that stores a row's hash fails once, the error is swallowed, the unsealed row
  stays, and \<open>verify\<close> reports that row as tampered with from then on, whatever is logged later.
\<close>

theorem failed_seal_breaks_chain:
  assumes "log_inv H l"
  shows "audit_verify H (log_all H es (writeEntry H e now NotSealed l))
           = VBad (Suc (length (al_rows l))) (Suc (al_seq l))"
proof -
  let ?r = "audit_new_row e now (Suc (al_seq l)) (chain_head (al_rows l))"
  let ?l = "writeEntry H e now NotSealed l"
  have l: "al_rows ?l = al_rows l @ [?r]" "al_seq ?l = Suc (al_seq l)" by (simp_all add: writeEntry_def Let_def)
  have s: "sorted_wrt (<) (map au_id (al_rows l))" "\<forall>r \<in> set (al_rows l). au_id r \<le> al_seq l"
    using assms by (simp_all add: log_inv_def)
  have s': "sorted_wrt (<) (map au_id (al_rows ?l))" "\<forall>r \<in> set (al_rows ?l). au_id r \<le> al_seq ?l"
    using s by (auto simp: l sorted_wrt_append audit_new_row_def less_Suc_eq_le le_SucI)
  from log_all_prefix [OF s'] obtain u where
    u: "al_rows (log_all H es ?l) = (al_rows l @ [?r]) @ u"
    "sorted_wrt (<) (map au_id ((al_rows l @ [?r]) @ u))" by (auto simp: l)
  have bad: "verify_from H prev i [?r] = VBad (Suc i) (Suc (al_seq l))" for prev i
    by (simp add: audit_new_row_def Let_def)
  have "verify_from H None 0 (al_rows l @ [?r]) = VBad (Suc (length (al_rows l))) (Suc (al_seq l))"
    using assms by (simp add: log_inv_def verify_ok_append bad del: verify_from.simps)
  with u show ?thesis unfolding audit_verify_def by (simp only: order_by_ids verify_bad_append)
qed

lemma failed_seal_breaks_chain_witness:
  "audit_verify id (log_all id [(demo_entry ''b'', 2, Written)] (writeEntry id (demo_entry ''a'') 1 NotSealed empty_log))
     = VBad 1 1"
  using failed_seal_breaks_chain [OF empty_log_inv, of id "[(demo_entry ''b'', 2, Written)]" "demo_entry ''a''" 1]
  by (simp add: empty_log_def)

lemma sort_key_min:
  fixes f :: "'a \<Rightarrow> 'b::linorder"
  assumes "\<forall>y \<in> set t \<union> set u. f x < f y"
  shows "sort_key f (t @ x # u) = x # sort_key f (t @ u)"
proof -
  have "insort_key f x (sort_key f u) = x # sort_key f u"
    using assms by (cases "sort_key f u") (auto simp: less_imp_le dest: arg_cong [of _ _ set])
  then show ?thesis using assms by (induction t) auto
qed

lemma prune_drops_oldest:
  assumes "al_rows l = t @ x # u" "\<forall>y \<in> set t \<union> set u. au_at x < au_at y"
    and "length t + length u = mx" "0 < mx" "unique_on au_id (al_rows l)"
  shows "al_rows (audit_prune_to mx l) = t @ u"
proof -
  have "take mx (order_by_desc au_at (al_rows l)) = rev (sort_key au_at (t @ u))"
    using assms(3) by (simp add: order_by_desc_def assms(1) sort_key_min [OF assms(2)])
  then have keep: "set (map au_id (take mx (order_by_desc au_at (al_rows l)))) = au_id ` set (t @ u)" by simp
  moreover have "t @ u \<noteq> []" using assms(3,4) by auto
  ultimately have ne: "map au_id (take mx (order_by_desc au_at (al_rows l))) \<noteq> []"
    by (metis empty_is_image list.set(1) set_empty)
  have x: "au_id x \<notin> au_id ` set (t @ u)" using assms(5) by (auto simp: assms(1) unique_on_def)
  have "del_where (\<lambda>r. au_id r \<notin> au_id ` set (t @ u)) (t @ x # u) = t @ u"
    using x unfolding del_where_def filter_append by (auto simp: filter_id_conv)
  with ne show ?thesis unfolding audit_prune_to_def Let_def keep by (simp add: assms(1))
qed

text \<open>
  Pruning selects the surviving rows by time, the chain links them by id.  When the clock had
  been set back, so that the oldest time stamp is inside the log, pruning takes a row out of the
  middle and an untouched log stops verifying.
\<close>

theorem prune_by_time_breaks_chain:
  assumes "log_inv H l" "al_rows l = t @ x # y # u" "t \<noteq> []"
    and "\<forall>z \<in> set t \<union> set (y # u). au_at x < au_at z" "length t + length (y # u) = mx"
    and "inj_on H (hash_texts (al_rows l))"
  shows "audit_verify H (audit_prune_to mx l) = VBad (Suc (length t)) (au_id y)"
proof -
  have srt: "sorted_wrt (<) (map au_id (al_rows l))" using assms(1) by (simp add: log_inv_def)
  then have un: "unique_on au_id (al_rows l)" by (simp add: unique_on_def strict_sorted_iff)
  have rows: "al_rows (audit_prune_to mx l) = t @ y # u"
    using assms(5) by (intro prune_drops_oldest [OF assms(2,4) _ _ un]) auto
  have ch: "chain_ok H None t" "seal_ok H (au_hash (last t)) x" "seal_ok H (au_hash x) y"
    using assms(1,2,3) by (auto simp: log_inv_def chain_ok_append last_hash_def)
  obtain t0 a where t: "t = t0 @ [a]" using assms(3) by (cases t rule: rev_cases) auto
  have "seal_ok H (last_hash None t0) a" using ch(1) by (simp add: t chain_ok_append)
  moreover have "inj_on H (hash_texts (a # al_rows l) \<union> hash_texts (x # al_rows l))"
    using assms(6) by (rule inj_on_subset) (auto simp: hash_texts_def assms(2) t)
  moreover have "toEntry a \<noteq> toEntry x" using un by (auto simp: unique_on_def assms(2) t toEntry_def)
  ultimately have ne: "au_hash a \<noteq> au_hash x" using ch(2) same_hash_same_row by blast
  have "au_hash a \<noteq> None" using ch(1) chain_ok_hash [of H None t] by (simp add: t)
  with ne ch have "\<not> seal_ok H (au_hash a) y" by (auto simp: seal_ok_def t)
  then have "verify_from H (au_hash a) i (y # u) = VBad (Suc i) (au_id y)" for i
    by (auto simp: seal_ok_def Let_def)
  then have "verify_from H None 0 (t @ y # u) = VBad (Suc (length t)) (au_id y)"
    using verify_ok_append [OF ch(1)] by (simp add: t)
  moreover have "sorted_wrt (<) (map au_id (t @ y # u))" using srt by (auto simp: assms(2) sorted_wrt_append)
  ultimately show ?thesis by (simp add: audit_verify_def rows order_by_ids)
qed


lemma prune_by_time_breaks_chain_witness:
  "\<exists>l. log_inv id l \<and> length (al_rows l) = 3 \<and> audit_verify id l = VOk 3 \<and>
     audit_verify id (audit_prune_to 2 l) = VBad 2 3"
proof -
  let ?l1 = "writeEntry id (demo_entry ''a'') 8 Written empty_log"
  let ?l2 = "writeEntry id (demo_entry ''b'') 5 Written ?l1"
  let ?l = "writeEntry id (demo_entry ''c'') 9 Written ?l2"
  have i: "log_inv id ?l1" "log_inv id ?l2" "log_inv id ?l" using writeEntry_inv empty_log_inv by blast+
  obtain x where x: "al_rows ?l1 = [x]" "au_at x = 8" "al_seq ?l1 = 1"
    using writeEntry_snoc [OF empty_log_inv, of id "demo_entry ''a''" 8] by (auto simp: empty_log_def)
  obtain y where y: "al_rows ?l2 = [x, y]" "au_at y = 5" "al_seq ?l2 = 2"
    using writeEntry_snoc [OF i(1), of "demo_entry ''b''" 5] x by auto
  obtain z where z: "al_rows ?l = [x, y, z]" "au_at z = 9" "au_id z = 3"
    using writeEntry_snoc [OF i(2), of "demo_entry ''c''" 9] y by auto
  note r = z(1) x(2) y(2) z(2,3)
  have "audit_verify id (audit_prune_to 2 ?l) = VBad 2 3"
    using prune_by_time_breaks_chain [of id ?l "[x]" y z "[]" 2] i(3) r by (simp add: inj_on_def)
  with i(3) r(1) log_inv_verifies [OF i(3)] show ?thesis by force
qed

end
