(* ===== verification/Accounts.thy ===== *)
theory Accounts
  imports Json "HOL-Library.List_Lexorder" "HOL-Library.Char_ord"
begin

text \<open>
  The account tables of \<open>src/src/lib/server/store/db.ts\<close> (users, sessions, invites, passkey
  credentials and challenges) in one record, and \<open>UserStore\<close> of
  \<open>src/src/lib/server/admin/users.ts\<close>.  The password hash of a new password and the sealed form
  of a TOTP secret are arguments (scrypt and AES-GCM with random salts and nonces); opening a
  sealed secret is a function parameter.  Uniqueness violations are values of \<open>store_error\<close>.
\<close>

datatype store_error = UniqueViolation | ForeignKey | ReadBackFailed | TypeError

section \<open>Tables\<close>

record user_row =
  u_id :: nat
  u_username :: string
  u_display_name :: string
  u_password_hash :: string
  u_role :: string
  u_totp_secret :: "string option"
  u_totp_backup :: "string option"
  u_created_at :: ms
  u_disabled_at :: "ms option"
  u_last_login_at :: "ms option"
  u_source :: string
  u_external_id :: "string option"
  u_avatar :: "nat list option"
  u_avatar_mime :: "string option"

record public_user =
  pu_id :: nat
  pu_username :: string
  pu_displayName :: string
  pu_role :: string
  pu_totpEnabled :: bool
  pu_createdAt :: ms
  pu_disabledAt :: "ms option"
  pu_lastLoginAt :: "ms option"
  pu_hasAvatar :: bool

record session_row =
  s_token_hash :: string
  s_user_id :: nat
  s_created_at :: ms
  s_expires_at :: ms
  s_last_seen_at :: ms
  s_ip :: "string option"
  s_user_agent :: "string option"

datatype invite_kind = Invite | Reset

record invite_row =
  i_token_hash :: string
  i_kind :: invite_kind
  i_role :: string
  i_user_id :: "nat option"
  i_created_by :: "nat option"
  i_created_at :: ms
  i_expires_at :: ms
  i_used_at :: "ms option"
  i_revoked_at :: "ms option"

record credential_row =
  cr_id :: nat
  cr_user_id :: nat
  cr_credential_id :: string

record challenge_row =
  ch_token_hash :: string
  ch_user_id :: "nat option"

record accounts =
  users :: "user_row list"
  users_seq :: nat
  sessions :: "session_row list"
  invites :: "invite_row list"
  credentials :: "credential_row list"
  challenges :: "challenge_row list"

definition no_accounts :: accounts where
  "no_accounts = \<lparr> users = [], users_seq = 0, sessions = [], invites = [], credentials = [], challenges = [] \<rparr>"

definition toPublic :: "user_row \<Rightarrow> public_user" where
  "toPublic r = \<lparr> pu_id = u_id r, pu_username = u_username r, pu_displayName = u_display_name r,
     pu_role = u_role r, pu_totpEnabled = (u_totp_secret r \<noteq> None), pu_createdAt = u_created_at r,
     pu_disabledAt = u_disabled_at r, pu_lastLoginAt = u_last_login_at r,
     pu_hasAvatar = (u_avatar r \<noteq> None) \<rparr>"

text \<open>\<open>COLLATE NOCASE\<close> folds the ASCII letters.\<close>

definition fold_char :: "char \<Rightarrow> char" where
  "fold_char c = (let k = of_char c :: nat in if 65 \<le> k \<and> k \<le> 90 then char_of (k + 32) else c)"

definition nocase :: "string \<Rightarrow> string" where
  "nocase s = map fold_char s"

section \<open>Queries\<close>

definition user_count :: "accounts \<Rightarrow> nat" where
  "user_count db = length (users db)"

definition countByRole :: "accounts \<Rightarrow> string \<Rightarrow> nat" where
  "countByRole db role = n_where (\<lambda>r. u_role r = role) (users db)"

definition admins :: "accounts \<Rightarrow> public_user list" where
  "admins db = map toPublic (sel_where (\<lambda>r. u_role r = ''admin'') (users db))"

definition all_users :: "accounts \<Rightarrow> public_user list" where
  "all_users db = map toPublic (order_by (\<lambda>r. nocase (u_username r)) (users db))"

definition rowById :: "nat \<Rightarrow> accounts \<Rightarrow> user_row option" where
  "rowById i db = first_where (\<lambda>r. u_id r = i) (users db)"

definition byId :: "nat \<Rightarrow> accounts \<Rightarrow> public_user option" where
  "byId i db = map_option toPublic (rowById i db)"

definition rowByName :: "string \<Rightarrow> accounts \<Rightarrow> user_row option" where
  "rowByName name db = first_where (\<lambda>r. nocase (u_username r) = nocase name) (users db)"

definition rowByExternal :: "string \<Rightarrow> string \<Rightarrow> accounts \<Rightarrow> user_row option" where
  "rowByExternal source ext db =
     first_where (\<lambda>r. u_source r = source \<and> u_external_id r = Some ext) (users db)"

section \<open>Creation\<close>

definition localExternalId :: "string \<Rightarrow> string" where
  "localExternalId name = ''local:'' @ name"

text \<open>
  The INSERT with its two unique indexes: the username without case, and the pair of source and
  external id where the latter is present.
\<close>

definition user_clash :: "string \<Rightarrow> string \<Rightarrow> string \<Rightarrow> user_row \<Rightarrow> bool" where
  "user_clash name source ext r =
     (nocase (u_username r) = nocase name \<or> (u_source r = source \<and> u_external_id r = Some ext))"

definition insert_user ::
  "string \<Rightarrow> string \<Rightarrow> string \<Rightarrow> string \<Rightarrow> string \<Rightarrow> string \<Rightarrow> ms \<Rightarrow> accounts \<Rightarrow> store_error + (accounts \<times> nat)" where
  "insert_user name display hash role source ext now db =
     (if \<exists>r \<in> set (users db). user_clash name source ext r then Inl UniqueViolation
      else let i = Suc (users_seq db) in
        Inr (db\<lparr> users := users db @ [\<lparr> u_id = i, u_username = name, u_display_name = display,
               u_password_hash = hash, u_role = role, u_totp_secret = None, u_totp_backup = None,
               u_created_at = now, u_disabled_at = None, u_last_login_at = None,
               u_source = source, u_external_id = Some ext, u_avatar = None, u_avatar_mime = None \<rparr>],
             users_seq := i \<rparr>, i))"

definition read_back :: "accounts \<times> nat \<Rightarrow> store_error + (accounts \<times> public_user)" where
  "read_back p = (case p of (db, i) \<Rightarrow>
     (case byId i db of None \<Rightarrow> Inl ReadBackFailed | Some u \<Rightarrow> Inr (db, u)))"

definition create_user ::
  "string \<Rightarrow> string \<Rightarrow> string \<Rightarrow> string \<Rightarrow> ms \<Rightarrow> accounts \<Rightarrow> store_error + (accounts \<times> public_user)" where
  "create_user name hash role display now db =
     (case insert_user name display hash role ''local'' (localExternalId name) now db of
        Inl e \<Rightarrow> Inl e | Inr p \<Rightarrow> read_back p)"

definition createFirstUser ::
  "string \<Rightarrow> string \<Rightarrow> string \<Rightarrow> string \<Rightarrow> ms \<Rightarrow> accounts \<Rightarrow> store_error + (accounts \<times> public_user option)" where
  "createFirstUser name hash role display now db =
     (if user_count db > 0 then Inr (db, None)
      else case insert_user name display hash role ''local'' (localExternalId name) now db of
             Inl e \<Rightarrow> Inl e
           | Inr p \<Rightarrow> map_sum id (\<lambda>(db', u). (db', Some u)) (read_back p))"

definition createExternal ::
  "string \<Rightarrow> string \<Rightarrow> string \<Rightarrow> string \<Rightarrow> string \<Rightarrow> ms \<Rightarrow> accounts \<Rightarrow> store_error + (accounts \<times> public_user)" where
  "createExternal name display role source ext now db =
     (case insert_user name display [] role source ext now db of
        Inl e \<Rightarrow> Inl e | Inr p \<Rightarrow> read_back p)"

section \<open>Updates\<close>

definition upd_user :: "nat \<Rightarrow> (user_row \<Rightarrow> user_row) \<Rightarrow> accounts \<Rightarrow> accounts" where
  "upd_user i f db = db\<lparr> users := upd_where (\<lambda>r. u_id r = i) f (users db) \<rparr>"

definition syncExternal :: "nat \<Rightarrow> string \<Rightarrow> string \<Rightarrow> accounts \<Rightarrow> accounts" where
  "syncExternal i display role = upd_user i (\<lambda>r. r\<lparr> u_display_name := display, u_role := role \<rparr>)"

definition setPassword :: "nat \<Rightarrow> string \<Rightarrow> accounts \<Rightarrow> accounts" where
  "setPassword i hash = upd_user i (\<lambda>r. r\<lparr> u_password_hash := hash \<rparr>)"

definition setDisplayName :: "nat \<Rightarrow> string \<Rightarrow> accounts \<Rightarrow> accounts" where
  "setDisplayName i name = upd_user i (\<lambda>r. r\<lparr> u_display_name := name \<rparr>)"

definition setAvatar :: "nat \<Rightarrow> nat list \<Rightarrow> string \<Rightarrow> accounts \<Rightarrow> accounts" where
  "setAvatar i data mime = upd_user i (\<lambda>r. r\<lparr> u_avatar := Some data, u_avatar_mime := Some mime \<rparr>)"

definition clearAvatar :: "nat \<Rightarrow> accounts \<Rightarrow> accounts" where
  "clearAvatar i = upd_user i (\<lambda>r. r\<lparr> u_avatar := None, u_avatar_mime := None \<rparr>)"

definition avatarFor :: "nat \<Rightarrow> accounts \<Rightarrow> (nat list \<times> string) option" where
  "avatarFor i db =
     (case rowById i db of
        None \<Rightarrow> None
      | Some r \<Rightarrow>
          (case (u_avatar r, u_avatar_mime r) of
             (Some data, Some mime) \<Rightarrow> if mime = [] then None else Some (data, mime)
           | _ \<Rightarrow> None))"

definition setRole :: "nat \<Rightarrow> string \<Rightarrow> accounts \<Rightarrow> accounts" where
  "setRole i role = upd_user i (\<lambda>r. r\<lparr> u_role := role \<rparr>)"

definition setDisabled :: "nat \<Rightarrow> bool \<Rightarrow> ms \<Rightarrow> accounts \<Rightarrow> accounts" where
  "setDisabled i disabled now =
     upd_user i (\<lambda>r. r\<lparr> u_disabled_at := (if disabled then Some now else None) \<rparr>)"

definition touchLogin :: "nat \<Rightarrow> ms \<Rightarrow> accounts \<Rightarrow> accounts" where
  "touchLogin i now = upd_user i (\<lambda>r. r\<lparr> u_last_login_at := Some now \<rparr>)"

definition remove_user :: "nat \<Rightarrow> accounts \<Rightarrow> accounts" where
  "remove_user i db =
     db\<lparr> sessions := del_where (\<lambda>r. s_user_id r = i) (sessions db),
         invites := del_where (\<lambda>r. i_user_id r = Some i) (invites db),
         credentials := del_where (\<lambda>r. cr_user_id r = i) (credentials db),
         challenges := del_where (\<lambda>r. ch_user_id r = Some i) (challenges db),
         users := del_where (\<lambda>r. u_id r = i) (users db) \<rparr>"

section \<open>Second factor\<close>

definition setTotp :: "nat \<Rightarrow> string option \<Rightarrow> string list option \<Rightarrow> accounts \<Rightarrow> accounts" where
  "setTotp i sealed backup =
     upd_user i (\<lambda>r. r\<lparr> u_totp_secret := sealed,
       u_totp_backup := map_option (\<lambda>hs. stringify (json_strings hs)) backup \<rparr>)"

definition totpSecret :: "(string \<Rightarrow> string option) \<Rightarrow> user_row \<Rightarrow> string option" where
  "totpSecret openSecret r =
     (case u_totp_secret r of None \<Rightarrow> None | Some s \<Rightarrow> if s = [] then None else openSecret s)"

definition totpBackupHashes :: "user_row \<Rightarrow> json" where
  "totpBackupHashes r =
     (case u_totp_backup r of
        None \<Rightarrow> JArr []
      | Some t \<Rightarrow> if t = [] then JArr []
                  else (case json_parse t of None \<Rightarrow> JArr [] | Some v \<Rightarrow> v))"

fun remove_first :: "'a \<Rightarrow> 'a list \<Rightarrow> 'a list" where
  "remove_first x [] = []"
| "remove_first x (y # ys) = (if x = y then ys else y # remove_first x ys)"

text \<open>
  \<open>consumeBackupCode\<close> reads the row, then writes the shortened list in a later turn: the two
  halves are \<open>consume_read\<close> and \<open>consume_write\<close>.
\<close>

definition consume_read :: "nat \<Rightarrow> string \<Rightarrow> accounts \<Rightarrow> store_error + string option" where
  "consume_read i hash db =
     (case rowById i db of
        None \<Rightarrow> Inr None
      | Some row \<Rightarrow>
          (case totpBackupHashes row of
             JArr hs \<Rightarrow> if JStr hash \<in> set hs
                        then Inr (Some (stringify (JArr (remove_first (JStr hash) hs)))) else Inr None
           | _ \<Rightarrow> Inl TypeError))"

definition consume_write :: "nat \<Rightarrow> string option \<Rightarrow> accounts \<Rightarrow> accounts \<times> bool" where
  "consume_write i rest db =
     (case rest of
        None \<Rightarrow> (db, False)
      | Some t \<Rightarrow> (upd_user i (\<lambda>r. r\<lparr> u_totp_backup := Some t \<rparr>) db, True))"

definition consumeBackupCode :: "nat \<Rightarrow> string \<Rightarrow> accounts \<Rightarrow> store_error + (accounts \<times> bool)" where
  "consumeBackupCode i hash db =
     (case consume_read i hash db of Inl e \<Rightarrow> Inl e | Inr rest \<Rightarrow> Inr (consume_write i rest db))"

end
