(* ===== verification/Sessions.thy ===== *)
theory Sessions
  imports Accounts
begin

text \<open>
  Panel sessions (\<open>admin/sessions.ts\<close>), invite and reset links (\<open>admin/invites.ts\<close>) and login
  brute-force protection (\<open>admin/protection.ts\<close>), all under \<open>src/src/lib/server\<close>.  The token hash
  (sha256) is a parameter \<open>h\<close>; the random token and the clock are arguments.
\<close>

section \<open>Sessions\<close>

definition session_create ::
  "(string \<Rightarrow> string) \<Rightarrow> string \<Rightarrow> nat \<Rightarrow> ms \<Rightarrow> string option \<Rightarrow> string option \<Rightarrow> ms \<Rightarrow> accounts
     \<Rightarrow> store_error + (accounts \<times> string)" where
  "session_create h token userId ttlMs ip userAgent now db =
     (if \<exists>r \<in> set (sessions db). s_token_hash r = h token then Inl UniqueViolation
      else if \<forall>r \<in> set (users db). u_id r \<noteq> userId then Inl ForeignKey
      else Inr (db\<lparr> sessions := sessions db @ [\<lparr> s_token_hash = h token, s_user_id = userId,
             s_created_at = now, s_expires_at = now + ttlMs, s_last_seen_at = now, s_ip = ip,
             s_user_agent = map_option (take 300) userAgent \<rparr>] \<rparr>, token))"

definition revokeUserSessions :: "nat \<Rightarrow> string option \<Rightarrow> accounts \<Rightarrow> accounts" where
  "revokeUserSessions userId exceptHash db =
     (case exceptHash of
        Some e \<Rightarrow>
          if e = [] then db\<lparr> sessions := del_where (\<lambda>r. s_user_id r = userId) (sessions db) \<rparr>
          else db\<lparr> sessions := del_where (\<lambda>r. s_user_id r = userId \<and> s_token_hash r \<noteq> e) (sessions db) \<rparr>
      | None \<Rightarrow> db\<lparr> sessions := del_where (\<lambda>r. s_user_id r = userId) (sessions db) \<rparr>)"

definition session_resolve ::
  "(string \<Rightarrow> string) \<Rightarrow> string \<Rightarrow> ms \<Rightarrow> ms \<Rightarrow> accounts \<Rightarrow> accounts \<times> (public_user \<times> string) option" where
  "session_resolve h token ttlMs now db =
     (let tokenHash = h token; P = (\<lambda>r. s_token_hash r = tokenHash) in
      case first_where P (sessions db) of
        None \<Rightarrow> (db, None)
      | Some row \<Rightarrow>
          if s_expires_at row \<le> now then (db\<lparr> sessions := del_where P (sessions db) \<rparr>, None)
          else
            (case byId (s_user_id row) db of
               None \<Rightarrow> (revokeUserSessions (s_user_id row) None db, None)
             | Some user \<Rightarrow>
                 if pu_disabledAt user \<noteq> None then (revokeUserSessions (s_user_id row) None db, None)
                 else if 2 * (s_expires_at row - now) < ttlMs then
                   (db\<lparr> sessions := upd_where P
                          (\<lambda>r. r\<lparr> s_expires_at := now + ttlMs, s_last_seen_at := now \<rparr>) (sessions db) \<rparr>,
                    Some (user, tokenHash))
                 else
                   (db\<lparr> sessions := upd_where P (\<lambda>r. r\<lparr> s_last_seen_at := now \<rparr>) (sessions db) \<rparr>,
                    Some (user, tokenHash))))"

record session_info =
  si_tokenHash :: string
  si_userId :: nat
  si_createdAt :: ms
  si_expiresAt :: ms
  si_lastSeenAt :: ms
  si_ip :: "string option"
  si_userAgent :: "string option"
  si_current :: bool

definition session_info_of :: "string option \<Rightarrow> session_row \<Rightarrow> session_info" where
  "session_info_of currentHash r =
     \<lparr> si_tokenHash = s_token_hash r, si_userId = s_user_id r, si_createdAt = s_created_at r,
       si_expiresAt = s_expires_at r, si_lastSeenAt = s_last_seen_at r, si_ip = s_ip r,
       si_userAgent = s_user_agent r, si_current = (currentHash = Some (s_token_hash r)) \<rparr>"

definition sessions_forUser :: "nat \<Rightarrow> string option \<Rightarrow> accounts \<Rightarrow> session_info list" where
  "sessions_forUser userId currentHash db =
     map (session_info_of currentHash)
       (order_by_desc s_last_seen_at (sel_where (\<lambda>r. s_user_id r = userId) (sessions db)))"

definition session_revoke :: "string \<Rightarrow> accounts \<Rightarrow> accounts" where
  "session_revoke tokenHash db =
     db\<lparr> sessions := del_where (\<lambda>r. s_token_hash r = tokenHash) (sessions db) \<rparr>"

definition sessions_prune :: "ms \<Rightarrow> accounts \<Rightarrow> accounts \<times> nat" where
  "sessions_prune now db =
     (let P = (\<lambda>r. s_expires_at r \<le> now)
      in (db\<lparr> sessions := del_where P (sessions db) \<rparr>, n_where P (sessions db)))"

section \<open>Invites\<close>

record invite =
  in_tokenHash :: string
  in_kind :: invite_kind
  in_role :: string
  in_userId :: "nat option"
  in_createdBy :: "nat option"
  in_createdAt :: ms
  in_expiresAt :: ms
  in_usedAt :: "ms option"
  in_revokedAt :: "ms option"

definition toInvite :: "invite_row \<Rightarrow> invite" where
  "toInvite r = \<lparr> in_tokenHash = i_token_hash r, in_kind = i_kind r, in_role = i_role r,
     in_userId = i_user_id r, in_createdBy = i_created_by r, in_createdAt = i_created_at r,
     in_expiresAt = i_expires_at r, in_usedAt = i_used_at r, in_revokedAt = i_revoked_at r \<rparr>"

definition invite_lookup :: "(string \<Rightarrow> string) \<Rightarrow> string \<Rightarrow> accounts \<Rightarrow> invite option" where
  "invite_lookup h token db =
     map_option toInvite (first_where (\<lambda>r. i_token_hash r = h token) (invites db))"

definition invite_create ::
  "(string \<Rightarrow> string) \<Rightarrow> string \<Rightarrow> invite_kind \<Rightarrow> string \<Rightarrow> nat option \<Rightarrow> nat option \<Rightarrow> ms \<Rightarrow> ms \<Rightarrow> accounts
     \<Rightarrow> store_error + (accounts \<times> string \<times> invite)" where
  "invite_create h token kind role userId createdBy ttlMs now db =
     (if \<exists>r \<in> set (invites db). i_token_hash r = h token then Inl UniqueViolation
      else if \<exists>u. userId = Some u \<and> (\<forall>r \<in> set (users db). u_id r \<noteq> u) then Inl ForeignKey
      else let db' = db\<lparr> invites := invites db @ [\<lparr> i_token_hash = h token, i_kind = kind,
                 i_role = role, i_user_id = userId, i_created_by = createdBy, i_created_at = now,
                 i_expires_at = now + ttlMs, i_used_at = None, i_revoked_at = None \<rparr>] \<rparr>
           in case invite_lookup h token db' of
                None \<Rightarrow> Inl ReadBackFailed
              | Some iv \<Rightarrow> Inr (db', token, iv))"

definition isUsable :: "invite \<Rightarrow> ms \<Rightarrow> bool" where
  "isUsable iv now = (in_usedAt iv = None \<and> in_revokedAt iv = None \<and> in_expiresAt iv > now)"

definition markUsed :: "string \<Rightarrow> ms \<Rightarrow> accounts \<Rightarrow> accounts" where
  "markUsed tokenHash now db =
     db\<lparr> invites := upd_where (\<lambda>r. i_token_hash r = tokenHash) (\<lambda>r. r\<lparr> i_used_at := Some now \<rparr>) (invites db) \<rparr>"

definition claimable_invite :: "string \<Rightarrow> ms \<Rightarrow> invite_row \<Rightarrow> bool" where
  "claimable_invite tokenHash now r =
     (i_token_hash r = tokenHash \<and> i_used_at r = None \<and> i_revoked_at r = None \<and> i_expires_at r > now)"

definition tryClaim :: "string \<Rightarrow> ms \<Rightarrow> accounts \<Rightarrow> accounts \<times> bool" where
  "tryClaim tokenHash now db =
     (let P = claimable_invite tokenHash now
      in (db\<lparr> invites := upd_where P (\<lambda>r. r\<lparr> i_used_at := Some now \<rparr>) (invites db) \<rparr>,
          n_where P (invites db) = 1))"

definition invite_revoke :: "string \<Rightarrow> ms \<Rightarrow> accounts \<Rightarrow> accounts" where
  "invite_revoke tokenHash now db =
     db\<lparr> invites := upd_where (\<lambda>r. i_token_hash r = tokenHash \<and> i_used_at r = None)
            (\<lambda>r. r\<lparr> i_revoked_at := Some now \<rparr>) (invites db) \<rparr>"

definition revokeForUser :: "nat \<Rightarrow> ms \<Rightarrow> accounts \<Rightarrow> accounts" where
  "revokeForUser userId now db =
     db\<lparr> invites := upd_where (\<lambda>r. i_user_id r = Some userId \<and> i_used_at r = None)
            (\<lambda>r. r\<lparr> i_revoked_at := Some now \<rparr>) (invites db) \<rparr>"

definition invites_pending :: "nat \<Rightarrow> accounts \<Rightarrow> invite list" where
  "invites_pending limit db =
     map toInvite (take limit (order_by_desc i_created_at
       (sel_where (\<lambda>r. i_used_at r = None \<and> i_revoked_at r = None) (invites db))))"

definition invites_recent :: "nat \<Rightarrow> accounts \<Rightarrow> invite list" where
  "invites_recent limit db = map toInvite (take limit (order_by_desc i_created_at (invites db)))"

definition invites_prune :: "ms \<Rightarrow> accounts \<Rightarrow> accounts \<times> nat" where
  "invites_prune now db =
     (let P = (\<lambda>r. i_expires_at r \<le> now \<and> i_used_at r = None)
      in (db\<lparr> invites := del_where P (invites db) \<rparr>, n_where P (invites db)))"

section \<open>Login protection\<close>

record attempt_row =
  at_key :: string
  at_username :: "string option"
  at_ok :: nat
  at_at :: ms

record lockout_policy =
  lp_maxAttempts :: int
  lp_lockoutMs :: ms

definition DELAY_BASE_MS :: ms where "DELAY_BASE_MS = 250"

definition DELAY_MAX_MS :: ms where "DELAY_MAX_MS = 5000"

definition LOGIN_ATTEMPT_RETENTION_MS :: ms where "LOGIN_ATTEMPT_RETENTION_MS = 24 * 3600000"

definition attempt_record ::
  "string \<Rightarrow> string option \<Rightarrow> bool \<Rightarrow> ms \<Rightarrow> attempt_row list \<Rightarrow> attempt_row list" where
  "attempt_record key username ok now t =
     t @ [\<lparr> at_key = key, at_username = map_option (take 128) username,
            at_ok = (if ok then 1 else 0), at_at = now \<rparr>]"

definition attempts_count :: "(attempt_row \<Rightarrow> bool) \<Rightarrow> ms \<Rightarrow> attempt_row list \<Rightarrow> nat" where
  "attempts_count P since t = n_where (\<lambda>r. P r \<and> at_ok r = 0 \<and> at_at r \<ge> since) t"

definition lastKeyFailure :: "string \<Rightarrow> attempt_row list \<Rightarrow> ms option" where
  "lastKeyFailure key t =
     (case map at_at (sel_where (\<lambda>r. at_key r = key \<and> at_ok r = 0) t) of
        [] \<Rightarrow> None
      | x # xs \<Rightarrow> Some (fold max xs x))"

definition lockedUntil :: "string \<Rightarrow> lockout_policy \<Rightarrow> ms \<Rightarrow> attempt_row list \<Rightarrow> ms option" where
  "lockedUntil key policy now t =
     (let since = now - lp_lockoutMs policy in
      if int (attempts_count (\<lambda>r. at_key r = key) since t) < lp_maxAttempts policy then None
      else (case lastKeyFailure key t of
              None \<Rightarrow> None
            | Some lst \<Rightarrow> Some (lst + lp_lockoutMs policy)))"

definition usernameDelayMs :: "string \<Rightarrow> lockout_policy \<Rightarrow> ms \<Rightarrow> attempt_row list \<Rightarrow> ms" where
  "usernameDelayMs username policy now t =
     (let since = now - lp_lockoutMs policy;
          n = int (attempts_count (\<lambda>r. at_username r = Some username) since t);
          over = n - lp_maxAttempts policy
      in if over < 0 then 0
         else min (DELAY_BASE_MS * 2 ^ nat (min over 6)) DELAY_MAX_MS)"

definition attempts_prune :: "ms \<Rightarrow> attempt_row list \<Rightarrow> attempt_row list \<times> nat" where
  "attempts_prune now t =
     (let P = (\<lambda>r. at_at r < now - LOGIN_ATTEMPT_RETENTION_MS) in (del_where P t, n_where P t))"

end
