(* ===== verification/Roles.thy ===== *)
theory Roles
  imports Accounts
begin

text \<open>
  The permission model: \<open>src/src/lib/server/admin/authz.ts\<close> and \<open>admin/roles.ts\<close>.  A
  \<open>role_store\<close> is the \<open>roles\<close> table with the in-memory cache and the seeding flag of
  \<open>RoleStore\<close>.  \<open>permsFor\<close> awaits its SELECT in the middle, so it is split into
  \<open>permsFor_begin\<close> and \<open>permsFor_fill\<close>.  The only thing the store asks of \<open>UserStore\<close> is
  \<open>countByRole\<close>; the locale \<open>role_usage\<close> states that interface.
\<close>

section \<open>Permissions\<close>

datatype permission = StatusView | StatusManage | AgentsManage | NotificationsTest | AdminSettings
  | UsersManage | InvitesManage | RolesManage | AuditView | TelemetryView | TelemetryManage
  | DeployView | DeployManage | ScanView | ScanManage | AnomalyView | GroupsManage | TeamsManage
  | SecretsManage | ConfigRaw | AiUse

definition ALL_PERMISSIONS :: "permission list" where
  "ALL_PERMISSIONS = [StatusView, StatusManage, AgentsManage, NotificationsTest, AdminSettings,
     UsersManage, InvitesManage, RolesManage, AuditView, TelemetryView, TelemetryManage,
     DeployView, DeployManage, ScanView, ScanManage, AnomalyView, GroupsManage, TeamsManage,
     SecretsManage, ConfigRaw, AiUse]"

fun perm_name :: "permission \<Rightarrow> string" where
  "perm_name StatusView = ''status.view''"
| "perm_name StatusManage = ''status.manage''"
| "perm_name AgentsManage = ''agents.manage''"
| "perm_name NotificationsTest = ''notifications.test''"
| "perm_name AdminSettings = ''admin.settings''"
| "perm_name UsersManage = ''users.manage''"
| "perm_name InvitesManage = ''invites.manage''"
| "perm_name RolesManage = ''roles.manage''"
| "perm_name AuditView = ''audit.view''"
| "perm_name TelemetryView = ''telemetry.view''"
| "perm_name TelemetryManage = ''telemetry.manage''"
| "perm_name DeployView = ''deploy.view''"
| "perm_name DeployManage = ''deploy.manage''"
| "perm_name ScanView = ''scan.view''"
| "perm_name ScanManage = ''scan.manage''"
| "perm_name AnomalyView = ''anomaly.view''"
| "perm_name GroupsManage = ''groups.manage''"
| "perm_name TeamsManage = ''teams.manage''"
| "perm_name SecretsManage = ''secrets.manage''"
| "perm_name ConfigRaw = ''config.raw''"
| "perm_name AiUse = ''ai.use''"

text \<open>\<open>isPermission\<close>, with the permission it recognises.\<close>

definition perm_of :: "json \<Rightarrow> permission option" where
  "perm_of v = (case v of JStr s \<Rightarrow> find (\<lambda>p. perm_name p = s) ALL_PERMISSIONS | _ \<Rightarrow> None)"

definition isPermission :: "json \<Rightarrow> bool" where
  "isPermission v = (perm_of v \<noteq> None)"

text \<open>Which permission a config section needs; reads sit at the same tier as writes.\<close>

definition sectionPermission :: "string \<Rightarrow> permission" where
  "sectionPermission section =
     (if section \<in> set [''admin'', ''oidc'', ''ldap'', ''telemetry'', ''ingress'', ''ai'']
      then AdminSettings else StatusManage)"

definition sectionReadPermission :: "string \<Rightarrow> permission" where
  "sectionReadPermission section = sectionPermission section"

section \<open>The roles table\<close>

record role_row =
  ro_name :: string
  ro_label :: string
  ro_permissions :: string
  ro_builtin :: bool
  ro_created_at :: ms

record role_info =
  ri_name :: string
  ri_label :: string
  ri_permissions :: "permission list"
  ri_builtin :: bool
  ri_createdAt :: ms

record role_store =
  ro_rows :: "role_row list"
  ro_cache :: "(string \<Rightarrow> permission set option) option"
  ro_seeded :: bool

datatype update_result = Ok | Missing | Protected | InUse

definition BUILTINS :: "(string \<times> string \<times> permission list) list" where
  "BUILTINS =
     [(''admin'', ''Admin'', ALL_PERMISSIONS),
      (''operator'', ''Operator'', [StatusView, StatusManage, NotificationsTest, DeployView, ScanView,
         AnomalyView, GroupsManage, SecretsManage]),
      (''viewer'', ''Viewer'', [StatusView, ScanView, AnomalyView])]"

definition perms_json :: "permission list \<Rightarrow> string" where
  "perms_json ps = stringify (json_strings (map perm_name ps))"

definition LEGACY_BUILTIN_PERMS :: "string \<Rightarrow> string option" where
  "LEGACY_BUILTIN_PERMS name =
     (if name = ''operator'' then
        Some (perms_json [StatusView, StatusManage, NotificationsTest, DeployView])
      else if name = ''viewer'' then Some (perms_json [StatusView]) else None)"

definition parsePerms :: "string \<Rightarrow> permission list" where
  "parsePerms raw =
     (case json_parse raw of Some (JArr vs) \<Rightarrow> List.map_filter perm_of vs | _ \<Rightarrow> [])"

text \<open>Validation of a client list: unknown entries reject it, duplicates collapse.\<close>

definition parsePermissions :: "json \<Rightarrow> permission list option" where
  "parsePermissions v =
     (case v of
        JArr vs \<Rightarrow> if list_all isPermission vs then Some (rev (remdups (rev (List.map_filter perm_of vs))))
                   else None
      | _ \<Rightarrow> None)"

definition toInfo :: "role_row \<Rightarrow> role_info" where
  "toInfo r = \<lparr> ri_name = ro_name r, ri_label = ro_label r, ri_permissions = parsePerms (ro_permissions r),
     ri_builtin = ro_builtin r, ri_createdAt = ro_created_at r \<rparr>"

section \<open>Seeding\<close>

definition seed_builtin :: "ms \<Rightarrow> (string \<times> string \<times> permission list) \<Rightarrow> role_row list \<Rightarrow> role_row list" where
  "seed_builtin now b t =
     (case b of (name, label, perms) \<Rightarrow>
        let t1 = (if \<exists>r \<in> set t. ro_name r = name then t
                  else t @ [\<lparr> ro_name = name, ro_label = label, ro_permissions = perms_json perms,
                              ro_builtin = True, ro_created_at = now \<rparr>])
        in case LEGACY_BUILTIN_PERMS name of
             None \<Rightarrow> t1
           | Some legacy \<Rightarrow>
               upd_where (\<lambda>r. ro_name r = name \<and> ro_builtin r \<and> ro_permissions r = legacy)
                 (\<lambda>r. r\<lparr> ro_permissions := perms_json perms \<rparr>) t1)"

definition seed :: "ms \<Rightarrow> role_row list \<Rightarrow> role_row list" where
  "seed now t = fold (seed_builtin now) BUILTINS t"

definition ensureSeeded :: "ms \<Rightarrow> role_store \<Rightarrow> role_store" where
  "ensureSeeded now s =
     (if ro_seeded s then s else s\<lparr> ro_rows := seed now (ro_rows s), ro_seeded := True \<rparr>)"

section \<open>RoleStore\<close>

definition role_list :: "ms \<Rightarrow> role_store \<Rightarrow> role_store \<times> role_info list" where
  "role_list now s =
     (let s1 = ensureSeeded now s in (s1, map toInfo (order_by ro_name (ro_rows s1))))"

definition role_get :: "string \<Rightarrow> ms \<Rightarrow> role_store \<Rightarrow> role_store \<times> role_info option" where
  "role_get name now s =
     (let s1 = ensureSeeded now s
      in (s1, map_option toInfo (first_where (\<lambda>r. ro_name r = name) (ro_rows s1))))"

definition role_exists :: "string \<Rightarrow> ms \<Rightarrow> role_store \<Rightarrow> role_store \<times> bool" where
  "role_exists name now s =
     (let s1 = ensureSeeded now s in (s1, \<exists>r \<in> set (ro_rows s1). ro_name r = name))"

datatype perms_request = Answer "permission set" | Fetch "role_row list"

definition permsFor_begin :: "string \<Rightarrow> ms \<Rightarrow> role_store \<Rightarrow> role_store \<times> perms_request" where
  "permsFor_begin name now s =
     (if name = ''admin'' then (s, Answer (set ALL_PERMISSIONS))
      else let s1 = ensureSeeded now s in
        (case ro_cache s1 of
           None \<Rightarrow> (s1\<lparr> ro_cache := Some (\<lambda>_. None) \<rparr>, Fetch (ro_rows s1))
         | Some m \<Rightarrow> (s1, Answer (or_default (m name) {}))))"

definition cache_fill ::
  "role_row list \<Rightarrow> (string \<Rightarrow> permission set option) \<Rightarrow> (string \<Rightarrow> permission set option)" where
  "cache_fill t m = fold (\<lambda>r m. m(ro_name r := Some (set (parsePerms (ro_permissions r))))) t m"

text \<open>The fetched rows go into whatever cache is there by then; none at all is a TypeError.\<close>

definition permsFor_fill ::
  "string \<Rightarrow> role_row list \<Rightarrow> role_store \<Rightarrow> store_error + (role_store \<times> permission set)" where
  "permsFor_fill name t s =
     (case ro_cache s of
        None \<Rightarrow> Inl TypeError
      | Some m \<Rightarrow> (let m' = cache_fill t m
                  in Inr (s\<lparr> ro_cache := Some m' \<rparr>, or_default (m' name) {})))"

definition permsFor :: "string \<Rightarrow> ms \<Rightarrow> role_store \<Rightarrow> store_error + (role_store \<times> permission set)" where
  "permsFor name now s =
     (case permsFor_begin name now s of
        (s1, Answer p) \<Rightarrow> Inr (s1, p)
      | (s1, Fetch t) \<Rightarrow> permsFor_fill name t s1)"

definition role_create ::
  "string \<Rightarrow> string \<Rightarrow> permission list \<Rightarrow> ms \<Rightarrow> role_store \<Rightarrow> store_error + (role_store \<times> role_info)" where
  "role_create name label permissions now s =
     (let s1 = ensureSeeded now s in
      if \<exists>r \<in> set (ro_rows s1). ro_name r = name then Inl UniqueViolation
      else let s2 = s1\<lparr> ro_rows := ro_rows s1 @ [\<lparr> ro_name = name, ro_label = label,
                  ro_permissions = perms_json permissions, ro_builtin = False, ro_created_at = now \<rparr>],
                ro_cache := None \<rparr>
           in case role_get name now s2 of
                (s3, None) \<Rightarrow> Inl ReadBackFailed
              | (s3, Some info) \<Rightarrow> Inr (s3, info))"

definition role_update ::
  "string \<Rightarrow> string \<Rightarrow> permission list \<Rightarrow> ms \<Rightarrow> role_store \<Rightarrow> role_store \<times> update_result" where
  "role_update name label permissions now s =
     (if name = ''admin'' then (s, Protected)
      else case role_exists name now s of
        (s1, False) \<Rightarrow> (s1, Missing)
      | (s1, True) \<Rightarrow>
          (s1\<lparr> ro_rows := upd_where (\<lambda>r. ro_name r = name)
                 (\<lambda>r. r\<lparr> ro_label := label, ro_permissions := perms_json permissions \<rparr>) (ro_rows s1),
               ro_cache := None \<rparr>, Ok))"

definition role_remove ::
  "(string \<Rightarrow> nat) \<Rightarrow> string \<Rightarrow> ms \<Rightarrow> role_store \<Rightarrow> role_store \<times> update_result" where
  "role_remove count name now s =
     (if name = ''admin'' then (s, Protected)
      else case role_get name now s of
        (s1, None) \<Rightarrow> (s1, Missing)
      | (s1, Some info) \<Rightarrow>
          if ri_builtin info then (s1, Protected)
          else if count name > 0 then (s1, InUse)
          else (s1\<lparr> ro_rows := del_where (\<lambda>r. ro_name r = name) (ro_rows s1), ro_cache := None \<rparr>, Ok))"

section \<open>Authorization\<close>

definition can :: "role_store \<Rightarrow> public_user \<Rightarrow> permission \<Rightarrow> ms \<Rightarrow> store_error + (role_store \<times> bool)" where
  "can s user perm now = map_sum id (\<lambda>(s1, ps). (s1, perm \<in> ps)) (permsFor (pu_role user) now s)"

definition canGrantRole ::
  "role_store \<Rightarrow> permission set option \<Rightarrow> string \<Rightarrow> ms \<Rightarrow> store_error + (role_store \<times> bool)" where
  "canGrantRole s actorPerms role now =
     (case actorPerms of
        None \<Rightarrow> Inr (s, False)
      | Some actor \<Rightarrow>
          (case role_exists role now s of
             (s1, False) \<Rightarrow> Inr (s1, False)
           | (s1, True) \<Rightarrow>
               map_sum id (\<lambda>(s2, ps). (s2, ps \<subseteq> actor)) (permsFor role now s1)))"

end
