(* ===== verification/Admin_Http.thy ===== *)
theory Admin_Http
  imports Sessions Roles Audit_Log
begin

text \<open>
  What the admin route handlers share: \<open>admin/http.ts\<close>, \<open>admin/policy.ts\<close>, the state they act on
  and the request they read.  A handler maps the \<open>hub\<close> to a new one and a \<open>reply\<close>; an
  exception of a store is the reply \<open>Crash\<close> with the state reached so far.  \<open>env\<close> collects what
  the handlers take from outside: clock, hashes, the random token, scrypt and the configuration.
\<close>

section \<open>State, request and reply\<close>

record hub =
  h_acc :: accounts
  h_roles :: role_store
  h_attempts :: "attempt_row list"
  h_audit :: audit_log

record env =
  ev_now :: ms
  ev_sha :: "string \<Rightarrow> string"
  ev_token :: string
  ev_hash_password :: "string \<Rightarrow> string"
  ev_verify_password :: "string \<Rightarrow> string \<Rightarrow> bool"
  ev_open_secret :: "string \<Rightarrow> string option"
  ev_seal_secret :: "string \<Rightarrow> string"
  ev_verify_totp :: "string \<Rightarrow> string \<Rightarrow> bool"
  ev_audit :: write_outcome
  ev_min_length :: nat
  ev_session_ttl :: ms
  ev_invite_ttl_hours :: int
  ev_allow_setup :: bool
  ev_lockout :: lockout_policy

datatype payload = TooLarge | Malformed | Body json

record request =
  rq_user :: "public_user option"
  rq_perms :: "permission set option"
  rq_session :: "string option"
  rq_payload :: payload
  rq_ip :: string
  rq_agent :: "string option"

datatype answer = Done | Invalid | TotpRequired | User "public_user option" | Users "public_user list"
  | Role "role_info option" | RoleList "(role_info \<times> nat) list" | Link string | Sessions "session_info list"
  | Invites "invite list" | InviteView invite_kind string ms "string option" | Codes "string list"
  | Needed bool

datatype reply = ApiJson nat answer | ApiError nat string | Crash

section \<open>Reading the body\<close>

definition jmember :: "string \<Rightarrow> json \<Rightarrow> json option" where
  "jmember k v = (case v of JObj ms \<Rightarrow> map_of (rev ms) k | _ \<Rightarrow> None)"

text \<open>
  \<open>readJson\<close> ends the request on an unreadable body; reading a member of \<open>null\<close> throws.
\<close>

definition with_body :: "request \<Rightarrow> hub \<Rightarrow> (json \<Rightarrow> hub \<times> reply) \<Rightarrow> hub \<times> reply" where
  "with_body rq s k =
     (case rq_payload rq of
        TooLarge \<Rightarrow> (s, ApiError 413 ''body too large'')
      | Malformed \<Rightarrow> (s, ApiError 400 ''expected a JSON body'')
      | Body v \<Rightarrow> (if v = JNull then (s, Crash) else k v))"

definition asString :: "json option \<Rightarrow> nat \<Rightarrow> string option" where
  "asString v mx =
     (case v of Some (JStr t) \<Rightarrow> if t \<noteq> [] \<and> length t \<le> mx then Some t else None | _ \<Rightarrow> None)"

text \<open>\<open>typeof v === 'string' ? v : ''\<close>.\<close>

definition str_or_empty :: "json option \<Rightarrow> string" where
  "str_or_empty v = (case v of Some (JStr t) \<Rightarrow> t | _ \<Rightarrow> [])"

definition honeypotTripped :: "json \<Rightarrow> bool" where
  "honeypotTripped b = (str_or_empty (jmember ''website'' b) \<noteq> [])"

section \<open>Guards\<close>

definition requireUser :: "request \<Rightarrow> hub \<Rightarrow> (public_user \<Rightarrow> hub \<times> reply) \<Rightarrow> hub \<times> reply" where
  "requireUser rq s k =
     (case rq_user rq of None \<Rightarrow> (s, ApiError 401 ''authentication required'') | Some u \<Rightarrow> k u)"

definition requirePerm ::
  "request \<Rightarrow> permission \<Rightarrow> hub \<Rightarrow> (public_user \<Rightarrow> hub \<times> reply) \<Rightarrow> hub \<times> reply" where
  "requirePerm rq perm s k =
     requireUser rq s (\<lambda>u.
       (case rq_perms rq of
          None \<Rightarrow> (s, ApiError 403 ''insufficient permissions'')
        | Some ps \<Rightarrow> if perm \<in> ps then k u else (s, ApiError 403 ''insufficient permissions'')))"

text \<open>An awaited store call: the exception ends the handler.\<close>

definition attempt :: "store_error + 'a \<Rightarrow> hub \<Rightarrow> ('a \<Rightarrow> hub \<times> reply) \<Rightarrow> hub \<times> reply" where
  "attempt r s k = (case r of Inl _ \<Rightarrow> (s, Crash) | Inr x \<Rightarrow> k x)"

section \<open>Audit entries\<close>

definition audit_as ::
  "env \<Rightarrow> nat option \<Rightarrow> string option \<Rightarrow> string \<Rightarrow> string option \<Rightarrow> string \<Rightarrow> hub \<Rightarrow> hub" where
  "audit_as ev uid name action detail ip s =
     s\<lparr> h_audit := writeEntry (ev_sha ev)
          \<lparr> le_userId = uid, le_username = name, le_action = action, le_detail = detail, le_ip = Some ip \<rparr>
          (ev_now ev) (ev_audit ev) (h_audit s) \<rparr>"

definition audit :: "env \<Rightarrow> request \<Rightarrow> string \<Rightarrow> string option \<Rightarrow> hub \<Rightarrow> hub" where
  "audit ev rq action detail s =
     audit_as ev (map_option pu_id (rq_user rq)) (map_option pu_username (rq_user rq)) action detail (rq_ip rq) s"

section \<open>Policy\<close>

definition lower_or_digit :: "char \<Rightarrow> bool" where
  "lower_or_digit c = (let k = of_char c :: nat in (97 \<le> k \<and> k \<le> 122) \<or> (48 \<le> k \<and> k \<le> 57))"

definition USERNAME_RE :: "string \<Rightarrow> bool" where
  "USERNAME_RE s =
     (case s of [] \<Rightarrow> False
      | c # cs \<Rightarrow> lower_or_digit c \<and> 1 \<le> length cs \<and> length cs \<le> 63 \<and>
          list_all (\<lambda>d. lower_or_digit d \<or> d \<in> set ''._-'') cs)"

definition ROLE_NAME_RE :: "string \<Rightarrow> bool" where
  "ROLE_NAME_RE s =
     (case s of [] \<Rightarrow> False
      | c # cs \<Rightarrow> (let k = of_char c :: nat in 97 \<le> k \<and> k \<le> 122) \<and> length cs \<le> 31 \<and>
          list_all (\<lambda>d. lower_or_digit d \<or> d \<in> set ''_-'') cs)"

definition checkPassword :: "string \<Rightarrow> string \<Rightarrow> nat \<Rightarrow> string option" where
  "checkPassword password username minLength =
     (if length password < minLength
      then Some (''password must be at least '' @ nat_digits minLength @ '' characters'')
      else if length password > 256 then Some ''password is too long''
      else if username \<noteq> [] \<and> js_includes (js_lower password) (js_lower username)
      then Some ''password must not contain the username''
      else None)"

definition USERNAME_HINT :: string where
  "USERNAME_HINT = ''username must be 2-64 chars of a-z, 0-9, dot, dash, underscore''"

section \<open>Stepping the parts of the hub\<close>

definition on_acc :: "(accounts \<Rightarrow> accounts) \<Rightarrow> hub \<Rightarrow> hub" where
  "on_acc f s = s\<lparr> h_acc := f (h_acc s) \<rparr>"

definition hub_role_exists :: "env \<Rightarrow> string \<Rightarrow> hub \<Rightarrow> hub \<times> bool" where
  "hub_role_exists ev n s = (case role_exists n (ev_now ev) (h_roles s) of (r, b) \<Rightarrow> (s\<lparr> h_roles := r \<rparr>, b))"

definition hub_can_grant :: "env \<Rightarrow> request \<Rightarrow> string \<Rightarrow> hub \<Rightarrow> store_error + (hub \<times> bool)" where
  "hub_can_grant ev rq n s =
     map_sum id (\<lambda>(r, b). (s\<lparr> h_roles := r \<rparr>, b)) (canGrantRole (h_roles s) (rq_perms rq) n (ev_now ev))"

definition issueSession :: "env \<Rightarrow> request \<Rightarrow> nat \<Rightarrow> hub \<Rightarrow> store_error + hub" where
  "issueSession ev rq uid s =
     map_sum id (\<lambda>(db, _). s\<lparr> h_acc := db \<rparr>)
       (session_create (ev_sha ev) (ev_token ev) uid (ev_session_ttl ev) (Some (rq_ip rq)) (rq_agent rq)
          (ev_now ev) (h_acc s))"

lemma on_acc_simps [simp]:
  "h_acc (on_acc f s) = f (h_acc s)" "h_roles (on_acc f s) = h_roles s"
  "h_attempts (on_acc f s) = h_attempts s" "h_audit (on_acc f s) = h_audit s"
  by (simp_all add: on_acc_def)

lemma audit_simps [simp]:
  "h_acc (audit_as ev uid n a d ip s) = h_acc s" "h_roles (audit_as ev uid n a d ip s) = h_roles s"
  "h_attempts (audit_as ev uid n a d ip s) = h_attempts s"
  "h_acc (audit ev rq a d s) = h_acc s" "h_roles (audit ev rq a d s) = h_roles s"
  "h_attempts (audit ev rq a d s) = h_attempts s"
  by (simp_all add: audit_as_def audit_def)

lemma requirePerm_ok:
  "requirePerm rq p s k = r \<Longrightarrow>
     (\<exists>u ps. rq_user rq = Some u \<and> rq_perms rq = Some ps \<and> p \<in> ps \<and> r = k u) \<or>
     (fst r = s \<and> (\<exists>n m. snd r = ApiError n m))"
  by (auto simp: requirePerm_def requireUser_def split: option.splits if_splits)

end
