(* ===== verification/Admin_Routes.thy ===== *)
theory Admin_Routes
  imports Admin_Http
begin

text \<open>
  The handlers under \<open>src/src/routes/admin/api\<close> that manage roles, users, invitations and
  accounts, one definition per handler, in the order of the calls in the source.
\<close>

section \<open>roles\<close>

definition perm_list :: "permission list \<Rightarrow> string" where
  "perm_list ps = (case map perm_name ps of [] \<Rightarrow> [] | x # xs \<Rightarrow> fold (\<lambda>n acc. acc @ '','' @ n) xs x)"

definition roles_GET :: "env \<Rightarrow> request \<Rightarrow> hub \<Rightarrow> hub \<times> reply" where
  "roles_GET ev rq s =
     requirePerm rq RolesManage s (\<lambda>_.
       (case role_list (ev_now ev) (h_roles s) of (r, infos) \<Rightarrow>
          (s\<lparr> h_roles := r \<rparr>,
           ApiJson 200 (RoleList (map (\<lambda>i. (i, countByRole (h_acc s) (ri_name i))) infos)))))"

definition roles_POST :: "env \<Rightarrow> request \<Rightarrow> hub \<Rightarrow> hub \<times> reply" where
  "roles_POST ev rq s =
     requirePerm rq RolesManage s (\<lambda>_. with_body rq s (\<lambda>b.
       let name = js_trim (str_or_empty (jmember ''name'' b)) in
       if \<not> ROLE_NAME_RE name then
         (s, ApiError 422 ''name must start with a letter, then a-z, 0-9, dash, underscore (max 32)'')
       else
         let label = or_default (asString (jmember ''label'' b) 80) name in
         (case parsePermissions (or_default (jmember ''permissions'' b) JNull) of
            None \<Rightarrow> (s, ApiError 422 ''permissions must be an array of known permission names'')
          | Some perms \<Rightarrow>
              (case hub_role_exists ev name s of
                 (s1, True) \<Rightarrow> (s1, ApiError 409 ''a role with that name already exists'')
               | (s1, False) \<Rightarrow>
                   attempt (role_create name label perms (ev_now ev) (h_roles s1)) s1 (\<lambda>(r, info).
                     (audit ev rq ''roles.create'' (Some (''name='' @ name @ '' perms='' @ perm_list perms))
                        (s1\<lparr> h_roles := r \<rparr>),
                      ApiJson 201 (Role (Some info))))))))"

definition role_PATCH :: "env \<Rightarrow> string \<Rightarrow> request \<Rightarrow> hub \<Rightarrow> hub \<times> reply" where
  "role_PATCH ev name rq s =
     requirePerm rq RolesManage s (\<lambda>_.
       (case role_get name (ev_now ev) (h_roles s) of
          (r, None) \<Rightarrow> (s\<lparr> h_roles := r \<rparr>, ApiError 404 ''unknown role'')
        | (r, Some existing) \<Rightarrow>
            (let s1 = s\<lparr> h_roles := r \<rparr> in with_body rq s1 (\<lambda>b.
               let label = (case jmember ''label'' b of None \<Rightarrow> ri_label existing
                            | Some v \<Rightarrow> or_default (asString (Some v) 80) (ri_label existing))
               in case (case jmember ''permissions'' b of None \<Rightarrow> Some (ri_permissions existing)
                        | Some v \<Rightarrow> parsePermissions v) of
                    None \<Rightarrow> (s1, ApiError 422 ''permissions must be an array of known permission names'')
                  | Some perms \<Rightarrow>
                      (case role_update name label perms (ev_now ev) r of
                         (r2, Protected) \<Rightarrow> (s1\<lparr> h_roles := r2 \<rparr>, ApiError 422 ''the admin role cannot be modified'')
                       | (r2, Missing) \<Rightarrow> (s1\<lparr> h_roles := r2 \<rparr>, ApiError 404 ''unknown role'')
                       | (r2, _) \<Rightarrow>
                           (let s2 = audit ev rq ''roles.update''
                                  (Some (''name='' @ name @ '' perms='' @ perm_list perms)) (s1\<lparr> h_roles := r2 \<rparr>)
                            in case role_get name (ev_now ev) (h_roles s2) of
                                 (r3, info) \<Rightarrow> (s2\<lparr> h_roles := r3 \<rparr>, ApiJson 200 (Role info))))))))"

definition role_DELETE :: "env \<Rightarrow> string \<Rightarrow> request \<Rightarrow> hub \<Rightarrow> hub \<times> reply" where
  "role_DELETE ev name rq s =
     requirePerm rq RolesManage s (\<lambda>_.
       (case role_remove (countByRole (h_acc s)) name (ev_now ev) (h_roles s) of
          (r, Missing) \<Rightarrow> (s\<lparr> h_roles := r \<rparr>, ApiError 404 ''unknown role'')
        | (r, Protected) \<Rightarrow> (s\<lparr> h_roles := r \<rparr>, ApiError 422 ''built-in roles cannot be deleted'')
        | (r, InUse) \<Rightarrow> (s\<lparr> h_roles := r \<rparr>, ApiError 409 ''role is still assigned to users. Reassign them first'')
        | (r, Ok) \<Rightarrow>
            (audit ev rq ''roles.delete'' (Some (''name='' @ name)) (s\<lparr> h_roles := r \<rparr>), ApiJson 200 Done)))"

section \<open>users\<close>

definition users_GET :: "request \<Rightarrow> hub \<Rightarrow> hub \<times> reply" where
  "users_GET rq s = requirePerm rq UsersManage s (\<lambda>_. (s, ApiJson 200 (Users (all_users (h_acc s)))))"

definition users_POST :: "env \<Rightarrow> request \<Rightarrow> hub \<Rightarrow> hub \<times> reply" where
  "users_POST ev rq s =
     requirePerm rq UsersManage s (\<lambda>actor. with_body rq s (\<lambda>b.
       let username = js_trim (str_or_empty (jmember ''username'' b));
           displayName = or_default (asString (jmember ''display_name'' b) 80) [];
           password = str_or_empty (jmember ''password'' b)
       in case jmember ''role'' b of
            Some (JStr role) \<Rightarrow>
              (case hub_role_exists ev role s of
                 (s1, False) \<Rightarrow> (s1, ApiError 422 ''unknown role'')
               | (s1, True) \<Rightarrow>
                   attempt (hub_can_grant ev rq role s1) s1 (\<lambda>(s2, granted).
                     if \<not> granted then
                       (s2, ApiError 403 ''you cannot grant a role with permissions you do not hold'')
                     else if \<not> USERNAME_RE username then (s2, ApiError 422 USERNAME_HINT)
                     else (case checkPassword password username (ev_min_length ev) of
                         Some e \<Rightarrow> (s2, ApiError 422 e)
                       | None \<Rightarrow>
                           if rowByName username (h_acc s2) \<noteq> None
                           then (s2, ApiError 409 ''that username is taken'')
                           else attempt (create_user username (ev_hash_password ev password) role
                                  displayName (ev_now ev) (h_acc s2)) s2 (\<lambda>(db, u).
                             (audit ev rq ''users.create''
                                (Some (''username='' @ username @ '' role='' @ role @ '' by='' @ pu_username actor))
                                (s2\<lparr> h_acc := db \<rparr>),
                              ApiJson 201 (User (Some u)))))))
          | _ \<Rightarrow> (s, ApiError 422 ''unknown role'')))"

text \<open>The id is \<open>Number(event.params.id)\<close> where that is an integer.\<close>

definition userOr404 :: "int option \<Rightarrow> accounts \<Rightarrow> public_user option" where
  "userOr404 raw db =
     (case raw of None \<Rightarrow> None | Some i \<Rightarrow> if i \<le> 0 then None else byId (nat i) db)"

definition lastAdmin :: "accounts \<Rightarrow> nat \<Rightarrow> bool" where
  "lastAdmin db excludeId =
     (filter (\<lambda>a. pu_id a \<noteq> excludeId \<and> pu_disabledAt a = None) (admins db) = [])"

text \<open>
  PATCH handles three members in turn; each part either ends the request or passes the state on.
\<close>

definition user_patch_role ::
  "env \<Rightarrow> request \<Rightarrow> public_user \<Rightarrow> public_user \<Rightarrow> json \<Rightarrow> hub \<Rightarrow> (hub \<Rightarrow> hub \<times> reply) \<Rightarrow> hub \<times> reply" where
  "user_patch_role ev rq actor target b s k =
     (case jmember ''role'' b of
        None \<Rightarrow> k s
      | Some (JStr role) \<Rightarrow>
          (case hub_role_exists ev role s of
             (s1, False) \<Rightarrow> (s1, ApiError 422 ''unknown role'')
           | (s1, True) \<Rightarrow>
               attempt (hub_can_grant ev rq role s1) s1 (\<lambda>(s2, granted).
                 if \<not> granted then
                   (s2, ApiError 403 ''you cannot grant a role with permissions you do not hold'')
                 else if pu_id target = pu_id actor \<and> role \<noteq> ''admin'' then
                   (s2, ApiError 422 ''you cannot demote yourself'')
                 else if pu_role target = ''admin'' \<and> role \<noteq> ''admin'' \<and> lastAdmin (h_acc s2) (pu_id target) then
                   (s2, ApiError 422 ''cannot demote the last admin'')
                 else
                   let s3 = on_acc (setRole (pu_id target) role) s2;
                       s4 = (if role \<noteq> ''admin'' then on_acc (revokeUserSessions (pu_id target) None) s3 else s3)
                   in k (audit ev rq ''users.role'' (Some (''user='' @ pu_username target @ '' role='' @ role)) s4)))
      | Some _ \<Rightarrow> (s, ApiError 422 ''unknown role''))"

definition user_patch_name ::
  "env \<Rightarrow> request \<Rightarrow> public_user \<Rightarrow> json \<Rightarrow> hub \<Rightarrow> hub" where
  "user_patch_name ev rq target b s =
     (case jmember ''display_name'' b of
        None \<Rightarrow> s
      | Some v \<Rightarrow>
          audit ev rq ''users.rename'' (Some (''user='' @ pu_username target))
            (on_acc (setDisplayName (pu_id target) (or_default (asString (Some v) 80) [])) s))"

definition user_patch_disabled ::
  "env \<Rightarrow> request \<Rightarrow> public_user \<Rightarrow> public_user \<Rightarrow> json \<Rightarrow> hub \<Rightarrow> (hub \<Rightarrow> hub \<times> reply) \<Rightarrow> hub \<times> reply" where
  "user_patch_disabled ev rq actor target b s k =
     (case jmember ''disabled'' b of
        Some (JBool d) \<Rightarrow>
          if pu_id target = pu_id actor \<and> d then (s, ApiError 422 ''you cannot disable your own account'')
          else if d \<and> pu_role target = ''admin'' \<and> lastAdmin (h_acc s) (pu_id target) then
            (s, ApiError 422 ''cannot disable the last admin'')
          else
            let s1 = on_acc (setDisabled (pu_id target) d (ev_now ev)) s;
                s2 = (if d then on_acc (revokeUserSessions (pu_id target) None) s1 else s1)
            in k (audit ev rq (if d then ''users.disable'' else ''users.enable'')
                    (Some (''user='' @ pu_username target)) s2)
      | _ \<Rightarrow> k s)"

definition user_PATCH :: "env \<Rightarrow> int option \<Rightarrow> request \<Rightarrow> hub \<Rightarrow> hub \<times> reply" where
  "user_PATCH ev raw rq s =
     requirePerm rq UsersManage s (\<lambda>actor.
       (case userOr404 raw (h_acc s) of
          None \<Rightarrow> (s, ApiError 404 ''unknown user'')
        | Some target \<Rightarrow> with_body rq s (\<lambda>b.
            user_patch_role ev rq actor target b s (\<lambda>s1.
              user_patch_disabled ev rq actor target b (user_patch_name ev rq target b s1) (\<lambda>s2.
                (s2, ApiJson 200 (User (byId (pu_id target) (h_acc s2)))))))))"

definition user_DELETE :: "env \<Rightarrow> int option \<Rightarrow> request \<Rightarrow> hub \<Rightarrow> hub \<times> reply" where
  "user_DELETE ev raw rq s =
     requirePerm rq UsersManage s (\<lambda>actor.
       (case userOr404 raw (h_acc s) of
          None \<Rightarrow> (s, ApiError 404 ''unknown user'')
        | Some target \<Rightarrow>
            if pu_id target = pu_id actor then (s, ApiError 422 ''you cannot delete your own account'')
            else if pu_role target = ''admin'' \<and> lastAdmin (h_acc s) (pu_id target) then
              (s, ApiError 422 ''cannot delete the last admin'')
            else
              let s1 = on_acc (revokeUserSessions (pu_id target) None) s;
                  s2 = on_acc (revokeForUser (pu_id target) (ev_now ev)) s1;
                  s3 = on_acc (remove_user (pu_id target)) s2
              in (audit ev rq ''users.delete'' (Some (''user='' @ pu_username target)) s3, ApiJson 200 Done)))"

definition user_reset_POST :: "env \<Rightarrow> int option \<Rightarrow> request \<Rightarrow> hub \<Rightarrow> hub \<times> reply" where
  "user_reset_POST ev raw rq s =
     requirePerm rq UsersManage s (\<lambda>actor.
       (case userOr404 raw (h_acc s) of
          None \<Rightarrow> (s, ApiError 404 ''unknown user'')
        | Some target \<Rightarrow>
            if pu_disabledAt target \<noteq> None then (s, ApiError 422 ''account is disabled'')
            else
              let s1 = on_acc (revokeForUser (pu_id target) (ev_now ev)) s;
                  s2 = on_acc (revokeUserSessions (pu_id target) None) s1
              in attempt (invite_create (ev_sha ev) (ev_token ev) Reset (pu_role target) (Some (pu_id target))
                   (Some (pu_id actor)) (ev_invite_ttl_hours ev * 3600000) (ev_now ev) (h_acc s2)) s2
                   (\<lambda>(db, token, _).
                     (audit ev rq ''users.reset_link'' (Some (''user='' @ pu_username target)) (s2\<lparr> h_acc := db \<rparr>),
                      ApiJson 200 (Link token)))))"

definition user_sessions_GET :: "env \<Rightarrow> int option \<Rightarrow> request \<Rightarrow> hub \<Rightarrow> hub \<times> reply" where
  "user_sessions_GET ev raw rq s =
     requirePerm rq UsersManage s (\<lambda>_.
       (case userOr404 raw (h_acc s) of
          None \<Rightarrow> (s, ApiError 404 ''unknown user'')
        | Some target \<Rightarrow>
            (audit ev rq ''users.sessions.view'' (Some (''user='' @ pu_username target)) s,
             ApiJson 200 (Sessions (map (\<lambda>i. i\<lparr> si_tokenHash := take 16 (si_tokenHash i) \<rparr>)
               (sessions_forUser (pu_id target) (rq_session rq) (h_acc s)))))))"

definition user_sessions_DELETE :: "env \<Rightarrow> int option \<Rightarrow> request \<Rightarrow> hub \<Rightarrow> hub \<times> reply" where
  "user_sessions_DELETE ev raw rq s =
     requirePerm rq UsersManage s (\<lambda>_.
       (case userOr404 raw (h_acc s) of
          None \<Rightarrow> (s, ApiError 404 ''unknown user'')
        | Some target \<Rightarrow>
            (audit ev rq ''users.session.revoke_all'' (Some (''user='' @ pu_username target))
               (on_acc (revokeUserSessions (pu_id target) (rq_session rq)) s),
             ApiJson 200 Done)))"

definition user_session_DELETE :: "env \<Rightarrow> int option \<Rightarrow> string \<Rightarrow> request \<Rightarrow> hub \<Rightarrow> hub \<times> reply" where
  "user_session_DELETE ev raw prefix rq s =
     requirePerm rq UsersManage s (\<lambda>_.
       (case userOr404 raw (h_acc s) of
          None \<Rightarrow> (s, ApiError 404 ''unknown user'')
        | Some target \<Rightarrow>
            if length prefix < 8 then (s, ApiError 422 ''hash prefix too short'')
            else
              (case find (\<lambda>i. starts_with prefix (si_tokenHash i))
                      (sessions_forUser (pu_id target) (rq_session rq) (h_acc s)) of
                 None \<Rightarrow> (s, ApiError 404 ''unknown session'')
               | Some m \<Rightarrow>
                   (audit ev rq ''users.session.revoke''
                      (Some (''user='' @ pu_username target @ (if si_current m then '' current'' else [])))
                      (on_acc (session_revoke (si_tokenHash m)) s),
                    ApiJson 200 Done))))"

end
