(* ===== verification/Admin_Auth.thy ===== *)
theory Admin_Auth
  imports Admin_Http
begin

text \<open>
  The handlers that sign people in: invitations, first-run setup, login with its second factor and
  its external accounts, logout and the account page; \<open>admin/external.ts\<close> and
  \<open>admin/bootstrap.ts\<close> with them.  The LDAP server is a parameter of the login.
\<close>

section \<open>invites\<close>

definition ttl_hours :: "(string \<Rightarrow> int option) \<Rightarrow> env \<Rightarrow> json \<Rightarrow> int" where
  "ttl_hours num ev b =
     (case jmember ''ttl_hours'' b of
        Some (JNum t) \<Rightarrow>
          (case num t of Some h \<Rightarrow> if 1 \<le> h \<and> h \<le> 720 then h else ev_invite_ttl_hours ev
           | None \<Rightarrow> ev_invite_ttl_hours ev)
      | _ \<Rightarrow> ev_invite_ttl_hours ev)"

definition invites_GET :: "request \<Rightarrow> hub \<Rightarrow> hub \<times> reply" where
  "invites_GET rq s =
     requirePerm rq InvitesManage s (\<lambda>_.
       (s, ApiJson 200 (Invites (map (\<lambda>i. i\<lparr> in_tokenHash := take 16 (in_tokenHash i) \<rparr>)
             (invites_recent 100 (h_acc s))))))"

definition invites_POST :: "(string \<Rightarrow> int option) \<Rightarrow> env \<Rightarrow> request \<Rightarrow> hub \<Rightarrow> hub \<times> reply" where
  "invites_POST num ev rq s =
     requirePerm rq InvitesManage s (\<lambda>actor. with_body rq s (\<lambda>b.
       let (s1, known) =
         (case jmember ''role'' b of
            None \<Rightarrow> (s, True)
          | Some (JStr r) \<Rightarrow> hub_role_exists ev r s
          | Some _ \<Rightarrow> (s, False))
       in if \<not> known then (s1, ApiError 422 ''unknown role'')
          else
            let role = (case jmember ''role'' b of Some (JStr r) \<Rightarrow> r | _ \<Rightarrow> ''operator'') in
            attempt (hub_can_grant ev rq role s1) s1 (\<lambda>(s2, granted).
              if \<not> granted then
                (s2, ApiError 403 ''you cannot grant a role with permissions you do not hold'')
              else
                let h = ttl_hours num ev b in
                attempt (invite_create (ev_sha ev) (ev_token ev) Invite role None (Some (pu_id actor))
                    (h * 3600000) (ev_now ev) (h_acc s2)) s2 (\<lambda>(db, token, _).
                  (audit ev rq ''invites.create''
                     (Some (''role='' @ role @ '' ttl='' @ int_text h @ ''h'')) (s2\<lparr> h_acc := db \<rparr>),
                   ApiJson 201 (Link token))))))"

definition kind_text :: "invite_kind \<Rightarrow> string" where
  "kind_text k = (case k of Invite \<Rightarrow> ''invite'' | Reset \<Rightarrow> ''reset'')"

definition invites_DELETE :: "env \<Rightarrow> string \<Rightarrow> request \<Rightarrow> hub \<Rightarrow> hub \<times> reply" where
  "invites_DELETE ev prefix rq s =
     requirePerm rq InvitesManage s (\<lambda>_.
       if length prefix < 8 then (s, ApiError 422 ''hash prefix too short'')
       else
         (case find (\<lambda>i. starts_with prefix (in_tokenHash i)) (invites_recent 500 (h_acc s)) of
            None \<Rightarrow> (s, ApiError 404 ''unknown invite'')
          | Some m \<Rightarrow>
              (audit ev rq ''invites.revoke'' (Some (''kind='' @ kind_text (in_kind m) @ '' role='' @ in_role m))
                 (on_acc (invite_revoke (in_tokenHash m) (ev_now ev)) s),
               ApiJson 200 Done)))"

section \<open>invite/[token]\<close>

definition GONE :: string where
  "GONE = ''this link is invalid, expired, or already used''"

definition invite_GET :: "env \<Rightarrow> string \<Rightarrow> hub \<Rightarrow> hub \<times> reply" where
  "invite_GET ev token s =
     (case invite_lookup (ev_sha ev) token (h_acc s) of
        None \<Rightarrow> (s, ApiJson 200 Invalid)
      | Some iv \<Rightarrow>
          if \<not> isUsable iv (ev_now ev) then (s, ApiJson 200 Invalid)
          else (s, ApiJson 200 (InviteView (in_kind iv) (in_role iv) (in_expiresAt iv)
                 (case in_userId iv of None \<Rightarrow> None | Some u \<Rightarrow> map_option pu_username (byId u (h_acc s))))))"

definition accept_reset :: "env \<Rightarrow> request \<Rightarrow> invite \<Rightarrow> string \<Rightarrow> hub \<Rightarrow> hub \<times> reply" where
  "accept_reset ev rq iv password s =
     (case (case in_userId iv of None \<Rightarrow> None | Some u \<Rightarrow> byId u (h_acc s)) of
        None \<Rightarrow> (s, ApiError 410 ''this link is no longer valid'')
      | Some target \<Rightarrow>
          if pu_disabledAt target \<noteq> None then (s, ApiError 410 ''this link is no longer valid'')
          else
            (case checkPassword password (pu_username target) (ev_min_length ev) of
               Some e \<Rightarrow> (s, ApiError 422 e)
             | None \<Rightarrow>
                 (case tryClaim (in_tokenHash iv) (ev_now ev) (h_acc s) of
                    (db, False) \<Rightarrow> (s\<lparr> h_acc := db \<rparr>, ApiError 410 GONE)
                  | (db, True) \<Rightarrow>
                      let s1 = s\<lparr> h_acc := db \<rparr>;
                          s2 = on_acc (setPassword (pu_id target) (ev_hash_password ev password)) s1;
                          s3 = on_acc (revokeUserSessions (pu_id target) None) s2;
                          s4 = on_acc (revokeForUser (pu_id target) (ev_now ev)) s3
                      in attempt (issueSession ev rq (pu_id target) s4) s4 (\<lambda>s5.
                           (audit_as ev (Some (pu_id target)) (Some (pu_username target))
                              ''auth.password_reset'' None (rq_ip rq) s5, ApiJson 200 Done)))))"

definition accept_invite :: "env \<Rightarrow> request \<Rightarrow> invite \<Rightarrow> json \<Rightarrow> string \<Rightarrow> hub \<Rightarrow> hub \<times> reply" where
  "accept_invite ev rq iv b password s =
     (let username = js_trim (str_or_empty (jmember ''username'' b));
          displayName = take 80 (str_or_empty (jmember ''display_name'' b))
      in if \<not> USERNAME_RE username then (s, ApiError 422 USERNAME_HINT)
         else (case checkPassword password username (ev_min_length ev) of
             Some e \<Rightarrow> (s, ApiError 422 e)
           | None \<Rightarrow>
               if rowByName username (h_acc s) \<noteq> None then (s, ApiError 409 ''that username is taken'')
               else (case hub_role_exists ev (in_role iv) s of
                   (s1, False) \<Rightarrow>
                     (s1, ApiError 422 (''the role '' @ [c_quote] @ in_role iv @ [c_quote] @
                        '' no longer exists. Ask for a new invite''))
                 | (s1, True) \<Rightarrow>
                     (case tryClaim (in_tokenHash iv) (ev_now ev) (h_acc s1) of
                        (db, False) \<Rightarrow> (s1\<lparr> h_acc := db \<rparr>, ApiError 410 GONE)
                      | (db, True) \<Rightarrow>
                          let s2 = s1\<lparr> h_acc := db \<rparr> in
                          (case create_user username (ev_hash_password ev password) (in_role iv) displayName
                                  (ev_now ev) (h_acc s2) of
                             Inl _ \<Rightarrow> (s2, ApiError 409 ''that username is taken'')
                           | Inr (db2, u) \<Rightarrow>
                               let s3 = s2\<lparr> h_acc := db2 \<rparr> in
                               attempt (issueSession ev rq (pu_id u) s3) s3 (\<lambda>s4.
                                 (audit_as ev (Some (pu_id u)) (Some username) ''auth.invite_accept''
                                    (Some (''role='' @ in_role iv)) (rq_ip rq) s4,
                                  ApiJson 200 (User (Some u)))))))))"

definition invite_POST :: "env \<Rightarrow> string \<Rightarrow> request \<Rightarrow> hub \<Rightarrow> hub \<times> reply" where
  "invite_POST ev token rq s =
     (case invite_lookup (ev_sha ev) token (h_acc s) of
        None \<Rightarrow> (s, ApiError 410 GONE)
      | Some iv \<Rightarrow>
          if \<not> isUsable iv (ev_now ev) then (s, ApiError 410 GONE)
          else with_body rq s (\<lambda>b.
            if honeypotTripped b then (s, ApiError 400 ''invalid submission'')
            else
              let password = str_or_empty (jmember ''password'' b) in
              if in_kind iv = Reset then accept_reset ev rq iv password s
              else accept_invite ev rq iv b password s))"

section \<open>setup and bootstrap\<close>

definition setup_GET :: "env \<Rightarrow> hub \<Rightarrow> hub \<times> reply" where
  "setup_GET ev s = (s, ApiJson 200 (Needed (ev_allow_setup ev \<and> user_count (h_acc s) = 0)))"

definition setup_POST :: "env \<Rightarrow> request \<Rightarrow> hub \<Rightarrow> hub \<times> reply" where
  "setup_POST ev rq s =
     (if \<not> ev_allow_setup ev \<or> user_count (h_acc s) > 0
      then (s, ApiError 404 ''setup is no longer available'')
      else with_body rq s (\<lambda>b.
        if honeypotTripped b then (s, ApiError 400 ''invalid submission'')
        else
          let username = js_trim (str_or_empty (jmember ''username'' b));
              password = str_or_empty (jmember ''password'' b);
              displayName = take 80 (str_or_empty (jmember ''display_name'' b))
          in if \<not> USERNAME_RE username then (s, ApiError 422 USERNAME_HINT)
             else (case checkPassword password username (ev_min_length ev) of
                 Some e \<Rightarrow> (s, ApiError 422 e)
               | None \<Rightarrow>
                   attempt (createFirstUser username (ev_hash_password ev password) ''admin'' displayName
                       (ev_now ev) (h_acc s)) s (\<lambda>(db, fu).
                     let s1 = s\<lparr> h_acc := db \<rparr> in
                     case fu of
                       None \<Rightarrow> (s1, ApiError 404 ''setup is no longer available'')
                     | Some u \<Rightarrow>
                         attempt (issueSession ev rq (pu_id u) s1) s1 (\<lambda>s2.
                           (audit_as ev (Some (pu_id u)) (Some username) ''admin.setup'' None (rq_ip rq) s2,
                            ApiJson 200 (User (Some u))))))))"

datatype bootstrap_result = Created | Exists | Unset | Incomplete | InvalidEnv

definition adminEnvDisabled :: "string option \<Rightarrow> bool" where
  "adminEnvDisabled v =
     (case v of None \<Rightarrow> False
      | Some t \<Rightarrow> js_lower (js_trim t) \<in> set [''0'', ''false'', ''no'', ''off''])"

definition bootstrapAdmin ::
  "env \<Rightarrow> string option \<Rightarrow> string option \<Rightarrow> string option \<Rightarrow> nat \<Rightarrow> hub \<Rightarrow> store_error + (hub \<times> bootstrap_result)" where
  "bootstrapAdmin ev envUser envPassword envDisplay minLength s =
     (if user_count (h_acc s) > 0 then Inr (s, Exists)
      else
        let username = js_trim (or_default envUser []); password = or_default envPassword [] in
        if username = [] \<and> password = [] then Inr (s, Unset)
        else if username = [] \<or> password = [] then Inr (s, Incomplete)
        else if \<not> USERNAME_RE username then Inr (s, InvalidEnv)
        else if checkPassword password username minLength \<noteq> None then Inr (s, InvalidEnv)
        else
          (case create_user username (ev_hash_password ev password) ''admin''
                  (take 80 (or_default envDisplay [])) (ev_now ev) (h_acc s) of
             Inl e \<Rightarrow> Inl e
           | Inr (db, u) \<Rightarrow>
               Inr ((s\<lparr> h_acc := db \<rparr>)\<lparr> h_audit := writeEntry (ev_sha ev)
                 \<lparr> le_userId = Some (pu_id u), le_username = Some username, le_action = ''admin.bootstrap'',
                    le_detail = Some ''via WHARFINGER_ADMIN_* env'', le_ip = None \<rparr>
                 (ev_now ev) (ev_audit ev) (h_audit s) \<rparr>, Created)))"

section \<open>External accounts\<close>

record group_role_config =
  gr_admin_group :: string
  gr_operator_group :: string
  gr_default_role :: string

definition roleFromGroups :: "string list \<Rightarrow> group_role_config \<Rightarrow> string option" where
  "roleFromGroups groups cfg =
     (let lower = set (map js_lower groups) in
      if gr_admin_group cfg \<noteq> [] \<and> js_lower (gr_admin_group cfg) \<in> lower then Some ''admin''
      else if gr_operator_group cfg \<noteq> [] \<and> js_lower (gr_operator_group cfg) \<in> lower then Some ''operator''
      else if gr_default_role cfg = ''deny'' then None else Some (gr_default_role cfg))"

definition knownRole :: "env \<Rightarrow> string \<Rightarrow> hub \<Rightarrow> hub \<times> string option" where
  "knownRole ev role s = (case hub_role_exists ev role s of (s1, b) \<Rightarrow> (s1, if b then Some role else None))"

text \<open>The ten renaming attempts of a name that is taken, from attempt \<open>i\<close> on.\<close>

fun free_name :: "nat \<Rightarrow> string \<Rightarrow> string \<Rightarrow> string \<Rightarrow> accounts \<Rightarrow> nat \<Rightarrow> string" where
  "free_name 0 username source uname db i = uname"
| "free_name (Suc n) username source uname db i =
     (if rowByName uname db = None then uname
      else free_name n username source
        (take 48 username @ ''@'' @ source @ (if i = 0 then [] else ''-'' @ nat_digits i)) db (i + 1))"

definition external_role :: "user_row \<Rightarrow> string \<Rightarrow> bool \<Rightarrow> accounts \<Rightarrow> string" where
  "external_role existing role sync db =
     (if sync \<and> u_role existing = ''admin'' \<and> role \<noteq> ''admin'' \<and>
         filter (\<lambda>a. pu_id a \<noteq> u_id existing \<and> pu_disabledAt a = None) (admins db) = []
      then ''admin'' else role)"

definition resolveExternalUser ::
  "(ms \<Rightarrow> string) \<Rightarrow> string \<Rightarrow> string \<Rightarrow> string \<Rightarrow> string \<Rightarrow> string \<Rightarrow> bool \<Rightarrow> ms \<Rightarrow> accounts
     \<Rightarrow> store_error + (accounts \<times> public_user option)" where
  "resolveExternalUser base36 source ext username display role sync now db =
     (case rowByExternal source ext db of
        Some existing \<Rightarrow>
          let db1 = (if sync then syncExternal (u_id existing) display (external_role existing role sync db) db
                     else db)
          in Inr (db1, (case byId (u_id existing) db1 of
                          None \<Rightarrow> None
                        | Some u \<Rightarrow> if pu_disabledAt u = None then Some u else None))
      | None \<Rightarrow>
          let start = (if take 64 username = [] then source @ ''-user'' else take 64 username);
              uname = free_name 10 username source start db 0;
              final = (if rowByName uname db \<noteq> None then source @ ''-'' @ base36 now else uname)
          in map_sum id (\<lambda>(db', u). (db', Some u)) (createExternal final display role source ext now db))"

section \<open>auth/login and auth/logout\<close>

record ldap_identity =
  ld_dn :: string
  ld_username :: string
  ld_displayName :: string
  ld_role :: "string option"

definition GENERIC :: string where
  "GENERIC = ''invalid username or password''"

definition login_fail :: "env \<Rightarrow> request \<Rightarrow> string \<Rightarrow> hub \<Rightarrow> hub \<times> reply" where
  "login_fail ev rq username s =
     (let name = (if username = [] then None else Some username);
          s1 = s\<lparr> h_attempts := attempt_record (rq_ip rq) name False (ev_now ev) (h_attempts s) \<rparr>
      in (audit_as ev None name ''auth.login.fail'' None (rq_ip rq) s1, ApiError 401 GENERIC))"

text \<open>
  The account a login is for: \<open>Inl\<close> is the state at which the request fails.  \<open>ldap\<close> is \<open>None\<close>
  when LDAP is not configured, and otherwise the directory's answer to a name and a password.
\<close>

definition login_account ::
  "(string \<Rightarrow> string \<Rightarrow> ldap_identity option) option \<Rightarrow> (ms \<Rightarrow> string) \<Rightarrow> env \<Rightarrow> request \<Rightarrow>
     string \<Rightarrow> string \<Rightarrow> hub \<Rightarrow> store_error + (hub + (hub \<times> user_row option))" where
  "login_account ldap base36 ev rq username password s =
     (let row = rowByName username (h_acc s);
          external = (case row of None \<Rightarrow> True | Some r \<Rightarrow> u_source r = ''ldap'') in
      if external then
        (case ldap of
           None \<Rightarrow> Inr (Inl s)
         | Some bind \<Rightarrow>
             (case bind username password of
                None \<Rightarrow> Inr (Inl s)
              | Some ident \<Rightarrow>
                  (case ld_role ident of
                     None \<Rightarrow> Inr (Inl s)
                   | Some role \<Rightarrow>
                       if role = [] then Inr (Inl s)
                       else (case knownRole ev role s of
                           (s1, None) \<Rightarrow> Inr (Inl s1)
                         | (s1, Some _) \<Rightarrow>
                             (case resolveExternalUser base36 ''ldap'' (ld_dn ident) (ld_username ident)
                                     (ld_displayName ident) role True (ev_now ev) (h_acc s1) of
                                Inl e \<Rightarrow> Inl e
                              | Inr (db, None) \<Rightarrow>
                                  Inr (Inl (audit_as ev None (Some username) ''auth.login.disabled'' None
                                    (rq_ip rq) (s1\<lparr> h_acc := db \<rparr>)))
                              | Inr (db, Some u) \<Rightarrow> Inr (Inr (s1\<lparr> h_acc := db \<rparr>, rowById (pu_id u) db)))))))
      else
        (case row of
           None \<Rightarrow> Inr (Inl s)
         | Some r \<Rightarrow>
             if u_password_hash r = [] then Inr (Inl s)
             else if \<not> ev_verify_password ev password (u_password_hash r) then Inr (Inl s)
             else Inr (Inr (s, row))))"

text \<open>The second factor: a current code, or else a backup code, which is then used up.\<close>

definition login_second_factor ::
  "env \<Rightarrow> user_row \<Rightarrow> string \<Rightarrow> hub \<Rightarrow> store_error + (hub \<times> bool)" where
  "login_second_factor ev row code s =
     (if (case totpSecret (ev_open_secret ev) row of None \<Rightarrow> False
          | Some sec \<Rightarrow> sec \<noteq> [] \<and> ev_verify_totp ev sec code)
      then Inr (s, True)
      else map_sum id (\<lambda>(db, b). (s\<lparr> h_acc := db \<rparr>, b))
             (consumeBackupCode (u_id row) (ev_sha ev code) (h_acc s)))"

definition login_finish :: "env \<Rightarrow> request \<Rightarrow> string \<Rightarrow> user_row \<Rightarrow> public_user \<Rightarrow> hub \<Rightarrow> hub \<times> reply" where
  "login_finish ev rq username row user s =
     (let s1 = s\<lparr> h_attempts := attempt_record (rq_ip rq) (Some username) True (ev_now ev) (h_attempts s) \<rparr>;
          s2 = on_acc (touchLogin (u_id row) (ev_now ev)) s1
      in attempt (issueSession ev rq (u_id row) s2) s2 (\<lambda>s3.
           (audit_as ev (Some (u_id row)) (Some username) ''auth.login'' None (rq_ip rq) s3,
            ApiJson 200 (User (Some user)))))"

definition login_checked ::
  "env \<Rightarrow> request \<Rightarrow> string \<Rightarrow> string \<Rightarrow> user_row option \<Rightarrow> hub \<Rightarrow> hub \<times> reply" where
  "login_checked ev rq username code found s =
     (case found of
        None \<Rightarrow> login_fail ev rq username s
      | Some row \<Rightarrow>
          (case byId (u_id row) (h_acc s) of
             None \<Rightarrow> login_fail ev rq username s
           | Some user \<Rightarrow>
               if pu_disabledAt user \<noteq> None then
                 login_fail ev rq username
                   (audit_as ev (Some (pu_id user)) (Some username) ''auth.login.disabled'' None (rq_ip rq) s)
               else if pu_totpEnabled user then
                 (if code = [] then (s, ApiJson 200 TotpRequired)
                  else attempt (login_second_factor ev row code s) s (\<lambda>(s1, ok).
                    if ok then login_finish ev rq username row user s1 else login_fail ev rq username s1))
               else login_finish ev rq username row user s))"

definition login_POST ::
  "(string \<Rightarrow> string \<Rightarrow> ldap_identity option) option \<Rightarrow> (ms \<Rightarrow> string) \<Rightarrow> env \<Rightarrow> request \<Rightarrow> hub \<Rightarrow> hub \<times> reply" where
  "login_POST ldap base36 ev rq s = with_body rq s (\<lambda>b.
     let username = take 128 (str_or_empty (jmember ''username'' b));
         password = take 256 (str_or_empty (jmember ''password'' b));
         code = js_trim (str_or_empty (jmember ''totp'' b))
     in if lockedUntil (rq_ip rq) (ev_lockout ev) (ev_now ev) (h_attempts s) \<noteq> None then
          (s, ApiError 429 ''too many failed attempts. Try again later'')
        else if honeypotTripped b then login_fail ev rq username s
        else if username = [] \<or> password = [] then login_fail ev rq username s
        else attempt (login_account ldap base36 ev rq username password s) s (\<lambda>res.
          case res of
            Inl s1 \<Rightarrow> login_fail ev rq username s1
          | Inr (s1, found) \<Rightarrow> login_checked ev rq username code found s1))"

definition login_delay :: "env \<Rightarrow> request \<Rightarrow> hub \<Rightarrow> ms" where
  "login_delay ev rq s =
     (case rq_payload rq of
        Body b \<Rightarrow> (let username = take 128 (str_or_empty (jmember ''username'' b)) in
                   if username = [] then 0 else usernameDelayMs username (ev_lockout ev) (ev_now ev) (h_attempts s))
      | _ \<Rightarrow> 0)"

definition logout_POST :: "env \<Rightarrow> request \<Rightarrow> hub \<Rightarrow> hub \<times> reply" where
  "logout_POST ev rq s =
     (case rq_session rq of
        None \<Rightarrow> (s, ApiJson 200 Done)
      | Some h \<Rightarrow>
          if h = [] then (s, ApiJson 200 Done)
          else (audit ev rq ''auth.logout'' None (on_acc (session_revoke h) s), ApiJson 200 Done))"

section \<open>account\<close>

definition account_GET :: "request \<Rightarrow> hub \<Rightarrow> hub \<times> reply" where
  "account_GET rq s =
     requireUser rq s (\<lambda>u.
       (s, ApiJson 200 (Sessions (map (\<lambda>i. i\<lparr> si_tokenHash := take 16 (si_tokenHash i) \<rparr>)
             (sessions_forUser (pu_id u) (rq_session rq) (h_acc s))))))"

definition account_PATCH :: "env \<Rightarrow> request \<Rightarrow> hub \<Rightarrow> hub \<times> reply" where
  "account_PATCH ev rq s =
     requireUser rq s (\<lambda>u. with_body rq s (\<lambda>b.
       let s1 = (case jmember ''display_name'' b of
                   None \<Rightarrow> s
                 | Some v \<Rightarrow> audit ev rq ''account.rename'' None
                     (on_acc (setDisplayName (pu_id u) (or_default (asString (Some v) 80) [])) s))
       in case jmember ''new_password'' b of
            None \<Rightarrow> (s1, ApiJson 200 (User (byId (pu_id u) (h_acc s1))))
          | Some v \<Rightarrow>
              let current = str_or_empty (jmember ''current_password'' b);
                  nextpw = str_or_empty (Some v)
              in (case rowById (pu_id u) (h_acc s1) of
                    None \<Rightarrow> (audit ev rq ''account.password.fail'' None s1, ApiError 403 ''current password is incorrect'')
                  | Some row \<Rightarrow>
                      if \<not> ev_verify_password ev current (u_password_hash row) then
                        (audit ev rq ''account.password.fail'' None s1, ApiError 403 ''current password is incorrect'')
                      else (case checkPassword nextpw (pu_username u) (ev_min_length ev) of
                          Some e \<Rightarrow> (s1, ApiError 422 e)
                        | None \<Rightarrow>
                            let s2 = on_acc (setPassword (pu_id u) (ev_hash_password ev nextpw)) s1;
                                s3 = audit ev rq ''account.password'' None
                                       (on_acc (revokeUserSessions (pu_id u) (rq_session rq)) s2)
                            in (s3, ApiJson 200 (User (byId (pu_id u) (h_acc s3))))))))"

text \<open>
  \<open>backupCodes\<close> draws the codes at random; they are an argument.  The fresh secret of \<open>begin\<close> is
  returned without touching the state.
\<close>

definition account_totp_POST :: "string \<Rightarrow> string list \<Rightarrow> env \<Rightarrow> request \<Rightarrow> hub \<Rightarrow> hub \<times> reply" where
  "account_totp_POST fresh codes ev rq s =
     requireUser rq s (\<lambda>u. with_body rq s (\<lambda>b.
       let action = jmember ''action'' b in
       if action = Some (JStr ''begin'') then (s, ApiJson 200 (Link fresh))
       else if action = Some (JStr ''confirm'') then
         (let secret = str_or_empty (jmember ''secret'' b); code = js_trim (str_or_empty (jmember ''code'' b)) in
          if secret = [] \<or> \<not> ev_verify_totp ev secret code then
            (s, ApiError 422 ''that code did not match. Check your authenticator clock'')
          else
            let s1 = on_acc (setTotp (pu_id u) (Some (ev_seal_secret ev secret))
                       (Some (map (ev_sha ev) codes))) s;
                s2 = on_acc (revokeUserSessions (pu_id u) (rq_session rq)) s1
            in (audit ev rq ''account.totp.enable'' None s2, ApiJson 200 (Codes codes)))
       else if action = Some (JStr ''disable'') then
         (case rowById (pu_id u) (h_acc s) of
            None \<Rightarrow> (s, ApiError 403 ''password is incorrect'')
          | Some row \<Rightarrow>
              if \<not> ev_verify_password ev (str_or_empty (jmember ''password'' b)) (u_password_hash row) then
                (s, ApiError 403 ''password is incorrect'')
              else (audit ev rq ''account.totp.disable'' None (on_acc (setTotp (pu_id u) None None) s),
                    ApiJson 200 Done))
       else (s, ApiError 422 ''unknown action'')))"

definition account_sessions_DELETE :: "env \<Rightarrow> request \<Rightarrow> hub \<Rightarrow> hub \<times> reply" where
  "account_sessions_DELETE ev rq s =
     requireUser rq s (\<lambda>u.
       (audit ev rq ''account.session.revoke_all'' None
          (on_acc (revokeUserSessions (pu_id u) (rq_session rq)) s), ApiJson 200 Done))"

definition account_session_DELETE :: "env \<Rightarrow> string \<Rightarrow> request \<Rightarrow> hub \<Rightarrow> hub \<times> reply" where
  "account_session_DELETE ev prefix rq s =
     requireUser rq s (\<lambda>u.
       (case find (\<lambda>i. starts_with prefix (si_tokenHash i)) (sessions_forUser (pu_id u) None (h_acc s)) of
          None \<Rightarrow> (s, ApiError 404 ''unknown session'')
        | Some m \<Rightarrow>
            (audit ev rq ''account.session.revoke'' (if si_current m then Some ''current'' else None)
               (on_acc (session_revoke (si_tokenHash m)) s), ApiJson 200 Done)))"

end
