(* ===== verification/Role_Props.thy ===== *)
theory Role_Props
  imports Roles
begin

text \<open>
  Correctness of the role store and of the permission checks.  \<open>table_grants\<close> is the abstract
  policy, the finite map from role names to permission sets that the \<open>roles\<close> table stands for;
  \<open>role_inv\<close> ties the cache and the seeding flag to it, and every operation that runs alone
  refines an operation on that map.  The interleavings of \<open>permsFor\<close> are stated on its two halves.
\<close>

section \<open>Stored permission lists\<close>

lemma ALL_PERMISSIONS_UNIV: "set ALL_PERMISSIONS = UNIV"
proof -
  have "p \<in> set ALL_PERMISSIONS" for p by (cases p) (simp_all add: ALL_PERMISSIONS_def)
  then show ?thesis by blast
qed

lemma perm_of_name [simp]: "perm_of (JStr (perm_name p)) = Some p"
  by (cases p) (simp_all add: perm_of_def ALL_PERMISSIONS_def)

lemma perm_of_SomeD: "perm_of v = Some p \<Longrightarrow> v = JStr (perm_name p)"
  by (auto simp: perm_of_def find_Some_iff split: json.splits)

lemma map_filter_perm_of: "List.map_filter perm_of (map (JStr \<circ> perm_name) ps) = ps"
  by (induction ps) (simp_all add: List.map_filter_simps)

lemma parsePerms_perms_json [simp]: "parsePerms (perms_json ps) = ps"
  unfolding parsePerms_def perms_json_def
  by (simp add: json_roundtrip) (simp add: json_strings_def map_filter_perm_of)

lemma perms_json_inject: "perms_json ps = perms_json qs \<longleftrightarrow> ps = qs"
  by (metis parsePerms_perms_json)

lemma parsePermissions_SomeD:
  "parsePermissions v = Some ps \<Longrightarrow>
     \<exists>vs. v = JArr vs \<and> vs = map (JStr \<circ> perm_name) (List.map_filter perm_of vs) \<and>
          distinct ps \<and> set ps = set (List.map_filter perm_of vs)"
proof -
  assume "parsePermissions v = Some ps"
  then obtain vs where vs: "v = JArr vs" "list_all isPermission vs"
    and ps: "ps = rev (remdups (rev (List.map_filter perm_of vs)))"
    by (auto simp: parsePermissions_def split: json.splits if_splits)
  have "vs = map (JStr \<circ> perm_name) (List.map_filter perm_of vs)"
    using vs(2)
    by (induction vs) (auto simp: List.map_filter_simps isPermission_def dest: perm_of_SomeD)
  with vs ps show ?thesis by auto
qed

section \<open>The policy of a table\<close>

definition table_grants :: "role_row list \<Rightarrow> string \<Rightarrow> permission set option" where
  "table_grants t name =
     map_option (\<lambda>r. set (parsePerms (ro_permissions r))) (first_where (\<lambda>r. ro_name r = name) t)"

definition granted :: "role_row list \<Rightarrow> string \<Rightarrow> permission set" where
  "granted t name = (if name = ''admin'' then UNIV else or_default (table_grants t name) {})"

lemma table_grants_Nil [simp]: "table_grants [] name = None"
  by (simp add: table_grants_def)

lemma table_grants_Cons:
  "table_grants (r # t) name =
     (if ro_name r = name then Some (set (parsePerms (ro_permissions r))) else table_grants t name)"
  by (simp add: table_grants_def first_where_Cons)

lemma table_grants_None: "table_grants t name = None \<longleftrightarrow> name \<notin> ro_name ` set t"
  by (auto simp: table_grants_def first_where_None)

lemma table_grants_append:
  "table_grants (t @ u) name = (case table_grants t name of None \<Rightarrow> table_grants u name | Some p \<Rightarrow> Some p)"
  by (induction t) (simp_all add: table_grants_Cons)

lemma table_grants_upd:
  assumes "\<And>r. ro_name (f r) = ro_name r"
    and "\<And>r. ro_name r = n \<Longrightarrow> parsePerms (ro_permissions (f r)) = ps"
  shows "table_grants (upd_where (\<lambda>r. ro_name r = n) f t) name =
     (if name = n \<and> name \<in> ro_name ` set t then Some (set ps) else table_grants t name)"
  using assms by (induction t) (auto simp: table_grants_Cons upd_where_Cons)

lemma table_grants_del:
  "table_grants (del_where (\<lambda>r. ro_name r = n) t) name = (if name = n then None else table_grants t name)"
  by (induction t) (auto simp: table_grants_Cons del_where_def)

lemma grantedI:
  "n \<noteq> ''admin'' \<Longrightarrow> (\<And>m. table_grants t' m = (if m = n then g else table_grants t m)) \<Longrightarrow>
     granted t' = (granted t)(n := or_default g {})"
  by (rule ext) (simp add: granted_def)

lemma cache_fill_Cons:
  "cache_fill (r # t) m = cache_fill t (m(ro_name r := Some (set (parsePerms (ro_permissions r)))))"
  by (simp add: cache_fill_def)

lemma cache_fill_eq:
  assumes "unique_on ro_name t"
  shows "cache_fill t m name = (case table_grants t name of None \<Rightarrow> m name | Some p \<Rightarrow> Some p)"
  using assms
proof (induction t arbitrary: m)
  case (Cons r t)
  then have u: "unique_on ro_name t" and n: "table_grants t (ro_name r) = None"
    by (auto simp: unique_on_def table_grants_None)
  show ?case
    by (cases "ro_name r = name") (auto simp: cache_fill_Cons Cons.IH [OF u] table_grants_Cons n split: option.split)
qed (simp add: cache_fill_def)

section \<open>Invariant\<close>

definition builtin_name :: "string \<Rightarrow> bool" where
  "builtin_name n = (n \<in> fst ` set BUILTINS)"

definition builtins_present :: "role_row list \<Rightarrow> bool" where
  "builtins_present t = (\<forall>n. builtin_name n \<longrightarrow> n \<in> ro_name ` set t)"

definition builtins_marked :: "role_row list \<Rightarrow> bool" where
  "builtins_marked t = (\<forall>r \<in> set t. builtin_name (ro_name r) \<longrightarrow> ro_builtin r)"

definition role_inv :: "role_store \<Rightarrow> bool" where
  "role_inv s =
     (unique_on ro_name (ro_rows s) \<and> builtins_marked (ro_rows s) \<and>
      (ro_seeded s \<longrightarrow> builtins_present (ro_rows s)) \<and>
      (\<not> ro_seeded s \<longrightarrow> ro_cache s = None) \<and>
      (\<forall>m. ro_cache s = Some m \<longrightarrow> m = table_grants (ro_rows s)))"

text \<open>Updates that leave name and mark of every row alone keep the three table conditions.\<close>

lemma upd_names:
  assumes "\<And>r. ro_name (f r) = ro_name r"
  shows "ro_name ` set (upd_where P f t) = ro_name ` set t"
  using map_upd_where [of P ro_name f t] assms by (metis list.set_map)

lemma upd_table_ok:
  assumes f: "\<And>r. ro_name (f r) = ro_name r" "\<And>r. ro_builtin (f r) = ro_builtin r"
  shows "unique_on ro_name t \<Longrightarrow> unique_on ro_name (upd_where P f t)"
    and "builtins_marked t \<Longrightarrow> builtins_marked (upd_where P f t)"
    and "builtins_present t \<Longrightarrow> builtins_present (upd_where P f t)"
proof -
  show "unique_on ro_name t \<Longrightarrow> unique_on ro_name (upd_where P f t)"
    by (rule unique_on_upd_where) (simp_all add: f)
  show "builtins_present t \<Longrightarrow> builtins_present (upd_where P f t)"
    using upd_names [of f P t] f by (simp add: builtins_present_def)
  show "builtins_marked t \<Longrightarrow> builtins_marked (upd_where P f t)"
    by (auto simp: builtins_marked_def f dest!: set_upd_whereD split: if_splits)
qed

definition seed_insert :: "ms \<Rightarrow> (string \<times> string \<times> permission list) \<Rightarrow> role_row list \<Rightarrow> role_row list" where
  "seed_insert now b t =
     (if \<exists>r \<in> set t. ro_name r = fst b then t
      else t @ [\<lparr> ro_name = fst b, ro_label = fst (snd b), ro_permissions = perms_json (snd (snd b)),
                  ro_builtin = True, ro_created_at = now \<rparr>])"

lemma seed_insert_ok:
  shows "unique_on ro_name t \<Longrightarrow> unique_on ro_name (seed_insert now b t)"
    and "builtins_marked t \<Longrightarrow> builtins_marked (seed_insert now b t)"
    and "ro_name ` set (seed_insert now b t) = insert (fst b) (ro_name ` set t)"
  by (auto simp: seed_insert_def unique_on_snoc builtins_marked_def intro: rev_image_eqI)

lemma seed_builtin_alt:
  "seed_builtin now b t =
     (case LEGACY_BUILTIN_PERMS (fst b) of
        None \<Rightarrow> seed_insert now b t
      | Some legacy \<Rightarrow> upd_where (\<lambda>r. ro_name r = fst b \<and> ro_builtin r \<and> ro_permissions r = legacy)
           (\<lambda>r. r\<lparr> ro_permissions := perms_json (snd (snd b)) \<rparr>) (seed_insert now b t))"
  unfolding seed_builtin_def seed_insert_def by (cases b) (simp only: Let_def prod.case fst_conv snd_conv)

lemma seed_builtin_ok:
  shows "unique_on ro_name t \<Longrightarrow> unique_on ro_name (seed_builtin now b t)"
    and "builtins_marked t \<Longrightarrow> builtins_marked (seed_builtin now b t)"
    and "ro_name ` set (seed_builtin now b t) = insert (fst b) (ro_name ` set t)"
  by (simp_all add: seed_builtin_alt seed_insert_ok upd_table_ok upd_names split: option.split)

lemma seed_unfold:
  "seed now t = seed_builtin now (BUILTINS ! 2) (seed_builtin now (BUILTINS ! 1) (seed_builtin now (BUILTINS ! 0) t))"
  unfolding seed_def BUILTINS_def by simp

lemma seed_ok:
  shows "unique_on ro_name t \<Longrightarrow> unique_on ro_name (seed now t)"
    and "builtins_marked t \<Longrightarrow> builtins_marked (seed now t)"
    and "builtins_present (seed now t)"
proof -
  have "fst ` set BUILTINS = {fst (BUILTINS ! 0), fst (BUILTINS ! 1), fst (BUILTINS ! 2)}"
    unfolding BUILTINS_def by simp
  then show "builtins_present (seed now t)"
    unfolding builtins_present_def builtin_name_def seed_unfold
    by (simp add: seed_builtin_ok)
qed (simp_all add: seed_unfold seed_builtin_ok)

lemma ensureSeeded_inv [simp]: "role_inv s \<Longrightarrow> role_inv (ensureSeeded now s)"
  by (simp add: role_inv_def ensureSeeded_def seed_ok)

lemma ensureSeeded_seeded [simp]: "ro_seeded (ensureSeeded now s)"
  by (simp add: ensureSeeded_def)

lemma ensureSeeded_id: "ro_seeded s \<Longrightarrow> ensureSeeded now s = s"
  by (simp add: ensureSeeded_def)

lemma ensureSeeded_idem [simp]: "ensureSeeded now' (ensureSeeded now s) = ensureSeeded now s"
  by (rule ensureSeeded_id) simp

lemmas role_ops = role_get_def role_exists_def role_update_def role_remove_def role_create_def Let_def

section \<open>Refinement of the policy\<close>

lemma permsFor_refines:
  assumes "role_inv s"
  shows "\<exists>s'. permsFor name now s = Inr (s', granted (ro_rows (ensureSeeded now s)) name) \<and> role_inv s' \<and>
           (name \<noteq> ''admin'' \<longrightarrow> ro_rows s' = ro_rows (ensureSeeded now s) \<and> ro_seeded s')"
proof (cases "name = ''admin''")
  case True
  with assms show ?thesis
    by (simp add: permsFor_def permsFor_begin_def granted_def ALL_PERMISSIONS_UNIV)
next
  case False
  define s1 where "s1 = ensureSeeded now s"
  have i1: "role_inv s1" using assms by (simp add: s1_def)
  have sd: "ro_seeded s1" by (simp add: s1_def)
  show ?thesis
  proof (cases "ro_cache s1")
    case (Some m)
    then have "m = table_grants (ro_rows s1)" using i1 by (simp add: role_inv_def)
    with Some False i1 sd show ?thesis
      by (simp add: permsFor_def permsFor_begin_def granted_def Let_def s1_def [symmetric])
  next
    case None
    have "cache_fill (ro_rows s1) (\<lambda>_. None) = table_grants (ro_rows s1)"
      using i1 by (auto simp: role_inv_def cache_fill_eq fun_eq_iff split: option.splits)
    with None False i1 sd show ?thesis
      by (simp add: permsFor_def permsFor_begin_def permsFor_fill_def granted_def Let_def
          role_inv_def s1_def [symmetric])
  qed
qed

lemma role_create_inv:
  assumes "role_inv s" "role_create name label ps now s = Inr (s', info)"
  shows "role_inv s' \<and> (\<forall>n. table_grants (ro_rows s') n =
           (if n = name then Some (set ps) else table_grants (ro_rows (ensureSeeded now s)) n)) \<and>
         ro_seeded s'"
proof -
  define s1 where "s1 = ensureSeeded now s"
  have s1: "role_inv s1" "ro_seeded s1" using assms(1) by (simp_all add: s1_def)
  have new: "name \<notin> ro_name ` set (ro_rows s1)"
    and s': "s' = s1\<lparr> ro_rows := ro_rows s1 @ [\<lparr> ro_name = name, ro_label = label,
               ro_permissions = perms_json ps, ro_builtin = False, ro_created_at = now \<rparr>], ro_cache := None \<rparr>"
    using assms(2) s1(2)
    by (auto simp: role_create_def role_get_def Let_def ensureSeeded_id s1_def [symmetric]
        split: if_splits option.splits)
  have "table_grants (ro_rows s1) name = None" using new by (simp add: table_grants_None)
  moreover have "\<not> builtin_name name"
    using new s1 by (auto simp: role_inv_def builtins_present_def)
  ultimately show ?thesis using s1 new s'
    by (auto simp: role_inv_def unique_on_snoc builtins_present_def builtins_marked_def
        table_grants_append table_grants_Cons s1_def [symmetric] split: option.splits)
qed

lemma role_update_inv:
  assumes "role_inv s" "role_update name label ps now s = (s', r)"
  shows "role_inv s' \<and>
    (r = Ok \<longrightarrow> name \<noteq> ''admin'' \<and> ro_seeded s' \<and> (\<forall>n. table_grants (ro_rows s') n =
           (if n = name then Some (set ps) else table_grants (ro_rows (ensureSeeded now s)) n))) \<and>
    (r \<noteq> Ok \<longrightarrow> s' = s \<or> s' = ensureSeeded now s)"
proof -
  define s1 where "s1 = ensureSeeded now s"
  let ?f = "\<lambda>r. r\<lparr> ro_label := label, ro_permissions := perms_json ps \<rparr>"
  let ?t = "upd_where (\<lambda>r. ro_name r = name) ?f (ro_rows s1)"
  have s1: "role_inv s1" "ro_seeded s1" using assms(1) by (simp_all add: s1_def)
  show ?thesis
  proof (cases "name \<noteq> ''admin'' \<and> (\<exists>r \<in> set (ro_rows s1). ro_name r = name)")
    case True
    then have s': "s' = s1\<lparr> ro_rows := ?t, ro_cache := None \<rparr>" and r: "r = Ok"
      using assms(2) by (auto simp: role_update_def role_exists_def Let_def s1_def)
    have "role_inv s'" using s1 by (simp add: s' role_inv_def upd_table_ok)
    moreover have "table_grants ?t n = (if n = name then Some (set ps) else table_grants (ro_rows s1) n)" for n
      using True by (subst table_grants_upd) auto
    ultimately show ?thesis using True r s1(2) by (simp add: s' s1_def [symmetric])
  next
    case False
    then have "s' \<in> {s, s1} \<and> r \<noteq> Ok"
      using assms(2) by (auto simp: role_update_def role_exists_def Let_def s1_def split: if_splits)
    with s1(1) assms(1) show ?thesis by (auto simp: s1_def)
  qed
qed

lemma role_remove_cases:
  assumes "role_remove count name now s = (s', r)"
  obtains "s' = s" "r = Protected"
  | "s' = ensureSeeded now s" "r \<noteq> Ok"
  | info where "name \<noteq> ''admin''" "count name = 0" "r = Ok"
      "first_where (\<lambda>r. ro_name r = name) (ro_rows (ensureSeeded now s)) = Some info" "\<not> ro_builtin info"
      "s' = (ensureSeeded now s)\<lparr> ro_rows := del_where (\<lambda>r. ro_name r = name)
              (ro_rows (ensureSeeded now s)), ro_cache := None \<rparr>"
  using assms
  by (auto simp: role_remove_def role_get_def toInfo_def Let_def split: if_splits option.splits)

lemma role_remove_inv:
  assumes "role_inv s" "role_remove count name now s = (s', r)"
  shows "role_inv s' \<and>
    (r = Ok \<longrightarrow> name \<noteq> ''admin'' \<and> count name = 0 \<and> ro_seeded s' \<and> (\<forall>n. table_grants (ro_rows s') n =
           (if n = name then None else table_grants (ro_rows (ensureSeeded now s)) n))) \<and>
    (r \<noteq> Ok \<longrightarrow> s' = s \<or> s' = ensureSeeded now s)"
  using assms(2)
proof (cases rule: role_remove_cases)
  case (3 info)
  define s1 where "s1 = ensureSeeded now s"
  have s1: "role_inv s1" "ro_seeded s1" using assms(1) by (simp_all add: s1_def)
  have "info \<in> set (ro_rows s1)" "ro_name info = name"
    using 3(4) by (auto dest: first_where_SomeD simp: s1_def)
  with 3(5) s1(1) have nb: "\<not> builtin_name name" by (auto simp: role_inv_def builtins_marked_def)
  have "role_inv s'" using s1 nb
    by (auto simp: 3(6) s1_def [symmetric] role_inv_def unique_on_del_where builtins_marked_def
        builtins_present_def image_iff)
  with 3 s1(2) show ?thesis by (simp add: table_grants_del s1_def)
qed (use assms(1) in auto)


section \<open>The interface to the user table\<close>

text \<open>
  \<open>RoleStore\<close> is handed \<open>Pick<UserStore, 'countByRole'>\<close>.  The law it relies on: the count of a
  role is zero exactly if nobody holds it.
\<close>

locale role_usage =
  fixes count :: "'u \<Rightarrow> string \<Rightarrow> nat"
    and holds :: "'u \<Rightarrow> string \<Rightarrow> bool"
  assumes count_zero: "count u n = 0 \<longleftrightarrow> \<not> holds u n"
begin

lemma remove_unused:
  assumes "role_remove (count u) n now s = (s', Ok)"
  shows "\<not> holds u n"
  using assms by (cases rule: role_remove_cases) (auto simp: count_zero)

lemma remove_keeps_held:
  assumes held: "\<And>m. holds u m \<Longrightarrow> m \<in> ro_name ` set (ro_rows (ensureSeeded now s))"
    and rm: "role_remove (count u) n now s = (s', r)" and s: "s = ensureSeeded now s"
    and h: "holds u m"
  shows "m \<in> ro_name ` set (ro_rows s')"
  using rm
proof (cases rule: role_remove_cases)
  case (3 info)
  then have "m \<noteq> n" using h count_zero by auto
  with held [OF h] 3(6) show ?thesis by auto
qed (use held [OF h] s in auto)

lemma remove_in_use:
  assumes "holds u n" "n \<noteq> ''admin''"
    and "first_where (\<lambda>r. ro_name r = n) (ro_rows (ensureSeeded now s)) = Some row" "\<not> ro_builtin row"
  shows "role_remove (count u) n now s = (ensureSeeded now s, InUse)"
  using assms count_zero [of u n]
  by (simp add: role_remove_def role_get_def toInfo_def)

end

interpretation ru: role_usage countByRole "\<lambda>db n. \<exists>x \<in> set (users db). u_role x = n"
  by unfold_locales (simp add: countByRole_def)

section \<open>Properties\<close>

text \<open>
  C16. The role store refines a map from role names to permission sets.  A lookup on its own
  answers the permissions of the stored row (everything for admin, nothing for an unknown role)
  whatever the cache holds, and create, update and remove that succeed change the map at exactly
  one name, so a revocation is visible to the next lookup.
\<close>

theorem role_store_refines:
  assumes "role_inv s"
  shows "(\<exists>s'. permsFor n now s = Inr (s', granted (ro_rows (ensureSeeded now s)) n) \<and> role_inv s') \<and>
    (\<forall>l ps s' i. role_create n l ps now s = Inr (s', i) \<longrightarrow> role_inv s' \<and>
       granted (ro_rows s') = (granted (ro_rows (ensureSeeded now s)))(n := set ps)) \<and>
    (\<forall>l ps s'. role_update n l ps now s = (s', Ok) \<longrightarrow> role_inv s' \<and>
       granted (ro_rows s') = (granted (ro_rows (ensureSeeded now s)))(n := set ps)) \<and>
    (\<forall>c s'. role_remove c n now s = (s', Ok) \<longrightarrow> role_inv s' \<and>
       granted (ro_rows s') = (granted (ro_rows (ensureSeeded now s)))(n := {}))"
proof (intro conjI allI impI)
  show "\<exists>s'. permsFor n now s = Inr (s', granted (ro_rows (ensureSeeded now s)) n) \<and> role_inv s'"
    using permsFor_refines [OF assms] by blast
next
  fix l ps s' i assume c: "role_create n l ps now s = Inr (s', i)"
  have "builtins_present (ro_rows (ensureSeeded now s))"
    using ensureSeeded_inv [OF assms] by (simp add: role_inv_def)
  then have "''admin'' \<in> ro_name ` set (ro_rows (ensureSeeded now s))"
    by (simp add: builtins_present_def builtin_name_def BUILTINS_def)
  with c have "n \<noteq> ''admin''" by (auto simp: role_create_def Let_def split: if_splits)
  with role_create_inv [OF assms c] show "role_inv s'"
    "granted (ro_rows s') = (granted (ro_rows (ensureSeeded now s)))(n := set ps)"
    using grantedI [of n "ro_rows s'" "Some (set ps)"] by simp_all
next
  fix l ps s' assume c: "role_update n l ps now s = (s', Ok)"
  from role_update_inv [OF assms c] show "role_inv s'"
    "granted (ro_rows s') = (granted (ro_rows (ensureSeeded now s)))(n := set ps)"
    using grantedI [of n "ro_rows s'" "Some (set ps)"] by simp_all
next
  fix c s' assume c: "role_remove c n now s = (s', Ok)"
  from role_remove_inv [OF assms c] show "role_inv s'"
    "granted (ro_rows s') = (granted (ro_rows (ensureSeeded now s)))(n := {})"
    using grantedI [of n "ro_rows s'" None] by simp_all
qed

definition empty_roles :: role_store where
  "empty_roles = \<lparr> ro_rows = [], ro_cache = None, ro_seeded = False \<rparr>"

lemma empty_roles_inv: "role_inv empty_roles"
  by (simp add: role_inv_def empty_roles_def builtins_marked_def)

lemma role_store_refines_witness:
  "role_inv empty_roles \<and>
   (\<exists>s'. permsFor ''viewer'' 7 empty_roles
      = Inr (s', granted (ro_rows (ensureSeeded 7 empty_roles)) ''viewer'') \<and> role_inv s')"
  using role_store_refines [OF empty_roles_inv, of "''viewer''" 7] empty_roles_inv by blast

text \<open>
  No user is left with a role that does not exist: a successful removal means nobody held the
  role, and if every user's role was in the table before, it is afterwards.
\<close>

theorem role_remove_keeps_users:
  assumes "role_inv s" "ro_seeded s" "\<forall>u \<in> set (users db). u_role u \<in> ro_name ` set (ro_rows s)"
    and "role_remove (countByRole db) n now s = (s', r)"
  shows "(\<forall>u \<in> set (users db). u_role u \<in> ro_name ` set (ro_rows s')) \<and>
    (r = Ok \<longrightarrow> (\<forall>u \<in> set (users db). u_role u \<noteq> n))"
proof -
  have s: "ensureSeeded now s = s" using assms(2) by (rule ensureSeeded_id)
  have "u_role u \<in> ro_name ` set (ro_rows s')" if "u \<in> set (users db)" for u
    by (rule ru.remove_keeps_held [OF _ assms(4)]) (use s assms(3) that in auto)
  with assms(4) ru.remove_unused [of db n now s s'] show ?thesis by auto
qed

definition demo_role :: "string \<Rightarrow> bool \<Rightarrow> role_row" where
  "demo_role n b = \<lparr> ro_name = n, ro_label = n, ro_permissions = perms_json [StatusView],
     ro_builtin = b, ro_created_at = 0 \<rparr>"

definition demo_roles :: role_store where
  "demo_roles = \<lparr> ro_rows = [demo_role ''admin'' True, demo_role ''operator'' True,
     demo_role ''viewer'' True, demo_role ''dev'' False], ro_cache = None, ro_seeded = True \<rparr>"

lemma demo_roles_inv: "role_inv demo_roles"
  by (simp add: role_inv_def demo_roles_def demo_role_def unique_on_def builtins_marked_def
      builtins_present_def builtin_name_def BUILTINS_def)

lemma role_remove_keeps_users_witness:
  "\<exists>s'. role_remove (countByRole no_accounts) ''dev'' 9 demo_roles = (s', Ok) \<and>
     (\<exists>t. t = (\<forall>u \<in> set (users no_accounts). u_role u \<noteq> ''dev'') \<and> t)"
proof -
  have "\<exists>s'. role_remove (countByRole no_accounts) ''dev'' 9 demo_roles = (s', Ok)"
    by (simp add: role_remove_def role_get_def ensureSeeded_id demo_roles_def demo_role_def
        first_where_def countByRole_def no_accounts_def toInfo_def)
  then obtain s' where s': "role_remove (countByRole no_accounts) ''dev'' 9 demo_roles = (s', Ok)" ..
  from role_remove_keeps_users [OF demo_roles_inv _ _ s'] s' show ?thesis
    by (auto simp: demo_roles_def no_accounts_def)
qed

lemma can_grant_cases:
  assumes "role_inv s" "canGrantRole s actor n now = Inr (s', b)"
  shows "s' = s \<or> s' = ensureSeeded now s \<or>
     (\<exists>ps. permsFor n now (ensureSeeded now s) = Inr (s', ps))"
  using assms(2)
  by (cases "permsFor n now (ensureSeeded now s)")
    (auto simp: canGrantRole_def role_exists_def Let_def split: option.splits bool.splits)

lemma can_grant_true_rows:
  assumes "role_inv s" "canGrantRole s actor n now = Inr (s', True)"
  shows "ro_rows s' = ro_rows (ensureSeeded now s)"
proof -
  obtain ps where "permsFor n now (ensureSeeded now s) = Inr (s', ps)"
    using assms(2) by (cases "permsFor n now (ensureSeeded now s)")
      (auto simp: canGrantRole_def role_exists_def Let_def split: option.splits bool.splits)
  with permsFor_refines [OF ensureSeeded_inv [OF assms(1)], of n now now] show ?thesis
    by (cases "n = ''admin''") (auto simp: permsFor_def permsFor_begin_def)
qed

lemma can_grant_rows:
  assumes "role_inv s" "canGrantRole s actor n now = Inr (s', b)"
  shows "role_inv s' \<and> (ro_rows s' = ro_rows s \<or> ro_rows s' = ro_rows (ensureSeeded now s))"
  using can_grant_cases [OF assms] permsFor_refines [OF ensureSeeded_inv [OF assms(1)], of n now now] assms(1)
  by (cases "n = ''admin''") (auto simp: permsFor_def permsFor_begin_def)

lemma can_grant_spec:
  assumes "role_inv s"
  shows "\<exists>s'. canGrantRole s actor n now = Inr (s', (case actor of None \<Rightarrow> False | Some ps \<Rightarrow>
     n \<in> ro_name ` set (ro_rows (ensureSeeded now s)) \<and>
     granted (ro_rows (ensureSeeded now s)) n \<subseteq> ps)) \<and> role_inv s'"
proof (cases actor)
  case None
  with assms show ?thesis by (simp add: canGrantRole_def)
next
  case (Some ps)
  define s1 where "s1 = ensureSeeded now s"
  have i1: "role_inv s1" and e: "ensureSeeded now s1 = s1" using assms by (simp_all add: s1_def)
  obtain s2 where "permsFor n now s1 = Inr (s2, granted (ro_rows s1) n)" "role_inv s2"
    using permsFor_refines [OF i1, of n now] e by auto
  with Some i1 show ?thesis
    by (cases "\<exists>r \<in> set (ro_rows s1). ro_name r = n")
      (auto simp: canGrantRole_def role_exists_def Let_def s1_def [symmetric])
qed

text \<open>
  \<open>canGrantRole\<close> answers yes exactly for an existing role all of whose permissions the
  actor holds, so nobody can hand out a permission they lack.
\<close>

theorem can_grant_exact:
  assumes "role_inv s"
  shows "\<exists>s'. canGrantRole s actor n now = Inr (s', (case actor of None \<Rightarrow> False | Some ps \<Rightarrow>
     n \<in> ro_name ` set (ro_rows (ensureSeeded now s)) \<and>
     granted (ro_rows (ensureSeeded now s)) n \<subseteq> ps)) \<and> role_inv s'"
  using can_grant_spec [OF assms] .

lemma can_grant_exact_witness:
  "\<exists>s'. canGrantRole demo_roles (Some {ScanView}) ''dev'' 3 = Inr (s', False)"
  using can_grant_exact [OF demo_roles_inv, of "Some {ScanView}" "''dev''" 3]
  by (auto simp: demo_roles_def ensureSeeded_def granted_def table_grants_def first_where_def demo_role_def)

text \<open>
  Between the SELECT of a lookup that rebuilds the cache and its completion every other
  lookup is answered from the still empty cache: every role but admin has no permission at all,
  whatever the table says, and if a role is changed meanwhile the first lookup ends in a TypeError.
\<close>

theorem lookup_during_rebuild_is_empty:
  assumes "permsFor_begin n now s = (s1, Fetch t)"
  shows "(m \<noteq> ''admin'' \<longrightarrow> permsFor m now' s1 = Inr (s1, {})) \<and>
    (role_update m l ps now' s1 = (s2, Ok) \<longrightarrow> permsFor_fill n t s2 = Inl TypeError)"
proof (intro conjI)
  from assms have s1: "ro_cache s1 = Some (\<lambda>_. None)" "ro_seeded s1"
    by (auto simp: permsFor_begin_def Let_def split: if_splits option.splits)
  then show "m \<noteq> ''admin'' \<longrightarrow> permsFor m now' s1 = Inr (s1, {})"
    by (simp add: permsFor_def permsFor_begin_def ensureSeeded_id)
  show "role_update m l ps now' s1 = (s2, Ok) \<longrightarrow> permsFor_fill n t s2 = Inl TypeError"
    by (auto simp: role_update_def role_exists_def permsFor_fill_def Let_def split: if_splits bool.splits)
qed

lemma lookup_during_rebuild_is_empty_witness:
  "\<exists>s1 t. permsFor_begin ''operator'' 1 demo_roles = (s1, Fetch t) \<and>
     granted (ro_rows s1) ''viewer'' = {StatusView} \<and> permsFor ''viewer'' 1 s1 = Inr (s1, {})"
proof -
  have "\<exists>s1 t. permsFor_begin ''operator'' 1 demo_roles = (s1, Fetch t) \<and> ro_rows s1 = ro_rows demo_roles"
    by (simp add: permsFor_begin_def ensureSeeded_id demo_roles_def)
  then obtain s1 t where s1: "permsFor_begin ''operator'' 1 demo_roles = (s1, Fetch t)"
    "ro_rows s1 = ro_rows demo_roles" by blast
  have "granted (ro_rows s1) ''viewer'' = {StatusView}"
    by (simp add: s1(2) granted_def table_grants_def demo_roles_def demo_role_def first_where_def)
  with lookup_during_rebuild_is_empty [OF s1(1), of "''viewer''" 1] s1(1) show ?thesis by auto
qed

end
