(* ===== verification/Account_Inv.thy ===== *)
theory Account_Inv
  imports Sessions
begin

text \<open>
  The invariant of the account tables and the step relation \<open>acc_step\<close> of every operation of
  \<open>UserStore\<close>, \<open>SessionStore\<close> and \<open>InviteStore\<close> on them, with the
  lemmas that the two share: which updates keep the invariant, and that an operation never
  invents sessions or invitations.
\<close>

section \<open>Invariant\<close>

abbreviation user_ids :: "accounts \<Rightarrow> nat set" where
  "user_ids db \<equiv> u_id ` set (users db)"

definition users_ok :: "accounts \<Rightarrow> bool" where
  "users_ok db =
     (unique_on u_id (users db) \<and> (\<forall>u \<in> set (users db). u_id u \<le> users_seq db) \<and>
      unique_on (\<lambda>u. nocase (u_username u)) (users db) \<and>
      (\<forall>u \<in> set (users db). u_external_id u \<noteq> None) \<and>
      unique_on (\<lambda>u. (u_source u, u_external_id u)) (users db))"

definition refs_ok :: "accounts \<Rightarrow> bool" where
  "refs_ok db =
     ((\<forall>s \<in> set (sessions db). s_user_id s \<in> user_ids db) \<and>
      (\<forall>i \<in> set (invites db). \<forall>u. i_user_id i = Some u \<longrightarrow> u \<in> user_ids db) \<and>
      (\<forall>c \<in> set (credentials db). cr_user_id c \<in> user_ids db) \<and>
      (\<forall>c \<in> set (challenges db). \<forall>u. ch_user_id c = Some u \<longrightarrow> u \<in> user_ids db))"

definition acc_inv :: "accounts \<Rightarrow> bool" where
  "acc_inv db =
     (users_ok db \<and> refs_ok db \<and> unique_on s_token_hash (sessions db) \<and>
      unique_on i_token_hash (invites db))"

lemma acc_invD:
  assumes "acc_inv db"
  shows "users_ok db" "refs_ok db" "unique_on s_token_hash (sessions db)" "unique_on i_token_hash (invites db)"
    "unique_on u_id (users db)"
  using assms by (simp_all add: acc_inv_def users_ok_def)

lemma users_ok_other [simp]:
  "users_ok (db\<lparr> sessions := t \<rparr>) = users_ok db" "users_ok (db\<lparr> invites := v \<rparr>) = users_ok db"
  by (simp_all add: users_ok_def)

lemma no_accounts_inv: "acc_inv no_accounts"
  by (simp add: acc_inv_def users_ok_def refs_ok_def no_accounts_def)

section \<open>Updates that keep it\<close>

lemma user_ids_upd: "(\<And>r. u_id (f r) = u_id r) \<Longrightarrow> user_ids (upd_user i f db) = user_ids db"
  using map_upd_where [of "\<lambda>r. u_id r = i" u_id f "users db"]
  by (simp add: upd_user_def) (metis list.set_map)

lemma upd_user_simps [simp]:
  "sessions (upd_user i f db) = sessions db" "invites (upd_user i f db) = invites db"
  "credentials (upd_user i f db) = credentials db" "challenges (upd_user i f db) = challenges db"
  "users_seq (upd_user i f db) = users_seq db"
  by (simp_all add: upd_user_def)

definition keeps_identity :: "(user_row \<Rightarrow> user_row) \<Rightarrow> bool" where
  "keeps_identity f =
     (\<forall>r. u_id (f r) = u_id r \<and> u_username (f r) = u_username r \<and> u_source (f r) = u_source r \<and>
          u_external_id (f r) = u_external_id r)"

lemma upd_user_inv:
  assumes k: "keeps_identity f" and db: "acc_inv db"
  shows "acc_inv (upd_user i f db)"
proof -
  have f: "u_id (f r) = u_id r" "u_username (f r) = u_username r" "u_source (f r) = u_source r"
    "u_external_id (f r) = u_external_id r" for r using k by (simp_all add: keeps_identity_def)
  have "users_ok (upd_user i f db)" using db unfolding acc_inv_def users_ok_def
    by (auto simp: upd_user_def f intro!: unique_on_upd_where dest!: set_upd_whereD split: if_splits)
  moreover have "refs_ok (upd_user i f db)" using db
    by (simp add: acc_inv_def refs_ok_def user_ids_upd f)
  ultimately show ?thesis using db by (simp add: acc_inv_def)
qed

lemmas user_updates = syncExternal_def setPassword_def setDisplayName_def setAvatar_def clearAvatar_def
  setRole_def setDisabled_def touchLogin_def setTotp_def

lemma user_updates_inv:
  assumes "acc_inv db"
  shows "acc_inv (syncExternal i n r db)" "acc_inv (setPassword i h db)" "acc_inv (setDisplayName i n db)"
    "acc_inv (setAvatar i bs m db)" "acc_inv (clearAvatar i db)" "acc_inv (setRole i r db)"
    "acc_inv (setDisabled i b t db)" "acc_inv (touchLogin i t db)" "acc_inv (setTotp i ts tb db)"
    "acc_inv (fst (consume_write i rest db))"
  using assms
  by (auto simp: user_updates consume_write_def intro!: upd_user_inv split: option.splits)
    (simp_all add: keeps_identity_def)

lemma sessions_inv:
  assumes "acc_inv db" "unique_on s_token_hash t" "\<forall>s \<in> set t. s_user_id s \<in> user_ids db"
  shows "acc_inv (db\<lparr> sessions := t \<rparr>)"
  using assms by (simp add: acc_inv_def users_ok_def refs_ok_def)

lemma invites_inv:
  assumes "acc_inv db" "unique_on i_token_hash t"
    "\<forall>s \<in> set t. \<forall>u. i_user_id s = Some u \<longrightarrow> u \<in> user_ids db"
  shows "acc_inv (db\<lparr> invites := t \<rparr>)"
  using assms by (simp add: acc_inv_def users_ok_def refs_ok_def)

lemma del_sessions_inv: "acc_inv db \<Longrightarrow> acc_inv (db\<lparr> sessions := del_where P (sessions db) \<rparr>)"
  by (rule sessions_inv) (auto simp: acc_inv_def refs_ok_def unique_on_del_where)

lemma upd_sessions_inv:
  assumes "acc_inv db" "\<And>r. s_token_hash (f r) = s_token_hash r" "\<And>r. s_user_id (f r) = s_user_id r"
  shows "acc_inv (db\<lparr> sessions := upd_where P f (sessions db) \<rparr>)"
  using assms by (intro sessions_inv unique_on_upd_where)
    (auto simp: acc_inv_def refs_ok_def dest!: set_upd_whereD split: if_splits)

lemma upd_invites_inv:
  assumes "acc_inv db" "\<And>r. i_token_hash (f r) = i_token_hash r" "\<And>r. i_user_id (f r) = i_user_id r"
  shows "acc_inv (db\<lparr> invites := upd_where P f (invites db) \<rparr>)"
  using assms by (intro invites_inv unique_on_upd_where)
    (auto simp: acc_inv_def refs_ok_def dest!: set_upd_whereD split: if_splits)

section \<open>Creation and removal\<close>

lemma insert_user_cases:
  assumes "insert_user name display hash role source ext now db = Inr (db', i)"
  obtains row where "\<forall>r \<in> set (users db). \<not> user_clash name source ext r" "i = Suc (users_seq db)"
    "db' = db\<lparr> users := users db @ [row], users_seq := i \<rparr>" "u_id row = i" "u_username row = name"
    "u_source row = source" "u_external_id row = Some ext" "u_role row = role" "u_disabled_at row = None"
    "u_password_hash row = hash" "u_totp_secret row = None"
  using assms by (auto simp: insert_user_def Let_def split: if_splits)

lemma insert_user_inv:
  assumes "acc_inv db" "insert_user name display hash role source ext now db = Inr (db', i)"
  shows "acc_inv db'"
  using assms(2)
proof (cases rule: insert_user_cases)
  case (1 row)
  have le: "\<forall>u \<in> set (users db). u_id u \<le> users_seq db" using assms(1) by (simp add: acc_inv_def users_ok_def)
  have "users_ok db'" using assms(1) 1 le unfolding acc_inv_def users_ok_def
    by (auto simp: unique_on_snoc user_clash_def Suc_le_eq le_SucI dest: bspec)
  moreover have "refs_ok db'" using assms(1) 1 by (auto simp: acc_inv_def refs_ok_def)
  ultimately show ?thesis using assms(1) 1 by (simp add: acc_inv_def)
qed

lemma read_back_db: "read_back p = Inr (db', u) \<Longrightarrow> db' = fst p \<and> byId (snd p) db' = Some u"
  by (cases p) (auto simp: read_back_def split: option.splits)

lemma creation_cases:
  shows "create_user name hash role display now db = Inr (db', u) \<Longrightarrow>
      \<exists>i. insert_user name display hash role ''local'' (localExternalId name) now db = Inr (db', i) \<and>
          byId i db' = Some u"
    and "createExternal name display role source ext now db = Inr (db', u) \<Longrightarrow>
      \<exists>i. insert_user name display [] role source ext now db = Inr (db', i) \<and> byId i db' = Some u"
    and "createFirstUser name hash role display now db = Inr (db', fu) \<Longrightarrow>
      (users db \<noteq> [] \<and> db' = db \<and> fu = None) \<or>
      (users db = [] \<and> (\<exists>i. insert_user name display hash role ''local'' (localExternalId name) now db
          = Inr (db', i) \<and> fu \<noteq> None \<and> byId i db' = fu))"
proof -
  show "create_user name hash role display now db = Inr (db', u) \<Longrightarrow>
      \<exists>i. insert_user name display hash role ''local'' (localExternalId name) now db = Inr (db', i) \<and>
          byId i db' = Some u"
    by (auto simp: create_user_def split: sum.splits dest: read_back_db)
  show "createExternal name display role source ext now db = Inr (db', u) \<Longrightarrow>
      \<exists>i. insert_user name display [] role source ext now db = Inr (db', i) \<and> byId i db' = Some u"
    by (auto simp: createExternal_def split: sum.splits dest: read_back_db)
  assume "createFirstUser name hash role display now db = Inr (db', fu)"
  then show "(users db \<noteq> [] \<and> db' = db \<and> fu = None) \<or>
      (users db = [] \<and> (\<exists>i. insert_user name display hash role ''local'' (localExternalId name) now db
          = Inr (db', i) \<and> fu \<noteq> None \<and> byId i db' = fu))"
    by (cases "insert_user name display hash role ''local'' (localExternalId name) now db";
        cases "read_back (projr (insert_user name display hash role ''local'' (localExternalId name) now db))")
      (auto simp: createFirstUser_def user_count_def split: if_splits dest!: read_back_db)
qed

lemma creation_inv:
  assumes "acc_inv db"
  shows "create_user name hash role display now db = Inr (db', u) \<Longrightarrow> acc_inv db'"
    and "createExternal name display role source ext now db = Inr (db', u) \<Longrightarrow> acc_inv db'"
    and "createFirstUser name hash role display now db = Inr (db', fu) \<Longrightarrow> acc_inv db'"
  using assms insert_user_inv by (blast dest: creation_cases)+

lemma user_ids_remove: "user_ids (remove_user i db) = user_ids db - {i}"
  by (auto simp: remove_user_def)

lemma remove_user_inv:
  assumes "acc_inv db"
  shows "acc_inv (remove_user i db)"
proof -
  have "refs_ok (remove_user i db)" using assms
    unfolding acc_inv_def refs_ok_def user_ids_remove by (simp add: remove_user_def) blast
  moreover have "users_ok (remove_user i db)" using assms
    by (simp add: acc_inv_def users_ok_def remove_user_def unique_on_del_where)
  ultimately show ?thesis using assms
    by (simp add: acc_inv_def remove_user_def unique_on_del_where)
qed

lemma session_create_inv:
  assumes "acc_inv db" "session_create h token i ttl ip ua now db = Inr (db', t)"
  shows "acc_inv db'"
proof -
  have "i \<in> user_ids db" "\<forall>r \<in> set (sessions db). s_token_hash r \<noteq> h token"
    and db': "\<exists>r. db' = db\<lparr> sessions := sessions db @ [r] \<rparr> \<and> s_token_hash r = h token \<and> s_user_id r = i"
    using assms(2) by (auto simp: session_create_def split: if_splits)
  then show ?thesis using assms(1)
    by (auto intro!: sessions_inv simp: unique_on_snoc acc_inv_def refs_ok_def)
qed

lemma revokeUserSessions_inv: "acc_inv db \<Longrightarrow> acc_inv (revokeUserSessions i e db)"
  by (auto simp: revokeUserSessions_def del_sessions_inv split: option.split)

lemma session_resolve_inv:
  "acc_inv db \<Longrightarrow> acc_inv (fst (session_resolve h token ttl now db))"
  by (auto simp: session_resolve_def Let_def del_sessions_inv revokeUserSessions_inv
      split: option.split intro!: upd_sessions_inv)

lemma invite_create_inv:
  assumes "acc_inv db" "invite_create h token kind role uid by ttl now db = Inr (db', t, iv)"
  shows "acc_inv db'"
proof -
  have "\<forall>u. uid = Some u \<longrightarrow> u \<in> user_ids db" "\<forall>r \<in> set (invites db). i_token_hash r \<noteq> h token"
    and db': "\<exists>r. db' = db\<lparr> invites := invites db @ [r] \<rparr> \<and> i_token_hash r = h token \<and> i_user_id r = uid"
    using assms(2) by (auto simp: invite_create_def Let_def split: if_splits option.splits)
  then show ?thesis using assms(1)
    by (auto intro!: invites_inv simp: unique_on_snoc acc_inv_def refs_ok_def)
qed

lemmas invite_updates = markUsed_def tryClaim_def invite_revoke_def revokeForUser_def Let_def

lemma invite_updates_inv:
  assumes "acc_inv db"
  shows "acc_inv (markUsed th now db)" "acc_inv (fst (tryClaim th now db))" "acc_inv (invite_revoke th now db)"
    "acc_inv (revokeForUser i now db)"
  using assms by (auto simp: invite_updates intro!: upd_invites_inv)

lemma prunes_inv:
  assumes "acc_inv db"
  shows "acc_inv (fst (sessions_prune now db))" "acc_inv (fst (invites_prune now db))"
    "acc_inv (session_revoke th db)"
  using assms
  by (auto simp: sessions_prune_def invites_prune_def session_revoke_def Let_def acc_inv_def refs_ok_def
      unique_on_del_where intro!: del_sessions_inv invites_inv)


section \<open>Steps\<close>

text \<open>
  Every store operation on the account tables, with the token hash \<open>h\<close>.  A call that raises
  leaves the tables alone.  \<open>consumeBackupCode\<close> contributes the write of its second half, for any
  list read before.
\<close>

inductive acc_step :: "(string \<Rightarrow> string) \<Rightarrow> accounts \<Rightarrow> accounts \<Rightarrow> bool" for h where
  create: "create_user n pw r d now db = Inr (db', u) \<Longrightarrow> acc_step h db db'"
| first: "createFirstUser n pw r d now db = Inr (db', fu) \<Longrightarrow> acc_step h db db'"
| external: "createExternal n d r src ext now db = Inr (db', u) \<Longrightarrow> acc_step h db db'"
| sync: "acc_step h db (syncExternal i d r db)"
| password: "acc_step h db (setPassword i pw db)"
| display: "acc_step h db (setDisplayName i d db)"
| avatar: "acc_step h db (setAvatar i bs mime db)"
| no_avatar: "acc_step h db (clearAvatar i db)"
| role: "acc_step h db (setRole i r db)"
| disable: "acc_step h db (setDisabled i b now db)"
| login: "acc_step h db (touchLogin i now db)"
| totp: "acc_step h db (setTotp i sealed hs db)"
| backup: "acc_step h db (fst (consume_write i rest db))"
| remove: "acc_step h db (remove_user i db)"
| session: "session_create h tok i ttl ip ua now db = Inr (db', t) \<Longrightarrow> acc_step h db db'"
| resolve: "acc_step h db (fst (session_resolve h tok ttl now db))"
| logout: "acc_step h db (session_revoke th db)"
| logout_all: "acc_step h db (revokeUserSessions i e db)"
| session_prune: "acc_step h db (fst (sessions_prune now db))"
| invite: "invite_create h tok kind r uid by ttl now db = Inr (db', t, iv) \<Longrightarrow> acc_step h db db'"
| used: "acc_step h db (markUsed th now db)"
| claim: "acc_step h db (fst (tryClaim th now db))"
| withdraw: "acc_step h db (invite_revoke th now db)"
| withdraw_all: "acc_step h db (revokeForUser i now db)"
| invite_prune: "acc_step h db (fst (invites_prune now db))"

lemma acc_step_inv: "acc_step h db db' \<Longrightarrow> acc_inv db \<Longrightarrow> acc_inv db'"
  by (induction rule: acc_step.induct)
    (auto intro: creation_inv user_updates_inv remove_user_inv session_create_inv session_resolve_inv
      revokeUserSessions_inv invite_create_inv invite_updates_inv prunes_inv)

lemma acc_run_inv: "(acc_step h)\<^sup>*\<^sup>* db db' \<Longrightarrow> acc_inv db \<Longrightarrow> acc_inv db'"
  by (induction rule: rtranclp_induct) (auto intro: acc_step_inv)

end
