(* ===== verification/Admin_Inv.thy ===== *)
theory Admin_Inv
  imports Admin_Routes Admin_Auth Role_Props Account_Inv
begin

text \<open>
  Invariants across the stores.  \<open>hub_inv\<close> joins the invariants of the account tables and of the role
  store with the reference from users to roles; \<open>has_admin\<close> says that somebody enabled is admin.
  The combinators of the handlers pass any predicate on, so each handler is checked on its
  branches by the rules of \<open>hub_handler\<close>.
\<close>

section \<open>Combinators\<close>

lemma requireUser_pres:
  "P s \<Longrightarrow> (\<And>u. rq_user rq = Some u \<Longrightarrow> P (fst (k u))) \<Longrightarrow> P (fst (requireUser rq s k))"
  by (simp add: requireUser_def split: option.split)

lemma requirePerm_pres:
  "P s \<Longrightarrow> (\<And>u ps. rq_user rq = Some u \<Longrightarrow> rq_perms rq = Some ps \<Longrightarrow> p \<in> ps \<Longrightarrow> P (fst (k u)))
     \<Longrightarrow> P (fst (requirePerm rq p s k))"
  by (simp add: requirePerm_def requireUser_def split: option.split)

lemma with_body_pres:
  "P s \<Longrightarrow> (\<And>b. rq_payload rq = Body b \<Longrightarrow> P (fst (k b))) \<Longrightarrow> P (fst (with_body rq s k))"
  by (simp add: with_body_def split: payload.split)

lemma attempt_pres:
  "P s \<Longrightarrow> (\<And>x. r = Inr x \<Longrightarrow> P (fst (k x))) \<Longrightarrow> P (fst (attempt r s k))"
  by (simp add: attempt_def split: sum.split)

section \<open>The invariant of the hub\<close>

definition known_role :: "role_store \<Rightarrow> string \<Rightarrow> bool" where
  "known_role r n = (builtin_name n \<or> n \<in> ro_name ` set (ro_rows r))"

definition hub_inv :: "hub \<Rightarrow> bool" where
  "hub_inv s =
     (acc_inv (h_acc s) \<and> role_inv (h_roles s) \<and>
      (\<forall>u \<in> set (users (h_acc s)). known_role (h_roles s) (u_role u)))"

lemmas hub_handler = requireUser_pres [where P = hub_inv] requirePerm_pres [where P = hub_inv]
  with_body_pres [where P = hub_inv] attempt_pres [where P = hub_inv]

lemma hub_invD:
  assumes "hub_inv s"
  shows "acc_inv (h_acc s)" "role_inv (h_roles s)"
    "u \<in> set (users (h_acc s)) \<Longrightarrow> known_role (h_roles s) (u_role u)"
  using assms by (simp_all add: hub_inv_def)

lemma hub_inv_audit [simp]:
  "hub_inv (audit ev rq a d s) = hub_inv s" "hub_inv (audit_as ev uid n a d ip s) = hub_inv s"
  by (simp_all add: hub_inv_def)

lemma hub_inv_attempts [simp]: "hub_inv (s\<lparr> h_attempts := t \<rparr>) = hub_inv s"
  by (simp add: hub_inv_def)

lemma hub_inv_acc:
  assumes "hub_inv s" "acc_inv db" "u_role ` set (users db) \<subseteq> u_role ` set (users (h_acc s))"
  shows "hub_inv (s\<lparr> h_acc := db \<rparr>)"
  using assms by (fastforce simp: hub_inv_def)

lemma hub_inv_on_acc:
  assumes "hub_inv s" "acc_inv (f (h_acc s))"
    "u_role ` set (users (f (h_acc s))) \<subseteq> insert n (u_role ` set (users (h_acc s)))"
    "known_role (h_roles s) n"
  shows "hub_inv (on_acc f s)"
  using assms by (fastforce simp: hub_inv_def)

lemma hub_inv_roles:
  assumes "hub_inv s" "role_inv r"
    "\<And>u. u \<in> set (users (h_acc s)) \<Longrightarrow> known_role (h_roles s) (u_role u) \<Longrightarrow> known_role r (u_role u)"
  shows "hub_inv (s\<lparr> h_roles := r \<rparr>)"
  using assms by (simp add: hub_inv_def)

section \<open>Role operations seen from the hub\<close>

lemma ensureSeeded_names: "ro_name ` set (ro_rows s) \<subseteq> ro_name ` set (ro_rows (ensureSeeded now s))"
  by (auto simp: ensureSeeded_def seed_unfold seed_builtin_ok)

lemma known_ensureSeeded: "known_role s n \<Longrightarrow> known_role (ensureSeeded now s) n"
  using ensureSeeded_names by (auto simp: known_role_def)

lemma known_builtin: "builtin_name n \<Longrightarrow> known_role r n"
  by (simp add: known_role_def)

lemma admin_builtin: "builtin_name ''admin''"
  by (simp add: builtin_name_def BUILTINS_def)

lemma hub_role_exists_spec:
  assumes "hub_inv s" "hub_role_exists ev n s = (s1, b)"
  shows "hub_inv s1 \<and> h_acc s1 = h_acc s \<and> (b \<longrightarrow> known_role (h_roles s1) n)"
  using assms hub_inv_roles [OF assms(1) ensureSeeded_inv [OF hub_invD(2) [OF assms(1)]] known_ensureSeeded]
  by (auto simp: hub_role_exists_def role_exists_def Let_def known_role_def)

lemma hub_can_grant_spec:
  assumes "hub_inv s" "hub_can_grant ev rq n s = Inr (s1, b)"
  shows "hub_inv s1 \<and> h_acc s1 = h_acc s \<and> (\<forall>m. known_role (h_roles s) m \<longrightarrow> known_role (h_roles s1) m)"
proof -
  obtain r where c: "canGrantRole (h_roles s) (rq_perms rq) n (ev_now ev) = Inr (r, b)"
    and s1: "s1 = s\<lparr> h_roles := r \<rparr>"
    using assms(2) by (cases "canGrantRole (h_roles s) (rq_perms rq) n (ev_now ev)") (auto simp: hub_can_grant_def)
  have inv: "role_inv r" using can_grant_rows [OF hub_invD(2) [OF assms(1)] c] by blast
  have "ro_name ` set (ro_rows (h_roles s)) \<subseteq> ro_name ` set (ro_rows r)"
    using can_grant_rows [OF hub_invD(2) [OF assms(1)] c] ensureSeeded_names [of "h_roles s" "ev_now ev"]
    by (metis order_refl)
  then have k: "known_role (h_roles s) m \<Longrightarrow> known_role r m" for m by (auto simp: known_role_def)
  then show ?thesis using hub_inv_roles [OF assms(1) inv k] by (simp add: s1 k)
qed


lemma known_role_grants: "known_role r n \<longleftrightarrow> builtin_name n \<or> table_grants (ro_rows r) n \<noteq> None"
  by (auto simp: known_role_def table_grants_None)

lemma role_list_inv:
  "hub_inv s \<Longrightarrow> role_list now (h_roles s) = (r, infos) \<Longrightarrow> hub_inv (s\<lparr> h_roles := r \<rparr>)"
  using hub_inv_roles [OF _ ensureSeeded_inv known_ensureSeeded] hub_invD(2)
  by (force simp: role_list_def Let_def)

lemma role_get_inv:
  "hub_inv s \<Longrightarrow> role_get n now (h_roles s) = (r, info) \<Longrightarrow> hub_inv (s\<lparr> h_roles := r \<rparr>)"
  using hub_inv_roles [OF _ ensureSeeded_inv known_ensureSeeded] hub_invD(2)
  by (force simp: role_get_def Let_def)

lemma role_create_hub:
  assumes "hub_inv s" "role_create n l ps now (h_roles s) = Inr (r, info)"
  shows "hub_inv (s\<lparr> h_roles := r \<rparr>)"
proof (rule hub_inv_roles [OF assms(1)])
  note inv = role_create_inv [OF hub_invD(2) [OF assms(1)] assms(2)]
  then show "role_inv r" by blast
  fix u :: user_row
  assume "known_role (h_roles s) (u_role u)"
  then have "known_role (ensureSeeded now (h_roles s)) (u_role u)" by (rule known_ensureSeeded)
  with inv show "known_role r (u_role u)" by (auto simp: known_role_grants)
qed

lemma role_update_hub:
  assumes "hub_inv s" "role_update n l ps now (h_roles s) = (r, res)"
  shows "hub_inv (s\<lparr> h_roles := r \<rparr>)"
proof (rule hub_inv_roles [OF assms(1)])
  note inv = role_update_inv [OF hub_invD(2) [OF assms(1)] assms(2)]
  then show "role_inv r" by blast
  fix u :: user_row
  assume "known_role (h_roles s) (u_role u)"
  with known_ensureSeeded [OF this, of now] inv show "known_role r (u_role u)"
    by (cases "res = Ok") (auto simp: known_role_grants)
qed

lemma role_remove_hub:
  assumes "hub_inv s" "role_remove (countByRole (h_acc s)) n now (h_roles s) = (r, res)"
  shows "hub_inv (s\<lparr> h_roles := r \<rparr>)"
proof (rule hub_inv_roles [OF assms(1)])
  note inv = role_remove_inv [OF hub_invD(2) [OF assms(1)] assms(2)]
  then show "role_inv r" by blast
  fix u assume u: "u \<in> set (users (h_acc s))" and k: "known_role (h_roles s) (u_role u)"
  show "known_role r (u_role u)"
  proof (cases "res = Ok")
    case True
    then have "u_role u \<noteq> n" using u ru.remove_unused assms(2) by blast
    with inv True known_ensureSeeded [OF k, of now] show ?thesis by (auto simp: known_role_grants)
  next
    case False
    with inv k known_ensureSeeded [OF k, of now] show ?thesis by auto
  qed
qed

section \<open>Account operations seen from the hub\<close>

lemma roles_upd_user:
  assumes "\<And>r. u_role (f r) = u_role r \<or> u_role (f r) = n"
  shows "u_role ` set (users (upd_user i f db)) \<subseteq> insert n (u_role ` set (users db))"
proof
  fix x assume "x \<in> u_role ` set (users (upd_user i f db))"
  then obtain r where "r \<in> set (users db)" "x = u_role (if u_id r = i then f r else r)"
    by (auto simp: upd_user_def dest!: set_upd_whereD)
  with assms [of r] show "x \<in> insert n (u_role ` set (users db))" by (auto split: if_splits)
qed

lemma upd_hub:
  assumes "hub_inv s" "keeps_identity f" "known_role (h_roles s) n"
    "\<And>r. u_role (f r) = u_role r \<or> u_role (f r) = n"
  shows "hub_inv (on_acc (upd_user i f) s)"
  by (rule hub_inv_on_acc [where f = "upd_user i f" and n = n])
    (simp_all add: assms hub_invD roles_upd_user upd_user_inv)

lemma hub_user_updates:
  assumes "hub_inv s"
  shows "hub_inv (on_acc (setPassword i h) s)" "hub_inv (on_acc (setDisplayName i d) s)"
    "hub_inv (on_acc (setDisabled i b now) s)" "hub_inv (on_acc (touchLogin i now) s)"
    "hub_inv (on_acc (setTotp i sec hs) s)"
    "known_role (h_roles s) n \<Longrightarrow> hub_inv (on_acc (setRole i n) s)"
    "known_role (h_roles s) n \<Longrightarrow> hub_inv (on_acc (syncExternal i d n) s)"
  using upd_hub [OF assms _ known_builtin [OF admin_builtin]] upd_hub [OF assms]
  by (auto simp: user_updates keeps_identity_def)

lemma same_users_hub:
  assumes "hub_inv s" "acc_inv (f (h_acc s))" "users (f (h_acc s)) = users (h_acc s)"
  shows "hub_inv (on_acc f s)"
  using assms by (simp add: hub_inv_def)

lemma users_session_ops [simp]:
  "users (revokeUserSessions i e db) = users db" "users (session_revoke th db) = users db"
  "users (revokeForUser i now db) = users db" "users (invite_revoke th now db) = users db"
  "users (fst (tryClaim th now db)) = users db" "users (markUsed th now db) = users db"
  by (auto simp: revokeUserSessions_def session_revoke_def invite_updates split: option.split)

lemma hub_session_ops:
  assumes "hub_inv s"
  shows "hub_inv (on_acc (revokeUserSessions i e) s)" "hub_inv (on_acc (session_revoke th) s)"
    "hub_inv (on_acc (revokeForUser i now) s)" "hub_inv (on_acc (invite_revoke th now) s)"
    "tryClaim th now (h_acc s) = (db, b) \<Longrightarrow> hub_inv (s\<lparr> h_acc := db \<rparr>)"
    "hub_inv (on_acc (remove_user j) s)"
proof -
  note a = hub_invD(1) [OF assms]
  show "hub_inv (on_acc (revokeUserSessions i e) s)" "hub_inv (on_acc (session_revoke th) s)"
    "hub_inv (on_acc (revokeForUser i now) s)" "hub_inv (on_acc (invite_revoke th now) s)"
    by (auto intro!: same_users_hub assms revokeUserSessions_inv prunes_inv invite_updates_inv a)
  show "hub_inv (s\<lparr> h_acc := db \<rparr>)" if c: "tryClaim th now (h_acc s) = (db, b)"
  proof (rule hub_inv_acc [OF assms])
    show "acc_inv db" using invite_updates_inv(2) [OF a, of th now] c by simp
    have "users (fst (tryClaim th now (h_acc s))) = users (h_acc s)" by simp
    then show "u_role ` set (users db) \<subseteq> u_role ` set (users (h_acc s))" using c by simp
  qed
  show "hub_inv (on_acc (remove_user j) s)"
    by (rule hub_inv_on_acc [where n = "''admin''"])
      (simp_all add: assms a remove_user_inv known_builtin [OF admin_builtin], auto simp: remove_user_def)
qed

lemma hub_create_user:
  assumes "hub_inv s" "create_user n pw r d now (h_acc s) = Inr (db, u)" "known_role (h_roles s) r"
  shows "hub_inv (s\<lparr> h_acc := db \<rparr>)"
proof -
  from creation_cases(1) [OF assms(2)] obtain i where
    "insert_user n d pw r ''local'' (localExternalId n) now (h_acc s) = Inr (db, i)" by blast
  then have "u_role ` set (users db) \<subseteq> insert r (u_role ` set (users (h_acc s)))"
    by (cases rule: insert_user_cases) auto
  then have "hub_inv (on_acc (\<lambda>_. db) s)"
    using creation_inv(1) [OF hub_invD(1) [OF assms(1)] assms(2)] assms(1,3) by (intro hub_inv_on_acc) auto
  then show ?thesis by (simp add: on_acc_def)
qed

lemma hub_create_external:
  assumes "hub_inv s" "createExternal n d r src ext now (h_acc s) = Inr (db, u)" "known_role (h_roles s) r"
  shows "hub_inv (s\<lparr> h_acc := db \<rparr>)"
proof -
  from creation_cases(2) [OF assms(2)] obtain i where
    "insert_user n d [] r src ext now (h_acc s) = Inr (db, i)" by blast
  then have "u_role ` set (users db) \<subseteq> insert r (u_role ` set (users (h_acc s)))"
    by (cases rule: insert_user_cases) auto
  then have "hub_inv (on_acc (\<lambda>_. db) s)"
    using creation_inv(2) [OF hub_invD(1) [OF assms(1)] assms(2)] assms(1,3) by (intro hub_inv_on_acc) auto
  then show ?thesis by (simp add: on_acc_def)
qed

lemma hub_create_first:
  assumes "hub_inv s" "createFirstUser n pw r d now (h_acc s) = Inr (db, fu)" "known_role (h_roles s) r"
  shows "hub_inv (s\<lparr> h_acc := db \<rparr>)"
proof -
  have "u_role ` set (users db) \<subseteq> insert r (u_role ` set (users (h_acc s)))"
    using creation_cases(3) [OF assms(2)] by (auto elim!: insert_user_cases)
  then have "hub_inv (on_acc (\<lambda>_. db) s)"
    using creation_inv(3) [OF hub_invD(1) [OF assms(1)] assms(2)] assms(1,3) by (intro hub_inv_on_acc) auto
  then show ?thesis by (simp add: on_acc_def)
qed

lemma hub_issueSession:
  assumes "hub_inv s" "issueSession ev rq i s = Inr s'"
  shows "hub_inv s'"
proof -
  obtain db t where c: "session_create (ev_sha ev) (ev_token ev) i (ev_session_ttl ev) (Some (rq_ip rq))
      (rq_agent rq) (ev_now ev) (h_acc s) = Inr (db, t)" and s': "s' = s\<lparr> h_acc := db \<rparr>"
    using assms(2)
    by (cases "session_create (ev_sha ev) (ev_token ev) i (ev_session_ttl ev) (Some (rq_ip rq))
      (rq_agent rq) (ev_now ev) (h_acc s)") (auto simp: issueSession_def)
  have "users db = users (h_acc s)" using c by (auto simp: session_create_def split: if_splits)
  with hub_inv_acc [OF assms(1) session_create_inv [OF hub_invD(1) [OF assms(1)] c]] s' show ?thesis by simp
qed


lemma hub_invite_create:
  assumes "hub_inv s" "invite_create h tok kind r uid creator ttl now (h_acc s) = Inr (db, t, iv)"
  shows "hub_inv (s\<lparr> h_acc := db \<rparr>)"
proof -
  have "users db = users (h_acc s)"
    using assms(2) by (auto simp: invite_create_def Let_def split: if_splits option.splits)
  with hub_inv_acc [OF assms(1) invite_create_inv [OF hub_invD(1) [OF assms(1)] assms(2)]] show ?thesis by simp
qed

section \<open>Store calls inside a handler\<close>

lemma role_exists_pres:
  assumes "hub_inv s"
    and "\<And>s1. hub_inv s1 \<Longrightarrow> hub_inv (fst (f s1))"
    and "\<And>s1. hub_inv s1 \<Longrightarrow> known_role (h_roles s1) n \<Longrightarrow> hub_inv (fst (g s1))"
  shows "hub_inv (fst (case hub_role_exists ev n s of (s1, True) \<Rightarrow> g s1 | (s1, False) \<Rightarrow> f s1))"
proof -
  obtain s1 b where e: "hub_role_exists ev n s = (s1, b)" by (meson surj_pair)
  from hub_role_exists_spec [OF assms(1) e] e assms(2,3) [of s1] show ?thesis by (cases b) auto
qed

lemma can_grant_pres:
  assumes "hub_inv s"
    and "\<And>s1 b. hub_inv s1 \<Longrightarrow>
           (\<And>m. known_role (h_roles s) m \<Longrightarrow> known_role (h_roles s1) m) \<Longrightarrow> hub_inv (fst (k (s1, b)))"
  shows "hub_inv (fst (attempt (hub_can_grant ev rq n s) s k))"
  using assms hub_can_grant_spec [OF assms(1)] by (auto simp: attempt_def split: sum.split)

lemma role_create_pres:
  assumes "hub_inv s" "\<And>r info. hub_inv (s\<lparr> h_roles := r \<rparr>) \<Longrightarrow> hub_inv (fst (k (r, info)))"
  shows "hub_inv (fst (attempt (role_create n l ps now (h_roles s)) s k))"
  using assms role_create_hub by (auto simp: attempt_def split: sum.split)

lemma create_user_pres:
  assumes "hub_inv s" "known_role (h_roles s) r"
    and "\<And>db u. hub_inv (s\<lparr> h_acc := db \<rparr>) \<Longrightarrow> hub_inv (fst (k (db, u)))"
  shows "hub_inv (fst (attempt (create_user n pw r d now (h_acc s)) s k))"
  using assms hub_create_user by (auto simp: attempt_def split: sum.split)

lemma create_first_pres:
  assumes "hub_inv s" "known_role (h_roles s) r"
    and "\<And>db u. hub_inv (s\<lparr> h_acc := db \<rparr>) \<Longrightarrow> hub_inv (fst (k (db, u)))"
  shows "hub_inv (fst (attempt (createFirstUser n pw r d now (h_acc s)) s k))"
  using assms hub_create_first by (auto simp: attempt_def split: sum.split)

lemma invite_create_pres:
  assumes "hub_inv s" "\<And>db t iv. hub_inv (s\<lparr> h_acc := db \<rparr>) \<Longrightarrow> hub_inv (fst (k (db, t, iv)))"
  shows "hub_inv (fst (attempt (invite_create h tok kind r uid creator ttl now (h_acc s)) s k))"
  using assms hub_invite_create by (auto simp: attempt_def split: sum.split)

lemma issueSession_pres:
  assumes "hub_inv s" "\<And>s1. hub_inv s1 \<Longrightarrow> hub_inv (fst (k s1))"
  shows "hub_inv (fst (attempt (issueSession ev rq i s) s k))"
  using assms hub_issueSession by (auto simp: attempt_def split: sum.split)

lemma claim_pres:
  assumes "hub_inv s"
    and "\<And>db. hub_inv (s\<lparr> h_acc := db \<rparr>) \<Longrightarrow> hub_inv (fst (f db))"
    and "\<And>db. hub_inv (s\<lparr> h_acc := db \<rparr>) \<Longrightarrow> hub_inv (fst (g db))"
  shows "hub_inv (fst (case tryClaim th now (h_acc s) of (db, True) \<Rightarrow> g db | (db, False) \<Rightarrow> f db))"
proof -
  obtain db b where e: "tryClaim th now (h_acc s) = (db, b)" by (meson surj_pair)
  from hub_session_ops(5) [OF assms(1) e] e assms(2,3) [of db] show ?thesis by (cases b) auto
qed

lemmas store_pres = role_exists_pres can_grant_pres role_create_pres create_user_pres create_first_pres
  invite_create_pres issueSession_pres claim_pres requireUser_pres [where P = hub_inv]
  requirePerm_pres [where P = hub_inv] with_body_pres [where P = hub_inv]

section \<open>The handlers\<close>

lemmas hub_pres = hub_user_updates hub_session_ops

lemma roles_handlers_inv:
  assumes "hub_inv s"
  shows "hub_inv (fst (roles_GET ev rq s))" "hub_inv (fst (role_DELETE ev n rq s))"
proof -
  show "hub_inv (fst (roles_GET ev rq s))" unfolding roles_GET_def
    by (intro hub_handler assms) (auto split: prod.splits intro: role_list_inv [OF assms])
  show "hub_inv (fst (role_DELETE ev n rq s))" unfolding role_DELETE_def
    by (intro hub_handler assms)
      (auto split: prod.splits update_result.splits dest: role_remove_hub [OF assms])
qed

lemma roles_POST_inv: "hub_inv s \<Longrightarrow> hub_inv (fst (roles_POST ev rq s))"
  unfolding roles_POST_def Let_def
  by (intro store_pres) (auto split: option.split intro!: store_pres)

lemma role_PATCH_inv:
  assumes "hub_inv s"
  shows "hub_inv (fst (role_PATCH ev n rq s))"
proof -
  have upd: "hub_inv (fst (case role_update n label perms (ev_now ev) r of
             (r2, Protected) \<Rightarrow> (s\<lparr> h_roles := r2 \<rparr>, e1) | (r2, Missing) \<Rightarrow> (s\<lparr> h_roles := r2 \<rparr>, e2)
           | (r2, _) \<Rightarrow> (case role_get n (ev_now ev) r2 of
                (r3, info) \<Rightarrow> ((audit ev rq a d (s\<lparr> h_roles := r2 \<rparr>))\<lparr> h_roles := r3 \<rparr>, f info))))"
    if "hub_inv (s\<lparr> h_roles := r \<rparr>)" for r label perms e1 e2 a d f
  proof -
    obtain r2 res where u: "role_update n label perms (ev_now ev) r = (r2, res)" by (meson surj_pair)
    have i2: "hub_inv (s\<lparr> h_roles := r2 \<rparr>)" using role_update_hub [OF that] u by simp
    obtain r3 info where g: "role_get n (ev_now ev) r2 = (r3, info)" by (meson surj_pair)
    have "hub_inv ((audit ev rq a d (s\<lparr> h_roles := r2 \<rparr>))\<lparr> h_roles := r3 \<rparr>)"
      by (rule role_get_inv [where now = "ev_now ev" and n = n]) (simp_all add: i2 g)
    with u g i2 show ?thesis by (cases res) simp_all
  qed
  obtain r info where g: "role_get n (ev_now ev) (h_roles s) = (r, info)" by (meson surj_pair)
  have i: "hub_inv (s\<lparr> h_roles := r \<rparr>)" using role_get_inv [OF assms g] .
  have gs: "h_roles (audit ev rq a d (s\<lparr> h_roles := r2 \<rparr>)) = r2" for a d r2 by simp
  show ?thesis unfolding role_PATCH_def Let_def g prod.case gs
    by (intro hub_handler assms) (cases info; auto split: option.split intro!: hub_handler upd i)
qed


lemma users_POST_inv: "hub_inv s \<Longrightarrow> hub_inv (fst (users_POST ev rq s))"
  unfolding users_POST_def Let_def
  by (intro store_pres) (auto split: option.split json.split intro!: store_pres)

lemma user_patch_role_inv:
  assumes "hub_inv s" "\<And>s'. hub_inv s' \<Longrightarrow> hub_inv (fst (k s'))"
  shows "hub_inv (fst (user_patch_role ev rq actor target b s k))"
  unfolding user_patch_role_def Let_def
  by (auto split: option.split json.split simp: assms hub_pres intro!: store_pres assms(2))

lemma user_patch_disabled_inv:
  assumes "hub_inv s" "\<And>s'. hub_inv s' \<Longrightarrow> hub_inv (fst (k s'))"
  shows "hub_inv (fst (user_patch_disabled ev rq actor target b s k))"
  unfolding user_patch_disabled_def Let_def
  by (auto split: option.split json.split simp: assms hub_pres intro!: assms(2))

lemma user_patch_name_inv: "hub_inv s \<Longrightarrow> hub_inv (user_patch_name ev rq target b s)"
  by (auto simp: user_patch_name_def hub_pres split: option.split)

lemma user_PATCH_inv:
  assumes "hub_inv s"
  shows "hub_inv (fst (user_PATCH ev raw rq s))"
  unfolding user_PATCH_def
  by (intro hub_handler assms)
    (auto split: option.split simp: assms
      intro!: hub_handler user_patch_role_inv user_patch_disabled_inv user_patch_name_inv)

lemma user_handlers_inv:
  assumes "hub_inv s"
  shows "hub_inv (fst (users_GET rq s))" "hub_inv (fst (user_DELETE ev raw rq s))"
    "hub_inv (fst (user_reset_POST ev raw rq s))" "hub_inv (fst (user_sessions_GET ev raw rq s))"
    "hub_inv (fst (user_sessions_DELETE ev raw rq s))" "hub_inv (fst (user_session_DELETE ev raw pre rq s))"
proof -
  show "hub_inv (fst (users_GET rq s))" unfolding users_GET_def by (intro hub_handler assms) (simp add: assms)
  show "hub_inv (fst (user_DELETE ev raw rq s))" unfolding user_DELETE_def Let_def
    by (intro hub_handler assms) (auto split: option.split simp: assms hub_pres)
  show "hub_inv (fst (user_reset_POST ev raw rq s))" unfolding user_reset_POST_def Let_def
    by (intro hub_handler assms)
      (auto split: option.split simp: assms hub_pres intro!: hub_handler hub_invite_create)
  show "hub_inv (fst (user_sessions_GET ev raw rq s))" unfolding user_sessions_GET_def
    by (intro hub_handler assms) (auto split: option.split simp: assms)
  show "hub_inv (fst (user_sessions_DELETE ev raw rq s))" unfolding user_sessions_DELETE_def
    by (intro hub_handler assms) (auto split: option.split simp: assms hub_pres)
  show "hub_inv (fst (user_session_DELETE ev raw pre rq s))" unfolding user_session_DELETE_def
    by (intro hub_handler assms) (auto split: option.split simp: assms hub_pres)
qed

lemma invite_handlers_inv:
  assumes "hub_inv s"
  shows "hub_inv (fst (invites_GET rq s))" "hub_inv (fst (invites_DELETE ev pre rq s))" "hub_inv (fst (invite_GET ev t s))"
proof -
  show "hub_inv (fst (invites_GET rq s))" unfolding invites_GET_def by (intro hub_handler assms) (simp add: assms)
  show "hub_inv (fst (invites_DELETE ev pre rq s))" unfolding invites_DELETE_def
    by (intro hub_handler assms) (auto split: option.split simp: assms hub_pres)
  show "hub_inv (fst (invite_GET ev t s))" unfolding invite_GET_def
    by (auto split: option.split simp: assms)
qed

lemma invites_POST_inv:
  assumes "hub_inv s"
  shows "hub_inv (fst (invites_POST num ev rq s))"
proof -
  have grant: "hub_inv (fst (if \<not> known then (s1, e) else attempt (hub_can_grant ev rq role s1) s1 k))"
    if "hub_inv s1" "\<And>s2 b. hub_inv s2 \<Longrightarrow> hub_inv (fst (k (s2, b)))" for known s1 e role k
    using that by (auto intro: can_grant_pres)
  have s1: "hub_inv s1" if "(case r of None \<Rightarrow> (s, True) | Some (JStr r) \<Rightarrow> hub_role_exists ev r s | Some _ \<Rightarrow> (s, False))
      = (s1, known)" for r s1 known
    using that hub_role_exists_spec [OF assms] assms by (auto split: option.splits json.splits)
  show ?thesis unfolding invites_POST_def
    by (intro store_pres assms) (auto split: prod.split dest!: s1 simp: Let_def intro!: store_pres)
qed

lemma accept_reset_inv: "hub_inv s \<Longrightarrow> hub_inv (fst (accept_reset ev rq iv pw s))"
  unfolding accept_reset_def Let_def
  by (auto split: option.split simp: hub_pres intro!: store_pres)

lemma accept_invite_inv:
  assumes "hub_inv s"
  shows "hub_inv (fst (accept_invite ev rq iv b pw s))"
proof -
  have create: "hub_inv (s1\<lparr> h_acc := db2 \<rparr>)"
    if "hub_inv (s1\<lparr> h_acc := db \<rparr>)" "create_user n pw r d now db = Inr (db2, u)" "known_role (h_roles s1) r"
    for s1 db db2 n pw r d now u
    using hub_create_user [of "s1\<lparr> h_acc := db \<rparr>" n pw r d now db2 u] that by simp
  show ?thesis unfolding accept_invite_def Let_def
    by (auto split: option.split sum.split simp: assms intro!: store_pres intro: create)
qed

lemma invite_POST_inv: "hub_inv s \<Longrightarrow> hub_inv (fst (invite_POST ev tok rq s))"
  unfolding invite_POST_def Let_def
  by (auto split: option.split intro!: store_pres accept_reset_inv accept_invite_inv)

lemma setup_inv:
  "hub_inv s \<Longrightarrow> hub_inv (fst (setup_GET ev s))" "hub_inv s \<Longrightarrow> hub_inv (fst (setup_POST ev rq s))"
  unfolding setup_GET_def setup_POST_def Let_def
  by (auto split: option.split intro!: store_pres known_builtin admin_builtin)


lemma bootstrap_inv:
  assumes "hub_inv s" "bootstrapAdmin ev eu ep ed mn s = Inr (s', res)"
  shows "hub_inv s'"
proof -
  have aud: "hub_inv (s1\<lparr> h_audit := l \<rparr>) = hub_inv s1" for s1 l by (simp add: hub_inv_def)
  show ?thesis using assms hub_create_user [OF assms(1) _ known_builtin [OF admin_builtin]]
    by (auto simp: bootstrapAdmin_def Let_def aud split: if_splits sum.splits)
qed

lemma external_inv:
  assumes "hub_inv s" "known_role (h_roles s) role"
    and "resolveExternalUser b36 src ext n d role sync now (h_acc s) = Inr (db, u)"
  shows "hub_inv (s\<lparr> h_acc := db \<rparr>)"
proof (cases "rowByExternal src ext (h_acc s)")
  case (Some existing)
  have "known_role (h_roles s) (external_role existing role sync (h_acc s))"
    using assms(2) known_builtin [OF admin_builtin] by (simp add: external_role_def)
  then have "hub_inv (s\<lparr> h_acc := syncExternal (u_id existing) d (external_role existing role sync (h_acc s)) (h_acc s) \<rparr>)"
    using hub_user_updates(7) [OF assms(1)] by (simp add: on_acc_def)
  moreover have "db = (if sync then syncExternal (u_id existing) d (external_role existing role sync (h_acc s)) (h_acc s)
      else h_acc s)" using assms(3) Some by (simp add: resolveExternalUser_def Let_def)
  moreover have "hub_inv (s\<lparr> h_acc := h_acc s \<rparr>)" using assms(1) by simp
  ultimately show ?thesis by (cases sync) simp_all
next
  case None
  then obtain name pu where "createExternal name d role src ext now (h_acc s) = Inr (db, pu)"
    using assms(3) by (auto simp: resolveExternalUser_def Let_def map_sum_def split: sum.splits if_splits)
  then show ?thesis using hub_create_external assms by blast
qed

lemma login_account_inv:
  assumes "hub_inv s" "login_account ldap b36 ev rq n pw s = Inr res"
  shows "(\<forall>s1. res = Inl s1 \<longrightarrow> hub_inv s1) \<and> (\<forall>s1 f. res = Inr (s1, f) \<longrightarrow> hub_inv s1)"
proof -
  have known: "hub_inv s1 \<and> (m = Some x \<longrightarrow> known_role (h_roles s1) x)" if "knownRole ev r s = (s1, m)" for r s1 m x
    using that hub_role_exists_spec [OF assms(1)] by (auto simp: knownRole_def split: prod.splits if_splits)
  have ext: "hub_inv (s1\<lparr> h_acc := db \<rparr>)"
    if k: "knownRole ev r s = (s1, Some r')"
      and "resolveExternalUser b36 src ext n d r sync now (h_acc s1) = Inr (db, u)" for r r' s1 src ext n d sync now db u
  proof -
    have "r' = r" using k by (auto simp: knownRole_def split: prod.splits if_splits)
    with known [OF k, of r] have "hub_inv s1" "known_role (h_roles s1) r" by auto
    with that(2) external_inv show ?thesis by blast
  qed
  show ?thesis using assms(2) known ext assms(1)
    by (auto simp: login_account_def Let_def split: if_splits option.splits sum.splits prod.splits)
qed

lemma login_fail_inv: "hub_inv s \<Longrightarrow> hub_inv (fst (login_fail ev rq n s))"
  by (simp add: login_fail_def Let_def)

lemma login_finish_inv: "hub_inv s \<Longrightarrow> hub_inv (fst (login_finish ev rq n row u s))"
  unfolding login_finish_def Let_def by (intro store_pres) (simp_all add: hub_pres)

lemma second_factor_inv:
  assumes "hub_inv s" "login_second_factor ev row code s = Inr (s', b)"
  shows "hub_inv s'"
proof -
  have "hub_inv (s\<lparr> h_acc := db \<rparr>)" if "consumeBackupCode i h (h_acc s) = Inr (db, ok)" for i h db ok
  proof -
    obtain rest where "db = fst (consume_write i rest (h_acc s))"
      using \<open>consumeBackupCode i h (h_acc s) = Inr (db, ok)\<close>
      by (auto simp: consumeBackupCode_def split: sum.splits) (metis fst_conv)
    moreover have "hub_inv (s\<lparr> h_acc := fst (consume_write i rest (h_acc s)) \<rparr>)"
      using upd_hub [OF assms(1) _ known_builtin [OF admin_builtin], where i = i] assms(1)
      by (auto simp: consume_write_def on_acc_def keeps_identity_def split: option.split)
    ultimately show ?thesis by simp
  qed
  with assms show ?thesis
    by (auto simp: login_second_factor_def map_sum_def split: if_splits sum.splits)
qed

lemma login_checked_inv: "hub_inv s \<Longrightarrow> hub_inv (fst (login_checked ev rq n code f s))"
  unfolding login_checked_def
  by (auto split: option.split intro!: login_fail_inv login_finish_inv attempt_pres [where P = hub_inv]
      dest: second_factor_inv)

lemma login_POST_inv:
  assumes "hub_inv s"
  shows "hub_inv (fst (login_POST ldap b36 ev rq s))"
  unfolding login_POST_def Let_def
  using assms login_account_inv [OF assms]
  by (intro store_pres)
    (auto simp: attempt_def split: sum.split intro!: login_fail_inv login_checked_inv)

lemma account_handlers_inv:
  assumes "hub_inv s"
  shows "hub_inv (fst (logout_POST ev rq s))" "hub_inv (fst (account_GET rq s))"
    "hub_inv (fst (account_PATCH ev rq s))" "hub_inv (fst (account_totp_POST fresh codes ev rq s))"
    "hub_inv (fst (account_sessions_DELETE ev rq s))" "hub_inv (fst (account_session_DELETE ev pre rq s))"
proof -
  show "hub_inv (fst (logout_POST ev rq s))" unfolding logout_POST_def
    by (auto split: option.split simp: assms hub_pres)
  show "hub_inv (fst (account_GET rq s))" unfolding account_GET_def by (intro store_pres assms) (simp add: assms)
  show "hub_inv (fst (account_PATCH ev rq s))" unfolding account_PATCH_def Let_def
    by (intro store_pres assms) (auto split: option.split simp: assms hub_pres)
  show "hub_inv (fst (account_totp_POST fresh codes ev rq s))" unfolding account_totp_POST_def Let_def
    by (intro store_pres assms) (auto split: option.split simp: assms hub_pres)
  show "hub_inv (fst (account_sessions_DELETE ev rq s))" unfolding account_sessions_DELETE_def
    by (intro store_pres assms) (simp add: assms hub_pres)
  show "hub_inv (fst (account_session_DELETE ev pre rq s))" unfolding account_session_DELETE_def
    by (intro store_pres assms) (auto split: option.split simp: assms hub_pres)
qed

end
