(* ===== verification/Admin_Stable.thy ===== *)
theory Admin_Stable
  imports Admin_Inv
begin

text \<open>
  Which requests can touch an account predicate.  \<open>stable_accounts\<close> is the contract of a predicate
  that only depends on who exists with which role and who is disabled, and that new accounts do not
  break; inside it every handler that neither changes a role, disables nor removes anybody is shown
  to keep it.  It is interpreted on the existence of an enabled administrator.
\<close>

locale stable_accounts =
  fixes P :: "accounts \<Rightarrow> bool"
  assumes same_users: "users db' = users db \<Longrightarrow> P db \<Longrightarrow> P db'"
    and other_column: "(\<And>r. u_id (f r) = u_id r \<and> u_role (f r) = u_role r \<and> u_disabled_at (f r) = u_disabled_at r)
          \<Longrightarrow> P db \<Longrightarrow> P (upd_user i f db)"
    and new_account: "users db' = users db @ [r] \<Longrightarrow> P db \<Longrightarrow> P db'"
begin

definition Q :: "hub \<Rightarrow> bool" where
  "Q s = P (h_acc s)"

lemma Q_simps [simp]:
  "Q (audit ev rq a d s) = Q s" "Q (audit_as ev uid n a d ip s) = Q s" "Q (s\<lparr> h_roles := r \<rparr>) = Q s"
  "Q (s\<lparr> h_attempts := t \<rparr>) = Q s"
  by (simp_all add: Q_def)

lemma Q_session_ops:
  assumes "Q s"
  shows "Q (on_acc (revokeUserSessions i e) s)" "Q (on_acc (session_revoke th) s)"
    "Q (on_acc (revokeForUser i now) s)" "Q (on_acc (invite_revoke th now) s)"
  using assms by (auto simp: Q_def intro: same_users)

lemma Q_columns:
  assumes "Q s"
  shows "Q (on_acc (setPassword i h) s)" "Q (on_acc (setDisplayName i d) s)" "Q (on_acc (touchLogin i now) s)"
    "Q (on_acc (setTotp i sec hs) s)"
  using assms by (auto simp: Q_def user_updates intro!: other_column)

lemma created_users: "insert_user n d pw r src ext now db = Inr (db', i) \<Longrightarrow> \<exists>row. users db' = users db @ [row]"
  by (cases rule: insert_user_cases) auto

lemma P_insert: "P db \<Longrightarrow> insert_user n d pw r src ext now db = Inr (db', i) \<Longrightarrow> P db'"
  using created_users new_account by metis

lemma P_creation:
  shows "P db \<Longrightarrow> create_user n pw r d now db = Inr (db', u) \<Longrightarrow> P db'"
    and "P db \<Longrightarrow> createExternal n d r src ext now db = Inr (db', u) \<Longrightarrow> P db'"
    and "P db \<Longrightarrow> createFirstUser n pw r d now db = Inr (db', fu) \<Longrightarrow> P db'"
  using P_insert creation_cases by metis+

lemma Q_claim: "Q s \<Longrightarrow> tryClaim th now (h_acc s) = (db, b) \<Longrightarrow> P db"
  unfolding Q_def by (rule same_users [of db "h_acc s"]) (use users_session_ops(5) [of th now "h_acc s"] in simp_all)

lemma Q_role_exists: "Q s \<Longrightarrow> hub_role_exists ev n s = (s1, b) \<Longrightarrow> Q s1"
  by (auto simp: hub_role_exists_def Q_def split: prod.splits)

lemma Q_can_grant: "Q s \<Longrightarrow> hub_can_grant ev rq n s = Inr (s1, b) \<Longrightarrow> Q s1"
  by (cases "canGrantRole (h_roles s) (rq_perms rq) n (ev_now ev)") (auto simp: hub_can_grant_def Q_def)

lemma Q_issueSession: "Q s \<Longrightarrow> issueSession ev rq i s = Inr s' \<Longrightarrow> Q s'"
proof -
  assume q: "Q s" and i: "issueSession ev rq i s = Inr s'"
  then obtain db t where "session_create (ev_sha ev) (ev_token ev) i (ev_session_ttl ev) (Some (rq_ip rq))
      (rq_agent rq) (ev_now ev) (h_acc s) = Inr (db, t)" "s' = s\<lparr> h_acc := db \<rparr>"
    by (cases "session_create (ev_sha ev) (ev_token ev) i (ev_session_ttl ev) (Some (rq_ip rq))
      (rq_agent rq) (ev_now ev) (h_acc s)") (auto simp: issueSession_def)
  then show "Q s'" using q same_users [of db "h_acc s"]
    by (auto simp: Q_def session_create_def split: if_splits)
qed

lemma P_session_ops:
  assumes "P db"
  shows "P (revokeUserSessions i e db)" "P (session_revoke th db)" "P (revokeForUser i now db)"
    "P (invite_revoke th now db)"
  using assms by (auto intro: same_users)

lemma P_invite_create:
  "invite_create h tok kind r uid creator ttl now db0 = Inr (db, t, iv) \<Longrightarrow> P db0 \<Longrightarrow> P db"
  by (rule same_users [of db db0]) (auto simp: invite_create_def Let_def split: if_splits option.splits)

lemmas Q_rules = requireUser_pres [where P = Q] requirePerm_pres [where P = Q] with_body_pres [where P = Q]
  attempt_pres [where P = Q]

lemma role_handlers_Q:
  assumes "Q s"
  shows "Q (fst (roles_GET ev rq s))" "Q (fst (roles_POST ev rq s))" "Q (fst (role_PATCH ev n rq s))"
    "Q (fst (role_DELETE ev n rq s))"
proof -
  show "Q (fst (roles_GET ev rq s))" unfolding roles_GET_def
    by (intro Q_rules assms) (simp add: assms split: prod.split)
  show "Q (fst (roles_POST ev rq s))" unfolding roles_POST_def Let_def
    by (intro Q_rules assms)
      (auto simp: assms attempt_def dest: Q_role_exists [OF assms] split: option.split prod.split bool.split sum.split)
  show "Q (fst (role_PATCH ev n rq s))" unfolding role_PATCH_def Let_def
    by (intro Q_rules assms)
      (auto simp: assms intro!: Q_rules split: option.split prod.split update_result.split)
  show "Q (fst (role_DELETE ev n rq s))" unfolding role_DELETE_def
    by (intro Q_rules assms) (simp add: assms split: prod.split update_result.split)
qed

lemma user_handlers_Q:
  assumes "Q s"
  shows "Q (fst (users_GET rq s))" "Q (fst (user_reset_POST ev raw rq s))" "Q (fst (user_sessions_GET ev raw rq s))"
    "Q (fst (user_sessions_DELETE ev raw rq s))" "Q (fst (user_session_DELETE ev raw pre rq s))"
proof -
  show "Q (fst (users_GET rq s))" unfolding users_GET_def by (intro Q_rules assms) (simp add: assms)
  have link: "P db" if "invite_create h tok kind r uid c ttl now
      (revokeUserSessions i None (revokeForUser i now' (h_acc s))) = Inr (db, t, iv)"
    for h tok kind r uid c ttl now now' i db t iv
    using P_invite_create [OF that] assms by (simp add: Q_def P_session_ops)
  show "Q (fst (user_reset_POST ev raw rq s))" unfolding user_reset_POST_def Let_def
    by (intro Q_rules assms)
      (auto simp: assms Q_session_ops Q_def attempt_def split: option.split sum.split
        intro: link P_session_ops assms [unfolded Q_def])
  show "Q (fst (user_sessions_GET ev raw rq s))" unfolding user_sessions_GET_def
    by (intro Q_rules assms) (auto simp: assms split: option.split)
  show "Q (fst (user_sessions_DELETE ev raw rq s))" unfolding user_sessions_DELETE_def
    by (intro Q_rules assms) (auto simp: assms Q_session_ops split: option.split)
  show "Q (fst (user_session_DELETE ev raw pre rq s))" unfolding user_session_DELETE_def
    by (intro Q_rules assms) (auto simp: assms Q_session_ops split: option.split)
qed


lemma invite_handlers_Q:
  assumes "Q s"
  shows "Q (fst (invites_GET rq s))" "Q (fst (invites_DELETE ev pre rq s))" "Q (fst (invite_GET ev t s))"
    "Q (fst (invites_POST num ev rq s))"
proof -
  show "Q (fst (invites_GET rq s))" unfolding invites_GET_def by (intro Q_rules assms) (simp add: assms)
  show "Q (fst (invites_DELETE ev pre rq s))" unfolding invites_DELETE_def
    by (intro Q_rules assms) (auto simp: assms Q_session_ops split: option.split)
  show "Q (fst (invite_GET ev t s))" unfolding invite_GET_def by (auto simp: assms split: option.split)
  have s1: "Q s1" if "(case r of None \<Rightarrow> (s, True) | Some (JStr r) \<Rightarrow> hub_role_exists ev r s | Some _ \<Rightarrow> (s, False))
      = (s1, known)" for r s1 known
    using that Q_role_exists [OF assms] assms by (auto split: option.splits json.splits)
  have create: "Q (fst (attempt (invite_create h tok kind r uid c ttl now (h_acc s2)) s2
      (\<lambda>(db, token, _). (audit ev rq a d (s2\<lparr> h_acc := db \<rparr>), f token))))" if "Q s2" for s2 h tok kind r uid c ttl now a d f
    using that P_invite_create by (auto simp: attempt_def Q_def split: sum.split)
  show "Q (fst (invites_POST num ev rq s))" unfolding invites_POST_def
    by (intro Q_rules assms)
      (auto split: prod.split dest!: s1 simp: Let_def intro!: create Q_rules dest: Q_can_grant)
qed

lemma users_POST_Q: "Q s \<Longrightarrow> Q (fst (users_POST ev rq s))"
proof -
  assume q: "Q s"
  have create: "Q (fst (attempt (create_user n pw r d now (h_acc s2)) s2
      (\<lambda>(db, u). (audit ev rq a e (s2\<lparr> h_acc := db \<rparr>), f u))))" if "Q s2" for s2 n pw r d now a e f
    using that P_creation(1) by (auto simp: attempt_def Q_def split: sum.split)
  show ?thesis unfolding users_POST_def Let_def
    by (intro Q_rules q)
      (auto simp: q split: option.split json.split prod.split bool.split dest!: Q_role_exists [OF q]
        intro!: create Q_rules dest: Q_can_grant)
qed

lemma accept_Q:
  assumes "Q s"
  shows "Q (fst (invite_POST ev tok rq s))"
proof -
  have issue: "Q (fst (attempt (issueSession ev rq i s1) s1 (\<lambda>s2. (audit_as ev uid n a d ip s2, f))))"
    if "Q s1" for s1 i uid n a d ip f
    using that Q_issueSession by (auto simp: attempt_def split: sum.split)
  have reset: "Q (fst (accept_reset ev rq iv pw s))" for iv pw
    unfolding accept_reset_def Let_def using Q_claim [OF assms]
    by (auto simp: assms split: option.split prod.split bool.split intro!: issue Q_session_ops Q_columns)
      (auto simp: Q_def)
  have exists: "Q (fst (case hub_role_exists ev n s1 of (s2, True) \<Rightarrow> g s2 | (s2, False) \<Rightarrow> f s2))"
    if "Q s1" "\<And>s2. Q s2 \<Longrightarrow> Q (fst (f s2))" "\<And>s2. Q s2 \<Longrightarrow> Q (fst (g s2))" for n s1 f g
    using that Q_role_exists by (auto split: prod.split bool.split)
  have claim: "Q (fst (case tryClaim th now (h_acc s1) of (db, True) \<Rightarrow> g db | (db, False) \<Rightarrow> f db))"
    if "Q s1" "\<And>db. P db \<Longrightarrow> Q (fst (f db))" "\<And>db. P db \<Longrightarrow> Q (fst (g db))" for th now s1 f g
    using that Q_claim by (auto split: prod.split bool.split)
  have create: "Q (fst (case create_user n pw r d now db of Inl x \<Rightarrow> f x | Inr (db2, u) \<Rightarrow> g db2 u))"
    if "P db" "\<And>x. Q (fst (f x))" "\<And>db2 u. P db2 \<Longrightarrow> Q (fst (g db2 u))" for n pw r d now db f g
    using that P_creation(1) by (auto split: sum.split)
  have acc: "Q (s1\<lparr> h_acc := db \<rparr>) = P db" for s1 db by (simp add: Q_def)
  have accept: "Q (fst (accept_invite ev rq iv b pw s))" for iv b pw
    unfolding accept_invite_def Let_def
    by (auto simp: assms acc split: option.split intro!: exists claim create issue)
  show ?thesis unfolding invite_POST_def Let_def
    by (auto simp: assms split: option.split intro!: Q_rules reset accept)
qed


lemma setup_Q:
  assumes "Q s"
  shows "Q (fst (setup_GET ev s))" "Q (fst (setup_POST ev rq s))"
proof -
  show "Q (fst (setup_GET ev s))" using assms by (simp add: setup_GET_def)
  have issue: "Q (fst (attempt (issueSession ev rq i s1) s1 (\<lambda>s2. (audit_as ev uid n a d ip s2, f))))"
    if "Q s1" for s1 i uid n a d ip f
    using that Q_issueSession by (auto simp: attempt_def split: sum.split)
  have first: "Q (fst (attempt (createFirstUser n pw r d now (h_acc s1)) s1 k))"
    if "Q s1" "\<And>db fu. P db \<Longrightarrow> Q (fst (k (db, fu)))" for n pw r d now s1 k
    using that P_creation(3) by (auto simp: attempt_def Q_def split: sum.split)
  have acc: "Q (s1\<lparr> h_acc := db \<rparr>) = P db" for s1 db by (simp add: Q_def)
  show "Q (fst (setup_POST ev rq s))" unfolding setup_POST_def Let_def
    by (auto simp: assms acc split: option.split intro!: Q_rules(3) first issue)
qed

lemma account_handlers_Q:
  assumes "Q s"
  shows "Q (fst (logout_POST ev rq s))" "Q (fst (account_GET rq s))" "Q (fst (account_PATCH ev rq s))"
    "Q (fst (account_totp_POST fresh codes ev rq s))" "Q (fst (account_sessions_DELETE ev rq s))"
    "Q (fst (account_session_DELETE ev pre rq s))"
proof -
  note ops = Q_session_ops Q_columns
  show "Q (fst (logout_POST ev rq s))" unfolding logout_POST_def by (auto split: option.split simp: assms ops)
  show "Q (fst (account_GET rq s))" unfolding account_GET_def by (intro Q_rules assms) (simp add: assms)
  show "Q (fst (account_PATCH ev rq s))" unfolding account_PATCH_def Let_def
    by (intro Q_rules assms) (auto split: option.split simp: assms ops)
  show "Q (fst (account_totp_POST fresh codes ev rq s))" unfolding account_totp_POST_def Let_def
    by (intro Q_rules assms) (auto split: option.split simp: assms ops)
  show "Q (fst (account_sessions_DELETE ev rq s))" unfolding account_sessions_DELETE_def
    by (intro Q_rules assms) (simp add: assms ops)
  show "Q (fst (account_session_DELETE ev pre rq s))" unfolding account_session_DELETE_def
    by (intro Q_rules assms) (auto split: option.split simp: assms ops)
qed

lemma Q_user_patch_name: "Q s \<Longrightarrow> Q (user_patch_name ev rq target b s)"
  by (auto simp: user_patch_name_def Q_columns split: option.split)

lemma Q_second_factor: "Q s \<Longrightarrow> login_second_factor ev row code s = Inr (s', b) \<Longrightarrow> Q s'"
proof -
  assume q: "Q s" and r: "login_second_factor ev row code s = Inr (s', b)"
  have "P db" if "consumeBackupCode i h (h_acc s) = Inr (db, ok)" for i h db ok
  proof -
    from that obtain rest where "db = fst (consume_write i rest (h_acc s))"
      by (auto simp: consumeBackupCode_def split: sum.splits) (metis fst_conv)
    with q show ?thesis
      by (auto simp: Q_def consume_write_def split: option.split intro!: other_column)
  qed
  with q r show "Q s'"
    by (auto simp: login_second_factor_def map_sum_def Q_def split: if_splits sum.splits)
qed

lemma login_checked_Q: "Q s \<Longrightarrow> Q (fst (login_checked ev rq n code f s))"
proof -
  assume q: "Q s"
  have fail: "Q s1 \<Longrightarrow> Q (fst (login_fail ev rq n s1))" for s1 by (simp add: login_fail_def Let_def)
  have finish: "Q s1 \<Longrightarrow> Q (fst (login_finish ev rq n row u s1))" for row u s1
    unfolding login_finish_def Let_def
    by (rule Q_rules(4)) (auto simp: Q_columns dest: Q_issueSession [rotated])
  show ?thesis unfolding login_checked_def
    by (auto simp: q split: option.split intro!: fail finish Q_rules(4) dest: Q_second_factor [OF q])
qed

text \<open>A login only needs the predicate to survive what the directory may change.\<close>

lemma login_POST_Q:
  assumes "Q s"
    and ext: "\<And>src e n d role sync now db u. resolveExternalUser b36 src e n d role sync now (h_acc s) = Inr (db, u) \<Longrightarrow> P db"
  shows "Q (fst (login_POST ldap b36 ev rq s))"
proof -
  have known: "h_acc s1 = h_acc s \<and> Q s1" if "knownRole ev r s = (s1, m)" for r s1 m
    using that assms(1) by (auto simp: knownRole_def hub_role_exists_def Q_def split: prod.splits)
  have acc: "Q (s1\<lparr> h_acc := db \<rparr>) = P db" for s1 db by (simp add: Q_def)
  have account: "(\<forall>s1. res = Inl s1 \<longrightarrow> Q s1) \<and> (\<forall>s1 f. res = Inr (s1, f) \<longrightarrow> Q s1)"
    if "login_account ldap b36 ev rq n pw s = Inr res" for n pw res
    using that assms(1) known ext
    by (auto simp: login_account_def Let_def acc split: if_splits option.splits sum.splits prod.splits)
  have fail: "Q s1 \<Longrightarrow> Q (fst (login_fail ev rq n s1))" for n s1 by (simp add: login_fail_def Let_def)
  show ?thesis unfolding login_POST_def Let_def
    using assms(1) account
    by (intro Q_rules(3)) (auto simp: attempt_def split: sum.split intro!: fail login_checked_Q)
qed

end

section \<open>Somebody is administrator\<close>

definition enabled_admin :: "user_row \<Rightarrow> bool" where
  "enabled_admin u = (u_role u = ''admin'' \<and> u_disabled_at u = None)"

definition has_admin :: "accounts \<Rightarrow> bool" where
  "has_admin db = (\<exists>u \<in> set (users db). enabled_admin u)"

definition other_admin :: "nat \<Rightarrow> accounts \<Rightarrow> bool" where
  "other_admin i db = (\<exists>u \<in> set (users db). enabled_admin u \<and> u_id u \<noteq> i)"

interpretation sa: stable_accounts has_admin
proof unfold_locales
  fix f :: "user_row \<Rightarrow> user_row" and db i
  assume f: "\<And>r. u_id (f r) = u_id r \<and> u_role (f r) = u_role r \<and> u_disabled_at (f r) = u_disabled_at r"
    and "has_admin db"
  then obtain u where u: "u \<in> set (users db)" "enabled_admin u" by (auto simp: has_admin_def)
  then have "(if u_id u = i then f u else u) \<in> set (users (upd_user i f db))"
    by (auto simp: upd_user_def upd_where_def)
  moreover have "enabled_admin (if u_id u = i then f u else u)" using u(2) f by (simp add: enabled_admin_def)
  ultimately show "has_admin (upd_user i f db)" by (auto simp: has_admin_def)
qed (auto simp: has_admin_def)

lemma lastAdmin_other: "lastAdmin db i \<longleftrightarrow> \<not> other_admin i db"
  by (auto simp: lastAdmin_def other_admin_def admins_def toPublic_def filter_empty_conv enabled_admin_def)

lemma other_has: "other_admin i db \<Longrightarrow> has_admin db"
  by (auto simp: other_admin_def has_admin_def)

lemma other_admin_upd: "other_admin i db \<Longrightarrow> other_admin i (upd_user i f db)"
proof -
  assume "other_admin i db"
  then obtain u where u: "u \<in> set (users db)" "enabled_admin u" "u_id u \<noteq> i" by (auto simp: other_admin_def)
  then have "u \<in> set (users (upd_user i f db))" by (auto simp: upd_user_def upd_where_def image_iff)
  with u show ?thesis by (auto simp: other_admin_def)
qed

lemma other_admin_users: "users db' = users db \<Longrightarrow> other_admin i db' = other_admin i db"
  by (simp add: other_admin_def)


section \<open>Requests that change roles or remove people\<close>

lemma has_admin_other:
  assumes "acc_inv db" "has_admin db" "r \<in> set (users db)" "\<not> enabled_admin r"
  shows "other_admin (u_id r) db"
proof -
  obtain u where u: "u \<in> set (users db)" "enabled_admin u" using assms(2) by (auto simp: has_admin_def)
  with assms have "u_id u \<noteq> u_id r" using unique_onD [OF acc_invD(5) [OF assms(1)]] by metis
  with u show ?thesis by (auto simp: other_admin_def)
qed

lemma target_row:
  "userOr404 raw db = Some t \<Longrightarrow> \<exists>r \<in> set (users db). t = toPublic r"
  by (auto simp: userOr404_def byId_def rowById_def split: option.splits if_splits dest: first_where_SomeD)

text \<open>What holds between the parts of a PATCH for the target as it was read.\<close>

definition patch_ok :: "public_user \<Rightarrow> hub \<Rightarrow> bool" where
  "patch_ok t s = (has_admin (h_acc s) \<and> (pu_role t \<noteq> ''admin'' \<longrightarrow> other_admin (pu_id t) (h_acc s)))"

lemma patch_ok_audit [simp]: "patch_ok t (audit ev rq a d s) = patch_ok t s" "patch_ok t (s\<lparr> h_roles := r \<rparr>) = patch_ok t s"
  by (simp_all add: patch_ok_def)

lemma patch_ok_same: "users (h_acc s') = users (h_acc s) \<Longrightarrow> patch_ok t s' = patch_ok t s"
  by (simp add: patch_ok_def has_admin_def other_admin_def)

lemma patch_ok_other: "other_admin (pu_id t) (h_acc s) \<Longrightarrow> patch_ok t s"
  by (simp add: patch_ok_def other_has)

lemma has_adminI: "u \<in> set (users db) \<Longrightarrow> enabled_admin u \<Longrightarrow> has_admin db"
  by (auto simp: has_admin_def)

lemma setRole_admin: "has_admin db \<Longrightarrow> has_admin (setRole i ''admin'' db)"
proof -
  assume "has_admin db"
  then obtain u where u: "u \<in> set (users db)" "enabled_admin u" by (auto simp: has_admin_def)
  then have "(if u_id u = i then u\<lparr> u_role := ''admin'' \<rparr> else u) \<in> set (users (setRole i ''admin'' db))"
    by (auto simp: setRole_def upd_user_def upd_where_def)
  then show ?thesis by (rule has_adminI) (use u(2) in \<open>simp add: enabled_admin_def\<close>)
qed

lemma enable_admin: "has_admin db \<Longrightarrow> has_admin (setDisabled i False now db)"
proof -
  assume "has_admin db"
  then obtain u where u: "u \<in> set (users db)" "enabled_admin u" by (auto simp: has_admin_def)
  then have "(if u_id u = i then u\<lparr> u_disabled_at := None \<rparr> else u) \<in> set (users (setDisabled i False now db))"
    by (auto simp: setDisabled_def upd_user_def upd_where_def)
  then show ?thesis by (rule has_adminI) (use u(2) in \<open>simp add: enabled_admin_def\<close>)
qed

lemma role_parts_acc:
  "hub_role_exists ev n s = (s1, b) \<Longrightarrow> h_acc s1 = h_acc s"
  "hub_can_grant ev rq n s = Inr (s1, b) \<Longrightarrow> h_acc s1 = h_acc s"
proof -
  show "hub_role_exists ev n s = (s1, b) \<Longrightarrow> h_acc s1 = h_acc s"
    by (auto simp: hub_role_exists_def split: prod.splits)
  show "hub_can_grant ev rq n s = Inr (s1, b) \<Longrightarrow> h_acc s1 = h_acc s"
    by (cases "canGrantRole (h_roles s) (rq_perms rq) n (ev_now ev)") (auto simp: hub_can_grant_def)
qed

lemma patch_role_keeps:
  assumes "patch_ok t s" "\<And>s'. patch_ok t s' \<Longrightarrow> has_admin (h_acc (fst (k s')))"
  shows "has_admin (h_acc (fst (user_patch_role ev rq actor t b s k)))"
proof -
  have ha: "has_admin (h_acc s)" using assms(1) by (simp add: patch_ok_def)
  have set: "patch_ok t (on_acc (setRole (pu_id t) role) s2)"
    if "h_acc s2 = h_acc s" "\<not> (pu_role t = ''admin'' \<and> role \<noteq> ''admin'' \<and> lastAdmin (h_acc s2) (pu_id t))" for role s2
  proof (cases "role = ''admin'' \<and> pu_role t = ''admin''")
    case True
    with that(1) ha show ?thesis by (simp add: patch_ok_def setRole_admin)
  next
    case False
    with that assms(1) have "other_admin (pu_id t) (h_acc s2)" by (auto simp: lastAdmin_other patch_ok_def)
    then show ?thesis using other_admin_upd by (auto intro!: patch_ok_other simp: setRole_def)
  qed
  have revoke: "patch_ok t (on_acc (revokeUserSessions i e) s') = patch_ok t s'" for i e s'
    by (rule patch_ok_same) simp
  show ?thesis unfolding user_patch_role_def Let_def
    by (auto simp: attempt_def ha assms revoke split: option.split json.split prod.split bool.split sum.split
        dest!: role_parts_acc intro!: assms(2) set)
qed

lemma patch_disabled_keeps:
  assumes "patch_ok t s" "\<And>s'. has_admin (h_acc s') \<Longrightarrow> has_admin (h_acc (fst (k s')))"
  shows "has_admin (h_acc (fst (user_patch_disabled ev rq actor t b s k)))"
proof -
  have ha: "has_admin (h_acc s)" using assms(1) by (simp add: patch_ok_def)
  have disable: "has_admin (setDisabled (pu_id t) d now (h_acc s))"
    if "\<not> (d \<and> pu_role t = ''admin'' \<and> lastAdmin (h_acc s) (pu_id t))" for d now
  proof (cases d)
    case False
    with ha show ?thesis by (simp add: enable_admin)
  next
    case True
    with that assms(1) have "other_admin (pu_id t) (h_acc s)" by (auto simp: lastAdmin_other patch_ok_def)
    then show ?thesis unfolding setDisabled_def by (intro other_has [of "pu_id t"] other_admin_upd)
  qed
  have same: "has_admin (revokeUserSessions i e db) = has_admin db" for i e db by (simp add: has_admin_def)
  show ?thesis unfolding user_patch_disabled_def Let_def
    by (auto simp: ha assms(2) disable same split: option.split json.split intro!: assms(2))
qed

lemma user_PATCH_admin:
  assumes "hub_inv s" "has_admin (h_acc s)"
  shows "has_admin (h_acc (fst (user_PATCH ev raw rq s)))"
proof -
  have start: "patch_ok t s" if t: "userOr404 raw (h_acc s) = Some t" for t
  proof -
    obtain r where r: "r \<in> set (users (h_acc s))" "t = toPublic r" using target_row [OF t] by blast
    have "other_admin (u_id r) (h_acc s)" if "u_role r \<noteq> ''admin''"
      using has_admin_other [OF hub_invD(1) [OF assms(1)] assms(2) r(1)] that by (simp add: enabled_admin_def)
    with assms(2) r(2) show ?thesis by (simp add: patch_ok_def toPublic_def)
  qed
  have name: "patch_ok t (user_patch_name ev rq t b s1)" if "patch_ok t s1" for t b s1
    using that other_admin_upd sa.Q_user_patch_name [of s1 ev rq t b]
    by (auto simp: patch_ok_def sa.Q_def user_patch_name_def setDisplayName_def split: option.split)
  show ?thesis unfolding user_PATCH_def
    by (intro sa.Q_rules(2) [unfolded sa.Q_def] assms)
      (auto simp: assms split: option.split
        intro!: sa.Q_rules(3) [unfolded sa.Q_def] patch_role_keeps patch_disabled_keeps start name)
qed

lemma user_DELETE_admin:
  assumes "hub_inv s" "has_admin (h_acc s)"
  shows "has_admin (h_acc (fst (user_DELETE ev raw rq s)))"
proof -
  have rem: "has_admin (remove_user i (revokeForUser i now (revokeUserSessions i e db)))" if "other_admin i db" for i now e db
    using that by (auto simp: other_admin_def has_admin_def remove_user_def)
  have "other_admin (pu_id t) (h_acc s)"
    if t: "userOr404 raw (h_acc s) = Some t" "\<not> (pu_role t = ''admin'' \<and> lastAdmin (h_acc s) (pu_id t))" for t
  proof -
    obtain r where r: "r \<in> set (users (h_acc s))" "t = toPublic r" using target_row [OF t(1)] by blast
    show ?thesis
    proof (cases "u_role r = ''admin''")
      case True
      with r t(2) show ?thesis by (simp add: lastAdmin_other toPublic_def)
    next
      case False
      with has_admin_other [OF hub_invD(1) [OF assms(1)] assms(2) r(1)] r(2) show ?thesis
        by (simp add: enabled_admin_def toPublic_def)
    qed
  qed
  then show ?thesis unfolding user_DELETE_def Let_def
    by (intro sa.Q_rules(2) [unfolded sa.Q_def] assms)
      (auto simp: assms split: option.split intro!: rem)
qed

lemma external_admin:
  assumes "acc_inv db" "has_admin db" "resolveExternalUser b36 src ext n d role sync now db = Inr (db', u)"
  shows "has_admin db'"
proof (cases "rowByExternal src ext db")
  case None
  then obtain name pu where "createExternal name d role src ext now db = Inr (db', pu)"
    using assms(3) by (auto simp: resolveExternalUser_def Let_def map_sum_def split: sum.splits if_splits)
  then show ?thesis using sa.P_creation(2) assms(2) by blast
next
  case (Some r)
  then have r: "r \<in> set (users db)" unfolding rowByExternal_def by (blast dest: first_where_SomeD)
  let ?role = "external_role r role sync db"
  have db': "db' = (if sync then syncExternal (u_id r) d ?role db else db)"
    using assms(3) Some by (simp add: resolveExternalUser_def Let_def)
  have "other_admin (u_id r) db \<or> ?role = ''admin''" if sync
  proof (cases "u_role r = ''admin''")
    case True
    then show ?thesis using that lastAdmin_other [of db "u_id r"]
      by (auto simp: external_role_def lastAdmin_def)
  next
    case False
    with has_admin_other [OF assms(1,2) r] show ?thesis by (simp add: enabled_admin_def)
  qed
  moreover have "syncExternal (u_id r) d ''admin'' db = setDisplayName (u_id r) d (setRole (u_id r) ''admin'' db)"
    by (simp add: syncExternal_def setDisplayName_def setRole_def upd_user_def upd_where_def comp_def cong: if_cong)
  moreover have "has_admin (setDisplayName (u_id r) d (setRole (u_id r) ''admin'' db))"
    unfolding setDisplayName_def by (rule sa.other_column) (simp_all add: setRole_admin assms(2))
  ultimately show ?thesis using db' assms(2) other_admin_upd [of "u_id r" db] other_has
    by (cases sync) (auto simp: syncExternal_def)
qed

end
