(* ===== verification/Account_Props.thy ===== *)
theory Account_Props
  imports Account_Inv
begin

text \<open>
  Properties of accounts, sessions, invitations, backup codes and login protection.
\<close>

section \<open>Referential integrity\<close>

text \<open>
  C15. Every state the stores can reach keeps the account tables consistent: ids, usernames up to
  case, external identities, session and invite hashes are unique, ids never exceed the counter,
  and every session, invitation for a user, passkey and challenge belongs to an existing user.  The
  passkey routes are not modelled: no step here inserts a passkey or a challenge, so of those two tables
  it only says that the deletions leave nothing behind.
\<close>

theorem accounts_invariant:
  assumes "(acc_step h)\<^sup>*\<^sup>* no_accounts db"
  shows "acc_inv db"
  using acc_run_inv [OF assms no_accounts_inv] .

definition demo_accounts :: accounts where
  "demo_accounts = fst (projr (create_user ''ada'' ''pw'' ''admin'' ''Ada'' 10 no_accounts))"

lemma demo_accounts_create:
  "create_user ''ada'' ''pw'' ''admin'' ''Ada'' 10 no_accounts
     = Inr (demo_accounts, toPublic (hd (users demo_accounts)))"
  by (simp add: demo_accounts_def create_user_def insert_user_def no_accounts_def read_back_def
      byId_def rowById_def first_where_def Let_def)

lemma demo_accounts_run: "(acc_step h)\<^sup>*\<^sup>* no_accounts demo_accounts"
  using acc_step.create [OF demo_accounts_create] by (rule r_into_rtranclp)

lemma demo_accounts_eq:
  "demo_accounts = no_accounts\<lparr> users := [\<lparr> u_id = 1, u_username = ''ada'', u_display_name = ''Ada'',
     u_password_hash = ''pw'', u_role = ''admin'', u_totp_secret = None, u_totp_backup = None,
     u_created_at = 10, u_disabled_at = None, u_last_login_at = None, u_source = ''local'',
     u_external_id = Some ''local:ada'', u_avatar = None, u_avatar_mime = None \<rparr>], users_seq := 1 \<rparr>"
  by (simp add: demo_accounts_def create_user_def insert_user_def no_accounts_def read_back_def
      byId_def rowById_def first_where_def Let_def localExternalId_def)

lemma demo_accounts_inv: "acc_inv demo_accounts"
  using acc_run_inv [OF demo_accounts_run no_accounts_inv] .

lemma accounts_invariant_witness: "acc_inv demo_accounts \<and> users demo_accounts \<noteq> []"
  using accounts_invariant [OF demo_accounts_run] by (simp add: demo_accounts_eq)

section \<open>Sessions\<close>

definition live_session :: "string \<Rightarrow> ms \<Rightarrow> accounts \<Rightarrow> session_row \<Rightarrow> user_row \<Rightarrow> bool" where
  "live_session th now db s u =
     (s \<in> set (sessions db) \<and> s_token_hash s = th \<and> now < s_expires_at s \<and>
      u \<in> set (users db) \<and> u_id u = s_user_id s \<and> u_disabled_at u = None)"

lemma first_session:
  "acc_inv db \<Longrightarrow> s \<in> set (sessions db) \<Longrightarrow> s_token_hash s = th \<Longrightarrow>
     first_where (\<lambda>r. s_token_hash r = th) (sessions db) = Some s"
  by (rule first_where_unique [where k = s_token_hash]) (auto dest: acc_invD)

lemma first_user:
  "acc_inv db \<Longrightarrow> u \<in> set (users db) \<Longrightarrow> rowById (u_id u) db = Some u"
  unfolding rowById_def by (rule first_where_unique [where k = u_id]) (auto dest: acc_invD)

text \<open>
  A token resolves exactly if it has an unexpired session whose user exists and is enabled,
  to that user; renewal never shortens a session; and a token that is refused has no session
  left afterwards, so it stays refused.
\<close>

theorem session_resolve_exact:
  assumes "acc_inv db" "session_resolve h token ttl now db = (db', res)"
  shows "(\<forall>p th. res = Some (p, th) \<longleftrightarrow>
        (th = h token \<and> (\<exists>s u. live_session th now db s u \<and> p = toPublic u))) \<and>
    (res = None \<longrightarrow> (\<forall>s \<in> set (sessions db'). s_token_hash s \<noteq> h token)) \<and>
    (res \<noteq> None \<longrightarrow> 0 \<le> ttl \<longrightarrow> (\<forall>s \<in> set (sessions db). \<exists>s' \<in> set (sessions db').
        s_token_hash s' = s_token_hash s \<and> s_user_id s' = s_user_id s \<and> s_expires_at s \<le> s_expires_at s'))"
proof (cases "first_where (\<lambda>r. s_token_hash r = h token) (sessions db)")
  case None
  then have "db' = db" "res = None" using assms(2) by (simp_all add: session_resolve_def)
  with None show ?thesis by (auto simp: first_where_None live_session_def)
next
  case (Some s)
  then have s: "s \<in> set (sessions db)" "s_token_hash s = h token" by (auto dest: first_where_SomeD)
  have only: "s' = s" if "s' \<in> set (sessions db)" "s_token_hash s' = h token" for s'
    using first_session [OF assms(1) that] Some by simp
  obtain u where u: "u \<in> set (users db)" "u_id u = s_user_id s"
    using assms(1) s(1) by (auto simp: acc_inv_def refs_ok_def)
  have byu: "byId (s_user_id s) db = Some (toPublic u)"
    using first_user [OF assms(1) u(1)] u(2) by (simp add: byId_def)
  have onlyu: "u' = u" if "u' \<in> set (users db)" "u_id u' = s_user_id s" for u'
    using acc_invD(5) [OF assms(1)] that u by (metis unique_onD)
  have live: "live_session (h token) now db s' u' \<longleftrightarrow>
      s' = s \<and> u' = u \<and> now < s_expires_at s \<and> u_disabled_at u = None" for s' u'
    unfolding live_session_def using s u only onlyu by metis
  consider "s_expires_at s \<le> now" | "now < s_expires_at s" "u_disabled_at u \<noteq> None"
    | "now < s_expires_at s" "u_disabled_at u = None" by linarith
  then show ?thesis
  proof cases
    case 1
    with Some assms(2) have "res = None" "db' = db\<lparr> sessions := del_where (\<lambda>r. s_token_hash r = h token) (sessions db) \<rparr>"
      by (auto simp: session_resolve_def Let_def)
    with 1 show ?thesis by (auto simp: live)
  next
    case 2
    with Some byu assms(2) have "res = None" "db' = revokeUserSessions (s_user_id s) None db"
      by (auto simp: session_resolve_def Let_def toPublic_def)
    with 2 show ?thesis by (auto simp: live revokeUserSessions_def dest: only)
  next
    case 3
    define f :: "session_row \<Rightarrow> session_row" where "f = (\<lambda>r. if 2 * (s_expires_at s - now) < ttl
      then r\<lparr> s_expires_at := now + ttl, s_last_seen_at := now \<rparr> else r\<lparr> s_last_seen_at := now \<rparr>)"
    have pd: "pu_disabledAt (toPublic u) = None" using 3 by (simp add: toPublic_def)
    have "session_resolve h token ttl now db =
        (db\<lparr> sessions := upd_where (\<lambda>r. s_token_hash r = h token) f (sessions db) \<rparr>, Some (toPublic u, h token))"
      using 3(1) Some byu pd by (simp add: session_resolve_def Let_def f_def)
    with assms(2) have res: "res = Some (toPublic u, h token)"
      and db': "sessions db' = upd_where (\<lambda>r. s_token_hash r = h token) f (sessions db)" by auto
    have f: "s_token_hash (f r) = s_token_hash r" "s_user_id (f r) = s_user_id r"
      "0 \<le> ttl \<Longrightarrow> s_expires_at s \<le> s_expires_at (f s)" for r by (auto simp: f_def)
    have "\<exists>x' \<in> set (sessions db'). s_token_hash x' = s_token_hash x \<and> s_user_id x' = s_user_id x \<and>
        s_expires_at x \<le> s_expires_at x'" if "x \<in> set (sessions db)" "0 \<le> ttl" for x
    proof (rule bexI)
      show "(if s_token_hash x = h token then f x else x) \<in> set (sessions db')"
        using that by (auto simp: db' upd_where_def)
    qed (use that f only [of x] in auto)
    moreover have "\<exists>s u. live_session (h token) now db s u \<and> p = toPublic u \<longleftrightarrow> p = toPublic u" for p
      using 3 live by blast
    ultimately show ?thesis using 3 res live by auto
  qed
qed

lemma session_resolve_exact_witness:
  "\<exists>db t db' p th. session_create id ''t'' 1 1000 None None 20 demo_accounts = Inr (db, t) \<and>
     session_resolve id ''t'' 1000 600 db = (db', Some (p, th)) \<and> pu_username p = ''ada'' \<and>
     (\<exists>s u. live_session th 600 db s u \<and> p = toPublic u)"
proof -
  have "\<exists>db. session_create id ''t'' 1 1000 None None 20 demo_accounts = Inr (db, ''t'')"
    by (simp add: session_create_def demo_accounts_eq no_accounts_def)
  then obtain db where c: "session_create id ''t'' 1 1000 None None 20 demo_accounts = Inr (db, ''t'')" ..
  have inv: "acc_inv db" using session_create_inv [OF demo_accounts_inv c] .
  have "\<exists>db' p. session_resolve id ''t'' 1000 600 db = (db', Some (p, ''t'')) \<and> pu_username p = ''ada''"
    using c by (auto simp: session_create_def demo_accounts_eq no_accounts_def session_resolve_def
        first_where_def byId_def rowById_def toPublic_def Let_def)
  then obtain db' p where r: "session_resolve id ''t'' 1000 600 db = (db', Some (p, ''t''))"
    "pu_username p = ''ada''" by blast
  have "\<exists>s u. live_session ''t'' 600 db s u \<and> p = toPublic u"
    using session_resolve_exact [OF inv r(1), THEN conjunct1, rule_format, of p "''t''"] by simp
  with c r show ?thesis by blast
qed


section \<open>Links are used once\<close>

definition link_spent :: "string \<Rightarrow> accounts \<Rightarrow> bool" where
  "link_spent k db =
     (\<forall>i \<in> set (invites db). i_token_hash i = k \<longrightarrow> i_used_at i \<noteq> None \<or> i_revoked_at i \<noteq> None)"

text \<open>Steps that do not hand out the same random token a second time.\<close>

definition fresh_step :: "(string \<Rightarrow> string) \<Rightarrow> string \<Rightarrow> accounts \<Rightarrow> accounts \<Rightarrow> bool" where
  "fresh_step h k db db' =
     (acc_step h db db' \<and>
      ((\<exists>i \<in> set (invites db'). i_token_hash i = k) \<longrightarrow> (\<exists>i \<in> set (invites db). i_token_hash i = k)))"

text \<open>The columns that matter for a link only ever gain a use or a revocation.\<close>

definition link_evo :: "invite_row \<Rightarrow> invite_row \<Rightarrow> bool" where
  "link_evo i i' =
     (i_token_hash i' = i_token_hash i \<and> (i_used_at i \<noteq> None \<longrightarrow> i_used_at i' \<noteq> None) \<and>
      (i_revoked_at i \<noteq> None \<longrightarrow> i_revoked_at i' \<noteq> None))"

lemma link_evo_refl [simp]: "link_evo i i"
  by (simp add: link_evo_def)

lemma invites_upd_back:
  assumes "i' \<in> set (upd_where P f t)" "\<And>i. link_evo i (f i)"
  shows "\<exists>i \<in> set t. link_evo i i'"
  using assms by (force dest: set_upd_whereD)

lemma invites_session_ops [simp]:
  "invites (fst (session_resolve h tok ttl now db)) = invites db"
  "invites (session_revoke th db) = invites db" "invites (revokeUserSessions i e db) = invites db"
  "invites (fst (sessions_prune now db)) = invites db" "invites (fst (consume_write j rest db)) = invites db"
  by (auto simp: session_resolve_def session_revoke_def revokeUserSessions_def sessions_prune_def
      consume_write_def Let_def split: option.split)

lemma insert_user_invites: "insert_user n d pw r src ext now db = Inr (db', i) \<Longrightarrow> invites db' = invites db"
  by (auto simp: insert_user_def Let_def split: if_splits)

lemma creation_invites:
  shows "create_user n pw r d now db = Inr (db', u) \<Longrightarrow> invites db' = invites db"
    and "createExternal n d r src ext now db = Inr (db', u) \<Longrightarrow> invites db' = invites db"
    and "createFirstUser n pw r d now db = Inr (db', fu) \<Longrightarrow> invites db' = invites db"
  using insert_user_invites by (metis creation_cases)+

lemma links_back:
  assumes "acc_step h db db'" "i' \<in> set (invites db')"
  shows "(\<exists>i \<in> set (invites db). link_evo i i') \<or> (\<forall>i \<in> set (invites db). i_token_hash i \<noteq> i_token_hash i')"
  using assms
proof (induction rule: acc_step.induct)
  case (session tok i ttl ip ua now db db' t)
  then have "invites db' = invites db" by (auto simp: session_create_def split: if_splits)
  with session.prems show ?case using link_evo_refl by metis
next
  case (invite tok kind r uid b ttl now db db' t iv)
  then show ?case by (force simp: invite_create_def Let_def link_evo_def split: if_splits option.splits)
next
  case used
  then show ?case by (simp add: markUsed_def, intro disjI1, elim invites_upd_back, simp add: link_evo_def)
next
  case claim
  then show ?case by (simp add: tryClaim_def Let_def, intro disjI1, elim invites_upd_back, simp add: link_evo_def)
next
  case withdraw
  then show ?case by (simp add: invite_revoke_def, intro disjI1, elim invites_upd_back, simp add: link_evo_def)
next
  case withdraw_all
  then show ?case by (simp add: revokeForUser_def, intro disjI1, elim invites_upd_back, simp add: link_evo_def)
next
  case remove
  then show ?case by (auto simp: remove_user_def intro: link_evo_refl)
next
  case invite_prune
  then show ?case by (auto simp: invites_prune_def Let_def intro: link_evo_refl)
qed (auto simp: creation_invites user_updates intro: link_evo_refl)

lemma spent_fresh_step: "link_spent k db \<Longrightarrow> fresh_step h k db db' \<Longrightarrow> link_spent k db'"
proof -
  assume sp: "link_spent k db" and fs: "fresh_step h k db db'"
  have "i_used_at i' \<noteq> None \<or> i_revoked_at i' \<noteq> None" if i': "i' \<in> set (invites db')" "i_token_hash i' = k" for i'
  proof -
    have "\<exists>i \<in> set (invites db). link_evo i i'"
      using fs links_back [of h db db' i'] i' by (auto simp: fresh_step_def)
    with sp i'(2) show ?thesis unfolding link_spent_def link_evo_def by metis
  qed
  then show "link_spent k db'" by (simp add: link_spent_def)
qed

definition claim_link :: "string \<Rightarrow> string \<Rightarrow> ms \<Rightarrow> accounts \<Rightarrow> accounts \<times> bool" where
  "claim_link k0 k now db = (if k = k0 then tryClaim k now db else (db, False))"

interpretation su: single_use "fresh_step h k0" acc_inv "\<lambda>k db. k = k0 \<and> link_spent k db" "claim_link k0" for h k0
proof unfold_locales
  fix k now s s'
  assume inv: "acc_inv s" and c: "claim_link k0 k now s = (s', True)"
  let ?P = "claimable_invite k now"
  have k: "k = k0" and s': "s' = s\<lparr> invites := upd_where ?P (\<lambda>r. r\<lparr> i_used_at := Some now \<rparr>) (invites s) \<rparr>"
    and "n_where ?P (invites s) = 1"
    using c by (auto simp: claim_link_def tryClaim_def Let_def split: if_splits)
  then obtain i where i: "i \<in> set (invites s)" "?P i" using n_where_pos [of ?P "invites s"] by auto
  have "?P j" if "j \<in> set (invites s)" "i_token_hash j = k" for j
    using unique_onD [OF acc_invD(4) [OF inv] that(1) i(1)] that(2) i(2) by (simp add: claimable_invite_def)
  then show "k = k0 \<and> link_spent k s'"
    by (auto simp: k s' link_spent_def upd_where_def)
next
  fix k s t
  assume "k = k0 \<and> link_spent k s" "fresh_step h k0 s t"
  then show "k = k0 \<and> link_spent k t" by (auto intro: spent_fresh_step)
next
  fix k now s
  assume "k = k0 \<and> link_spent k s"
  then have "n_where (claimable_invite k now) (invites s) = 0"
    by (auto simp: link_spent_def claimable_invite_def)
  then show "\<not> snd (claim_link k0 k now s)"
    by (auto simp: claim_link_def tryClaim_def Let_def simp del: n_where_0)
qed

text \<open>
  C17. An invitation or reset link is accepted at most once: after \<open>tryClaim\<close> succeeded, no
  later claim of the same link succeeds, whatever operations run in between, as long as the
  random token is not issued a second time.
\<close>

theorem link_used_once:
  assumes "acc_inv db" "tryClaim k now db = (db1, True)" "(fresh_step h k)\<^sup>*\<^sup>* db1 db2"
  shows "\<not> snd (tryClaim k now' db2)"
  using su.once [of db k k now db1 h db2 now'] assms by (simp add: claim_link_def)

definition demo_invited :: accounts where
  "demo_invited = fst (projr (invite_create id ''k'' Invite ''viewer'' None (Some 1) 100 20 demo_accounts))"

lemma demo_invited_create:
  "\<exists>iv. invite_create id ''k'' Invite ''viewer'' None (Some 1) 100 20 demo_accounts
     = Inr (demo_invited, ''k'', iv)"
  by (simp add: demo_invited_def invite_create_def demo_accounts_eq no_accounts_def invite_lookup_def
      first_where_def Let_def)

lemma demo_invited_inv: "acc_inv demo_invited"
  using demo_invited_create invite_create_inv demo_accounts_inv by blast

lemma demo_invited_claim: "snd (tryClaim ''k'' 30 demo_invited)"
  by (simp add: demo_invited_def invite_create_def demo_accounts_eq no_accounts_def invite_lookup_def
      first_where_def Let_def tryClaim_def claimable_invite_def n_where_def)

lemma link_used_once_witness:
  "\<exists>db1 db2. tryClaim ''k'' 30 demo_invited = (db1, True) \<and>
     db2 = markUsed ''other'' 31 db1 \<and> \<not> snd (tryClaim ''k'' 32 db2)"
proof -
  obtain db1 where c: "tryClaim ''k'' 30 demo_invited = (db1, True)"
    using demo_invited_claim by (metis prod.collapse)
  have "fresh_step id ''k'' db1 (markUsed ''other'' 31 db1)"
    using acc_step.used [of id db1 "''other''" 31]
    by (auto simp: fresh_step_def markUsed_def dest!: set_upd_whereD split: if_splits)
  with link_used_once [OF demo_invited_inv c r_into_rtranclp] c show ?thesis by blast
qed


section \<open>Backup codes\<close>

lemma byId_upd_user:
  assumes "\<And>r. u_id (f r) = u_id r"
  shows "rowById i (upd_user i f db) = map_option f (rowById i db)"
proof -
  have "find (\<lambda>r. u_id r = i) (upd_where (\<lambda>r. u_id r = i) f t) = map_option f (find (\<lambda>r. u_id r = i) t)" for t
    by (induction t) (simp_all add: upd_where_Cons assms)
  then show ?thesis by (simp add: rowById_def first_where_def upd_user_def)
qed

text \<open>User \<open>i\<close> holds the backup codes whose hashes are \<open>hs\<close>, as \<open>setTotp\<close> stores them.\<close>

definition has_codes :: "nat \<Rightarrow> string list \<Rightarrow> accounts \<Rightarrow> bool" where
  "has_codes i hs db =
     (case rowById i db of None \<Rightarrow> False
      | Some r \<Rightarrow> u_totp_backup r = Some (stringify (json_strings hs)))"

lemma has_codes_setTotp: "rowById i db \<noteq> None \<Longrightarrow> has_codes i hs (setTotp i (Some sec) (Some hs) db)"
  by (auto simp: has_codes_def setTotp_def byId_upd_user)

lemma remove_first_map: "inj f \<Longrightarrow> remove_first (f x) (map f xs) = map f (remove_first x xs)"
  by (induction xs) (auto dest: injD)

lemma remove_first_remove1: "remove_first x xs = remove1 x xs"
  by (induction xs) auto

lemma consume_read_codes:
  assumes "has_codes i hs db"
  shows "consume_read i c db =
     Inr (if c \<in> set hs then Some (stringify (json_strings (remove1 c hs))) else None)"
proof -
  obtain r where r: "rowById i db = Some r" "u_totp_backup r = Some (stringify (json_strings hs))"
    using assms by (auto simp: has_codes_def split: option.splits)
  have ne: "stringify (json_strings hs) \<noteq> []" by (simp add: json_strings_def)
  have "totpBackupHashes r = JArr (map JStr hs)"
    using r(2) ne by (simp add: totpBackupHashes_def json_roundtrip) (simp add: json_strings_def)
  moreover have "remove_first (JStr c) (map JStr hs) = map JStr (remove1 c hs)"
    by (subst remove_first_map) (auto simp: remove_first_remove1 inj_def)
  ultimately show ?thesis using r(1) by (auto simp: consume_read_def json_strings_def image_iff)
qed

lemma consume_write_codes:
  assumes "has_codes i hs db" "consume_write i (Some (stringify (json_strings gs))) db = (db', ok)"
  shows "ok \<and> has_codes i gs db'"
  using assms by (auto simp: has_codes_def consume_write_def byId_upd_user split: option.splits)

lemma consume_codes_spec:
  assumes "has_codes i hs db"
  shows "\<exists>db'. consumeBackupCode i c db = Inr (db', c \<in> set hs) \<and> has_codes i (remove1 c hs) db' \<and>
     (distinct hs \<longrightarrow> (\<exists>db''. consumeBackupCode i c db' = Inr (db'', False)))"
proof (cases "c \<in> set hs")
  case True
  obtain db' ok where w: "consume_write i (Some (stringify (json_strings (remove1 c hs)))) db = (db', ok)"
    by (meson surj_pair)
  with consume_write_codes [OF assms w] consume_read_codes [of i "remove1 c hs" db' c]
    consume_read_codes [OF assms, of c] True
  show ?thesis by (auto simp: consumeBackupCode_def consume_write_def)
next
  case False
  with assms consume_read_codes [OF assms, of c] show ?thesis
    by (auto simp: consumeBackupCode_def consume_write_def remove1_idem)
qed

text \<open>
  A backup code on its own works once: it is accepted exactly if it is among the stored
  hashes, its hash is then removed and no other, and with distinct codes the second attempt fails.
\<close>

theorem backup_code_once:
  assumes "has_codes i hs db"
  shows "\<exists>db'. consumeBackupCode i c db = Inr (db', c \<in> set hs) \<and> has_codes i (remove1 c hs) db' \<and>
     (distinct hs \<longrightarrow> (\<exists>db''. consumeBackupCode i c db' = Inr (db'', False)))"
  using consume_codes_spec [OF assms] .

definition demo_codes :: accounts where
  "demo_codes = setTotp 1 (Some ''s'') (Some [''c1'', ''c2'']) demo_accounts"

lemma demo_codes_has: "has_codes 1 [''c1'', ''c2''] demo_codes"
  unfolding demo_codes_def
  by (rule has_codes_setTotp) (simp add: demo_accounts_eq rowById_def first_where_def)

lemma backup_code_once_witness:
  "\<exists>db'. consumeBackupCode 1 ''c2'' demo_codes = Inr (db', True) \<and> has_codes 1 [''c1''] db'"
  using backup_code_once [OF demo_codes_has, of "''c2''"] by auto

text \<open>
  \<open>consumeBackupCode\<close> reads the list and writes it back in a later turn.  Two requests that
  both read before either writes are both accepted, and the later write puts the other's code
  back: after two different codes were used, the first of them is accepted a second time, and
  the same code presented twice at once is accepted twice.
\<close>

theorem backup_code_replay:
  assumes "has_codes i hs db" "a \<in> set hs" "b \<in> set hs"
    and "consume_read i a db = Inr ra" "consume_read i b db = Inr rb"
    and "consume_write i ra db = (db1, oka)" "consume_write i rb db1 = (db2, okb)"
  shows "oka \<and> okb \<and> has_codes i (remove1 b hs) db2 \<and>
    (a \<noteq> b \<longrightarrow> (\<exists>db3. consumeBackupCode i a db2 = Inr (db3, True)))"
proof -
  have ra: "ra = Some (stringify (json_strings (remove1 a hs)))"
    and rb: "rb = Some (stringify (json_strings (remove1 b hs)))"
    using assms(2-5) consume_read_codes [OF assms(1)] by auto
  have 1: "oka \<and> has_codes i (remove1 a hs) db1"
    using consume_write_codes [OF assms(1)] assms(6) ra by blast
  then have 2: "okb \<and> has_codes i (remove1 b hs) db2"
    using consume_write_codes assms(7) rb by blast
  have "a \<in> set (remove1 b hs)" if "a \<noteq> b" using that assms(2) by simp
  with 1 2 consume_codes_spec [of i "remove1 b hs" db2 a] show ?thesis by auto
qed


lemma backup_code_replay_witness:
  "\<exists>ra rb db1 db2 db3. consume_read 1 ''c1'' demo_codes = Inr ra \<and> consume_read 1 ''c2'' demo_codes = Inr rb \<and>
     consume_write 1 ra demo_codes = (db1, True) \<and> consume_write 1 rb db1 = (db2, True) \<and>
     consumeBackupCode 1 ''c1'' db2 = Inr (db3, True)"
proof -
  obtain ra rb where r: "consume_read 1 ''c1'' demo_codes = Inr ra" "consume_read 1 ''c2'' demo_codes = Inr rb"
    using consume_read_codes [OF demo_codes_has] by blast
  obtain db1 oka where w1: "consume_write 1 ra demo_codes = (db1, oka)" by (meson surj_pair)
  obtain db2 okb where w2: "consume_write 1 rb db1 = (db2, okb)" by (meson surj_pair)
  have "oka \<and> okb \<and> (\<exists>db3. consumeBackupCode 1 ''c1'' db2 = Inr (db3, True))"
    using backup_code_replay [OF demo_codes_has _ _ r w1 w2] by simp
  with r w1 w2 show ?thesis by auto
qed

section \<open>Login protection\<close>

definition key_failures :: "string \<Rightarrow> ms \<Rightarrow> attempt_row list \<Rightarrow> nat" where
  "key_failures key since t = attempts_count (\<lambda>r. at_key r = key) since t"

lemma fold_max_ge: "(x::ms) \<le> fold max xs x \<and> (\<forall>y \<in> set xs. y \<le> fold max xs x) \<and> fold max xs x \<in> insert x (set xs)"
proof (induction xs arbitrary: x)
  case (Cons a xs)
  from Cons.IH [of "max a x"] show ?case by (auto simp: max_def split: if_splits)
qed simp

lemma lastKeyFailure_ge:
  assumes "r \<in> set t" "at_key r = key" "at_ok r = 0"
  shows "\<exists>m. lastKeyFailure key t = Some m \<and> at_at r \<le> m"
proof -
  have r: "at_at r \<in> set (map at_at (sel_where (\<lambda>r. at_key r = key \<and> at_ok r = 0) t))" using assms by simp
  then obtain x xs where xs: "map at_at (sel_where (\<lambda>r. at_key r = key \<and> at_ok r = 0) t) = x # xs"
    by (cases "map at_at (sel_where (\<lambda>r. at_key r = key \<and> at_ok r = 0) t)") auto
  with r fold_max_ge [of x xs] show ?thesis by (auto simp: lastKeyFailure_def)
qed

lemma lockedUntil_other:
  assumes "\<And>r. at_key r = key \<Longrightarrow> \<not> P r"
  shows "lockedUntil key p now (del_where P t) = lockedUntil key p now t"
proof -
  have *: "filter Q (filter (\<lambda>r. \<not> P r) t) = filter Q t" if "\<And>r. Q r \<Longrightarrow> at_key r = key" for Q
    using that assms by (induction t) auto
  have "attempts_count (\<lambda>r. at_key r = key) since (del_where P t) = attempts_count (\<lambda>r. at_key r = key) since t" for since
    by (simp only: attempts_count_def n_where_def del_where_def) (subst *, auto)
  moreover have "lastKeyFailure key (del_where P t) = lastKeyFailure key t"
    by (simp only: lastKeyFailure_def sel_where_def del_where_def) (subst *, auto)
  ultimately show ?thesis by (simp add: lockedUntil_def)
qed

text \<open>
  The hard lockout is per source: it holds exactly from the configured number of failures
  of this key inside the window on (for a positive threshold), it then ends in the future, and
  the attempts of other sources, on whatever account, can neither cause nor lift it.
\<close>

theorem lockout_per_source:
  assumes "0 < lp_maxAttempts p" "\<forall>r \<in> set t. at_at r \<le> now" "0 \<le> lp_lockoutMs p"
  shows "(lockedUntil key p now t \<noteq> None \<longleftrightarrow>
       lp_maxAttempts p \<le> int (key_failures key (now - lp_lockoutMs p) t)) \<and>
    (\<forall>u. lockedUntil key p now t = Some u \<longrightarrow> now \<le> u \<and> u \<le> now + lp_lockoutMs p) \<and>
    lockedUntil key p now t = lockedUntil key p now (del_where (\<lambda>r. at_key r \<noteq> key) t)"
proof (intro conjI)
  let ?P = "\<lambda>r. at_key r = key \<and> at_ok r = 0 \<and> at_at r \<ge> now - lp_lockoutMs p"
  show "lockedUntil key p now t = lockedUntil key p now (del_where (\<lambda>r. at_key r \<noteq> key) t)"
    by (rule lockedUntil_other [symmetric]) simp
  have ge: "\<exists>m. lastKeyFailure key t = Some m \<and> now - lp_lockoutMs p \<le> m"
    if "lp_maxAttempts p \<le> int (key_failures key (now - lp_lockoutMs p) t)"
  proof -
    from that assms(1) have "0 < n_where ?P t" by (simp add: key_failures_def attempts_count_def)
    then obtain r where "r \<in> set t" "?P r" by (auto simp: n_where_pos)
    with lastKeyFailure_ge [of r t key] show ?thesis by force
  qed
  then show "lockedUntil key p now t \<noteq> None \<longleftrightarrow>
       lp_maxAttempts p \<le> int (key_failures key (now - lp_lockoutMs p) t)"
    by (auto simp: lockedUntil_def Let_def key_failures_def not_less)
  have le: "m \<le> now" if "lastKeyFailure key t = Some m" for m
  proof -
    from that obtain x xs where xs: "map at_at (sel_where (\<lambda>r. at_key r = key \<and> at_ok r = 0) t) = x # xs"
      "m = fold max xs x" by (auto simp: lastKeyFailure_def split: list.splits)
    have "m \<in> set (x # xs)" using fold_max_ge [of x xs] xs(2) by simp
    with xs(1) have "m \<in> at_at ` set (sel_where (\<lambda>r. at_key r = key \<and> at_ok r = 0) t)" by (metis list.set_map)
    with assms(2) show ?thesis by auto
  qed
  show "\<forall>u. lockedUntil key p now t = Some u \<longrightarrow> now \<le> u \<and> u \<le> now + lp_lockoutMs p"
    using ge le by (auto simp: lockedUntil_def Let_def key_failures_def not_less split: if_splits option.splits)
qed

definition demo_attempts :: "attempt_row list" where
  "demo_attempts = attempt_record ''5.6.7.8'' None False 8
     (attempt_record ''1.2.3.4'' (Some ''ada'') False 7 (attempt_record ''1.2.3.4'' (Some ''ada'') False 5 []))"

lemma lockout_per_source_witness:
  "lockedUntil ''1.2.3.4'' \<lparr> lp_maxAttempts = 2, lp_lockoutMs = 60 \<rparr> 10 demo_attempts \<noteq> None \<and>
   lockedUntil ''5.6.7.8'' \<lparr> lp_maxAttempts = 2, lp_lockoutMs = 60 \<rparr> 10 demo_attempts = None"
  using lockout_per_source [of "\<lparr> lp_maxAttempts = 2, lp_lockoutMs = 60 \<rparr>" demo_attempts 10 "''1.2.3.4''"]
    lockout_per_source [of "\<lparr> lp_maxAttempts = 2, lp_lockoutMs = 60 \<rparr>" demo_attempts 10 "''5.6.7.8''"]
  by (auto simp: demo_attempts_def attempt_record_def key_failures_def attempts_count_def n_where_def)

text \<open>
  The delay of an account never exceeds five seconds and never shrinks when another failure
  is recorded for it, and it is zero below the threshold: a spray slows its owner down but can
  not lock the account.
\<close>

theorem username_delay_bounded:
  assumes "length name \<le> 128"
  shows "0 \<le> usernameDelayMs name p now t \<and> usernameDelayMs name p now t \<le> 5000 \<and>
    (int (attempts_count (\<lambda>r. at_username r = Some name) (now - lp_lockoutMs p) t) < lp_maxAttempts p
      \<longrightarrow> usernameDelayMs name p now t = 0) \<and>
    usernameDelayMs name p now t \<le> usernameDelayMs name p now (attempt_record key (Some name) False at t) \<and>
    (lp_maxAttempts p + 5 \<le> int (attempts_count (\<lambda>r. at_username r = Some name) (now - lp_lockoutMs p) t)
      \<longrightarrow> usernameDelayMs name p now t = 5000)"
proof -
  let ?n = "attempts_count (\<lambda>r. at_username r = Some name) (now - lp_lockoutMs p) t"
  let ?n' = "attempts_count (\<lambda>r. at_username r = Some name) (now - lp_lockoutMs p)
    (attempt_record key (Some name) False at t)"
  define d :: "int \<Rightarrow> ms" where "d k = (if k < 0 then 0 else min (250 * 2 ^ nat (min k 6)) 5000)" for k
  have d: "usernameDelayMs name p now u = d (int (attempts_count (\<lambda>r. at_username r = Some name)
      (now - lp_lockoutMs p) u) - lp_maxAttempts p)" for u
    by (simp add: usernameDelayMs_def d_def Let_def DELAY_BASE_MS_def DELAY_MAX_MS_def)
  have "?n \<le> ?n'" using assms by (simp add: attempts_count_def attempt_record_def n_where_def)
  moreover have "d a \<le> d b" if "a \<le> b" for a b
  proof -
    have "(2::ms) ^ nat (min a 6) \<le> 2 ^ nat (min b 6)" using that by (intro power_increasing) auto
    then have "min (250 * (2::ms) ^ nat (min a 6)) 5000 \<le> min (250 * 2 ^ nat (min b 6)) 5000"
      by (intro min.mono) auto
    with that show ?thesis by (simp add: d_def)
  qed
  moreover have "d k = 5000" if "5 \<le> k" for k
  proof -
    have "(2::ms) ^ 5 \<le> 2 ^ nat (min k 6)" using that by (intro power_increasing) auto
    with that show ?thesis by (simp add: d_def min_def)
  qed
  moreover have "0 \<le> d k \<and> d k \<le> 5000" for k by (simp add: d_def)
  ultimately show ?thesis by (auto simp: d) (simp add: d_def)
qed

lemma username_delay_bounded_witness:
  "usernameDelayMs ''ada'' \<lparr> lp_maxAttempts = 2, lp_lockoutMs = 60 \<rparr> 10 demo_attempts \<le> 5000 \<and>
   usernameDelayMs ''ada'' \<lparr> lp_maxAttempts = 2, lp_lockoutMs = 60 \<rparr> 10 demo_attempts = 250"
  using username_delay_bounded [of "''ada''" "\<lparr> lp_maxAttempts = 2, lp_lockoutMs = 60 \<rparr>" 10 demo_attempts]
  by (simp add: demo_attempts_def attempt_record_def usernameDelayMs_def attempts_count_def n_where_def
      Let_def DELAY_BASE_MS_def DELAY_MAX_MS_def)

end
