(* ===== verification/Admin_Props.thy ===== *)
theory Admin_Props
  imports Admin_Stable Account_Props
begin

text \<open>
  Properties of the admin API: the invariant of the whole hub along any sequence of requests, what
  keeps an administrator in place, what a login has checked, and how far the permission model
  bounds what a caller can hand out.
\<close>

section \<open>Requests\<close>

text \<open>One request of the admin API, handled to its end.\<close>

inductive api_step :: "hub \<Rightarrow> hub \<Rightarrow> bool" where
  "api_step s (fst (roles_GET ev rq s))"
| "api_step s (fst (roles_POST ev rq s))"
| "api_step s (fst (role_PATCH ev n rq s))"
| "api_step s (fst (role_DELETE ev n rq s))"
| "api_step s (fst (users_GET rq s))"
| "api_step s (fst (users_POST ev rq s))"
| "api_step s (fst (user_PATCH ev raw rq s))"
| "api_step s (fst (user_DELETE ev raw rq s))"
| "api_step s (fst (user_reset_POST ev raw rq s))"
| "api_step s (fst (user_sessions_GET ev raw rq s))"
| "api_step s (fst (user_sessions_DELETE ev raw rq s))"
| "api_step s (fst (user_session_DELETE ev raw pre rq s))"
| "api_step s (fst (invites_GET rq s))"
| "api_step s (fst (invites_POST num ev rq s))"
| "api_step s (fst (invites_DELETE ev pre rq s))"
| "api_step s (fst (invite_GET ev t s))"
| "api_step s (fst (invite_POST ev t rq s))"
| "api_step s (fst (setup_GET ev s))"
| "api_step s (fst (setup_POST ev rq s))"
| "api_step s (fst (login_POST ldap b36 ev rq s))"
| "api_step s (fst (logout_POST ev rq s))"
| "api_step s (fst (account_GET rq s))"
| "api_step s (fst (account_PATCH ev rq s))"
| "api_step s (fst (account_totp_POST fresh codes ev rq s))"
| "api_step s (fst (account_sessions_DELETE ev rq s))"
| "api_step s (fst (account_session_DELETE ev pre rq s))"

lemma api_step_inv: "api_step s t \<Longrightarrow> hub_inv s \<Longrightarrow> hub_inv t"
  by (induction rule: api_step.induct)
    (simp_all add: roles_handlers_inv roles_POST_inv role_PATCH_inv users_POST_inv user_PATCH_inv
      user_handlers_inv invite_handlers_inv invites_POST_inv invite_POST_inv setup_inv login_POST_inv
      account_handlers_inv)

definition empty_hub :: hub where
  "empty_hub = \<lparr> h_acc = no_accounts, h_roles = empty_roles, h_attempts = [], h_audit = \<lparr> al_rows = [], al_seq = 0 \<rparr> \<rparr>"

lemma empty_hub_inv: "hub_inv empty_hub"
  by (simp add: hub_inv_def empty_hub_def no_accounts_inv empty_roles_inv) (simp add: no_accounts_def)

lemma api_run_inv: "api_step\<^sup>*\<^sup>* s t \<Longrightarrow> hub_inv s \<Longrightarrow> hub_inv t"
  by (induction rule: rtranclp_induct) (auto intro: api_step_inv)

text \<open>
  C1. Whatever requests the admin API handles, from an empty database on, the account tables and
  the role store keep their invariants, and every user's role is a builtin or a row of the table:
  no sequence of role, user, invitation, login and account requests leaves a dangling role.
\<close>

theorem hub_invariant:
  assumes "api_step\<^sup>*\<^sup>* empty_hub s"
  shows "acc_inv (h_acc s) \<and> role_inv (h_roles s) \<and>
    (\<forall>u \<in> set (users (h_acc s)). known_role (h_roles s) (u_role u))"
  using api_run_inv [OF assms empty_hub_inv] by (simp add: hub_inv_def)

definition demo_env :: env where
  "demo_env = \<lparr> ev_now = 1000, ev_sha = id, ev_token = ''tok'', ev_hash_password = (\<lambda>p. ''h:'' @ p),
     ev_verify_password = (\<lambda>p h. h = ''h:'' @ p), ev_open_secret = Some, ev_seal_secret = id,
     ev_verify_totp = (\<lambda>sec code. sec = code), ev_audit = Written, ev_min_length = 8, ev_session_ttl = 5000,
     ev_invite_ttl_hours = 24, ev_allow_setup = True,
     ev_lockout = \<lparr> lp_maxAttempts = 3, lp_lockoutMs = 60000 \<rparr> \<rparr>"

definition demo_request :: "public_user option \<Rightarrow> permission set option \<Rightarrow> (string \<times> json) list \<Rightarrow> request" where
  "demo_request u ps ms = \<lparr> rq_user = u, rq_perms = ps, rq_session = None, rq_payload = Body (JObj ms),
     rq_ip = ''ip'', rq_agent = None \<rparr>"

definition demo_hub :: hub where
  "demo_hub = fst (setup_POST demo_env (demo_request None None
     [(''username'', JStr ''ada''), (''password'', JStr ''longenough'')]) empty_hub)"

lemma demo_hub_run: "api_step\<^sup>*\<^sup>* empty_hub demo_hub"
  unfolding demo_hub_def by (rule r_into_rtranclp) (rule api_step.intros)

lemma demo_hub_users:
  "users (h_acc demo_hub) = [\<lparr> u_id = 1, u_username = ''ada'', u_display_name = [],
     u_password_hash = ''h:longenough'', u_role = ''admin'', u_totp_secret = None, u_totp_backup = None,
     u_created_at = 1000, u_disabled_at = None, u_last_login_at = None, u_source = ''local'',
     u_external_id = Some ''local:ada'', u_avatar = None, u_avatar_mime = None \<rparr>]"
  "ro_rows (h_roles demo_hub) = []" "\<not> ro_seeded (h_roles demo_hub)" "h_attempts demo_hub = []" "invites (h_acc demo_hub) = []"
  by code_simp+

lemma demo_hub_inv: "hub_inv demo_hub"
  using api_run_inv [OF demo_hub_run empty_hub_inv] .

lemma hub_invariant_witness:
  "acc_inv (h_acc demo_hub) \<and> role_inv (h_roles demo_hub) \<and> users (h_acc demo_hub) \<noteq> []"
  using hub_invariant [OF demo_hub_run] by (simp add: demo_hub_users)


section \<open>An administrator remains\<close>

lemma api_step_admin:
  assumes "api_step s t" "hub_inv s" "has_admin (h_acc s)"
  shows "has_admin (h_acc t)"
proof -
  have q: "sa.Q s" using assms(3) by (simp add: sa.Q_def)
  have q_login: "sa.Q (fst (login_POST ldap b36 ev rq s))" for ldap b36 ev rq
    by (rule sa.login_POST_Q [OF q]) (rule external_admin [OF hub_invD(1) [OF assms(2)] assms(3)])
  have "sa.Q t" using assms(1) q user_PATCH_admin [OF assms(2,3)] user_DELETE_admin [OF assms(2,3)] q_login
    by (cases rule: api_step.cases)
      (simp_all add: sa.role_handlers_Q sa.user_handlers_Q sa.invite_handlers_Q sa.users_POST_Q sa.accept_Q
        sa.setup_Q sa.account_handlers_Q, simp_all add: sa.Q_def)
  then show ?thesis by (simp add: sa.Q_def)
qed

text \<open>
  C2. The panel can not be locked: once there is an enabled administrator, no sequence of requests
  handled one after the other, whoever sends them, leaves none.  Demotion, disabling, deletion and
  the role synchronisation of external logins all keep one.
\<close>

theorem admin_remains:
  assumes "api_step\<^sup>*\<^sup>* s t" "hub_inv s" "has_admin (h_acc s)"
  shows "has_admin (h_acc t)"
proof -
  have "hub_inv t \<and> has_admin (h_acc t)" using assms
    by (induction rule: rtranclp_induct) (auto intro: api_step_inv api_step_admin)
  then show ?thesis by blast
qed

definition ada :: public_user where
  "ada = toPublic (hd (users (h_acc demo_hub)))"

definition demo_patch :: hub where
  "demo_patch = fst (user_PATCH demo_env (Some 1)
     (demo_request (Some ada) (Some UNIV) [(''role'', JStr ''viewer'')]) demo_hub)"

lemma admin_remains_witness:
  "api_step\<^sup>*\<^sup>* demo_hub demo_patch \<and> has_admin (h_acc demo_patch)"
proof -
  note demo_hub_inv
  moreover have "has_admin (h_acc demo_hub)"
    by (simp add: has_admin_def demo_hub_users enabled_admin_def)
  moreover have "api_step\<^sup>*\<^sup>* demo_hub demo_patch"
    unfolding demo_patch_def by (rule r_into_rtranclp) (rule api_step.intros)
  ultimately show ?thesis using admin_remains by blast
qed

text \<open>
  The guard is a read before a write: two requests that demote the only two administrators and
  both check before either writes both pass, and nobody is administrator afterwards.
\<close>

theorem last_admin_race:
  assumes "\<forall>u \<in> set (users db). enabled_admin u \<longrightarrow> u_id u = a \<or> u_id u = b"
    and "\<not> lastAdmin db a" "\<not> lastAdmin db b" "r \<noteq> ''admin''" "r' \<noteq> ''admin''"
  shows "\<not> has_admin (setRole b r' (setRole a r db))"
  using assms
  by (auto simp: has_admin_def setRole_def upd_user_def upd_where_def enabled_admin_def split: if_splits)

lemma last_admin_race_witness:
  "\<exists>db. \<not> lastAdmin db 1 \<and> \<not> lastAdmin db 2 \<and> \<not> has_admin (setRole 2 ''viewer'' (setRole 1 ''viewer'' db))"
proof -
  let ?u = "hd (users demo_accounts)"
  let ?db = "demo_accounts\<lparr> users := [?u, ?u\<lparr> u_id := 2, u_username := ''bob'' \<rparr>] \<rparr>"
  have g: "\<not> lastAdmin ?db 1" "\<not> lastAdmin ?db 2"
    by (simp_all add: lastAdmin_def admins_def toPublic_def demo_accounts_eq sel_where_def)
  have "\<forall>u \<in> set (users ?db). enabled_admin u \<longrightarrow> u_id u = 1 \<or> u_id u = 2" by (simp add: demo_accounts_eq)
  from last_admin_race [OF this g, of "''viewer''" "''viewer''"] g show ?thesis by blast
qed

section \<open>Login\<close>

definition body_of :: "request \<Rightarrow> json" where
  "body_of rq = (case rq_payload rq of Body b \<Rightarrow> b | _ \<Rightarrow> JNull)"

definition login_name :: "request \<Rightarrow> string" where
  "login_name rq = take 128 (str_or_empty (jmember ''username'' (body_of rq)))"

definition login_password :: "request \<Rightarrow> string" where
  "login_password rq = take 256 (str_or_empty (jmember ''password'' (body_of rq)))"

definition login_code :: "request \<Rightarrow> string" where
  "login_code rq = js_trim (str_or_empty (jmember ''totp'' (body_of rq)))"

text \<open>
  What makes a name and a password acceptable for the account \<open>uid\<close>: the hash of that local account,
  or an identity of the directory, whose account \<open>uid\<close> is: the one stored for its distinguished name,
  or, when there is none, one whose id no stored account has (the login creates it).
\<close>

definition first_factor_ok ::
  "(string \<Rightarrow> string \<Rightarrow> ldap_identity option) option \<Rightarrow> env \<Rightarrow> request \<Rightarrow> hub \<Rightarrow> nat \<Rightarrow> bool" where
  "first_factor_ok ldap ev rq s uid =
     ((\<exists>r \<in> set (users (h_acc s)). u_id r = uid \<and> nocase (u_username r) = nocase (login_name rq) \<and>
         u_source r \<noteq> ''ldap'' \<and> u_password_hash r \<noteq> [] \<and>
         ev_verify_password ev (login_password rq) (u_password_hash r)) \<or>
      (\<exists>bind ident role. ldap = Some bind \<and> bind (login_name rq) (login_password rq) = Some ident \<and>
         ld_role ident = Some role \<and> role \<noteq> [] \<and>
         (case rowByExternal ''ldap'' (ld_dn ident) (h_acc s) of
            Some r \<Rightarrow> u_id r = uid
          | None \<Rightarrow> uid \<notin> user_ids (h_acc s))))"

text \<open>
  The second factor, read from the state before the login, for local and directory accounts alike:
  only an account that this login creates has none to check.
\<close>

definition second_factor_ok :: "env \<Rightarrow> request \<Rightarrow> hub \<Rightarrow> nat \<Rightarrow> bool" where
  "second_factor_ok ev rq s uid =
     (case rowById uid (h_acc s) of
        None \<Rightarrow> True
      | Some r \<Rightarrow>
          u_totp_secret r = None \<or>
          (\<exists>sec. totpSecret (ev_open_secret ev) r = Some sec \<and> ev_verify_totp ev sec (login_code rq)) \<or>
          (\<exists>db. consumeBackupCode uid (ev_sha ev (login_code rq)) (h_acc s) = Inr (db, True)))"

definition has_session :: "env \<Rightarrow> request \<Rightarrow> nat \<Rightarrow> hub \<Rightarrow> bool" where
  "has_session ev rq uid s =
     (\<exists>x \<in> set (sessions (h_acc s)). s_token_hash x = ev_sha ev (ev_token ev) \<and> s_user_id x = uid \<and>
        s_expires_at x = ev_now ev + ev_session_ttl ev)"

lemma issueSession_session: "issueSession ev rq i s = Inr s' \<Longrightarrow> has_session ev rq i s'"
  by (cases "session_create (ev_sha ev) (ev_token ev) i (ev_session_ttl ev) (Some (rq_ip rq))
      (rq_agent rq) (ev_now ev) (h_acc s)")
    (auto simp: issueSession_def has_session_def session_create_def split: if_splits)

lemma has_session_audit [simp]: "has_session ev rq i (audit_as ev' uid n a d ip s) = has_session ev rq i s"
  by (simp add: has_session_def)

lemma login_finish_ok:
  assumes "login_finish ev rq n row user s = (s', ApiJson 200 (User (Some u)))"
  shows "u = user \<and> has_session ev rq (u_id row) s'"
  using assms issueSession_session
  by (auto simp: login_finish_def Let_def attempt_def split: sum.splits)

lemma login_fail_not_ok: "login_fail ev rq n s \<noteq> (s', ApiJson k x)"
  by (simp add: login_fail_def Let_def)

lemma login_checked_ok:
  assumes inv: "acc_inv (h_acc s)" and f: "\<And>row. f = Some row \<Longrightarrow> row \<in> set (users (h_acc s))"
    and ok: "login_checked ev rq n code f s = (s', ApiJson 200 (User (Some u)))"
  shows "\<exists>row. f = Some row \<and> u = toPublic row \<and> u_disabled_at row = None \<and> has_session ev rq (u_id row) s' \<and>
    (u_totp_secret row = None \<or>
      (\<exists>sec. totpSecret (ev_open_secret ev) row = Some sec \<and> ev_verify_totp ev sec code) \<or>
      (\<exists>db. consumeBackupCode (u_id row) (ev_sha ev code) (h_acc s) = Inr (db, True)))"
proof -
  obtain row where row: "f = Some row" using ok login_fail_not_ok by (auto simp: login_checked_def split: option.splits)
  have byu: "byId (u_id row) (h_acc s) = Some (toPublic row)"
    using first_user [OF inv f [OF row]] by (simp add: byId_def)
  have pub: "pu_totpEnabled (toPublic row) = (u_totp_secret row \<noteq> None)"
    "pu_disabledAt (toPublic row) = u_disabled_at row" by (simp_all add: toPublic_def)
  have dis: "u_disabled_at row = None"
    using ok login_fail_not_ok by (auto simp: login_checked_def row byu pub split: if_splits)
  show ?thesis
  proof (cases "u_totp_secret row = None")
    case True
    then have "login_finish ev rq n row (toPublic row) s = (s', ApiJson 200 (User (Some u)))"
      using ok by (simp add: login_checked_def row byu dis pub)
    with login_finish_ok row dis True show ?thesis by blast
  next
    case False
    then have c: "code \<noteq> []" and a: "attempt (login_second_factor ev row code s) s (\<lambda>(s1, ok).
        if ok then login_finish ev rq n row (toPublic row) s1 else login_fail ev rq n s1)
        = (s', ApiJson 200 (User (Some u)))"
      using ok by (auto simp: login_checked_def row byu dis pub split: if_splits)
    then obtain s1 where sf: "login_second_factor ev row code s = Inr (s1, True)"
      and fin: "login_finish ev rq n row (toPublic row) s1 = (s', ApiJson 200 (User (Some u)))"
      by (auto simp: attempt_def login_fail_not_ok split: sum.splits if_splits)
    have "(\<exists>sec. totpSecret (ev_open_secret ev) row = Some sec \<and> ev_verify_totp ev sec code) \<or>
      (\<exists>db. consumeBackupCode (u_id row) (ev_sha ev code) (h_acc s) = Inr (db, True))"
      using sf by (auto simp: login_second_factor_def map_sum_def split: if_splits sum.splits option.splits)
    with login_finish_ok [OF fin] row dis show ?thesis by blast
  qed
qed

text \<open>What the account step leaves of a user's second factor: an account it changes keeps it.\<close>

definition factor_kept :: "nat \<Rightarrow> accounts \<Rightarrow> accounts \<Rightarrow> bool" where
  "factor_kept i db db1 =
     (\<forall>r. rowById i db = Some r \<longrightarrow> (\<exists>r1. rowById i db1 = Some r1 \<and>
        u_totp_secret r1 = u_totp_secret r \<and> u_totp_backup r1 = u_totp_backup r))"

lemma factor_kept_refl: "factor_kept i db db"
  by (simp add: factor_kept_def)

lemma rowById_upd:
  assumes "\<And>r. u_id (f r) = u_id r"
  shows "rowById i (upd_user j f db) = map_option (\<lambda>r. if u_id r = j then f r else r) (rowById i db)"
proof -
  have "find (\<lambda>r. u_id r = i) (map (\<lambda>r. if u_id r = j then f r else r) t)
      = map_option (\<lambda>r. if u_id r = j then f r else r) (find (\<lambda>r. u_id r = i) t)" for t
    by (induction t) (auto simp: assms)
  then show ?thesis by (simp add: rowById_def first_where_def upd_user_def upd_where_def)
qed

lemma resolve_account:
  assumes inv: "acc_inv db" and res: "resolveExternalUser b36 src ext n d role sync now db = Inr (db', Some u)"
  shows "factor_kept (pu_id u) db db' \<and>
    (case rowByExternal src ext db of Some r \<Rightarrow> u_id r = pu_id u | None \<Rightarrow> pu_id u \<notin> user_ids db)"
proof (cases "rowByExternal src ext db")
  case (Some r)
  have "db' = db \<or> (\<exists>d' g. db' = syncExternal (u_id r) d' g db)" "pu_id u = u_id r"
    using res by (auto simp: resolveExternalUser_def Some Let_def byId_def rowById_def toPublic_def
        dest!: first_where_SomeD split: option.splits if_splits)
  then show ?thesis by (auto simp: Some factor_kept_def syncExternal_def rowById_upd)
next
  case None
  then obtain nm where "createExternal nm d role src ext now db = Inr (db', u)"
    using res by (auto simp: resolveExternalUser_def Let_def map_sum_def split: sum.splits)
  then obtain i where ins: "insert_user nm d [] role src ext now db = Inr (db', i)" and u: "byId i db' = Some u"
    by (auto simp: createExternal_def read_back_def split: sum.splits option.splits)
  have "i = Suc (users_seq db)" using ins by (cases rule: insert_user_cases) auto
  then have "i \<notin> user_ids db" using inv by (fastforce simp: acc_inv_def users_ok_def)
  moreover have "pu_id u = i" using u by (auto simp: byId_def rowById_def toPublic_def dest: first_where_SomeD)
  moreover have "rowById i db = None" using \<open>i \<notin> user_ids db\<close> by (auto simp: rowById_def first_where_None)
  ultimately show ?thesis by (simp add: None factor_kept_def)
qed

lemma login_account_cases:
  assumes inv: "acc_inv (h_acc s)" and acc: "login_account ldap b36 ev rq n pw s = Inr (Inr (s1, f))"
  obtains (local) r where "s1 = s" "f = Some r" "rowByName n (h_acc s) = Some r" "u_source r \<noteq> ''ldap''"
      "u_password_hash r \<noteq> []" "ev_verify_password ev pw (u_password_hash r)"
  | (directory) bind ident role i where "ldap = Some bind" "bind n pw = Some ident" "ld_role ident = Some role"
      "role \<noteq> []" "f = rowById i (h_acc s1)" "factor_kept i (h_acc s) (h_acc s1)"
      "case rowByExternal ''ldap'' (ld_dn ident) (h_acc s) of Some r \<Rightarrow> u_id r = i | None \<Rightarrow> i \<notin> user_ids (h_acc s)"
proof -
  have known: "h_acc s2 = h_acc s" if "knownRole ev r s = (s2, m)" for r s2 m
    using that by (auto simp: knownRole_def hub_role_exists_def split: prod.splits)
  have "(\<exists>r. s1 = s \<and> f = Some r \<and> rowByName n (h_acc s) = Some r \<and> u_source r \<noteq> ''ldap'' \<and>
      u_password_hash r \<noteq> [] \<and> ev_verify_password ev pw (u_password_hash r)) \<or>
    (\<exists>bind ident role u s2 m. ldap = Some bind \<and> bind n pw = Some ident \<and> ld_role ident = Some role \<and> role \<noteq> [] \<and>
      f = rowById (pu_id u) (h_acc s1) \<and> knownRole ev role s = (s2, m) \<and>
      resolveExternalUser b36 ''ldap'' (ld_dn ident) (ld_username ident) (ld_displayName ident) role True
        (ev_now ev) (h_acc s2) = Inr (h_acc s1, Some u))"
    using acc by (auto simp: login_account_def Let_def split: if_splits option.splits sum.splits prod.splits)
  then show thesis
  proof
    assume "\<exists>r. s1 = s \<and> f = Some r \<and> rowByName n (h_acc s) = Some r \<and> u_source r \<noteq> ''ldap'' \<and>
      u_password_hash r \<noteq> [] \<and> ev_verify_password ev pw (u_password_hash r)"
    then show thesis using local by blast
  next
    assume "\<exists>bind ident role u s2 m. ldap = Some bind \<and> bind n pw = Some ident \<and> ld_role ident = Some role \<and>
      role \<noteq> [] \<and> f = rowById (pu_id u) (h_acc s1) \<and> knownRole ev role s = (s2, m) \<and>
      resolveExternalUser b36 ''ldap'' (ld_dn ident) (ld_username ident) (ld_displayName ident) role True
        (ev_now ev) (h_acc s2) = Inr (h_acc s1, Some u)"
    then obtain bind ident role u s2 m where d: "ldap = Some bind" "bind n pw = Some ident" "ld_role ident = Some role"
        "role \<noteq> []" "f = rowById (pu_id u) (h_acc s1)" and k: "knownRole ev role s = (s2, m)"
      and res: "resolveExternalUser b36 ''ldap'' (ld_dn ident) (ld_username ident) (ld_displayName ident) role True
        (ev_now ev) (h_acc s2) = Inr (h_acc s1, Some u)" by blast
    show thesis
      using directory [OF d] resolve_account [OF inv res [unfolded known [OF k]]] by blast
  qed
qed

lemma consume_read_kept:
  assumes "factor_kept i db db1" "rowById i db = Some r"
  shows "consume_read i h db = consume_read i h db1"
proof -
  obtain r1 where "rowById i db1 = Some r1" "u_totp_backup r1 = u_totp_backup r"
    using assms by (auto simp: factor_kept_def)
  then show ?thesis using assms(2) by (simp add: consume_read_def totpBackupHashes_def)
qed

lemma consumed_before:
  assumes "consumeBackupCode i h db1 = Inr (x, True)" "factor_kept i db db1" "rowById i db = Some r"
  shows "\<exists>y. consumeBackupCode i h db = Inr (y, True)"
  using assms(1) consume_read_kept [OF assms(2,3), of h]
  by (auto simp: consumeBackupCode_def consume_write_def split: sum.splits option.splits)

lemma login_checked_factors:
  assumes inv: "hub_inv s"
    and acc: "login_account ldap b36 ev rq (login_name rq) (login_password rq) s = Inr (Inr (s1, f))"
    and chk: "login_checked ev rq (login_name rq) (login_code rq) f s1 = (s', ApiJson 200 (User (Some u)))"
  shows "first_factor_ok ldap ev rq s (pu_id u) \<and> pu_disabledAt u = None \<and>
    second_factor_ok ev rq s (pu_id u) \<and> has_session ev rq (pu_id u) s'"
proof -
  note a0 = hub_invD(1) [OF inv]
  have a1: "acc_inv (h_acc s1)" using login_account_inv [OF inv acc] by (blast dest: hub_invD(1))
  have mem: "row \<in> set (users (h_acc s1))" if "f = Some row" for row
    using that by (cases rule: login_account_cases [OF a0 acc]) (auto simp: rowByName_def rowById_def dest: first_where_SomeD first_where_SomeD [OF sym])
  obtain row where row: "f = Some row" "u = toPublic row" "u_disabled_at row = None" "has_session ev rq (u_id row) s'"
    and second: "u_totp_secret row = None \<or>
      (\<exists>sec. totpSecret (ev_open_secret ev) row = Some sec \<and> ev_verify_totp ev sec (login_code rq)) \<or>
      (\<exists>db. consumeBackupCode (u_id row) (ev_sha ev (login_code rq)) (h_acc s1) = Inr (db, True))"
    using login_checked_ok [OF a1 mem chk] by blast
  have here: "rowById (u_id row) (h_acc s1) = Some row" by (rule first_user [OF a1 mem [OF row(1)]])
  have two: "second_factor_ok ev rq s (u_id row)" if "factor_kept (u_id row) (h_acc s) (h_acc s1)"
    using second that here consumed_before [OF _ that]
    by (auto simp: second_factor_ok_def factor_kept_def totpSecret_def split: option.splits)
  have "first_factor_ok ldap ev rq s (u_id row) \<and> second_factor_ok ev rq s (u_id row)"
    using a0 acc
  proof (cases rule: login_account_cases)
    case (local r)
    then show ?thesis using two row(1) factor_kept_refl
      by (auto simp: first_factor_ok_def rowByName_def dest!: first_where_SomeD)
  next
    case (directory bind ident role i)
    then have "i = u_id row" using row(1) by (auto simp: rowById_def dest: first_where_SomeD [OF sym])
    with directory two show ?thesis by (auto simp: first_factor_ok_def)
  qed
  with row show ?thesis by (simp add: toPublic_def)
qed

text \<open>
  C3. A login that answers with a user has checked everything, against the state it started from: the
  source was not locked out; the name and password were accepted by the hash of that very local
  account, or by the directory for the identity whose account it is; the account is enabled; the
  account's second factor, where one is set up, was a valid code or an unused backup code, whether the
  account is local or of the directory (only an account this login has just created has none to
  check); and then a session for that user is stored under the hash of the issued token.
\<close>

theorem login_sound:
  assumes "hub_inv s" "login_POST ldap b36 ev rq s = (s', ApiJson 200 (User (Some u)))"
  shows "lockedUntil (rq_ip rq) (ev_lockout ev) (ev_now ev) (h_attempts s) = None \<and>
    first_factor_ok ldap ev rq s (pu_id u) \<and> pu_disabledAt u = None \<and>
    second_factor_ok ev rq s (pu_id u) \<and> has_session ev rq (pu_id u) s'"
proof -
  obtain b where b: "rq_payload rq = Body b" "b \<noteq> JNull"
    using assms(2) by (auto simp: login_POST_def with_body_def split: payload.splits if_splits)
  have bo: "body_of rq = b" by (simp add: body_of_def b)
  have lock: "lockedUntil (rq_ip rq) (ev_lockout ev) (ev_now ev) (h_attempts s) = None"
    using assms(2) by (auto simp: login_POST_def with_body_def b Let_def split: if_splits)
  have "attempt (login_account ldap b36 ev rq (login_name rq) (login_password rq) s) s (\<lambda>res. case res of
      Inl s1 \<Rightarrow> login_fail ev rq (login_name rq) s1
    | Inr (s1, found) \<Rightarrow> login_checked ev rq (login_name rq) (login_code rq) found s1)
     = (s', ApiJson 200 (User (Some u)))"
    using assms(2) b lock unfolding login_name_def login_password_def login_code_def bo
    by (auto simp: login_POST_def with_body_def Let_def login_fail_not_ok split: if_splits)
  then obtain s1 f where acc: "login_account ldap b36 ev rq (login_name rq) (login_password rq) s = Inr (Inr (s1, f))"
    and chk: "login_checked ev rq (login_name rq) (login_code rq) f s1 = (s', ApiJson 200 (User (Some u)))"
    by (auto simp: attempt_def login_fail_not_ok split: sum.splits prod.splits)
  from login_checked_factors [OF assms(1) acc chk] show ?thesis using lock by simp
qed

definition demo_login :: request where
  "demo_login = demo_request None None [(''username'', JStr ''ada''), (''password'', JStr ''longenough'')]"

lemma demo_login_ok:
  "\<exists>s' u. login_POST None (\<lambda>_. []) (demo_env\<lparr> ev_token := ''tok2'' \<rparr>) demo_login demo_hub
     = (s', ApiJson 200 (User (Some u)))"
proof -
  have "case snd (login_POST None (\<lambda>_. []) (demo_env\<lparr> ev_token := ''tok2'' \<rparr>) demo_login demo_hub) of
      ApiJson n (User (Some u)) \<Rightarrow> n = 200 | _ \<Rightarrow> False" by code_simp
  then obtain u where "snd (login_POST None (\<lambda>_. []) (demo_env\<lparr> ev_token := ''tok2'' \<rparr>) demo_login demo_hub)
      = ApiJson 200 (User (Some u))"
    by (auto split: reply.splits answer.splits option.splits)
  then show ?thesis by (metis prod.collapse)
qed

definition demo_bind :: "string \<Rightarrow> string \<Rightarrow> ldap_identity option" where
  "demo_bind n pw = (if pw = ''longenough'' then Some \<lparr> ld_dn = ''cn='' @ n, ld_username = n, ld_displayName = n,
     ld_role = Some ''viewer'' \<rparr> else None)"

definition demo_ldap_login :: request where
  "demo_ldap_login = demo_request None None [(''username'', JStr ''eve''), (''password'', JStr ''longenough'')]"

lemma demo_ldap_login_ok:
  "\<exists>s' u. login_POST (Some demo_bind) (\<lambda>_. []) (demo_env\<lparr> ev_token := ''tok2'' \<rparr>) demo_ldap_login demo_hub
     = (s', ApiJson 200 (User (Some u)))"
proof -
  have "case snd (login_POST (Some demo_bind) (\<lambda>_. []) (demo_env\<lparr> ev_token := ''tok2'' \<rparr>) demo_ldap_login demo_hub) of
      ApiJson n (User (Some u)) \<Rightarrow> n = 200 | _ \<Rightarrow> False" by code_simp
  then obtain u where "snd (login_POST (Some demo_bind) (\<lambda>_. []) (demo_env\<lparr> ev_token := ''tok2'' \<rparr>) demo_ldap_login
      demo_hub) = ApiJson 200 (User (Some u))"
    by (auto split: reply.splits answer.splits option.splits)
  then show ?thesis by (metis prod.collapse)
qed

lemma login_sound_witness:
  "(\<exists>s' u. login_POST None (\<lambda>_. []) (demo_env\<lparr> ev_token := ''tok2'' \<rparr>) demo_login demo_hub
      = (s', ApiJson 200 (User (Some u))) \<and>
     first_factor_ok None (demo_env\<lparr> ev_token := ''tok2'' \<rparr>) demo_login demo_hub (pu_id u)) \<and>
   (\<exists>s' u. login_POST (Some demo_bind) (\<lambda>_. []) (demo_env\<lparr> ev_token := ''tok2'' \<rparr>) demo_ldap_login demo_hub
      = (s', ApiJson 200 (User (Some u))) \<and>
     second_factor_ok (demo_env\<lparr> ev_token := ''tok2'' \<rparr>) demo_ldap_login demo_hub (pu_id u))"
  using login_sound demo_login_ok demo_ldap_login_ok demo_hub_inv by metis

definition same_so_far :: "hub \<Rightarrow> hub \<Rightarrow> bool" where
  "same_so_far s s1 = (h_attempts s1 = h_attempts s \<and> sessions (h_acc s1) = sessions (h_acc s))"

lemma external_sessions:
  "resolveExternalUser b36 src ext n d role sync now db = Inr (db', u) \<Longrightarrow> sessions db' = sessions db"
proof -
  assume r: "resolveExternalUser b36 src ext n d role sync now db = Inr (db', u)"
  have ins: "insert_user a b c e f g h db = Inr (db'', i) \<Longrightarrow> sessions db'' = sessions db" for a b c e f g h db'' i
    by (cases rule: insert_user_cases) auto
  have "createExternal a b c e f g db = Inr (db'', w) \<Longrightarrow> sessions db'' = sessions db" for a b c e f g db'' w
    using creation_cases(2) ins by metis
  with r show ?thesis
    by (auto simp: resolveExternalUser_def Let_def syncExternal_def map_sum_def split: option.splits sum.splits if_splits)
qed

lemma login_account_same:
  assumes "login_account ldap b36 ev rq n pw s = Inr res"
  shows "(\<forall>s1. res = Inl s1 \<longrightarrow> same_so_far s s1) \<and> (\<forall>s1 f. res = Inr (s1, f) \<longrightarrow> same_so_far s s1)"
proof -
  have "h_attempts s1 = h_attempts s \<and> h_acc s1 = h_acc s" if "knownRole ev r s = (s1, m)" for r s1 m
    using that by (auto simp: knownRole_def hub_role_exists_def split: prod.splits)
  with assms show ?thesis
    by (auto simp: login_account_def Let_def same_so_far_def dest!: external_sessions
        split: if_splits option.splits sum.splits prod.splits)
qed

lemma second_factor_same: "login_second_factor ev row code s = Inr (s1, b) \<Longrightarrow> same_so_far s s1"
  by (auto simp: login_second_factor_def consumeBackupCode_def consume_write_def same_so_far_def map_sum_def
      split: if_splits sum.splits option.splits)

definition refused :: "env \<Rightarrow> request \<Rightarrow> hub \<Rightarrow> hub \<Rightarrow> bool" where
  "refused ev rq s s' = (\<exists>n s1 r. login_fail ev rq n s1 = (s', r) \<and> same_so_far s s1)"

lemma refusedI: "login_fail ev rq n s1 = (s', r) \<Longrightarrow> same_so_far s s1 \<Longrightarrow> refused ev rq s s'"
  by (auto simp: refused_def)

lemma login_fail_counts:
  assumes "login_fail ev rq n s1 = (s', r)" "same_so_far s s1" "since \<le> ev_now ev"
  shows "key_failures (rq_ip rq) since (h_attempts s') = Suc (key_failures (rq_ip rq) since (h_attempts s)) \<and>
    sessions (h_acc s') = sessions (h_acc s)"
  using assms
  by (auto simp: login_fail_def Let_def same_so_far_def key_failures_def attempts_count_def attempt_record_def n_where_def)

text \<open>
  Every refused login counts: it adds exactly one failure for the source, which with the
  lockout of the protector bounds the guesses of one source, and it creates no session.
\<close>

theorem refused_login_counts:
  assumes "login_POST ldap b36 ev rq s = (s', ApiError 401 m)" "since \<le> ev_now ev"
  shows "key_failures (rq_ip rq) since (h_attempts s') = Suc (key_failures (rq_ip rq) since (h_attempts s)) \<and>
    sessions (h_acc s') = sessions (h_acc s)"
proof -
  have refl: "same_so_far s1 s1" for s1 by (simp add: same_so_far_def)
  have fin: "login_finish ev rq n row u s1 \<noteq> (s', ApiError 401 m)" for n row u s1
    by (auto simp: login_finish_def Let_def attempt_def split: sum.split)
  have aud: "same_so_far s0 (audit_as ev a b c d e s1) = same_so_far s0 s1" for s0 s1 a b c d e
    by (simp add: same_so_far_def)
  have tr: "same_so_far s s1 \<Longrightarrow> same_so_far s1 s2 \<Longrightarrow> same_so_far s s2" for s1 s2 by (simp add: same_so_far_def)
  have chk: "refused ev rq s s'"
    if c: "login_checked ev rq n code f s1 = (s', ApiError 401 m)" and s: "same_so_far s s1" for n code f s1
    using c s fin
    by (auto simp: login_checked_def attempt_def aud split: option.splits if_splits sum.splits
        intro: refusedI tr dest!: second_factor_same)
  define body where "body = (\<lambda>b. let username = take 128 (str_or_empty (jmember ''username'' b));
      password = take 256 (str_or_empty (jmember ''password'' b)); code = js_trim (str_or_empty (jmember ''totp'' b))
    in attempt (login_account ldap b36 ev rq username password s) s (\<lambda>res. case res of
          Inl s1 \<Rightarrow> login_fail ev rq username s1
        | Inr (s1, found) \<Rightarrow> login_checked ev rq username code found s1))"
  have bd: "refused ev rq s s'" if "body b = (s', ApiError 401 m)" for b
    using that login_account_same [of ldap b36 ev rq _ _ s]
    by (auto simp: body_def Let_def attempt_def split: sum.splits prod.splits intro: refusedI chk)
  obtain b where "rq_payload rq = Body b" "b \<noteq> JNull"
    "(\<exists>n. login_fail ev rq n s = (s', ApiError 401 m)) \<or> body b = (s', ApiError 401 m)"
    using assms(1) by (auto simp: login_POST_def with_body_def body_def Let_def split: payload.splits if_splits)
  with bd refl have "refused ev rq s s'" by (auto intro: refusedI)
  with login_fail_counts assms(2) show ?thesis by (auto simp: refused_def)
qed

lemma refused_login_counts_witness:
  "\<exists>s' m. login_POST None (\<lambda>_. []) demo_env (demo_request None None
      [(''username'', JStr ''ada''), (''password'', JStr ''wrong'')]) demo_hub = (s', ApiError 401 m) \<and>
     key_failures ''ip'' 0 (h_attempts s') = Suc (key_failures ''ip'' 0 (h_attempts demo_hub))"
proof -
  let ?rq = "demo_request None None [(''username'', JStr ''ada''), (''password'', JStr ''wrong'')]"
  have "snd (login_POST None (\<lambda>_. []) demo_env ?rq demo_hub) = ApiError 401 GENERIC" by code_simp
  then obtain s' where "login_POST None (\<lambda>_. []) demo_env ?rq demo_hub = (s', ApiError 401 GENERIC)"
    by (metis prod.collapse)
  moreover have "rq_ip ?rq = ''ip''" "ev_now demo_env = 1000" by (simp_all add: demo_request_def demo_env_def)
  ultimately show ?thesis using refused_login_counts [of None "\<lambda>_. []" demo_env ?rq demo_hub _ _ 0] by fastforce
qed

end
