(* ===== verification/Admin_Grants.thy ===== *)
theory Admin_Grants
  imports Admin_Props
begin

text \<open>
  How far the permission model reaches: what the user and invitation requests can hand out, and
  the two requests that are not bounded by the caller's own permissions.
\<close>

section \<open>Bounded grants\<close>

lemma hub_can_grant_true:
  assumes "hub_inv s" "hub_can_grant ev rq n s = Inr (s1, True)"
  shows "\<exists>ps. rq_perms rq = Some ps \<and> granted (ro_rows (ensureSeeded (ev_now ev) (h_roles s))) n \<subseteq> ps \<and>
    h_acc s1 = h_acc s \<and> ro_rows (h_roles s1) = ro_rows (ensureSeeded (ev_now ev) (h_roles s))"
proof -
  obtain r where c: "canGrantRole (h_roles s) (rq_perms rq) n (ev_now ev) = Inr (r, True)"
    and s1: "s1 = s\<lparr> h_roles := r \<rparr>"
    using assms(2) by (cases "canGrantRole (h_roles s) (rq_perms rq) n (ev_now ev)") (auto simp: hub_can_grant_def)
  from can_grant_spec [OF hub_invD(2) [OF assms(1)], of "rq_perms rq" n "ev_now ev"] c
  obtain ps where "rq_perms rq = Some ps" "granted (ro_rows (ensureSeeded (ev_now ev) (h_roles s))) n \<subseteq> ps"
    by (auto split: option.splits)
  with can_grant_true_rows [OF hub_invD(2) [OF assms(1)] c] show ?thesis by (simp add: s1)
qed


lemma hub_role_exists_rows:
  "hub_role_exists ev n s = (s1, b) \<Longrightarrow> h_roles s1 = ensureSeeded (ev_now ev) (h_roles s) \<and> h_acc s1 = h_acc s"
  by (auto simp: hub_role_exists_def role_exists_def Let_def split: prod.splits)

lemma exists_then_grant:
  assumes "hub_inv s" "hub_role_exists ev n s = (s1, True)" "hub_can_grant ev rq n s1 = Inr (s2, True)"
  shows "\<exists>ps. rq_perms rq = Some ps \<and> granted (ro_rows (h_roles s2)) n \<subseteq> ps \<and> h_acc s2 = h_acc s \<and> hub_inv s2"
  using hub_role_exists_spec [OF assms(1,2)] hub_role_exists_rows [OF assms(2)]
    hub_can_grant_true [of s1 ev rq n s2] hub_can_grant_spec [of s1 ev rq n s2] assms(3)
  by auto

lemma create_user_role:
  assumes "acc_inv db" "create_user n pw r d now db = Inr (db', u)"
  shows "pu_role u = r"
proof -
  from creation_cases(1) [OF assms(2)] obtain i where
    ins: "insert_user n d pw r ''local'' (localExternalId n) now db = Inr (db', i)" and u: "byId i db' = Some u" by blast
  from ins obtain row where row: "row \<in> set (users db')" "u_id row = i" "u_role row = r"
    by (cases rule: insert_user_cases) auto
  have "byId i db' = Some (toPublic row)"
    using first_user [OF insert_user_inv [OF assms(1) ins] row(1)] row(2) by (simp add: byId_def)
  with u row(3) show ?thesis by (auto simp: toPublic_def)
qed

text \<open>
  C7. Creating an account or an invitation never hands out more than the caller holds: a
  successful request was sent with the permission for it, and every permission the new account or
  link carries is one of the caller's own.
\<close>

theorem grants_bounded:
  assumes "hub_inv s"
  shows "(\<forall>s' x. users_POST ev rq s = (s', ApiJson 201 x) \<longrightarrow>
       (\<exists>ps u. rq_perms rq = Some ps \<and> UsersManage \<in> ps \<and> x = User (Some u) \<and>
          granted (ro_rows (h_roles s')) (pu_role u) \<subseteq> ps)) \<and>
    (\<forall>s' x. invites_POST num ev rq s = (s', ApiJson 201 x) \<longrightarrow>
       (\<exists>ps r. rq_perms rq = Some ps \<and> InvitesManage \<in> ps \<and> granted (ro_rows (h_roles s')) r \<subseteq> ps \<and>
          (\<exists>i. invites (h_acc s') = invites (h_acc s) @ [i] \<and> i_role i = r \<and> i_kind i = Invite)))"
proof (intro conjI allI impI)
  fix s' x assume r: "users_POST ev rq s = (s', ApiJson 201 x)"
  from requirePerm_ok [OF r [unfolded users_POST_def]] obtain ps where
    ps: "rq_perms rq = Some ps" "UsersManage \<in> ps" by auto
  from r obtain role s1 s2 db u n pw d where
    e: "hub_role_exists ev role s = (s1, True)" and g: "hub_can_grant ev rq role s1 = Inr (s2, True)"
    and c: "create_user n pw role d (ev_now ev) (h_acc s2) = Inr (db, u)"
    and x: "x = User (Some u)" "h_roles s' = h_roles s2"
    by (auto simp: users_POST_def requirePerm_def requireUser_def with_body_def Let_def attempt_def
        split: option.splits payload.splits if_splits json.splits prod.splits bool.splits sum.splits)
  from exists_then_grant [OF assms e g] ps create_user_role [OF _ c] x
  show "\<exists>ps u. rq_perms rq = Some ps \<and> UsersManage \<in> ps \<and> x = User (Some u) \<and>
      granted (ro_rows (h_roles s')) (pu_role u) \<subseteq> ps"
    by (auto simp: hub_inv_def)
next
  fix s' x assume r: "invites_POST num ev rq s = (s', ApiJson 201 x)"
  from requirePerm_ok [OF r [unfolded invites_POST_def]] obtain ps where
    ps: "rq_perms rq = Some ps" "InvitesManage \<in> ps" by auto
  have ex: "hub_inv s1 \<and> h_acc s1 = h_acc s" if "hub_role_exists ev n s = (s1, b)" for n s1 b
    using hub_role_exists_spec [OF assms that] by simp
  have own: "hub_inv s \<and> h_acc s = h_acc s" using assms by simp
  from r obtain role s1 s2 db c ttl t iv where
    s1: "hub_inv s1 \<and> h_acc s1 = h_acc s" and g: "hub_can_grant ev rq role s1 = Inr (s2, True)"
    and c: "invite_create (ev_sha ev) (ev_token ev) Invite role None c ttl (ev_now ev) (h_acc s2) = Inr (db, t, iv)"
    and x: "h_roles s' = h_roles s2" "h_acc s' = db"
    by (auto simp: invites_POST_def requirePerm_def requireUser_def with_body_def Let_def attempt_def
        split: option.splits payload.splits if_splits json.splits prod.splits sum.splits dest: ex) (use own in blast)
  have "\<exists>i. invites db = invites (h_acc s2) @ [i] \<and> i_role i = role \<and> i_kind i = Invite"
    using c by (auto simp: invite_create_def Let_def split: if_splits option.splits)
  with hub_can_grant_true [OF _ g] s1 ps x
  show "\<exists>ps r. rq_perms rq = Some ps \<and> InvitesManage \<in> ps \<and> granted (ro_rows (h_roles s')) r \<subseteq> ps \<and>
          (\<exists>i. invites (h_acc s') = invites (h_acc s) @ [i] \<and> i_role i = r \<and> i_kind i = Invite)"
    by auto
qed


lemma grants_bounded_witness:
  "\<exists>s' x u. users_POST demo_env (demo_request (Some ada) (Some UNIV)
      [(''username'', JStr ''bob''), (''password'', JStr ''secret123''), (''role'', JStr ''viewer'')]) demo_hub
      = (s', ApiJson 201 x) \<and> x = User (Some u) \<and> granted (ro_rows (h_roles s')) (pu_role u) \<subseteq> UNIV"
proof -
  let ?ps = "set ALL_PERMISSIONS"
  let ?rq = "demo_request (Some ada) (Some ?ps)
      [(''username'', JStr ''bob''), (''password'', JStr ''secret123''), (''role'', JStr ''viewer'')]"
  have "case snd (users_POST demo_env ?rq demo_hub) of ApiJson n _ \<Rightarrow> n = 201 | _ \<Rightarrow> False" by code_simp
  then obtain x s' where r: "users_POST demo_env ?rq demo_hub = (s', ApiJson 201 x)"
    by (auto split: reply.splits) (metis prod.collapse)
  have "\<exists>ps u. x = User (Some u) \<and> granted (ro_rows (h_roles s')) (pu_role u) \<subseteq> ps"
    using grants_bounded [OF demo_hub_inv, THEN conjunct1, rule_format, OF r] by blast
  with r show ?thesis by (auto simp: ALL_PERMISSIONS_UNIV)
qed

section \<open>Unbounded requests\<close>

definition edit_role :: "public_user \<Rightarrow> permission set \<Rightarrow> string \<Rightarrow> permission list \<Rightarrow> request" where
  "edit_role actor ps ip wanted =
     \<lparr> rq_user = Some actor, rq_perms = Some ps, rq_session = None,
       rq_payload = Body (JObj [(''permissions'', json_strings (map perm_name wanted))]), rq_ip = ip, rq_agent = None \<rparr>"

lemma parsePermissions_names: "parsePermissions (json_strings (map perm_name ps)) = Some (rev (remdups (rev ps)))"
proof -
  have "list_all isPermission (map (JStr \<circ> perm_name) ps)" by (induction ps) (auto simp: isPermission_def)
  then show ?thesis by (simp add: parsePermissions_def json_strings_def map_filter_perm_of)
qed

text \<open>
  The roles API has no such bound: whoever holds \<open>roles.manage\<close> can give any role but admin,
  the own role included, every permission there is.
\<close>

theorem role_edit_unbounded:
  assumes "hub_inv s" "RolesManage \<in> ps" "n \<noteq> ''admin''"
    and "n \<in> ro_name ` set (ro_rows (ensureSeeded (ev_now ev) (h_roles s)))"
  shows "\<exists>s' x. role_PATCH ev n (edit_role actor ps ip wanted) s = (s', ApiJson 200 x) \<and>
    granted (ro_rows (h_roles s')) n = set wanted"
proof -
  let ?r = "ensureSeeded (ev_now ev) (h_roles s)"
  obtain info where g: "role_get n (ev_now ev) (h_roles s) = (?r, Some info)"
    using assms(4) by (cases "first_where (\<lambda>r. ro_name r = n) (ro_rows ?r)")
      (auto simp: role_get_def Let_def first_where_None)
  obtain r2 res where u: "role_update n (ri_label info) (rev (remdups (rev wanted))) (ev_now ev) ?r = (r2, res)"
    by (meson surj_pair)
  have ok: "res = Ok" using u assms(3,4)
    by (auto simp: role_update_def role_exists_def Let_def split: bool.splits)
  have inv: "role_inv ?r" using hub_invD(2) [OF assms(1)] by simp
  from role_update_inv [OF inv u] ok assms(3) have r2: "ro_seeded r2" "granted (ro_rows r2) n = set wanted"
    by (auto simp: granted_def)
  have "role_PATCH ev n (edit_role actor ps ip wanted) s =
     ((audit ev (edit_role actor ps ip wanted) ''roles.update''
        (Some (''name='' @ n @ '' perms='' @ perm_list (rev (remdups (rev wanted))))) (s\<lparr> h_roles := r2 \<rparr>))
        \<lparr> h_roles := fst (role_get n (ev_now ev) r2) \<rparr>,
      ApiJson 200 (Role (snd (role_get n (ev_now ev) r2))))"
    using assms(2) g u ok
    by (simp add: role_PATCH_def edit_role_def requirePerm_def requireUser_def with_body_def jmember_def Let_def
        parsePermissions_names split: prod.split)
  moreover have "ro_rows (fst (role_get n (ev_now ev) r2)) = ro_rows r2"
    using r2(1) by (simp add: role_get_def Let_def ensureSeeded_id)
  ultimately show ?thesis using r2(2) by simp
qed

lemma role_edit_unbounded_witness:
  "\<exists>s' x. role_PATCH demo_env ''operator'' (edit_role (ada\<lparr> pu_role := ''operator'' \<rparr>) {RolesManage} ''ip'' ALL_PERMISSIONS)
      demo_hub = (s', ApiJson 200 x) \<and> granted (ro_rows (h_roles s')) ''operator'' = UNIV"
proof -
  have "''operator'' \<in> ro_name ` set (ro_rows (ensureSeeded 1000 (h_roles demo_hub)))"
    using seed_ok(3) [of 1000 "[]"]
    by (simp add: ensureSeeded_def demo_hub_users builtins_present_def builtin_name_def BUILTINS_def)
  then show ?thesis
    using role_edit_unbounded [OF demo_hub_inv, of "{RolesManage}" "''operator''" demo_env
        "ada\<lparr> pu_role := ''operator'' \<rparr>" "''ip''" ALL_PERMISSIONS]
    by (simp add: demo_env_def ALL_PERMISSIONS_UNIV)
qed

text \<open>The request that sends a new password to a reset link.\<close>

definition new_password :: "string \<Rightarrow> string \<Rightarrow> request" where
  "new_password ip pw =
     \<lparr> rq_user = None, rq_perms = None, rq_session = None,
       rq_payload = Body (JObj [(''password'', JStr pw)]), rq_ip = ip, rq_agent = None \<rparr>"

definition reset_row :: "env \<Rightarrow> nat \<Rightarrow> string \<Rightarrow> nat \<Rightarrow> invite_row" where
  "reset_row ev i role creator =
     \<lparr> i_token_hash = ev_sha ev (ev_token ev), i_kind = Reset, i_role = role, i_user_id = Some i,
       i_created_by = Some creator, i_created_at = ev_now ev,
       i_expires_at = ev_now ev + ev_invite_ttl_hours ev * 3600000, i_used_at = None, i_revoked_at = None \<rparr>"

lemma fresh_lookup:
  assumes "\<forall>i \<in> set ivs. i_token_hash i \<noteq> th" "i_token_hash r = th"
  shows "first_where (\<lambda>i. i_token_hash i = th) (ivs @ [r]) = Some r"
  using assms by (induction ivs) (auto simp: first_where_Cons)

lemma reset_issued:
  assumes inv: "hub_inv s" and rq: "rq_user rq = Some actor" "rq_perms rq = Some ps" "UsersManage \<in> ps"
    and t: "t \<in> set (users (h_acc s))" "u_disabled_at t = None" "0 < u_id t"
    and fresh: "\<forall>i \<in> set (invites (h_acc s)). i_token_hash i \<noteq> ev_sha ev (ev_token ev)"
  shows "\<exists>s1 ivs. user_reset_POST ev (Some (int (u_id t))) rq s = (s1, ApiJson 200 (Link (ev_token ev))) \<and>
    users (h_acc s1) = users (h_acc s) \<and> invites (h_acc s1) = ivs @ [reset_row ev (u_id t) (u_role t) (pu_id actor)] \<and>
    (\<forall>i \<in> set ivs. i_token_hash i \<noteq> ev_sha ev (ev_token ev)) \<and>
    sessions (h_acc s1) = del_where (\<lambda>r. s_user_id r = u_id t) (sessions (h_acc s)) \<and>
    hub_inv s1"
proof -
  let ?db = "revokeUserSessions (u_id t) None (revokeForUser (u_id t) (ev_now ev) (h_acc s))"
  have byu: "userOr404 (Some (int (u_id t))) (h_acc s) = Some (toPublic t)"
    using first_user [OF hub_invD(1) [OF inv] t(1)] t(3) by (simp add: userOr404_def byId_def)
  have iv: "\<forall>i \<in> set (invites ?db). i_token_hash i \<noteq> ev_sha ev (ev_token ev)"
    using fresh by (auto simp: revokeForUser_def revokeUserSessions_def dest!: set_upd_whereD split: if_splits)
  let ?db2 = "?db\<lparr> invites := invites ?db @ [reset_row ev (u_id t) (u_role t) (pu_id actor)] \<rparr>"
  have c: "invite_create (ev_sha ev) (ev_token ev) Reset (u_role t) (Some (u_id t)) (Some (pu_id actor))
      (ev_invite_ttl_hours ev * 3600000) (ev_now ev) ?db
      = Inr (?db2, ev_token ev, toInvite (reset_row ev (u_id t) (u_role t) (pu_id actor)))"
    using iv t(1) fresh_lookup [OF iv, of "reset_row ev (u_id t) (u_role t) (pu_id actor)"]
    by (auto simp: invite_create_def Let_def invite_lookup_def reset_row_def)
  have pub: "pu_id (toPublic t) = u_id t" "pu_role (toPublic t) = u_role t" "pu_disabledAt (toPublic t) = None"
    using t(2) by (simp_all add: toPublic_def)
  obtain s1 where s1: "user_reset_POST ev (Some (int (u_id t))) rq s = (s1, ApiJson 200 (Link (ev_token ev)))"
    "h_acc s1 = ?db2"
    using c by (simp add: user_reset_POST_def requirePerm_def requireUser_def rq byu pub Let_def attempt_def)
  moreover have "hub_inv s1" using user_handlers_inv(3) [OF inv, of ev "Some (int (u_id t))" rq] s1(1) by simp
  moreover have "sessions ?db2 = del_where (\<lambda>r. s_user_id r = u_id t) (sessions (h_acc s))"
    by (simp add: revokeUserSessions_def revokeForUser_def)
  moreover have "users ?db2 = users (h_acc s)" by simp
  moreover have "invites ?db2 = invites ?db @ [reset_row ev (u_id t) (u_role t) (pu_id actor)]" by simp
  ultimately show ?thesis using iv by metis
qed

lemma reset_accepted:
  assumes inv: "hub_inv s" and t: "t \<in> set (users (h_acc s))" "u_disabled_at t = None"
    and iv: "invites (h_acc s) = ivs @ [reset_row ev (u_id t) role creator]"
      "\<forall>i \<in> set ivs. i_token_hash i \<noteq> ev_sha ev (ev_token ev)"
    and ev2: "ev2 = ev\<lparr> ev_token := tok2 \<rparr>" "0 < ev_invite_ttl_hours ev"
    and fresh: "\<forall>x \<in> set (sessions (h_acc s)). s_token_hash x \<noteq> ev_sha ev tok2"
    and pw: "checkPassword pw (u_username t) (ev_min_length ev) = None"
  shows "\<exists>s2. invite_POST ev2 (ev_token ev) (new_password ip pw) s = (s2, ApiJson 200 Done) \<and>
    has_session ev2 (new_password ip pw) (u_id t) s2 \<and>
    users (h_acc s2) = users (setPassword (u_id t) (ev_hash_password ev pw) (h_acc s))"
proof -
  let ?r = "reset_row ev (u_id t) role creator" let ?th = "ev_sha ev (ev_token ev)"
  let ?rq = "new_password ip pw"
  have look: "invite_lookup (ev_sha ev) (ev_token ev) (h_acc s) = Some (toInvite ?r)"
    using fresh_lookup [OF iv(2), of ?r] by (simp add: invite_lookup_def iv(1)) (simp add: reset_row_def)
  have use: "isUsable (toInvite ?r) (ev_now ev)" using ev2(2) by (simp add: isUsable_def toInvite_def reset_row_def)
  have byu: "byId (u_id t) (h_acc s) = Some (toPublic t)"
    using first_user [OF hub_invD(1) [OF inv] t(1)] by (simp add: byId_def)
  have pub: "pu_id (toPublic t) = u_id t" "pu_username (toPublic t) = u_username t" "pu_disabledAt (toPublic t) = None"
    using t(2) by (simp_all add: toPublic_def)
  have "filter (claimable_invite ?th (ev_now ev)) (invites (h_acc s)) = [?r]"
    using iv ev2(2) by (auto simp: filter_empty_conv claimable_invite_def) (simp_all add: reset_row_def)
  then have claim: "tryClaim ?th (ev_now ev) (h_acc s) = (fst (tryClaim ?th (ev_now ev) (h_acc s)), True)"
    by (simp add: tryClaim_def Let_def n_where_def)
  define db where "db = revokeForUser (u_id t) (ev_now ev) (revokeUserSessions (u_id t) None
      (setPassword (u_id t) (ev_hash_password ev pw) (fst (tryClaim ?th (ev_now ev) (h_acc s)))))"
  have us: "users db = users (setPassword (u_id t) (ev_hash_password ev pw) (h_acc s))"
    by (simp add: db_def) (simp add: setPassword_def upd_user_def)
  have ids: "u_id t \<in> user_ids db"
    using t(1) user_ids_upd [of "\<lambda>r. r\<lparr> u_password_hash := ev_hash_password ev pw \<rparr>" "u_id t" "h_acc s"]
    by (simp add: us setPassword_def)
  have "set (sessions db) \<subseteq> set (sessions (h_acc s))"
    by (auto simp: db_def revokeForUser_def revokeUserSessions_def setPassword_def tryClaim_def Let_def)
  with fresh have nf: "\<forall>x \<in> set (sessions db). s_token_hash x \<noteq> ev_sha ev tok2" by blast
  define s1 where "s1 = s\<lparr> h_acc := db \<rparr>"
  have nf2: "\<not> (\<forall>r \<in> set (users db). u_id r \<noteq> u_id t)" using ids by auto
  obtain s2 where iss: "issueSession ev2 ?rq (u_id t) s1 = Inr s2" and us2: "users (h_acc s2) = users db"
    using nf nf2 by (simp add: issueSession_def session_create_def ev2(1) s1_def)
  have "invite_POST ev2 (ev_token ev) ?rq s =
     (audit_as ev2 (Some (u_id t)) (Some (u_username t)) ''auth.password_reset'' None ip s2, ApiJson 200 Done)"
  proof -
    have e: "ev_sha ev2 = ev_sha ev" "ev_now ev2 = ev_now ev" "ev_min_length ev2 = ev_min_length ev"
      "ev_hash_password ev2 = ev_hash_password ev" by (simp_all add: ev2(1))
    have body: "with_body ?rq s k = k (JObj [(''password'', JStr pw)])" for k
      by (simp add: with_body_def new_password_def)
    have mem: "\<not> honeypotTripped (JObj [(''password'', JStr pw)])"
      "str_or_empty (jmember ''password'' (JObj [(''password'', JStr pw)])) = pw"
      by (simp_all add: honeypotTripped_def jmember_def str_or_empty_def)
    have kind: "in_kind (toInvite ?r) = Reset" "in_userId (toInvite ?r) = Some (u_id t)"
      "in_tokenHash (toInvite ?r) = ?th" by (simp_all add: toInvite_def reset_row_def)
    have s1: "on_acc (revokeForUser (u_id t) (ev_now ev)) (on_acc (revokeUserSessions (u_id t) None)
        (on_acc (setPassword (u_id t) (ev_hash_password ev pw)) (s\<lparr> h_acc := fst (tryClaim ?th (ev_now ev) (h_acc s)) \<rparr>))) = s1"
      by (simp add: s1_def db_def on_acc_def)
    have "accept_reset ev2 ?rq (toInvite ?r) pw s =
        (audit_as ev2 (Some (u_id t)) (Some (u_username t)) ''auth.password_reset'' None (rq_ip ?rq) s2, ApiJson 200 Done)"
      unfolding accept_reset_def kind option.case byu e pub Let_def pw
      by (subst claim) (simp add: s1 iss attempt_def pub)
    then show ?thesis unfolding invite_POST_def e look option.case body Let_def
      by (simp add: use mem kind) (simp add: new_password_def)
  qed
  with issueSession_session [OF iss] us us2 show ?thesis by auto
qed

text \<open>
  Nor has the password reset: whoever holds \<open>users.manage\<close>, without any other permission,
  obtains a link for any enabled account, an administrator's included, and that link sets the
  password and signs in as that account, without its second factor.
\<close>

theorem reset_takes_over:
  assumes "hub_inv s" "rq_user rq = Some actor" "rq_perms rq = Some ps" "UsersManage \<in> ps"
    and t: "t \<in> set (users (h_acc s))" "u_disabled_at t = None"
    and fresh: "\<forall>i \<in> set (invites (h_acc s)). i_token_hash i \<noteq> ev_sha ev (ev_token ev)"
    and ev2: "ev2 = ev\<lparr> ev_token := tok2 \<rparr>" "0 < ev_invite_ttl_hours ev"
    and fresh2: "\<forall>x \<in> set (sessions (h_acc s)). s_token_hash x \<noteq> ev_sha ev tok2"
    and pw: "checkPassword pw (u_username t) (ev_min_length ev) = None"
    and id: "0 < u_id t"
  shows "\<exists>s1 s2. user_reset_POST ev (Some (int (u_id t))) rq s = (s1, ApiJson 200 (Link (ev_token ev))) \<and>
    invite_POST ev2 (ev_token ev) (new_password ip pw) s1 = (s2, ApiJson 200 Done) \<and>
    has_session ev2 (new_password ip pw) (u_id t) s2 \<and>
    (\<exists>u \<in> set (users (h_acc s2)). u_id u = u_id t \<and> u_role u = u_role t \<and> u_totp_secret u = u_totp_secret t \<and>
       u_password_hash u = ev_hash_password ev pw)"
proof -
  obtain s1 ivs where s1: "user_reset_POST ev (Some (int (u_id t))) rq s = (s1, ApiJson 200 (Link (ev_token ev)))"
    "users (h_acc s1) = users (h_acc s)" "invites (h_acc s1) = ivs @ [reset_row ev (u_id t) (u_role t) (pu_id actor)]"
    "\<forall>i \<in> set ivs. i_token_hash i \<noteq> ev_sha ev (ev_token ev)"
    "sessions (h_acc s1) = del_where (\<lambda>r. s_user_id r = u_id t) (sessions (h_acc s))" "hub_inv s1"
    using reset_issued [OF assms(1-4) t id fresh] by blast
  have f1: "\<forall>x \<in> set (sessions (h_acc s1)). s_token_hash x \<noteq> ev_sha ev tok2" using fresh2 s1(5) by simp
  have t1: "t \<in> set (users (h_acc s1))" using t(1) s1(2) by simp
  obtain s2 where s2: "invite_POST ev2 (ev_token ev) (new_password ip pw) s1 = (s2, ApiJson 200 Done)"
    "has_session ev2 (new_password ip pw) (u_id t) s2"
    "users (h_acc s2) = users (setPassword (u_id t) (ev_hash_password ev pw) (h_acc s1))"
    using reset_accepted [OF s1(6) t1 t(2) s1(3,4) ev2 f1 pw] by blast
  have "t\<lparr> u_password_hash := ev_hash_password ev pw \<rparr> \<in> set (users (h_acc s2))"
    using t1 by (auto simp: s2(3) setPassword_def upd_user_def upd_where_def)
  then have "\<exists>u \<in> set (users (h_acc s2)). u_id u = u_id t \<and> u_role u = u_role t \<and>
      u_totp_secret u = u_totp_secret t \<and> u_password_hash u = ev_hash_password ev pw"
    by (rule rev_bexI) simp
  with s1(1) s2 show ?thesis by blast
qed


lemma reset_takes_over_witness:
  "\<exists>s1 s2. user_reset_POST (demo_env\<lparr> ev_token := ''rt'' \<rparr>) (Some 1)
       (demo_request (Some (ada\<lparr> pu_id := 2, pu_role := ''helpdesk'' \<rparr>)) (Some {UsersManage}) []) demo_hub
       = (s1, ApiJson 200 (Link ''rt'')) \<and>
     invite_POST (demo_env\<lparr> ev_token := ''zz'' \<rparr>) ''rt'' (new_password ''ip'' ''mine12345'') s1 = (s2, ApiJson 200 Done) \<and>
     (\<exists>u \<in> set (users (h_acc s2)). u_role u = ''admin'' \<and> u_password_hash u = ''h:mine12345'')"
proof -
  let ?t = "hd (users (h_acc demo_hub))" let ?ev = "demo_env\<lparr> ev_token := ''rt'' \<rparr>"
  let ?rq = "demo_request (Some (ada\<lparr> pu_id := 2, pu_role := ''helpdesk'' \<rparr>)) (Some {UsersManage}) []"
  have t: "?t \<in> set (users (h_acc demo_hub))" "u_disabled_at ?t = None" "u_id ?t = 1" "u_role ?t = ''admin''"
    "u_username ?t = ''ada''" by (simp_all add: demo_hub_users)
  have ss: "\<forall>x \<in> set (sessions (h_acc demo_hub)). s_token_hash x \<noteq> ''zz''" by code_simp
  have pw: "checkPassword ''mine12345'' ''ada'' 8 = None" by code_simp
  have "\<exists>s1 s2. user_reset_POST ?ev (Some (int (u_id ?t))) ?rq demo_hub = (s1, ApiJson 200 (Link (ev_token ?ev))) \<and>
    invite_POST (?ev\<lparr> ev_token := ''zz'' \<rparr>) (ev_token ?ev) (new_password ''ip'' ''mine12345'') s1 = (s2, ApiJson 200 Done) \<and>
    has_session (?ev\<lparr> ev_token := ''zz'' \<rparr>) (new_password ''ip'' ''mine12345'') (u_id ?t) s2 \<and>
    (\<exists>u \<in> set (users (h_acc s2)). u_id u = u_id ?t \<and> u_role u = u_role ?t \<and> u_totp_secret u = u_totp_secret ?t \<and>
       u_password_hash u = ev_hash_password ?ev ''mine12345'')"
    by (rule reset_takes_over [OF demo_hub_inv, where ps = "{UsersManage}"])
      (use t ss pw in \<open>simp_all add: demo_request_def demo_env_def demo_hub_users\<close>)
  then show ?thesis using t(3,4) by (auto simp: demo_env_def)
qed

end
