(* ===== verification/JS_Values.thy ===== *)
theory JS_Values
  imports Admin_Http Complex_Main
begin

text \<open>
  The conversions of the language that the deploy forms rest on: \<open>Number(v)\<close>,
  \<open>Number.isInteger\<close>, \<open>String(v)\<close> and truthiness of a value read from JSON (\<open>None\<close> is
  \<open>undefined\<close>), \<open>Set\<close> as deduplication, and \<open>Buffer.toString('base64')\<close>.  A number is the exact
  value of its decimal text; a text beyond the precision of a double is not rounded.
\<close>

section \<open>Results of fallible code\<close>

definition and_then :: "'e + 'a \<Rightarrow> ('a \<Rightarrow> 'e + 'b) \<Rightarrow> 'e + 'b" where
  "and_then m k = (case m of Inl e \<Rightarrow> Inl e | Inr x \<Rightarrow> k x)"

definition require :: "bool \<Rightarrow> 'e \<Rightarrow> 'e + unit" where
  "require b e = (if b then Inr () else Inl e)"

lemma and_then_simps [simp]: "and_then (Inl e) k = Inl e" "and_then (Inr x) k = k x"
  by (simp_all add: and_then_def)

lemma require_simps [simp]: "require True e = Inr ()" "require False e = Inl e"
  by (simp_all add: require_def)

lemma and_then_Inr: "and_then m k = Inr y \<longleftrightarrow> (\<exists>x. m = Inr x \<and> k x = Inr y)"
  by (cases m) simp_all

lemma and_then_Inl: "and_then m k = Inl e \<longleftrightarrow> m = Inl e \<or> (\<exists>x. m = Inr x \<and> k x = Inl e)"
  by (cases m) auto

lemma require_Inr: "require b e = Inr u \<longleftrightarrow> b"
  by (cases b) simp_all

lemma require_Inl: "require b e = Inl e' \<longleftrightarrow> \<not> b \<and> e = e'"
  by (cases b) auto

text \<open>The first error of a list of fallible computations, or all results.\<close>

primrec map_ok :: "('a \<Rightarrow> 'e + 'b) \<Rightarrow> 'a list \<Rightarrow> 'e + 'b list" where
  "map_ok f [] = Inr []"
| "map_ok f (x # xs) = and_then (f x) (\<lambda>y. and_then (map_ok f xs) (\<lambda>ys. Inr (y # ys)))"

lemma map_ok_Inr: "map_ok f xs = Inr ys \<Longrightarrow> y \<in> set ys \<Longrightarrow> \<exists>x \<in> set xs. f x = Inr y"
  by (induction xs arbitrary: ys) (auto simp: and_then_Inr)

section \<open>Numbers\<close>

datatype js_num = NaN | Inf bool | Fin rat

definition is_int :: "rat \<Rightarrow> bool" where
  "is_int q = (snd (quotient_of q) = 1)"

definition pow10 :: "int \<Rightarrow> rat" where
  "pow10 e = (if 0 \<le> e then 10 ^ nat e else 1 / 10 ^ nat (- e))"

definition split_sign :: "string \<Rightarrow> bool \<times> string" where
  "split_sign t = (case t of [] \<Rightarrow> (False, []) | c # r \<Rightarrow>
     if c = CHR ''-'' then (True, r) else if c = CHR ''+'' then (False, r) else (False, t))"

definition exponent :: "string \<Rightarrow> int option" where
  "exponent t = (case t of [] \<Rightarrow> Some 0 | c # r \<Rightarrow>
     if c = CHR ''e'' \<or> c = CHR ''E'' then
       (let (neg, d) = split_sign r in
        if d \<noteq> [] \<and> list_all is_digit d
        then Some (if neg then - int (digits_val d 0) else int (digits_val d 0)) else None)
     else None)"

definition dec_value :: "string \<Rightarrow> rat option" where
  "dec_value t =
     (let (neg, u) = split_sign t;
          ip = takeWhile is_digit u; u1 = dropWhile is_digit u;
          (fp, u2) = (case u1 of [] \<Rightarrow> ([], []) | c # r \<Rightarrow>
            if c = CHR ''.'' then (takeWhile is_digit r, dropWhile is_digit r) else ([], u1))
      in if ip = [] \<and> fp = [] then None
         else case exponent u2 of None \<Rightarrow> None
            | Some e \<Rightarrow> (let q = of_nat (digits_val (ip @ fp) 0) * pow10 (e - int (length fp))
                        in Some (if neg then - q else q)))"

definition radix_digit :: "nat \<Rightarrow> char \<Rightarrow> bool" where
  "radix_digit b c = (case hex_val c of None \<Rightarrow> False | Some k \<Rightarrow> k < b)"

definition radix_value :: "nat \<Rightarrow> string \<Rightarrow> js_num" where
  "radix_value b ds = (if ds \<noteq> [] \<and> list_all (radix_digit b) ds
     then Fin (of_nat (foldl (\<lambda>a c. a * b + or_default (hex_val c) 0) 0 ds)) else NaN)"

text \<open>\<open>Number(s)\<close> of a string.\<close>

definition str_number :: "string \<Rightarrow> js_num" where
  "str_number s = (let t = js_trim s in
     if t = [] then Fin 0
     else if take 2 t \<in> {''0x'', ''0X''} then radix_value 16 (drop 2 t)
     else if take 2 t \<in> {''0o'', ''0O''} then radix_value 8 (drop 2 t)
     else if take 2 t \<in> {''0b'', ''0B''} then radix_value 2 (drop 2 t)
     else if snd (split_sign t) = ''Infinity'' then Inf (\<not> fst (split_sign t))
     else case dec_value t of None \<Rightarrow> NaN | Some q \<Rightarrow> Fin q)"

section \<open>Strings\<close>

definition num_text :: "string \<Rightarrow> string" where
  "num_text t = (case dec_value t of None \<Rightarrow> t | Some q \<Rightarrow>
     if is_int q then int_text (fst (quotient_of q)) else t)"

text \<open>\<open>s.split(d)\<close> for a one character separator, and \<open>xs.join(d)\<close>.\<close>

fun split_on :: "char \<Rightarrow> string \<Rightarrow> string list" where
  "split_on d [] = [[]]"
| "split_on d (c # cs) = (if c = d then [] # split_on d cs
     else case split_on d cs of [] \<Rightarrow> [[c]] | w # ws \<Rightarrow> (c # w) # ws)"

primrec join_on :: "string \<Rightarrow> string list \<Rightarrow> string" where
  "join_on d [] = []"
| "join_on d (x # xs) = (if xs = [] then x else x @ d @ join_on d xs)"

fun js_string :: "json \<Rightarrow> string" where
  "js_string JNull = ''null''"
| "js_string (JBool b) = (if b then ''true'' else ''false'')"
| "js_string (JNum t) = num_text t"
| "js_string (JStr s) = s"
| "js_string (JArr vs) = join_on '','' (map (\<lambda>v. if v = JNull then [] else js_string v) vs)"
| "js_string (JObj fs) = ''[object Object]''"

definition js_string_opt :: "json option \<Rightarrow> string" where
  "js_string_opt v = (case v of None \<Rightarrow> ''undefined'' | Some x \<Rightarrow> js_string x)"

text \<open>\<open>Number(v)\<close>: objects and arrays go through their string.\<close>

definition js_number :: "json option \<Rightarrow> js_num" where
  "js_number v = (case v of
       None \<Rightarrow> NaN
     | Some JNull \<Rightarrow> Fin 0
     | Some (JBool b) \<Rightarrow> Fin (if b then 1 else 0)
     | Some (JNum t) \<Rightarrow> (case dec_value t of None \<Rightarrow> NaN | Some q \<Rightarrow> Fin q)
     | Some w \<Rightarrow> str_number (js_string w))"

definition num_int :: "js_num \<Rightarrow> int option" where
  "num_int x = (case x of Fin q \<Rightarrow> if is_int q then Some (fst (quotient_of q)) else None | _ \<Rightarrow> None)"

text \<open>\<open>Number.isInteger(v)\<close> of the value itself, with the integer.\<close>

definition js_integer :: "json option \<Rightarrow> int option" where
  "js_integer v = (case v of Some (JNum t) \<Rightarrow> num_int (js_number v) | _ \<Rightarrow> None)"

definition truthy :: "json option \<Rightarrow> bool" where
  "truthy v = (case v of
       None \<Rightarrow> False
     | Some JNull \<Rightarrow> False
     | Some (JBool b) \<Rightarrow> b
     | Some (JNum t) \<Rightarrow> dec_value t \<noteq> Some 0
     | Some (JStr s) \<Rightarrow> s \<noteq> []
     | Some _ \<Rightarrow> True)"

text \<open>\<open>v == null\<close>.\<close>

definition nullish :: "json option \<Rightarrow> bool" where
  "nullish v = (v = None \<or> v = Some JNull)"

text \<open>\<open>Math.min(Math.max(Number(v) || dflt, lo), hi)\<close>.\<close>

definition clamp_number :: "rat \<Rightarrow> rat \<Rightarrow> rat \<Rightarrow> json option \<Rightarrow> rat" where
  "clamp_number dflt lo hi v =
     (let x = (case js_number v of NaN \<Rightarrow> dflt | Inf pos \<Rightarrow> (if pos then hi else lo)
                | Fin q \<Rightarrow> if q = 0 then dflt else q)
      in min (max x lo) hi)"

text \<open>A text that counts as true.\<close>

definition non_empty :: "string option \<Rightarrow> string option" where
  "non_empty s = (case s of Some t \<Rightarrow> if t = [] then None else Some t | None \<Rightarrow> None)"

text \<open>\<open>v.slice(0, n)\<close> on a string or an array; anything else throws.\<close>

definition js_slice :: "nat \<Rightarrow> json \<Rightarrow> json option" where
  "js_slice n v = (case v of JStr s \<Rightarrow> Some (JStr (take n s)) | JArr xs \<Rightarrow> Some (JArr (take n xs)) | _ \<Rightarrow> None)"

section \<open>Sets and Base64\<close>

text \<open>\<open>[...new Set(xs)]\<close>: the first occurrences in order.\<close>

definition uniq :: "'a list \<Rightarrow> 'a list" where
  "uniq xs = rev (remdups (rev xs))"

lemma set_uniq [simp]: "set (uniq xs) = set xs"
  by (simp add: uniq_def)

lemma distinct_uniq [simp]: "distinct (uniq xs)"
  by (simp add: uniq_def)

definition base64_char :: "nat \<Rightarrow> char" where
  "base64_char k = (if k < 26 then char_of (65 + k) else if k < 52 then char_of (71 + k)
     else if k < 62 then char_of (k - 4) else if k = 62 then CHR ''+'' else CHR ''/'')"

fun base64 :: "nat list \<Rightarrow> string" where
  "base64 [] = []"
| "base64 [a] = [base64_char (a div 4), base64_char (a mod 4 * 16), CHR ''='', CHR ''='']"
| "base64 [a, b] = [base64_char (a div 4), base64_char (a mod 4 * 16 + b div 16),
     base64_char (b mod 16 * 4), CHR ''='']"
| "base64 (a # b # c # r) = [base64_char (a div 4), base64_char (a mod 4 * 16 + b div 16),
     base64_char (b mod 16 * 4 + c div 64), base64_char (c mod 64)] @ base64 r"

lemma clamp_number_bounds: "lo \<le> hi \<Longrightarrow> lo \<le> clamp_number dflt lo hi v \<and> clamp_number dflt lo hi v \<le> hi"
  by (simp add: clamp_number_def Let_def)

section \<open>Numbers of decimal digits\<close>

lemma is_int_of_int [simp]: "is_int (of_int i)" "fst (quotient_of (of_int i)) = i"
  by (simp_all add: is_int_def quotient_of_int)

lemma is_int_of_nat [simp]: "is_int (of_nat n)" "fst (quotient_of (of_nat n)) = int n"
  using is_int_of_int [of "int n"] by simp_all

lemma digit_facts:
  "is_digit c \<Longrightarrow> c \<noteq> CHR ''-'' \<and> c \<noteq> CHR ''+'' \<and> c \<noteq> CHR ''.'' \<and> c \<noteq> CHR ''x'' \<and> c \<noteq> CHR ''X'' \<and>
     c \<noteq> CHR ''o'' \<and> c \<noteq> CHR ''O'' \<and> c \<noteq> CHR ''b'' \<and> c \<noteq> CHR ''B'' \<and> c \<noteq> CHR ''I'' \<and> \<not> js_space c"
  by (auto simp: is_digit_def js_space_def Let_def)

lemma while_digits:
  assumes "list_all P ds"
  shows "takeWhile P ds = ds" "dropWhile P ds = []"
  using assms by (induction ds) auto

lemma while_none: "list_all (\<lambda>c. \<not> P c) ds \<Longrightarrow> dropWhile P ds = ds"
  by (cases ds) auto

lemma dec_value_digits:
  assumes "ds \<noteq> []" "list_all is_digit ds"
  shows "dec_value ds = Some (of_nat (digits_val ds 0))"
proof -
  obtain c cs where ds: "ds = c # cs" using assms by (cases ds) auto
  have "split_sign ds = (False, ds)" using assms ds digit_facts by (simp add: split_sign_def)
  with assms show ?thesis by (simp add: dec_value_def while_digits exponent_def pow10_def)
qed

lemma js_trim_id: "list_all (\<lambda>c. \<not> js_space c) s \<Longrightarrow> js_trim s = s"
  by (simp add: js_trim_def while_none list_all_rev)

lemma str_number_digits:
  assumes "ds \<noteq> []" "list_all is_digit ds"
  shows "str_number ds = Fin (of_nat (digits_val ds 0))"
proof -
  obtain c cs where ds: "ds = c # cs" using assms by (cases ds) auto
  have trim: "js_trim ds = ds"
    using assms digit_facts by (intro js_trim_id) (auto simp: list_all_iff)
  have sign: "split_sign ds = (False, ds)" using assms ds digit_facts by (simp add: split_sign_def)
  have c: "is_digit c" "list_all is_digit cs" using assms ds by auto
  have "take 2 ds \<notin> {''0x'', ''0X''}" "take 2 ds \<notin> {''0o'', ''0O''}" "take 2 ds \<notin> {''0b'', ''0B''}"
    using c digit_facts unfolding ds by (cases cs; force)+
  moreover have "ds \<noteq> ''Infinity''" using c digit_facts ds by auto
  ultimately show ?thesis
    using assms by (simp add: str_number_def trim sign dec_value_digits)
qed

lemma dec_value_int_text: "dec_value (int_text i) = Some (of_int i)"
proof (cases "i < 0")
  case False
  have "nat_digits (nat i) \<noteq> []" using nat_digits_head [of "nat i"] by auto
  then show ?thesis using False nat_digits_all
    by (simp add: int_text_def dec_value_digits digits_val_nat_digits)
next
  case True
  let ?d = "nat_digits (nat (- i))"
  have ne: "?d \<noteq> []" using nat_digits_head [of "nat (- i)"] by auto
  have "split_sign (CHR ''-'' # ?d) = (True, ?d)" by (simp add: split_sign_def)
  then show ?thesis using True ne nat_digits_all [of "nat (- i)"]
    by (simp add: int_text_def dec_value_def while_digits exponent_def pow10_def digits_val_nat_digits)
qed

lemma js_number_int [simp]: "js_number (Some (json_int i)) = Fin (of_int i)"
  by (simp add: js_number_def json_int_def dec_value_int_text)

lemma js_integer_int [simp]: "js_integer (Some (json_int i)) = Some i"
proof -
  have "num_int (Fin (of_int i)) = Some i" by (simp add: num_int_def)
  then show ?thesis using js_number_int [of i] by (simp add: js_integer_def json_int_def)
qed

lemma str_number_int_text: "str_number (int_text (int n)) = Fin (of_nat n)"
proof -
  have "nat_digits n \<noteq> []" using nat_digits_head [of n] by auto
  then show ?thesis using nat_digits_all [of n]
    by (simp add: int_text_def str_number_digits digits_val_nat_digits)
qed

end
