(* ===== verification/Deploy_Forms.thy ===== *)
theory Deploy_Forms
  imports JS_Values
begin

text \<open>
  What the deploy store accepts: the private validators of \<open>DeployStore\<close>
  (\<open>src/src/lib/server/deploy/store.ts\<close>) over values read from JSON, and the types of
  \<open>src/src/lib/shared/deploy.ts\<close> they produce.  A regular expression of the source is the
  predicate on strings it stands for.  \<open>Thrown\<close> is an exception other than \<open>DeployError\<close>
  (a method called on a value that has none), which the routes answer with a 500.
\<close>

section \<open>Types\<close>

datatype deploy_fault = DeployError nat string | Thrown

definition SOURCE_KINDS :: "string list" where
  "SOURCE_KINDS = [''git'', ''image'', ''static'']"

definition RUNTIMES :: "string list" where
  "RUNTIMES = [''podman'', ''docker'', ''k8s'']"

definition FORGE_KINDS :: "string list" where
  "FORGE_KINDS = [''github'', ''gitlab'', ''gitea'', ''generic'']"

record app_source =
  src_kind :: json
  src_url :: "string option"
  src_ref :: "string option"
  src_subdir :: "json option"
  src_forge :: "string option"
  src_paths :: "string list option"
  src_submodules :: bool
  src_lfs :: bool
  src_previews :: bool

record healthcheck =
  hc_kind :: json
  hc_port :: int
  hc_path :: "json option"
  hc_intervalMs :: rat
  hc_timeoutMs :: rat
  hc_retries :: rat

record port_map =
  pm_host :: int
  pm_container :: int
  pm_local :: bool

definition MAX_DOMAINS :: nat where "MAX_DOMAINS = 16"

definition MAX_ENV_KEYS :: nat where "MAX_ENV_KEYS = 128"

section \<open>The regular expressions\<close>

definition lower_alnum :: "char \<Rightarrow> bool" where
  "lower_alnum c = (let k = of_char c :: nat in (97 \<le> k \<and> k \<le> 122) \<or> (48 \<le> k \<and> k \<le> 57))"

definition alnum :: "char \<Rightarrow> bool" where
  "alnum c = (let k = of_char c :: nat in
     (97 \<le> k \<and> k \<le> 122) \<or> (65 \<le> k \<and> k \<le> 90) \<or> (48 \<le> k \<and> k \<le> 57))"

definition NAME_RE :: "string \<Rightarrow> bool" where
  "NAME_RE s = (case s of [] \<Rightarrow> False | c # r \<Rightarrow>
     lower_alnum c \<and> length r \<le> 62 \<and> list_all (\<lambda>d. lower_alnum d \<or> d = CHR ''-'') r)"

definition NAMESPACE_RE :: "string \<Rightarrow> bool" where
  "NAMESPACE_RE s = (s \<noteq> [] \<and> length s \<le> 63 \<and> lower_alnum (hd s) \<and> lower_alnum (last s) \<and>
     list_all (\<lambda>d. lower_alnum d \<or> d = CHR ''-'') s)"

definition domain_label :: "string \<Rightarrow> bool" where
  "domain_label l = (l \<noteq> [] \<and> alnum (hd l) \<and> alnum (last l) \<and>
     list_all (\<lambda>d. alnum d \<or> d = CHR ''-'') l)"

definition DOMAIN_RE :: "string \<Rightarrow> bool" where
  "DOMAIN_RE s = list_all domain_label
     (split_on (CHR ''.'') (if starts_with ''*.'' s then drop 2 s else s))"

definition ENV_KEY_RE :: "string \<Rightarrow> bool" where
  "ENV_KEY_RE s = (case s of [] \<Rightarrow> False | c # r \<Rightarrow>
     (alnum c \<and> \<not> is_digit c \<or> c = CHR ''_'') \<and> list_all (\<lambda>d. alnum d \<or> d = CHR ''_'') r)"

definition git_url :: "string \<Rightarrow> bool" where
  "git_url s = (starts_with ''https://'' s \<or> starts_with ''ssh://'' s \<or> starts_with ''git@'' s)"

definition registry_ref :: "string \<Rightarrow> bool" where
  "registry_ref s = (s \<noteq> [] \<and> list_all (\<lambda>d. alnum d \<or> d \<in> set ''./:_@-'') s)"

section \<open>validateSource\<close>

text \<open>One path filter: \<open>String(p).trim()\<close> without its leading slashes.\<close>

definition clean_path :: "json \<Rightarrow> deploy_fault + string" where
  "clean_path p =
     (let s = dropWhile (\<lambda>c. c = CHR ''/'') (js_trim (js_string p)) in
      if s = [] \<or> length s > 200 \<or> js_includes s ''..''
      then Inl (DeployError 422 (''invalid path filter: '' @ (if s = [] then take 60 (js_string p) else s)))
      else Inr s)"

text \<open>\<open>if (source.subdir) out.subdir = source.subdir.slice(0, 200)\<close>.\<close>

definition clean_subdir :: "json option \<Rightarrow> deploy_fault + json option" where
  "clean_subdir v =
     (if truthy v then (case v of None \<Rightarrow> Inr None | Some w \<Rightarrow>
        (case js_slice 200 w of None \<Rightarrow> Inl Thrown | Some u \<Rightarrow> Inr (Some u)))
      else Inr None)"

definition clean_forge :: "json option \<Rightarrow> deploy_fault + string option" where
  "clean_forge v = (case v of
       None \<Rightarrow> Inr None
     | Some (JStr f) \<Rightarrow> if f \<in> set FORGE_KINDS then Inr (Some f)
         else Inl (DeployError 422 ''forge must be one of github, gitlab, gitea, generic'')
     | Some _ \<Rightarrow> Inl (DeployError 422 ''forge must be one of github, gitlab, gitea, generic''))"

definition clean_paths :: "json option \<Rightarrow> deploy_fault + string list option" where
  "clean_paths v = (case v of
       None \<Rightarrow> Inr None
     | Some (JArr ps) \<Rightarrow>
         if length ps > 64 then Inl (DeployError 422 ''paths must be an array of up to 64 globs'')
         else and_then (map_ok clean_path ps) (\<lambda>xs. Inr (Some xs))
     | Some _ \<Rightarrow> Inl (DeployError 422 ''paths must be an array of up to 64 globs''))"

definition empty_source :: "json \<Rightarrow> app_source" where
  "empty_source k = \<lparr> src_kind = k, src_url = None, src_ref = None, src_subdir = None, src_forge = None,
     src_paths = None, src_submodules = False, src_lfs = False, src_previews = False \<rparr>"

definition git_source :: "json \<Rightarrow> json \<Rightarrow> deploy_fault + app_source" where
  "git_source k src =
     (case jmember ''url'' src of
        Some (JStr u) \<Rightarrow>
          if length u > 500 then Inl (DeployError 422 ''git source needs a url'')
          else if \<not> git_url u then Inl (DeployError 422 ''git url must be https, ssh://, or git@'')
          else and_then (clean_subdir (jmember ''subdir'' src)) (\<lambda>sub.
               and_then (clean_forge (jmember ''forge'' src)) (\<lambda>forge.
               and_then (clean_paths (jmember ''paths'' src)) (\<lambda>ps.
                 Inr ((empty_source k)\<lparr> src_url := Some u,
                   src_ref := Some (case jmember ''ref'' src of Some (JStr r) \<Rightarrow> take 200 r | _ \<Rightarrow> ''main''),
                   src_subdir := sub, src_forge := forge, src_paths := ps,
                   src_submodules := (jmember ''submodules'' src = Some (JBool True)),
                   src_lfs := (jmember ''lfs'' src = Some (JBool True)),
                   src_previews := (jmember ''previews'' src = Some (JBool True)) \<rparr>))))
      | _ \<Rightarrow> Inl (DeployError 422 ''git source needs a url''))"

definition image_source :: "json \<Rightarrow> json \<Rightarrow> deploy_fault + app_source" where
  "image_source k src =
     (case jmember ''url'' src of
        Some (JStr u) \<Rightarrow> if registry_ref u then Inr ((empty_source k)\<lparr> src_url := Some (take 300 u) \<rparr>)
          else Inl (DeployError 422 ''image source needs a registry reference'')
      | _ \<Rightarrow> Inl (DeployError 422 ''image source needs a registry reference''))"

definition other_source :: "json \<Rightarrow> json \<Rightarrow> deploy_fault + app_source" where
  "other_source k src =
     and_then (clean_subdir (jmember ''subdir'' src)) (\<lambda>sub.
       Inr ((empty_source k)\<lparr>
         src_url := (case jmember ''url'' src of Some (JStr u) \<Rightarrow> Some (take 500 u) | _ \<Rightarrow> None),
         src_subdir := sub \<rparr>))"

text \<open>
  The kind is checked on \<open>String(source.kind)\<close>, the branch is taken on \<open>source.kind\<close> itself and
  the value stored is \<open>source.kind\<close> as it came.
\<close>

definition validateSource :: "json option \<Rightarrow> deploy_fault + app_source" where
  "validateSource source =
     (let src = or_default source JNull; k = jmember ''kind'' src in
      if js_string_opt k \<notin> set SOURCE_KINDS
      then Inl (DeployError 422 ''source kind must be one of git, image, static'')
      else case k of
             Some (JStr s) \<Rightarrow> if s = ''git'' then git_source (JStr s) src
               else if s = ''image'' then image_source (JStr s) src else other_source (JStr s) src
           | _ \<Rightarrow> other_source (or_default k JNull) src)"

section \<open>The other fields\<close>

definition validateName :: "string \<Rightarrow> deploy_fault + string" where
  "validateName s = (let name = js_lower (js_trim s) in
     if NAME_RE name then Inr name else Inl (DeployError 422 ''name must be lowercase dns-label style''))"

definition validateDomains :: "string list \<Rightarrow> deploy_fault + string list" where
  "validateDomains ds =
     (let clean = take MAX_DOMAINS (filter (\<lambda>d. d \<noteq> []) (map (\<lambda>d. js_lower (js_trim d)) ds)) in
      case find (\<lambda>d. length d > 253 \<or> \<not> DOMAIN_RE d) clean of
        Some d \<Rightarrow> Inl (DeployError 422 (''invalid domain: '' @ d))
      | None \<Rightarrow> Inr (uniq clean))"

definition validateHealthcheck :: "json option \<Rightarrow> deploy_fault + healthcheck option" where
  "validateHealthcheck hc =
     (if \<not> truthy hc then Inr None
      else let h = or_default hc JNull in
        case js_integer (jmember ''port'' h) of
          None \<Rightarrow> Inl (DeployError 422 ''healthcheck port must be 1-65535'')
        | Some port \<Rightarrow>
            if port < 1 \<or> port > 65535 then Inl (DeployError 422 ''healthcheck port must be 1-65535'')
            else if js_string_opt (jmember ''kind'' h) \<notin> {''http'', ''tcp''}
            then Inl (DeployError 422 ''healthcheck kind must be http or tcp'')
            else and_then (case jmember ''path'' h of None \<Rightarrow> Inr None | Some JNull \<Rightarrow> Inr None
                     | Some p \<Rightarrow> (case js_slice 200 p of None \<Rightarrow> Inl Thrown | Some q \<Rightarrow> Inr (Some q)))
                  (\<lambda>path. Inr (Some \<lparr> hc_kind = or_default (jmember ''kind'' h) JNull, hc_port = port,
                     hc_path = path,
                     hc_intervalMs = clamp_number 5000 500 60000 (jmember ''intervalMs'' h),
                     hc_timeoutMs = clamp_number 3000 250 60000 (jmember ''timeoutMs'' h),
                     hc_retries = clamp_number 12 1 300 (jmember ''retries'' h) \<rparr>)))"

definition port_number :: "json option \<Rightarrow> int option" where
  "port_number v = (case num_int (js_number v) of None \<Rightarrow> None
     | Some k \<Rightarrow> if 1 \<le> k \<and> k \<le> 65535 then Some k else None)"

text \<open>The walk over the mappings with the set of host ports seen so far.\<close>

fun take_ports :: "int list \<Rightarrow> json list \<Rightarrow> deploy_fault + port_map list" where
  "take_ports seen [] = Inr []"
| "take_ports seen (p # ps) =
     (case (port_number (jmember ''host'' p), port_number (jmember ''container'' p)) of
        (Some host, Some container) \<Rightarrow>
          if host \<in> set seen
          then Inl (DeployError 422 (''duplicate host port '' @ int_text host))
          else and_then (take_ports (host # seen) ps) (\<lambda>out.
                 Inr (\<lparr> pm_host = host, pm_container = container,
                        pm_local = (jmember ''local'' p = Some (JBool True)) \<rparr> # out))
      | _ \<Rightarrow> Inl (DeployError 422 ''ports must be integer host/container pairs 1-65535''))"

definition validatePorts :: "json \<Rightarrow> deploy_fault + port_map list" where
  "validatePorts v = (case v of
       JArr ps \<Rightarrow> if length ps > 16 then Inl (DeployError 422 ''too many port mappings (max 16)'')
         else take_ports [] ps
     | _ \<Rightarrow> Inl (DeployError 422 ''ports must be an array''))"

definition validateKube :: "string \<Rightarrow> json option \<Rightarrow> json option \<Rightarrow> deploy_fault + (string option \<times> int option)" where
  "validateKube runtime namespace replicas =
     (if runtime \<noteq> ''k8s'' then
        (if truthy namespace \<or> \<not> nullish replicas
         then Inl (DeployError 422 ''namespace and replicas require the k8s runtime'')
         else Inr (None, None))
      else and_then (if nullish namespace then Inr [] else case namespace of
               Some (JStr s) \<Rightarrow> Inr (js_trim s) | _ \<Rightarrow> Inl Thrown) (\<lambda>raw.
           if raw \<noteq> [] \<and> \<not> NAMESPACE_RE raw then Inl (DeployError 422 ''namespace must be a DNS-1123 label'')
           else let ns = (if raw = [] then None else Some raw) in
             if nullish replicas then Inr (ns, None)
             else case js_integer replicas of
                 Some rep \<Rightarrow> if 1 \<le> rep \<and> rep \<le> 10 then Inr (ns, Some rep)
                   else Inl (DeployError 422 ''replicas must be an integer 1-10'')
               | None \<Rightarrow> Inl (DeployError 422 ''replicas must be an integer 1-10'')))"

end
