(* ===== verification/Deploy_Store.thy ===== *)
theory Deploy_Store
  imports Deploy_Forms
begin

text \<open>
  \<open>DeployStore\<close> of \<open>src/src/lib/server/deploy/store.ts\<close> over the tables \<open>deploy_apps\<close>,
  \<open>deploy_keys\<close> and \<open>deploy_releases\<close>.  A JSON column holds the value it was written from.
  Each method is one definition on the record \<open>deploys\<close>; what it draws at random, the clock, the
  hash and the sealing functions come from \<open>denv\<close>.  \<open>updateApp\<close> is the composition of its
  read-and-validate half (\<open>update_plan\<close>) and its UPDATE (\<open>update_write\<close>), between which other
  requests can run.
\<close>

section \<open>Tables\<close>

record app_row =
  da_id :: string
  da_name :: string
  da_agent_id :: string
  da_source :: app_source
  da_runtime :: string
  da_env :: "string option"
  da_domains :: "string list"
  da_healthcheck :: "healthcheck option"
  da_ports :: "port_map list"
  da_namespace :: "string option"
  da_replicas :: "int option"
  da_webhook_hash :: string
  da_hook_secret :: "string option"
  da_forge_token :: "string option"
  da_preview_of :: "string option"
  da_preview_pr :: "int option"
  da_preview_expires :: "ms option"
  da_created_at :: ms
  da_updated_at :: ms

record key_row =
  dk_app_id :: string
  dk_pub :: string
  dk_priv :: string

datatype release_status = Pending | Live | ReleaseFailed | ReleaseRolledBack | Superseded

record release_row =
  dr_id :: string
  dr_app_id :: string
  dr_job_id :: "nat option"
  dr_spec :: string
  dr_status :: release_status
  dr_commit :: "string option"
  dr_image :: "string option"
  dr_created_at :: ms
  dr_live_at :: "ms option"

record deploys =
  d_apps :: "app_row list"
  d_keys :: "key_row list"
  d_releases :: "release_row list"

record denv =
  dv_now :: ms
  dv_id :: string
  dv_token :: string
  dv_pub :: "nat list"
  dv_priv :: "nat list"
  dv_hash :: "string \<Rightarrow> string"
  dv_seal :: "string \<Rightarrow> string"
  dv_open :: "string \<Rightarrow> string option"

definition no_deploys :: deploys where
  "no_deploys = \<lparr> d_apps = [], d_keys = [], d_releases = [] \<rparr>"

section \<open>What callers see\<close>

record deploy_app =
  app_id :: string
  app_name :: string
  app_agentId :: string
  app_source :: app_source
  app_runtime :: string
  app_domains :: "string list"
  app_healthcheck :: "healthcheck option"
  app_ports :: "port_map list"
  app_namespace :: "string option"
  app_replicas :: "int option"
  app_hasEnv :: bool
  app_hasHookSecret :: bool
  app_hasDeployKey :: bool
  app_hasForgeToken :: bool
  app_previewOf :: "string option"
  app_previewPr :: "int option"
  app_previewExpires :: "ms option"
  app_createdAt :: ms
  app_updatedAt :: ms

definition toApp :: "deploys \<Rightarrow> app_row \<Rightarrow> deploy_app" where
  "toApp s r = \<lparr> app_id = da_id r, app_name = da_name r, app_agentId = da_agent_id r,
     app_source = da_source r, app_runtime = da_runtime r, app_domains = da_domains r,
     app_healthcheck = da_healthcheck r, app_ports = da_ports r, app_namespace = da_namespace r,
     app_replicas = da_replicas r, app_hasEnv = (da_env r \<noteq> None),
     app_hasHookSecret = (da_hook_secret r \<noteq> None),
     app_hasDeployKey = (\<exists>k \<in> set (d_keys s). dk_app_id k = da_id r),
     app_hasForgeToken = (da_forge_token r \<noteq> None), app_previewOf = da_preview_of r,
     app_previewPr = da_preview_pr r, app_previewExpires = da_preview_expires r,
     app_createdAt = da_created_at r, app_updatedAt = da_updated_at r \<rparr>"

record release =
  rel_id :: string
  rel_appId :: string
  rel_jobId :: "nat option"
  rel_status :: release_status
  rel_commit :: "string option"
  rel_image :: "string option"
  rel_createdAt :: ms
  rel_liveAt :: "ms option"

definition toRelease :: "release_row \<Rightarrow> release" where
  "toRelease r = \<lparr> rel_id = dr_id r, rel_appId = dr_app_id r, rel_jobId = dr_job_id r,
     rel_status = dr_status r, rel_commit = dr_commit r, rel_image = dr_image r,
     rel_createdAt = dr_created_at r, rel_liveAt = dr_live_at r \<rparr>"

definition sshStr :: "nat list \<Rightarrow> nat list" where
  "sshStr b = (let n = length b in
     [n div 16777216 mod 256, n div 65536 mod 256, n div 256 mod 256, n mod 256] @ b)"

definition char_bytes :: "string \<Rightarrow> nat list" where
  "char_bytes s = map of_char s"

definition opensshPub :: "nat list \<Rightarrow> string \<Rightarrow> string" where
  "opensshPub pubRaw comment =
     ''ssh-ed25519 '' @ base64 (sshStr (char_bytes ''ssh-ed25519'') @ sshStr pubRaw) @ '' '' @ comment"

section \<open>Reading apps\<close>

definition appRow :: "string \<Rightarrow> deploys \<Rightarrow> app_row option" where
  "appRow i s = first_where (\<lambda>r. da_id r = i) (d_apps s)"

definition getApp :: "string \<Rightarrow> deploys \<Rightarrow> deploy_app option" where
  "getApp i s = map_option (toApp s) (appRow i s)"

definition appByName :: "string \<Rightarrow> deploys \<Rightarrow> deploy_app option" where
  "appByName n s = map_option (toApp s) (first_where (\<lambda>r. da_name r = n) (d_apps s))"

definition byWebhook :: "(string \<Rightarrow> string) \<Rightarrow> string \<Rightarrow> deploys \<Rightarrow> deploy_app option" where
  "byWebhook H token s = map_option (toApp s) (first_where (\<lambda>r. da_webhook_hash r = H token) (d_apps s))"

definition listApps :: "string option \<Rightarrow> deploys \<Rightarrow> deploy_app list" where
  "listApps agent s = map (toApp s) (order_by da_name
     (case agent of None \<Rightarrow> d_apps s
      | Some a \<Rightarrow> if a = [] then d_apps s else sel_where (\<lambda>r. da_agent_id r = a) (d_apps s)))"

section \<open>Creating an app\<close>

record create_opts =
  co_name :: string
  co_agentId :: string
  co_source :: "json option"
  co_runtime :: "json option"
  co_domains :: "string list"
  co_healthcheck :: "json option"
  co_ports :: json
  co_namespace :: "json option"
  co_replicas :: "json option"

definition validateRuntime :: "json option \<Rightarrow> string \<Rightarrow> deploy_fault + string" where
  "validateRuntime v msg = (case v of
       Some (JStr s) \<Rightarrow> if s \<in> set RUNTIMES then Inr s else Inl (DeployError 422 msg)
     | _ \<Rightarrow> Inl (DeployError 422 msg))"

text \<open>PRIMARY KEY and the two UNIQUE columns of \<open>deploy_apps\<close>.\<close>

definition app_clash :: "app_row \<Rightarrow> app_row \<Rightarrow> bool" where
  "app_clash a r = (da_id r = da_id a \<or> da_name r = da_name a \<or> da_webhook_hash r = da_webhook_hash a)"

definition insert_app :: "app_row \<Rightarrow> key_row option \<Rightarrow> deploys \<Rightarrow> deploy_fault + deploys" where
  "insert_app a k s =
     (if (\<exists>r \<in> set (d_apps s). app_clash a r) \<or>
         (case k of None \<Rightarrow> False | Some kr \<Rightarrow> \<exists>r \<in> set (d_keys s). dk_app_id r = dk_app_id kr)
      then Inl (DeployError 409 ''an app with that name exists'')
      else Inr (s\<lparr> d_apps := d_apps s @ [a],
                   d_keys := d_keys s @ (case k of None \<Rightarrow> [] | Some kr \<Rightarrow> [kr]) \<rparr>))"

definition sealed_key :: "denv \<Rightarrow> string \<Rightarrow> key_row" where
  "sealed_key e i = \<lparr> dk_app_id = i, dk_pub = base64 (dv_pub e),
     dk_priv = dv_seal e (base64 (dv_priv e @ dv_pub e)) \<rparr>"

definition createApp ::
  "denv \<Rightarrow> create_opts \<Rightarrow> deploys \<Rightarrow> deploy_fault + (deploys \<times> deploy_app \<times> string \<times> string)" where
  "createApp e opts s =
     and_then (validateName (co_name opts)) (\<lambda>name.
     and_then (validateSource (co_source opts)) (\<lambda>source.
     and_then (validateRuntime (if nullish (co_runtime opts) then Some (JStr ''podman'') else co_runtime opts)
       ''runtime must be podman, docker, k8s'') (\<lambda>runtime.
     and_then (validateDomains (co_domains opts)) (\<lambda>domains.
     and_then (validateHealthcheck (co_healthcheck opts)) (\<lambda>hc.
     and_then (validatePorts (co_ports opts)) (\<lambda>ports.
     and_then (validateKube runtime (co_namespace opts) (co_replicas opts)) (\<lambda>kube.
     and_then (insert_app \<lparr> da_id = dv_id e, da_name = name, da_agent_id = co_agentId opts,
         da_source = source, da_runtime = runtime, da_env = None, da_domains = domains,
         da_healthcheck = hc, da_ports = ports, da_namespace = fst kube, da_replicas = snd kube,
         da_webhook_hash = dv_hash e (dv_token e), da_hook_secret = None, da_forge_token = None,
         da_preview_of = None, da_preview_pr = None, da_preview_expires = None,
         da_created_at = dv_now e, da_updated_at = dv_now e \<rparr>
         (Some (sealed_key e (dv_id e))) s) (\<lambda>s'.
       case getApp (dv_id e) s' of
         None \<Rightarrow> Inl (DeployError 500 ''app missing after create'')
       | Some app \<Rightarrow> Inr (s', app, dv_token e, opensshPub (dv_pub e) (''wharfinger-'' @ name))))))))))"

section \<open>Updating an app\<close>

record app_patch =
  pt_name :: "json option"
  pt_agentId :: "string option"
  pt_source :: "json option"
  pt_runtime :: "json option"
  pt_domains :: "string list option"
  pt_healthcheck :: "json option"
  pt_ports :: "json option"
  pt_namespace :: "json option"
  pt_replicas :: "json option"
  pt_expectedUpdatedAt :: "ms option"

type_synonym app_set = "app_row \<Rightarrow> app_row"

text \<open>
  The SET clauses in the order they are pushed; where a column is set twice the later one counts,
  as in SQLite.
\<close>

definition set_name :: "app_patch \<Rightarrow> deploy_fault + app_set list" where
  "set_name p = (case pt_name p of None \<Rightarrow> Inr []
     | Some (JStr n) \<Rightarrow> and_then (validateName n) (\<lambda>name. Inr [da_name_update (\<lambda>_. name)])
     | Some _ \<Rightarrow> Inl Thrown)"

definition set_source :: "app_patch \<Rightarrow> deploy_fault + app_set list" where
  "set_source p = (case pt_source p of None \<Rightarrow> Inr []
     | Some v \<Rightarrow> and_then (validateSource (Some v)) (\<lambda>src. Inr [da_source_update (\<lambda>_. src)]))"

definition set_runtime :: "app_patch \<Rightarrow> deploy_fault + app_set list" where
  "set_runtime p = (case pt_runtime p of None \<Rightarrow> Inr []
     | Some v \<Rightarrow> and_then (validateRuntime (Some v) ''invalid runtime'') (\<lambda>rt.
         Inr (da_runtime_update (\<lambda>_. rt) #
           (if rt \<noteq> ''k8s'' \<and> pt_namespace p = None
            then [da_namespace_update (\<lambda>_. None), da_replicas_update (\<lambda>_. None)] else []))))"

definition opt_str :: "string option \<Rightarrow> json" where
  "opt_str v = (case v of None \<Rightarrow> JNull | Some s \<Rightarrow> JStr s)"

definition opt_num :: "int option \<Rightarrow> json" where
  "opt_num v = (case v of None \<Rightarrow> JNull | Some i \<Rightarrow> json_int i)"

definition patch_runtime :: "app_patch \<Rightarrow> deploy_app \<Rightarrow> string" where
  "patch_runtime p app = (case pt_runtime p of Some (JStr rt) \<Rightarrow> rt | _ \<Rightarrow> app_runtime app)"

definition set_kube :: "app_patch \<Rightarrow> deploy_app \<Rightarrow> deploy_fault + app_set list" where
  "set_kube p app =
     (if pt_namespace p = None \<and> pt_replicas p = None then Inr []
      else and_then (validateKube (patch_runtime p app)
               (case pt_namespace p of None \<Rightarrow> Some (opt_str (app_namespace app)) | v \<Rightarrow> v)
               (case pt_replicas p of None \<Rightarrow> Some (opt_num (app_replicas app)) | v \<Rightarrow> v)) (\<lambda>kube.
             Inr [da_namespace_update (\<lambda>_. fst kube), da_replicas_update (\<lambda>_. snd kube)]))"

definition set_rest :: "app_patch \<Rightarrow> deploy_fault + app_set list" where
  "set_rest p =
     and_then (case pt_domains p of None \<Rightarrow> Inr []
        | Some ds \<Rightarrow> and_then (validateDomains ds) (\<lambda>x. Inr [da_domains_update (\<lambda>_. x)])) (\<lambda>a.
     and_then (case pt_healthcheck p of None \<Rightarrow> Inr []
        | Some h \<Rightarrow> and_then (validateHealthcheck (Some h)) (\<lambda>x. Inr [da_healthcheck_update (\<lambda>_. x)])) (\<lambda>b.
     and_then (case pt_ports p of None \<Rightarrow> Inr []
        | Some v \<Rightarrow> and_then (validatePorts v) (\<lambda>x. Inr [da_ports_update (\<lambda>_. x)])) (\<lambda>c.
       Inr (a @ b @ c))))"

definition update_plan :: "app_patch \<Rightarrow> deploy_app \<Rightarrow> deploy_fault + app_set list" where
  "update_plan p app =
     and_then (set_name p) (\<lambda>a.
     and_then (set_source p) (\<lambda>b.
     and_then (set_runtime p) (\<lambda>c.
     and_then (set_kube p app) (\<lambda>d.
     and_then (set_rest p) (\<lambda>f.
       Inr (a @ (case pt_agentId p of None \<Rightarrow> [] | Some ag \<Rightarrow> [da_agent_id_update (\<lambda>_. ag)]) @
            b @ c @ d @ f))))))"

text \<open>\<open>SET ..., updated_at = MAX(now, updated_at + 1)\<close>.\<close>

definition apply_sets :: "ms \<Rightarrow> app_set list \<Rightarrow> app_row \<Rightarrow> app_row" where
  "apply_sets now sets r = (foldl (\<lambda>x f. f x) r sets)\<lparr> da_updated_at := max now (da_updated_at r + 1) \<rparr>"

definition stamp_matches :: "ms option \<Rightarrow> app_row \<Rightarrow> bool" where
  "stamp_matches expected r = (case expected of None \<Rightarrow> True | Some t \<Rightarrow> da_updated_at r = t)"

definition stale_error :: deploy_fault where
  "stale_error = DeployError 409 ''app changed since it was loaded. Reload and retry''"

definition update_write ::
  "string \<Rightarrow> ms option \<Rightarrow> app_set list \<Rightarrow> ms \<Rightarrow> deploys \<Rightarrow> deploy_fault + (deploys \<times> deploy_app)" where
  "update_write i expected sets now s =
     (case first_where (\<lambda>r. da_id r = i \<and> stamp_matches expected r) (d_apps s) of
        None \<Rightarrow> Inl stale_error
      | Some r \<Rightarrow>
          let r' = apply_sets now sets r in
          if \<exists>q \<in> set (d_apps s). da_id q \<noteq> i \<and> da_name q = da_name r'
          then Inl (DeployError 409 ''an app with that name exists'')
          else let s' = s\<lparr> d_apps := upd_where (\<lambda>q. da_id q = i \<and> stamp_matches expected q)
                             (apply_sets now sets) (d_apps s) \<rparr>
               in case getApp i s' of None \<Rightarrow> Inl (DeployError 500 ''app missing after update'')
                  | Some app \<Rightarrow> Inr (s', app))"

definition updateApp :: "string \<Rightarrow> app_patch \<Rightarrow> ms \<Rightarrow> deploys \<Rightarrow> deploy_fault + (deploys \<times> deploy_app)" where
  "updateApp i p now s =
     (case getApp i s of
        None \<Rightarrow> Inl (DeployError 404 ''app not found'')
      | Some app \<Rightarrow> and_then (update_plan p app) (\<lambda>sets.
          if sets = [] then Inr (s, app)
          else update_write i (pt_expectedUpdatedAt p) sets now s))"

definition deleteApp :: "string \<Rightarrow> deploys \<Rightarrow> deploys \<times> bool" where
  "deleteApp i s =
     (s\<lparr> d_keys := del_where (\<lambda>k. dk_app_id k = i) (d_keys s),
         d_releases := del_where (\<lambda>r. dr_app_id r = i) (d_releases s),
         d_apps := del_where (\<lambda>r. da_id r = i) (d_apps s) \<rparr>,
      n_where (\<lambda>r. da_id r = i) (d_apps s) = 1)"

end
