(* ===== verification/Deploy_Releases.thy ===== *)
theory Deploy_Releases
  imports Deploy_Store "HOL-Library.Option_ord"
begin

text \<open>
  The rest of \<open>DeployStore\<close>: preview apps, the sealed columns, the webhook and the deploy key,
  and the release records.
\<close>

section \<open>Preview apps\<close>

record preview_opts =
  po_name :: string
  po_pr :: int
  po_source :: json
  po_domains :: "string list"
  po_ports :: json
  po_expiresAt :: ms

text \<open>The transaction: the row of an earlier delivery, or a copy of the parent's sealed columns.\<close>

definition preview_row ::
  "denv \<Rightarrow> deploy_app \<Rightarrow> app_row \<Rightarrow> preview_opts \<Rightarrow> app_source \<Rightarrow> string list \<Rightarrow> port_map list \<Rightarrow> app_row" where
  "preview_row e parent secrets opts source domains ports =
     \<lparr> da_id = dv_id e, da_name = po_name opts, da_agent_id = app_agentId parent,
       da_source = source, da_runtime = app_runtime parent, da_env = da_env secrets,
       da_domains = domains, da_healthcheck = app_healthcheck parent, da_ports = ports,
       da_namespace = app_namespace parent, da_replicas = app_replicas parent,
       da_webhook_hash = dv_hash e (dv_token e), da_hook_secret = da_hook_secret secrets,
       da_forge_token = da_forge_token secrets, da_preview_of = Some (app_id parent),
       da_preview_pr = Some (po_pr opts), da_preview_expires = Some (po_expiresAt opts),
       da_created_at = dv_now e, da_updated_at = dv_now e \<rparr>"

definition is_preview :: "string \<Rightarrow> int \<Rightarrow> app_row \<Rightarrow> bool" where
  "is_preview parent pr r = (sql_eq (da_preview_of r) (Some parent) \<and> sql_eq (da_preview_pr r) (Some pr))"

definition preview_tx ::
  "denv \<Rightarrow> deploy_app \<Rightarrow> preview_opts \<Rightarrow> app_source \<Rightarrow> string list \<Rightarrow> port_map list \<Rightarrow> deploys
     \<Rightarrow> deploy_fault + (deploys \<times> string)" where
  "preview_tx e parent opts source domains ports s =
     (case first_where (is_preview (app_id parent) (po_pr opts)) (d_apps s) of
        Some dup \<Rightarrow> Inr (s, da_id dup)
      | None \<Rightarrow>
          (case appRow (app_id parent) s of
             None \<Rightarrow> Inl (DeployError 404 ''parent app not found'')
           | Some secrets \<Rightarrow>
               and_then (insert_app (preview_row e parent secrets opts source domains ports)
                  (map_option (\<lambda>k. k\<lparr> dk_app_id := dv_id e \<rparr>)
                     (first_where (\<lambda>k. dk_app_id k = app_id parent) (d_keys s))) s)
                 (\<lambda>s'. Inr (s', dv_id e))))"

definition createPreviewApp ::
  "denv \<Rightarrow> deploy_app \<Rightarrow> preview_opts \<Rightarrow> deploys \<Rightarrow> deploy_fault + (deploys \<times> deploy_app)" where
  "createPreviewApp e parent opts s =
     and_then (validateSource (Some (po_source opts))) (\<lambda>source.
     and_then (validateDomains (po_domains opts)) (\<lambda>domains.
     and_then (validatePorts (po_ports opts)) (\<lambda>ports.
     and_then (preview_tx e parent opts source domains ports s) (\<lambda>(s', i).
       case getApp i s' of
         None \<Rightarrow> Inl (DeployError 500 ''preview app missing after create'')
       | Some app \<Rightarrow> Inr (s', app)))))"

definition previewFor :: "string \<Rightarrow> int \<Rightarrow> deploys \<Rightarrow> deploy_app option" where
  "previewFor parent pr s = map_option (toApp s) (first_where (is_preview parent pr) (d_apps s))"

definition previewsFor :: "string \<Rightarrow> deploys \<Rightarrow> deploy_app list" where
  "previewsFor parent s = map (toApp s) (order_by da_created_at
     (sel_where (\<lambda>r. sql_eq (da_preview_of r) (Some parent)) (d_apps s)))"

definition expiredPreviews :: "ms \<Rightarrow> deploys \<Rightarrow> deploy_app list" where
  "expiredPreviews now s = map (toApp s)
     (sel_where (\<lambda>r. da_preview_expires r \<noteq> None \<and> sql_lt (da_preview_expires r) now) (d_apps s))"

definition upd_app :: "string \<Rightarrow> (app_row \<Rightarrow> app_row) \<Rightarrow> deploys \<Rightarrow> deploys" where
  "upd_app i f s = s\<lparr> d_apps := upd_where (\<lambda>r. da_id r = i) f (d_apps s) \<rparr>"

definition touchPreview :: "string \<Rightarrow> ms \<Rightarrow> ms \<Rightarrow> deploys \<Rightarrow> deploys" where
  "touchPreview i expiresAt now s =
     upd_app i (\<lambda>r. r\<lparr> da_preview_expires := Some expiresAt, da_updated_at := now \<rparr>) s"

definition usedHostPorts :: "string \<Rightarrow> deploys \<Rightarrow> int set" where
  "usedHostPorts agent s =
     set (concat (map (\<lambda>r. map pm_host (da_ports r)) (sel_where (\<lambda>r. da_agent_id r = agent) (d_apps s))))"

section \<open>Sealed columns\<close>

type_synonym env_map = "(string \<times> string) list"

definition env_json :: "env_map \<Rightarrow> json" where
  "env_json m = JObj (map (\<lambda>(k, v). (k, JStr v)) m)"

definition env_entry :: "string \<times> string \<Rightarrow> deploy_fault + string" where
  "env_entry kv =
     (if \<not> ENV_KEY_RE (fst kv) then Inl (DeployError 422 (''invalid env key: '' @ fst kv))
      else if length (snd kv) > 32 * 1024 then Inl (DeployError 422 ''env value too large'')
      else Inr (fst kv))"

definition setEnv :: "denv \<Rightarrow> string \<Rightarrow> env_map \<Rightarrow> ms option \<Rightarrow> deploys \<Rightarrow> deploy_fault + deploys" where
  "setEnv e i env expected s =
     (if getApp i s = None then Inl (DeployError 404 ''app not found'')
      else if length env > MAX_ENV_KEYS then Inl (DeployError 422 ''too many env keys'')
      else and_then (map_ok env_entry env) (\<lambda>_.
        if n_where (\<lambda>r. da_id r = i \<and> stamp_matches expected r) (d_apps s) = 0 then Inl stale_error
        else Inr (s\<lparr> d_apps := upd_where (\<lambda>r. da_id r = i \<and> stamp_matches expected r)
               (\<lambda>r. r\<lparr> da_env := Some (dv_seal e (stringify (env_json env))),
                       da_updated_at := max (dv_now e) (da_updated_at r + 1) \<rparr>) (d_apps s) \<rparr>)))"

definition parse_env :: "string \<Rightarrow> env_map option" where
  "parse_env t = (case json_parse t of
       Some (JObj fs) \<Rightarrow> Some (map (\<lambda>(k, v). (k, case v of JStr x \<Rightarrow> x | _ \<Rightarrow> [])) fs)
     | _ \<Rightarrow> None)"

definition envFor :: "denv \<Rightarrow> string \<Rightarrow> deploys \<Rightarrow> deploy_fault + env_map" where
  "envFor e i s =
     (case appRow i s of None \<Rightarrow> Inr []
      | Some r \<Rightarrow> (case da_env r of None \<Rightarrow> Inr []
          | Some sealed \<Rightarrow> if sealed = [] then Inr [] else
              (case dv_open e sealed of
                 None \<Rightarrow> Inl (DeployError 500 ''sealed env is unreadable'')
               | Some plain \<Rightarrow> (case parse_env plain of None \<Rightarrow> Inl Thrown | Some m \<Rightarrow> Inr m))))"

definition setHookSecret :: "denv \<Rightarrow> string \<Rightarrow> string \<Rightarrow> deploys \<Rightarrow> deploys" where
  "setHookSecret e i secret s =
     upd_app i (\<lambda>r. r\<lparr> da_hook_secret := Some (dv_seal e secret), da_updated_at := dv_now e \<rparr>) s"

definition hookSecret :: "denv \<Rightarrow> string \<Rightarrow> deploys \<Rightarrow> string option" where
  "hookSecret e i s =
     (case appRow i s of None \<Rightarrow> None
      | Some r \<Rightarrow> (case da_hook_secret r of None \<Rightarrow> None
          | Some x \<Rightarrow> if x = [] then None else dv_open e x))"

definition setForgeToken :: "denv \<Rightarrow> string \<Rightarrow> string \<Rightarrow> deploys \<Rightarrow> deploys" where
  "setForgeToken e i token s =
     upd_app i (\<lambda>r. r\<lparr> da_forge_token := (if token = [] then None else Some (dv_seal e token)),
                       da_updated_at := dv_now e \<rparr>) s"

definition forgeToken :: "denv \<Rightarrow> string \<Rightarrow> deploys \<Rightarrow> deploy_fault + string option" where
  "forgeToken e i s =
     (case appRow i s of None \<Rightarrow> Inr None
      | Some r \<Rightarrow> (case da_forge_token r of None \<Rightarrow> Inr None
          | Some x \<Rightarrow> if x = [] then Inr None else
              (case dv_open e x of
                 None \<Rightarrow> Inl (DeployError 500 ''sealed forge token is unreadable'')
               | Some plain \<Rightarrow> Inr (Some plain))))"

definition rotateWebhook :: "denv \<Rightarrow> string \<Rightarrow> deploys \<Rightarrow> deploy_fault + (deploys \<times> string)" where
  "rotateWebhook e i s =
     (if appRow i s = None then Inl (DeployError 404 ''app not found'')
      else if \<exists>r \<in> set (d_apps s). da_id r \<noteq> i \<and> da_webhook_hash r = dv_hash e (dv_token e) then Inl Thrown
      else Inr (upd_app i (\<lambda>r. r\<lparr> da_webhook_hash := dv_hash e (dv_token e), da_updated_at := dv_now e \<rparr>) s,
                dv_token e))"

definition deployKeyFor :: "denv \<Rightarrow> string \<Rightarrow> deploys \<Rightarrow> deploy_fault + (string \<times> string) option" where
  "deployKeyFor e i s =
     (case first_where (\<lambda>k. dk_app_id k = i) (d_keys s) of
        None \<Rightarrow> Inr None
      | Some k \<Rightarrow> (case dv_open e (dk_priv k) of
            None \<Rightarrow> Inl (DeployError 500 ''sealed deploy key is unreadable'')
          | Some priv \<Rightarrow> Inr (Some (priv, dk_pub k))))"

definition rotateDeployKey :: "denv \<Rightarrow> string \<Rightarrow> deploys \<Rightarrow> deploy_fault + (deploys \<times> string)" where
  "rotateDeployKey e i s =
     (if getApp i s = None then Inl (DeployError 404 ''app not found'')
      else Inr (s\<lparr> d_keys := upd_where (\<lambda>k. dk_app_id k = i)
                  (\<lambda>k. k\<lparr> dk_pub := dk_pub (sealed_key e i), dk_priv := dk_priv (sealed_key e i) \<rparr>) (d_keys s) \<rparr>,
                opensshPub (dv_pub e) ''wharfinger-deploy''))"

section \<open>Releases\<close>

definition releaseRow :: "string \<Rightarrow> deploys \<Rightarrow> release_row option" where
  "releaseRow i s = first_where (\<lambda>r. dr_id r = i) (d_releases s)"

definition get_release :: "string \<Rightarrow> deploys \<Rightarrow> release option" where
  "get_release i s = map_option toRelease (releaseRow i s)"

text \<open>A taken id or an app that is gone is a constraint error of the driver.\<close>

definition createRelease ::
  "string \<Rightarrow> string \<Rightarrow> nat option \<Rightarrow> string \<Rightarrow> ms \<Rightarrow> deploys \<Rightarrow> deploy_fault + (deploys \<times> release)" where
  "createRelease appId spec jobId i now s =
     (if releaseRow i s \<noteq> None \<or> appRow appId s = None then Inl Thrown
      else let s' = s\<lparr> d_releases := d_releases s @
             [\<lparr> dr_id = i, dr_app_id = appId, dr_job_id = jobId, dr_spec = spec, dr_status = Pending,
                dr_commit = None, dr_image = None, dr_created_at = now, dr_live_at = None \<rparr>] \<rparr>
           in case get_release i s' of None \<Rightarrow> Inl (DeployError 500 ''release missing after create'')
              | Some r \<Rightarrow> Inr (s', r))"

definition releaseSpec :: "string \<Rightarrow> deploys \<Rightarrow> string option" where
  "releaseSpec i s = map_option dr_spec (releaseRow i s)"

definition releases :: "string \<Rightarrow> nat \<Rightarrow> deploys \<Rightarrow> release list" where
  "releases appId limit s = map toRelease (take limit
     (order_by_desc dr_created_at (sel_where (\<lambda>r. dr_app_id r = appId) (d_releases s))))"

definition live_of :: "string \<Rightarrow> release_row \<Rightarrow> bool" where
  "live_of appId r = (dr_app_id r = appId \<and> dr_status r = Live)"

text \<open>\<open>ORDER BY live_at DESC\<close> puts NULL last.\<close>

definition liveRelease :: "string \<Rightarrow> deploys \<Rightarrow> release option" where
  "liveRelease appId s = map_option toRelease (limit_one
     (order_by_desc dr_live_at (sel_where (live_of appId) (d_releases s))))"

definition coalesce :: "'a option \<Rightarrow> 'a option \<Rightarrow> 'a option" where
  "coalesce a b = (case a of None \<Rightarrow> b | Some _ \<Rightarrow> a)"

definition upd_release :: "string \<Rightarrow> (release_row \<Rightarrow> release_row) \<Rightarrow> deploys \<Rightarrow> deploys" where
  "upd_release i f s = s\<lparr> d_releases := upd_where (\<lambda>r. dr_id r = i) f (d_releases s) \<rparr>"

definition markLive :: "string \<Rightarrow> string option \<Rightarrow> string option \<Rightarrow> ms \<Rightarrow> deploys \<Rightarrow> deploys" where
  "markLive i commit img now s =
     (case releaseRow i s of None \<Rightarrow> s
      | Some row \<Rightarrow> upd_release i
          (\<lambda>r. r\<lparr> dr_status := Live, dr_live_at := Some now,
                  dr_commit := coalesce commit (dr_commit r), dr_image := coalesce img (dr_image r) \<rparr>)
          (s\<lparr> d_releases := upd_where (live_of (dr_app_id row)) (\<lambda>r. r\<lparr> dr_status := Superseded \<rparr>)
               (d_releases s) \<rparr>))"

definition noteCommit :: "string \<Rightarrow> string \<Rightarrow> deploys \<Rightarrow> deploys" where
  "noteCommit i sha s = s\<lparr> d_releases := upd_where (\<lambda>r. dr_id r = i \<and> dr_status r = Pending)
     (\<lambda>r. r\<lparr> dr_commit := Some (take 64 sha) \<rparr>) (d_releases s) \<rparr>"

definition markRelease ::
  "string \<Rightarrow> release_status \<Rightarrow> string option \<Rightarrow> string option \<Rightarrow> deploys \<Rightarrow> deploys" where
  "markRelease i status commit img s = upd_release i
     (\<lambda>r. r\<lparr> dr_status := status, dr_commit := coalesce commit (dr_commit r),
             dr_image := coalesce img (dr_image r) \<rparr>) s"

definition linkJob :: "string \<Rightarrow> nat \<Rightarrow> deploys \<Rightarrow> deploys" where
  "linkJob i jobId s = upd_release i (\<lambda>r. r\<lparr> dr_job_id := Some jobId \<rparr>) s"

end
