(* ===== verification/Egress.thy ===== *)
theory Egress
  imports JS_Values
begin

text \<open>
  The egress guard of \<open>src/src/lib/server/http/egress.ts\<close>: which literal addresses and host
  names the hub refuses to connect to.  \<open>isIP\<close> of \<open>node:net\<close> is the parser \<open>parse_ip4\<close> and
  \<open>parse_ip6\<close> below, which also give the value of an address: the guard itself works on the text.
\<close>

section \<open>node:net\<close>

text \<open>A decimal octet has no leading zero.\<close>

definition octet :: "string \<Rightarrow> nat option" where
  "octet s = (if s \<noteq> [] \<and> length s \<le> 3 \<and> list_all is_digit s \<and> (length s = 1 \<or> hd s \<noteq> CHR ''0'') \<and>
       digits_val s 0 \<le> 255
     then Some (digits_val s 0) else None)"

definition parse_ip4 :: "string \<Rightarrow> nat list option" where
  "parse_ip4 s = (let os = map octet (split_on (CHR ''.'') s) in
     if length os = 4 \<and> None \<notin> set os then Some (map the os) else None)"

definition isIPv4 :: "string \<Rightarrow> bool" where
  "isIPv4 s = (parse_ip4 s \<noteq> None)"

definition hex_value :: "string \<Rightarrow> nat" where
  "hex_value ds = foldl (\<lambda>a c. a * 16 + or_default (hex_val c) 0) 0 ds"

definition hextet :: "string \<Rightarrow> nat option" where
  "hextet s = (if s \<noteq> [] \<and> length s \<le> 4 \<and> list_all (\<lambda>c. hex_val c \<noteq> None) s then Some (hex_value s) else None)"

text \<open>Groups separated by colons; the last one may be a dotted address, worth two groups.\<close>

fun groups :: "bool \<Rightarrow> string list \<Rightarrow> nat list option" where
  "groups dotted [] = Some []"
| "groups dotted [w] =
     (case hextet w of Some h \<Rightarrow> Some [h]
      | None \<Rightarrow> if dotted then (case parse_ip4 w of
            Some [a, b, c, d] \<Rightarrow> Some [a * 256 + b, c * 256 + d] | _ \<Rightarrow> None) else None)"
| "groups dotted (w # ws) =
     (case hextet w of None \<Rightarrow> None
      | Some h \<Rightarrow> (case groups dotted ws of None \<Rightarrow> None | Some hs \<Rightarrow> Some (h # hs)))"

definition colon_groups :: "bool \<Rightarrow> string \<Rightarrow> nat list option" where
  "colon_groups dotted s = (if s = [] then Some [] else groups dotted (split_on (CHR '':'') s))"

fun split_gap :: "string \<Rightarrow> string \<Rightarrow> (string \<times> string) option" where
  "split_gap acc (a # b # r) = (if a = CHR '':'' \<and> b = CHR '':'' then Some (rev acc, r)
     else split_gap (a # acc) (b # r))"
| "split_gap acc s = None"

definition parse_groups :: "string \<Rightarrow> nat list option" where
  "parse_groups s = (case split_gap [] s of
       None \<Rightarrow> (case colon_groups True s of Some hs \<Rightarrow> if length hs = 8 then Some hs else None | None \<Rightarrow> None)
     | Some (l, r) \<Rightarrow> (case (colon_groups False l, colon_groups True r) of
           (Some hs, Some ks) \<Rightarrow>
             if length hs + length ks \<le> 7
             then Some (hs @ replicate (8 - length hs - length ks) 0 @ ks) else None
         | _ \<Rightarrow> None))"

definition zone_char :: "char \<Rightarrow> bool" where
  "zone_char c = ((let k = of_char c :: nat in (48 \<le> k \<and> k \<le> 57) \<or> (65 \<le> k \<and> k \<le> 90) \<or> (97 \<le> k \<and> k \<le> 122)) \<or>
     c \<in> set ''-.:'')"

definition parse_ip6 :: "string \<Rightarrow> nat list option" where
  "parse_ip6 s =
     (let body = takeWhile (\<lambda>c. c \<noteq> CHR ''%'') s; zone = dropWhile (\<lambda>c. c \<noteq> CHR ''%'') s in
      if zone = [] \<or> (tl zone \<noteq> [] \<and> list_all zone_char (tl zone)) then parse_groups body else None)"

definition isIP :: "string \<Rightarrow> nat" where
  "isIP s = (if isIPv4 s then 4 else if parse_ip6 s \<noteq> None then 6 else 0)"

section \<open>The guard\<close>

definition EGRESS_BLOCKED_DETAIL :: string where
  "EGRESS_BLOCKED_DETAIL = ''blocked by egress policy (link-local target)''"

definition BLOCKED_HOSTNAMES :: "string list" where
  "BLOCKED_HOSTNAMES = [''metadata.google.internal'', ''metadata.goog'', ''metadata'']"

text \<open>A missing part is \<open>undefined\<close>, equal to no number.\<close>

definition nth_num :: "string list \<Rightarrow> nat \<Rightarrow> js_num" where
  "nth_num ps n = (if n < length ps then str_number (ps ! n) else NaN)"

definition blockedIpv4 :: "string \<Rightarrow> bool" where
  "blockedIpv4 ip =
     (let ps = split_on (CHR ''.'') ip; a = nth_num ps 0; b = nth_num ps 1; c = nth_num ps 2; d = nth_num ps 3 in
      (a = Fin 169 \<and> b = Fin 254) \<or> a = Fin 0 \<or>
      (a = Fin 100 \<and> b = Fin 100 \<and> c = Fin 100 \<and> d = Fin 200))"

text \<open>\<open>parseInt(h, 16)\<close> of a piece of an address text; \<open>None\<close> is NaN.\<close>

definition parse_hex :: "string \<Rightarrow> nat option" where
  "parse_hex h = (let ds = takeWhile (\<lambda>c. hex_val c \<noteq> None) h in if ds = [] then None else Some (hex_value ds))"

definition dotted :: "nat \<Rightarrow> nat \<Rightarrow> string" where
  "dotted hi lo = int_text (int (hi div 256 mod 256)) @ ''.'' @ int_text (int (hi mod 256)) @ ''.'' @
     int_text (int (lo div 256 mod 256)) @ ''.'' @ int_text (int (lo mod 256))"

definition embeddedIpv4 :: "string \<Rightarrow> string option" where
  "embeddedIpv4 rest =
     (if CHR ''.'' \<in> set rest then Some rest
      else let parts = split_on (CHR '':'') rest in
        if length parts < 1 \<or> length parts > 2 then None
        else case parse_hex (parts ! 0) of
            None \<Rightarrow> None
          | Some hi \<Rightarrow> Some (dotted hi (if length parts = 2 then or_default (parse_hex (parts ! 1)) 0 else 0)))"

definition embedded_blocked :: "string \<Rightarrow> bool" where
  "embedded_blocked rest = (case embeddedIpv4 rest of None \<Rightarrow> False | Some v4 \<Rightarrow> blockedIpv4 v4)"

definition NAT64_PREFIXES :: "string list" where
  "NAT64_PREFIXES = [''64:ff9b::'', ''64:ff9b:1::'', ''64:ff9b:1:0:'']"

definition blockedIpv6 :: "string \<Rightarrow> bool" where
  "blockedIpv6 ip =
     (let n = js_lower ip in
      if starts_with ''::ffff:'' n then embedded_blocked (drop 7 n)
      else case find (\<lambda>p. starts_with p n) NAT64_PREFIXES of
          Some p \<Rightarrow> embedded_blocked (drop (length p) n)
        | None \<Rightarrow> n = ''::'' \<or>
            (starts_with ''fe'' n \<and> (case drop 2 n of [] \<Rightarrow> False | c # _ \<Rightarrow> c \<in> set ''89ab'')) \<or>
            n = ''fd00:ec2::254'')"

definition blockedIp :: "string \<Rightarrow> bool" where
  "blockedIp ip = (if isIPv4 ip then blockedIpv4 ip else blockedIpv6 ip)"

definition strip_brackets :: "string \<Rightarrow> string" where
  "strip_brackets s =
     (let u = (case s of c # r \<Rightarrow> if c = CHR ''['' then r else s | [] \<Rightarrow> []) in
      if u \<noteq> [] \<and> last u = CHR '']'' then butlast u else u)"

definition strip_dot :: "string \<Rightarrow> string" where
  "strip_dot s = (if s \<noteq> [] \<and> last s = CHR ''.'' then butlast s else s)"

definition blockedHost :: "string \<Rightarrow> bool" where
  "blockedHost hostname =
     (let h = strip_dot (strip_brackets (js_lower hostname)) in
      if h \<in> set BLOCKED_HOSTNAMES then True else isIP h \<noteq> 0 \<and> blockedIp h)"

text \<open>The check inside the DNS lookup: every resolved address.\<close>

definition guardedLookup :: "bool \<Rightarrow> string list \<Rightarrow> string + string list" where
  "guardedLookup allowLinkLocal ips =
     (if \<not> allowLinkLocal \<and> list_ex blockedIp ips then Inl EGRESS_BLOCKED_DETAIL else Inr ips)"

text \<open>
  The way of a host of a socket based check (\<open>monitor/checkers.ts\<close>): \<open>blockedHost\<close> first, then a
  literal address is used as it stands and a name goes through the guarded lookup.
\<close>

definition guardedResolve :: "bool \<Rightarrow> (string \<Rightarrow> string list) \<Rightarrow> string \<Rightarrow> string + string" where
  "guardedResolve allowLinkLocal resolve host =
     (if isIP host \<noteq> 0 then Inr host
      else case guardedLookup allowLinkLocal (resolve host) of
          Inl e \<Rightarrow> Inl e
        | Inr [] \<Rightarrow> Inr host
        | Inr (a # _) \<Rightarrow> Inr a)"

definition checked_target :: "bool \<Rightarrow> (string \<Rightarrow> string list) \<Rightarrow> string \<Rightarrow> string + string" where
  "checked_target allowLinkLocal resolve host =
     (if \<not> allowLinkLocal \<and> blockedHost host then Inl EGRESS_BLOCKED_DETAIL
      else guardedResolve allowLinkLocal resolve host)"

end
