(* ===== verification/Deploy_Forge.thy ===== *)
theory Deploy_Forge
  imports Deploy_Releases Egress
begin

text \<open>
  The forge driver of \<open>src/src/lib/server/deploy/forge.ts\<close>: repository coordinates of a clone
  URL, the forge kind, the commit status request and its posting.  \<open>fetch\<close> and \<open>new URL\<close> are
  the two parameters of \<open>egress\<close>: the answer of the network, and the host name of a URL.
\<close>

section \<open>Coordinates\<close>

record repo_coords =
  rc_host :: string
  rc_owner :: string
  rc_repo :: string

datatype forge_kind = Github | Gitlab | Gitea | Generic

definition ends_nocase :: "string \<Rightarrow> string \<Rightarrow> bool" where
  "ends_nocase s q = (length q \<le> length s \<and> js_lower (drop (length s - length q) s) = q)"

text \<open>\<open>([^/]+?)(?:\.git)?\<close>: at least one character before the optional suffix.\<close>

definition repo_name :: "string \<Rightarrow> string" where
  "repo_name seg = (if length seg > 4 \<and> ends_nocase seg ''.git'' then take (length seg - 4) seg else seg)"

definition no_newline :: "string \<Rightarrow> bool" where
  "no_newline s = list_all (\<lambda>c. c \<noteq> CHR 0x0A \<and> c \<noteq> CHR 0x0D) s"

text \<open>\<open>(.+)/([^/]+?)(?:\.git)?$\<close>: the last slash separates owner and repository.\<close>

definition owner_repo :: "string \<Rightarrow> (string \<times> string) option" where
  "owner_repo s =
     (let seg = rev (takeWhile (\<lambda>c. c \<noteq> CHR ''/'') (rev s));
          before = rev (dropWhile (\<lambda>c. c \<noteq> CHR ''/'') (rev s)) in
      if seg = [] \<or> length before < 2 \<or> \<not> no_newline before then None
      else Some (butlast before, repo_name seg))"

definition drop_slash :: "string \<Rightarrow> string" where
  "drop_slash s = (if s \<noteq> [] \<and> last s = CHR ''/'' then butlast s else s)"

definition split_host :: "char \<Rightarrow> string \<Rightarrow> (string \<times> string) option" where
  "split_host d s = (let h = takeWhile (\<lambda>c. c \<noteq> d) s; r = dropWhile (\<lambda>c. c \<noteq> d) s in
     if h = [] \<or> r = [] then None else Some (h, tl r))"

definition coords_of :: "(string \<times> string) option \<Rightarrow> bool \<Rightarrow> repo_coords option" where
  "coords_of hr trailing = (case hr of None \<Rightarrow> None
     | Some (h, r) \<Rightarrow> (case owner_repo (if trailing then drop_slash r else r) of None \<Rightarrow> None
         | Some (ow, rp) \<Rightarrow> Some \<lparr> rc_host = js_lower h, rc_owner = ow, rc_repo = rp \<rparr>))"

definition https_rest :: "string \<Rightarrow> string option" where
  "https_rest url =
     (if js_lower (take 8 url) = ''https://'' then Some (drop 8 url)
      else if js_lower (take 7 url) = ''http://'' then Some (drop 7 url) else None)"

definition parseRepoCoords :: "string \<Rightarrow> repo_coords option" where
  "parseRepoCoords url =
     (case (case https_rest url of None \<Rightarrow> None | Some r \<Rightarrow> coords_of (split_host (CHR ''/'') r) True) of
        Some c \<Rightarrow> Some c
      | None \<Rightarrow> if js_lower (take 4 url) = ''git@''
          then coords_of (split_host (CHR '':'') (drop 4 url)) False else None)"

section \<open>Forge kinds\<close>

definition kind_of_name :: "string \<Rightarrow> forge_kind option" where
  "kind_of_name s = (if s = ''github'' then Some Github else if s = ''gitlab'' then Some Gitlab
     else if s = ''gitea'' then Some Gitea else if s = ''generic'' then Some Generic else None)"

definition forgeKind :: "string option \<Rightarrow> repo_coords option \<Rightarrow> forge_kind" where
  "forgeKind explicit coords =
     (case (case explicit of None \<Rightarrow> None | Some s \<Rightarrow> kind_of_name s) of
        Some k \<Rightarrow> k
      | None \<Rightarrow> (case coords of None \<Rightarrow> Generic
          | Some c \<Rightarrow> if rc_host c = ''github.com'' then Github
              else if rc_host c = ''gitlab.com'' then Gitlab
              else if js_includes (js_lower (rc_host c)) ''gitea'' \<or> js_includes (js_lower (rc_host c)) ''forgejo''
              then Gitea else Generic))"

section \<open>Commit statuses\<close>

definition statusState :: "forge_kind \<Rightarrow> release_status \<Rightarrow> string option" where
  "statusState kind status =
     (case kind of
        Generic \<Rightarrow> None
      | Gitlab \<Rightarrow> (case status of Pending \<Rightarrow> Some ''pending'' | Live \<Rightarrow> Some ''success''
          | ReleaseFailed \<Rightarrow> Some ''failure'' | ReleaseRolledBack \<Rightarrow> Some ''canceled'' | Superseded \<Rightarrow> None)
      | _ \<Rightarrow> (case status of Pending \<Rightarrow> Some ''pending'' | Live \<Rightarrow> Some ''success''
          | ReleaseFailed \<Rightarrow> Some ''failure'' | ReleaseRolledBack \<Rightarrow> Some ''failure'' | Superseded \<Rightarrow> None))"

definition uri_safe :: "char \<Rightarrow> bool" where
  "uri_safe c = (alnum c \<or> c \<in> set ''-_.!~*()'' \<or> (of_char c :: nat) = 39)"

definition upper_hex :: "nat \<Rightarrow> char" where
  "upper_hex n = (if n < 10 then char_of (48 + n) else char_of (55 + n))"

definition percent :: "nat \<Rightarrow> string" where
  "percent b = [CHR ''%'', upper_hex (b div 16), upper_hex (b mod 16)]"

definition encode_char :: "char \<Rightarrow> string" where
  "encode_char c = (let k = of_char c :: nat in
     if uri_safe c then [c] else if k < 128 then percent k
     else percent (192 + k div 64) @ percent (128 + k mod 64))"

definition encodeURIComponent :: "string \<Rightarrow> string" where
  "encodeURIComponent s = concat (map encode_char s)"

record status_request =
  sr_url :: string
  sr_bearer :: bool
  sr_body :: json

definition with_target :: "string option \<Rightarrow> (string \<times> json) list" where
  "with_target t = (case t of None \<Rightarrow> [] | Some u \<Rightarrow> if u = [] then [] else [(''target_url'', JStr u)])"

definition statusRequest ::
  "forge_kind \<Rightarrow> repo_coords \<Rightarrow> string \<Rightarrow> release_status \<Rightarrow> string \<Rightarrow> string option \<Rightarrow> status_request option" where
  "statusRequest kind c sha status desc targetUrl =
     (case statusState kind status of None \<Rightarrow> None
      | Some state \<Rightarrow>
          (if kind = Gitlab then
             Some \<lparr> sr_url = ''https://'' @ rc_host c @ ''/api/v4/projects/'' @
                     encodeURIComponent (rc_owner c @ ''/'' @ rc_repo c) @ ''/statuses/'' @ sha,
                    sr_bearer = False,
                    sr_body = JObj ([(''state'', JStr state), (''name'', JStr ''wharfinger/deploy''),
                      (''description'', JStr (take 140 desc))] @ with_target targetUrl) \<rparr>
           else
             Some \<lparr> sr_url = (if rc_host c = ''github.com'' then ''https://api.github.com/repos/''
                       else ''https://'' @ rc_host c @ ''/api/v1/repos/'') @
                     rc_owner c @ ''/'' @ rc_repo c @ ''/statuses/'' @ sha,
                    sr_bearer = True,
                    sr_body = JObj ([(''state'', JStr state), (''context'', JStr ''wharfinger/deploy''),
                      (''description'', JStr (take 140 desc))] @ with_target targetUrl) \<rparr>))"

definition branchesRequest :: "forge_kind \<Rightarrow> repo_coords \<Rightarrow> (string \<times> bool) option" where
  "branchesRequest kind c =
     (case kind of
        Generic \<Rightarrow> None
      | Gitlab \<Rightarrow> Some (''https://'' @ rc_host c @ ''/api/v4/projects/'' @
          encodeURIComponent (rc_owner c @ ''/'' @ rc_repo c) @ ''/repository/branches?per_page=100'', False)
      | _ \<Rightarrow> Some ((if rc_host c = ''github.com'' then ''https://api.github.com/repos/''
            else ''https://'' @ rc_host c @ ''/api/v1/repos/'') @
          rc_owner c @ ''/'' @ rc_repo c @ ''/branches?per_page=100'', True))"

definition sha_like :: "string \<Rightarrow> bool" where
  "sha_like s = (7 \<le> length s \<and> length s \<le> 64 \<and> list_all (\<lambda>c. hex_val c \<noteq> None) s)"

text \<open>
  The network: \<open>eg_fetch url headers body\<close> is the status and the body of the answer, or \<open>None\<close>
  with the message of the exception; \<open>eg_host\<close> is \<open>new URL(url).hostname\<close>.
\<close>

record egress =
  eg_allowLinkLocal :: bool
  eg_host :: "string \<Rightarrow> string option"
  eg_fetch :: "string \<Rightarrow> (string \<times> string) list \<Rightarrow> json option \<Rightarrow> string + (nat \<times> nat list list)"

definition auth_header :: "bool \<Rightarrow> string \<Rightarrow> string \<times> string" where
  "auth_header bearer token =
     (if bearer then (''authorization'', ''Bearer '' @ token) else (''private-token'', token))"

definition url_gate :: "egress \<Rightarrow> string \<Rightarrow> string + unit" where
  "url_gate eg url =
     (if eg_allowLinkLocal eg then Inr ()
      else case eg_host eg url of
          None \<Rightarrow> Inl ''repo url is not api-addressable''
        | Some h \<Rightarrow> if blockedHost h then Inl EGRESS_BLOCKED_DETAIL else Inr ())"

definition postCommitStatus ::
  "egress \<Rightarrow> forge_kind \<Rightarrow> repo_coords \<Rightarrow> string \<Rightarrow> string \<Rightarrow> release_status \<Rightarrow> string \<Rightarrow> string option \<Rightarrow> string + unit" where
  "postCommitStatus eg kind coords token sha status desc targetUrl =
     (if \<not> sha_like sha then Inl ''invalid sha''
      else case statusRequest kind coords sha status desc targetUrl of
          None \<Rightarrow> Inl ''forge has no status api''
        | Some req \<Rightarrow> and_then (url_gate eg (sr_url req)) (\<lambda>_.
            case eg_fetch eg (sr_url req)
                   [(''content-type'', ''application/json''), auth_header (sr_bearer req) token]
                   (Some (sr_body req)) of
              Inl e \<Rightarrow> Inl e
            | Inr (st, _) \<Rightarrow> if 200 \<le> st \<and> st < 300 then Inr () else Inl (''HTTP '' @ int_text (int st))))"

section \<open>Listing branches\<close>

text \<open>The reading loop: chunks are kept until the total exceeds the bound, then cut to it.\<close>

fun read_loop :: "nat \<Rightarrow> nat \<Rightarrow> nat list list \<Rightarrow> nat list list" where
  "read_loop mx got [] = []"
| "read_loop mx got (c # cs) =
     (if got + length c > mx then [c] else c # read_loop mx (got + length c) cs)"

fun fill_out :: "nat \<Rightarrow> nat list list \<Rightarrow> nat list" where
  "fill_out room [] = []"
| "fill_out room (c # cs) = take room c @ fill_out (room - length (take room c)) cs"

definition readBounded :: "nat \<Rightarrow> nat list list \<Rightarrow> nat list" where
  "readBounded mx chunks =
     (let kept = read_loop mx 0 chunks in fill_out (min (length (concat kept)) mx) kept)"

definition MAX_FORGE_BODY :: nat where "MAX_FORGE_BODY = 256 * 1024"

definition branch_name :: "json \<Rightarrow> string option" where
  "branch_name b = (case jmember ''name'' b of Some (JStr n) \<Rightarrow> if length n \<le> 200 then Some n else None | _ \<Rightarrow> None)"

text \<open>\<open>decode\<close> is \<open>TextDecoder\<close>.\<close>

definition listBranches ::
  "egress \<Rightarrow> (nat list \<Rightarrow> string) \<Rightarrow> forge_kind \<Rightarrow> repo_coords \<Rightarrow> string option \<Rightarrow> string + string list" where
  "listBranches eg decode kind coords token =
     (case branchesRequest kind coords of
        None \<Rightarrow> Inl ''forge has no branch api''
      | Some (url, bearer) \<Rightarrow> and_then (url_gate eg url) (\<lambda>_.
          case eg_fetch eg url ((''accept'', ''application/json'') #
                 (case token of None \<Rightarrow> [] | Some t \<Rightarrow> if t = [] then [] else [auth_header bearer t])) None of
            Inl e \<Rightarrow> Inl e
          | Inr (st, chunks) \<Rightarrow>
              if st < 200 \<or> 300 \<le> st then Inl (''HTTP '' @ int_text (int st))
              else case json_parse (decode (readBounded MAX_FORGE_BODY chunks)) of
                  None \<Rightarrow> Inl ''Unexpected token''
                | Some (JArr vs) \<Rightarrow> Inr (take 100 (List.map_filter branch_name vs))
                | Some _ \<Rightarrow> Inl ''unexpected response''))"

lemma fill_out_take: "fill_out n cs = take n (concat cs)"
proof (induction cs arbitrary: n)
  case (Cons c cs)
  have "n - length (take n c) = n - length c" by simp
  with Cons show ?case by simp
qed simp

lemma read_loop_take: "got \<le> mx \<Longrightarrow>
    take (mx - got) (concat (read_loop mx got cs)) = take (mx - got) (concat cs)"
proof (induction cs arbitrary: got)
  case (Cons c cs)
  show ?case
  proof (cases "got + length c > mx")
    case True
    then have "mx - got - length c = 0" by simp
    with True show ?thesis by simp
  next
    case False
    then have "got + length c \<le> mx" by simp
    from Cons.IH [OF this] False show ?thesis by simp
  qed
qed simp

text \<open>What is read is the body, cut to the bound: nothing is lost and nothing is reordered.\<close>

lemma readBounded_take: "readBounded mx cs = take mx (concat cs)"
proof -
  have "take mx (concat (read_loop mx 0 cs)) = take mx (concat cs)"
    using read_loop_take [of 0 mx cs] by simp
  then show ?thesis
    by (metis fill_out_take min.commute min_def order_refl readBounded_def take_all take_take)
qed

end
