(* ===== verification/Deploy_Hook.thy ===== *)
theory Deploy_Hook
  imports Deploy_Forge
begin

text \<open>
  Reading a forge's webhook: \<open>src/src/lib/server/deploy/hook.ts\<close>.  \<open>Headers.get\<close> is a function
  on lower case names and the HMAC digest in hexadecimal is a parameter.  The pattern \<open>globMatch\<close>
  builds is a list of \<open>pat\<close>, one constructor per kind of regular expression it writes.
\<close>

type_synonym headers = "string \<Rightarrow> string option"

section \<open>Signatures\<close>

definition utf8_length :: "string \<Rightarrow> nat" where
  "utf8_length s = sum_list (map (\<lambda>c. if (of_char c :: nat) < 128 then 1 else 2) s)"

text \<open>\<open>timingSafeEqual\<close> throws on buffers of different lengths.\<close>

definition timingSafeEqual :: "string \<Rightarrow> string \<Rightarrow> deploy_fault + bool" where
  "timingSafeEqual a b = (if utf8_length a \<noteq> utf8_length b then Inl Thrown else Inr (a = b))"

definition same_token :: "string \<Rightarrow> string \<Rightarrow> deploy_fault + bool" where
  "same_token a b = (if length a = length b then timingSafeEqual a b else Inr False)"

definition or_else :: "deploy_fault + bool \<Rightarrow> deploy_fault + bool \<Rightarrow> deploy_fault + bool" where
  "or_else a b = and_then a (\<lambda>x. if x then Inr True else b)"

definition hookSignatureOk ::
  "(string \<Rightarrow> string \<Rightarrow> string) \<Rightarrow> headers \<Rightarrow> string \<Rightarrow> string \<Rightarrow> deploy_fault + bool" where
  "hookSignatureOk hmac hdr body secret =
     (let gh = or_default (hdr ''x-hub-signature-256'') [];
          gl = or_default (hdr ''x-gitlab-token'') [];
          plain = or_default (hdr ''x-wharfinger-secret'') [];
          expected = ''sha256='' @ hmac secret body
      in or_else (same_token gh expected) (or_else (same_token gl secret) (same_token plain secret)))"

section \<open>Push events\<close>

record push =
  ph_ref :: string
  ph_commit :: "string option"
  ph_paths :: "string list"

definition MAX_PUSH_PATHS :: nat where "MAX_PUSH_PATHS = 2000"

definition PUSH_PATH_KEYS :: "string list" where
  "PUSH_PATH_KEYS = [''added'', ''modified'', ''removed'']"

definition add_path :: "string list \<Rightarrow> json \<Rightarrow> string list" where
  "add_path out p = (case p of
       JStr s \<Rightarrow> if length out < MAX_PUSH_PATHS \<and> s \<notin> set out then out @ [s] else out
     | _ \<Rightarrow> out)"

definition take_key :: "json \<Rightarrow> string list \<Rightarrow> string \<Rightarrow> string list" where
  "take_key entry out key = (case jmember key entry of Some (JArr ps) \<Rightarrow> foldl add_path out ps | _ \<Rightarrow> out)"

definition take_entry :: "string list \<Rightarrow> json \<Rightarrow> string list" where
  "take_entry out entry = foldl (take_key entry) out PUSH_PATH_KEYS"

definition pushPaths :: "json \<Rightarrow> string list" where
  "pushPaths payload =
     (let out = (case jmember ''commits'' payload of
            Some (JArr cs) \<Rightarrow> foldl take_entry [] (take 200 cs) | _ \<Rightarrow> [])
      in case jmember ''head_commit'' payload of Some h \<Rightarrow> take_entry out h | None \<Rightarrow> out)"

text \<open>\<open>Inr None\<close> is the answer \<open>null\<close> for a text that is no JSON; reading a member of \<open>null\<close> throws.\<close>

definition parsePush :: "string \<Rightarrow> deploy_fault + push option" where
  "parsePush t =
     (case json_parse t of
        None \<Rightarrow> Inr None
      | Some JNull \<Rightarrow> Inl Thrown
      | Some p \<Rightarrow> Inr (Some \<lparr>
          ph_ref = str_or_empty (jmember ''ref'' p),
          ph_commit = (case jmember ''after'' p of
              Some (JStr a) \<Rightarrow> Some (take 64 a)
            | _ \<Rightarrow> (case jmember ''checkout_sha'' p of Some (JStr c) \<Rightarrow> Some (take 64 c) | _ \<Rightarrow> None)),
          ph_paths = pushPaths p \<rparr>))"

section \<open>Pull request events\<close>

datatype pr_action = PrUpdate | PrClose

record pr_event =
  pe_action :: pr_action
  pe_pr :: int
  pe_sha :: "string option"

definition MAX_PR_NUMBER :: int where "MAX_PR_NUMBER = 10000000"

definition isPRWebhook :: "headers \<Rightarrow> bool" where
  "isPRWebhook hdr =
     (js_lower (case hdr ''x-github-event'' of Some s \<Rightarrow> s
        | None \<Rightarrow> (case hdr ''x-gitea-event'' of Some s \<Rightarrow> s
            | None \<Rightarrow> or_default (hdr ''x-forgejo-event'') [])) = ''pull_request'' \<or>
      hdr ''x-gitlab-event'' = Some ''Merge Request Hook'')"

definition pr_number :: "json option \<Rightarrow> int option" where
  "pr_number v = (case num_int (js_number v) of None \<Rightarrow> None
     | Some n \<Rightarrow> if 1 \<le> n \<and> n \<le> MAX_PR_NUMBER then Some n else None)"

definition short_sha :: "json option \<Rightarrow> string option" where
  "short_sha v = (case v of Some (JStr s) \<Rightarrow> Some (take 64 s) | _ \<Rightarrow> None)"

definition sub :: "string \<Rightarrow> json option \<Rightarrow> json option" where
  "sub k v = (case v of None \<Rightarrow> None | Some w \<Rightarrow> jmember k w)"

definition pr_event_of :: "string \<Rightarrow> string list \<Rightarrow> string list \<Rightarrow> int \<Rightarrow> string option \<Rightarrow> pr_event option" where
  "pr_event_of act closes updates n sha =
     (if act \<in> set closes then Some \<lparr> pe_action = PrClose, pe_pr = n, pe_sha = sha \<rparr>
      else if act \<in> set updates then Some \<lparr> pe_action = PrUpdate, pe_pr = n, pe_sha = sha \<rparr> else None)"

definition gitlab_event :: "json \<Rightarrow> pr_event option" where
  "gitlab_event p =
     (let attrs = jmember ''object_attributes'' p in
      if jmember ''object_kind'' p \<noteq> Some (JStr ''merge_request'') \<or> \<not> truthy attrs then None
      else case pr_number (sub ''iid'' attrs) of None \<Rightarrow> None
        | Some n \<Rightarrow> pr_event_of (js_string_opt (sub ''action'' attrs)) [''close'', ''merge'']
            [''open'', ''reopen'', ''update''] n (short_sha (sub ''id'' (sub ''last_commit'' attrs))))"

definition github_event :: "json \<Rightarrow> pr_event option" where
  "github_event p =
     (let obj = jmember ''pull_request'' p; number = jmember ''number'' p in
      case pr_number (if nullish number then sub ''number'' obj else number) of None \<Rightarrow> None
        | Some n \<Rightarrow> pr_event_of (js_string_opt (jmember ''action'' p)) [''closed'']
            [''opened'', ''reopened'', ''synchronize''] n (short_sha (sub ''sha'' (sub ''head'' obj))))"

definition parsePREvent :: "headers \<Rightarrow> string \<Rightarrow> deploy_fault + pr_event option" where
  "parsePREvent hdr t =
     (if \<not> isPRWebhook hdr then Inr None
      else case json_parse t of
          None \<Rightarrow> Inr None
        | Some JNull \<Rightarrow> Inl Thrown
        | Some p \<Rightarrow> Inr (if hdr ''x-gitlab-event'' = Some ''Merge Request Hook'' then gitlab_event p
                        else github_event p))"

definition prHeadRef :: "forge_kind \<Rightarrow> int \<Rightarrow> string" where
  "prHeadRef forge n = (if forge = Gitlab then ''refs/merge-requests/'' @ int_text n @ ''/head''
     else ''refs/pull/'' @ int_text n @ ''/head'')"

section \<open>Branch and path filters\<close>

definition branchMatches :: "string \<Rightarrow> string \<Rightarrow> bool" where
  "branchMatches r want =
     (if \<not> starts_with ''refs/heads/'' r then True else drop (length ''refs/heads/'') r = want)"

datatype pat = PChar char | PStar | PDirs | PAny

definition seg_pat :: "char \<Rightarrow> pat" where
  "seg_pat c = (if c = CHR ''*'' then PStar else PChar c)"

text \<open>The loop over the segments; \<open>glue\<close> says whether no slash is written before the next one.\<close>

fun glob_pats :: "bool \<Rightarrow> string list \<Rightarrow> pat list" where
  "glob_pats glue [] = []"
| "glob_pats glue (w # ws) =
     (if glue then [] else [PChar (CHR ''/'')]) @
     (if w = ''**'' then [if ws = [] then PAny else PDirs] else map seg_pat w) @
     glob_pats (w = ''**'') ws"

text \<open>
  \<open>RegExp.test\<close> of an anchored pattern: \<open>[^/]*\<close> is \<open>PStar\<close>, \<open>(?:[^/]+/)*\<close> is \<open>PDirs\<close> and
  \<open>.*\<close>, which stops at a line terminator, is \<open>PAny\<close>.
\<close>

definition first_dir :: "string \<Rightarrow> string option" where
  "first_dir s = (case dropWhile (\<lambda>c. c \<noteq> CHR ''/'') s of [] \<Rightarrow> None
     | _ # r \<Rightarrow> if takeWhile (\<lambda>c. c \<noteq> CHR ''/'') s = [] then None else Some r)"

lemma first_dir_shorter: "first_dir s = Some r \<Longrightarrow> length r < length s"
proof -
  assume "first_dir s = Some r"
  then obtain c where "dropWhile (\<lambda>c. c \<noteq> CHR ''/'') s = c # r"
    by (auto simp: first_dir_def split: list.splits if_splits)
  then show ?thesis
    using length_dropWhile_le [of "\<lambda>c. c \<noteq> CHR ''/''" s] by simp
qed

function pmatch :: "pat list \<Rightarrow> string \<Rightarrow> bool" where
  "pmatch [] s = (s = [])"
| "pmatch (PChar c # ps) s = (case s of [] \<Rightarrow> False | d # r \<Rightarrow> d = c \<and> pmatch ps r)"
| "pmatch (PStar # ps) s = (pmatch ps s \<or>
     (case s of [] \<Rightarrow> False | d # r \<Rightarrow> d \<noteq> CHR ''/'' \<and> pmatch (PStar # ps) r))"
| "pmatch (PDirs # ps) s = (pmatch ps s \<or>
     (case first_dir s of None \<Rightarrow> False | Some r \<Rightarrow> pmatch (PDirs # ps) r))"
| "pmatch (PAny # ps) s = (pmatch ps s \<or>
     (case s of [] \<Rightarrow> False | d # r \<Rightarrow> d \<noteq> CHR 0x0A \<and> d \<noteq> CHR 0x0D \<and> pmatch (PAny # ps) r))"
  by pat_completeness auto
termination
  by (relation "measures [\<lambda>(ps, s). length s, \<lambda>(ps, s). length ps]") (auto dest: first_dir_shorter)

definition globMatch :: "string \<Rightarrow> string \<Rightarrow> bool" where
  "globMatch flt path =
     (if CHR ''*'' \<notin> set flt
      then path = flt \<or> starts_with (if js_ends_with flt ''/'' then flt else flt @ ''/'') path
      else pmatch (glob_pats True (split_on (CHR ''/'') flt)) path)"

definition pathsMatch :: "string list \<Rightarrow> string list \<Rightarrow> bool" where
  "pathsMatch filters touched =
     (if touched = [] then True else list_ex (\<lambda>p. list_ex (\<lambda>f. globMatch f p) filters) touched)"

end
