(* ===== verification/Path_Filter.thy ===== *)
theory Path_Filter
  imports Deploy_Hook
begin

text \<open>
  The path filter against its documentation.  \<open>glob_ref\<close> says on path segments what the comment of
  \<open>pathsMatch\<close> says: a star stays within a segment, a double star spans any depth.  The pattern the
  loop of \<open>globMatch\<close> writes accepts exactly the paths \<open>glob_ref\<close> accepts.
\<close>

section \<open>The reference\<close>

fun seg_match :: "string \<Rightarrow> string \<Rightarrow> bool" where
  "seg_match [] w = (w = [])"
| "seg_match (c # f) w =
     (if c = CHR ''*'' then seg_match f w \<or> (case w of [] \<Rightarrow> False | _ # r \<Rightarrow> seg_match (c # f) r)
      else (case w of [] \<Rightarrow> False | d # r \<Rightarrow> d = c \<and> seg_match f r))"

text \<open>
  A double star before the last segment skips segments that are not empty; as the last segment it
  takes whatever is left.
\<close>

fun glob_ref :: "string list \<Rightarrow> string list \<Rightarrow> bool" where
  "glob_ref [] ws = (ws = [])"
| "glob_ref (f # fs) [] = False"
| "glob_ref (f # fs) (w # ws) =
     (if f = ''**'' then
        (if fs = [] then list_all no_newline (w # ws)
         else glob_ref fs (w # ws) \<or> (w \<noteq> [] \<and> ws \<noteq> [] \<and> glob_ref (f # fs) ws))
      else seg_match f w \<and> (if fs = [] then ws = [] else glob_ref fs ws))"

section \<open>Splitting at slashes\<close>

abbreviation slash :: char where "slash \<equiv> CHR ''/''"

lemma split_on_not_Nil [simp]: "split_on d s \<noteq> []"
  by (induction s) (auto split: list.splits)

lemma split_on_atom: "d \<notin> set u \<Longrightarrow> split_on d u = [u]"
  by (induction u) auto

lemma split_on_append: "d \<notin> set u \<Longrightarrow> split_on d (u @ d # r) = u # split_on d r"
  by (induction u) auto

lemma split_on_pieces: "w \<in> set (split_on d s) \<Longrightarrow> d \<notin> set w"
proof (induction s arbitrary: w)
  case (Cons c s)
  then show ?case by (cases "split_on d s") (auto split: if_splits)
qed simp

lemma string_cases:
  obtains "d \<notin> set s" | u r where "d \<notin> set u" "s = u @ d # r"
  by (metis split_list_first)

lemma first_dir_append: "slash \<notin> set u \<Longrightarrow> first_dir (u @ slash # r) = (if u = [] then None else Some r)"
  by (auto simp: first_dir_def takeWhile_append dropWhile_append)

lemma first_dir_atom:
  assumes "slash \<notin> set u"
  shows "first_dir u = None"
proof -
  have "dropWhile (\<lambda>c. c \<noteq> slash) u = []" unfolding dropWhile_eq_Nil_conv using assms by metis
  then show ?thesis by (simp only: first_dir_def list.case)
qed

lemma split_no_newline: "list_all no_newline (split_on slash s) = no_newline s"
proof (induction s)
  case (Cons c s)
  then show ?case by (cases "split_on slash s") (auto simp: no_newline_def)
qed (simp add: no_newline_def)

section \<open>The parts of a pattern\<close>

lemma pmatch_any: "pmatch [PAny] s = no_newline s"
  by (induction s) (auto simp: no_newline_def)

lemma pmatch_char: "pmatch (PChar c # ps) s \<longleftrightarrow> (\<exists>r. s = c # r \<and> pmatch ps r)"
  by (cases s) auto

lemma pmatch_star:
  "pmatch (PStar # ps) s \<longleftrightarrow> (\<exists>a b. s = a @ b \<and> slash \<notin> set a \<and> pmatch ps b)"
proof (induction s)
  case (Cons d s)
  show ?case
  proof
    assume "pmatch (PStar # ps) (d # s)"
    then consider "pmatch ps (d # s)" | "d \<noteq> slash" "pmatch (PStar # ps) s" by auto
    then show "\<exists>a b. d # s = a @ b \<and> slash \<notin> set a \<and> pmatch ps b"
    proof cases
      case 1
      then have "d # s = [] @ d # s \<and> slash \<notin> set [] \<and> pmatch ps (d # s)" by simp
      then show ?thesis by blast
    next
      case 2
      then obtain a b where "s = a @ b" "slash \<notin> set a" "pmatch ps b" using Cons.IH by blast
      with 2(1) have "d # s = (d # a) @ b \<and> slash \<notin> set (d # a) \<and> pmatch ps b" by simp
      then show ?thesis by blast
    qed
  next
    assume "\<exists>a b. d # s = a @ b \<and> slash \<notin> set a \<and> pmatch ps b"
    then obtain a b where ab: "d # s = a @ b" "slash \<notin> set a" "pmatch ps b" by blast
    show "pmatch (PStar # ps) (d # s)"
    proof (cases a)
      case (Cons x a')
      with ab have "d \<noteq> slash" "s = a' @ b" "slash \<notin> set a'" by auto
      then show ?thesis using Cons.IH ab(3) by auto
    qed (use ab in auto)
  qed
qed simp

lemma seg_match_star: "seg_match (CHR ''*'' # f) w \<longleftrightarrow> (\<exists>a b. w = a @ b \<and> seg_match f b)"
proof (induction w)
  case (Cons d w)
  have "(\<exists>a b. d # w = a @ b \<and> seg_match f b) \<longleftrightarrow> seg_match f (d # w) \<or> (\<exists>a b. w = a @ b \<and> seg_match f b)"
    by (auto simp: Cons_eq_append_conv)
  then show ?case using Cons.IH by simp
qed simp

lemma pmatch_segment:
  "slash \<notin> set f \<Longrightarrow>
   pmatch (map seg_pat f @ ps) s \<longleftrightarrow> (\<exists>u v. s = u @ v \<and> slash \<notin> set u \<and> seg_match f u \<and> pmatch ps v)"
proof (induction f arbitrary: s)
  case (Cons c f)
  then have IH: "\<And>s. pmatch (map seg_pat f @ ps) s \<longleftrightarrow>
      (\<exists>u v. s = u @ v \<and> slash \<notin> set u \<and> seg_match f u \<and> pmatch ps v)" and c: "c \<noteq> slash" by auto
  show ?case
  proof (cases "c = CHR ''*''")
    case True
    have "pmatch (map seg_pat (c # f) @ ps) s \<longleftrightarrow>
        (\<exists>a u v. s = a @ u @ v \<and> slash \<notin> set a \<and> slash \<notin> set u \<and> seg_match f u \<and> pmatch ps v)"
      using True by (auto simp: seg_pat_def pmatch_star IH simp del: pmatch.simps)
    also have "\<dots> \<longleftrightarrow> (\<exists>u v. s = u @ v \<and> slash \<notin> set u \<and> seg_match (c # f) u \<and> pmatch ps v)"
      unfolding True seg_match_star
    proof
      assume "\<exists>a u v. s = a @ u @ v \<and> slash \<notin> set a \<and> slash \<notin> set u \<and> seg_match f u \<and> pmatch ps v"
      then obtain a u v where "s = (a @ u) @ v" "slash \<notin> set (a @ u)" "seg_match f u" "pmatch ps v" by auto
      then show "\<exists>u v. s = u @ v \<and> slash \<notin> set u \<and> (\<exists>a b. u = a @ b \<and> seg_match f b) \<and> pmatch ps v"
        by blast
    next
      assume "\<exists>u v. s = u @ v \<and> slash \<notin> set u \<and> (\<exists>a b. u = a @ b \<and> seg_match f b) \<and> pmatch ps v"
      then obtain a b v where "s = a @ b @ v" "slash \<notin> set a" "slash \<notin> set b" "seg_match f b" "pmatch ps v"
        by auto
      then show "\<exists>a u v. s = a @ u @ v \<and> slash \<notin> set a \<and> slash \<notin> set u \<and> seg_match f u \<and> pmatch ps v"
        by blast
    qed
    finally show ?thesis .
  next
    case False
    have "pmatch (map seg_pat (c # f) @ ps) s \<longleftrightarrow> (\<exists>r. s = c # r \<and> pmatch (map seg_pat f @ ps) r)"
      using False by (cases s) (auto simp: seg_pat_def)
    also have "\<dots> \<longleftrightarrow> (\<exists>u v. s = (c # u) @ v \<and> slash \<notin> set u \<and> seg_match f u \<and> pmatch ps v)"
      using IH by auto
    also have "\<dots> \<longleftrightarrow> (\<exists>u v. s = u @ v \<and> slash \<notin> set u \<and> seg_match (c # f) u \<and> pmatch ps v)"
    proof
      assume "\<exists>u v. s = u @ v \<and> slash \<notin> set u \<and> seg_match (c # f) u \<and> pmatch ps v"
      then obtain u v where "s = u @ v" "slash \<notin> set u" "seg_match (c # f) u" "pmatch ps v" by blast
      with False show "\<exists>u v. s = (c # u) @ v \<and> slash \<notin> set u \<and> seg_match f u \<and> pmatch ps v"
        by (cases u) auto
    next
      assume "\<exists>u v. s = (c # u) @ v \<and> slash \<notin> set u \<and> seg_match f u \<and> pmatch ps v"
      then obtain u v where "s = (c # u) @ v" "slash \<notin> set u" "seg_match f u" "pmatch ps v" by blast
      with False c have "s = (c # u) @ v \<and> slash \<notin> set (c # u) \<and> seg_match (c # f) (c # u) \<and> pmatch ps v"
        by simp
      then show "\<exists>u v. s = u @ v \<and> slash \<notin> set u \<and> seg_match (c # f) u \<and> pmatch ps v" by blast
    qed
    finally show ?thesis .
  qed
qed simp

lemma pmatch_last_segment:
  assumes "slash \<notin> set f"
  shows "pmatch (map seg_pat f) s \<longleftrightarrow> slash \<notin> set s \<and> seg_match f s"
  using pmatch_segment [OF assms, of "[]" s] by auto

lemma pmatch_dirs_append:
  "slash \<notin> set u \<Longrightarrow> pmatch (PDirs # ps) (u @ slash # r) \<longleftrightarrow>
     pmatch ps (u @ slash # r) \<or> (u \<noteq> [] \<and> pmatch (PDirs # ps) r)"
  by (auto simp: first_dir_append)

lemma pmatch_dirs_atom: "slash \<notin> set u \<Longrightarrow> pmatch (PDirs # ps) u \<longleftrightarrow> pmatch ps u"
  by (simp add: first_dir_atom)

section \<open>The pattern accepts what the reference accepts\<close>

lemma glob_pats_False: "ws \<noteq> [] \<Longrightarrow> glob_pats False ws = PChar slash # glob_pats True ws"
  by (cases ws) auto

lemma prefix_unique:
  "slash \<notin> set u \<Longrightarrow> slash \<notin> set u' \<Longrightarrow> u @ slash # r = u' @ slash # r' \<longleftrightarrow> u = u' \<and> r = r'"
  by (metis split_on_append list.inject append_same_eq same_append_eq)

lemma pmatch_glob:
  "fs \<noteq> [] \<Longrightarrow> \<forall>f \<in> set fs. slash \<notin> set f \<Longrightarrow>
     pmatch (glob_pats True fs) s \<longleftrightarrow> glob_ref fs (split_on slash s)"
proof (induction fs arbitrary: s)
  case (Cons f fs)
  then have f: "slash \<notin> set f" and fs: "\<forall>f \<in> set fs. slash \<notin> set f" by auto
  consider (last_any) "fs = []" "f = ''**''" | (last) "fs = []" "f \<noteq> ''**''"
    | (dirs) "fs \<noteq> []" "f = ''**''" | (seg) "fs \<noteq> []" "f \<noteq> ''**''" by blast
  then show ?case
  proof cases
    case last_any
    then show ?thesis
      by (cases "split_on slash s")
         (auto simp: pmatch_any split_no_newline [symmetric] simp del: pmatch.simps)
  next
    case last
    have "pmatch (glob_pats True (f # fs)) s \<longleftrightarrow> slash \<notin> set s \<and> seg_match f s"
      using last pmatch_last_segment [OF f] by simp
    also have "\<dots> \<longleftrightarrow> glob_ref (f # fs) (split_on slash s)"
      using last by (cases rule: string_cases [of slash s]) (auto simp: split_on_atom split_on_append)
    finally show ?thesis .
  next
    case dirs
    have pats: "glob_pats True (f # fs) = PDirs # glob_pats True fs" using dirs by simp
    have IH: "\<And>s. pmatch (glob_pats True fs) s \<longleftrightarrow> glob_ref fs (split_on slash s)"
      using Cons.IH [OF dirs(1) fs] .
    have "pmatch (PDirs # glob_pats True fs) s \<longleftrightarrow> glob_ref (f # fs) (split_on slash s)"
    proof (induction "length s" arbitrary: s rule: less_induct)
      case less
      show ?case
      proof (cases rule: string_cases [of slash s])
        case 1
        then show ?thesis using dirs IH [of s]
          by (simp add: pmatch_dirs_atom split_on_atom del: pmatch.simps)
      next
        case (2 u r)
        then have "pmatch (PDirs # glob_pats True fs) r \<longleftrightarrow> glob_ref (f # fs) (split_on slash r)"
          using less [of r] by simp
        with 2 dirs IH [of s] show ?thesis
          by (simp add: pmatch_dirs_append split_on_append del: pmatch.simps)
      qed
    qed
    then show ?thesis using pats by simp
  next
    case seg
    have pats: "glob_pats True (f # fs) = map seg_pat f @ PChar slash # glob_pats True fs"
      using seg by (simp add: glob_pats_False)
    have IH: "\<And>s. pmatch (glob_pats True fs) s \<longleftrightarrow> glob_ref fs (split_on slash s)"
      using Cons.IH [OF seg(1) fs] .
    have "pmatch (glob_pats True (f # fs)) s \<longleftrightarrow>
        (\<exists>u r. s = u @ slash # r \<and> slash \<notin> set u \<and> seg_match f u \<and> glob_ref fs (split_on slash r))"
      unfolding pats pmatch_segment [OF f] by (simp only: pmatch_char IH) blast
    also have "\<dots> \<longleftrightarrow> glob_ref (f # fs) (split_on slash s)"
    proof (cases rule: string_cases [of slash s])
      case 1
      then show ?thesis using seg by (cases fs) (auto simp: split_on_atom)
    next
      case (2 u r)
      then show ?thesis using seg by (auto simp: split_on_append prefix_unique)
    qed
    finally show ?thesis .
  qed
qed simp

text \<open>
  C10. For a filter with a star the regular expression that \<open>globMatch\<close> writes accepts a path
  exactly when the documented segment rule does; a filter without one accepts the path itself and
  what lies below it.
\<close>

theorem globMatch_documented:
  "globMatch flt path \<longleftrightarrow>
     (if CHR ''*'' \<in> set flt then glob_ref (split_on (CHR ''/'') flt) (split_on (CHR ''/'') path)
      else path = flt \<or> starts_with (if js_ends_with flt ''/'' then flt else flt @ ''/'') path)"
proof (cases "CHR ''*'' \<in> set flt")
  case True
  then show ?thesis
    using pmatch_glob [of "split_on slash flt" path] split_on_pieces by (auto simp: globMatch_def)
qed (simp add: globMatch_def)

end
