(* ===== verification/Deploy_Flow.thy ===== *)
theory Deploy_Flow
  imports Deploy_Hook Jobs
begin

text \<open>
  What happens on a deploy trigger: \<open>src/src/lib/server/deploy/trigger.ts\<close>, the preview apps of
  \<open>deploy/preview.ts\<close> and the webhook route \<open>routes/api/deploy/hook/[token]/+server.ts\<close>.  The
  state is the \<open>runtime\<close>, that is the deploy tables and the job queue; a step keeps the state it
  reached also when it ends in a fault.  \<open>fenv\<close> is what the code draws from outside.
\<close>

record runtime =
  rt_deploys :: deploys
  rt_jobs :: jobs_db

record fenv =
  fe_d :: denv
  fe_rel_id :: string
  fe_draw :: "nat \<Rightarrow> int"
  fe_egress :: egress

definition then_do :: "'s \<times> ('e + 'a) \<Rightarrow> ('s \<Rightarrow> 'a \<Rightarrow> 's \<times> ('e + 'b)) \<Rightarrow> 's \<times> ('e + 'b)" where
  "then_do m k = (case m of (s, Inl e) \<Rightarrow> (s, Inl e) | (s, Inr x) \<Rightarrow> k s x)"

lemma then_do_simps [simp]: "then_do (s, Inl e) k = (s, Inl e)" "then_do (s, Inr x) k = k s x"
  by (simp_all add: then_do_def)

definition on_deploys :: "runtime \<Rightarrow> deploy_fault + (deploys \<times> 'a) \<Rightarrow> runtime \<times> (deploy_fault + 'a)" where
  "on_deploys rt m = (case m of Inl e \<Rightarrow> (rt, Inl e) | Inr (d, x) \<Rightarrow> (rt\<lparr> rt_deploys := d \<rparr>, Inr x))"

section \<open>The frozen spec\<close>

fun frac_digits :: "nat \<Rightarrow> rat \<Rightarrow> string" where
  "frac_digits 0 q = []"
| "frac_digits (Suc n) q = (if q = 0 then [] else
     int_text \<lfloor>q * 10\<rfloor> @ frac_digits n (q * 10 - of_int \<lfloor>q * 10\<rfloor>))"

text \<open>A decimal fraction between 0 and 60000; seventeen digits are as many as a double has.\<close>

definition rat_text :: "rat \<Rightarrow> string" where
  "rat_text q = int_text \<lfloor>q\<rfloor> @ (if is_int q then [] else ''.'' @ frac_digits 17 (q - of_int \<lfloor>q\<rfloor>))"

definition opt_field :: "string \<Rightarrow> ('a \<Rightarrow> json) \<Rightarrow> 'a option \<Rightarrow> (string \<times> json) list" where
  "opt_field k f v = (case v of None \<Rightarrow> [] | Some x \<Rightarrow> [(k, f x)])"

definition flag_field :: "string \<Rightarrow> bool \<Rightarrow> (string \<times> json) list" where
  "flag_field k b = (if b then [(k, JBool True)] else [])"

definition source_json :: "app_source \<Rightarrow> json" where
  "source_json src = JObj ([(''kind'', src_kind src)] @ opt_field ''url'' JStr (src_url src) @
     opt_field ''ref'' JStr (src_ref src) @ opt_field ''subdir'' id (src_subdir src) @
     opt_field ''forge'' JStr (src_forge src) @ opt_field ''paths'' json_strings (src_paths src) @
     flag_field ''submodules'' (src_submodules src) @ flag_field ''lfs'' (src_lfs src) @
     flag_field ''previews'' (src_previews src))"

definition health_json :: "healthcheck \<Rightarrow> json" where
  "health_json h = JObj ([(''kind'', hc_kind h), (''port'', json_int (hc_port h))] @
     opt_field ''path'' id (hc_path h) @
     [(''intervalMs'', JNum (rat_text (hc_intervalMs h))), (''timeoutMs'', JNum (rat_text (hc_timeoutMs h))),
      (''retries'', JNum (rat_text (hc_retries h)))])"

definition port_json :: "port_map \<Rightarrow> json" where
  "port_json p = JObj ([(''host'', json_int (pm_host p)), (''container'', json_int (pm_container p))] @
     flag_field ''local'' (pm_local p))"

definition is_kind :: "string \<Rightarrow> deploy_app \<Rightarrow> bool" where
  "is_kind k app = (src_kind (app_source app) = JStr k)"

definition run_ports :: "deploy_app \<Rightarrow> port_map list" where
  "run_ports app =
     (if is_kind ''static'' app then []
      else if app_ports app \<noteq> [] then app_ports app
      else if app_domains app \<noteq> [] then
        (case app_healthcheck app of None \<Rightarrow> []
         | Some h \<Rightarrow> [\<lparr> pm_host = hc_port h, pm_container = hc_port h, pm_local = True \<rparr>])
      else [])"

definition buildSpec :: "deploys \<Rightarrow> deploy_app \<Rightarrow> string \<Rightarrow> string option \<Rightarrow> json" where
  "buildSpec s app releaseId rollbackOf = JObj (
     [(''appId'', JStr (app_id app)), (''releaseId'', JStr releaseId),
      (''jobKey'', JStr (''deploy:'' @ app_id app @ '':'' @ releaseId)),
      (''source'', source_json (app_source app)),
      (''build'', JObj (if is_kind ''image'' app then [(''kind'', JStr ''image'')]
         else if is_kind ''static'' app
         then (''kind'', JStr ''static'') # opt_field ''context'' id (src_subdir (app_source app))
         else [(''kind'', JStr ''dockerfile'')])),
      (''run'', JObj ([(''ports'', JArr (map port_json (run_ports app)))] @
         (if is_kind ''static'' app then [] else opt_field ''healthcheck'' health_json (app_healthcheck app)) @
         [(''envRef'', JStr (app_id app))] @ opt_field ''replicas'' json_int (app_replicas app))),
      (''route'', JObj [(''domains'', json_strings (app_domains app))]),
      (''runtime'', JStr (app_runtime app))] @
     opt_field ''namespace'' JStr (app_namespace app) @
     opt_field ''rollbackOf'' JStr rollbackOf @
     (case liveRelease (app_id app) s of None \<Rightarrow> []
      | Some live \<Rightarrow> [(''prevRelease'', JObj [(''id'', JStr (rel_id live)),
          (''container'', JStr (app_id app @ ''-'' @ rel_id live)),
          (''image'', json_opt JStr (rel_image live))])]))"

section \<open>triggerDeploy\<close>

text \<open>Setting a member of an object keeps its place; a new member goes last.\<close>

fun jset :: "string \<Rightarrow> json \<Rightarrow> (string \<times> json) list \<Rightarrow> (string \<times> json) list" where
  "jset k v [] = [(k, v)]"
| "jset k v ((k', w) # r) = (if k' = k then (k, v) # r else (k', w) # jset k v r)"

definition set_member :: "string \<Rightarrow> json \<Rightarrow> json \<Rightarrow> json" where
  "set_member k v j = (case j of JObj fs \<Rightarrow> JObj (jset k v fs) | _ \<Rightarrow> j)"

definition rollback_spec :: "deploys \<Rightarrow> deploy_app \<Rightarrow> string \<Rightarrow> string \<Rightarrow> deploy_fault + json" where
  "rollback_spec s app target releaseId =
     (case releaseSpec target s of
        None \<Rightarrow> Inl (DeployError 404 ''target release not found'')
      | Some frozen \<Rightarrow>
          if frozen = [] then Inl (DeployError 404 ''target release not found'')
          else case json_parse frozen of
              None \<Rightarrow> Inl Thrown
            | Some JNull \<Rightarrow> Inl Thrown
            | Some prior \<Rightarrow>
                if jmember ''appId'' prior \<noteq> Some (JStr (app_id app))
                then Inl (DeployError 422 ''release belongs to another app'')
                else Inr (set_member ''jobKey'' (JStr (''deploy:'' @ app_id app @ '':'' @ releaseId))
                       (set_member ''rollbackOf'' (JStr target) (set_member ''releaseId'' (JStr releaseId) prior))))"

definition spec_key :: "json \<Rightarrow> string" where
  "spec_key spec = str_or_empty (jmember ''jobKey'' spec)"

definition deploy_job :: "deploy_app \<Rightarrow> json \<Rightarrow> enqueue_opts" where
  "deploy_job app spec = \<lparr> eo_kind = Deploy, eo_target = Some (app_agentId app), eo_spec = stringify spec,
     eo_jobKey = Some (spec_key spec), eo_maxAttempts = Some 1, eo_notBefore = None \<rparr>"

definition run_enqueue :: "enqueue_opts \<Rightarrow> ms \<Rightarrow> runtime \<Rightarrow> runtime \<times> (deploy_fault + job)" where
  "run_enqueue opts now rt = (case enqueue opts [] now (rt_jobs rt) of
       Inl _ \<Rightarrow> (rt, Inl Thrown)
     | Inr (db, j, _) \<Rightarrow> (rt\<lparr> rt_jobs := db \<rparr>, Inr j))"

text \<open>The answer: the job, the new release (none when the key was known) and whether it was known.\<close>

definition triggerDeploy ::
  "fenv \<Rightarrow> deploy_app \<Rightarrow> string option \<Rightarrow> string option \<Rightarrow> runtime
     \<Rightarrow> runtime \<times> (deploy_fault + (job \<times> string option \<times> bool))" where
  "triggerDeploy e app rollbackTo jobKey rt =
     (let now = dv_now (fe_d e); rid = fe_rel_id e in
      case (case rollbackTo of
          None \<Rightarrow> Inr (buildSpec (rt_deploys rt) app rid None)
        | Some target \<Rightarrow> rollback_spec (rt_deploys rt) app target rid) of
        Inl err \<Rightarrow> (rt, Inl err)
      | Inr spec0 \<Rightarrow>
          let spec = (case jobKey of None \<Rightarrow> spec0 | Some k \<Rightarrow> set_member ''jobKey'' (JStr k) spec0) in
          case byKey (spec_key spec) (rt_jobs rt) of
            Some existing \<Rightarrow> (rt, Inr (existing, None, True))
          | None \<Rightarrow>
              then_do (on_deploys rt (createRelease (app_id app) (stringify spec) None rid now (rt_deploys rt)))
                (\<lambda>rt1 rel. then_do (run_enqueue (deploy_job app spec) now rt1)
                  (\<lambda>rt2 j. (rt2\<lparr> rt_deploys := linkJob rid (jb_id j) (rt_deploys rt2) \<rparr>,
                            Inr (j, Some (rel_id rel), False)))))"

section \<open>Status posts and settling\<close>

definition first_concrete :: "string list \<Rightarrow> string option" where
  "first_concrete ds = find (\<lambda>d. \<not> starts_with ''*.'' d) ds"

text \<open>The post itself never fails the caller; an unreadable token does.\<close>

definition postReleaseStatus ::
  "fenv \<Rightarrow> deploy_app \<Rightarrow> string option \<Rightarrow> release_status \<Rightarrow> runtime \<Rightarrow> deploy_fault + (string + unit) option" where
  "postReleaseStatus e app sha status rt =
     (if sha = None \<or> sha = Some [] \<or> \<not> is_kind ''git'' app then Inr None
      else case src_url (app_source app) of
          None \<Rightarrow> Inr None
        | Some url \<Rightarrow> (case parseRepoCoords url of
              None \<Rightarrow> Inr None
            | Some coords \<Rightarrow>
                let kind = forgeKind (src_forge (app_source app)) (Some coords) in
                and_then (forgeToken (fe_d e) (app_id app) (rt_deploys rt)) (\<lambda>token.
                  case token of
                    None \<Rightarrow> Inr None
                  | Some t \<Rightarrow> if t = [] then Inr None else
                      Inr (Some (postCommitStatus (fe_egress e) kind coords t (the sha) status
                        (''wharfinger deploy '' @ (case status of Pending \<Rightarrow> ''pending'' | Live \<Rightarrow> ''live''
                           | ReleaseFailed \<Rightarrow> ''failed'' | ReleaseRolledBack \<Rightarrow> ''rolled_back''
                           | Superseded \<Rightarrow> ''superseded''))
                        (map_option (\<lambda>d. ''https://'' @ d) (first_concrete (app_domains app))))))))"

text \<open>Binding a member of the result to a TEXT column.\<close>

definition bind_text :: "json option \<Rightarrow> deploy_fault + string option" where
  "bind_text v = (case v of
       None \<Rightarrow> Inr None | Some JNull \<Rightarrow> Inr None
     | Some (JStr s) \<Rightarrow> Inr (Some s) | Some (JNum n) \<Rightarrow> Inr (Some (num_text n))
     | Some _ \<Rightarrow> Inl Thrown)"

definition settle_status :: "job_status \<Rightarrow> release_status option" where
  "settle_status st = (case st of Succeeded \<Rightarrow> Some Live | RolledBack \<Rightarrow> Some ReleaseRolledBack
     | Failed \<Rightarrow> Some ReleaseFailed | _ \<Rightarrow> None)"

definition settle_mark ::
  "release_status \<Rightarrow> string \<Rightarrow> string option \<Rightarrow> string option \<Rightarrow> ms \<Rightarrow> deploys \<Rightarrow> deploys" where
  "settle_mark st rid commit img now s =
     (if st = Live then markLive rid commit img now s else markRelease rid st commit img s)"

definition settleDeployJob :: "fenv \<Rightarrow> nat \<Rightarrow> runtime \<Rightarrow> runtime \<times> (deploy_fault + unit)" where
  "settleDeployJob e jobId rt =
     (case get_job jobId (rt_jobs rt) of
        None \<Rightarrow> (rt, Inr ())
      | Some job \<Rightarrow>
          if jb_kind job \<noteq> Deploy \<or> jb_result job = None \<or> jb_result job = Some [] then (rt, Inr ())
          else case json_parse (jb_spec job) of
              None \<Rightarrow> (rt, Inr ())
            | Some spec \<Rightarrow> (case str_or_empty (jmember ''releaseId'' spec) of
                  [] \<Rightarrow> (rt, Inr ())
                | c # cs \<Rightarrow>
                    let rid = c # cs in
                    (case json_parse (or_default (jb_result job) []) of
                       None \<Rightarrow> (rt, Inl Thrown)
                     | Some JNull \<Rightarrow> (rt, Inl Thrown)
                     | Some res \<Rightarrow> (case settle_status (jb_status job) of
                           None \<Rightarrow> (rt, Inr ())
                         | Some st \<Rightarrow>
                             (case (bind_text (jmember ''commit'' res), bind_text (jmember ''image'' res)) of
                                (Inr commit, Inr img) \<Rightarrow>
                                  let d = settle_mark st rid commit img (dv_now (fe_d e)) (rt_deploys rt);
                                      rt' = rt\<lparr> rt_deploys := d \<rparr>
                                  in (case getApp (str_or_empty (jmember ''appId'' spec)) d of
                                        None \<Rightarrow> (rt', Inr ())
                                      | Some app \<Rightarrow>
                                          let sha = (case commit of Some x \<Rightarrow> Some x
                                               | None \<Rightarrow> (case get_release rid d of None \<Rightarrow> None
                                                   | Some r \<Rightarrow> rel_commit r))
                                          in (rt', and_then (postReleaseStatus e app sha st rt') (\<lambda>_. Inr ())))
                              | _ \<Rightarrow> (rt, Inl Thrown))))))"

end
