(* ===== verification/Deploy_Preview.thy ===== *)
theory Deploy_Preview
  imports Deploy_Flow
begin

text \<open>
  Preview apps (\<open>src/src/lib/server/deploy/preview.ts\<close>) and the webhook route that opens and
  closes them.  The draws of \<open>randomInt\<close> are the sequence \<open>fe_draw\<close>; a position in it is passed
  along, so that every port picked is a new draw.
\<close>

definition PREVIEW_TTL_MS :: ms where "PREVIEW_TTL_MS = 72 * 3600000"

definition MAX_PREVIEWS :: nat where "MAX_PREVIEWS = 8"

definition PREVIEW_PORT_MIN :: int where "PREVIEW_PORT_MIN = 30000"

definition PREVIEW_PORT_MAX :: int where "PREVIEW_PORT_MAX = 39999"

definition PREVIEW_NAME_MAX :: nat where "PREVIEW_NAME_MAX = 63"

section \<open>Name, domain and ports\<close>

definition previewName :: "deploy_app \<Rightarrow> int \<Rightarrow> string" where
  "previewName parent n =
     (let suffix = ''-pr'' @ int_text n;
          base = take (PREVIEW_NAME_MAX - length suffix) (app_name parent)
      in rev (dropWhile (\<lambda>c. c = CHR ''-'') (rev base)) @ suffix)"

definition previewDomain :: "deploy_app \<Rightarrow> string \<Rightarrow> string option" where
  "previewDomain parent name =
     (case first_concrete (app_domains parent) of
        None \<Rightarrow> None
      | Some base \<Rightarrow>
          if base = [] then None
          else let rest = drop 1 (split_on (CHR ''.'') base) in
            if length rest < 2 then None else Some (name @ ''.'' @ join_on ''.'' rest))"

text \<open>At most 32 draws from position \<open>k\<close> on; the port and the next position.\<close>

fun try_ports :: "nat \<Rightarrow> (nat \<Rightarrow> int) \<Rightarrow> int set \<Rightarrow> nat \<Rightarrow> deploy_fault + (int \<times> nat)" where
  "try_ports 0 draw used k = Inl (DeployError 409 ''no free preview port on the agent range'')"
| "try_ports (Suc n) draw used k =
     (if draw k \<notin> used then Inr (draw k, Suc k) else try_ports n draw used (Suc k))"

definition allocPort :: "fenv \<Rightarrow> deploys \<Rightarrow> string \<Rightarrow> nat \<Rightarrow> deploy_fault + (int \<times> nat)" where
  "allocPort e s agent k = try_ports 32 (fe_draw e) (usedHostPorts agent s) k"

fun alloc_all :: "fenv \<Rightarrow> deploys \<Rightarrow> string \<Rightarrow> nat \<Rightarrow> int list \<Rightarrow> deploy_fault + port_map list" where
  "alloc_all e s agent k [] = Inr []"
| "alloc_all e s agent k (c # cs) =
     and_then (allocPort e s agent k) (\<lambda>(p, k').
     and_then (alloc_all e s agent k' cs) (\<lambda>ps.
       Inr (\<lparr> pm_host = p, pm_container = c, pm_local = True \<rparr> # ps)))"

definition previewPorts :: "fenv \<Rightarrow> deploys \<Rightarrow> deploy_app \<Rightarrow> deploy_fault + port_map list" where
  "previewPorts e s parent =
     (if app_runtime parent = ''k8s'' then Inr (app_ports parent)
      else if app_ports parent \<noteq> [] then
        alloc_all e s (app_agentId parent) 0 (map pm_container (app_ports parent))
      else case app_healthcheck parent of
          None \<Rightarrow> Inr []
        | Some h \<Rightarrow> alloc_all e s (app_agentId parent) 0 [hc_port h])"

section \<open>Teardown\<close>

definition teardown_job :: "deploy_app \<Rightarrow> enqueue_opts" where
  "teardown_job app = \<lparr> eo_kind = Teardown, eo_target = Some (app_agentId app),
     eo_spec = stringify (JObj ([(''appId'', JStr (app_id app)), (''runtime'', JStr (app_runtime app))] @
       opt_field ''namespace'' JStr (app_namespace app))),
     eo_jobKey = Some (''teardown:'' @ app_id app), eo_maxAttempts = Some 3, eo_notBefore = None \<rparr>"

definition teardown :: "ms \<Rightarrow> deploy_app \<Rightarrow> runtime \<Rightarrow> runtime \<times> (deploy_fault + unit)" where
  "teardown now app rt = then_do (run_enqueue (teardown_job app) now rt)
     (\<lambda>rt1 _. (rt1\<lparr> rt_deploys := fst (deleteApp (app_id app) (rt_deploys rt1)) \<rparr>, Inr ()))"

fun teardown_all :: "ms \<Rightarrow> deploy_app list \<Rightarrow> runtime \<Rightarrow> runtime \<times> (deploy_fault + unit)" where
  "teardown_all now [] rt = (rt, Inr ())"
| "teardown_all now (a # as) rt = then_do (teardown now a rt) (\<lambda>rt1 _. teardown_all now as rt1)"

definition closePreview :: "ms \<Rightarrow> deploy_app \<Rightarrow> int \<Rightarrow> runtime \<Rightarrow> runtime \<times> (deploy_fault + bool)" where
  "closePreview now parent n rt =
     (case previewFor (app_id parent) n (rt_deploys rt) of
        None \<Rightarrow> (rt, Inr False)
      | Some app \<Rightarrow> then_do (teardown now app rt) (\<lambda>rt1 _. (rt1, Inr True)))"

definition closeAllPreviews :: "ms \<Rightarrow> string \<Rightarrow> runtime \<Rightarrow> runtime \<times> (deploy_fault + nat)" where
  "closeAllPreviews now parentId rt =
     (let previews = previewsFor parentId (rt_deploys rt) in
      then_do (teardown_all now previews rt) (\<lambda>rt1 _. (rt1, Inr (length previews))))"

definition sweepPreviews :: "ms \<Rightarrow> runtime \<Rightarrow> runtime \<times> (deploy_fault + nat)" where
  "sweepPreviews now rt =
     (let expired = expiredPreviews now (rt_deploys rt) in
      then_do (teardown_all now expired rt) (\<lambda>rt1 _. (rt1, Inr (length expired))))"

section \<open>Opening a preview\<close>

definition preview_opts_for ::
  "fenv \<Rightarrow> deploys \<Rightarrow> deploy_app \<Rightarrow> pr_event \<Rightarrow> string \<Rightarrow> ms \<Rightarrow> deploy_fault + preview_opts" where
  "preview_opts_for e s parent ev url expiresAt =
     (let name = previewName parent (pe_pr ev);
          coords = parseRepoCoords url;
          kind = (if coords = None then Generic else forgeKind (src_forge (app_source parent)) coords)
      in and_then (previewPorts e s parent) (\<lambda>ports.
           Inr \<lparr> po_name = name, po_pr = pe_pr ev,
             po_source = source_json ((app_source parent)\<lparr> src_ref := Some (prHeadRef kind (pe_pr ev)),
               src_previews := False \<rparr>),
             po_domains = (case previewDomain parent name of None \<Rightarrow> [] | Some d \<Rightarrow> [d]),
             po_ports = JArr (map port_json ports), po_expiresAt = expiresAt \<rparr>))"

definition preview_app ::
  "fenv \<Rightarrow> deploy_app \<Rightarrow> pr_event \<Rightarrow> string \<Rightarrow> ms \<Rightarrow> runtime \<Rightarrow> runtime \<times> (deploy_fault + deploy_app)" where
  "preview_app e parent ev url expiresAt rt =
     (let s = rt_deploys rt in
      case previewFor (app_id parent) (pe_pr ev) s of
        Some app \<Rightarrow> (rt, Inr app)
      | None \<Rightarrow>
          if length (previewsFor (app_id parent) s) \<ge> MAX_PREVIEWS
          then (rt, Inl (DeployError 429 ''preview cap reached (8 per app)''))
          else (case preview_opts_for e s parent ev url expiresAt of
                  Inl err \<Rightarrow> (rt, Inl err)
                | Inr opts \<Rightarrow> on_deploys rt (createPreviewApp (fe_d e) parent opts s)))"

definition refresh_deadline :: "deploy_app \<Rightarrow> ms \<Rightarrow> ms \<Rightarrow> runtime \<Rightarrow> runtime" where
  "refresh_deadline app expiresAt now rt =
     (if (case app_previewExpires app of None \<Rightarrow> True | Some t \<Rightarrow> t < expiresAt)
      then rt\<lparr> rt_deploys := touchPreview (app_id app) expiresAt now (rt_deploys rt) \<rparr> else rt)"

text \<open>The commit of a new release, then its pending status; an unreadable token ends here.\<close>

definition note_pending ::
  "fenv \<Rightarrow> deploy_app \<Rightarrow> string option \<Rightarrow> string option \<Rightarrow> bool \<Rightarrow> runtime \<Rightarrow> runtime \<times> (deploy_fault + unit)" where
  "note_pending e app sha releaseId deduped rt =
     (case (sha, releaseId) of
        (Some c, Some rid) \<Rightarrow>
          if deduped \<or> c = [] then (rt, Inr ())
          else let rt' = rt\<lparr> rt_deploys := noteCommit rid c (rt_deploys rt) \<rparr>
               in (rt', and_then (postReleaseStatus e app (Some c) Pending rt') (\<lambda>_. Inr ()))
      | _ \<Rightarrow> (rt, Inr ()))"

record preview_result =
  pv_app :: deploy_app
  pv_jobId :: nat
  pv_releaseId :: "string option"
  pv_deduped :: bool

definition openPreview ::
  "fenv \<Rightarrow> deploy_app \<Rightarrow> pr_event \<Rightarrow> string \<Rightarrow> runtime \<Rightarrow> runtime \<times> (deploy_fault + preview_result)" where
  "openPreview e parent ev delivery rt =
     (let now = dv_now (fe_d e); url = or_default (src_url (app_source parent)) [] in
      if \<not> is_kind ''git'' parent \<or> url = [] then (rt, Inl (DeployError 422 ''previews require a git source''))
      else if app_previewOf parent \<noteq> None then (rt, Inl (DeployError 422 ''preview apps cannot spawn previews''))
      else if \<not> src_previews (app_source parent)
      then (rt, Inl (DeployError 422 ''PR previews are not enabled for this app''))
      else then_do (preview_app e parent ev url (now + PREVIEW_TTL_MS) rt) (\<lambda>rt1 app.
        let rt2 = refresh_deadline app (now + PREVIEW_TTL_MS) now rt1 in
        then_do (triggerDeploy e app None (Some (''deploy:'' @ app_id app @ '':pr'' @ int_text (pe_pr ev) @ '':'' @
                   take 60 delivery)) rt2) (\<lambda>rt3 (j, rid, dup).
        then_do (note_pending e app (pe_sha ev) rid dup rt3) (\<lambda>rt4 _.
          (rt4, Inr \<lparr> pv_app = app, pv_jobId = jb_id j, pv_releaseId = rid, pv_deduped = dup \<rparr>)))))"

section \<open>The webhook route\<close>

datatype hook_answer =
    HNotFound | HBadSignature | HBadBody
  | HSkipped string
  | HClosed int bool
  | HPreview string int nat "string option" bool
  | HDeduped nat
  | HDeployed nat "string option"
  | HFault deploy_fault

definition hook_fault :: "runtime \<times> (deploy_fault + hook_answer) \<Rightarrow> runtime \<times> hook_answer" where
  "hook_fault m = (case m of (rt, Inl err) \<Rightarrow> (rt, HFault err) | (rt, Inr a) \<Rightarrow> (rt, a))"

definition hook_pr :: "fenv \<Rightarrow> headers \<Rightarrow> string \<Rightarrow> string \<Rightarrow> deploy_app \<Rightarrow> runtime \<Rightarrow> runtime \<times> hook_answer" where
  "hook_pr e hdr body delivery app rt =
     (case parsePREvent hdr body of
        Inl err \<Rightarrow> (rt, HFault err)
      | Inr None \<Rightarrow> (rt, HSkipped ''unhandled pr action'')
      | Inr (Some ev) \<Rightarrow>
          if \<not> src_previews (app_source app) then (rt, HSkipped ''previews disabled'')
          else case pe_action ev of
              PrClose \<Rightarrow> hook_fault (then_do (closePreview (dv_now (fe_d e)) app (pe_pr ev) rt)
                (\<lambda>rt1 closed. (rt1, Inr (HClosed (pe_pr ev) closed))))
            | PrUpdate \<Rightarrow> hook_fault (then_do (openPreview e app ev delivery rt)
                (\<lambda>rt1 out. (rt1, Inr (HPreview (app_name (pv_app out)) (pe_pr ev) (pv_jobId out)
                   (pv_releaseId out) (pv_deduped out))))))"

definition hook_push :: "fenv \<Rightarrow> push \<Rightarrow> string \<Rightarrow> deploy_app \<Rightarrow> runtime \<Rightarrow> runtime \<times> hook_answer" where
  "hook_push e p delivery app rt =
     (let branch = or_default (src_ref (app_source app)) ''main'';
          filters = or_default (src_paths (app_source app)) [] in
      if is_kind ''git'' app \<and> \<not> branchMatches (ph_ref p) branch
      then (rt, HSkipped (''branch '' @ ph_ref p @ '' != '' @ branch))
      else if filters \<noteq> [] \<and> \<not> pathsMatch filters (ph_paths p)
      then (rt, HSkipped ''no touched path matched'')
      else hook_fault (then_do
        (triggerDeploy e app None (Some (''deploy:'' @ app_id app @ '':hook:'' @ take 80 delivery)) rt)
        (\<lambda>rt1 (j, rid, dup).
           if dup then (rt1, Inr (HDeduped (jb_id j)))
           else then_do (note_pending e app (ph_commit p) rid dup rt1)
                  (\<lambda>rt2 _. (rt2, Inr (HDeployed (jb_id j) rid))))))"

definition hook_delivery :: "headers \<Rightarrow> ms \<Rightarrow> string" where
  "hook_delivery hdr now =
     (case hdr ''x-github-delivery'' of Some d \<Rightarrow> d
      | None \<Rightarrow> (case hdr ''x-gitlab-event-uuid'' of Some d \<Rightarrow> d | None \<Rightarrow> ''manual-'' @ int_text now))"

definition hook_signed ::
  "(string \<Rightarrow> string \<Rightarrow> string) \<Rightarrow> fenv \<Rightarrow> headers \<Rightarrow> string \<Rightarrow> deploy_app \<Rightarrow> runtime \<Rightarrow> deploy_fault + bool" where
  "hook_signed hmac e hdr body app rt =
     (case hookSecret (fe_d e) (app_id app) (rt_deploys rt) of
        None \<Rightarrow> Inr True
      | Some secret \<Rightarrow> if secret = [] then Inr True else hookSignatureOk hmac hdr body secret)"

definition hook_POST ::
  "(string \<Rightarrow> string \<Rightarrow> string) \<Rightarrow> fenv \<Rightarrow> string \<Rightarrow> headers \<Rightarrow> string \<Rightarrow> runtime \<Rightarrow> runtime \<times> hook_answer" where
  "hook_POST hmac e token hdr body rt =
     (case byWebhook (dv_hash (fe_d e)) token (rt_deploys rt) of
        None \<Rightarrow> (rt, HNotFound)
      | Some app \<Rightarrow>
          (case hook_signed hmac e hdr body app rt of
             Inl err \<Rightarrow> (rt, HFault err)
           | Inr False \<Rightarrow> (rt, HBadSignature)
           | Inr True \<Rightarrow>
               let delivery = hook_delivery hdr (dv_now (fe_d e)) in
               if isPRWebhook hdr then hook_pr e hdr body delivery app rt
               else case (if js_trim body = [] then Inr (Some \<lparr> ph_ref = [], ph_commit = None, ph_paths = [] \<rparr>)
                          else parsePush body) of
                   Inl err \<Rightarrow> (rt, HFault err)
                 | Inr None \<Rightarrow> (rt, HBadBody)
                 | Inr (Some p) \<Rightarrow> hook_push e p delivery app rt))"

end
