(* ===== verification/Deploy_Inv.thy ===== *)
theory Deploy_Inv
  imports Deploy_Releases
begin

text \<open>
  The deploy tables as transition systems and the invariants they keep.  \<open>dstep\<close> runs the operations of
  \<open>DeployStore\<close> one after the other.  \<open>istep\<close> keeps what the code has between an \<open>await\<close> and the next
  write: \<open>updateApp\<close> plans its UPDATE from a row it read before, and \<open>createPreviewApp\<close> is handed a
  parent its caller read before, so both work from apps that were read at some earlier moment while
  other requests may have written since.  The operations that write with one statement or inside one
  transaction are one step in both.
\<close>

section \<open>The invariant\<close>

definition kube_ok :: "app_row \<Rightarrow> bool" where
  "kube_ok r \<longleftrightarrow> (da_runtime r \<noteq> ''k8s'' \<longrightarrow> da_namespace r = None \<and> da_replicas r = None) \<and>
     (\<forall>n. da_replicas r = Some n \<longrightarrow> 1 \<le> n \<and> n \<le> 10)"

definition one_preview :: "app_row list \<Rightarrow> bool" where
  "one_preview t \<longleftrightarrow> (\<forall>p n. \<forall>r \<in> set t. \<forall>r' \<in> set t. is_preview p n r \<and> is_preview p n r' \<longrightarrow> da_id r = da_id r')"

text \<open>The part of it that does not depend on the runtime.\<close>

definition reps_ok :: "app_row \<Rightarrow> bool" where
  "reps_ok r \<longleftrightarrow> (\<forall>n. da_replicas r = Some n \<longrightarrow> 1 \<le> n \<and> n \<le> 10)"

definition kube_part :: "app_row \<Rightarrow> string \<times> string option \<times> int option" where
  "kube_part r = (da_runtime r, da_namespace r, da_replicas r)"

text \<open>\<open>K\<close> is a rule about the kube columns.\<close>

definition kube_rule :: "(app_row \<Rightarrow> bool) \<Rightarrow> bool" where
  "kube_rule K \<longleftrightarrow> (\<forall>r r'. kube_part r = kube_part r' \<longrightarrow> K r \<longrightarrow> K r')"

lemma kube_ruleD: "kube_rule K \<Longrightarrow> kube_part r = kube_part r' \<Longrightarrow> K r \<Longrightarrow> K r'"
  unfolding kube_rule_def by blast

lemma kube_rules: "kube_rule kube_ok" "kube_rule reps_ok"
proof -
  have "kube_ok r'" if k: "kube_part r = kube_part r'" and "kube_ok r" for r r'
  proof -
    have "da_runtime r = da_runtime r'" "da_namespace r = da_namespace r'" "da_replicas r = da_replicas r'"
      using k by (simp_all add: kube_part_def)
    with \<open>kube_ok r\<close> show ?thesis unfolding kube_ok_def by (simp only:)
  qed
  then show "kube_rule kube_ok" unfolding kube_rule_def by blast
  show "kube_rule reps_ok" by (simp add: kube_rule_def kube_part_def reps_ok_def)
qed

lemma kube_reps: "kube_ok r \<Longrightarrow> reps_ok r"
  by (simp add: kube_ok_def reps_ok_def)

definition apps_on :: "(app_row \<Rightarrow> bool) \<Rightarrow> app_row list \<Rightarrow> bool" where
  "apps_on K t \<longleftrightarrow> unique_on da_id t \<and> unique_on da_name t \<and> unique_on da_webhook_hash t \<and>
     (\<forall>r \<in> set t. K r) \<and> one_preview t"

definition app_ids :: "deploys \<Rightarrow> string set" where
  "app_ids s = da_id ` set (d_apps s)"

definition one_live :: "release_row list \<Rightarrow> bool" where
  "one_live t \<longleftrightarrow> (\<forall>r \<in> set t. \<forall>r' \<in> set t.
     dr_status r = Live \<and> dr_status r' = Live \<and> dr_app_id r = dr_app_id r' \<longrightarrow> dr_id r = dr_id r')"

definition tables_on :: "(app_row \<Rightarrow> bool) \<Rightarrow> deploys \<Rightarrow> bool" where
  "tables_on K s \<longleftrightarrow> apps_on K (d_apps s) \<and>
     unique_on dk_app_id (d_keys s) \<and> dk_app_id ` set (d_keys s) \<subseteq> app_ids s \<and>
     unique_on dr_id (d_releases s) \<and> dr_app_id ` set (d_releases s) \<subseteq> app_ids s \<and>
     one_live (d_releases s)"

definition deploy_inv :: "deploys \<Rightarrow> bool" where
  "deploy_inv s \<longleftrightarrow> tables_on kube_ok s"

definition tables_inv :: "deploys \<Rightarrow> bool" where
  "tables_inv s \<longleftrightarrow> tables_on reps_ok s"

lemma tables_onD:
  assumes "tables_on K s"
  shows "unique_on da_id (d_apps s)" "unique_on da_name (d_apps s)" "unique_on da_webhook_hash (d_apps s)"
    "\<And>r. r \<in> set (d_apps s) \<Longrightarrow> K r" "one_preview (d_apps s)"
    "unique_on dk_app_id (d_keys s)" "dk_app_id ` set (d_keys s) \<subseteq> app_ids s"
    "unique_on dr_id (d_releases s)" "dr_app_id ` set (d_releases s) \<subseteq> app_ids s" "one_live (d_releases s)"
  using assms by (auto simp: tables_on_def apps_on_def)

lemmas deploy_invD = tables_onD [where K = kube_ok, folded deploy_inv_def]

lemma deploy_tables: "deploy_inv s \<Longrightarrow> tables_inv s"
  by (auto simp: deploy_inv_def tables_inv_def tables_on_def apps_on_def kube_ok_def reps_ok_def)

section \<open>The transition systems\<close>

text \<open>The writes that stamp a row with the clock \<open>c\<close>, and the writes that read no clock or move a stamp on.\<close>

inductive clock_step :: "ms \<Rightarrow> deploys \<Rightarrow> deploys \<Rightarrow> bool" where
  create: "createApp e opts s = Inr (s', x) \<Longrightarrow> clock_step (dv_now e) s s'"
| touch: "clock_step now s (touchPreview i expiresAt now s)"
| hooksec: "clock_step (dv_now e) s (setHookSecret e i secret s)"
| forgetok: "clock_step (dv_now e) s (setForgeToken e i token s)"
| rotate: "rotateWebhook e i s = Inr (s', token) \<Longrightarrow> clock_step (dv_now e) s s'"

inductive plain_step :: "deploys \<Rightarrow> deploys \<Rightarrow> bool" where
  delete: "deleteApp i s = (s', b) \<Longrightarrow> plain_step s s'"
| setenv: "setEnv e i env expected s = Inr s' \<Longrightarrow> plain_step s s'"
| rotkey: "rotateDeployKey e i s = Inr (s', pub) \<Longrightarrow> plain_step s s'"
| newrel: "createRelease i spec jobId rid now s = Inr (s', r) \<Longrightarrow> plain_step s s'"
| live: "plain_step s (markLive rid commit img now s)"
| notecommit: "plain_step s (noteCommit rid sha s)"
| mark: "status \<in> {ReleaseFailed, ReleaseRolledBack} \<Longrightarrow> plain_step s (markRelease rid status commit img s)"
| link: "plain_step s (linkJob rid jobId s)"

text \<open>One operation after the other: an edit and a preview work from the rows as they are.\<close>

inductive dstep :: "deploys \<Rightarrow> deploys \<Rightarrow> bool" where
  clocked: "clock_step c s s' \<Longrightarrow> dstep s s'"
| plain: "plain_step s s' \<Longrightarrow> dstep s s'"
| preview: "getApp (app_id parent) s = Some parent \<Longrightarrow> createPreviewApp e parent popts s = Inr (s', x) \<Longrightarrow> dstep s s'"
| update: "updateApp i p now s = Inr (s', x) \<Longrightarrow> dstep s s'"

text \<open>
  Interleaved: the state is the tables and the apps that requests have read so far.  The label is the
  clock of a write that stamps a row with it.
\<close>

inductive istep :: "ms option \<Rightarrow> deploys \<times> deploy_app set \<Rightarrow> deploys \<times> deploy_app set \<Rightarrow> bool" where
  reads: "r \<in> set (d_apps s) \<Longrightarrow> istep None (s, R) (s, insert (toApp s r) R)"
| clocked: "clock_step c s s' \<Longrightarrow> istep (Some c) (s, R) (s', R)"
| plain: "plain_step s s' \<Longrightarrow> istep None (s, R) (s', R)"
| preview: "parent \<in> R \<Longrightarrow> createPreviewApp e parent popts s = Inr (s', x) \<Longrightarrow>
    istep (Some (dv_now e)) (s, R) (s', R)"
| writes: "app \<in> R \<Longrightarrow> update_plan p app = Inr sets \<Longrightarrow> sets \<noteq> [] \<Longrightarrow>
    update_write (app_id app) (pt_expectedUpdatedAt p) sets now s = Inr (s', x) \<Longrightarrow> istep None (s, R) (s', R)"

definition interleaved :: "deploys \<times> deploy_app set \<Rightarrow> deploys \<times> deploy_app set \<Rightarrow> bool" where
  "interleaved a b \<longleftrightarrow> (\<exists>l. istep l a b)"

section \<open>Rewriting app rows\<close>

text \<open>
  An UPDATE of one app keeps the invariant when it leaves the identity and the preview columns
  alone, keeps the rule \<open>K\<close>, and gives it no name or webhook of another app.
\<close>

definition same_identity :: "app_row \<Rightarrow> app_row \<Rightarrow> bool" where
  "same_identity r r' \<longleftrightarrow> da_id r' = da_id r \<and> da_preview_of r' = da_preview_of r \<and> da_preview_pr r' = da_preview_pr r"

lemma unique_on_upd_one:
  assumes u: "unique_on k t" and uid: "unique_on da_id t"
    and P: "\<And>r. P r \<Longrightarrow> da_id r = i"
    and new: "\<And>r q. r \<in> set t \<Longrightarrow> P r \<Longrightarrow> q \<in> set t \<Longrightarrow> da_id q \<noteq> i \<Longrightarrow> k q \<noteq> k (f r)"
  shows "unique_on k (upd_where P f t)"
  using u uid new
proof (induction t)
  case (Cons a t)
  have ua: "unique_on k t" "unique_on da_id t" and ka: "\<And>q. q \<in> set t \<Longrightarrow> k q \<noteq> k a"
    and ida: "\<And>q. q \<in> set t \<Longrightarrow> da_id q \<noteq> da_id a"
    using Cons.prems(1,2) by (auto simp: unique_on_def image_iff)
  have IH: "unique_on k (upd_where P f t)" using Cons.IH [OF ua] Cons.prems(3) by simp
  have one: "k r \<noteq> k (if P a then f a else a)" if r: "r \<in> set (upd_where P f t)" for r
  proof (cases "P a")
    case True
    have "\<not> P q" if "q \<in> set t" for q using P [of q] P [OF True] ida [OF that] by auto
    then have "upd_where P f t = t" by (intro upd_where_id)
    with r have "r \<in> set t" by simp
    with Cons.prems(3) [of a r] True P [OF True] ida [of r] show ?thesis by simp
  next
    case False
    obtain r0 where r0: "r0 \<in> set t" "r = (if P r0 then f r0 else r0)"
      using r by (auto simp: upd_where_def)
    show ?thesis
    proof (cases "P r0")
      case True
      then have "da_id a \<noteq> i" using P [OF True] ida [OF r0(1)] by auto
      with Cons.prems(3) [of r0 a] r0 True False show ?thesis by auto
    qed (use r0 ka False in simp)
  qed
  then have "k (if P a then f a else a) \<notin> k ` set (upd_where P f t)" by (metis imageE)
  with IH show ?case by (simp add: upd_where_Cons unique_on_def)
qed simp

lemma is_preview_same: "same_identity r r' \<Longrightarrow> is_preview p n r' = is_preview p n r"
  by (simp add: same_identity_def is_preview_def)

lemma apps_on_upd:
  assumes inv: "apps_on K t" and P: "\<And>r. P r \<Longrightarrow> da_id r = i"
    and f: "\<And>r. r \<in> set t \<Longrightarrow> P r \<Longrightarrow> same_identity r (f r) \<and> K (f r)"
    and names: "\<And>r q. r \<in> set t \<Longrightarrow> P r \<Longrightarrow> q \<in> set t \<Longrightarrow> da_id q \<noteq> i \<Longrightarrow>
      da_name q \<noteq> da_name (f r) \<and> da_webhook_hash q \<noteq> da_webhook_hash (f r)"
  shows "apps_on K (upd_where P f t)"
proof -
  have u: "unique_on da_id t" "unique_on da_name t" "unique_on da_webhook_hash t"
    "\<forall>r \<in> set t. K r" "one_preview t" using inv by (auto simp: apps_on_def)
  have "unique_on da_id (upd_where P f t)"
    using f P by (intro unique_on_upd_one [OF u(1,1)]) (auto simp: same_identity_def)
  moreover have "unique_on da_name (upd_where P f t)" "unique_on da_webhook_hash (upd_where P f t)"
    using names by (intro unique_on_upd_one [OF u(2,1) P] unique_on_upd_one [OF u(3,1) P]; blast)+
  moreover have "\<forall>r \<in> set (upd_where P f t). K r"
    using u(4) f by (auto simp: set_upd_where)
  moreover have "one_preview (upd_where P f t)"
  proof -
    have origin: "\<And>r. r \<in> set (upd_where P f t) \<Longrightarrow> \<exists>r0 \<in> set t. same_identity r0 r"
      using f by (auto simp: set_upd_where same_identity_def)
    show ?thesis unfolding one_preview_def
    proof (intro allI ballI impI)
      fix p n r r'
      assume a: "r \<in> set (upd_where P f t)" "r' \<in> set (upd_where P f t)" "is_preview p n r \<and> is_preview p n r'"
      obtain r0 where r0: "r0 \<in> set t" "same_identity r0 r" using origin [OF a(1)] by blast
      obtain r1 where r1: "r1 \<in> set t" "same_identity r1 r'" using origin [OF a(2)] by blast
      have "is_preview p n r0" "is_preview p n r1"
        using a(3) is_preview_same [OF r0(2)] is_preview_same [OF r1(2)] by simp_all
      then have "da_id r0 = da_id r1" using u(5) r0(1) r1(1) unfolding one_preview_def by blast
      with r0(2) r1(2) show "da_id r = da_id r'" by (simp add: same_identity_def)
    qed
  qed
  ultimately show ?thesis by (simp add: apps_on_def)
qed

lemma app_ids_upd:
  "(\<And>r. r \<in> set (d_apps s) \<Longrightarrow> P r \<Longrightarrow> da_id (f r) = da_id r) \<Longrightarrow> app_ids (s\<lparr> d_apps := upd_where P f (d_apps s) \<rparr>) = app_ids s"
proof -
  assume "\<And>r. r \<in> set (d_apps s) \<Longrightarrow> P r \<Longrightarrow> da_id (f r) = da_id r"
  then have "map da_id (upd_where P f (d_apps s)) = map da_id (d_apps s)" by (simp add: upd_where_def)
  then show ?thesis unfolding app_ids_def by (metis (no_types) deploys.select_convs(1) deploys.surjective deploys.update_convs(1) set_map)
qed

lemma tables_on_upd:
  assumes inv: "tables_on K s" and P: "\<And>r. P r \<Longrightarrow> da_id r = i"
    and f: "\<And>r. r \<in> set (d_apps s) \<Longrightarrow> P r \<Longrightarrow> same_identity r (f r) \<and> K (f r)"
    and names: "\<And>r q. r \<in> set (d_apps s) \<Longrightarrow> P r \<Longrightarrow> q \<in> set (d_apps s) \<Longrightarrow> da_id q \<noteq> i \<Longrightarrow>
      da_name q \<noteq> da_name (f r) \<and> da_webhook_hash q \<noteq> da_webhook_hash (f r)"
  shows "tables_on K (s\<lparr> d_apps := upd_where P f (d_apps s) \<rparr>)"
proof -
  have "apps_on K (upd_where P f (d_apps s))"
    by (rule apps_on_upd [where i = i]) (use inv P f names in \<open>auto simp: tables_on_def\<close>)
  moreover have "app_ids (s\<lparr> d_apps := upd_where P f (d_apps s) \<rparr>) = app_ids s"
    using f by (intro app_ids_upd) (simp add: same_identity_def)
  ultimately show ?thesis using inv by (simp add: tables_on_def)
qed

lemma tables_on_upd_app:
  assumes K: "kube_rule K" and inv: "tables_on K s"
    and f: "\<And>r. da_name (f r) = da_name r \<and> da_webhook_hash (f r) = da_webhook_hash r \<and> same_identity r (f r) \<and>
       da_runtime (f r) = da_runtime r \<and> da_namespace (f r) = da_namespace r \<and> da_replicas (f r) = da_replicas r"
    and P: "\<And>r. P r \<Longrightarrow> da_id r = i"
  shows "tables_on K (s\<lparr> d_apps := upd_where P f (d_apps s) \<rparr>)"
proof (rule tables_on_upd [OF inv P])
  fix r assume "r \<in> set (d_apps s)"
  then show "same_identity r (f r) \<and> K (f r)"
    using f [of r] tables_onD(4) [OF inv] kube_ruleD [OF K, of r "f r"] by (simp add: kube_part_def)
next
  fix r q assume "r \<in> set (d_apps s)" "P r" "q \<in> set (d_apps s)" "da_id q \<noteq> i"
  then have "q \<noteq> r" using P by blast
  then show "da_name q \<noteq> da_name (f r) \<and> da_webhook_hash q \<noteq> da_webhook_hash (f r)"
    using f [of r] tables_onD(2,3) [OF inv] \<open>r \<in> set (d_apps s)\<close> \<open>q \<in> set (d_apps s)\<close>
    by (metis unique_onD)
qed

section \<open>The SET clauses of updateApp\<close>

definition run_sets :: "app_set list \<Rightarrow> app_row \<Rightarrow> app_row" where
  "run_sets sets r = foldl (\<lambda>x f. f x) r sets"

lemma run_sets_simps [simp]:
  "run_sets [] r = r" "run_sets (f # fs) r = run_sets fs (f r)" "run_sets (fs @ gs) r = run_sets gs (run_sets fs r)"
  by (simp_all add: run_sets_def)

text \<open>No clause writes an identity column; only the runtime and kube clauses write the kube columns.\<close>

definition tame_sets :: "app_set list \<Rightarrow> bool" where
  "tame_sets fs \<longleftrightarrow> (\<forall>f \<in> set fs. \<forall>r. same_identity r (f r) \<and> da_webhook_hash (f r) = da_webhook_hash r)"

definition kube_free :: "app_set list \<Rightarrow> bool" where
  "kube_free fs \<longleftrightarrow> (\<forall>f \<in> set fs. \<forall>r. kube_part (f r) = kube_part r)"

lemma tame_sets_append [simp]: "tame_sets (fs @ gs) \<longleftrightarrow> tame_sets fs \<and> tame_sets gs"
  by (auto simp: tame_sets_def)

lemma kube_free_append [simp]: "kube_free (fs @ gs) \<longleftrightarrow> kube_free fs \<and> kube_free gs"
  by (auto simp: kube_free_def)

lemma tame_run: "tame_sets fs \<Longrightarrow> same_identity r (run_sets fs r) \<and> da_webhook_hash (run_sets fs r) = da_webhook_hash r"
proof (induction fs arbitrary: r)
  case (Cons f fs)
  then have "tame_sets fs" "same_identity r (f r)" "da_webhook_hash (f r) = da_webhook_hash r"
    by (auto simp: tame_sets_def)
  with Cons.IH [of "f r"] show ?case by (simp add: same_identity_def)
qed (simp add: same_identity_def)

lemma kube_free_run: "kube_free fs \<Longrightarrow> kube_part (run_sets fs r) = kube_part r"
proof (induction fs arbitrary: r)
  case (Cons f fs)
  then have "kube_free fs" "kube_part (f r) = kube_part r" by (auto simp: kube_free_def)
  with Cons.IH [of "f r"] show ?case by simp
qed simp

lemmas set_split = option.splits json.splits if_splits prod.splits

lemma plan_parts:
  "set_name p = Inr fs \<Longrightarrow> tame_sets fs \<and> kube_free fs"
  "set_source p = Inr fs \<Longrightarrow> tame_sets fs \<and> kube_free fs"
  "set_rest p = Inr fs \<Longrightarrow> tame_sets fs \<and> kube_free fs"
  by (auto simp: set_name_def set_source_def set_rest_def and_then_Inr tame_sets_def kube_free_def
      same_identity_def kube_part_def split: option.splits json.splits)

lemma plan_tame_kube:
  "set_runtime p = Inr fs \<Longrightarrow> tame_sets fs"
  "set_kube p app = Inr fs \<Longrightarrow> tame_sets fs"
  by (auto simp: set_runtime_def set_kube_def and_then_Inr tame_sets_def same_identity_def
      split: option.splits if_splits)

lemma validateRuntime_Inr: "validateRuntime v msg = Inr rt \<longleftrightarrow> v = Some (JStr rt) \<and> rt \<in> set RUNTIMES"
  by (auto simp: validateRuntime_def split: option.splits json.splits if_splits)

lemma validateKube_ok:
  assumes "validateKube rt ns rep = Inr (n, k)"
  shows "(rt \<noteq> ''k8s'' \<longrightarrow> n = None \<and> k = None) \<and> (\<forall>m. k = Some m \<longrightarrow> 1 \<le> m \<and> m \<le> 10)"
  using assms by (auto simp: validateKube_def and_then_Inr Let_def split: option.splits if_splits)

definition kube_cond :: "string \<times> string option \<times> int option \<Rightarrow> bool" where
  "kube_cond k = (case k of (rt, ns, rep) \<Rightarrow>
     (rt \<noteq> ''k8s'' \<longrightarrow> ns = None \<and> rep = None) \<and> (\<forall>m. rep = Some m \<longrightarrow> 1 \<le> m \<and> m \<le> 10))"

lemma kube_ok_part: "kube_ok r = kube_cond (kube_part r)"
  by (simp add: kube_ok_def kube_cond_def kube_part_def)

lemma runtime_kube_sets:
  assumes c: "set_runtime p = Inr c" and d: "set_kube p app = Inr d"
    and r: "kube_ok r" "app_runtime app = da_runtime r"
  shows "kube_cond (kube_part (run_sets (c @ d) r))"
proof (cases "pt_namespace p = None \<and> pt_replicas p = None")
  case True
  then have d0: "d = []" using d by (simp add: set_kube_def)
  show ?thesis
  proof (cases "pt_runtime p")
    case None
    then have "c = []" using c by (simp add: set_runtime_def)
    then show ?thesis using d0 r by (simp add: kube_ok_part)
  next
    case (Some v)
    then obtain rt where "c = da_runtime_update (\<lambda>_. rt) # (if rt \<noteq> ''k8s''
        then [da_namespace_update (\<lambda>_. None), da_replicas_update (\<lambda>_. None)] else [])"
      using c True by (auto simp: set_runtime_def and_then_Inr)
    then show ?thesis using d0 r by (auto simp: kube_ok_def kube_cond_def kube_part_def)
  qed
next
  case False
  then obtain n k where v: "validateKube (patch_runtime p app)
      (case pt_namespace p of None \<Rightarrow> Some (opt_str (app_namespace app)) | v \<Rightarrow> v)
      (case pt_replicas p of None \<Rightarrow> Some (opt_num (app_replicas app)) | v \<Rightarrow> v) = Inr (n, k)"
    and d1: "d = [da_namespace_update (\<lambda>_. n), da_replicas_update (\<lambda>_. k)]"
    using d by (auto simp: set_kube_def and_then_Inr split: if_splits)
  have "da_runtime (run_sets c r) = patch_runtime p app"
    using c r(2) by (auto simp: set_runtime_def patch_runtime_def and_then_Inr validateRuntime_Inr
        split: option.splits)
  then show ?thesis using validateKube_ok [OF v] d1 by (simp add: kube_cond_def kube_part_def)
qed

text \<open>Whatever row a plan was made for, it writes no replica count that was not checked.\<close>

definition reps_set :: "app_set \<Rightarrow> bool" where
  "reps_set f \<longleftrightarrow> (\<forall>r. reps_ok r \<longrightarrow> reps_ok (f r))"

lemma reps_run: "\<forall>f \<in> set fs. reps_set f \<Longrightarrow> reps_ok r \<Longrightarrow> reps_ok (run_sets fs r)"
  by (induction fs arbitrary: r) (auto simp: reps_set_def)

lemma kube_free_reps: "kube_free fs \<Longrightarrow> f \<in> set fs \<Longrightarrow> reps_set f"
  unfolding reps_set_def kube_free_def using kube_ruleD [OF kube_rules(2)] by metis

lemma plan_reps:
  "set_name p = Inr fs \<Longrightarrow> f \<in> set fs \<Longrightarrow> reps_set f"
  "set_source p = Inr fs \<Longrightarrow> f \<in> set fs \<Longrightarrow> reps_set f"
  "set_rest p = Inr fs \<Longrightarrow> f \<in> set fs \<Longrightarrow> reps_set f"
  "set_runtime p = Inr fs \<Longrightarrow> f \<in> set fs \<Longrightarrow> reps_set f"
  "set_kube p app = Inr fs \<Longrightarrow> f \<in> set fs \<Longrightarrow> reps_set f"
  "reps_set (da_agent_id_update (\<lambda>_. ag))"
proof -
  show "set_name p = Inr fs \<Longrightarrow> f \<in> set fs \<Longrightarrow> reps_set f"
    "set_source p = Inr fs \<Longrightarrow> f \<in> set fs \<Longrightarrow> reps_set f"
    "set_rest p = Inr fs \<Longrightarrow> f \<in> set fs \<Longrightarrow> reps_set f"
    using plan_parts kube_free_reps by blast+
  show "set_runtime p = Inr fs \<Longrightarrow> f \<in> set fs \<Longrightarrow> reps_set f"
    by (auto simp: set_runtime_def and_then_Inr reps_set_def reps_ok_def split: option.splits if_splits)
  show "set_kube p app = Inr fs \<Longrightarrow> f \<in> set fs \<Longrightarrow> reps_set f"
    by (auto simp: set_kube_def and_then_Inr reps_set_def reps_ok_def split: if_splits dest!: validateKube_ok)
  show "reps_set (da_agent_id_update (\<lambda>_. ag))" by (simp add: reps_set_def reps_ok_def)
qed

lemma update_plan_sets:
  assumes "update_plan p app = Inr sets"
  shows "tame_sets sets"
    "kube_ok r \<Longrightarrow> app_runtime app = da_runtime r \<Longrightarrow> kube_ok (run_sets sets r)"
    "reps_ok r \<Longrightarrow> reps_ok (run_sets sets r)"
proof -
  obtain a b c d f where parts: "set_name p = Inr a" "set_source p = Inr b" "set_runtime p = Inr c"
      "set_kube p app = Inr d" "set_rest p = Inr f"
    and sets: "sets = a @ (case pt_agentId p of None \<Rightarrow> [] | Some ag \<Rightarrow> [da_agent_id_update (\<lambda>_. ag)]) @ b @ c @ d @ f"
    using assms by (auto simp: update_plan_def and_then_Inr)
  let ?g = "case pt_agentId p of None \<Rightarrow> [] | Some ag \<Rightarrow> [da_agent_id_update (\<lambda>_. ag)]"
  have g: "tame_sets ?g" "kube_free ?g"
    by (auto simp: tame_sets_def kube_free_def kube_part_def same_identity_def split: option.splits)
  show "tame_sets sets"
    using sets g plan_parts(1) [OF parts(1)] plan_parts(2) [OF parts(2)] plan_parts(3) [OF parts(5)]
      plan_tame_kube(1) [OF parts(3)] plan_tame_kube(2) [OF parts(4)] by simp
  assume r: "kube_ok r" "app_runtime app = da_runtime r"
  let ?r = "run_sets (a @ ?g @ b) r"
  have k: "kube_part ?r = kube_part r"
    using g plan_parts(1) [OF parts(1)] plan_parts(2) [OF parts(2)] by (intro kube_free_run) simp
  then have "kube_ok ?r" "app_runtime app = da_runtime ?r"
    using r by (simp_all add: kube_ok_part kube_part_def)
  from runtime_kube_sets [OF parts(3,4) this]
  have "kube_cond (kube_part (run_sets (c @ d) ?r))" .
  moreover have "kube_part (run_sets f (run_sets (c @ d) ?r)) = kube_part (run_sets (c @ d) ?r)"
    using plan_parts(3) [OF parts(5)] by (intro kube_free_run) simp
  ultimately show "kube_ok (run_sets sets r)" using sets by (simp add: kube_ok_part)
next
  assume r: "reps_ok r"
  have "\<forall>f \<in> set sets. reps_set f"
    using assms by (auto simp: update_plan_def and_then_Inr plan_reps split: option.splits)
  then show "reps_ok (run_sets sets r)" using r by (rule reps_run)
qed

section \<open>Every operation keeps the invariant\<close>

lemma appRow_SomeD: "appRow i s = Some r \<Longrightarrow> r \<in> set (d_apps s) \<and> da_id r = i"
  unfolding appRow_def by (auto dest: first_where_SomeD)

lemma appRow_unique: "tables_on K s \<Longrightarrow> r \<in> set (d_apps s) \<Longrightarrow> appRow (da_id r) s = Some r"
  unfolding appRow_def by (rule first_where_unique [where k = da_id]) (auto dest: tables_onD(1))

lemma getApp_row: "getApp i s = Some app \<longleftrightarrow> (\<exists>r. appRow i s = Some r \<and> app = toApp s r)"
  by (auto simp: getApp_def)

lemma toApp_sel [simp]:
  "app_id (toApp s r) = da_id r" "app_runtime (toApp s r) = da_runtime r"
  "app_namespace (toApp s r) = da_namespace r" "app_replicas (toApp s r) = da_replicas r"
  "app_updatedAt (toApp s r) = da_updated_at r"
  by (simp_all add: toApp_def)

lemma apply_sets_run: "apply_sets now sets r = (run_sets sets r)\<lparr> da_updated_at := max now (da_updated_at r + 1) \<rparr>"
  by (simp add: apply_sets_def run_sets_def)

lemma apply_sets_tame:
  assumes "tame_sets sets"
  shows "same_identity r (apply_sets now sets r)" "da_webhook_hash (apply_sets now sets r) = da_webhook_hash r"
    "da_updated_at (apply_sets now sets r) = max now (da_updated_at r + 1)"
    "kube_part (apply_sets now sets r) = kube_part (run_sets sets r)"
  using tame_run [OF assms, of r] by (auto simp: apply_sets_run same_identity_def kube_part_def)

text \<open>A successful UPDATE, taken apart.\<close>

lemma update_write_Inr:
  assumes "update_write i expected sets now s = Inr (s', app)"
  obtains r where "r \<in> set (d_apps s)" "da_id r = i" "stamp_matches expected r"
    "\<forall>q \<in> set (d_apps s). da_id q \<noteq> i \<longrightarrow> da_name q \<noteq> da_name (apply_sets now sets r)"
    "s' = s\<lparr> d_apps := upd_where (\<lambda>q. da_id q = i \<and> stamp_matches expected q) (apply_sets now sets) (d_apps s) \<rparr>"
    "getApp i s' = Some app"
proof -
  obtain r where f: "first_where (\<lambda>r. da_id r = i \<and> stamp_matches expected r) (d_apps s) = Some r"
    using assms by (auto simp: update_write_def split: option.splits)
  let ?s = "s\<lparr> d_apps := upd_where (\<lambda>q. da_id q = i \<and> stamp_matches expected q) (apply_sets now sets) (d_apps s) \<rparr>"
  have w: "\<not> (\<exists>q \<in> set (d_apps s). da_id q \<noteq> i \<and> da_name q = da_name (apply_sets now sets r))"
    "getApp i ?s = Some app \<and> s' = ?s"
    using assms f by (auto simp: update_write_def Let_def split: option.splits if_splits)
  from that [of r] first_where_SomeD [OF f] w show ?thesis by blast
qed

lemma updateApp_cases:
  assumes "updateApp i p now s = Inr (s', app')"
  obtains app where "getApp i s = Some app" "update_plan p app = Inr []" "s' = s" "app' = app"
  | app sets where "getApp i s = Some app" "update_plan p app = Inr sets" "sets \<noteq> []"
      "update_write i (pt_expectedUpdatedAt p) sets now s = Inr (s', app')"
  using assms by (auto simp: updateApp_def and_then_Inr split: option.splits if_splits)

lemma update_write_inv:
  assumes K: "kube_rule K" and inv: "tables_on K s" and tame: "tame_sets sets"
    and kube: "\<And>r. r \<in> set (d_apps s) \<Longrightarrow> da_id r = i \<Longrightarrow> K (run_sets sets r)"
    and w: "update_write i expected sets now s = Inr (s', app')"
  shows "tables_on K s'"
proof -
  from w obtain r where r: "r \<in> set (d_apps s)" "da_id r = i" "stamp_matches expected r"
    "\<forall>q \<in> set (d_apps s). da_id q \<noteq> i \<longrightarrow> da_name q \<noteq> da_name (apply_sets now sets r)"
    and s': "s' = s\<lparr> d_apps := upd_where (\<lambda>q. da_id q = i \<and> stamp_matches expected q)
       (apply_sets now sets) (d_apps s) \<rparr>" and "getApp i s' = Some app'"
    by (rule update_write_Inr)
  have only: "q = r" if "q \<in> set (d_apps s)" "da_id q = i" for q
    using unique_onD [OF tables_onD(1) [OF inv]] r that by metis
  show ?thesis unfolding s'
  proof (rule tables_on_upd [OF inv, where i = i])
    fix q assume q: "q \<in> set (d_apps s)" "da_id q = i \<and> stamp_matches expected q"
    then have "K (run_sets sets q)" by (intro kube) auto
    then have "K (apply_sets now sets q)"
      using kube_ruleD [OF K apply_sets_tame(4) [OF tame, symmetric]] by blast
    then show "same_identity q (apply_sets now sets q) \<and> K (apply_sets now sets q)"
      using apply_sets_tame [OF tame] by simp
  next
    fix q q' assume q: "q \<in> set (d_apps s)" "da_id q = i \<and> stamp_matches expected q"
      "q' \<in> set (d_apps s)" "da_id q' \<noteq> i"
    then have "q = r" using only by auto
    moreover have "da_webhook_hash q' \<noteq> da_webhook_hash q"
      using unique_onD [OF tables_onD(3) [OF inv]] q by metis
    ultimately show "da_name q' \<noteq> da_name (apply_sets now sets q) \<and>
        da_webhook_hash q' \<noteq> da_webhook_hash (apply_sets now sets q)"
      using r(4) q apply_sets_tame(2) [OF tame] by simp
  qed simp
qed

lemma updateApp_inv:
  assumes inv: "deploy_inv s" and u: "updateApp i p now s = Inr (s', app')"
  shows "deploy_inv s'"
  using u
proof (cases rule: updateApp_cases)
  case (2 app sets)
  obtain r0 where r0: "appRow i s = Some r0" "app = toApp s r0" using 2(1) by (auto simp: getApp_row)
  have t: "tables_on kube_ok s" using inv by (simp add: deploy_inv_def)
  have "kube_ok (run_sets sets q)" if q: "q \<in> set (d_apps s)" "da_id q = i" for q
  proof -
    have "q = r0" using appRow_unique [OF t q(1)] q(2) r0(1) by simp
    then show ?thesis
      using r0(2) tables_onD(4) [OF t q(1)] by (intro update_plan_sets(2) [OF 2(2)]) simp_all
  qed
  from update_write_inv [OF kube_rules(1) t update_plan_sets(1) [OF 2(2)] this 2(4)]
  show ?thesis by (simp add: deploy_inv_def)
qed (use inv in simp)

lemma insert_app_inv:
  assumes inv: "tables_on K s" and ins: "insert_app a k s = Inr s'"
    and a: "K a" and k: "\<And>kr. k = Some kr \<Longrightarrow> dk_app_id kr = da_id a"
    and fresh: "\<And>p n r. r \<in> set (d_apps s) \<Longrightarrow> is_preview p n a \<Longrightarrow> \<not> is_preview p n r"
  shows "tables_on K s'"
proof -
  have s': "s' = s\<lparr> d_apps := d_apps s @ [a], d_keys := d_keys s @ (case k of None \<Rightarrow> [] | Some kr \<Rightarrow> [kr]) \<rparr>"
    and new: "\<forall>r \<in> set (d_apps s). \<not> app_clash a r"
    and newk: "\<And>kr r. k = Some kr \<Longrightarrow> r \<in> set (d_keys s) \<Longrightarrow> dk_app_id r \<noteq> dk_app_id kr"
    using ins by (auto simp: insert_app_def split: if_splits option.splits)
  have "apps_on K (d_apps s @ [a])"
    using tables_onD(1-5) [OF inv] new a fresh
    by (auto simp: apps_on_def unique_on_snoc app_clash_def one_preview_def)
  moreover have "unique_on dk_app_id (d_keys s')"
    using tables_onD(6) [OF inv] newk by (cases k) (auto simp: s' unique_on_snoc)
  moreover have "dk_app_id ` set (d_keys s') \<subseteq> app_ids s'" "dr_app_id ` set (d_releases s') \<subseteq> app_ids s'"
    using tables_onD(7,9) [OF inv] k by (auto simp: s' app_ids_def split: option.splits)
  ultimately show ?thesis
    using tables_onD(8,10) [OF inv] by (simp add: tables_on_def s')
qed

lemma createApp_inv:
  assumes K: "\<And>r. kube_ok r \<Longrightarrow> K r" and inv: "tables_on K s" and c: "createApp e opts s = Inr (s', x)"
  shows "tables_on K s'"
proof -
  obtain name source rt domains hc ports kube where
    v: "validateKube rt (co_namespace opts) (co_replicas opts) = Inr kube"
    and ins: "insert_app \<lparr> da_id = dv_id e, da_name = name, da_agent_id = co_agentId opts,
         da_source = source, da_runtime = rt, da_env = None, da_domains = domains,
         da_healthcheck = hc, da_ports = ports, da_namespace = fst kube, da_replicas = snd kube,
         da_webhook_hash = dv_hash e (dv_token e), da_hook_secret = None, da_forge_token = None,
         da_preview_of = None, da_preview_pr = None, da_preview_expires = None,
         da_created_at = dv_now e, da_updated_at = dv_now e \<rparr> (Some (sealed_key e (dv_id e))) s = Inr s'"
    (is "insert_app ?a _ _ = _")
    using c unfolding createApp_def and_then_Inr by (auto split: option.splits)
  have "kube_ok ?a" using validateKube_ok [of rt _ _ "fst kube" "snd kube"] v by (simp add: kube_ok_def)
  then have "K ?a" by (rule K)
  then show ?thesis
    by (intro insert_app_inv [OF inv ins]) (auto simp: sealed_key_def is_preview_def)
qed

lemma createPreviewApp_inv:
  assumes inv: "tables_on K s"
    and par: "\<And>r. kube_part r = (app_runtime parent, app_namespace parent, app_replicas parent) \<Longrightarrow> K r"
    and c: "createPreviewApp e parent opts s = Inr (s', x)"
  shows "tables_on K s'"
proof -
  obtain source domains ports i where tx: "preview_tx e parent opts source domains ports s = Inr (s', i)"
    using c by (auto simp: createPreviewApp_def and_then_Inr split: option.splits prod.splits)
  show ?thesis
  proof (cases "first_where (is_preview (app_id parent) (po_pr opts)) (d_apps s)")
    case (Some dup)
    then show ?thesis using tx inv by (simp add: preview_tx_def)
  next
    case None
    obtain row where row: "appRow (app_id parent) s = Some row"
      using tx None by (auto simp: preview_tx_def split: option.splits)
    let ?a = "preview_row e parent row opts source domains ports"
    have ins: "insert_app ?a (map_option (\<lambda>k. k\<lparr> dk_app_id := dv_id e \<rparr>)
        (first_where (\<lambda>k. dk_app_id k = app_id parent) (d_keys s))) s = Inr s'"
      using tx None row by (auto simp: preview_tx_def and_then_Inr)
    have "K ?a" by (rule par) (simp add: kube_part_def preview_row_def)
    moreover have "\<not> is_preview p n r" if "r \<in> set (d_apps s)" "is_preview p n ?a" for p n r
    proof -
      have "p = app_id parent" "n = po_pr opts" using that(2) by (auto simp: is_preview_def preview_row_def)
      then show ?thesis using None that(1) by (auto simp: first_where_None)
    qed
    ultimately show ?thesis
      by (intro insert_app_inv [OF inv ins]) (auto simp: preview_row_def)
  qed
qed

lemma deleteApp_inv:
  assumes inv: "tables_on K s"
  shows "tables_on K (fst (deleteApp i s))"
proof -
  have "apps_on K (del_where (\<lambda>r. da_id r = i) (d_apps s))"
    using tables_onD(1-5) [OF inv] by (auto simp: apps_on_def one_preview_def intro: unique_on_del_where)
  moreover have "one_live (del_where (\<lambda>r. dr_app_id r = i) (d_releases s))"
    using tables_onD(10) [OF inv] by (auto simp: one_live_def)
  ultimately show ?thesis
    using tables_onD(6-9) [OF inv]
    by (auto simp: tables_on_def deleteApp_def app_ids_def intro: unique_on_del_where)
qed

lemma one_live_snoc: "one_live t \<Longrightarrow> dr_status a \<noteq> Live \<Longrightarrow> one_live (t @ [a])"
proof -
  assume t: "one_live t" and a: "dr_status a \<noteq> Live"
  show "one_live (t @ [a])" unfolding one_live_def
  proof (intro ballI impI)
    fix r r' assume r: "r \<in> set (t @ [a])" "r' \<in> set (t @ [a])"
      "dr_status r = Live \<and> dr_status r' = Live \<and> dr_app_id r = dr_app_id r'"
    with a have "r \<noteq> a" "r' \<noteq> a" by blast+
    with r have "r \<in> set t" "r' \<in> set t" by auto
    with t r(3) show "dr_id r = dr_id r'" unfolding one_live_def by blast
  qed
qed

lemma tables_on_set_releases:
  "tables_on K s \<Longrightarrow> unique_on dr_id t \<Longrightarrow> dr_app_id ` set t \<subseteq> app_ids s \<Longrightarrow> one_live t \<Longrightarrow>
     tables_on K (s\<lparr> d_releases := t \<rparr>)"
  by (simp add: tables_on_def app_ids_def)

text \<open>An UPDATE of releases that leaves id and app alone and makes nothing live.\<close>

lemma tables_on_releases:
  assumes inv: "tables_on K s"
    and f: "\<And>r. dr_id (f r) = dr_id r \<and> dr_app_id (f r) = dr_app_id r \<and> (dr_status (f r) = Live \<longrightarrow> dr_status r = Live)"
  shows "tables_on K (s\<lparr> d_releases := upd_where P f (d_releases s) \<rparr>)"
proof -
  have origin: "\<exists>r0 \<in> set (d_releases s). dr_id r = dr_id r0 \<and> dr_app_id r = dr_app_id r0 \<and>
      (dr_status r = Live \<longrightarrow> dr_status r0 = Live)" if "r \<in> set (upd_where P f (d_releases s))" for r
    using set_upd_whereD [OF that] f by force
  have "one_live (upd_where P f (d_releases s))"
    using tables_onD(10) [OF inv] origin unfolding one_live_def by metis
  moreover have "dr_app_id ` set (upd_where P f (d_releases s)) \<subseteq> app_ids s"
    using tables_onD(9) [OF inv] origin by fastforce
  moreover have "unique_on dr_id (upd_where P f (d_releases s))"
    using tables_onD(8) [OF inv] f by (intro unique_on_upd_where) auto
  ultimately show ?thesis by (intro tables_on_set_releases [OF inv])
qed

lemma markLive_inv:
  assumes inv: "tables_on K s"
  shows "tables_on K (markLive rid commit img now s)"
proof (cases "releaseRow rid s")
  case (Some row)
  then have row: "row \<in> set (d_releases s)" "dr_id row = rid"
    unfolding releaseRow_def by (auto dest: first_where_SomeD)
  let ?t = "upd_where (live_of (dr_app_id row)) (\<lambda>r. r\<lparr> dr_status := Superseded \<rparr>) (d_releases s)"
  let ?f = "\<lambda>r. r\<lparr> dr_status := Live, dr_live_at := Some now,
      dr_commit := coalesce commit (dr_commit r), dr_image := coalesce img (dr_image r) \<rparr>"
  let ?u = "upd_where (\<lambda>r. dr_id r = rid) ?f ?t"
  have t: "tables_on K (s\<lparr> d_releases := ?t \<rparr>)" by (rule tables_on_releases [OF inv]) simp
  have ids: "unique_on dr_id ?t" "one_live ?t" "dr_app_id ` set ?t \<subseteq> app_ids s"
    using tables_onD(8-10) [OF t] by (simp_all add: app_ids_def)
  have none: "dr_status r \<noteq> Live" if r: "r \<in> set ?t" "dr_app_id r = dr_app_id row" for r
  proof -
    obtain r0 where "r = (if live_of (dr_app_id row) r0 then r0\<lparr> dr_status := Superseded \<rparr> else r0)"
      using set_upd_whereD [OF r(1)] by blast
    with r(2) show ?thesis by (cases "live_of (dr_app_id row) r0") (auto simp: live_of_def)
  qed
  have app: "dr_app_id r = dr_app_id row" if r: "r \<in> set ?t" "dr_id r = rid" for r
  proof -
    obtain r0 where r0: "r0 \<in> set (d_releases s)" "dr_id r = dr_id r0" "dr_app_id r = dr_app_id r0"
      using set_upd_whereD [OF r(1)] by force
    then have "r0 = row" using unique_onD [OF tables_onD(8) [OF inv]] row r(2) by metis
    with r0 show ?thesis by simp
  qed
  have live: "dr_id r = rid \<and> dr_app_id r = dr_app_id row \<or> r \<in> set ?t \<and> dr_app_id r \<noteq> dr_app_id row"
    if r: "r \<in> set ?u" "dr_status r = Live" for r
  proof -
    obtain r1 where r1: "r1 \<in> set ?t" "r = (if dr_id r1 = rid then ?f r1 else r1)"
      using set_upd_whereD [OF r(1)] by blast
    show ?thesis
    proof (cases "dr_id r1 = rid")
      case True
      with r1 app [OF r1(1)] show ?thesis by simp
    next
      case False
      with r1 none [OF r1(1)] r(2) show ?thesis by auto
    qed
  qed
  have "one_live ?u" unfolding one_live_def
  proof (intro ballI impI)
    fix r r' assume r: "r \<in> set ?u" "r' \<in> set ?u" and
      l: "dr_status r = Live \<and> dr_status r' = Live \<and> dr_app_id r = dr_app_id r'"
    then have "(dr_id r = rid \<and> dr_app_id r = dr_app_id row \<or> r \<in> set ?t \<and> dr_app_id r \<noteq> dr_app_id row) \<and>
      (dr_id r' = rid \<and> dr_app_id r' = dr_app_id row \<or> r' \<in> set ?t \<and> dr_app_id r' \<noteq> dr_app_id row)"
      using live [OF r(1)] live [OF r(2)] by blast
    moreover have "r \<in> set ?t \<Longrightarrow> r' \<in> set ?t \<Longrightarrow> dr_id r = dr_id r'"
      using ids(2) l unfolding one_live_def by blast
    ultimately show "dr_id r = dr_id r'" using l by auto
  qed
  moreover have "unique_on dr_id ?u" by (rule unique_on_upd_where [OF _ ids(1)]) simp
  moreover have "dr_app_id ` set ?u \<subseteq> app_ids s"
  proof -
    have "map dr_app_id ?u = map dr_app_id ?t" by (rule map_upd_where) simp
    then have "dr_app_id ` set ?u = dr_app_id ` set ?t" by (simp only: set_map [symmetric])
    with ids(3) show ?thesis by (simp only:)
  qed
  ultimately have "tables_on K (s\<lparr> d_releases := ?u \<rparr>)"
    by (intro tables_on_set_releases [OF inv])
  then show ?thesis using Some by (simp add: markLive_def upd_release_def)
qed (use inv in \<open>simp add: markLive_def\<close>)

lemma createRelease_inv:
  assumes inv: "tables_on K s" and c: "createRelease i spec jobId rid now s = Inr (s', r)"
  shows "tables_on K s'"
proof -
  let ?r = "\<lparr> dr_id = rid, dr_app_id = i, dr_job_id = jobId, dr_spec = spec, dr_status = Pending,
                dr_commit = None, dr_image = None, dr_created_at = now, dr_live_at = None \<rparr>"
  obtain a where a: "appRow i s = Some a" "releaseRow rid s = None"
    and s': "s' = s\<lparr> d_releases := d_releases s @ [?r] \<rparr>"
    using c unfolding createRelease_def Let_def by (cases "appRow i s"; cases "releaseRow rid s")
      (simp_all split: option.splits)
  have "i \<in> app_ids s" using appRow_SomeD [OF a(1)] by (auto simp: app_ids_def)
  moreover have "unique_on dr_id (d_releases s @ [?r])"
    using a(2) tables_onD(8) [OF inv] by (simp add: releaseRow_def first_where_None unique_on_snoc)
  moreover have "one_live (d_releases s @ [?r])"
    using tables_onD(10) [OF inv] by (intro one_live_snoc) simp_all
  moreover have "dr_app_id ` set (d_releases s @ [?r]) \<subseteq> app_ids s"
    using tables_onD(9) [OF inv] \<open>i \<in> app_ids s\<close> by simp
  ultimately show ?thesis
    unfolding s' by (intro tables_on_set_releases [OF inv])
qed

lemma setEnv_inv: "kube_rule K \<Longrightarrow> tables_on K s \<Longrightarrow> setEnv e i env expected s = Inr s' \<Longrightarrow> tables_on K s'"
  by (auto simp: setEnv_def and_then_Inr same_identity_def split: if_splits
      intro!: tables_on_upd_app [where i = i])

lemma rotateWebhook_inv:
  assumes K: "kube_rule K" and inv: "tables_on K s" and r: "rotateWebhook e i s = Inr (s', token)"
  shows "tables_on K s'"
proof -
  have new: "\<forall>q \<in> set (d_apps s). da_id q \<noteq> i \<longrightarrow> da_webhook_hash q \<noteq> dv_hash e (dv_token e)"
    and s': "s' = upd_app i (\<lambda>r. r\<lparr> da_webhook_hash := dv_hash e (dv_token e), da_updated_at := dv_now e \<rparr>) s"
    using r by (auto simp: rotateWebhook_def split: if_splits)
  show ?thesis unfolding s' upd_app_def
  proof (rule tables_on_upd [OF inv, where i = i])
    fix a assume "a \<in> set (d_apps s)"
    then show "same_identity a (a\<lparr> da_webhook_hash := dv_hash e (dv_token e), da_updated_at := dv_now e \<rparr>) \<and>
        K (a\<lparr> da_webhook_hash := dv_hash e (dv_token e), da_updated_at := dv_now e \<rparr>)"
      using tables_onD(4) [OF inv] kube_ruleD [OF K, of a] by (simp add: same_identity_def kube_part_def)
  next
    fix a q assume a: "a \<in> set (d_apps s)" "da_id a = i" "q \<in> set (d_apps s)" "da_id q \<noteq> i"
    then have "da_name q \<noteq> da_name a" using unique_onD [OF tables_onD(2) [OF inv]] by metis
    then show "da_name q \<noteq> da_name (a\<lparr> da_webhook_hash := dv_hash e (dv_token e), da_updated_at := dv_now e \<rparr>) \<and>
        da_webhook_hash q \<noteq> da_webhook_hash (a\<lparr> da_webhook_hash := dv_hash e (dv_token e), da_updated_at := dv_now e \<rparr>)"
      using new a by simp
  qed simp
qed

lemma rotateDeployKey_inv:
  "tables_on K s \<Longrightarrow> rotateDeployKey e i s = Inr (s', pub) \<Longrightarrow> tables_on K s'"
proof -
  assume inv: "tables_on K s" and r: "rotateDeployKey e i s = Inr (s', pub)"
  let ?f = "\<lambda>k. k\<lparr> dk_pub := dk_pub (sealed_key e i), dk_priv := dk_priv (sealed_key e i) \<rparr>"
  have s': "s' = s\<lparr> d_keys := upd_where (\<lambda>k. dk_app_id k = i) ?f (d_keys s) \<rparr>"
    using r by (auto simp: rotateDeployKey_def split: if_splits)
  have "unique_on dk_app_id (upd_where (\<lambda>k. dk_app_id k = i) ?f (d_keys s))"
    using tables_onD(6) [OF inv] by (intro unique_on_upd_where) auto
  moreover have "dk_app_id ` set (upd_where (\<lambda>k. dk_app_id k = i) ?f (d_keys s)) \<subseteq> app_ids s"
    using tables_onD(7) [OF inv] by (fastforce simp: set_upd_where)
  ultimately show ?thesis using inv by (simp add: s' tables_on_def app_ids_def)
qed

lemma plain_step_inv:
  assumes "plain_step s t" "kube_rule K" "tables_on K s"
  shows "tables_on K t"
  using assms
proof (induction rule: plain_step.induct)
  case (delete i s s' b) then show ?case using deleteApp_inv [of K s i] by simp
next
  case (setenv e i env expected s s') then show ?case using setEnv_inv by blast
next
  case (rotkey e i s s' pub) then show ?case using rotateDeployKey_inv by blast
next
  case (newrel i spec jobId rid now s s' r) then show ?case using createRelease_inv by blast
next
  case (live s rid commit img now) then show ?case using markLive_inv by blast
next
  case (notecommit s rid sha) then show ?case
    by (auto simp: noteCommit_def intro!: tables_on_releases)
next
  case (mark status s rid commit img) then show ?case
    by (auto simp: markRelease_def upd_release_def intro!: tables_on_releases)
next
  case (link s rid jobId) then show ?case
    by (auto simp: linkJob_def upd_release_def intro!: tables_on_releases)
qed

lemma clock_step_inv:
  assumes "clock_step c s t" "kube_rule K" "\<And>r. kube_ok r \<Longrightarrow> K r" "tables_on K s"
  shows "tables_on K t"
  using assms
proof (induction rule: clock_step.induct)
  case (create e opts s s' x) then show ?case using createApp_inv by blast
next
  case (touch now s i expiresAt) then show ?case
    by (auto simp: touchPreview_def upd_app_def same_identity_def intro!: tables_on_upd_app [where i = i])
next
  case (hooksec e s i secret) then show ?case
    by (auto simp: setHookSecret_def upd_app_def same_identity_def intro!: tables_on_upd_app [where i = i])
next
  case (forgetok e s i token) then show ?case
    by (auto simp: setForgeToken_def upd_app_def same_identity_def intro!: tables_on_upd_app [where i = i])
next
  case (rotate e i s s' token) then show ?case using rotateWebhook_inv by blast
qed

lemma dstep_inv: "dstep s t \<Longrightarrow> deploy_inv s \<Longrightarrow> deploy_inv t"
proof (induction rule: dstep.induct)
  case (clocked c s s') then show ?case
    using clock_step_inv [OF clocked(1) kube_rules(1)] by (simp add: deploy_inv_def)
next
  case (plain s s') then show ?case
    using plain_step_inv [OF plain(1) kube_rules(1)] by (simp add: deploy_inv_def)
next
  case (preview parent s e popts s' x)
  then obtain row where "row \<in> set (d_apps s)" "parent = toApp s row"
    by (auto simp: getApp_row dest: appRow_SomeD)
  then have "kube_ok r" if "kube_part r = (app_runtime parent, app_namespace parent, app_replicas parent)" for r
    using that deploy_invD(4) [OF preview(3)] kube_ruleD [OF kube_rules(1), of row r] by (auto simp: kube_part_def)
  with preview show ?case unfolding deploy_inv_def using createPreviewApp_inv by blast
next
  case (update i p now s s' x) then show ?case
    using updateApp_inv by (metis surj_pair)
qed

lemma deploy_inv_none: "deploy_inv no_deploys"
  by (simp add: deploy_inv_def no_deploys_def tables_on_def apps_on_def one_preview_def one_live_def)

lemma dstep_run_inv: "dstep\<^sup>*\<^sup>* s t \<Longrightarrow> deploy_inv s \<Longrightarrow> deploy_inv t"
  by (induction rule: rtranclp_induct) (auto intro: dstep_inv)

section \<open>Interleaved\<close>

text \<open>What is kept of the rows that were read: their replica counts.\<close>

definition flight_inv :: "deploys \<times> deploy_app set \<Rightarrow> bool" where
  "flight_inv p \<longleftrightarrow> tables_inv (fst p) \<and>
     (\<forall>app \<in> snd p. \<forall>n. app_replicas app = Some n \<longrightarrow> 1 \<le> n \<and> n \<le> 10)"

lemma istep_inv: "istep l a b \<Longrightarrow> flight_inv a \<Longrightarrow> flight_inv b"
proof (induction rule: istep.induct)
  case (reads r s R)
  then show ?case using tables_onD(4) [of reps_ok s r]
    by (auto simp: flight_inv_def tables_inv_def reps_ok_def)
next
  case (clocked c s s' R)
  then show ?case using clock_step_inv [OF clocked(1) kube_rules(2) kube_reps]
    by (simp add: flight_inv_def tables_inv_def)
next
  case (plain s s' R)
  then show ?case using plain_step_inv [OF plain(1) kube_rules(2)]
    by (simp add: flight_inv_def tables_inv_def)
next
  case (preview parent R e popts s s' x)
  then have "reps_ok r" if "kube_part r = (app_runtime parent, app_namespace parent, app_replicas parent)" for r
    using that by (auto simp: flight_inv_def reps_ok_def kube_part_def)
  with preview createPreviewApp_inv [of reps_ok s parent e popts s' x] show ?case
    by (simp add: flight_inv_def tables_inv_def)
next
  case (writes app R p sets now s s' x)
  then have s: "tables_on reps_ok s" by (simp add: flight_inv_def tables_inv_def)
  have "reps_ok (run_sets sets r)" if "r \<in> set (d_apps s)" for r
    using update_plan_sets(3) [OF writes(2)] tables_onD(4) [OF s that] .
  with update_write_inv [OF kube_rules(2) s update_plan_sets(1) [OF writes(2)] _ writes(4)] writes(5)
  show ?case by (simp add: flight_inv_def tables_inv_def)
qed

lemma flight_inv_none: "flight_inv (no_deploys, {})"
  using deploy_tables [OF deploy_inv_none] by (simp add: flight_inv_def)

lemma interleaved_inv: "interleaved\<^sup>*\<^sup>* a b \<Longrightarrow> flight_inv a \<Longrightarrow> flight_inv b"
  by (induction rule: rtranclp_induct) (auto simp: interleaved_def dest: istep_inv)

end
