(* ===== verification/Deploy_Props.thy ===== *)
theory Deploy_Props
  imports Deploy_Inv
begin

text \<open>
  Properties of \<open>DeployStore\<close>: the invariant of its tables, its optimistic concurrency with the
  writes that escape it, and the round trip of the sealed environment.
\<close>

section \<open>Example data\<close>

definition demo_denv :: denv where
  "demo_denv = \<lparr> dv_now = 100, dv_id = ''app_1'', dv_token = ''tok'', dv_pub = [1, 2, 3], dv_priv = [4, 5],
     dv_hash = (\<lambda>s. CHR ''#'' # s), dv_seal = (\<lambda>s. CHR ''!'' # s),
     dv_open = (\<lambda>s. case s of [] \<Rightarrow> None | c # r \<Rightarrow> if c = CHR ''!'' then Some r else None) \<rparr>"

definition demo_create :: create_opts where
  "demo_create = \<lparr> co_name = ''Shop '', co_agentId = ''ag'',
     co_source = Some (JObj [(''kind'', JStr ''git''), (''url'', JStr ''https://h.example/o/r.git''),
       (''previews'', JBool True)]),
     co_runtime = None, co_domains = [''shop.example.com''], co_healthcheck = None,
     co_ports = JArr [], co_namespace = None, co_replicas = None \<rparr>"

definition demo_source :: app_source where
  "demo_source = (empty_source (JStr ''git''))\<lparr> src_url := Some ''https://h.example/o/r.git'',
     src_ref := Some ''main'', src_previews := True \<rparr>"

definition demo_app :: app_row where
  "demo_app = \<lparr> da_id = ''app_1'', da_name = ''shop'', da_agent_id = ''ag'', da_source = demo_source,
     da_runtime = ''podman'', da_env = None, da_domains = [''shop.example.com''], da_healthcheck = None,
     da_ports = [], da_namespace = None, da_replicas = None, da_webhook_hash = ''#tok'',
     da_hook_secret = None, da_forge_token = None, da_preview_of = None, da_preview_pr = None,
     da_preview_expires = None, da_created_at = 100, da_updated_at = 100 \<rparr>"

definition demo_deploys :: deploys where
  "demo_deploys = \<lparr> d_apps = [demo_app], d_keys = [sealed_key demo_denv ''app_1''], d_releases = [] \<rparr>"

definition no_patch :: app_patch where
  "no_patch = \<lparr> pt_name = None, pt_agentId = None, pt_source = None, pt_runtime = None, pt_domains = None,
     pt_healthcheck = None, pt_ports = None, pt_namespace = None, pt_replicas = None,
     pt_expectedUpdatedAt = None \<rparr>"

lemma demo_forms:
  "validateName ''Shop '' = Inr ''shop''"
  "validateSource (co_source demo_create) = Inr demo_source"
  "validateRuntime (Some (JStr ''podman'')) m = Inr ''podman''"
  "validateDomains [''shop.example.com''] = Inr [''shop.example.com'']"
  "validateKube ''podman'' None None = Inr (None, None)"
  by (code_simp, code_simp, simp add: validateRuntime_def RUNTIMES_def, code_simp, code_simp)

lemma demo_created: "\<exists>x. createApp demo_denv demo_create no_deploys = Inr (demo_deploys, x)"
proof -
  have "createApp demo_denv demo_create no_deploys = Inr (demo_deploys, toApp demo_deploys demo_app, ''tok'',
      opensshPub [1, 2, 3] ''wharfinger-shop'')"
    unfolding createApp_def demo_forms
    by (simp add: demo_create_def demo_forms [unfolded demo_create_def, simplified] nullish_def
        validateHealthcheck_def truthy_def validatePorts_def insert_app_def no_deploys_def getApp_def
        appRow_def first_where_Cons demo_deploys_def demo_app_def demo_denv_def)
  then show ?thesis by blast
qed

lemma demo_reached: "dstep\<^sup>*\<^sup>* no_deploys demo_deploys"
  using demo_created clock_step.create dstep.clocked by (metis prod.exhaust r_into_rtranclp)

lemma demo_inv: "deploy_inv demo_deploys"
  using dstep_run_inv [OF demo_reached deploy_inv_none] .

section \<open>The invariant\<close>

text \<open>
  Two PATCHes in flight: both have read the k8s app; one moves it to podman, then the other, planned
  for the k8s row, writes its namespace.
\<close>

definition kube_create :: create_opts where
  "kube_create = demo_create\<lparr> co_runtime := Some (JStr ''k8s'') \<rparr>"

definition kube_app :: app_row where
  "kube_app = demo_app\<lparr> da_runtime := ''k8s'' \<rparr>"

definition kube_state :: "app_row \<Rightarrow> deploys" where
  "kube_state r = demo_deploys\<lparr> d_apps := [r] \<rparr>"

definition to_podman :: app_patch where
  "to_podman = no_patch\<lparr> pt_runtime := Some (JStr ''podman'') \<rparr>"

definition to_namespace :: app_patch where
  "to_namespace = no_patch\<lparr> pt_namespace := Some (JStr ''prod'') \<rparr>"

lemma kube_created: "\<exists>x. createApp demo_denv kube_create no_deploys = Inr (kube_state kube_app, x)"
proof -
  have "validateKube ''k8s'' None None = Inr (None, None)" "validateRuntime (Some (JStr ''k8s'')) m = Inr ''k8s''" for m
    by (code_simp, simp add: validateRuntime_def RUNTIMES_def)
  then have "createApp demo_denv kube_create no_deploys = Inr (kube_state kube_app, toApp (kube_state kube_app) kube_app,
      ''tok'', opensshPub [1, 2, 3] ''wharfinger-shop'')"
    unfolding createApp_def
    by (simp add: kube_create_def demo_create_def demo_forms [unfolded demo_create_def, simplified] nullish_def
        validateHealthcheck_def truthy_def validatePorts_def insert_app_def no_deploys_def getApp_def
        appRow_def first_where_Cons kube_state_def kube_app_def demo_deploys_def demo_app_def demo_denv_def)
  then show ?thesis by blast
qed

lemma kube_plans:
  "update_plan to_podman app = Inr [da_runtime_update (\<lambda>_. ''podman''), da_namespace_update (\<lambda>_. None),
     da_replicas_update (\<lambda>_. None)]"
  "app_runtime app = ''k8s'' \<Longrightarrow> app_replicas app = None \<Longrightarrow> update_plan to_namespace app =
     Inr [da_namespace_update (\<lambda>_. Some ''prod''), da_replicas_update (\<lambda>_. None)]"
proof -
  have "validateKube ''k8s'' (Some (JStr ''prod'')) (Some JNull) = Inr (Some ''prod'', None)" by code_simp
  then show "app_runtime app = ''k8s'' \<Longrightarrow> app_replicas app = None \<Longrightarrow> update_plan to_namespace app =
     Inr [da_namespace_update (\<lambda>_. Some ''prod''), da_replicas_update (\<lambda>_. None)]"
    by (simp add: update_plan_def to_namespace_def no_patch_def set_name_def set_source_def set_runtime_def
        set_kube_def set_rest_def patch_runtime_def opt_num_def)
qed (simp add: update_plan_def to_podman_def no_patch_def set_name_def set_source_def set_runtime_def
    set_kube_def set_rest_def validateRuntime_def RUNTIMES_def)

lemma kube_write:
  assumes "da_id r = ''app_1''" "da_id (apply_sets 100 sets r) = ''app_1''"
  shows "\<exists>x. update_write ''app_1'' None sets 100 (kube_state r) = Inr (kube_state (apply_sets 100 sets r), x)"
  using assms
  by (simp add: update_write_def kube_state_def first_where_Cons stamp_matches_def Let_def upd_where_Cons
      getApp_def appRow_def)

lemma kube_race:
  "\<exists>s R. interleaved\<^sup>*\<^sup>* (no_deploys, {}) (s, R) \<and>
     (\<exists>r \<in> set (d_apps s). da_runtime r = ''podman'' \<and> da_namespace r = Some ''prod'')"
proof -
  let ?app = "toApp (kube_state kube_app) kube_app" and ?R = "{toApp (kube_state kube_app) kube_app}"
  let ?p1 = "[da_runtime_update (\<lambda>_. ''podman''), da_namespace_update (\<lambda>_. None), da_replicas_update (\<lambda>_. None)]"
  let ?p2 = "[da_namespace_update (\<lambda>_. Some ''prod''), da_replicas_update (\<lambda>_. None)] :: app_set list"
  let ?r1 = "apply_sets 100 ?p1 kube_app"
  let ?r2 = "apply_sets 100 ?p2 ?r1"
  have app: "app_id ?app = ''app_1''" "app_runtime ?app = ''k8s''" "app_replicas ?app = None"
    by (simp_all add: kube_app_def demo_app_def)
  have rows: "da_id kube_app = ''app_1''" "da_id ?r1 = ''app_1''" "da_id ?r2 = ''app_1''"
    by (simp_all add: kube_app_def demo_app_def apply_sets_def)
  have free: "pt_expectedUpdatedAt to_podman = None" "pt_expectedUpdatedAt to_namespace = None"
    by (simp_all add: to_podman_def to_namespace_def no_patch_def)
  have 1: "interleaved (no_deploys, {}) (kube_state kube_app, {})"
    using kube_created istep.clocked [OF clock_step.create] unfolding interleaved_def by (metis prod.exhaust)
  have 2: "interleaved (kube_state kube_app, {}) (kube_state kube_app, ?R)"
    using istep.reads [of kube_app "kube_state kube_app" "{}"] by (auto simp: interleaved_def kube_state_def)
  have 3: "interleaved (kube_state kube_app, ?R) (kube_state ?r1, ?R)"
    unfolding interleaved_def
    using istep.writes [of ?app ?R to_podman ?p1, OF _ kube_plans(1)] kube_write [OF rows(1,2)] app free by force
  have 4: "interleaved (kube_state ?r1, ?R) (kube_state ?r2, ?R)"
    unfolding interleaved_def
    using istep.writes [of ?app ?R to_namespace ?p2, OF _ kube_plans(2)] kube_write [OF rows(2,3)] app free by force
  have "interleaved\<^sup>*\<^sup>* (no_deploys, {}) (kube_state ?r2, ?R)"
    by (rule converse_rtranclp_into_rtranclp, rule 1, rule converse_rtranclp_into_rtranclp, rule 2,
        rule converse_rtranclp_into_rtranclp, rule 3, rule r_into_rtranclp, rule 4)
  moreover have "d_apps (kube_state ?r2) = [?r2]" "da_runtime ?r2 = ''podman''" "da_namespace ?r2 = Some ''prod''"
    by (simp_all add: kube_state_def apply_sets_def)
  ultimately show ?thesis by (metis list.set_intros(1))
qed

text \<open>
  C5. When the operations of the deploy store run one after the other, ids, names and webhooks of apps
  are unique, keys and releases belong to apps that exist, namespace and replicas are only set on k8s
  apps with one to ten replicas, a pull request has at most one preview per parent, and an app has at
  most one live release.  When they interleave, with \<open>updateApp\<close> and \<open>createPreviewApp\<close> writing what
  they planned for rows read at any earlier moment, all of that still holds but for one part: a
  namespace can end up on a podman app, and an interleaving of two edits that does so is given.
\<close>

theorem deploy_invariant:
  "(dstep\<^sup>*\<^sup>* no_deploys s \<longrightarrow> deploy_inv s) \<and>
   (interleaved\<^sup>*\<^sup>* (no_deploys, {}) (u, R) \<longrightarrow> tables_inv u) \<and>
   (\<exists>v F. interleaved\<^sup>*\<^sup>* (no_deploys, {}) (v, F) \<and>
      (\<exists>r \<in> set (d_apps v). da_runtime r = ''podman'' \<and> da_namespace r = Some ''prod''))"
  using dstep_run_inv deploy_inv_none interleaved_inv [OF _ flight_inv_none, of "(u, R)"] kube_race
  by (auto simp: flight_inv_def)

lemma demo_flight: "interleaved\<^sup>*\<^sup>* (no_deploys, {}) (demo_deploys, {})"
  using demo_created istep.clocked [OF clock_step.create] unfolding interleaved_def
  by (metis (mono_tags, lifting) prod.exhaust r_into_rtranclp)

theorem deploy_invariant_witness:
  "deploy_inv demo_deploys \<and> tables_inv demo_deploys \<and> length (d_apps demo_deploys) = 1"
proof (intro conjI)
  note inv = deploy_invariant [of demo_deploys demo_deploys "{}"]
  show "deploy_inv demo_deploys" "tables_inv demo_deploys"
    using inv demo_reached demo_flight by blast+
  show "length (d_apps demo_deploys) = 1" by code_simp
qed

section \<open>Optimistic concurrency\<close>

text \<open>
  The interleaved steps seen by an editor of the app \<open>i\<close> who has loaded the stamp \<open>a\<close>: any of them, where
  a write that stamps this app with the clock happens when the clock is past \<open>a\<close>.
\<close>

definition estep :: "string \<Rightarrow> ms \<Rightarrow> deploys \<times> deploy_app set \<Rightarrow> deploys \<times> deploy_app set \<Rightarrow> bool" where
  "estep i a p q \<longleftrightarrow> (\<exists>l. istep l p q \<and>
     (case l of None \<Rightarrow> True | Some c \<Rightarrow> a < c \<or> appRow i (fst q) = appRow i (fst p)))"

definition app_stamp :: "string \<Rightarrow> deploys \<Rightarrow> ms option" where
  "app_stamp i s = map_option da_updated_at (appRow i s)"

text \<open>A save of the app: the write half of an edit planned for a row read before, or a new environment.\<close>

definition saved_app :: "string \<Rightarrow> deploys \<times> deploy_app set \<Rightarrow> deploys \<times> deploy_app set \<Rightarrow> bool" where
  "saved_app i p q \<longleftrightarrow> snd q = snd p \<and>
     ((\<exists>app pt sets now x. app \<in> snd p \<and> app_id app = i \<and> update_plan pt app = Inr sets \<and> sets \<noteq> [] \<and>
         update_write i (pt_expectedUpdatedAt pt) sets now (fst p) = Inr (fst q, x)) \<or>
      (\<exists>e m expected. setEnv e i m expected (fst p) = Inr (fst q)))"

lemma first_where_upd:
  assumes "\<And>r. P r \<Longrightarrow> da_id (f r) = da_id r"
  shows "first_where (\<lambda>r. da_id r = i) (upd_where P f t) =
    map_option (\<lambda>r. if P r then f r else r) (first_where (\<lambda>r. da_id r = i) t)"
  using assms by (induction t) (auto simp: upd_where_Cons first_where_Cons)

lemma appRow_upd:
  "(\<And>r. P r \<Longrightarrow> da_id (f r) = da_id r) \<Longrightarrow>
   appRow i (s\<lparr> d_apps := upd_where P f (d_apps s) \<rparr>) = map_option (\<lambda>r. if P r then f r else r) (appRow i s)"
  by (simp add: appRow_def first_where_upd)

lemma update_write_row:
  assumes "tame_sets sets" "update_write j expected sets now s = Inr (s', x)"
  shows "appRow i s' = map_option (\<lambda>r. if da_id r = j \<and> stamp_matches expected r then apply_sets now sets r else r)
    (appRow i s)"
proof -
  from assms(2) have s': "s' = s\<lparr> d_apps := upd_where
      (\<lambda>q. da_id q = j \<and> stamp_matches expected q) (apply_sets now sets) (d_apps s) \<rparr>"
    by (rule update_write_Inr)
  show ?thesis
    unfolding s' using apply_sets_tame(1) [OF assms(1)] by (intro appRow_upd) (simp add: same_identity_def)
qed

lemma setEnv_row:
  assumes "setEnv e j m expected s = Inr s'"
  shows "appRow i s' = map_option (\<lambda>r. if da_id r = j \<and> stamp_matches expected r
     then r\<lparr> da_env := Some (dv_seal e (stringify (env_json m))),
             da_updated_at := max (dv_now e) (da_updated_at r + 1) \<rparr> else r) (appRow i s)"
proof -
  have "s' = s\<lparr> d_apps := upd_where (\<lambda>r. da_id r = j \<and> stamp_matches expected r)
     (\<lambda>r. r\<lparr> da_env := Some (dv_seal e (stringify (env_json m))),
             da_updated_at := max (dv_now e) (da_updated_at r + 1) \<rparr>) (d_apps s) \<rparr>"
    using assms by (auto simp: setEnv_def and_then_Inr split: if_splits)
  then show ?thesis by (simp only:) (rule appRow_upd, simp)
qed

text \<open>Where a row is after a step: untouched, gone, stamped with the clock, or moved on.\<close>

definition row_moves :: "string \<Rightarrow> ms option \<Rightarrow> deploys \<Rightarrow> deploys \<Rightarrow> bool" where
  "row_moves i c s t \<longleftrightarrow> appRow i t = appRow i s \<or> appRow i t = None \<or>
     (\<exists>r. appRow i t = Some r \<and> Some (da_updated_at r) = c) \<or>
     (\<exists>r r'. appRow i s = Some r \<and> appRow i t = Some r' \<and> da_updated_at r < da_updated_at r')"

lemma first_where_snoc:
  "first_where P (t @ [a]) = (case first_where P t of None \<Rightarrow> if P a then Some a else None | Some r \<Rightarrow> Some r)"
  by (induction t) (simp_all add: first_where_Cons)

lemma insert_app_row:
  "insert_app a k s = Inr s' \<Longrightarrow> row_moves i (Some (da_updated_at a)) s s'"
  by (auto simp: insert_app_def row_moves_def appRow_def first_where_snoc split: if_splits option.splits)

lemma upd_app_row:
  assumes "\<And>r. da_id (f r) = da_id r" "\<And>r. da_updated_at (f r) = c"
  shows "row_moves i (Some c) s (upd_app j f s)"
  using appRow_upd [of "\<lambda>r. da_id r = j" f i s] assms
  by (cases "appRow i s") (auto simp: row_moves_def upd_app_def)

lemma clock_step_row: "clock_step c s t \<Longrightarrow> row_moves i (Some c) s t"
proof (induction rule: clock_step.induct)
  case (create e opts s s' x)
  then show ?case
    by (auto simp: createApp_def and_then_Inr split: option.splits dest!: insert_app_row [where i = i])
next
  case (rotate e j s s' token)
  then have "s' = upd_app j (\<lambda>r. r\<lparr> da_webhook_hash := dv_hash e (dv_token e), da_updated_at := dv_now e \<rparr>) s"
    by (auto simp: rotateWebhook_def split: if_splits)
  then show ?case by (simp only:) (rule upd_app_row; simp)
qed (auto simp: touchPreview_def setHookSecret_def setForgeToken_def intro!: upd_app_row)

lemma deleted_row: "appRow i (fst (deleteApp j s)) = (if i = j then None else appRow i s)"
proof -
  have "first_where (\<lambda>r. da_id r = i) (del_where (\<lambda>r. da_id r = j) t) =
      (if i = j then None else first_where (\<lambda>r. da_id r = i) t)" for t
    by (induction t) (auto simp: del_where_def first_where_Cons)
  from this [of "d_apps s"] show ?thesis by (simp add: deleteApp_def appRow_def)
qed

lemma plain_step_row: "plain_step s t \<Longrightarrow> row_moves i None s t"
proof (induction rule: plain_step.induct)
  case (delete j s s' b)
  then show ?case using deleted_row [of i j s] by (auto simp: row_moves_def)
next
  case (setenv e j env expected s s')
  then show ?case using setEnv_row [OF setenv, of i]
    by (cases "appRow i s") (auto simp: row_moves_def)
next
  case (rotkey e j s s' pub)
  then show ?case by (auto simp: rotateDeployKey_def row_moves_def appRow_def split: if_splits)
next
  case (newrel j spec jobId rid now s s' r)
  then show ?case
    by (auto simp: createRelease_def Let_def row_moves_def appRow_def split: option.splits if_splits)
next
  case (live s rid commit img now)
  then show ?case by (auto simp: markLive_def upd_release_def row_moves_def appRow_def split: option.splits)
qed (auto simp: noteCommit_def markRelease_def linkJob_def upd_release_def row_moves_def appRow_def)

lemma istep_row: "istep l p q \<Longrightarrow> row_moves i l (fst p) (fst q)"
proof (induction rule: istep.induct)
  case (preview parent R e popts s s' x)
  then obtain source domains ports j where "preview_tx e parent popts source domains ports s = Inr (s', j)"
    by (auto simp: createPreviewApp_def and_then_Inr split: option.splits prod.splits)
  then have "s' = s \<or> (\<exists>row k. insert_app (preview_row e parent row popts source domains ports) k s = Inr s')"
    by (auto simp: preview_tx_def and_then_Inr split: option.splits)
  then show ?case using insert_app_row [where i = i] by (fastforce simp: row_moves_def preview_row_def)
next
  case (writes app R p sets now s s' x)
  note tame = update_plan_sets(1) [OF writes(2)]
  show ?case using update_write_row [OF tame writes(4), of i] apply_sets_tame(3) [OF tame]
    by (cases "appRow i s") (auto simp: row_moves_def)
qed (simp_all add: clock_step_row plain_step_row, simp add: row_moves_def)

lemma saved_istep: "saved_app i p q \<Longrightarrow> interleaved p q"
  unfolding saved_app_def interleaved_def
  by (cases p; cases q) (auto intro: istep.writes istep.plain plain_step.setenv)

lemma saved_moves:
  assumes inv: "flight_inv p" and sv: "saved_app i p q"
  obtains r r' where "appRow i (fst p) = Some r" "appRow i (fst q) = Some r'" "da_updated_at r < da_updated_at r'"
proof -
  have t: "tables_on reps_ok (fst p)" using inv by (simp add: flight_inv_def tables_inv_def)
  have only: "appRow i (fst p) = Some r" if "r \<in> set (d_apps (fst p))" "da_id r = i" for r
    using appRow_unique [OF t that(1)] that(2) by simp
  from sv consider (edit) app pt sets now x where "update_plan pt app = Inr sets"
      "update_write i (pt_expectedUpdatedAt pt) sets now (fst p) = Inr (fst q, x)"
    | (env) e m expected where "setEnv e i m expected (fst p) = Inr (fst q)"
    by (auto simp: saved_app_def)
  then show thesis
  proof cases
    case edit
    note tame = update_plan_sets(1) [OF edit(1)]
    from edit(2) obtain r where "r \<in> set (d_apps (fst p))" "da_id r = i" "stamp_matches (pt_expectedUpdatedAt pt) r"
      by (rule update_write_Inr)
    then show thesis using that only update_write_row [OF tame edit(2), of i] apply_sets_tame(3) [OF tame, of now r]
      by simp
  next
    case env
    then have "n_where (\<lambda>r. da_id r = i \<and> stamp_matches expected r) (d_apps (fst p)) \<noteq> 0"
      by (auto simp: setEnv_def and_then_Inr split: if_splits)
    then obtain r where "r \<in> set (d_apps (fst p))" "da_id r = i" "stamp_matches expected r"
      unfolding n_where_0 by blast
    then show thesis using that only setEnv_row [OF env, of i] by simp
  qed
qed

lemma estep_above:
  assumes "estep i a p q" "\<And>b. app_stamp i (fst p) = Some b \<Longrightarrow> a < b" "app_stamp i (fst q) = Some c"
  shows "a < c"
proof -
  obtain l where l: "istep l p q" "case l of None \<Rightarrow> True | Some c \<Rightarrow> a < c \<or> appRow i (fst q) = appRow i (fst p)"
    using assms(1) unfolding estep_def by blast
  have pre: "a < da_updated_at z" if "appRow i (fst p) = Some z" for z
    using assms(2) that by (simp add: app_stamp_def)
  obtain y where y: "appRow i (fst q) = Some y" "c = da_updated_at y" using assms(3) by (auto simp: app_stamp_def)
  from istep_row [OF l(1), of i] y(1)
  consider (same) "appRow i (fst q) = appRow i (fst p)" | (clock) "Some (da_updated_at y) = l"
    | (moved) r where "appRow i (fst p) = Some r" "da_updated_at r < da_updated_at y"
    unfolding row_moves_def by (metis option.inject option.distinct(1))
  then show ?thesis
  proof cases
    case same
    with pre y show ?thesis by simp
  next
    case clock
    then have "a < da_updated_at y \<or> appRow i (fst q) = appRow i (fst p)" using l(2) by (simp split: option.splits)
    with pre y show ?thesis by auto
  next
    case moved
    with pre [OF moved(1)] y(2) show ?thesis by simp
  qed
qed

interpretation da: stamped estep flight_inv "\<lambda>i p. app_stamp i (fst p)" saved_app
proof unfold_locales
  show "flight_inv t" if "flight_inv s" "estep k a s t" for s k a t
  proof -
    from that(2) obtain l where "istep l s t" by (auto simp: estep_def)
    from istep_inv [OF this that(1)] show ?thesis .
  qed
  show "a < c" if "flight_inv s" "estep k a s t" "\<And>b. app_stamp k (fst s) = Some b \<Longrightarrow> a < b"
      "app_stamp k (fst t) = Some c" for s k a t c
    by (rule estep_above [OF that(2) that(3) that(4)])
  show "a < b" if "flight_inv s" "saved_app k s t" "app_stamp k (fst s) = Some a" "app_stamp k (fst t) = Some b"
    for s k t a b
    by (rule saved_moves [OF that(1,2)]) (use that(3,4) in \<open>simp add: app_stamp_def\<close>)
  show "flight_inv t" if "flight_inv s" "saved_app k s t" for s k t
  proof -
    from saved_istep [OF that(2)] obtain l where "istep l s t" by (auto simp: interleaved_def)
    from istep_inv [OF this that(1)] show ?thesis .
  qed
qed

lemma no_stamp_no_write:
  assumes "flight_inv (t, R)" "app_stamp i t \<noteq> Some a"
  shows "update_write i (Some a) sets now t = Inl stale_error" "setEnv e i m (Some a) t \<noteq> Inr t'"
proof -
  have inv: "tables_on reps_ok t" using assms(1) by (simp add: flight_inv_def tables_inv_def)
  have none: "\<not> (da_id r = i \<and> stamp_matches (Some a) r)" if "r \<in> set (d_apps t)" for r
    using appRow_unique [OF inv that] assms(2) by (auto simp: app_stamp_def stamp_matches_def)
  then have "first_where (\<lambda>r. da_id r = i \<and> stamp_matches (Some a) r) (d_apps t) = None"
    by (simp add: first_where_None)
  then show "update_write i (Some a) sets now t = Inl stale_error" by (simp add: update_write_def)
  have "n_where (\<lambda>r. da_id r = i \<and> stamp_matches (Some a) r) (d_apps t) = 0"
    using none n_where_0 by blast
  then show "setEnv e i m (Some a) t \<noteq> Inr t'" by (auto simp: setEnv_def and_then_Inr)
qed

text \<open>
  C6. After a save of an app (an edit or a new environment), a write that still expects the stamp from
  before it is refused, whatever ran in between, interleaved in any way: other edits planned from rows
  read earlier, new environments, secrets, deletion, other apps, releases.  One condition is on the
  clock: the writes that stamp the app with the clock instead of moving its stamp on (a preview's
  deadline, the hook secret, the forge token, the webhook, or creating the app anew under its id)
  happen when the clock is past the stamp the writer expects.  Without it the stamp the writer expects
  can come back, against the comment that it strictly increases (\<open>secret_write_reuses_stamp\<close> below).
\<close>

theorem stale_update_refused:
  assumes "flight_inv (s, R)" "appRow i s = Some r" "saved_app i (s, R) (s', R)"
    and "(estep i (da_updated_at r))\<^sup>*\<^sup>* (s', R) (t, R')"
  shows "update_write i (Some (da_updated_at r)) sets now t = Inl stale_error \<and>
    setEnv e i m (Some (da_updated_at r)) t \<noteq> Inr t'"
proof -
  have "app_stamp i (fst (s, R)) = Some (da_updated_at r)" using assms(2) by (simp add: app_stamp_def)
  from da.overtaken [OF assms(1,3,4) this] have "flight_inv (t, R')" "app_stamp i t \<noteq> Some (da_updated_at r)"
    by simp_all
  from no_stamp_no_write [OF this] show ?thesis by blast
qed

definition rename_patch :: "string \<Rightarrow> ms option \<Rightarrow> app_patch" where
  "rename_patch n expected = no_patch\<lparr> pt_name := Some (JStr n), pt_expectedUpdatedAt := expected \<rparr>"

definition demo_renamed :: deploys where
  "demo_renamed = demo_deploys\<lparr> d_apps := [demo_app\<lparr> da_name := ''b'', da_updated_at := 101 \<rparr>] \<rparr>"

lemma rename_plan:
  "validateName n = Inr m \<Longrightarrow> update_plan (rename_patch n x) app = Inr [da_name_update (\<lambda>_. m)]"
  by (simp add: update_plan_def rename_patch_def no_patch_def set_name_def set_source_def set_runtime_def
      set_kube_def set_rest_def)

lemma demo_rename: "\<exists>a. updateApp ''app_1'' (rename_patch ''b'' (Some 100)) 100 demo_deploys = Inr (demo_renamed, a)"
proof -
  have "validateName ''b'' = Inr ''b''" by code_simp
  note plan = rename_plan [OF this]
  have row: "appRow ''app_1'' demo_deploys = Some demo_app"
    by (simp add: appRow_def demo_deploys_def demo_app_def first_where_Cons)
  have "updateApp ''app_1'' (rename_patch ''b'' (Some 100)) 100 demo_deploys =
      update_write ''app_1'' (Some 100) [da_name_update (\<lambda>_. ''b'')] 100 demo_deploys"
    by (simp add: updateApp_def getApp_def row plan) (simp add: rename_patch_def no_patch_def)
  also have "\<dots> = Inr (demo_renamed, toApp demo_renamed (demo_app\<lparr> da_name := ''b'', da_updated_at := 101 \<rparr>))"
    by (simp add: update_write_def demo_deploys_def demo_app_def first_where_Cons stamp_matches_def
        apply_sets_def Let_def upd_where_Cons getApp_def appRow_def demo_renamed_def)
  finally show ?thesis by blast
qed

lemma demo_row: "appRow ''app_1'' demo_deploys = Some demo_app"
  by (simp add: appRow_def demo_deploys_def demo_app_def first_where_Cons)

lemma demo_renamed_neq: "demo_renamed \<noteq> demo_deploys"
proof -
  have "map da_name (d_apps demo_renamed) \<noteq> map da_name (d_apps demo_deploys)"
    by (simp add: demo_renamed_def demo_deploys_def demo_app_def)
  then show ?thesis by metis
qed

lemma demo_token_later:
  "setForgeToken (demo_denv\<lparr> dv_now := 150 \<rparr>) ''app_1'' ''t'' demo_renamed =
    demo_deploys\<lparr> d_apps := [demo_app\<lparr> da_name := ''b'', da_forge_token := Some ''!t'', da_updated_at := 150 \<rparr>] \<rparr>"
  by (simp add: setForgeToken_def upd_app_def demo_renamed_def upd_where_Cons demo_app_def demo_denv_def demo_deploys_def)

theorem stale_update_refused_witness:
  "update_write ''app_1'' (Some 100) [da_name_update (\<lambda>_. ''c'')] 200
     (setForgeToken (demo_denv\<lparr> dv_now := 150 \<rparr>) ''app_1'' ''t'' demo_renamed) = Inl stale_error"
proof -
  let ?R = "{toApp demo_deploys demo_app}"
  obtain a where u: "updateApp ''app_1'' (rename_patch ''b'' (Some 100)) 100 demo_deploys = Inr (demo_renamed, a)"
    using demo_rename by blast
  have got: "getApp ''app_1'' demo_deploys = Some (toApp demo_deploys demo_app)"
    by (simp add: getApp_def demo_row)
  have "saved_app ''app_1'' (demo_deploys, ?R) (demo_renamed, ?R)"
    using u
  proof (cases rule: updateApp_cases)
    case (2 app sets)
    moreover have "app_id (toApp demo_deploys demo_app) = ''app_1''" by (simp add: demo_app_def)
    ultimately show ?thesis using got by (fastforce simp: saved_app_def)
  qed (use demo_renamed_neq in simp)
  note save = this
  have "estep ''app_1'' (da_updated_at demo_app) (demo_renamed, ?R)
      (setForgeToken (demo_denv\<lparr> dv_now := 150 \<rparr>) ''app_1'' ''t'' demo_renamed, ?R)"
    unfolding estep_def
    by (intro exI [of _ "Some (dv_now (demo_denv\<lparr> dv_now := 150 \<rparr>))"] conjI istep.clocked clock_step.forgetok)
      (simp add: demo_app_def)
  then have run: "(estep ''app_1'' (da_updated_at demo_app))\<^sup>*\<^sup>* (demo_renamed, ?R)
      (setForgeToken (demo_denv\<lparr> dv_now := 150 \<rparr>) ''app_1'' ''t'' demo_renamed, ?R)" by (rule r_into_rtranclp)
  have inv: "flight_inv (demo_deploys, ?R)"
    using deploy_tables [OF demo_inv] by (simp add: flight_inv_def demo_app_def)
  have "da_updated_at demo_app = 100" by (simp add: demo_app_def)
  with stale_update_refused [OF inv demo_row save run] show ?thesis by simp
qed

lemma updateApp_write_row:
  assumes inv: "deploy_inv s" and u: "updateApp i p now s = Inr (s', x)" and ch: "s' \<noteq> s"
  obtains r sets where "appRow i s = Some r" "stamp_matches (pt_expectedUpdatedAt p) r"
    "appRow i s' = Some (apply_sets now sets r)" "da_updated_at (apply_sets now sets r) = max now (da_updated_at r + 1)"
  using u
proof (cases rule: updateApp_cases)
  case (2 app sets)
  note tame = update_plan_sets(1) [OF 2(2)]
  from 2(4) obtain r where r: "r \<in> set (d_apps s)" "da_id r = i" "stamp_matches (pt_expectedUpdatedAt p) r"
    and s': "s' = s\<lparr> d_apps := upd_where
      (\<lambda>q. da_id q = i \<and> stamp_matches (pt_expectedUpdatedAt p) q) (apply_sets now sets) (d_apps s) \<rparr>"
    by (rule update_write_Inr)
  have row: "appRow i s = Some r" using appRow_unique [OF inv [unfolded deploy_inv_def] r(1)] r(2) by simp
  have "appRow i s' = map_option (\<lambda>r. if da_id r = i \<and> stamp_matches (pt_expectedUpdatedAt p) r
      then apply_sets now sets r else r) (appRow i s)"
    unfolding s' using apply_sets_tame(1) [OF tame] by (intro appRow_upd) (simp add: same_identity_def)
  then have "appRow i s' = Some (apply_sets now sets r)" using row r by simp
  with that row r(3) apply_sets_tame(3) [OF tame] show ?thesis by blast
qed (use ch in simp)

text \<open>
  Writing the forge token sets the stamp to the clock instead of moving it on: when that happens
  in the millisecond of a stamp an editor has read, the editor's save passes its check although
  another edit came in between.
\<close>

theorem secret_write_reuses_stamp:
  assumes "deploy_inv s" "appRow i s = Some r"
    and "updateApp i p now s = Inr (s', a)" "s' \<noteq> s"
    and "dv_now e = da_updated_at r"
  shows "app_stamp i s' \<noteq> app_stamp i s \<and>
    update_write i (Some (da_updated_at r)) sets now' (setForgeToken e i token s') \<noteq> Inl stale_error"
proof -
  obtain r' where r': "appRow i s' = Some r'" "da_updated_at r' = max now (da_updated_at r + 1)"
    using updateApp_write_row [OF assms(1,3,4)] assms(2) by (metis option.inject)
  let ?f = "\<lambda>r. r\<lparr> da_forge_token := (if token = [] then None else Some (dv_seal e token)), da_updated_at := dv_now e \<rparr>"
  have "appRow i (setForgeToken e i token s') = map_option (\<lambda>r. if da_id r = i then ?f r else r) (appRow i s')"
    unfolding setForgeToken_def upd_app_def by (rule appRow_upd) simp
  then have row: "appRow i (setForgeToken e i token s') = Some (?f r')"
    using r'(1) appRow_SomeD [OF r'(1)] by simp
  have "?f r' \<in> set (d_apps (setForgeToken e i token s')) \<and> da_id (?f r') = i"
    using appRow_SomeD [OF row] .
  moreover have "stamp_matches (Some (da_updated_at r)) (?f r')" using assms(5) by (simp add: stamp_matches_def)
  ultimately have "first_where (\<lambda>q. da_id q = i \<and> stamp_matches (Some (da_updated_at r)) q)
      (d_apps (setForgeToken e i token s')) \<noteq> None"
    unfolding first_where_None by blast
  then have "update_write i (Some (da_updated_at r)) sets now' (setForgeToken e i token s') \<noteq> Inl stale_error"
    by (auto simp: update_write_def Let_def stale_error_def split: option.splits)
  moreover have "app_stamp i s' \<noteq> app_stamp i s" using r' assms(2) by (simp add: app_stamp_def)
  ultimately show ?thesis by blast
qed

theorem secret_write_reuses_stamp_witness:
  "update_write ''app_1'' (Some 100) [da_name_update (\<lambda>_. ''c'')] 100
     (setForgeToken demo_denv ''app_1'' ''t'' demo_renamed) \<noteq> Inl stale_error"
proof -
  obtain a where u: "updateApp ''app_1'' (rename_patch ''b'' (Some 100)) 100 demo_deploys = Inr (demo_renamed, a)"
    using demo_rename by blast
  have "dv_now demo_denv = da_updated_at demo_app" by (simp add: demo_denv_def demo_app_def)
  from secret_write_reuses_stamp [OF demo_inv demo_row u demo_renamed_neq this]
  show ?thesis by (simp add: demo_app_def)
qed

section \<open>The sealed environment\<close>

lemma env_json_parse: "json_ok (env_json m) \<Longrightarrow> parse_env (stringify (env_json m)) = Some m"
  by (simp add: parse_env_def json_roundtrip) (simp add: env_json_def case_prod_beta comp_def)

lemma env_json_ok: "json_ok (env_json m)"
proof -
  have "json_ok_fields (map (\<lambda>(k, v). (k, JStr v)) m)" by (induction m) auto
  then show ?thesis by (simp add: env_json_def)
qed

text \<open>
  C27. What \<open>setEnv\<close> stored is what the agent gets from \<open>envFor\<close>, provided that opening undoes
  sealing.
\<close>

theorem env_roundtrip:
  assumes "\<And>x. dv_open e (dv_seal e x) = Some x" "\<And>x. dv_seal e x \<noteq> []"
    and "deploy_inv s" "setEnv e i m expected s = Inr s'"
  shows "envFor e i s' = Inr m"
proof -
  have ex: "getApp i s \<noteq> None" "n_where (\<lambda>r. da_id r = i \<and> stamp_matches expected r) (d_apps s) \<noteq> 0"
    using assms(4) by (auto simp: setEnv_def and_then_Inr split: if_splits)
  obtain r where r: "r \<in> set (d_apps s)" "da_id r = i" "stamp_matches expected r"
    using ex(2) unfolding n_where_0 by blast
  have "appRow i s = Some r" using appRow_unique [OF assms(3) [unfolded deploy_inv_def] r(1)] r(2) by simp
  with setEnv_row [OF assms(4), of i] r
  obtain r' where "appRow i s' = Some r'" "da_env r' = Some (dv_seal e (stringify (env_json m)))" by auto
  then show ?thesis
    using assms(1,2) env_json_parse [OF env_json_ok] by (simp add: envFor_def)
qed

theorem env_roundtrip_witness:
  "\<exists>s'. setEnv demo_denv ''app_1'' [(''PORT'', ''80'')] (Some 100) demo_deploys = Inr s' \<and>
     envFor demo_denv ''app_1'' s' = Inr [(''PORT'', ''80'')]"
proof -
  have key: "ENV_KEY_RE ''PORT''" by code_simp
  have "\<exists>s'. setEnv demo_denv ''app_1'' [(''PORT'', ''80'')] (Some 100) demo_deploys = Inr s'"
    by (simp add: setEnv_def env_entry_def key getApp_def demo_row MAX_ENV_KEYS_def n_where_def)
       (simp add: demo_deploys_def demo_app_def stamp_matches_def)
  then obtain s' where s': "setEnv demo_denv ''app_1'' [(''PORT'', ''80'')] (Some 100) demo_deploys = Inr s'" ..
  have "dv_open demo_denv (dv_seal demo_denv x) = Some x" "dv_seal demo_denv x \<noteq> []" for x
    by (simp_all add: demo_denv_def)
  from env_roundtrip [OF this demo_inv s'] s' show ?thesis by blast
qed

end
