(* ===== verification/Flow_Props.thy ===== *)
theory Flow_Props
  imports Deploy_Preview Deploy_Props
begin

text \<open>
  Properties of the deploy flow, where the deploy tables and the job queue meet: redelivered
  webhooks, the preview sweep, and what the webhook does when a sealed column cannot be read.
\<close>

section \<open>The job key of a spec\<close>

lemma jset_lookup: "distinct (map fst fs) \<Longrightarrow> map_of (rev (jset k v fs)) k = Some v"
proof (induction fs)
  case (Cons f fs)
  obtain k' w where f: "f = (k', w)" by (cases f)
  show ?case
  proof (cases "k' = k")
    case True
    then have "map_of (rev fs) k = None" using Cons.prems f by (simp add: map_of_eq_None_iff)
    then show ?thesis using True f by (simp add: map_add_def)
  next
    case False
    then show ?thesis using Cons f by (simp add: map_add_Some_iff)
  qed
qed simp

lemma buildSpec_fields:
  obtains fs where "buildSpec s app rid rb = JObj fs" "distinct (map fst fs)"
proof -
  define fs where "fs = (case buildSpec s app rid rb of JObj fs \<Rightarrow> fs | _ \<Rightarrow> [])"
  have "buildSpec s app rid rb = JObj fs" by (simp add: fs_def buildSpec_def)
  moreover have "distinct (map fst fs)"
    by (simp add: fs_def buildSpec_def opt_field_def split: option.splits)
  ultimately show ?thesis by (rule that)
qed

lemma spec_key_set: "spec_key (set_member ''jobKey'' (JStr k) (buildSpec s app rid rb)) = k"
proof -
  obtain fs where "buildSpec s app rid rb = JObj fs" "distinct (map fst fs)" by (rule buildSpec_fields)
  then show ?thesis by (simp add: spec_key_def set_member_def jmember_def jset_lookup str_or_empty_def)
qed

section \<open>A trigger and its repetition\<close>

definition same_tables :: "runtime \<Rightarrow> runtime \<Rightarrow> bool" where
  "same_tables rt rt' \<longleftrightarrow> d_apps (rt_deploys rt') = d_apps (rt_deploys rt) \<and> d_keys (rt_deploys rt') = d_keys (rt_deploys rt)"

lemma enqueue_byKey:
  assumes "enqueue opts fresh now db = Inr (db', j, c)" "eo_jobKey opts = Some k"
  shows "byKey k db' = Some j"
  using assms by (auto simp: enqueue_def Let_def byKey_def split: if_splits option.splits)

lemma trigger_again:
  "byKey k (rt_jobs rt) = Some j \<Longrightarrow> triggerDeploy e app None (Some k) rt = (rt, Inr (j, None, True))"
  by (simp add: triggerDeploy_def Let_def spec_key_set)

lemma trigger_new:
  assumes "triggerDeploy e app None (Some k) rt = (rt1, Inr (j, rid, False))"
  shows "byKey k (rt_jobs rt1) = Some j" "same_tables rt rt1"
proof -
  let ?spec = "set_member ''jobKey'' (JStr k) (buildSpec (rt_deploys rt) app (fe_rel_id e) None)"
  have none: "byKey k (rt_jobs rt) = None"
    using assms trigger_again [of k rt _ e app] by (cases "byKey k (rt_jobs rt)") auto
  obtain d rel where c: "createRelease (app_id app) (stringify ?spec) None (fe_rel_id e) (dv_now (fe_d e)) (rt_deploys rt)
      = Inr (d, rel)"
    using assms none by (cases "createRelease (app_id app) (stringify ?spec) None (fe_rel_id e) (dv_now (fe_d e)) (rt_deploys rt)")
      (auto simp: triggerDeploy_def Let_def spec_key_set on_deploys_def)
  let ?opts = "deploy_job app ?spec"
  obtain db j' cr where q: "enqueue ?opts [] (dv_now (fe_d e)) (rt_jobs rt) = Inr (db, j', cr)"
    and r: "rt1 = \<lparr> rt_deploys = linkJob (fe_rel_id e) (jb_id j') d, rt_jobs = db \<rparr>" "j' = j"
    using assms none c
    by (cases "enqueue ?opts [] (dv_now (fe_d e)) (rt_jobs rt)")
       (auto simp: triggerDeploy_def Let_def spec_key_set on_deploys_def run_enqueue_def)
  have "eo_jobKey ?opts = Some k" by (simp add: deploy_job_def spec_key_set)
  from enqueue_byKey [OF q this] show "byKey k (rt_jobs rt1) = Some j" using r by simp
  have "d_apps d = d_apps (rt_deploys rt)" "d_keys d = d_keys (rt_deploys rt)"
    using c by (auto simp: createRelease_def Let_def split: if_splits option.splits)
  then show "same_tables rt rt1" by (simp add: r same_tables_def linkJob_def upd_release_def)
qed

lemma note_pending_keeps:
  "note_pending e app sha rid dup rt = (rt1, x) \<Longrightarrow> same_tables rt rt1 \<and> rt_jobs rt1 = rt_jobs rt"
  by (auto simp: note_pending_def same_tables_def noteCommit_def Let_def split: option.splits if_splits)

lemma hook_push_deployed:
  assumes "hook_push e p delivery app rt = (rt1, HDeployed j rid)"
  shows "same_tables rt rt1 \<and> hook_push e' p delivery app rt1 = (rt1, HDeduped j)"
proof -
  let ?k = "''deploy:'' @ app_id app @ '':hook:'' @ take 80 delivery"
  let ?branch = "or_default (src_ref (app_source app)) ''main''"
  have go: "\<not> (is_kind ''git'' app \<and> \<not> branchMatches (ph_ref p) ?branch)"
    "\<not> (or_default (src_paths (app_source app)) [] \<noteq> [] \<and>
        \<not> pathsMatch (or_default (src_paths (app_source app)) []) (ph_paths p))"
    using assms by (auto simp: hook_push_def Let_def split: if_splits)
  obtain rt0 jb r where t: "triggerDeploy e app None (Some ?k) rt = (rt0, Inr (jb, r, False))"
    and n: "note_pending e app (ph_commit p) r False rt0 = (rt1, Inr ())" and j: "jb_id jb = j"
    using assms go
    by (auto simp: hook_push_def Let_def hook_fault_def then_do_def split: prod.splits sum.splits if_splits)
  have keep: "same_tables rt0 rt1 \<and> rt_jobs rt1 = rt_jobs rt0" using note_pending_keeps [OF n] .
  then have "byKey ?k (rt_jobs rt1) = Some jb" using trigger_new(1) [OF t] by simp
  from trigger_again [OF this, of e' app] go j
  have "hook_push e' p delivery app rt1 = (rt1, HDeduped j)"
    by (auto simp: hook_push_def Let_def hook_fault_def)
  moreover have "same_tables rt rt1" using trigger_new(2) [OF t] keep by (simp add: same_tables_def)
  ultimately show ?thesis by blast
qed

lemma same_tables_app: "same_tables rt rt1 \<Longrightarrow> toApp (rt_deploys rt1) = toApp (rt_deploys rt)"
  by (rule ext) (simp add: same_tables_def toApp_def)

text \<open>
  C11. A push that was deployed and is delivered again, with the delivery id its forge sends, starts
  nothing: the answer names the job of the first delivery and neither table nor queue changes.
\<close>

theorem redelivery_idempotent:
  assumes "hook_POST hmac e token hdr body rt = (rt1, HDeployed j rid)"
    and "hdr ''x-github-delivery'' = Some d"
    and "dv_hash (fe_d e') = dv_hash (fe_d e)" "dv_open (fe_d e') = dv_open (fe_d e)"
  shows "hook_POST hmac e' token hdr body rt1 = (rt1, HDeduped j)"
proof -
  obtain app where app: "byWebhook (dv_hash (fe_d e)) token (rt_deploys rt) = Some app"
    and sig: "hook_signed hmac e hdr body app rt = Inr True" and pr: "\<not> isPRWebhook hdr"
    using assms(1)
    by (auto simp: hook_POST_def hook_pr_def hook_fault_def then_do_def Let_def
        split: option.splits sum.splits bool.splits if_splits pr_action.splits prod.splits)
  define parsed where "parsed = (if js_trim body = [] then Inr (Some \<lparr> ph_ref = [], ph_commit = None, ph_paths = [] \<rparr>)
                          else parsePush body)"
  obtain p where p: "parsed = Inr (Some p)" and push: "hook_push e p d app rt = (rt1, HDeployed j rid)"
    using assms(1,2) app sig pr
    by (auto simp: hook_POST_def hook_delivery_def parsed_def [symmetric] Let_def split: sum.splits option.splits)
  from hook_push_deployed [OF push, of e'] have keep: "same_tables rt rt1"
    and again: "hook_push e' p d app rt1 = (rt1, HDeduped j)" by auto
  have "byWebhook (dv_hash (fe_d e')) token (rt_deploys rt1) = Some app"
    using app keep same_tables_app [OF keep] assms(3) by (simp add: byWebhook_def same_tables_def)
  moreover have "hook_signed hmac e' hdr body app rt1 = Inr True"
  proof -
    have apps: "d_apps (rt_deploys rt1) = d_apps (rt_deploys rt)" using keep by (simp add: same_tables_def)
    show ?thesis using sig unfolding hook_signed_def hookSecret_def appRow_def assms(4) apps .
  qed
  ultimately show ?thesis
    using pr p again assms(2) by (simp add: hook_POST_def hook_delivery_def parsed_def [symmetric])
qed

section \<open>A delivery that runs\<close>

text \<open>The release and the job are made whenever the key is new, the app exists and the spec fits.\<close>

lemma createRelease_runs:
  assumes "releaseRow rid s = None" "appRow i s \<noteq> None"
  shows "\<exists>d rel. createRelease i spec jobId rid now s = Inr (d, rel)"
proof -
  let ?r = "\<lparr> dr_id = rid, dr_app_id = i, dr_job_id = jobId, dr_spec = spec, dr_status = Pending,
    dr_commit = None, dr_image = None, dr_created_at = now, dr_live_at = None \<rparr>"
  have "releaseRow rid (s\<lparr> d_releases := d_releases s @ [?r] \<rparr>) \<noteq> None"
    by (simp add: releaseRow_def first_where_None)
  with assms show ?thesis by (auto simp: createRelease_def Let_def get_release_def)
qed

lemma enqueue_fits:
  assumes "length (eo_spec opts) \<le> MAX_SPEC_BYTES"
  shows "\<exists>db j c. enqueue opts fresh now db0 = Inr (db, j, c)"
proof -
  let ?k = "or_default (eo_jobKey opts) fresh"
  have "\<exists>r \<in> set (rows (insert_or_ignore opts ?k now db0)). jr_job_key r = ?k"
    by (auto simp: insert_or_ignore_def new_row_def)
  then have "first_where (\<lambda>r. jr_job_key r = ?k) (rows (insert_or_ignore opts ?k now db0)) \<noteq> None"
    by (auto simp: first_where_None)
  with assms show ?thesis by (auto simp: enqueue_def Let_def)
qed

lemma trigger_runs:
  assumes "byKey k (rt_jobs rt) = None" "releaseRow (fe_rel_id e) (rt_deploys rt) = None"
    "appRow (app_id app) (rt_deploys rt) \<noteq> None"
    "length (eo_spec (deploy_job app (set_member ''jobKey'' (JStr k)
       (buildSpec (rt_deploys rt) app (fe_rel_id e) None)))) \<le> MAX_SPEC_BYTES"
  shows "\<exists>rt1 j rid. triggerDeploy e app None (Some k) rt = (rt1, Inr (j, rid, False))"
proof -
  let ?spec = "set_member ''jobKey'' (JStr k) (buildSpec (rt_deploys rt) app (fe_rel_id e) None)"
  obtain d rel where d: "createRelease (app_id app) (stringify ?spec) None (fe_rel_id e) (dv_now (fe_d e)) (rt_deploys rt)
      = Inr (d, rel)"
    using createRelease_runs [OF assms(2,3)] by blast
  obtain db j c where "enqueue (deploy_job app ?spec) [] (dv_now (fe_d e)) (rt_jobs rt) = Inr (db, j, c)"
    using enqueue_fits [OF assms(4)] by blast
  with assms(1) d show ?thesis
    by (simp add: triggerDeploy_def Let_def spec_key_set on_deploys_def run_enqueue_def)
qed

definition demo_egress :: egress where
  "demo_egress = \<lparr> eg_allowLinkLocal = True, eg_host = (\<lambda>_. None), eg_fetch = (\<lambda>_ _ _. Inr (201, [])) \<rparr>"

definition demo_fenv :: fenv where
  "demo_fenv = \<lparr> fe_d = demo_denv, fe_rel_id = ''rel_1'', fe_draw = (\<lambda>n. 30000 + int n),
     fe_egress = demo_egress \<rparr>"

definition demo_runtime :: runtime where
  "demo_runtime = \<lparr> rt_deploys = demo_deploys, rt_jobs = \<lparr> rows = [], seq = 0 \<rparr> \<rparr>"

definition demo_headers :: headers where
  "demo_headers k = (if k = ''x-github-delivery'' then Some ''d1'' else None)"

abbreviation demo_view :: deploy_app where
  "demo_view \<equiv> toApp demo_deploys demo_app"

text \<open>A length bound by comparison with a list of known length.\<close>

fun no_longer :: "'a list \<Rightarrow> 'b list \<Rightarrow> bool" where
  "no_longer [] ys = True"
| "no_longer (x # xs) [] = False"
| "no_longer (x # xs) (y # ys) = no_longer xs ys"

lemma no_longer_length: "no_longer xs ys \<longleftrightarrow> length xs \<le> length ys"
  by (induction xs ys rule: no_longer.induct) auto

definition ruler :: string where
  "ruler = concat (replicate 40 ''0123456789abcdef'')"

lemma length_ruler: "length ruler = 640"
  by (simp add: ruler_def length_concat sum_list_replicate)

lemma demo_spec_fits:
  "length (eo_spec (deploy_job demo_view (set_member ''jobKey'' (JStr ''deploy:app_1:hook:d1'')
     (buildSpec demo_deploys demo_view ''rel_1'' None)))) \<le> MAX_SPEC_BYTES"
proof -
  have "no_longer (eo_spec (deploy_job demo_view (set_member ''jobKey'' (JStr ''deploy:app_1:hook:d1'')
     (buildSpec demo_deploys demo_view ''rel_1'' None)))) ruler" by code_simp
  then show ?thesis by (simp add: no_longer_length length_ruler MAX_SPEC_BYTES_def)
qed

lemma demo_delivery:
  "\<exists>rt1 j rid. hook_POST (\<lambda>_ _. []) demo_fenv ''tok'' demo_headers [] demo_runtime = (rt1, HDeployed j rid)"
proof -
  have k: "da_id demo_app = ''app_1''" by (simp add: demo_app_def)
  have app: "byWebhook (dv_hash (fe_d demo_fenv)) ''tok'' (rt_deploys demo_runtime) = Some demo_view"
    by (simp add: byWebhook_def demo_deploys_def demo_app_def demo_fenv_def demo_denv_def demo_runtime_def
        first_where_Cons)
  have sig: "hook_signed (\<lambda>_ _. []) demo_fenv demo_headers [] demo_view demo_runtime = Inr True" by code_simp
  have filters: "branchMatches [] b" "src_paths (app_source demo_view) = None" for b
    by (simp_all add: branchMatches_def toApp_def demo_app_def demo_source_def empty_source_def)
  obtain rt1 j rid where t: "triggerDeploy demo_fenv demo_view None (Some ''deploy:app_1:hook:d1'') demo_runtime
      = (rt1, Inr (j, rid, False))"
    using trigger_runs [of "''deploy:app_1:hook:d1''" demo_runtime demo_fenv demo_view] demo_spec_fits demo_row
    by (auto simp: demo_runtime_def demo_fenv_def byKey_def releaseRow_def demo_deploys_def demo_app_def)
  have trim: "js_trim [] = []" "\<not> isPRWebhook demo_headers" by code_simp+
  show ?thesis
    using t filters
    by (simp add: hook_POST_def app sig trim hook_delivery_def demo_headers_def hook_push_def Let_def
        hook_fault_def k note_pending_def [of _ _ None] split: if_splits)
qed

theorem redelivery_idempotent_witness:
  "\<exists>rt1 j rid. hook_POST (\<lambda>_ _. []) demo_fenv ''tok'' demo_headers [] demo_runtime = (rt1, HDeployed j rid) \<and>
     hook_POST (\<lambda>_ _. []) demo_fenv ''tok'' demo_headers [] rt1 = (rt1, HDeduped j)"
proof -
  obtain rt1 j rid where d: "hook_POST (\<lambda>_ _. []) demo_fenv ''tok'' demo_headers [] demo_runtime = (rt1, HDeployed j rid)"
    using demo_delivery by blast
  have "demo_headers ''x-github-delivery'' = Some ''d1''" by (simp add: demo_headers_def)
  from redelivery_idempotent [OF d this refl refl] d show ?thesis by blast
qed

section \<open>The sweep of expired previews\<close>

lemma run_enqueue_key:
  assumes "run_enqueue opts now rt = (rt1, Inr j)" "eo_jobKey opts = Some k"
  shows "rt_deploys rt1 = rt_deploys rt" "byKey k (rt_jobs rt1) = Some j"
    "byKey k' (rt_jobs rt) \<noteq> None \<Longrightarrow> byKey k' (rt_jobs rt1) \<noteq> None"
proof -
  obtain db c where q: "enqueue opts [] now (rt_jobs rt) = Inr (db, j, c)" and r: "rt1 = rt\<lparr> rt_jobs := db \<rparr>"
    using assms(1) by (auto simp: run_enqueue_def split: sum.splits)
  show "rt_deploys rt1 = rt_deploys rt" using r by simp
  show "byKey k (rt_jobs rt1) = Some j" using enqueue_byKey [OF q assms(2)] r by simp
  assume "byKey k' (rt_jobs rt) \<noteq> None"
  moreover have "set (rows (rt_jobs rt)) \<subseteq> set (rows db)"
    using q by (auto simp: enqueue_def Let_def insert_or_ignore_def split: if_splits option.splits)
  ultimately show "byKey k' (rt_jobs rt1) \<noteq> None" using r by (auto simp: byKey_def first_where_None)
qed

lemma teardown_spec:
  assumes "teardown now a rt = (rt1, Inr ())"
  shows "d_apps (rt_deploys rt1) = del_where (\<lambda>r. da_id r = app_id a) (d_apps (rt_deploys rt))"
    "byKey (''teardown:'' @ app_id a) (rt_jobs rt1) \<noteq> None"
    "byKey k (rt_jobs rt) \<noteq> None \<Longrightarrow> byKey k (rt_jobs rt1) \<noteq> None"
proof -
  obtain rt0 j where q: "run_enqueue (teardown_job a) now rt = (rt0, Inr j)"
    and r: "rt1 = rt0\<lparr> rt_deploys := fst (deleteApp (app_id a) (rt_deploys rt0)) \<rparr>"
    using assms by (cases "run_enqueue (teardown_job a) now rt") (auto simp: teardown_def then_do_def split: sum.splits)
  have k: "eo_jobKey (teardown_job a) = Some (''teardown:'' @ app_id a)" by (simp add: teardown_job_def)
  show "d_apps (rt_deploys rt1) = del_where (\<lambda>r. da_id r = app_id a) (d_apps (rt_deploys rt))"
    using run_enqueue_key(1) [OF q k] r by (simp add: deleteApp_def)
  show "byKey (''teardown:'' @ app_id a) (rt_jobs rt1) \<noteq> None"
    using run_enqueue_key(2) [OF q k] r by simp
  show "byKey k (rt_jobs rt) \<noteq> None \<Longrightarrow> byKey k (rt_jobs rt1) \<noteq> None"
    using run_enqueue_key(3) [OF q k] r by simp
qed

lemma teardown_all_spec:
  "teardown_all now as rt = (rt1, Inr ()) \<Longrightarrow>
     d_apps (rt_deploys rt1) = del_where (\<lambda>r. da_id r \<in> app_id ` set as) (d_apps (rt_deploys rt)) \<and>
     (\<forall>a \<in> set as. byKey (''teardown:'' @ app_id a) (rt_jobs rt1) \<noteq> None) \<and>
     (\<forall>k. byKey k (rt_jobs rt) \<noteq> None \<longrightarrow> byKey k (rt_jobs rt1) \<noteq> None)"
proof (induction as arbitrary: rt)
  case Nil
  then show ?case by (simp add: del_where_def)
next
  case (Cons a as)
  obtain rt0 where t: "teardown now a rt = (rt0, Inr ())" and rest: "teardown_all now as rt0 = (rt1, Inr ())"
    using Cons.prems by (cases "teardown now a rt") (auto simp: then_do_def split: sum.splits)
  note IH = Cons.IH [OF rest]
  have "d_apps (rt_deploys rt1) = del_where (\<lambda>r. da_id r \<in> app_id ` set (a # as)) (d_apps (rt_deploys rt))"
    using IH teardown_spec(1) [OF t] by (auto simp: del_where_def intro!: filter_cong)
  moreover have "\<forall>k. byKey k (rt_jobs rt) \<noteq> None \<longrightarrow> byKey k (rt_jobs rt1) \<noteq> None"
    using IH teardown_spec(3) [OF t] by blast
  moreover have "byKey (''teardown:'' @ app_id a) (rt_jobs rt1) \<noteq> None"
    using IH teardown_spec(2) [OF t] by blast
  ultimately show ?case using IH by simp
qed

definition expired_at :: "ms \<Rightarrow> app_row \<Rightarrow> bool" where
  "expired_at now r \<longleftrightarrow> (\<exists>t. da_preview_expires r = Some t \<and> t < now)"

lemma expired_ids: "app_id ` set (expiredPreviews now s) = da_id ` {r \<in> set (d_apps s). expired_at now r}"
proof -
  have "(da_preview_expires r \<noteq> None \<and> sql_lt (da_preview_expires r) now) = expired_at now r" for r
    by (cases "da_preview_expires r") (auto simp: expired_at_def)
  then show ?thesis by (auto simp: expiredPreviews_def image_image)
qed

lemma teardown_all_total:
  "\<forall>a \<in> set as. length (eo_spec (teardown_job a)) \<le> MAX_SPEC_BYTES \<Longrightarrow>
     \<exists>rt1. teardown_all now as rt = (rt1, Inr ())"
proof (induction as arbitrary: rt)
  case (Cons a as)
  obtain db j c where "enqueue (teardown_job a) [] now (rt_jobs rt) = Inr (db, j, c)"
    using enqueue_fits Cons.prems by (metis list.set_intros(1))
  then obtain rt0 where "teardown now a rt = (rt0, Inr ())" by (simp add: teardown_def run_enqueue_def)
  with Cons.IH [of rt0] Cons.prems show ?case by simp
qed simp

text \<open>
  C12. A sweep removes every preview past its deadline and keeps every other app, and leaves a
  teardown job in the queue for each preview it removed, as long as the teardown specs fit the
  queue's bound.
\<close>

theorem sweep_clears:
  assumes "deploy_inv (rt_deploys rt)"
    and "\<forall>r \<in> set (d_apps (rt_deploys rt)).
      length (eo_spec (teardown_job (toApp (rt_deploys rt) r))) \<le> MAX_SPEC_BYTES"
  shows "\<exists>rt1. sweepPreviews now rt = (rt1, Inr (length (filter (expired_at now) (d_apps (rt_deploys rt))))) \<and>
    d_apps (rt_deploys rt1) = filter (\<lambda>r. \<not> expired_at now r) (d_apps (rt_deploys rt)) \<and>
    (\<forall>r \<in> set (filter (expired_at now) (d_apps (rt_deploys rt))).
       byKey (''teardown:'' @ da_id r) (rt_jobs rt1) \<noteq> None)"
proof -
  let ?s = "rt_deploys rt"
  let ?as = "expiredPreviews now ?s"
  have as: "?as = map (toApp ?s) (filter (expired_at now) (d_apps ?s))"
  proof -
    have "(da_preview_expires r \<noteq> None \<and> sql_lt (da_preview_expires r) now) = expired_at now r" for r
      by (cases "da_preview_expires r") (auto simp: expired_at_def)
    then show ?thesis by (simp add: expiredPreviews_def sel_where_def)
  qed
  obtain rt1 where t: "teardown_all now ?as rt = (rt1, Inr ())"
    using teardown_all_total [of ?as now rt] assms(2) as by auto
  note spec = teardown_all_spec [OF t]
  have "da_id r \<in> app_id ` set ?as \<longleftrightarrow> expired_at now r" if "r \<in> set (d_apps ?s)" for r
    unfolding expired_ids using unique_onD [OF deploy_invD(1) [OF assms(1)]] that by blast
  then have "d_apps (rt_deploys rt1) = filter (\<lambda>r. \<not> expired_at now r) (d_apps ?s)"
    using spec by (auto simp: del_where_def intro!: filter_cong)
  moreover have "\<forall>r \<in> set (filter (expired_at now) (d_apps ?s)). byKey (''teardown:'' @ da_id r) (rt_jobs rt1) \<noteq> None"
    using spec by (auto simp: as)
  ultimately show ?thesis using t by (auto simp: sweepPreviews_def Let_def as)
qed

definition demo_preview :: app_row where
  "demo_preview = demo_app\<lparr> da_id := ''app_2'', da_name := ''shop-pr7'', da_webhook_hash := ''#two'',
     da_preview_of := Some ''app_1'', da_preview_pr := Some 7, da_preview_expires := Some 150 \<rparr>"

definition demo_previews :: runtime where
  "demo_previews = \<lparr> rt_deploys = \<lparr> d_apps = [demo_app, demo_preview], d_keys = [], d_releases = [] \<rparr>,
     rt_jobs = \<lparr> rows = [], seq = 0 \<rparr> \<rparr>"

lemma demo_previews_inv: "deploy_inv (rt_deploys demo_previews)"
  by (auto simp: demo_previews_def demo_preview_def demo_app_def deploy_inv_def tables_on_def apps_on_def unique_on_def
      kube_ok_def one_preview_def is_preview_def one_live_def)

lemma demo_teardowns_fit:
  "\<forall>r \<in> set (d_apps (rt_deploys demo_previews)).
     length (eo_spec (teardown_job (toApp (rt_deploys demo_previews) r))) \<le> MAX_SPEC_BYTES"
proof -
  have "list_all (\<lambda>r. no_longer (eo_spec (teardown_job (toApp (rt_deploys demo_previews) r))) ruler)
    (d_apps (rt_deploys demo_previews))" by code_simp
  then show ?thesis by (auto simp: list_all_iff no_longer_length length_ruler MAX_SPEC_BYTES_def)
qed

theorem sweep_clears_witness:
  "\<exists>rt1. sweepPreviews 200 demo_previews = (rt1, Inr 1) \<and> d_apps (rt_deploys rt1) = [demo_app] \<and>
     byKey ''teardown:app_2'' (rt_jobs rt1) \<noteq> None"
proof -
  have f: "filter (expired_at 200) (d_apps (rt_deploys demo_previews)) = [demo_preview]"
    "filter (\<lambda>r. \<not> expired_at 200 r) (d_apps (rt_deploys demo_previews)) = [demo_app]"
    "da_id demo_preview = ''app_2''"
    by (simp_all add: demo_previews_def demo_preview_def demo_app_def expired_at_def)
  from sweep_clears [OF demo_previews_inv demo_teardowns_fit, of 200] show ?thesis by (simp add: f)
qed

section \<open>A hook secret that cannot be read\<close>

text \<open>
  When the sealed hook secret of an app cannot be opened, the webhook takes every delivery for
  signed, whatever its headers; reading the forge token of an app in the same state is an error.
\<close>

theorem hook_unreadable_secret_open:
  assumes "appRow (app_id app) (rt_deploys rt) = Some r"
    and "da_hook_secret r = Some x" "da_forge_token r = Some y" "y \<noteq> []"
    and "dv_open (fe_d e) x = None" "dv_open (fe_d e) y = None"
  shows "hook_signed hmac e hdr body app rt = Inr True \<and>
    forgeToken (fe_d e) (app_id app) (rt_deploys rt) = Inl (DeployError 500 ''sealed forge token is unreadable'')"
  using assms by (simp add: hook_signed_def hookSecret_def forgeToken_def)

definition demo_sealed :: app_row where
  "demo_sealed = demo_app\<lparr> da_hook_secret := Some ''?'', da_forge_token := Some ''?'' \<rparr>"

definition demo_unreadable :: runtime where
  "demo_unreadable = demo_runtime\<lparr> rt_deploys := demo_deploys\<lparr> d_apps := [demo_sealed] \<rparr> \<rparr>"

theorem hook_unreadable_secret_open_witness:
  "hook_signed (\<lambda>_ _. ''0'') demo_fenv (\<lambda>_. Some ''forged'') ''{}'' (toApp demo_deploys demo_sealed) demo_unreadable
     = Inr True"
proof -
  have "appRow (app_id (toApp demo_deploys demo_sealed)) (rt_deploys demo_unreadable) = Some demo_sealed"
    by (simp add: appRow_def demo_unreadable_def first_where_Cons)
  moreover have "dv_open (fe_d demo_fenv) ''?'' = None" by (simp add: demo_fenv_def demo_denv_def)
  ultimately show ?thesis
    using hook_unreadable_secret_open [of "toApp demo_deploys demo_sealed" demo_unreadable demo_sealed "''?''" "''?''" demo_fenv]
    by (simp add: demo_sealed_def)
qed

section \<open>Ports of a preview\<close>

text \<open>
  Each port of a preview is drawn against the ports of the stored apps only: when the first two draws
  agree on a free port, the preview's own mappings clash and it is refused.
\<close>

lemma port_number_int: "1 \<le> k \<Longrightarrow> k \<le> 65535 \<Longrightarrow> port_number (Some (json_int k)) = Some k"
  by (simp add: port_number_def num_int_def)

lemma port_json_members:
  "jmember ''host'' (port_json p) = Some (json_int (pm_host p))"
  "jmember ''container'' (port_json p) = Some (json_int (pm_container p))"
  by (simp_all add: port_json_def flag_field_def jmember_def)

lemma preview_ports_collide:
  assumes "app_runtime parent \<noteq> ''k8s''" "app_ports parent = p # q # ps" "length ps \<le> 14"
    and "1 \<le> pm_container p" "pm_container p \<le> 65535" "1 \<le> pm_container q" "pm_container q \<le> 65535"
    and "fe_draw e 0 = host" "fe_draw e 1 = host" "host \<notin> usedHostPorts (app_agentId parent) s"
    and "1 \<le> host" "host \<le> 65535"
    and "previewPorts e s parent = Inr out"
  shows "validatePorts (JArr (map port_json out)) = Inl (DeployError 422 (''duplicate host port '' @ int_text host))"
proof -
  have draw: "try_ports 32 (fe_draw e) (usedHostPorts (app_agentId parent) s) k = Inr (host, Suc k)"
    if "fe_draw e k = host" for k
    using that assms(10) by (simp add: numeral_eq_Suc)
  have len: "alloc_all e s ag k cs = Inr xs \<Longrightarrow> length xs = length cs" for ag k cs xs
    by (induction cs arbitrary: k xs) (auto simp: and_then_Inr split: prod.splits)
  obtain rest where out: "out = \<lparr> pm_host = host, pm_container = pm_container p, pm_local = True \<rparr> #
      \<lparr> pm_host = host, pm_container = pm_container q, pm_local = True \<rparr> # rest" and l: "length rest = length ps"
    using assms(13) assms(1,2) draw [OF assms(8)] draw [of 1] assms(9) len
    by (fastforce simp: previewPorts_def allocPort_def and_then_Inr)
  show ?thesis
    using l assms(3-7,11,12)
    by (simp add: validatePorts_def out port_json_members port_number_int)
qed

end
