(* ===== verification/Egress_Props.thy ===== *)
theory Egress_Props
  imports Egress
begin

text \<open>
  The egress guard works on the text of an address.  For IPv4 and for IPv4-mapped IPv6 as the
  system prints them this is the check on the value; for other spellings of the same address it is
  not.
\<close>

section \<open>The policy on values\<close>

definition v4_blocked :: "nat \<Rightarrow> nat \<Rightarrow> nat \<Rightarrow> nat \<Rightarrow> bool" where
  "v4_blocked a b c d \<longleftrightarrow> (a = 169 \<and> b = 254) \<or> a = 0 \<or> (a = 100 \<and> b = 100 \<and> c = 100 \<and> d = 200)"

text \<open>A hextet as it is printed: lower case, no leading zeros.\<close>

definition hex_text :: "nat \<Rightarrow> string" where
  "hex_text n =
     (if n < 16 then [hex_digit n]
      else if n < 256 then [hex_digit (n div 16), hex_digit (n mod 16)]
      else if n < 4096 then [hex_digit (n div 256), hex_digit (n div 16 mod 16), hex_digit (n mod 16)]
      else [hex_digit (n div 4096), hex_digit (n div 256 mod 16), hex_digit (n div 16 mod 16), hex_digit (n mod 16)])"

section \<open>Dotted text\<close>

lemma split4:
  assumes "CHR ''.'' \<notin> set a" "CHR ''.'' \<notin> set b" "CHR ''.'' \<notin> set c" "CHR ''.'' \<notin> set d"
  shows "split_on (CHR ''.'') (a @ ''.'' @ b @ ''.'' @ c @ ''.'' @ d) = [a, b, c, d]"
proof -
  have app: "split_on e (u @ e # r) = u # split_on e r" if "e \<notin> set u" for e :: char and u r
    using that by (induction u) auto
  have "split_on e u = [u]" if "e \<notin> set u" for e :: char and u
    using that by (induction u) auto
  with assms app show ?thesis by simp
qed

lemma split_on_join: "split_on (CHR ''.'') s = ws \<Longrightarrow> w \<in> set ws \<Longrightarrow> CHR ''.'' \<notin> set w"
proof (induction s arbitrary: w ws)
  case (Cons c s)
  then show ?case by (cases "split_on (CHR ''.'') s") (auto split: if_splits)
qed auto

lemma Fin_of_nat [simp]: "Fin (of_nat m) = Fin (of_nat n) \<longleftrightarrow> m = n"
  by simp

lemma blockedIpv4_nums:
  assumes "map str_number (split_on (CHR ''.'') s) = [Fin (of_nat a), Fin (of_nat b), Fin (of_nat c), Fin (of_nat d)]"
  shows "blockedIpv4 s = v4_blocked a b c d"
proof -
  obtain p q r t where sp: "split_on (CHR ''.'') s = [p, q, r, t]"
    "str_number p = Fin (of_nat a)" "str_number q = Fin (of_nat b)"
    "str_number r = Fin (of_nat c)" "str_number t = Fin (of_nat d)"
    using assms by (auto simp: map_eq_Cons_conv)
  have lit: "Fin (of_nat m) = Fin (numeral k) \<longleftrightarrow> m = numeral k" "Fin (of_nat m) = Fin 0 \<longleftrightarrow> m = 0" for m k
    by (metis js_num.inject(2) of_nat_eq_iff of_nat_numeral) simp
  show ?thesis
    by (simp add: blockedIpv4_def Let_def nth_num_def sp v4_blocked_def lit)
qed

lemma octet_number: "octet s = Some n \<Longrightarrow> str_number s = Fin (of_nat n)"
  by (auto simp: octet_def str_number_digits split: if_splits)

lemma map_Some_the: "None \<notin> set vs \<Longrightarrow> map Some (map the vs) = vs"
  by (induction vs) auto

lemma parse_ip4_nums:
  assumes "parse_ip4 s = Some [a, b, c, d]"
  shows "map str_number (split_on (CHR ''.'') s) = [Fin (of_nat a), Fin (of_nat b), Fin (of_nat c), Fin (of_nat d)]"
proof -
  let ?os = "map octet (split_on (CHR ''.'') s)"
  have os: "None \<notin> set ?os" "map the ?os = [a, b, c, d]"
    using assms by (simp_all add: parse_ip4_def Let_def split: if_splits)
  have "?os = map Some [a, b, c, d]" using map_Some_the [OF os(1)] os(2) by metis
  then obtain p q r t where "split_on (CHR ''.'') s = [p, q, r, t]"
    "octet p = Some a" "octet q = Some b" "octet r = Some c" "octet t = Some d"
    by (simp add: map_eq_Cons_conv) blast
  then show ?thesis by (simp add: octet_number)
qed

text \<open>A dotted address is made of digits and dots and ends in a digit.\<close>

lemma split_on_nonempty: "split_on e s \<noteq> []"
  by (induction s) (auto split: list.splits)

lemma split_on_set: "set s \<subseteq> insert e (\<Union> (set ` set (split_on e s)))"
proof (induction s)
  case (Cons c s)
  then show ?case by (cases "split_on e s") (auto simp: split_on_nonempty)
qed simp

lemma split_on_empty: "split_on e s = [[]] \<longleftrightarrow> s = []"
  by (cases s) (auto simp: split_on_nonempty split: list.splits)

lemma split_on_last: "s \<noteq> [] \<Longrightarrow> last s = e \<Longrightarrow> last (split_on e s) = []"
proof (induction s)
  case (Cons c s)
  show ?case
  proof (cases "s = []")
    case False
    with Cons have "last (split_on e s) = []" by simp
    with False show ?thesis
      using split_on_nonempty [of e s] split_on_empty [of e s] by (auto split: list.splits)
  qed (use Cons in simp)
qed simp

lemma parse_ip4_text:
  assumes "parse_ip4 s = Some os"
  shows "list_all (\<lambda>c. is_digit c \<or> c = CHR ''.'') s" "s \<noteq> []" "last s \<noteq> CHR ''.''"
proof -
  let ?ws = "split_on (CHR ''.'') s"
  have o: "None \<notin> set (map octet ?ws)" "length ?ws = 4"
    using assms by (auto simp: parse_ip4_def Let_def split: if_splits)
  have dig: "w \<noteq> [] \<and> list_all is_digit w" if "w \<in> set ?ws" for w
  proof -
    have "octet w \<noteq> None" using o that by (metis image_eqI set_map)
    then show ?thesis by (auto simp: octet_def split: if_splits)
  qed
  show "list_all (\<lambda>c. is_digit c \<or> c = CHR ''.'') s"
    using split_on_set [of s "CHR ''.''"] dig by (fastforce simp: list_all_iff)
  show ne: "s \<noteq> []" using o(2) by auto
  have "last ?ws \<noteq> []" using dig split_on_nonempty by (metis last_in_set)
  with ne show "last s \<noteq> CHR ''.''" using split_on_last by metis
qed

lemma host_of_digits:
  assumes "list_all (\<lambda>c. is_digit c \<or> c = CHR ''.'') s" "s \<noteq> []" "last s \<noteq> CHR ''.''"
  shows "strip_dot (strip_brackets (js_lower s)) = s" "s \<notin> set BLOCKED_HOSTNAMES"
proof -
  have low: "js_lower s = s"
    using assms(1) unfolding js_lower_def
    by (induction s) (auto simp: lower_char_def is_digit_def Let_def)
  obtain c r where s: "s = c # r" using assms(2) by (cases s) auto
  have "c \<noteq> CHR ''[''" using assms(1) s by (auto simp: is_digit_def)
  moreover have "last s \<noteq> CHR '']''"
  proof -
    have "is_digit (last s) \<or> last s = CHR ''.''" using assms(1,2) by (simp add: list_all_iff)
    then show ?thesis by (auto simp: is_digit_def)
  qed
  ultimately have "strip_brackets s = s" using s by (simp add: strip_brackets_def)
  with assms(3) show "strip_dot (strip_brackets (js_lower s)) = s" by (simp add: low strip_dot_def)
  show "s \<notin> set BLOCKED_HOSTNAMES"
    using assms(1) by (auto simp: BLOCKED_HOSTNAMES_def is_digit_def)
qed

text \<open>
  C26. An IPv4 literal, as an address or as the host of a target, is refused exactly when it lies in
  169.254.0.0/16 or 0.0.0.0/8 or is 100.100.100.200.
\<close>

theorem egress_ipv4_exact:
  "parse_ip4 s = Some [a, b, c, d] \<Longrightarrow>
     blockedIp s = v4_blocked a b c d \<and> blockedHost s = v4_blocked a b c d"
proof
  assume s: "parse_ip4 s = Some [a, b, c, d]"
  then show "blockedIp s = v4_blocked a b c d"
    by (simp add: blockedIp_def isIPv4_def blockedIpv4_nums [OF parse_ip4_nums])
  then show "blockedHost s = v4_blocked a b c d"
    using host_of_digits [OF parse_ip4_text [OF s]] s
    by (simp add: blockedHost_def Let_def isIP_def isIPv4_def)
qed

theorem egress_ipv4_exact_witness:
  "parse_ip4 ''169.254.169.254'' = Some [169, 254, 169, 254] \<and> blockedHost ''169.254.169.254''"
proof -
  have "parse_ip4 ''169.254.169.254'' = Some [169, 254, 169, 254]" by code_simp
  with egress_ipv4_exact [OF this] show ?thesis by (simp add: v4_blocked_def)
qed

section \<open>Hexadecimal text\<close>

lemma hex_val_digit: "n < 16 \<Longrightarrow> hex_val (hex_digit n) = Some n"
  by (cases "n < 10") (auto simp: hex_val_def hex_digit_def Let_def)

definition hex_plain :: "char \<Rightarrow> bool" where
  "hex_plain c \<longleftrightarrow> c \<noteq> CHR '':'' \<and> c \<noteq> CHR ''.'' \<and> lower_char c = c \<and> hex_val c \<noteq> None"

lemma hex_digit_plain: "n < 16 \<Longrightarrow> hex_plain (hex_digit n)"
proof -
  have "list_all (\<lambda>n. hex_plain (hex_digit n)) [0..<16]" by code_simp
  then show "n < 16 \<Longrightarrow> hex_plain (hex_digit n)" by (auto simp: list_all_iff)
qed

lemma hex_text_plain: "n < 65536 \<Longrightarrow> list_all hex_plain (hex_text n) \<and> hex_text n \<noteq> []"
  by (auto simp: hex_text_def intro!: hex_digit_plain)

lemma hextet_digits:
  fixes n :: nat
  shows "(n div 256 * 16 + n div 16 mod 16) * 16 + n mod 16 = n"
    "((n div 4096 * 16 + n div 256 mod 16) * 16 + n div 16 mod 16) * 16 + n mod 16 = n"
proof -
  have a: "n div 256 * 16 + n div 16 mod 16 = n div 16"
    using div_mult_mod_eq [of "n div 16" 16] by (simp add: div_mult2_eq [symmetric])
  have b: "n div 4096 * 16 + n div 256 mod 16 = n div 256"
    using div_mult_mod_eq [of "n div 256" 16] by (simp add: div_mult2_eq [symmetric])
  show "(n div 256 * 16 + n div 16 mod 16) * 16 + n mod 16 = n"
    "((n div 4096 * 16 + n div 256 mod 16) * 16 + n div 16 mod 16) * 16 + n mod 16 = n"
    by (simp_all only: a b div_mult_mod_eq)
qed

lemma hex_value_text: "n < 65536 \<Longrightarrow> hex_value (hex_text n) = n"
proof -
  assume n: "n < 65536"
  have d: "n < 256 \<Longrightarrow> n div 16 < 16" "n < 4096 \<Longrightarrow> n div 256 < 16" "n div 4096 < 16" using n by auto
  show ?thesis
    using d hextet_digits [of n] by (simp add: hex_text_def hex_value_def hex_val_digit)
qed

lemma parse_hex_text: "n < 65536 \<Longrightarrow> parse_hex (hex_text n) = Some n"
  using hex_text_plain [of n]
  by (auto simp: parse_hex_def Let_def hex_plain_def list_all_iff hex_value_text while_digits)

lemma split2:
  "e \<notin> set a \<Longrightarrow> e \<notin> set b \<Longrightarrow> split_on e (a @ e # b) = [a, b]"
proof -
  have "split_on e (u @ e # r) = u # split_on e r" if "e \<notin> set u" for u r
    using that by (induction u) auto
  moreover have "split_on e u = [u]" if "e \<notin> set u" for u
    using that by (induction u) auto
  ultimately show "e \<notin> set a \<Longrightarrow> e \<notin> set b \<Longrightarrow> split_on e (a @ e # b) = [a, b]" by simp
qed

lemma int_text_no_dot: "CHR ''.'' \<notin> set (int_text (int n))"
  using nat_digits_all [of n] digit_facts by (auto simp: int_text_def list_all_iff)

lemma blocked_dotted:
  "blockedIpv4 (dotted hi lo) = v4_blocked (hi div 256 mod 256) (hi mod 256) (lo div 256 mod 256) (lo mod 256)"
proof (rule blockedIpv4_nums)
  have "split_on (CHR ''.'') (dotted hi lo) =
      map (\<lambda>n. int_text (int n)) [hi div 256 mod 256, hi mod 256, lo div 256 mod 256, lo mod 256]"
    unfolding dotted_def by (subst split4) (simp_all only: int_text_no_dot list.map not_False_eq_True)
  then show "map str_number (split_on (CHR ''.'') (dotted hi lo)) =
      [Fin (of_nat (hi div 256 mod 256)), Fin (of_nat (hi mod 256)),
       Fin (of_nat (lo div 256 mod 256)), Fin (of_nat (lo mod 256))]"
    by (simp only: list.map str_number_int_text)
qed

lemma mapped_blocked:
  "hi < 65536 \<Longrightarrow> lo < 65536 \<Longrightarrow>
     blockedIp (''::ffff:'' @ hex_text hi @ '':'' @ hex_text lo) =
       v4_blocked (hi div 256) (hi mod 256) (lo div 256) (lo mod 256)"
proof -
  assume hl: "hi < 65536" "lo < 65536"
  let ?rest = "hex_text hi @ '':'' @ hex_text lo"
  let ?s = "''::ffff:'' @ ?rest"
  have plain: "list_all hex_plain (hex_text hi)" "list_all hex_plain (hex_text lo)"
    using hl hex_text_plain by auto
  have not4: "\<not> isIPv4 ?s"
  proof
    assume "isIPv4 ?s"
    then obtain os where "parse_ip4 ?s = Some os" unfolding isIPv4_def by blast
    from parse_ip4_text(1) [OF this] show False by (simp add: is_digit_def)
  qed
  have low: "js_lower ?s = ?s"
  proof -
    have "map lower_char w = w" if "list_all hex_plain w" for w
      using that by (induction w) (auto simp: hex_plain_def)
    with plain show ?thesis by (simp add: js_lower_def) (simp add: lower_char_def)
  qed
  have sp: "split_on (CHR '':'') ?rest = [hex_text hi, hex_text lo]"
    using plain split2 [of "CHR '':''" "hex_text hi" "hex_text lo"] by (auto simp: list_all_iff hex_plain_def)
  have nodot: "CHR ''.'' \<notin> set ?rest" using plain by (auto simp: list_all_iff hex_plain_def)
  have "blockedIpv6 ?s = embedded_blocked ?rest"
    unfolding blockedIpv6_def Let_def low by simp
  also have "\<dots> = blockedIpv4 (dotted hi lo)"
    using nodot sp hl by (simp add: embedded_blocked_def embeddedIpv4_def Let_def parse_hex_text)
  also have "\<dots> = v4_blocked (hi div 256) (hi mod 256) (lo div 256) (lo mod 256)"
    using hl by (simp add: blocked_dotted)
  finally show ?thesis using not4 by (simp add: blockedIp_def)
qed

lemma metadata_text:
  "''::ffff:'' @ hex_text 43518 @ '':'' @ hex_text 43518 = ''::ffff:a9fe:a9fe''"
proof -
  have "hex_digit 10 = CHR ''a''" "hex_digit 9 = CHR ''9''" "hex_digit 15 = CHR ''f''"
    "hex_digit 14 = CHR ''e''" by code_simp+
  then show ?thesis by (simp add: hex_text_def)
qed

lemma metadata_hextets:
  "hextet ''ffff'' = Some 65535" "hextet ''a9fe'' = Some 43518" "hextet ''0'' = Some 0"
  "replicate 5 (0::nat) = [0, 0, 0, 0, 0]"
  by (simp_all add: hextet_def hex_value_def hex_val_def Let_def) (simp add: eval_nat_numeral)

text \<open>
  The IPv4-mapped IPv6 address of two hextets, printed the way the system prints it, is judged
  as the IPv4 address it stands for.
\<close>

theorem egress_mapped_exact:
  "hi < 65536 \<Longrightarrow> lo < 65536 \<Longrightarrow>
     blockedIp (''::ffff:'' @ hex_text hi @ '':'' @ hex_text lo) =
       v4_blocked (hi div 256) (hi mod 256) (lo div 256) (lo mod 256)"
  by (rule mapped_blocked)

theorem egress_mapped_exact_witness:
  "blockedIp ''::ffff:a9fe:a9fe''"
  using egress_mapped_exact [of 43518 43518] unfolding metadata_text by (simp add: v4_blocked_def)

text \<open>
  There are two spellings of one IPv6 address, the metadata address ::ffff:169.254.169.254, of
  which the guard refuses one, while a socket check connects to the other with link-local targets
  forbidden.
\<close>

theorem egress_spelling_bypass:
  "\<exists>s t. parse_ip6 s = parse_ip6 t \<and> parse_ip6 s \<noteq> None \<and> blockedHost t \<and>
     checked_target False resolve s = Inr s"
proof -
  let ?s = "''0:0:0:0:0:ffff:a9fe:a9fe''" and ?t = "''::ffff:a9fe:a9fe''"
  have val: "parse_ip6 ?s = Some [0, 0, 0, 0, 0, 65535, 43518, 43518]"
    "parse_ip6 ?t = Some [0, 0, 0, 0, 0, 65535, 43518, 43518]"
    by (simp_all add: parse_ip6_def parse_groups_def colon_groups_def metadata_hextets Let_def)
  have host: "strip_dot (strip_brackets (js_lower ?s)) = ?s" "strip_dot (strip_brackets (js_lower ?t)) = ?t"
    "?s \<notin> set BLOCKED_HOSTNAMES" "isIPv4 ?s = False" "isIPv4 ?t = False" by code_simp+
  have "blockedIpv6 ?s = False" unfolding blockedIpv6_def by code_simp
  then have pass: "\<not> blockedHost ?s" "isIP ?s = 6"
    by (simp_all add: blockedHost_def Let_def host blockedIp_def isIP_def val)
  have "blockedIp ?t" using mapped_blocked [of 43518 43518] unfolding metadata_text by (simp add: v4_blocked_def)
  then have "blockedHost ?t" by (simp add: blockedHost_def Let_def host isIP_def val)
  moreover have "checked_target False resolve ?s = Inr ?s"
    using pass by (simp add: checked_target_def guardedResolve_def)
  ultimately show ?thesis using val by (metis option.distinct(1))
qed

end
