(* ===== verification/Status_Config.thy ===== *)
theory Status_Config
  imports Prelude Complex_Main
begin

text \<open>
  The parts of \<open>StatusConfig\<close> (\<open>src/src/lib/server/config/schema.ts\<close>) that the monitor and the
  public snapshot read, as the values the schema produces, with the conditions the schema checks
  on them.  A key that may be absent is an option; \<open>Date.parse\<close> is a parameter wherever a text
  becomes an instant.
\<close>

record service =
  sv_id :: string
  sv_name :: string
  sv_group :: string
  sv_description :: "string option"
  sv_type :: string
  sv_cert_warn_days :: "int option"
  sv_interval_seconds :: "rat option"
  sv_timeout_ms :: "rat option"
  sv_degraded_ms :: "rat option"

record monitor_config =
  mc_concurrency :: nat
  mc_user_agent :: "string option"
  mc_default_interval_seconds :: int
  mc_default_timeout_ms :: int
  mc_default_degraded_ms :: int
  mc_failure_threshold :: nat
  mc_recovery_threshold :: nat
  mc_retention_days :: int
  mc_cert_warn_days :: int
  mc_allow_link_local :: bool

record incident_note =
  in_at :: string
  in_message :: string

record manual_incident =
  mi_title :: string
  mi_severity :: string
  mi_services :: "string list"
  mi_started_at :: string
  mi_resolved_at :: "string option"
  mi_updates :: "incident_note list"

record maintenance_entry =
  me_id :: "string option"
  me_title :: string
  me_description :: "string option"
  me_services :: "string list"
  me_start :: "string option"
  me_end :: "string option"
  me_weekly :: "string option"
  me_at :: "string option"
  me_duration_minutes :: "nat option"

record page_def =
  pg_slug :: string
  pg_title :: string
  pg_description :: "string option"
  pg_accent :: "string option"
  pg_noindex :: bool
  pg_services :: "string list"

record link =
  li_label :: string
  li_href :: string

record slo =
  sl_service :: string
  sl_target_percent :: rat
  sl_window_days :: nat

record site_config =
  si_name :: string
  si_title :: "string option"
  si_description :: string
  si_url :: "string option"
  si_logo_url :: "string option"
  si_accent :: string
  si_og_title :: string
  si_og_description :: string
  si_og_image :: string
  si_twitter_site :: string
  si_robots :: string
  si_announcement :: "string option"
  si_announcement_severity :: string

record status_config =
  cf_site :: site_config
  cf_refresh_seconds :: nat
  cf_history_days :: nat
  cf_monitor :: monitor_config
  cf_services :: "service list"
  cf_incidents :: "manual_incident list"
  cf_maintenance :: "maintenance_entry list"
  cf_pages :: "page_def list"
  cf_links :: "link list"
  cf_slos :: "slo list"

section \<open>What the schema checks\<close>

definition in_bounds :: "nat \<Rightarrow> nat \<Rightarrow> nat \<Rightarrow> bool" where
  "in_bounds lo hi n = (lo \<le> n \<and> n \<le> hi)"

definition monitor_ok :: "monitor_config \<Rightarrow> bool" where
  "monitor_ok m =
     (in_bounds 1 64 (mc_concurrency m) \<and> 5 \<le> mc_default_interval_seconds m \<and>
      250 \<le> mc_default_timeout_ms m \<and> 1 \<le> mc_default_degraded_ms m \<and>
      in_bounds 1 10 (mc_failure_threshold m) \<and> in_bounds 1 10 (mc_recovery_threshold m) \<and>
      1 \<le> mc_retention_days m \<and> 1 \<le> mc_cert_warn_days m)"

definition maintenance_ok :: "(string \<Rightarrow> ms option) \<Rightarrow> maintenance_entry \<Rightarrow> bool" where
  "maintenance_ok parse m =
     ((me_start m = None) = (me_end m = None) \<and>
      (if me_weekly m \<noteq> None then me_at m \<noteq> None \<and> me_duration_minutes m \<noteq> None
       else me_at m = None \<and> me_duration_minutes m = None) \<and>
      (me_start m \<noteq> None) \<noteq> (me_weekly m \<noteq> None) \<and>
      (case me_start m of None \<Rightarrow> True | Some s \<Rightarrow> (case me_end m of None \<Rightarrow> True | Some e \<Rightarrow>
         (case (parse s, parse e) of (Some a, Some b) \<Rightarrow> b > a | _ \<Rightarrow> False))))"

definition refers_to :: "string set \<Rightarrow> string list \<Rightarrow> bool" where
  "refers_to ids ss = list_all (\<lambda>s. s = ''all'' \<or> s \<in> ids) ss"

definition config_ok :: "(string \<Rightarrow> ms option) \<Rightarrow> status_config \<Rightarrow> bool" where
  "config_ok parse c =
     (let ids = set (map sv_id (cf_services c)) in
      cf_services c \<noteq> [] \<and> distinct (map sv_id (cf_services c)) \<and>
      in_bounds 7 365 (cf_history_days c) \<and> in_bounds 5 3600 (cf_refresh_seconds c) \<and>
      monitor_ok (cf_monitor c) \<and> list_all (maintenance_ok parse) (cf_maintenance c) \<and>
      distinct (map pg_slug (cf_pages c)) \<and>
      list_all (\<lambda>p. pg_services p \<noteq> [] \<and> refers_to ids (pg_services p)) (cf_pages c) \<and>
      list_all (\<lambda>m. refers_to ids (me_services m)) (cf_maintenance c) \<and>
      list_all (\<lambda>i. refers_to ids (mi_services i)) (cf_incidents c) \<and>
      list_all (\<lambda>s. sl_service s \<in> ids \<and> 50 \<le> sl_target_percent s \<and> sl_target_percent s \<le> 100 \<and>
        in_bounds 1 90 (sl_window_days s)) (cf_slos c) \<and>
      distinct (map sl_service (cf_slos c)))"

end
