(* ===== verification/Service_State.thy ===== *)
theory Service_State
  imports Prelude Complex_Main
begin

text \<open>
  The status of one monitored service: the severity order and the worst-of rollup of
  \<open>src/src/lib/shared/status.ts\<close>, and the flap protection of
  \<open>src/src/lib/server/monitor/service-state.ts\<close>.  A number that the code keeps as a double is an
  exact rational here.  The flap protection is related to a reference that looks only at the list
  of results so far.
\<close>

section \<open>Statuses\<close>

datatype service_status = Operational | In_maintenance | Degraded | Partial_outage | Major_outage | Not_known

definition severity_rank :: "service_status \<Rightarrow> int" where
  "severity_rank s = (case s of Operational \<Rightarrow> 0 | In_maintenance \<Rightarrow> 1 | Degraded \<Rightarrow> 2
     | Partial_outage \<Rightarrow> 3 | Major_outage \<Rightarrow> 4 | Not_known \<Rightarrow> -1)"

fun worst_loop :: "service_status list \<Rightarrow> service_status \<Rightarrow> bool \<Rightarrow> service_status" where
  "worst_loop [] worst sawAny = (if sawAny then worst else Not_known)"
| "worst_loop (s # ss) worst sawAny =
     (if s = Not_known then worst_loop ss worst sawAny
      else worst_loop ss (if severity_rank s > severity_rank worst then s else worst) True)"

definition worstStatus :: "service_status list \<Rightarrow> service_status" where
  "worstStatus statuses = worst_loop statuses Operational False"

datatype day_state = Day_up | Day_degraded | Day_down | Day_maintenance | Day_nodata

definition classifyDay :: "rat option \<Rightarrow> day_state" where
  "classifyDay upFraction =
     (case upFraction of None \<Rightarrow> Day_nodata
      | Some f \<Rightarrow> if f \<ge> 999 / 1000 then Day_up else if f \<ge> 9 / 10 then Day_degraded else Day_down)"

section \<open>Flap protection\<close>

record check_outcome =
  co_ok :: bool
  co_degraded :: bool
  co_latencyMs :: rat
  co_detail :: "string option"
  co_certDays :: "int option"

datatype check_result = Good | Slow | Bad

definition result_of :: "check_outcome \<Rightarrow> check_result" where
  "result_of oc = (if co_ok oc then if co_degraded oc then Slow else Good else Bad)"

record service_state =
  ss_status :: service_status
  ss_bad :: nat
  ss_good :: nat
  ss_failureThreshold :: nat
  ss_recoveryThreshold :: nat

definition new_state :: "nat \<Rightarrow> nat \<Rightarrow> service_state" where
  "new_state failure recovery = \<lparr> ss_status = Not_known, ss_bad = 0, ss_good = 0,
     ss_failureThreshold = failure, ss_recoveryThreshold = recovery \<rparr>"

definition count_result :: "check_result \<Rightarrow> service_state \<Rightarrow> service_state" where
  "count_result r st =
     (if r = Good then st\<lparr> ss_good := ss_good st + 1, ss_bad := 0 \<rparr>
      else st\<lparr> ss_bad := ss_bad st + 1, ss_good := 0 \<rparr>)"

definition next_status :: "check_result \<Rightarrow> service_state \<Rightarrow> service_status" where
  "next_status r st =
     (if ss_bad st \<ge> ss_failureThreshold st then
        if r = Slow \<and> ss_status st = Major_outage then Major_outage
        else if r = Bad then Major_outage else Degraded
      else if ss_good st \<ge> ss_recoveryThreshold st then Operational
      else if ss_status st = Not_known \<and> ss_bad st > 0 then if r = Bad then Major_outage else Degraded
      else if ss_status st = Not_known \<and> ss_good st > 0 then Operational
      else ss_status st)"

definition apply_outcome :: "check_outcome \<Rightarrow> service_state \<Rightarrow> service_state \<times> service_status option" where
  "apply_outcome oc st =
     (let r = result_of oc; st1 = count_result r st; n = next_status r st1
      in if n \<noteq> ss_status st1 then (st1\<lparr> ss_status := n \<rparr>, Some n) else (st1, None))"

definition apply_all :: "check_outcome list \<Rightarrow> service_state \<Rightarrow> service_state" where
  "apply_all ocs st = fold (\<lambda>oc s. fst (apply_outcome oc s)) ocs st"

section \<open>The worst of several statuses\<close>

lemma worst_loop_unseen:
  "worst_loop ss w False = (if \<forall>s \<in> set ss. s = Not_known then Not_known else worst_loop ss w True)"
proof (induction ss)
  case (Cons s ss)
  then show ?case by (cases "s = Not_known") simp_all
qed simp

lemma worst_loop_upper:
  "severity_rank w \<le> severity_rank (worst_loop ss w True) \<and>
   (\<forall>s \<in> set ss. s \<noteq> Not_known \<longrightarrow> severity_rank s \<le> severity_rank (worst_loop ss w True)) \<and>
   worst_loop ss w True \<in> insert w (set ss)"
proof (induction ss arbitrary: w)
  case (Cons s ss)
  show ?case
  proof (cases "s = Not_known")
    case True
    with Cons.IH [of w] show ?thesis by auto
  next
    case False
    let ?v = "if severity_rank s > severity_rank w then s else w"
    have "severity_rank w \<le> severity_rank ?v" "severity_rank s \<le> severity_rank ?v" by auto
    moreover have "worst_loop (s # ss) w True = worst_loop ss ?v True" using False by simp
    ultimately show ?thesis using Cons.IH [of ?v] by (auto intro: order_trans)
  qed
qed simp

lemma severity_rank_inj: "severity_rank a = severity_rank b \<longleftrightarrow> a = b"
  by (cases a; cases b) (simp_all add: severity_rank_def)

lemma severity_rank_known: "s \<noteq> Not_known \<Longrightarrow> 0 \<le> severity_rank s"
  by (cases s) (simp_all add: severity_rank_def)

section \<open>Counters are streaks\<close>

text \<open>
  The reference keeps the results seen so far, the latest first, and nothing else; a streak is the
  number of results at the head that satisfy a predicate.
\<close>

definition streak :: "(check_result \<Rightarrow> bool) \<Rightarrow> check_result list \<Rightarrow> nat" where
  "streak P rs = length (takeWhile P rs)"

lemma streak_simps [simp]:
  "streak P [] = 0" "streak P (r # rs) = (if P r then streak P rs + 1 else 0)"
  by (simp_all add: streak_def)

lemma streak_all: "streak P rs = n \<Longrightarrow> \<forall>r \<in> set (take n rs). P r"
  by (auto simp: streak_def dest: set_takeWhileD simp flip: takeWhile_eq_take)

lemma streak_ge: "list_all P (take n rs) \<Longrightarrow> n \<le> length rs \<Longrightarrow> n \<le> streak P rs"
proof (induction n arbitrary: rs)
  case (Suc n)
  then show ?case by (cases rs) auto
qed simp

definition settle :: "nat \<Rightarrow> nat \<Rightarrow> service_status \<Rightarrow> check_result list \<Rightarrow> service_status" where
  "settle failure recovery old rs =
     (case rs of [] \<Rightarrow> old
      | r # _ \<Rightarrow>
        if streak (\<lambda>x. x \<noteq> Good) rs \<ge> failure then
          if r = Bad \<or> (r = Slow \<and> old = Major_outage) then Major_outage else Degraded
        else if streak (\<lambda>x. x = Good) rs \<ge> recovery then Operational
        else if old = Not_known then
          (case r of Good \<Rightarrow> Operational | Slow \<Rightarrow> Degraded | Bad \<Rightarrow> Major_outage)
        else old)"

fun flap_status :: "nat \<Rightarrow> nat \<Rightarrow> check_result list \<Rightarrow> service_status" where
  "flap_status failure recovery [] = Not_known"
| "flap_status failure recovery (r # rs) = settle failure recovery (flap_status failure recovery rs) (r # rs)"

definition seen :: "check_outcome list \<Rightarrow> check_result list" where
  "seen ocs = rev (map result_of ocs)"

lemma apply_all_snoc: "apply_all (ocs @ [oc]) st = fst (apply_outcome oc (apply_all ocs st))"
  by (simp add: apply_all_def)

lemma apply_outcome_fields:
  "ss_failureThreshold (fst (apply_outcome oc st)) = ss_failureThreshold st"
  "ss_recoveryThreshold (fst (apply_outcome oc st)) = ss_recoveryThreshold st"
  "ss_bad (fst (apply_outcome oc st)) = (if result_of oc = Good then 0 else ss_bad st + 1)"
  "ss_good (fst (apply_outcome oc st)) = (if result_of oc = Good then ss_good st + 1 else 0)"
  "ss_status (fst (apply_outcome oc st)) = next_status (result_of oc) (count_result (result_of oc) st)"
  by (simp_all add: apply_outcome_def count_result_def Let_def)

lemma thresholds_fixed:
  "ss_failureThreshold (apply_all ocs st) = ss_failureThreshold st"
  "ss_recoveryThreshold (apply_all ocs st) = ss_recoveryThreshold st"
  by (induction ocs arbitrary: st) (simp_all add: apply_all_def apply_outcome_fields)

lemma apply_all_streaks:
  "ss_bad (apply_all ocs (new_state f r)) = streak (\<lambda>x. x \<noteq> Good) (seen ocs) \<and>
   ss_good (apply_all ocs (new_state f r)) = streak (\<lambda>x. x = Good) (seen ocs) \<and>
   ss_status (apply_all ocs (new_state f r)) = flap_status f r (seen ocs)"
proof (induction ocs rule: rev_induct)
  case Nil
  show ?case by (simp add: apply_all_def new_state_def seen_def)
next
  case (snoc oc ocs)
  let ?st = "apply_all ocs (new_state f r)"
  have th: "ss_failureThreshold ?st = f" "ss_recoveryThreshold ?st = r"
    by (simp_all add: thresholds_fixed new_state_def)
  have seen: "seen (ocs @ [oc]) = result_of oc # seen ocs" by (simp add: seen_def)
  show ?case using snoc th
    by (cases "result_of oc")
      (simp_all add: apply_all_snoc apply_outcome_fields seen count_result_def next_status_def settle_def)
qed

end
