(* ===== verification/Monitor.thy ===== *)
theory Monitor
  imports Status_Config Service_State
begin

text \<open>
  The check loop: \<open>src/src/lib/server/monitor/monitor.ts\<close> over the tables \<open>checks\<close> and \<open>incidents\<close>
  (\<open>store/checks.ts\<close>, \<open>store/incidents.ts\<close>, \<open>store/push.ts\<close>).  The event loop of the process is part of the
  state: the timeouts that are armed (\<open>mo_pending\<close>), which the \<open>timers\<close> map of the class only
  partly knows; the checks waiting in the queue; those woken by \<open>release\<close> whose continuation has
  not run yet; those that hold a slot and wait for the network.  What a check finds is an argument
  of the step that ends it.  The continuation of a woken check is a microtask, so no timeout fires
  before it has run.  A statement of a store is one step, and so is
  \<open>open\<close> of an incident, which reads and then inserts.
\<close>

section \<open>Checks and incidents\<close>

record check_row =
  ck_service_id :: string
  ck_ts :: ms
  ck_ok :: int
  ck_latency :: int
  ck_status :: string
  ck_detail :: "string option"

definition js_round :: "rat \<Rightarrow> int" where
  "js_round x = \<lfloor>x + 1 / 2\<rfloor>"

definition record_check ::
  "string \<Rightarrow> bool \<Rightarrow> rat \<Rightarrow> string \<Rightarrow> string option \<Rightarrow> ms \<Rightarrow> check_row list \<Rightarrow> check_row list" where
  "record_check i ok latency status detail now t =
     t @ [\<lparr> ck_service_id = i, ck_ts = now, ck_ok = (if ok then 1 else 0), ck_latency = js_round latency,
            ck_status = status, ck_detail = detail \<rparr>]"

definition checks_since :: "string \<Rightarrow> ms \<Rightarrow> check_row list \<Rightarrow> check_row list" where
  "checks_since i since t = order_by ck_ts (sel_where (\<lambda>r. ck_service_id r = i \<and> ck_ts r \<ge> since) t)"

definition latest_check :: "string \<Rightarrow> check_row list \<Rightarrow> check_row option" where
  "latest_check i t = limit_one (order_by_desc ck_ts (sel_where (\<lambda>r. ck_service_id r = i) t))"

definition uptime_fraction :: "string \<Rightarrow> ms \<Rightarrow> check_row list \<Rightarrow> rat option" where
  "uptime_fraction i since t =
     (let rs = sel_where (\<lambda>r. ck_service_id r = i \<and> ck_ts r \<ge> since) t in
      if rs = [] then None else Some (of_int (sum_list (map ck_ok rs)) / of_nat (length rs)))"

definition prune_checks :: "ms \<Rightarrow> check_row list \<Rightarrow> check_row list \<times> nat" where
  "prune_checks before t = (let P = (\<lambda>r. ck_ts r < before) in (del_where P t, n_where P t))"

record incident_row =
  ir_id :: nat
  ir_service_id :: string
  ir_severity :: string
  ir_title :: string
  ir_started_at :: ms
  ir_ended_at :: "ms option"

record update_row =
  ur_incident_id :: nat
  ur_at :: ms
  ur_message :: string
  ur_author :: "string option"

record incident_db =
  ic_rows :: "incident_row list"
  ic_seq :: nat
  ic_updates :: "update_row list"

definition open_row :: "string \<Rightarrow> incident_row \<Rightarrow> bool" where
  "open_row i r = (ir_service_id r = i \<and> ir_ended_at r = None)"

definition openFor :: "string \<Rightarrow> incident_db \<Rightarrow> incident_row option" where
  "openFor i d = limit_one (order_by_desc ir_started_at (sel_where (open_row i) (ic_rows d)))"

definition open_incident :: "string \<Rightarrow> string \<Rightarrow> string \<Rightarrow> ms \<Rightarrow> incident_db \<Rightarrow> incident_db \<times> nat" where
  "open_incident i severity title now d =
     (case openFor i d of
        Some existing \<Rightarrow> (d, ir_id existing)
      | None \<Rightarrow>
          (d\<lparr> ic_rows := ic_rows d @ [\<lparr> ir_id = ic_seq d + 1, ir_service_id = i, ir_severity = severity,
                 ir_title = title, ir_started_at = now, ir_ended_at = None \<rparr>],
              ic_seq := ic_seq d + 1 \<rparr>, ic_seq d + 1))"

definition close_incident :: "string \<Rightarrow> ms \<Rightarrow> incident_db \<Rightarrow> incident_db" where
  "close_incident i now d =
     d\<lparr> ic_rows := upd_where (open_row i) (\<lambda>r. r\<lparr> ir_ended_at := Some now \<rparr>) (ic_rows d) \<rparr>"

definition allOpen :: "incident_db \<Rightarrow> incident_row list" where
  "allOpen d = order_by_desc ir_started_at (sel_where (\<lambda>r. ir_ended_at r = None) (ic_rows d))"

definition recent_incidents :: "nat \<Rightarrow> incident_db \<Rightarrow> incident_row list" where
  "recent_incidents limit d =
     take limit (order_by_desc ir_started_at (sel_where (\<lambda>r. ir_ended_at r \<noteq> None) (ic_rows d)))"

definition incident_byId :: "nat \<Rightarrow> incident_db \<Rightarrow> incident_row option" where
  "incident_byId i d = first_where (\<lambda>r. ir_id r = i) (ic_rows d)"

definition resolve_incident :: "nat \<Rightarrow> ms \<Rightarrow> incident_db \<Rightarrow> incident_db \<times> bool" where
  "resolve_incident i now d =
     (let P = (\<lambda>r. ir_id r = i \<and> ir_ended_at r = None) in
      (d\<lparr> ic_rows := upd_where P (\<lambda>r. r\<lparr> ir_ended_at := Some now \<rparr>) (ic_rows d) \<rparr>, n_where P (ic_rows d) > 0))"

text \<open>An update refers to its incident: the insert fails when there is none, and goes with it.\<close>

definition addUpdate :: "nat \<Rightarrow> string \<Rightarrow> string option \<Rightarrow> ms \<Rightarrow> incident_db \<Rightarrow> incident_db option" where
  "addUpdate i message author now d =
     (if incident_byId i d = None then None
      else Some (d\<lparr> ic_updates := ic_updates d @
          [\<lparr> ur_incident_id = i, ur_at = now, ur_message = message, ur_author = author \<rparr>] \<rparr>))"

definition updatesFor :: "nat list \<Rightarrow> incident_db \<Rightarrow> nat \<Rightarrow> update_row list" where
  "updatesFor ids d i =
     filter (\<lambda>u. ur_incident_id u = i)
       (order_by_desc ur_at (sel_where (\<lambda>u. ur_incident_id u \<in> set ids) (ic_updates d)))"

definition pruneIncidents :: "ms \<Rightarrow> incident_db \<Rightarrow> incident_db" where
  "pruneIncidents before d =
     (let P = (\<lambda>r. sql_lt (ir_ended_at r) before); gone = map ir_id (sel_where P (ic_rows d)) in
      d\<lparr> ic_rows := del_where P (ic_rows d),
         ic_updates := del_where (\<lambda>u. ur_incident_id u \<in> set gone) (ic_updates d) \<rparr>)"

definition no_incidents :: incident_db where
  "no_incidents = \<lparr> ic_rows = [], ic_seq = 0, ic_updates = [] \<rparr>"

section \<open>Check-in beats\<close>

record push_beat =
  pb_service_id :: string
  pb_last_beat :: ms
  pb_beats :: nat
  pb_last_msg :: "string option"

definition beat :: "string \<Rightarrow> string option \<Rightarrow> ms \<Rightarrow> push_beat list \<Rightarrow> push_beat list" where
  "beat i msg now t =
     (if \<exists>b \<in> set t. pb_service_id b = i
      then upd_where (\<lambda>b. pb_service_id b = i)
             (\<lambda>b. b\<lparr> pb_last_beat := now, pb_beats := pb_beats b + 1, pb_last_msg := msg \<rparr>) t
      else t @ [\<lparr> pb_service_id = i, pb_last_beat = now, pb_beats = 1, pb_last_msg = msg \<rparr>])"

definition beat_info :: "string \<Rightarrow> push_beat list \<Rightarrow> push_beat option" where
  "beat_info i t = first_where (\<lambda>b. pb_service_id b = i) t"

definition lastBeat :: "string \<Rightarrow> push_beat list \<Rightarrow> ms option" where
  "lastBeat i t = map_option pb_last_beat (beat_info i t)"

definition prune_beats :: "string list \<Rightarrow> push_beat list \<Rightarrow> push_beat list" where
  "prune_beats validIds t = del_where (\<lambda>b. pb_service_id b \<notin> set validIds) t"

text \<open>The check-in token and its comparison; HMAC in hex is the parameter \<open>hmac\<close>.\<close>

definition pushToken :: "(string \<Rightarrow> string \<Rightarrow> string) \<Rightarrow> string \<Rightarrow> string \<Rightarrow> string" where
  "pushToken hmac secret i = take 32 (hmac secret (''push:'' @ i))"

definition tokenMatches :: "(string \<Rightarrow> string \<Rightarrow> string) \<Rightarrow> string \<Rightarrow> string \<Rightarrow> string \<Rightarrow> bool" where
  "tokenMatches hmac secret i candidate = (pushToken hmac secret i = candidate)"

section \<open>The monitor\<close>

record monitor =
  mo_config :: status_config
  mo_states :: "string \<Rightarrow> service_state option"
  mo_status :: "string \<Rightarrow> service_status option"
  mo_certDays :: "string \<Rightarrow> int option option"
  mo_timers :: "string \<Rightarrow> nat option"
  mo_pending :: "(nat \<times> service \<times> rat) list"
  mo_handle :: nat
  mo_inFlight :: int
  mo_queue :: "service list"
  mo_woken :: "service list"
  mo_running :: "service list"
  mo_stopped :: bool
  mo_checks :: "check_row list"
  mo_incidents :: incident_db

datatype mon_event = Ev_update | Ev_change | Ev_transition service service_status service_status

definition default_user_agent :: "status_config \<Rightarrow> string" where
  "default_user_agent c =
     (case mc_user_agent (cf_monitor c) of Some u \<Rightarrow> u
      | None \<Rightarrow> si_name (cf_site c) @ '' status (+'' @ or_default (si_url (cf_site c)) ''https://localhost'' @ '')'')"

definition fresh_state :: "status_config \<Rightarrow> service_state" where
  "fresh_state c = new_state (mc_failure_threshold (cf_monitor c)) (mc_recovery_threshold (cf_monitor c))"

definition track :: "status_config \<Rightarrow> service \<Rightarrow> monitor \<Rightarrow> monitor" where
  "track c s m = m\<lparr> mo_states := (mo_states m)(sv_id s \<mapsto> fresh_state c),
     mo_status := (mo_status m)(sv_id s \<mapsto> Not_known), mo_certDays := (mo_certDays m)(sv_id s \<mapsto> None) \<rparr>"

definition construct :: "status_config \<Rightarrow> check_row list \<Rightarrow> incident_db \<Rightarrow> monitor" where
  "construct c checks incidents = fold (track c) (cf_services c)
     \<lparr> mo_config = c, mo_states = Map.empty, mo_status = Map.empty, mo_certDays = Map.empty,
       mo_timers = Map.empty, mo_pending = [], mo_handle = 0, mo_inFlight = 0, mo_queue = [],
       mo_woken = [], mo_running = [], mo_stopped = False, mo_checks = checks, mo_incidents = incidents \<rparr>"

definition intervalMs :: "monitor \<Rightarrow> service \<Rightarrow> rat" where
  "intervalMs m s = or_default (sv_interval_seconds s)
     (of_int (mc_default_interval_seconds (cf_monitor (mo_config m)))) * 1000"

text \<open>\<open>random\<close> is the draw of \<open>Math.random()\<close> for a service.\<close>

definition jitteredDelay :: "(string \<Rightarrow> rat) \<Rightarrow> monitor \<Rightarrow> service \<Rightarrow> rat" where
  "jitteredDelay random m s = of_int \<lfloor>random (sv_id s) * min (intervalMs m s) 5000\<rfloor>"

definition schedule :: "service \<Rightarrow> rat \<Rightarrow> monitor \<Rightarrow> monitor" where
  "schedule s delay m =
     (if mo_stopped m then m
      else m\<lparr> mo_pending := mo_pending m @ [(mo_handle m, s, delay)],
              mo_timers := (mo_timers m)(sv_id s \<mapsto> mo_handle m), mo_handle := mo_handle m + 1 \<rparr>)"

definition prune_monitor :: "ms \<Rightarrow> monitor \<Rightarrow> monitor" where
  "prune_monitor now m =
     (let cutoff = now - mc_retention_days (cf_monitor (mo_config m)) * 86400000 in
      m\<lparr> mo_checks := fst (prune_checks cutoff (mo_checks m)),
         mo_incidents := pruneIncidents cutoff (mo_incidents m) \<rparr>)"

definition start_monitor :: "(string \<Rightarrow> rat) \<Rightarrow> ms \<Rightarrow> monitor \<Rightarrow> monitor" where
  "start_monitor random now m =
     (let m1 = m\<lparr> mo_stopped := False \<rparr>
      in prune_monitor now
           (fold (\<lambda>s x. schedule s (jitteredDelay random x s) x) (cf_services (mo_config m1)) m1))"

text \<open>
  \<open>timers\<close> holds a handle under the id of its service, so a timeout is cleared when the entry of its
  service is its own handle; an older timeout of the service is not.
\<close>

definition cleared :: "(string \<Rightarrow> nat option) \<Rightarrow> nat \<times> service \<times> rat \<Rightarrow> bool" where
  "cleared timers t = (case t of (h, s, _) \<Rightarrow> timers (sv_id s) = Some h)"

definition stop_monitor :: "monitor \<Rightarrow> monitor" where
  "stop_monitor m =
     m\<lparr> mo_stopped := True,
        mo_pending := filter (\<lambda>t. \<not> cleared (mo_timers m) t) (mo_pending m),
        mo_timers := Map.empty, mo_queue := [] \<rparr>"

definition forget :: "status_config \<Rightarrow> monitor \<Rightarrow> monitor" where
  "forget c m =
     (let keep = (\<lambda>i. i \<in> set (map sv_id (cf_services c)) \<or> mo_states m i = None) in
      m\<lparr> mo_states := (\<lambda>i. if keep i then mo_states m i else None),
         mo_status := (\<lambda>i. if keep i then mo_status m i else None),
         mo_certDays := (\<lambda>i. if keep i then mo_certDays m i else None) \<rparr>)"

definition reload :: "(string \<Rightarrow> rat) \<Rightarrow> ms \<Rightarrow> status_config \<Rightarrow> monitor \<Rightarrow> monitor" where
  "reload random now c m =
     (let m1 = forget c ((stop_monitor m)\<lparr> mo_config := c \<rparr>);
          m2 = fold (\<lambda>s x. if mo_states x (sv_id s) = None then track c s x else x) (cf_services c) m1
      in start_monitor random now m2)"

section \<open>The steps of the event loop\<close>

definition acquire :: "service \<Rightarrow> monitor \<Rightarrow> monitor" where
  "acquire s m =
     (if mo_inFlight m < int (mc_concurrency (cf_monitor (mo_config m)))
      then m\<lparr> mo_inFlight := mo_inFlight m + 1, mo_running := mo_running m @ [s] \<rparr>
      else m\<lparr> mo_queue := mo_queue m @ [s] \<rparr>)"

definition fire :: "nat \<Rightarrow> service \<Rightarrow> monitor \<Rightarrow> monitor" where
  "fire h s m = acquire s (m\<lparr> mo_pending := filter (\<lambda>(k, _, _). k \<noteq> h) (mo_pending m) \<rparr>)"

definition resume :: "service \<Rightarrow> service list \<Rightarrow> monitor \<Rightarrow> monitor" where
  "resume s rest m =
     m\<lparr> mo_woken := rest, mo_inFlight := mo_inFlight m + 1, mo_running := mo_running m @ [s] \<rparr>"

definition release_slot :: "monitor \<Rightarrow> monitor" where
  "release_slot m =
     (let m1 = m\<lparr> mo_inFlight := mo_inFlight m - 1 \<rparr> in
      case mo_queue m1 of [] \<Rightarrow> m1
      | s # rest \<Rightarrow> m1\<lparr> mo_queue := rest, mo_woken := mo_woken m1 @ [s] \<rparr>)"

definition is_down :: "service_status \<Rightarrow> bool" where
  "is_down st = (st = Major_outage \<or> st = Partial_outage \<or> st = Degraded)"

definition was_down :: "service_status option \<Rightarrow> bool" where
  "was_down st = (case st of None \<Rightarrow> False | Some x \<Rightarrow> is_down x)"

definition onTransition ::
  "ms \<Rightarrow> service \<Rightarrow> service_status \<Rightarrow> monitor \<Rightarrow> monitor \<times> mon_event list" where
  "onTransition now s next m =
     (let prev = mo_status m (sv_id s);
          m1 = m\<lparr> mo_status := (mo_status m)(sv_id s \<mapsto> next) \<rparr>;
          m2 = (if \<not> was_down prev \<and> is_down next then
                  m1\<lparr> mo_incidents := fst (open_incident (sv_id s)
                        (if next = Degraded then ''minor'' else ''major'')
                        (sv_name s @ '' is '' @ (if next = Degraded then ''degraded'' else ''down''))
                        now (mo_incidents m1)) \<rparr>
                else if was_down prev \<and> \<not> is_down next then
                  m1\<lparr> mo_incidents := close_incident (sv_id s) now (mo_incidents m1) \<rparr>
                else m1)
      in (m2, [Ev_transition s (or_default prev Not_known) next, Ev_change]))"

definition check_status :: "check_outcome \<Rightarrow> string" where
  "check_status oc = (if co_ok oc then if co_degraded oc then ''degraded'' else ''up'' else ''down'')"

text \<open>The part of \<open>runOne\<close> after the check has answered.\<close>

definition settle_check :: "ms \<Rightarrow> service \<Rightarrow> check_outcome \<Rightarrow> monitor \<Rightarrow> monitor \<times> mon_event list" where
  "settle_check now s oc m =
     (let m1 = m\<lparr> mo_checks := record_check (sv_id s) (co_ok oc) (co_latencyMs oc) (check_status oc)
                     (co_detail oc) now (mo_checks m) \<rparr>;
          m2 = (case co_certDays oc of None \<Rightarrow> m1
                | Some d \<Rightarrow> m1\<lparr> mo_certDays := (mo_certDays m1)(sv_id s \<mapsto> Some d) \<rparr>)
      in case mo_states m2 (sv_id s) of
           None \<Rightarrow> (m2, [Ev_update])
         | Some st \<Rightarrow>
             (let (st', changed) = apply_outcome oc st;
                  m3 = m2\<lparr> mo_states := (mo_states m2)(sv_id s \<mapsto> st') \<rparr>
              in case changed of
                   None \<Rightarrow> (m3, [Ev_update])
                 | Some next \<Rightarrow> (let (m4, evs) = onTransition now s next m3 in (m4, evs @ [Ev_update]))))"

text \<open>
  How a check ends: with an outcome, or crashed (\<open>None\<close>), which only leaves a line in the log; then
  the slot is given back and the next run of the service is scheduled.
\<close>

definition run_end :: "ms \<Rightarrow> service \<Rightarrow> check_outcome option \<Rightarrow> monitor \<Rightarrow> monitor \<times> mon_event list" where
  "run_end now s result m =
     (let (m1, evs) = (case result of None \<Rightarrow> (m, []) | Some oc \<Rightarrow> settle_check now s oc m);
          m2 = release_slot (m1\<lparr> mo_running := remove1 s (mo_running m1) \<rparr>)
      in (schedule s (intervalMs m2 s) m2, evs))"

inductive mon_step :: "monitor \<Rightarrow> monitor \<Rightarrow> bool" where
  timeout: "(h, s, d) \<in> set (mo_pending m) \<Longrightarrow> mo_woken m = [] \<Longrightarrow> mon_step m (fire h s m)"
| continue: "mo_woken m = s # rest \<Longrightarrow> mon_step m (resume s rest m)"
| checked: "s \<in> set (mo_running m) \<Longrightarrow> mon_step m (fst (run_end now s result m))"
| hourly: "mon_step m (prune_monitor now m)"

text \<open>What the process does at boot: the first \<open>apply\<close> reloads, then \<open>start\<close> is called again.\<close>

definition boot_monitor ::
  "(string \<Rightarrow> rat) \<Rightarrow> (string \<Rightarrow> rat) \<Rightarrow> ms \<Rightarrow> status_config \<Rightarrow> check_row list \<Rightarrow> incident_db \<Rightarrow> monitor" where
  "boot_monitor random1 random2 now c checks incidents =
     start_monitor random2 now (reload random1 now c (construct c checks incidents))"

end
