(* ===== verification/Monitor_Inv.thy ===== *)
theory Monitor_Inv
  imports Monitor
begin

text \<open>
  Invariants of the check loop: the slots of the semaphore, the loops of a service (its armed
  timeout, its place in the queue or its running check), and the incidents.
\<close>

section \<open>Slots and loops\<close>

definition concurrency :: "monitor \<Rightarrow> nat" where
  "concurrency m = mc_concurrency (cf_monitor (mo_config m))"

definition slots_ok :: "nat \<Rightarrow> monitor \<Rightarrow> bool" where
  "slots_ok k m =
     (mo_inFlight m = int (length (mo_running m)) \<and>
      length (mo_running m) + length (mo_woken m) \<le> k \<and> concurrency m \<le> k \<and>
      (mo_queue m \<noteq> [] \<longrightarrow> concurrency m \<le> length (mo_running m) + length (mo_woken m)))"

definition handles_ok :: "monitor \<Rightarrow> bool" where
  "handles_ok m = (distinct (map fst (mo_pending m)) \<and> (\<forall>h \<in> set (map fst (mo_pending m)). h < mo_handle m))"

definition tasks :: "monitor \<Rightarrow> service list" where
  "tasks m = map (\<lambda>(h, s, d). s) (mo_pending m) @ mo_queue m @ mo_woken m @ mo_running m"

definition loops :: "string \<Rightarrow> monitor \<Rightarrow> nat" where
  "loops i m = length (filter (\<lambda>s. sv_id s = i) (tasks m))"

definition orphans :: "string \<Rightarrow> monitor \<Rightarrow> nat" where
  "orphans i m = length (filter (\<lambda>s. sv_id s = i)
     (map (\<lambda>(h, s, d). s) (filter (\<lambda>t. \<not> cleared (mo_timers m) t) (mo_pending m)) @
      mo_woken m @ mo_running m))"

abbreviation matches :: "string \<Rightarrow> service list \<Rightarrow> nat" where
  "matches i ss \<equiv> length (filter (\<lambda>s. sv_id s = i) ss)"

lemma loops_parts:
  "loops i m = matches i (map (\<lambda>(h, s, d). s) (mo_pending m)) + matches i (mo_queue m) +
     matches i (mo_woken m) + matches i (mo_running m)"
  by (simp add: loops_def tasks_def)

text \<open>The stores and the status maps are no part of the loop; only these fields are.\<close>

definition same_loop :: "monitor \<Rightarrow> monitor \<Rightarrow> bool" where
  "same_loop m m' =
     (mo_pending m' = mo_pending m \<and> mo_queue m' = mo_queue m \<and> mo_woken m' = mo_woken m \<and>
      mo_running m' = mo_running m \<and> mo_inFlight m' = mo_inFlight m \<and> mo_handle m' = mo_handle m \<and>
      mo_stopped m' = mo_stopped m \<and> mo_config m' = mo_config m \<and> mo_timers m' = mo_timers m)"

lemma same_loopD:
  assumes "same_loop m m'"
  shows "slots_ok k m' = slots_ok k m" "handles_ok m' = handles_ok m" "loops i m' = loops i m"
    "mo_stopped m' = mo_stopped m" "concurrency m' = concurrency m"
  using assms by (simp_all add: same_loop_def slots_ok_def handles_ok_def loops_def tasks_def concurrency_def)

lemma onTransition_loop: "same_loop m (fst (onTransition now s next m))"
  by (simp add: onTransition_def Let_def same_loop_def)

lemma same_loop_refl [simp]: "same_loop m m"
  by (simp add: same_loop_def)

lemma same_loop_trans: "same_loop a b \<Longrightarrow> same_loop b c \<Longrightarrow> same_loop a c"
  by (simp add: same_loop_def)

lemma settle_check_loop: "same_loop m (fst (settle_check now s oc m))"
proof -
  define m1 where "m1 = m\<lparr> mo_checks := record_check (sv_id s) (co_ok oc) (co_latencyMs oc) (check_status oc)
                     (co_detail oc) now (mo_checks m) \<rparr>"
  define m2 where "m2 = (case co_certDays oc of None \<Rightarrow> m1
                | Some d \<Rightarrow> m1\<lparr> mo_certDays := (mo_certDays m1)(sv_id s \<mapsto> Some d) \<rparr>)"
  have m2: "same_loop m m2"
    by (simp add: m2_def m1_def same_loop_def split: option.splits)
  have "same_loop m2 (fst (settle_check now s oc m))"
  proof (cases "mo_states m2 (sv_id s)")
    case None
    then have "settle_check now s oc m = (m2, [Ev_update])"
      unfolding settle_check_def Let_def m1_def [symmetric] m2_def [symmetric] by simp
    then show ?thesis by simp
  next
    case (Some st)
    obtain st' ch where a: "apply_outcome oc st = (st', ch)" by (cases "apply_outcome oc st")
    define m3 where "m3 = m2\<lparr> mo_states := (mo_states m2)(sv_id s \<mapsto> st') \<rparr>"
    have m3: "same_loop m2 m3" by (simp add: m3_def same_loop_def)
    have "fst (settle_check now s oc m) = (case ch of None \<Rightarrow> m3 | Some next \<Rightarrow> fst (onTransition now s next m3))"
      unfolding settle_check_def Let_def m1_def [symmetric] m2_def [symmetric]
      by (simp add: Some a m3_def split: option.splits prod.splits)
    then show ?thesis using m3 onTransition_loop [of m3 now s] same_loop_trans
      by (auto split: option.splits)
  qed
  with m2 show ?thesis by (rule same_loop_trans)
qed

lemma run_end_before:
  obtains m1 where "same_loop m m1"
    "fst (run_end now s result m) =
       (let m2 = release_slot (m1\<lparr> mo_running := remove1 s (mo_running m1) \<rparr>) in schedule s (intervalMs m2 s) m2)"
    "m1 = (case result of None \<Rightarrow> m | Some oc \<Rightarrow> fst (settle_check now s oc m))"
proof (cases result)
  case None
  show ?thesis by (rule that [of m]) (simp_all add: None run_end_def Let_def)
next
  case (Some oc)
  show ?thesis
    by (rule that [of "fst (settle_check now s oc m)"])
      (simp_all add: Some run_end_def Let_def settle_check_loop split: prod.splits)
qed

section \<open>Every step keeps them\<close>

lemma matches_remove1:
  "s \<in> set ss \<Longrightarrow> matches i ss = matches i (remove1 s ss) + (if sv_id s = i then 1 else 0)"
  by (induction ss) auto

lemma matches_pending:
  assumes "distinct (map fst p)" "(h, s, d) \<in> set p"
  shows "matches i (map (\<lambda>(h, s, d). s) p) =
    matches i (map (\<lambda>(h, s, d). s) (filter (\<lambda>(k, _, _). k \<noteq> h) p)) + (if sv_id s = i then 1 else 0)"
  using assms
proof (induction p)
  case (Cons x p)
  obtain h' s' d' where x: "x = (h', s', d')" by (cases x)
  show ?case
  proof (cases "h' = h")
    case True
    then have "filter (\<lambda>(k, _, _). k \<noteq> h) p = p" using Cons.prems(1) x
      by (auto simp: filter_id_conv image_iff)
    moreover have "s' = s" using Cons.prems True x by (force simp: image_iff)
    ultimately have f: "filter (\<lambda>(k, _, _). k \<noteq> h) (x # p) = p" and "s' = s" using True x by auto
    show ?thesis unfolding f using \<open>s' = s\<close> x by simp
  next
    case False
    with Cons x show ?thesis by auto
  qed
qed simp

definition loop_inv :: "nat \<Rightarrow> monitor \<Rightarrow> bool" where
  "loop_inv k m = (slots_ok k m \<and> handles_ok m \<and> \<not> mo_stopped m)"

lemma same_loop_inv: "same_loop m m' \<Longrightarrow> loop_inv k m' = loop_inv k m"
  by (simp add: loop_inv_def same_loopD)

lemma fire_inv:
  assumes "loop_inv k m" "(h, s, d) \<in> set (mo_pending m)" "mo_woken m = []"
  shows "loop_inv k (fire h s m) \<and> loops i (fire h s m) = loops i m"
proof -
  have "handles_ok (fire h s m)" using assms(1)
    by (auto simp: loop_inv_def handles_ok_def fire_def acquire_def distinct_map_filter)
  moreover have "loops i (fire h s m) = loops i m"
    using matches_pending [OF _ assms(2), of i] assms(1)
    by (simp add: loop_inv_def handles_ok_def loops_parts fire_def acquire_def)
  ultimately show ?thesis using assms(1,3)
    by (auto simp: loop_inv_def slots_ok_def fire_def acquire_def concurrency_def)
qed

lemma resume_inv:
  assumes "loop_inv k m" "mo_woken m = s # rest"
  shows "loop_inv k (resume s rest m) \<and> loops i (resume s rest m) = loops i m"
  using assms by (auto simp: loop_inv_def slots_ok_def handles_ok_def resume_def concurrency_def loops_parts)

lemma schedule_inv:
  assumes "loop_inv k m"
  shows "loop_inv k (schedule s d m) \<and> loops i (schedule s d m) = loops i m + (if sv_id s = i then 1 else 0)"
  using assms by (auto simp: loop_inv_def slots_ok_def handles_ok_def schedule_def concurrency_def loops_parts)

lemma checked_inv:
  assumes "loop_inv k m" "s \<in> set (mo_running m)"
  shows "loop_inv k (fst (run_end now s result m)) \<and> loops i (fst (run_end now s result m)) = loops i m"
proof -
  obtain m1 where m1: "same_loop m m1"
    and e: "fst (run_end now s result m) =
       (let m2 = release_slot (m1\<lparr> mo_running := remove1 s (mo_running m1) \<rparr>) in schedule s (intervalMs m2 s) m2)"
    by (rule run_end_before)
  define m2 where "m2 = release_slot (m1\<lparr> mo_running := remove1 s (mo_running m1) \<rparr>)"
  have s: "s \<in> set (mo_running m1)" using assms(2) m1 by (simp add: same_loop_def)
  then have len: "length (mo_running m1) = length (remove1 s (mo_running m1)) + 1"
    using length_pos_if_in_set [OF s] by (simp add: length_remove1)
  have inv1: "loop_inv k m1" using assms(1) same_loop_inv [OF m1] by simp
  have pos: "mo_inFlight m1 - 1 = int (length (remove1 s (mo_running m1)))"
    using inv1 len by (simp add: loop_inv_def slots_ok_def)
  have "slots_ok k m2"
  proof (cases "mo_queue m1")
    case Nil
    then show ?thesis using inv1 len pos
      by (simp add: m2_def release_slot_def Let_def loop_inv_def slots_ok_def concurrency_def)
  next
    case (Cons t rest)
    then show ?thesis using inv1 len pos
      by (simp add: m2_def release_slot_def Let_def loop_inv_def slots_ok_def concurrency_def)
  qed
  moreover have "handles_ok m2" "\<not> mo_stopped m2" using inv1
    by (simp_all add: m2_def release_slot_def Let_def loop_inv_def handles_ok_def split: list.splits)
  ultimately have "loop_inv k m2" by (simp add: loop_inv_def)
  moreover have "loops i m = loops i m2 + (if sv_id s = i then 1 else 0)"
    using matches_remove1 [OF s, of i] same_loopD(3) [OF m1, of i]
    by (cases "mo_queue m1") (auto simp: m2_def release_slot_def Let_def loops_parts split: if_splits)
  ultimately show ?thesis using schedule_inv [of k m2 s "intervalMs m2 s" i] e unfolding m2_def Let_def by simp
qed

lemma prune_loop: "same_loop m (prune_monitor now m)"
  by (simp add: prune_monitor_def Let_def same_loop_def)

lemma mon_step_inv:
  assumes "mon_step m m'" "loop_inv k m"
  shows "loop_inv k m' \<and> loops i m' = loops i m"
  using assms
proof cases
  case (timeout h s d)
  then show ?thesis using fire_inv assms(2) by simp
next
  case (continue s rest)
  then show ?thesis using resume_inv assms(2) by simp
next
  case (checked s now result)
  then show ?thesis using checked_inv assms(2) by simp
next
  case (hourly now)
  then show ?thesis using prune_loop same_loop_inv same_loopD(3) assms(2) by metis
qed

lemma mon_run_inv:
  assumes "mon_step\<^sup>*\<^sup>* m m'" "loop_inv k m"
  shows "loop_inv k m' \<and> loops i m' = loops i m"
  using assms by (induction rule: rtranclp_induct) (use mon_step_inv in auto)

section \<open>Starting, stopping and reloading\<close>

lemma schedule_all_inv:
  assumes "slots_ok k m" "handles_ok m" "\<not> mo_stopped m"
  shows "loop_inv k (fold (\<lambda>s x. schedule s (f x s) x) ss m) \<and>
    loops i (fold (\<lambda>s x. schedule s (f x s) x) ss m) = loops i m + matches i ss"
  using assms
proof (induction ss arbitrary: m)
  case Nil
  then show ?case by (simp add: loop_inv_def)
next
  case (Cons s ss)
  then have "loop_inv k m" by (simp add: loop_inv_def)
  note one = schedule_inv [OF this, of s "f m s"]
  with Cons.IH [of "schedule s (f m s) m"] show ?case by (simp add: loop_inv_def)
qed

lemma matches_distinct:
  "distinct (map sv_id ss) \<Longrightarrow> matches i ss = (if i \<in> set (map sv_id ss) then 1 else 0)"
proof (induction ss)
  case (Cons s ss)
  then show ?case by (cases "sv_id s = i") (auto simp: filter_empty_conv)
qed simp

lemma start_inv:
  assumes "slots_ok k m" "handles_ok m" "distinct (map sv_id (cf_services (mo_config m)))"
  shows "loop_inv k (start_monitor random now m) \<and>
    loops i (start_monitor random now m) =
      loops i m + (if i \<in> set (map sv_id (cf_services (mo_config m))) then 1 else 0)"
proof -
  let ?m = "m\<lparr> mo_stopped := False \<rparr>"
  let ?s = "fold (\<lambda>s x. schedule s (jitteredDelay random x s) x) (cf_services (mo_config m)) ?m"
  have e: "start_monitor random now m = prune_monitor now ?s" by (simp add: start_monitor_def)
  have "slots_ok k ?m" "handles_ok ?m" "loops i ?m = loops i m" "\<not> mo_stopped ?m"
    using assms by (simp_all add: slots_ok_def handles_ok_def loops_parts concurrency_def)
  from schedule_all_inv [OF this(1,2,4), of "\<lambda>x s. jitteredDelay random x s" "cf_services (mo_config m)" i] this(3)
  have "loop_inv k ?s \<and> loops i ?s = loops i m + matches i (cf_services (mo_config m))" by simp
  then show ?thesis using same_loop_inv [OF prune_loop [of ?s now]] same_loopD(3) [OF prune_loop [of ?s now]]
      matches_distinct [OF assms(3)] unfolding e by simp
qed

lemma stop_loops:
  assumes "slots_ok k m" "handles_ok m"
  shows "slots_ok k (stop_monitor m)" "handles_ok (stop_monitor m)" "loops i (stop_monitor m) = orphans i m"
proof -
  show "slots_ok k (stop_monitor m)" using assms by (simp add: slots_ok_def stop_monitor_def concurrency_def)
  show "handles_ok (stop_monitor m)" using assms
    by (auto simp: handles_ok_def stop_monitor_def distinct_map_filter)
  show "loops i (stop_monitor m) = orphans i m"
    by (simp add: loops_parts orphans_def stop_monitor_def)
qed

lemma track_loop: "same_loop m (track c s m)"
  by (simp add: track_def same_loop_def)

lemma fold_track_loop: "same_loop m (fold (\<lambda>s x. if P x s then track c s x else x) ss m)"
proof (induction ss arbitrary: m)
  case (Cons s ss)
  have "same_loop m (if P m s then track c s m else m)" by (simp add: track_loop)
  from same_loop_trans [OF this Cons.IH] show ?case by simp
qed simp

lemma reload_inv:
  assumes "slots_ok k m" "handles_ok m" "distinct (map sv_id (cf_services c))" "mc_concurrency (cf_monitor c) \<le> k"
  shows "loop_inv k (reload random now c m) \<and>
    loops i (reload random now c m) = orphans i m + (if i \<in> set (map sv_id (cf_services c)) then 1 else 0)"
proof -
  define m1 where "m1 = forget c ((stop_monitor m)\<lparr> mo_config := c \<rparr>)"
  define m2 where "m2 = fold (\<lambda>s x. if mo_states x (sv_id s) = None then track c s x else x) (cf_services c) m1"
  have e: "reload random now c m = start_monitor random now m2" by (simp add: reload_def m1_def m2_def Let_def)
  have q: "mo_queue (stop_monitor m) = []" by (simp add: stop_monitor_def)
  have "slots_ok k m1" using stop_loops(1) [OF assms(1,2)] assms(4) q
    by (simp add: m1_def slots_ok_def forget_def Let_def concurrency_def)
  moreover have "handles_ok m1" using stop_loops(2) [OF assms(1,2)]
    by (simp add: m1_def handles_ok_def forget_def Let_def)
  moreover have "loops i m1 = orphans i m" using stop_loops(3) [OF assms(1,2), of i]
    by (simp add: m1_def forget_def Let_def loops_parts)
  moreover have l: "same_loop m1 m2" unfolding m2_def by (rule fold_track_loop)
  moreover have "mo_config m1 = c" by (simp add: m1_def forget_def Let_def)
  then have cfg: "mo_config m2 = c" using l by (simp add: same_loop_def)
  ultimately have m2: "slots_ok k m2" "handles_ok m2" "loops i m2 = orphans i m"
    by (simp_all add: same_loopD [OF l])
  have "distinct (map sv_id (cf_services (mo_config m2)))" using assms(3) cfg by simp
  from start_inv [OF m2(1,2) this, of random now i] m2(3) cfg e show ?thesis by simp
qed

lemma construct_loop:
  "mo_pending (construct c ch d) = []" "mo_queue (construct c ch d) = []" "mo_woken (construct c ch d) = []"
  "mo_running (construct c ch d) = []" "mo_inFlight (construct c ch d) = 0" "mo_config (construct c ch d) = c"
  "mo_timers (construct c ch d) = Map.empty"
proof -
  let ?m = "\<lparr> mo_config = c, mo_states = Map.empty, mo_status = Map.empty, mo_certDays = Map.empty,
       mo_timers = Map.empty, mo_pending = [], mo_handle = 0, mo_inFlight = 0, mo_queue = [],
       mo_woken = [], mo_running = [], mo_stopped = False, mo_checks = ch, mo_incidents = d \<rparr>"
  have "same_loop ?m (construct c ch d)"
    using fold_track_loop [of ?m "\<lambda>_ _. True" c "cf_services c"]
    unfolding construct_def by simp
  then show "mo_pending (construct c ch d) = []" "mo_queue (construct c ch d) = []" "mo_woken (construct c ch d) = []"
    "mo_running (construct c ch d) = []" "mo_inFlight (construct c ch d) = 0" "mo_config (construct c ch d) = c"
    "mo_timers (construct c ch d) = Map.empty"
    by (simp_all add: same_loop_def)
qed

lemma construct_inv:
  "slots_ok (mc_concurrency (cf_monitor c)) (construct c ch d)" "handles_ok (construct c ch d)"
  "loops i (construct c ch d) = 0" "orphans i (construct c ch d) = 0"
  by (simp_all add: slots_ok_def handles_ok_def loops_parts orphans_def construct_loop concurrency_def)

section \<open>A run to look at\<close>

definition demo_outcome :: "bool \<Rightarrow> bool \<Rightarrow> check_outcome" where
  "demo_outcome ok slow = \<lparr> co_ok = ok, co_degraded = slow, co_latencyMs = 12, co_detail = None, co_certDays = None \<rparr>"

definition demo_service :: service where
  "demo_service = \<lparr> sv_id = ''web'', sv_name = ''Web'', sv_group = ''General'', sv_description = None,
     sv_type = ''tcp'', sv_cert_warn_days = None, sv_interval_seconds = None, sv_timeout_ms = None, sv_degraded_ms = None \<rparr>"

definition demo_site :: site_config where
  "demo_site = \<lparr> si_name = ''Site'', si_title = None, si_description = [], si_url = None, si_logo_url = None,
     si_accent = ''#d9a648'', si_og_title = [], si_og_description = [], si_og_image = [], si_twitter_site = [],
     si_robots = ''index'', si_announcement = None, si_announcement_severity = ''info'' \<rparr>"

definition demo_config :: status_config where
  "demo_config = \<lparr> cf_site = demo_site, cf_refresh_seconds = 30, cf_history_days = 90,
     cf_monitor = \<lparr> mc_concurrency = 1, mc_user_agent = None, mc_default_interval_seconds = 60,
       mc_default_timeout_ms = 10000, mc_default_degraded_ms = 1500, mc_failure_threshold = 2,
       mc_recovery_threshold = 2, mc_retention_days = 400, mc_cert_warn_days = 14, mc_allow_link_local = False \<rparr>,
     cf_services = [demo_service], cf_incidents = [], cf_maintenance = [], cf_pages = [], cf_links = [], cf_slos = [] \<rparr>"

definition demo_boot :: monitor where
  "demo_boot = boot_monitor (\<lambda>_. 0) (\<lambda>_. 0) 0 demo_config [] no_incidents"

definition demo_failed :: monitor where
  "demo_failed = fst (run_end 5 demo_service (Some (demo_outcome False False)) (fire 0 demo_service demo_boot))"

lemma demo_boot_fields:
  "mo_pending demo_boot = [(0, demo_service, 0), (1, demo_service, 0)]" "mo_woken demo_boot = []"
  "mo_running (fire 0 demo_service demo_boot) = [demo_service]"
  "mo_running demo_boot = []" "mo_inFlight demo_boot = 0" "mo_config demo_boot = demo_config"
  by code_simp+

lemma demo_steps: "mon_step\<^sup>*\<^sup>* demo_boot demo_failed"
proof -
  have "mon_step demo_boot (fire 0 demo_service demo_boot)"
    by (rule mon_step.timeout [of _ _ 0]) (simp_all add: demo_boot_fields)
  moreover have "mon_step (fire 0 demo_service demo_boot) demo_failed"
    unfolding demo_failed_def by (rule mon_step.checked) (simp add: demo_boot_fields)
  ultimately show ?thesis by auto
qed

end
