(* ===== verification/Monitor_Props.thy ===== *)
theory Monitor_Props
  imports Monitor_Inv
begin

text \<open>
  Properties of the monitor: the public status as a function of the results so far, the slots of
  the check loop, the number of loops a service has, and the incidents that follow the status.
\<close>

section \<open>The status is a function of the results\<close>

text \<open>
  A run of the monitor, with reloads of the configuration, and what of it decides a status: the results
  and the configurations loaded, in their order.
\<close>

datatype mon_log = Log_result service check_outcome | Log_config status_config

inductive mon_run :: "monitor \<Rightarrow> mon_log list \<Rightarrow> monitor \<Rightarrow> bool" for m where
  start: "mon_run m [] m"
| timeout: "mon_run m tr a \<Longrightarrow> (h, s, d) \<in> set (mo_pending a) \<Longrightarrow> mo_woken a = [] \<Longrightarrow> mon_run m tr (fire h s a)"
| continue: "mon_run m tr a \<Longrightarrow> mo_woken a = s # rest \<Longrightarrow> mon_run m tr (resume s rest a)"
| crashed: "mon_run m tr a \<Longrightarrow> s \<in> set (mo_running a) \<Longrightarrow> mon_run m tr (fst (run_end now s None a))"
| checked: "mon_run m tr a \<Longrightarrow> s \<in> set (mo_running a) \<Longrightarrow>
    mon_run m (tr @ [Log_result s oc]) (fst (run_end now s (Some oc) a))"
| hourly: "mon_run m tr a \<Longrightarrow> mon_run m tr (prune_monitor now a)"
| reloaded: "mon_run m tr a \<Longrightarrow> mon_run m (tr @ [Log_config c]) (reload random now c a)"

text \<open>
  The results of a service since it was last added, with the configuration that added it; \<open>None\<close> while
  it is not configured.
\<close>

fun since_added :: "string \<Rightarrow> mon_log \<Rightarrow> (status_config \<times> check_outcome list) option
     \<Rightarrow> (status_config \<times> check_outcome list) option" where
  "since_added i (Log_result s oc) h = (if sv_id s = i then map_option (\<lambda>(c, ocs). (c, ocs @ [oc])) h else h)"
| "since_added i (Log_config c) h =
     (if i \<in> set (map sv_id (cf_services c)) then (case h of None \<Rightarrow> Some (c, []) | Some x \<Rightarrow> Some x) else None)"

definition history_of :: "string \<Rightarrow> status_config \<Rightarrow> mon_log list \<Rightarrow> (status_config \<times> check_outcome list) option" where
  "history_of i c tr = fold (since_added i) (Log_config c # tr) None"

definition same_view :: "monitor \<Rightarrow> monitor \<Rightarrow> bool" where
  "same_view m m' = (mo_states m' = mo_states m \<and> mo_status m' = mo_status m \<and> mo_incidents m' = mo_incidents m)"

lemma schedule_view: "same_view m (schedule s d m)"
  by (simp add: same_view_def schedule_def)

lemma release_view: "same_view m (release_slot (m\<lparr> mo_running := r \<rparr>))"
  by (simp add: same_view_def release_slot_def Let_def split: list.splits)

lemma same_view_trans: "same_view a b \<Longrightarrow> same_view b c \<Longrightarrow> same_view a c"
  by (simp add: same_view_def)

lemma run_end_view:
  "same_view (case result of None \<Rightarrow> m | Some oc \<Rightarrow> fst (settle_check now s oc m)) (fst (run_end now s result m))"
proof -
  obtain m1 where e: "fst (run_end now s result m) =
       (let m2 = release_slot (m1\<lparr> mo_running := remove1 s (mo_running m1) \<rparr>) in schedule s (intervalMs m2 s) m2)"
    and m1: "m1 = (case result of None \<Rightarrow> m | Some oc \<Rightarrow> fst (settle_check now s oc m))"
    by (rule run_end_before)
  show ?thesis unfolding e Let_def m1 [symmetric]
    by (rule same_view_trans [OF release_view schedule_view])
qed

lemma fire_view: "same_view m (fire h s m)"
  by (simp add: same_view_def fire_def acquire_def)

lemma resume_view: "same_view m (resume s rest m)"
  by (simp add: same_view_def resume_def)

definition shown :: "monitor \<Rightarrow> string \<Rightarrow> service_state \<Rightarrow> bool" where
  "shown m i st = (mo_states m i = Some st \<and> mo_status m i = Some (ss_status st))"

lemma shown_view: "same_view m m' \<Longrightarrow> shown m' i st = shown m i st"
  by (simp add: same_view_def shown_def)

lemma onTransition_view:
  "mo_states (fst (onTransition now s next m)) = mo_states m"
  "mo_status (fst (onTransition now s next m)) = (mo_status m)(sv_id s \<mapsto> next)"
  by (simp_all add: onTransition_def Let_def)

lemma apply_outcome_changed:
  "apply_outcome oc st = (st', ch) \<Longrightarrow>
     (case ch of None \<Rightarrow> ss_status st' = ss_status st | Some n \<Rightarrow> n = ss_status st' \<and> n \<noteq> ss_status st)"
  by (auto simp: apply_outcome_def Let_def count_result_def split: if_splits)

lemma settle_check_shown:
  assumes "shown m i st"
  shows "shown (fst (settle_check now s oc m)) i (if sv_id s = i then fst (apply_outcome oc st) else st)"
proof -
  define m1 where "m1 = m\<lparr> mo_checks := record_check (sv_id s) (co_ok oc) (co_latencyMs oc) (check_status oc)
                     (co_detail oc) now (mo_checks m) \<rparr>"
  define m2 where "m2 = (case co_certDays oc of None \<Rightarrow> m1
                | Some d \<Rightarrow> m1\<lparr> mo_certDays := (mo_certDays m1)(sv_id s \<mapsto> Some d) \<rparr>)"
  have m2: "shown m2 i st" using assms by (simp add: m2_def m1_def shown_def split: option.splits)
  show ?thesis
  proof (cases "mo_states m2 (sv_id s)")
    case None
    then have "settle_check now s oc m = (m2, [Ev_update])" "sv_id s \<noteq> i"
      using m2 unfolding settle_check_def Let_def m1_def [symmetric] m2_def [symmetric]
      by (auto simp: shown_def)
    with m2 show ?thesis by simp
  next
    case (Some st0)
    obtain st' ch where a: "apply_outcome oc st0 = (st', ch)" by (cases "apply_outcome oc st0")
    define m3 where "m3 = m2\<lparr> mo_states := (mo_states m2)(sv_id s \<mapsto> st') \<rparr>"
    have r: "fst (settle_check now s oc m) = (case ch of None \<Rightarrow> m3 | Some next \<Rightarrow> fst (onTransition now s next m3))"
      unfolding settle_check_def Let_def m1_def [symmetric] m2_def [symmetric]
      by (simp add: Some a m3_def split: option.splits prod.splits)
    have st0: "st0 = st" if "sv_id s = i" using m2 Some that by (simp add: shown_def)
    show ?thesis unfolding r using m2 apply_outcome_changed [OF a] st0 a
      by (cases ch) (auto simp: shown_def m3_def onTransition_view)
  qed
qed

lemma fold_track_shown:
  "i \<in> set (map sv_id ss) \<or> shown m i (fresh_state c) \<Longrightarrow> shown (fold (track c) ss m) i (fresh_state c)"
proof (induction ss arbitrary: m)
  case (Cons s ss)
  have "i \<in> set (map sv_id ss) \<or> shown (track c s m) i (fresh_state c)"
    using Cons.prems by (auto simp: shown_def track_def fresh_state_def new_state_def)
  then show ?case using Cons.IH by simp
qed simp

lemma fold_schedule_view: "same_view m (fold (\<lambda>s x. schedule s (f x s) x) ss m)"
proof (induction ss arbitrary: m)
  case (Cons s ss)
  from same_view_trans [OF schedule_view Cons.IH] show ?case by simp
qed (simp add: same_view_def)

lemma start_shown: "shown m i st \<Longrightarrow> shown (start_monitor random now m) i st"
  using shown_view [OF fold_schedule_view, of "\<lambda>x s. jitteredDelay random x s" "cf_services (mo_config m)"
      "m\<lparr> mo_stopped := False \<rparr>" i st]
  by (simp add: start_monitor_def shown_def prune_monitor_def Let_def)

lemma reload_shown:
  assumes "shown m i st" "i \<in> set (map sv_id (cf_services c))"
  shows "shown (reload random now c m) i st"
proof -
  define m1 where "m1 = forget c ((stop_monitor m)\<lparr> mo_config := c \<rparr>)"
  have m1: "shown m1 i st" using assms by (simp add: m1_def forget_def Let_def shown_def stop_monitor_def)
  have one: "shown (if mo_states x (sv_id s) = None then track c s x else x) i st" if "shown x i st" for x s
    using that by (auto simp: shown_def track_def)
  have "shown (fold (\<lambda>s x. if mo_states x (sv_id s) = None then track c s x else x) ss x) i st" if "shown x i st" for ss x
    using that
  proof (induction ss arbitrary: x)
    case (Cons s ss)
    from Cons.IH [OF one [OF Cons.prems]] show ?case by simp
  qed simp
  from this [OF m1] have "shown (fold (\<lambda>s x. if mo_states x (sv_id s) = None then track c s x else x)
      (cf_services c) m1) i st" .
  then show ?thesis unfolding reload_def Let_def m1_def [symmetric] by (rule start_shown)
qed

lemma boot_shown:
  assumes "i \<in> set (map sv_id (cf_services c))"
  shows "shown (boot_monitor r1 r2 now c ch d) i (fresh_state c)"
  unfolding boot_monitor_def construct_def
  by (intro start_shown reload_shown fold_track_shown) (use assms in auto)

text \<open>What is kept of a service: its state and its status.\<close>

definition entry :: "monitor \<Rightarrow> string \<Rightarrow> service_state option \<times> service_status option" where
  "entry m i = (mo_states m i, mo_status m i)"

lemma entry_view: "same_view m m' \<Longrightarrow> entry m' i = entry m i"
  by (simp add: same_view_def entry_def)

lemma entry_shown: "entry m i = (Some st, Some (ss_status st)) \<longleftrightarrow> shown m i st"
  by (auto simp: entry_def shown_def)

lemma prune_entry: "entry (prune_monitor now m) i = entry m i"
  by (simp add: entry_def prune_monitor_def Let_def)

lemma start_entry: "entry (start_monitor random now m) i = entry m i"
  using entry_view [OF fold_schedule_view, of "\<lambda>x s. jitteredDelay random x s" "cf_services (mo_config m)"
      "m\<lparr> mo_stopped := False \<rparr>" i]
  by (simp add: start_monitor_def prune_entry) (simp add: entry_def)

abbreviation fresh_entry :: "status_config \<Rightarrow> service_state option \<times> service_status option" where
  "fresh_entry c \<equiv> (Some (fresh_state c), Some Not_known)"

lemma track_entry: "entry (track c s m) i = (if sv_id s = i then fresh_entry c else entry m i)"
  by (simp add: entry_def track_def)

lemma fold_track_entry:
  "entry (fold (track c) ss m) i = (if i \<in> set (map sv_id ss) then fresh_entry c else entry m i)"
  by (induction ss arbitrary: m) (auto simp: track_entry)

lemma fold_add_entry:
  "entry (fold (\<lambda>s x. if mo_states x (sv_id s) = None then track c s x else x) ss m) i =
     (if i \<in> set (map sv_id ss) \<and> mo_states m i = None then fresh_entry c else entry m i)"
proof (induction ss arbitrary: m)
  case (Cons s ss)
  let ?m = "if mo_states m (sv_id s) = None then track c s m else m"
  have st: "mo_states ?m i = (if sv_id s = i \<and> mo_states m i = None then Some (fresh_state c) else mo_states m i)"
    and en: "entry ?m i = (if sv_id s = i \<and> mo_states m i = None then fresh_entry c else entry m i)"
    by (cases "sv_id s = i"; simp add: track_def entry_def)+
  have step: "fold (\<lambda>s x. if mo_states x (sv_id s) = None then track c s x else x) (s # ss) m =
      fold (\<lambda>s x. if mo_states x (sv_id s) = None then track c s x else x) ss ?m" by simp
  show ?case unfolding step Cons.IH [of ?m] st en
    by (cases "sv_id s = i"; cases "mo_states m i"; simp)
qed simp

lemma reload_entry:
  "entry (reload random now c m) i =
     (if i \<in> set (map sv_id (cf_services c)) then if mo_states m i = None then fresh_entry c else entry m i
      else if mo_states m i = None then entry m i else (None, None))"
proof -
  define m1 where "m1 = forget c ((stop_monitor m)\<lparr> mo_config := c \<rparr>)"
  have m1: "entry m1 i = (if i \<in> set (map sv_id (cf_services c)) \<or> mo_states m i = None then entry m i else (None, None))"
    "mo_states m1 i = (if i \<in> set (map sv_id (cf_services c)) then mo_states m i else None)"
    by (auto simp: m1_def forget_def Let_def entry_def stop_monitor_def)
  show ?thesis unfolding reload_def Let_def m1_def [symmetric] start_entry fold_add_entry using m1 by auto
qed

lemma settle_check_absent:
  assumes "mo_states m i = None \<and> mo_status m i = None"
  shows "mo_states (fst (settle_check now s oc m)) i = None \<and> mo_status (fst (settle_check now s oc m)) i = None"
proof -
  define m1 where "m1 = m\<lparr> mo_checks := record_check (sv_id s) (co_ok oc) (co_latencyMs oc) (check_status oc)
                     (co_detail oc) now (mo_checks m) \<rparr>"
  define m2 where "m2 = (case co_certDays oc of None \<Rightarrow> m1
                | Some d \<Rightarrow> m1\<lparr> mo_certDays := (mo_certDays m1)(sv_id s \<mapsto> Some d) \<rparr>)"
  have m2: "mo_states m2 i = None \<and> mo_status m2 i = None" using assms by (simp add: m2_def m1_def split: option.splits)
  show ?thesis
  proof (cases "mo_states m2 (sv_id s)")
    case None
    then have "settle_check now s oc m = (m2, [Ev_update])"
      unfolding settle_check_def Let_def m1_def [symmetric] m2_def [symmetric] by simp
    with m2 show ?thesis by simp
  next
    case (Some st0)
    then have "sv_id s \<noteq> i" using m2 by auto
    moreover obtain st' ch where a: "apply_outcome oc st0 = (st', ch)" by (cases "apply_outcome oc st0")
    define m3 where "m3 = m2\<lparr> mo_states := (mo_states m2)(sv_id s \<mapsto> st') \<rparr>"
    have "fst (settle_check now s oc m) = (case ch of None \<Rightarrow> m3 | Some next \<Rightarrow> fst (onTransition now s next m3))"
      unfolding settle_check_def Let_def m1_def [symmetric] m2_def [symmetric]
      by (simp add: Some a m3_def split: option.splits prod.splits)
    ultimately show ?thesis using m2 by (cases ch) (simp_all add: m3_def onTransition_view)
  qed
qed

text \<open>How an entry agrees with a history.\<close>

definition agrees :: "monitor \<Rightarrow> string \<Rightarrow> (status_config \<times> check_outcome list) option \<Rightarrow> bool" where
  "agrees m i h = (case h of None \<Rightarrow> entry m i = (None, None)
     | Some (c, ocs) \<Rightarrow> shown m i (apply_all ocs (fresh_state c)))"

lemma agrees_view: "same_view m m' \<Longrightarrow> agrees m' i h = agrees m i h"
  by (auto simp: agrees_def entry_view shown_view split: option.splits)

lemma agrees_checked:
  assumes "agrees m i h"
  shows "agrees (fst (settle_check now s oc m)) i (since_added i (Log_result s oc) h)"
proof (cases h)
  case None
  then show ?thesis using assms settle_check_absent [of m i now s oc] by (simp add: agrees_def entry_def)
next
  case (Some x)
  obtain c ocs where x: "x = (c, ocs)" by (cases x)
  show ?thesis using assms settle_check_shown [of m i "apply_all ocs (fresh_state c)" now s oc]
    by (cases "sv_id s = i") (simp_all add: Some x agrees_def apply_all_snoc)
qed

lemma agrees_reloaded:
  assumes "agrees m i h"
  shows "agrees (reload random now c m) i (since_added i (Log_config c) h)"
proof (cases h)
  case None
  then have "mo_states m i = None" "entry m i = (None, None)" using assms by (simp_all add: agrees_def entry_def)
  with None show ?thesis using reload_entry [of random now c m i]
    by (simp add: agrees_def entry_shown [symmetric] apply_all_def fresh_state_def new_state_def)
next
  case (Some x)
  obtain c' ocs where x: "x = (c', ocs)" by (cases x)
  have s: "mo_states m i \<noteq> None" using assms by (simp add: Some x agrees_def shown_def)
  then have "entry (reload random now c m) i = (if i \<in> set (map sv_id (cf_services c)) then entry m i else (None, None))"
    unfolding reload_entry by (simp only: if_False)
  then show ?thesis using assms
    by (cases "i \<in> set (map sv_id (cf_services c))") (simp_all add: Some x agrees_def entry_shown [symmetric])
qed

lemma run_agrees:
  assumes "mon_run m tr m'" "agrees m i h"
  shows "agrees m' i (fold (since_added i) tr h)"
  using assms(1)
proof induction
  case start
  with assms(2) show ?case by simp
next
  case (timeout tr a h s d)
  then show ?case by (simp add: agrees_view [OF fire_view])
next
  case (continue tr a s rest)
  then show ?case by (simp add: agrees_view [OF resume_view])
next
  case (crashed tr a s now)
  then show ?case using agrees_view [OF run_end_view [of a now s None]] by simp
next
  case (checked tr a s oc now)
  then show ?case using agrees_checked [OF checked.IH, of now s oc]
      agrees_view [OF run_end_view [of a now s "Some oc"]] by simp
next
  case (hourly tr a now)
  have "same_view (a\<lparr> mo_incidents := mo_incidents (prune_monitor now a) \<rparr>) (prune_monitor now a)"
    by (simp add: same_view_def prune_monitor_def Let_def)
  moreover have "agrees (a\<lparr> mo_incidents := d \<rparr>) i h' = agrees a i h'" for d h'
    by (simp add: agrees_def entry_def shown_def split: option.split)
  ultimately show ?case using hourly.IH by (simp add: agrees_view)
next
  case (reloaded tr a c random now)
  then show ?case using agrees_reloaded [OF reloaded.IH] by simp
qed

lemma boot_agrees: "agrees (boot_monitor r1 r2 now c ch d) i (since_added i (Log_config c) None)"
proof -
  define m0 where "m0 = \<lparr> mo_config = c, mo_states = Map.empty, mo_status = Map.empty, mo_certDays = Map.empty,
       mo_timers = Map.empty, mo_pending = [], mo_handle = 0, mo_inFlight = 0, mo_queue = [],
       mo_woken = [], mo_running = [], mo_stopped = False, mo_checks = ch, mo_incidents = d \<rparr>"
  have m0: "entry m0 i = (None, None)" by (simp add: m0_def entry_def)
  have k: "entry (construct c ch d) i = (if i \<in> set (map sv_id (cf_services c)) then fresh_entry c else (None, None))"
    unfolding construct_def m0_def [symmetric] fold_track_entry m0 ..
  then have s: "mo_states (construct c ch d) i = (if i \<in> set (map sv_id (cf_services c)) then Some (fresh_state c) else None)"
    by (simp add: entry_def split: if_splits)
  have "entry (boot_monitor r1 r2 now c ch d) i =
      (if i \<in> set (map sv_id (cf_services c)) then fresh_entry c else (None, None))"
    unfolding boot_monitor_def start_entry reload_entry k s by simp
  then show ?thesis
    by (simp add: agrees_def entry_shown [symmetric] apply_all_def fresh_state_def new_state_def split: if_splits)
qed

text \<open>
  C28. The public status of a service is a function of the results of its checks since it was last
  added to the configuration, at boot or by a reload, and of the thresholds of the configuration that
  added it: whatever other services do, and whatever reloads keep it, it is the status the reference
  gives for the list of those results, and there is none while it is not configured.  The reference
  decides the bad status by the result that ends the streak, as the code does: a hard failure earlier
  in a streak that ends with a slow result is not remembered, although the comment of the code says so.
\<close>

theorem status_follows_results:
  assumes "mon_run (boot_monitor r1 r2 now c checks incidents) tr m"
  shows "mo_status m i = map_option (\<lambda>(c', ocs). flap_status (mc_failure_threshold (cf_monitor c'))
           (mc_recovery_threshold (cf_monitor c')) (seen ocs)) (history_of i c tr)"
  using run_agrees [OF assms boot_agrees, of i]
  by (auto simp: history_of_def agrees_def entry_def shown_def fresh_state_def apply_all_streaks split: option.splits)

lemma demo_run:
  "mon_run (boot_monitor (\<lambda>_. 0) (\<lambda>_. 0) 0 demo_config [] no_incidents)
     [Log_result demo_service (demo_outcome False False)] demo_failed"
proof -
  have "mon_run demo_boot [] (fire 0 demo_service demo_boot)"
    by (rule mon_run.timeout [OF mon_run.start, of _ _ 0]) (simp_all add: demo_boot_fields)
  from mon_run.checked [OF this, of demo_service "demo_outcome False False" 5]
  have "mon_run demo_boot [Log_result demo_service (demo_outcome False False)] demo_failed"
    by (simp add: demo_boot_fields demo_failed_def)
  then show ?thesis unfolding demo_boot_def .
qed

text \<open>After the failure, a reload that drops the service and one that adds it again.\<close>

theorem status_follows_results_witness:
  "mo_status demo_failed ''web'' = Some Major_outage \<and>
   mo_status (reload (\<lambda>_. 0) 8 demo_config demo_failed) ''web'' = Some Major_outage \<and>
   mo_status (reload (\<lambda>_. 0) 9 demo_config (reload (\<lambda>_. 0) 8 (demo_config\<lparr> cf_services := [] \<rparr>) demo_failed)) ''web'' =
     Some Not_known"
proof -
  let ?c = "demo_config\<lparr> cf_services := [] \<rparr>"
  have ids: "map sv_id (cf_services demo_config) = [''web'']" by (simp add: demo_config_def demo_service_def)
  note kept = mon_run.reloaded [OF demo_run, of demo_config "\<lambda>_. 0" 8]
  note readded = mon_run.reloaded [OF mon_run.reloaded [OF demo_run, of ?c "\<lambda>_. 0" 8], of demo_config "\<lambda>_. 0" 9]
  have web: "sv_id demo_service = ''web''" by (simp add: demo_service_def)
  have fl: "flap_status (mc_failure_threshold (cf_monitor demo_config)) (mc_recovery_threshold (cf_monitor demo_config))
      (seen [demo_outcome False False]) = Major_outage"
    by (simp add: seen_def demo_outcome_def result_of_def settle_def demo_config_def)
  show ?thesis
    using status_follows_results [OF demo_run, of "''web''"] status_follows_results [OF kept, of "''web''"]
      status_follows_results [OF readded, of "''web''"]
    by (simp add: history_of_def ids web fl del: flap_status.simps) (simp add: seen_def)
qed

lemma demo_failed_status: "mo_status demo_failed ''web'' = Some Major_outage"
  by code_simp

section \<open>Flaps\<close>

lemma settle_moves:
  assumes "settle f r old (x # rs) \<noteq> old" "old \<noteq> Not_known"
  shows "(settle f r old (x # rs) = Operational \<and> r \<le> streak (\<lambda>x. x = Good) (x # rs)) \<or>
    (settle f r old (x # rs) \<noteq> Operational \<and> f \<le> streak (\<lambda>x. x \<noteq> Good) (x # rs))"
  using assms unfolding settle_def list.case
  by (cases "f \<le> streak (\<lambda>x. x \<noteq> Good) (x # rs)"; cases "r \<le> streak (\<lambda>x. x = Good) (x # rs)")
    (simp_all del: streak_simps)

text \<open>
  C29. Flap protection: once a status is known it changes only at the end of a streak, to operational
  after \<open>recoveryThreshold\<close> good results in a row, to a bad status after \<open>failureThreshold\<close> results in a
  row that were not good.
\<close>

theorem flap_protected:
  assumes "apply_outcome oc (apply_all ocs (new_state f r)) = (st, Some n)"
    and "ss_status (apply_all ocs (new_state f r)) \<noteq> Not_known"
  shows "if n = Operational then r \<le> streak (\<lambda>x. x = Good) (seen (ocs @ [oc]))
    else f \<le> streak (\<lambda>x. x \<noteq> Good) (seen (ocs @ [oc]))"
proof -
  let ?old = "flap_status f r (seen ocs)" and ?rs = "seen (ocs @ [oc])"
  have rs: "?rs = result_of oc # seen ocs" by (simp add: seen_def)
  have st: "apply_all (ocs @ [oc]) (new_state f r) = st" using assms(1) by (simp add: apply_all_snoc)
  have n: "n = settle f r ?old ?rs"
    using apply_outcome_changed [OF assms(1)] apply_all_streaks [of "ocs @ [oc]" f r] unfolding st by (simp add: rs)
  have old: "?old \<noteq> Not_known" "n \<noteq> ?old"
    using assms(2) apply_outcome_changed [OF assms(1)] apply_all_streaks [of ocs f r] by auto
  then show ?thesis using settle_moves [of f r ?old "result_of oc" "seen ocs"] n unfolding rs by auto
qed

theorem flap_protected_witness:
  "apply_outcome (demo_outcome False False) (apply_all [demo_outcome True False, demo_outcome False True] (new_state 2 2)) =
     (\<lparr> ss_status = Major_outage, ss_bad = 2, ss_good = 0, ss_failureThreshold = 2, ss_recoveryThreshold = 2 \<rparr>,
      Some Major_outage) \<and>
   2 \<le> streak (\<lambda>x. x \<noteq> Good) (seen [demo_outcome True False, demo_outcome False True, demo_outcome False False])"
proof -
  let ?ocs = "[demo_outcome True False, demo_outcome False True]" and ?oc = "demo_outcome False False"
  let ?st = "\<lparr> ss_status = Major_outage, ss_bad = 2, ss_good = 0, ss_failureThreshold = 2, ss_recoveryThreshold = 2 \<rparr>"
  have a: "apply_outcome ?oc (apply_all ?ocs (new_state 2 2)) = (?st, Some Major_outage)" by code_simp
  have k: "ss_status (apply_all ?ocs (new_state 2 2)) \<noteq> Not_known" by code_simp
  show ?thesis using flap_protected [OF a k] a by simp
qed

end
