(* ===== verification/Incident_Props.thy ===== *)
theory Incident_Props
  imports Monitor_Props
begin

text \<open>
  The incidents of the monitor: how they follow the status of a service, and what every way of
  writing them (the monitor, a reload, an operator) keeps of the table.
\<close>

section \<open>Open incidents\<close>

definition open_rows :: "string \<Rightarrow> incident_db \<Rightarrow> incident_row list" where
  "open_rows i d = filter (open_row i) (ic_rows d)"

lemma openFor_None: "openFor i d = None \<longleftrightarrow> open_rows i d = []"
proof -
  have "length (order_by_desc ir_started_at (open_rows i d)) = length (open_rows i d)"
    by (simp add: order_by_desc_def)
  then show ?thesis by (auto simp: openFor_def open_rows_def sel_where_def limit_one_None simp del: length_0_conv)
qed

lemma open_rows_open:
  "open_rows j (fst (open_incident i sv t now d)) =
     (if j = i \<and> open_rows i d = [] then open_rows j d @
        [\<lparr> ir_id = ic_seq d + 1, ir_service_id = i, ir_severity = sv, ir_title = t, ir_started_at = now,
           ir_ended_at = None \<rparr>] else open_rows j d)"
proof (cases "openFor i d")
  case None
  then have "open_rows i d = []" by (simp add: openFor_None)
  with None show ?thesis by (auto simp: open_incident_def open_rows_def open_row_def)
next
  case (Some r)
  then have "open_rows i d \<noteq> []" using openFor_None [of i d] by auto
  with Some show ?thesis by (simp add: open_incident_def)
qed

lemma open_rows_close: "open_rows j (close_incident i now d) = (if j = i then [] else open_rows j d)"
proof -
  have "filter (open_row j) (upd_where (open_row i) (\<lambda>r. r\<lparr> ir_ended_at := Some now \<rparr>) t)
     = (if j = i then [] else filter (open_row j) t)" for t
  proof (induction t)
    case (Cons r t)
    have "\<not> open_row j (r\<lparr> ir_ended_at := Some now \<rparr>)" by (simp add: open_row_def)
    moreover have "open_row i r \<Longrightarrow> open_row j r \<Longrightarrow> j = i" by (simp add: open_row_def)
    ultimately show ?case using Cons.IH by (auto simp: upd_where_Cons)
  qed simp
  then show ?thesis by (simp add: open_rows_def close_incident_def)
qed

lemma open_rows_prune: "open_rows j (pruneIncidents before d) = open_rows j d"
proof -
  have "filter (open_row j) (del_where (\<lambda>r. sql_lt (ir_ended_at r) before) t) = filter (open_row j) t" for t
    by (induction t) (auto simp: del_where_def open_row_def)
  then show ?thesis by (simp add: open_rows_def pruneIncidents_def Let_def)
qed

lemma open_rows_resolve: "open_rows j (fst (resolve_incident k now d)) = filter (\<lambda>r. ir_id r \<noteq> k) (open_rows j d)"
proof -
  have "filter (open_row j) (upd_where (\<lambda>r. ir_id r = k \<and> ir_ended_at r = None) (\<lambda>r. r\<lparr> ir_ended_at := Some now \<rparr>) t)
     = filter (\<lambda>r. ir_id r \<noteq> k) (filter (open_row j) t)" for t
    by (induction t) (auto simp: upd_where_Cons open_row_def)
  then show ?thesis by (simp add: open_rows_def resolve_incident_def Let_def)
qed

lemma open_rows_comment: "addUpdate k msg author now d = Some d' \<Longrightarrow> open_rows j d' = open_rows j d"
  by (auto simp: addUpdate_def open_rows_def split: if_splits)

definition open_count :: "string \<Rightarrow> monitor \<Rightarrow> nat" where
  "open_count i m = length (open_rows i (mo_incidents m))"

definition bad :: "string \<Rightarrow> monitor \<Rightarrow> bool" where
  "bad i m = was_down (mo_status m i)"

text \<open>How many incidents of a service are open after its status was left or moved.\<close>

definition settled :: "bool \<Rightarrow> bool \<Rightarrow> nat \<Rightarrow> nat" where
  "settled b b' n = (if \<not> b \<and> b' then 1 else if b \<and> \<not> b' then 0 else n)"

definition loop_effect :: "monitor \<Rightarrow> monitor \<Rightarrow> bool" where
  "loop_effect m m' \<longleftrightarrow> (\<forall>i. open_count i m \<le> 1 \<longrightarrow> open_count i m' = settled (bad i m) (bad i m') (open_count i m))"

definition same_incidents :: "monitor \<Rightarrow> monitor \<Rightarrow> bool" where
  "same_incidents m m' \<longleftrightarrow> (\<forall>i. open_count i m' = open_count i m \<and> mo_status m' i = mo_status m i)"

lemma view_incidents: "same_view m m' \<Longrightarrow> same_incidents m m'"
  by (simp add: same_view_def same_incidents_def open_count_def)

lemma effect_same: "same_incidents m m' \<Longrightarrow> loop_effect m m'"
  by (simp add: same_incidents_def loop_effect_def settled_def bad_def)

lemma effect_then_same: "loop_effect a b \<Longrightarrow> same_incidents b c \<Longrightarrow> loop_effect a c"
  by (simp add: same_incidents_def loop_effect_def bad_def)

lemma same_then_effect: "same_incidents a b \<Longrightarrow> loop_effect b c \<Longrightarrow> loop_effect a c"
  by (simp add: same_incidents_def loop_effect_def bad_def)

lemma onTransition_effect: "loop_effect m (fst (onTransition now s next m))"
proof -
  let ?m = "fst (onTransition now s next m)"
  have st: "mo_status ?m = (mo_status m)(sv_id s \<mapsto> next)" by (rule onTransition_view(2))
  have inc: "mo_incidents ?m =
      (if \<not> was_down (mo_status m (sv_id s)) \<and> is_down next
       then fst (open_incident (sv_id s) (if next = Degraded then ''minor'' else ''major'')
              (sv_name s @ '' is '' @ (if next = Degraded then ''degraded'' else ''down'')) now (mo_incidents m))
       else if was_down (mo_status m (sv_id s)) \<and> \<not> is_down next
       then close_incident (sv_id s) now (mo_incidents m) else mo_incidents m)"
    by (simp add: onTransition_def Let_def)
  have "open_count i ?m = settled (bad i m) (bad i ?m) (open_count i m)" if le: "open_count i m \<le> 1" for i
  proof (cases "i = sv_id s")
    case True
    have b: "bad i ?m = is_down next" using True st by (simp add: bad_def was_down_def)
    have "open_rows i (mo_incidents m) \<noteq> [] \<Longrightarrow> length (open_rows i (mo_incidents m)) = 1"
      using le by (cases "open_rows i (mo_incidents m)") (auto simp: open_count_def)
    then show ?thesis unfolding b using True
      by (auto simp: open_count_def settled_def bad_def inc open_rows_open open_rows_close)
  next
    case False
    then have "bad i ?m = bad i m" "open_count i ?m = open_count i m"
      using st by (simp_all add: bad_def open_count_def inc open_rows_open open_rows_close)
    then show ?thesis by (simp add: settled_def)
  qed
  then show ?thesis by (simp add: loop_effect_def)
qed

lemma settle_check_effect: "loop_effect m (fst (settle_check now s oc m))"
proof -
  define m1 where "m1 = m\<lparr> mo_checks := record_check (sv_id s) (co_ok oc) (co_latencyMs oc) (check_status oc)
                     (co_detail oc) now (mo_checks m) \<rparr>"
  define m2 where "m2 = (case co_certDays oc of None \<Rightarrow> m1
                | Some d \<Rightarrow> m1\<lparr> mo_certDays := (mo_certDays m1)(sv_id s \<mapsto> Some d) \<rparr>)"
  have m2: "same_incidents m m2" by (simp add: m2_def m1_def same_incidents_def open_count_def split: option.splits)
  show ?thesis
  proof (cases "mo_states m2 (sv_id s)")
    case None
    then have "settle_check now s oc m = (m2, [Ev_update])"
      unfolding settle_check_def Let_def m1_def [symmetric] m2_def [symmetric] by simp
    with effect_same [OF m2] show ?thesis by simp
  next
    case (Some st)
    obtain st' ch where a: "apply_outcome oc st = (st', ch)" by (cases "apply_outcome oc st")
    define m3 where "m3 = m2\<lparr> mo_states := (mo_states m2)(sv_id s \<mapsto> st') \<rparr>"
    have m3: "same_incidents m m3" using m2 by (simp add: m3_def same_incidents_def open_count_def)
    have "fst (settle_check now s oc m) = (case ch of None \<Rightarrow> m3 | Some next \<Rightarrow> fst (onTransition now s next m3))"
      unfolding settle_check_def Let_def m1_def [symmetric] m2_def [symmetric]
      by (simp add: Some a m3_def split: option.splits prod.splits)
    with effect_same [OF m3] same_then_effect [OF m3 onTransition_effect] show ?thesis by (simp split: option.splits)
  qed
qed

lemma prune_incidents_same: "same_incidents m (prune_monitor now m)"
  by (simp add: same_incidents_def open_count_def prune_monitor_def Let_def open_rows_prune)

lemma mon_step_effect: "mon_step m m' \<Longrightarrow> loop_effect m m'"
proof (induction rule: mon_step.induct)
  case (timeout h s d m)
  show ?case by (rule effect_same [OF view_incidents [OF fire_view]])
next
  case (continue m s rest)
  show ?case by (rule effect_same [OF view_incidents [OF resume_view]])
next
  case (checked s m now result)
  have "loop_effect m (case result of None \<Rightarrow> m | Some oc \<Rightarrow> fst (settle_check now s oc m))"
    using settle_check_effect [of m now s] effect_same [of m m] by (simp add: same_incidents_def split: option.split)
  then show ?case by (rule effect_then_same [OF _ view_incidents [OF run_end_view]])
next
  case (hourly m now)
  show ?case by (rule effect_same [OF prune_incidents_same])
qed

definition all_calm :: "monitor \<Rightarrow> bool" where
  "all_calm m = (\<forall>i. \<not> was_down (mo_status m i))"

lemma track_calm: "all_calm m \<Longrightarrow> all_calm (track c s m) \<and> mo_incidents (track c s m) = mo_incidents m"
  by (simp add: all_calm_def track_def was_down_def is_down_def)

lemma fold_track_calm:
  "all_calm m \<Longrightarrow> all_calm (fold (\<lambda>s x. if P x s then track c s x else x) ss m) \<and>
     mo_incidents (fold (\<lambda>s x. if P x s then track c s x else x) ss m) = mo_incidents m"
proof (induction ss arbitrary: m)
  case (Cons s ss)
  have "all_calm (if P m s then track c s m else m) \<and>
      mo_incidents (if P m s then track c s m else m) = mo_incidents m"
    using Cons.prems track_calm by simp
  with Cons.IH [of "if P m s then track c s m else m"] show ?case by simp
qed simp

lemma start_calm:
  "all_calm (start_monitor random now m) = all_calm m"
  "open_rows i (mo_incidents (start_monitor random now m)) = open_rows i (mo_incidents m)"
proof -
  let ?s = "fold (\<lambda>s x. schedule s (jitteredDelay random x s) x) (cf_services (mo_config m)) (m\<lparr> mo_stopped := False \<rparr>)"
  have v: "same_view (m\<lparr> mo_stopped := False \<rparr>) ?s" by (rule fold_schedule_view)
  have e: "start_monitor random now m = prune_monitor now ?s" by (simp add: start_monitor_def)
  show "all_calm (start_monitor random now m) = all_calm m"
    "open_rows i (mo_incidents (start_monitor random now m)) = open_rows i (mo_incidents m)"
    using v unfolding e
    by (simp_all add: same_view_def all_calm_def prune_monitor_def Let_def open_rows_prune)
qed

lemma reload_calm:
  assumes "all_calm m"
  shows "all_calm (reload random now c m)"
    "open_rows i (mo_incidents (reload random now c m)) = open_rows i (mo_incidents m)"
proof -
  define m1 where "m1 = forget c ((stop_monitor m)\<lparr> mo_config := c \<rparr>)"
  have m1: "all_calm m1" "mo_incidents m1 = mo_incidents m"
    using assms by (auto simp: m1_def forget_def Let_def all_calm_def stop_monitor_def was_down_def)
  have "all_calm (fold (\<lambda>s x. if mo_states x (sv_id s) = None then track c s x else x) (cf_services c) m1) \<and>
    mo_incidents (fold (\<lambda>s x. if mo_states x (sv_id s) = None then track c s x else x) (cf_services c) m1) = mo_incidents m"
    using fold_track_calm [of m1 "\<lambda>x s. mo_states x (sv_id s) = None" c "cf_services c"] m1 by simp
  then show "all_calm (reload random now c m)"
    "open_rows i (mo_incidents (reload random now c m)) = open_rows i (mo_incidents m)"
    unfolding reload_def Let_def m1_def [symmetric] by (simp_all add: start_calm)
qed

lemma boot_calm:
  "all_calm (boot_monitor r1 r2 now c ch d)"
  "open_rows i (mo_incidents (boot_monitor r1 r2 now c ch d)) = open_rows i d"
proof -
  have "all_calm (construct c ch d) \<and> mo_incidents (construct c ch d) = d"
    unfolding construct_def
    using fold_track_calm [of "\<lparr> mo_config = c, mo_states = Map.empty, mo_status = Map.empty, mo_certDays = Map.empty,
       mo_timers = Map.empty, mo_pending = [], mo_handle = 0, mo_inFlight = 0, mo_queue = [],
       mo_woken = [], mo_running = [], mo_stopped = False, mo_checks = ch, mo_incidents = d \<rparr>" "\<lambda>_ _. True" c "cf_services c"]
    by (simp add: all_calm_def was_down_def)
  then show "all_calm (boot_monitor r1 r2 now c ch d)"
    "open_rows i (mo_incidents (boot_monitor r1 r2 now c ch d)) = open_rows i d"
    by (simp_all add: boot_monitor_def start_calm reload_calm)
qed

lemma reload_incidents: "open_count i (reload random now c m) = open_count i m"
proof -
  have "mo_incidents (if P then track c s x else x) = mo_incidents x" for P s x by (simp add: track_def)
  then have f: "mo_incidents (fold (\<lambda>s x. if mo_states x (sv_id s) = None then track c s x else x) ss x) = mo_incidents x"
    for ss x by (induction ss arbitrary: x) (simp_all only: fold_simps)
  show ?thesis
    by (simp add: open_count_def reload_def Let_def start_calm(2) f) (simp add: forget_def Let_def stop_monitor_def)
qed

text \<open>
  Everything that touches the incidents of the monitor: its own steps, a reload of the configuration, an
  operator who resolves an incident by its number or comments on one.
\<close>

datatype mon_action = Act_loop | Act_reload | Act_resolve nat | Act_comment

inductive mon_act :: "mon_action \<Rightarrow> monitor \<Rightarrow> monitor \<Rightarrow> bool" where
  loop: "mon_step m m' \<Longrightarrow> mon_act Act_loop m m'"
| reload: "mon_act Act_reload m (reload random now c m)"
| resolve: "mon_act (Act_resolve k) m (m\<lparr> mo_incidents := fst (resolve_incident k now (mo_incidents m)) \<rparr>)"
| comment: "addUpdate k msg author now (mo_incidents m) = Some d \<Longrightarrow> mon_act Act_comment m (m\<lparr> mo_incidents := d \<rparr>)"

definition acts :: "mon_action set \<Rightarrow> monitor \<Rightarrow> monitor \<Rightarrow> bool" where
  "acts A m m' \<longleftrightarrow> (\<exists>x \<in> A. mon_act x m m')"

definition after_act :: "string \<Rightarrow> mon_action \<Rightarrow> monitor \<Rightarrow> monitor \<Rightarrow> nat" where
  "after_act i x m m' = (case x of
       Act_loop \<Rightarrow> settled (bad i m) (bad i m') (open_count i m)
     | Act_resolve k \<Rightarrow> if k \<in> ir_id ` set (open_rows i (mo_incidents m)) then 0 else open_count i m
     | _ \<Rightarrow> open_count i m)"

lemma act_effect:
  assumes "mon_act x m m'" "open_count i m \<le> 1"
  shows "open_count i m' = after_act i x m m'"
  using assms
proof (induction rule: mon_act.induct)
  case (loop m m')
  then show ?case using mon_step_effect [OF loop(1)] by (simp add: loop_effect_def after_act_def)
next
  case (reload m random now c)
  then show ?case by (simp add: reload_incidents after_act_def)
next
  case (resolve k m now)
  then consider "open_rows i (mo_incidents m) = []" | r where "open_rows i (mo_incidents m) = [r]"
    by (cases "open_rows i (mo_incidents m)") (auto simp: open_count_def)
  then show ?case by cases (auto simp: open_count_def after_act_def open_rows_resolve)
next
  case (comment k msg author now m d)
  then show ?case by (simp add: open_count_def after_act_def open_rows_comment)
qed

lemma act_at_most_one:
  assumes "mon_act x m m'" "open_count i m \<le> 1"
  shows "open_count i m' \<le> 1"
  using act_effect [OF assms] assms(2) by (auto simp: after_act_def settled_def split: mon_action.splits)

lemma act_bad: "mon_act x m m' \<Longrightarrow> x \<notin> {Act_loop, Act_reload} \<Longrightarrow> bad i m' = bad i m"
  by (induction rule: mon_act.induct) (simp_all add: bad_def)

lemma acts_run_le: "(acts A)\<^sup>*\<^sup>* m m' \<Longrightarrow> open_count i m \<le> 1 \<Longrightarrow> open_count i m' \<le> 1"
  by (induction rule: rtranclp_induct) (auto simp: acts_def dest: act_at_most_one)

lemma loop_run_exact:
  assumes "(acts {Act_loop, Act_comment})\<^sup>*\<^sup>* m m'" "open_count i m = (if bad i m then 1 else 0)"
  shows "open_count i m' = (if bad i m' then 1 else 0)"
  using assms
proof (induction rule: rtranclp_induct)
  case (step u v)
  then have u: "open_count i u = (if bad i u then 1 else 0)" by simp
  from step(2) obtain x where x: "x \<in> {Act_loop, Act_comment}" "mon_act x u v" by (auto simp: acts_def)
  then have "open_count i v = after_act i x u v" using u by (intro act_effect) auto
  then show ?case using x act_bad [OF x(2), of i] u by (auto simp: after_act_def settled_def)
qed simp

lemma resolve_run_bad:
  assumes "(acts (- {Act_reload}))\<^sup>*\<^sup>* m m'" "open_count i m \<le> 1" "open_count i m \<noteq> 0 \<Longrightarrow> bad i m"
  shows "open_count i m' \<noteq> 0 \<Longrightarrow> bad i m'"
  using assms
proof (induction rule: rtranclp_induct)
  case (step u v)
  have le: "open_count i u \<le> 1" using acts_run_le [OF step(1) step.prems(2)] .
  from step(2) obtain x where x: "x \<noteq> Act_reload" "mon_act x u v" by (auto simp: acts_def)
  show ?case using act_effect [OF x(2) le] step x act_bad [OF x(2), of i]
    by (cases x) (auto simp: after_act_def settled_def split: if_splits)
qed simp

text \<open>
  C30. Incidents and status.  Without reloads and operators, from a boot with no incident left open, a
  service has exactly one open incident while its public status is a bad one and none otherwise.  With
  operators who resolve incidents, a service still has at most one, and only while its status is bad; a
  resolved one is not opened again before the status has been good in between.  With reloads too, at most one remains true,
  and each action does exactly this: a step of the monitor opens when the status turns bad, closes when
  it turns good and changes nothing otherwise, resolving by number closes that incident, and reloads
  and comments change nothing, so an incident outlives the removal of its service.  A transition with
  its incident is one step here.
\<close>

theorem incidents_follow_status:
  assumes "m0 = boot_monitor r1 r2 now c checks incidents"
  shows "((acts {Act_loop, Act_comment})\<^sup>*\<^sup>* m0 m \<longrightarrow> (\<forall>r \<in> set (ic_rows incidents). ir_ended_at r \<noteq> None) \<longrightarrow>
      open_count i m = (if bad i m then 1 else 0)) \<and>
    ((acts (- {Act_reload}))\<^sup>*\<^sup>* m0 m \<longrightarrow> (\<forall>r \<in> set (ic_rows incidents). ir_ended_at r \<noteq> None) \<longrightarrow>
      open_count i m \<le> 1 \<and> (open_count i m \<noteq> 0 \<longrightarrow> bad i m)) \<and>
    ((acts UNIV)\<^sup>*\<^sup>* m0 m \<longrightarrow> length (open_rows i incidents) \<le> 1 \<longrightarrow>
      open_count i m \<le> 1 \<and> (\<forall>x m'. mon_act x m m' \<longrightarrow> open_count i m' = after_act i x m m'))"
proof -
  have calm: "\<not> bad i m0" using boot_calm(1) [of r1 r2 now c checks incidents] assms by (simp add: all_calm_def bad_def)
  have cnt: "open_count i m0 = length (open_rows i incidents)" using boot_calm(2) assms by (simp add: open_count_def)
  have none: "open_count i m0 = 0" if "\<forall>r \<in> set (ic_rows incidents). ir_ended_at r \<noteq> None"
    using that cnt by (auto simp: open_rows_def open_row_def filter_empty_conv)
  show ?thesis
    using loop_run_exact [of m0 m i] resolve_run_bad [of m0 m i] acts_run_le [of _ m0 m i] act_effect calm none cnt
    by (smt (verit, best) le0 le_numeral_extra(3) zero_le_one)
qed

section \<open>The table under every writer\<close>

definition incidents_ok :: "incident_db \<Rightarrow> bool" where
  "incidents_ok d =
     (unique_on ir_id (ic_rows d) \<and> (\<forall>r \<in> set (ic_rows d). ir_id r \<le> ic_seq d) \<and>
      (\<forall>i. length (open_rows i d) \<le> 1) \<and>
      (\<forall>u \<in> set (ic_updates d). ur_incident_id u \<in> ir_id ` set (ic_rows d)))"

inductive inc_step :: "incident_db \<Rightarrow> incident_db \<Rightarrow> bool" where
  opened: "inc_step d (fst (open_incident i sv t now d))"
| closed: "inc_step d (close_incident i now d)"
| resolved: "inc_step d (fst (resolve_incident k now d))"
| updated: "addUpdate k msg author now d = Some d' \<Longrightarrow> inc_step d d'"
| pruned: "inc_step d (pruneIncidents before d)"

definition ended_evo :: "incident_row \<Rightarrow> incident_row \<Rightarrow> bool" where
  "ended_evo r r' = (r' = r \<or> (ir_ended_at r = None \<and> (\<exists>t. r' = r\<lparr> ir_ended_at := Some t \<rparr>)))"

lemma no_incidents_ok: "incidents_ok no_incidents"
  by (simp add: incidents_ok_def no_incidents_def open_rows_def)

lemma updated_rows: "addUpdate k msg author now d = Some d' \<Longrightarrow> ic_rows d' = ic_rows d \<and> ic_seq d' = ic_seq d"
  by (auto simp: addUpdate_def split: if_splits)

lemma ended_back:
  assumes "r' \<in> set (upd_where P (\<lambda>r. r\<lparr> ir_ended_at := Some now \<rparr>) t)" "\<And>r. P r \<Longrightarrow> ir_ended_at r = None"
  shows "\<exists>r \<in> set t. ir_id r = ir_id r' \<and> ended_evo r r'"
proof -
  from set_upd_whereD [OF assms(1)] obtain r
    where r: "r \<in> set t" "r' = (if P r then r\<lparr> ir_ended_at := Some now \<rparr> else r)" by blast
  then have "ir_id r = ir_id r' \<and> ended_evo r r'" using assms(2) [of r] by (auto simp: ended_evo_def)
  with r(1) show ?thesis by blast
qed

lemma inc_step_back:
  assumes "inc_step d d'" "r' \<in> set (ic_rows d')"
  shows "(\<exists>r \<in> set (ic_rows d). ir_id r = ir_id r' \<and> ended_evo r r') \<or> ic_seq d < ir_id r'"
  using assms
proof cases
  case (opened i sv t now)
  then show ?thesis using assms(2)
    by (auto simp: open_incident_def ended_evo_def split: option.splits)
next
  case (closed i now)
  then have "r' \<in> set (upd_where (open_row i) (\<lambda>r. r\<lparr> ir_ended_at := Some now \<rparr>) (ic_rows d))"
    using assms(2) by (simp add: close_incident_def)
  from ended_back [OF this] show ?thesis by (auto simp: open_row_def)
next
  case (resolved k now)
  then have "r' \<in> set (upd_where (\<lambda>r. ir_id r = k \<and> ir_ended_at r = None)
      (\<lambda>r. r\<lparr> ir_ended_at := Some now \<rparr>) (ic_rows d))"
    using assms(2) by (simp add: resolve_incident_def Let_def)
  from ended_back [OF this] show ?thesis by auto
next
  case (updated k msg author now)
  then show ?thesis using assms(2) by (auto simp: updated_rows ended_evo_def)
next
  case (pruned before)
  then show ?thesis using assms(2) by (auto simp: pruneIncidents_def Let_def ended_evo_def)
qed

lemma upd_where_ids:
  assumes "\<And>r. ir_id (f r) = ir_id r"
  shows "ir_id ` set (upd_where P f t) = ir_id ` set t"
proof -
  have "map ir_id (upd_where P f t) = map ir_id t" using assms by (intro map_upd_where)
  then show ?thesis by (metis list.set_map)
qed

lemma ended_fewer:
  assumes "length (filter (open_row i) t) \<le> 1"
  shows "length (filter (open_row i) (upd_where P (\<lambda>r. r\<lparr> ir_ended_at := Some now \<rparr>) t)) \<le> 1"
proof -
  have "length (filter (open_row i) (upd_where P (\<lambda>r. r\<lparr> ir_ended_at := Some now \<rparr>) t))
      \<le> length (filter (open_row i) t)"
  proof (induction t)
    case (Cons r t)
    have "\<not> open_row i (r\<lparr> ir_ended_at := Some now \<rparr>)" by (simp add: open_row_def)
    with Cons show ?case by (auto simp: upd_where_Cons)
  qed simp
  with assms show ?thesis by linarith
qed

lemma ended_ok:
  assumes "incidents_ok d"
  shows "incidents_ok (d\<lparr> ic_rows := upd_where P (\<lambda>r. r\<lparr> ir_ended_at := Some now \<rparr>) (ic_rows d) \<rparr>)"
proof -
  let ?t = "upd_where P (\<lambda>r. r\<lparr> ir_ended_at := Some now \<rparr>) (ic_rows d)"
  have ids: "ir_id ` set ?t = ir_id ` set (ic_rows d)" by (rule upd_where_ids) simp
  have "\<forall>r \<in> set ?t. ir_id r \<le> ic_seq d"
  proof
    fix r assume "r \<in> set ?t"
    then have "ir_id r \<in> ir_id ` set (ic_rows d)" using ids by blast
    then show "ir_id r \<le> ic_seq d" using assms by (auto simp: incidents_ok_def)
  qed
  moreover have "unique_on ir_id ?t" using assms by (simp add: incidents_ok_def unique_on_upd_where)
  moreover have "\<forall>i. length (filter (open_row i) ?t) \<le> 1"
    using assms ended_fewer by (simp add: incidents_ok_def open_rows_def)
  ultimately show ?thesis using assms ids by (simp add: incidents_ok_def open_rows_def)
qed

lemma inc_step_ok:
  assumes "inc_step d d'" "incidents_ok d"
  shows "incidents_ok d'"
  using assms
proof cases
  case (opened i sv t now)
  show ?thesis
  proof (cases "openFor i d")
    case None
    then have "open_rows i d = []" by (simp add: openFor_None)
    then have "\<forall>j. length (open_rows j d') \<le> 1" using assms(2) unfolding opened
      by (auto simp: open_rows_open incidents_ok_def)
    then show ?thesis using assms(2) None unfolding opened
      by (auto simp: incidents_ok_def open_incident_def unique_on_snoc)
  next
    case (Some r)
    then show ?thesis using assms(2) unfolding opened by (simp add: open_incident_def)
  qed
next
  case (closed i now)
  then show ?thesis using ended_ok [OF assms(2)] by (simp add: close_incident_def)
next
  case (resolved k now)
  then show ?thesis using ended_ok [OF assms(2)] by (simp add: resolve_incident_def Let_def)
next
  case (updated k msg author now)
  have "ir_id ` set (ic_rows d) \<noteq> {} \<and> k \<in> ir_id ` set (ic_rows d)"
    using updated by (auto simp: addUpdate_def incident_byId_def first_where_None split: if_splits)
  with updated assms(2) show ?thesis
    by (auto simp: incidents_ok_def addUpdate_def open_rows_def split: if_splits)
next
  case (pruned before)
  let ?P = "\<lambda>r. sql_lt (ir_ended_at r) before"
  have "ur_incident_id u \<in> ir_id ` {r \<in> set (ic_rows d). \<not> ?P r}"
    if "u \<in> set (ic_updates d)" "ur_incident_id u \<notin> ir_id ` {r \<in> set (ic_rows d). ?P r}" for u
  proof -
    have "ur_incident_id u \<in> ir_id ` set (ic_rows d)" using assms(2) that(1) by (simp add: incidents_ok_def)
    then obtain r where "r \<in> set (ic_rows d)" "ur_incident_id u = ir_id r" by (rule imageE)
    with that(2) show ?thesis by auto
  qed
  moreover have "\<forall>j. length (open_rows j d') \<le> 1" using assms(2) unfolding pruned
    by (simp add: open_rows_prune incidents_ok_def)
  ultimately show ?thesis using assms(2) unfolding pruned
    by (auto simp: incidents_ok_def pruneIncidents_def Let_def unique_on_del_where)
qed

lemma inc_step_seq: "inc_step d d' \<Longrightarrow> ic_seq d \<le> ic_seq d'"
proof (induction rule: inc_step.induct)
  case (opened d i sv t now)
  then show ?case by (simp add: open_incident_def split: option.splits)
qed (simp_all add: close_incident_def resolve_incident_def Let_def updated_rows pruneIncidents_def)

interpretation ai: autoinc_table ic_rows ir_id ic_seq inc_step ended_evo incidents_ok
proof unfold_locales
  fix d d' assume "incidents_ok d" "inc_step d d'"
  then show "incidents_ok d'" by (rule inc_step_ok [rotated])
next
  fix d d' assume "incidents_ok d" "inc_step d d'"
  from \<open>inc_step d d'\<close> show "ic_seq d \<le> ic_seq d'" by (rule inc_step_seq)
next
  fix d d' r' assume "incidents_ok d" "inc_step d d'" "r' \<in> set (ic_rows d')"
  from this(2,3) show "(\<exists>r \<in> set (ic_rows d). ir_id r = ir_id r' \<and> ended_evo r r') \<or> ic_seq d < ir_id r'"
    by (rule inc_step_back)
qed (auto simp: incidents_ok_def)

text \<open>
  C31. However incidents are opened, closed, resolved by hand, commented and pruned: numbers stay
  unique, a service has at most one open incident, no update outlives its incident, and an
  incident that has ended is found unchanged or not at all.  Operations run one at a time: \<open>open\<close>
  looks for an open incident and inserts in two statements of the store, which are one step here.
\<close>

theorem incident_history_final:
  assumes "inc_step\<^sup>*\<^sup>* no_incidents d" "inc_step\<^sup>*\<^sup>* d d'"
  shows "unique_on ir_id (ic_rows d') \<and> length (open_rows i d') \<le> 1 \<and>
    (\<forall>u \<in> set (ic_updates d'). ur_incident_id u \<in> ir_id ` set (ic_rows d')) \<and>
    (\<forall>r \<in> set (ic_rows d). \<forall>r' \<in> set (ic_rows d').
       ir_ended_at r \<noteq> None \<and> ir_id r' = ir_id r \<longrightarrow> r' = r)"
proof -
  have ok: "incidents_ok d" using ai.ok_run [OF assms(1) no_incidents_ok] .
  have "r' = r" if "r \<in> set (ic_rows d)" "r' \<in> set (ic_rows d')" "ir_ended_at r \<noteq> None" "ir_id r' = ir_id r" for r r'
    using ai.final_stays [OF assms(2) ok that(1,2,4)] that(3) by (simp add: ended_evo_def)
  with ai.ok_run [OF assms(2) ok] show ?thesis by (simp add: incidents_ok_def)
qed

lemma demo_loops: "(acts A)\<^sup>*\<^sup>* demo_boot demo_failed" if "Act_loop \<in> A"
proof -
  have "acts A m m'" if "mon_step m m'" for m m'
    using that \<open>Act_loop \<in> A\<close> mon_act.loop by (auto simp: acts_def)
  then show ?thesis using demo_steps mono_rtranclp [of mon_step "acts A"] by blast
qed

text \<open>The incident of the failed service, and the same service still bad after an operator has resolved it.\<close>

theorem incidents_follow_status_witness:
  "let m = demo_failed\<lparr> mo_incidents := fst (resolve_incident 1 9 (mo_incidents demo_failed)) \<rparr>
   in open_count ''web'' demo_failed = 1 \<and> open_count ''web'' m = 0 \<and> bad ''web'' m"
proof -
  let ?m = "demo_failed\<lparr> mo_incidents := fst (resolve_incident 1 9 (mo_incidents demo_failed)) \<rparr>"
  have over: "\<forall>r \<in> set (ic_rows no_incidents). ir_ended_at r \<noteq> None" "open_rows ''web'' no_incidents = []"
    by (simp_all add: no_incidents_def open_rows_def)
  note c = incidents_follow_status [OF demo_boot_def, of demo_failed "''web''"]
  have bad: "bad ''web'' demo_failed" using demo_failed_status by (simp add: bad_def was_down_def is_down_def)
  have l: "(acts {Act_loop, Act_comment})\<^sup>*\<^sup>* demo_boot demo_failed" "(acts UNIV)\<^sup>*\<^sup>* demo_boot demo_failed"
    by (rule demo_loops, simp)+
  have len: "length (open_rows ''web'' no_incidents) \<le> 1" using over(2) by simp
  have 1: "open_count ''web'' demo_failed = 1"
    using mp [OF mp [OF conjunct1 [OF c] l(1)] over(1)] bad by (simp only: if_True)
  have id: "1 \<in> ir_id ` set (open_rows ''web'' (mo_incidents demo_failed))" by code_simp
  have all: "\<forall>x m'. mon_act x demo_failed m' \<longrightarrow> open_count ''web'' m' = after_act ''web'' x demo_failed m'"
    by (rule conjunct2 [OF mp [OF mp [OF conjunct2 [OF conjunct2 [OF c]] l(2)] len]])
  have "open_count ''web'' ?m = after_act ''web'' (Act_resolve 1) demo_failed ?m"
    using all mon_act.resolve [of 1 demo_failed 9] by blast
  then have "open_count ''web'' ?m = 0" using id by (simp add: after_act_def)
  moreover have "bad ''web'' ?m" using bad by (simp add: bad_def)
  ultimately show ?thesis using 1 by (simp add: Let_def)
qed

theorem incident_history_final_witness:
  "let d = close_incident ''web'' 9 (fst (open_incident ''web'' ''major'' ''Web is down'' 5 no_incidents));
       d' = fst (open_incident ''web'' ''minor'' ''Web is degraded'' 20 d)
   in length (ic_rows d') = 2 \<and> length (open_rows ''web'' d') \<le> 1"
proof -
  define d0 where "d0 = fst (open_incident ''web'' ''major'' ''Web is down'' 5 no_incidents)"
  define d where "d = close_incident ''web'' 9 d0"
  define d' where "d' = fst (open_incident ''web'' ''minor'' ''Web is degraded'' 20 d)"
  have "inc_step no_incidents d0" "inc_step d0 d" "inc_step d d'"
    unfolding d0_def d_def d'_def by (rule inc_step.intros)+
  then have "inc_step\<^sup>*\<^sup>* no_incidents d" "inc_step\<^sup>*\<^sup>* d d'" by auto
  from incident_history_final [OF this, of "''web''"] have "length (open_rows ''web'' d') \<le> 1" by simp
  moreover have "length (ic_rows d') = 2" unfolding d'_def d_def d0_def by code_simp
  ultimately show ?thesis unfolding Let_def d0_def [symmetric] d_def [symmetric] d'_def [symmetric] by simp
qed

end
