(* ===== verification/Loop_Props.thy ===== *)
theory Loop_Props
  imports Incident_Props
begin

text \<open>
  How many check loops a service has.  A loop is an armed timeout, a place in the queue, a woken
  continuation or a running check of the service; every step of the event loop moves it along and
  none ends it, so the number is settled by how often \<open>start\<close> was called and by what \<open>stop\<close> missed.
\<close>

section \<open>The life of the monitor\<close>

text \<open>
  Steps of the event loop and reloads of the configuration, with at most \<open>k\<close> slots in every
  configuration loaded.
\<close>

inductive mon_life :: "nat \<Rightarrow> monitor \<Rightarrow> monitor \<Rightarrow> bool" for k where
  step: "mon_step m m' \<Longrightarrow> mon_life k m m'"
| reloaded: "distinct (map sv_id (cf_services c)) \<Longrightarrow> mc_concurrency (cf_monitor c) \<le> k \<Longrightarrow>
    mon_life k m (reload random now c m)"

lemma mon_life_inv: "mon_life k m m' \<Longrightarrow> loop_inv k m \<Longrightarrow> loop_inv k m'"
proof (induction rule: mon_life.induct)
  case (step m m')
  then show ?case using mon_step_inv by blast
next
  case (reloaded c m random now)
  then show ?case using reload_inv [of k m c random now] by (simp add: loop_inv_def)
qed

lemma mon_life_run_inv: "(mon_life k)\<^sup>*\<^sup>* m m' \<Longrightarrow> loop_inv k m \<Longrightarrow> loop_inv k m'"
  by (induction rule: rtranclp_induct) (auto intro: mon_life_inv)

lemma reload_config: "mo_config (reload random now c m) = c"
proof -
  have l: "same_loop (forget c ((stop_monitor m)\<lparr> mo_config := c \<rparr>))
    (fold (\<lambda>s x. if mo_states x (sv_id s) = None then track c s x else x) (cf_services c)
       (forget c ((stop_monitor m)\<lparr> mo_config := c \<rparr>)))"
    by (rule fold_track_loop)
  have s: "mo_config (fold (\<lambda>s x. schedule s (f x s) x) ss x) = mo_config x" for f ss x
    by (induction ss arbitrary: x) (simp_all add: schedule_def)
  show ?thesis using l
    by (simp add: reload_def Let_def start_monitor_def prune_monitor_def s same_loop_def forget_def)
qed

lemma slots_weaken: "slots_ok j m \<Longrightarrow> j \<le> k \<Longrightarrow> slots_ok k m"
  by (simp add: slots_ok_def)

lemma boot_inv:
  assumes "distinct (map sv_id (cf_services c))" "mc_concurrency (cf_monitor c) \<le> k"
  shows "loop_inv k (boot_monitor r1 r2 now c ch d)"
    "loops i (boot_monitor r1 r2 now c ch d) = (if i \<in> set (map sv_id (cf_services c)) then 2 else 0)"
proof -
  have "slots_ok k (construct c ch d)" using construct_inv(1) assms(2) by (rule slots_weaken)
  from reload_inv [OF this construct_inv(2) assms, of r1 now i] construct_inv(4)
  have r: "slots_ok k (reload r1 now c (construct c ch d))" "handles_ok (reload r1 now c (construct c ch d))"
    "loops i (reload r1 now c (construct c ch d)) = (if i \<in> set (map sv_id (cf_services c)) then 1 else 0)"
    by (simp_all add: loop_inv_def)
  have "distinct (map sv_id (cf_services (mo_config (reload r1 now c (construct c ch d)))))"
    using assms(1) by (simp add: reload_config)
  from start_inv [OF r(1,2) this, of r2 now i] r(3)
  show "loop_inv k (boot_monitor r1 r2 now c ch d)"
    "loops i (boot_monitor r1 r2 now c ch d) = (if i \<in> set (map sv_id (cf_services c)) then 2 else 0)"
    by (simp_all add: boot_monitor_def reload_config)
qed

section \<open>Properties\<close>

text \<open>
  C32. The semaphore of the check loop: from boot on, across steps and reloads in any order, no
  more checks run at once than the largest concurrency configured, the count of slots taken is
  the number of running checks, and no check waits in the queue while a slot is free.
\<close>

theorem checks_bounded:
  assumes "distinct (map sv_id (cf_services c))" "mc_concurrency (cf_monitor c) \<le> k"
    and "(mon_life k)\<^sup>*\<^sup>* (boot_monitor r1 r2 now c checks incidents) m"
  shows "mo_inFlight m = int (length (mo_running m)) \<and> length (mo_running m) \<le> k \<and>
    (mo_queue m \<noteq> [] \<longrightarrow>
       mc_concurrency (cf_monitor (mo_config m)) \<le> length (mo_running m) + length (mo_woken m))"
  using mon_life_run_inv [OF assms(3) boot_inv(1) [OF assms(1,2)]]
  by (auto simp: loop_inv_def slots_ok_def concurrency_def)

text \<open>
  Every service is checked by two loops from boot on, because the process starts the monitor
  twice: first inside the \<open>apply\<close> that reloads the configuration, then by itself.
\<close>

theorem boot_runs_two_loops:
  assumes "distinct (map sv_id (cf_services c))" "i \<in> set (map sv_id (cf_services c))"
    and "mon_step\<^sup>*\<^sup>* (boot_monitor r1 r2 now c checks incidents) m"
  shows "loops i m = 2"
  using mon_run_inv [OF assms(3) boot_inv(1) [OF assms(1) order_refl], of i] boot_inv(2) [OF assms(1) order_refl]
    assms(2) by simp

text \<open>
  A reload ends only the timeouts it knows.  The loops it misses (running or woken checks and
  timeouts that a later one replaced in the map) go on for good, beside the one it starts for each
  service configured, and also for a service that is configured no more.
\<close>

theorem reload_keeps_loops:
  assumes "distinct (map sv_id (cf_services c))" "mc_concurrency (cf_monitor c) \<le> k"
    and "(mon_life k)\<^sup>*\<^sup>* (boot_monitor r1 r2 now c checks incidents) m"
    and "distinct (map sv_id (cf_services c'))" "mc_concurrency (cf_monitor c') \<le> k"
    and "mon_step\<^sup>*\<^sup>* (reload random now' c' m) m'"
  shows "loops i m' = orphans i m + (if i \<in> set (map sv_id (cf_services c')) then 1 else 0)"
proof -
  have "loop_inv k m" using mon_life_run_inv [OF assms(3) boot_inv(1) [OF assms(1,2)]] .
  then have "slots_ok k m" "handles_ok m" by (simp_all add: loop_inv_def)
  note r = reload_inv [OF this assms(4,5), of random now' i]
  show ?thesis using mon_run_inv [OF assms(6) conjunct1 [OF r], of i] r by simp
qed

section \<open>At a concrete run\<close>

lemma demo_ids: "distinct (map sv_id (cf_services demo_config))" "map sv_id (cf_services demo_config) = [''web'']"
  "mc_concurrency (cf_monitor demo_config) = 1"
  by (simp_all add: demo_config_def demo_service_def)

theorem checks_bounded_witness: "length (mo_running demo_failed) \<le> 1 \<and> mo_inFlight demo_failed = 0"
proof -
  have "(mon_life 1)\<^sup>*\<^sup>* demo_boot demo_failed"
    using demo_steps by (induction rule: rtranclp_induct) (auto intro: mon_life.step rtranclp.rtrancl_into_rtrancl)
  then have "mo_inFlight demo_failed = int (length (mo_running demo_failed)) \<and> length (mo_running demo_failed) \<le> 1"
    using checks_bounded [OF demo_ids(1), of 1 "\<lambda>_. 0" "\<lambda>_. 0" 0 "[]" no_incidents demo_failed] demo_ids(3)
    by (simp add: demo_boot_def)
  moreover have "mo_running demo_failed = []" by code_simp
  ultimately show ?thesis by simp
qed

theorem boot_runs_two_loops_witness: "loops ''web'' demo_failed = 2"
  by (rule boot_runs_two_loops [OF demo_ids(1) _ demo_steps [unfolded demo_boot_def]]) (simp add: demo_ids(2))

definition demo_without :: status_config where
  "demo_without = demo_config\<lparr> cf_services := [demo_service\<lparr> sv_id := ''other'' \<rparr>] \<rparr>"

theorem reload_keeps_loops_witness:
  "loops ''web'' (reload (\<lambda>_. 0) 9 demo_without (fire 0 demo_service demo_boot)) = 1"
proof -
  have "mon_step demo_boot (fire 0 demo_service demo_boot)"
    by (rule mon_step.timeout [of _ _ 0]) (simp_all add: demo_boot_fields)
  then have life: "(mon_life 1)\<^sup>*\<^sup>* (boot_monitor (\<lambda>_. 0) (\<lambda>_. 0) 0 demo_config [] no_incidents)
      (fire 0 demo_service demo_boot)"
    unfolding demo_boot_def [symmetric] by (intro r_into_rtranclp mon_life.step)
  have c: "distinct (map sv_id (cf_services demo_without))" "mc_concurrency (cf_monitor demo_without) \<le> 1"
    "''web'' \<notin> set (map sv_id (cf_services demo_without))"
    by (simp_all add: demo_without_def demo_config_def demo_service_def)
  have "loops ''web'' (reload (\<lambda>_. 0) 9 demo_without (fire 0 demo_service demo_boot)) =
      orphans ''web'' (fire 0 demo_service demo_boot)"
    using reload_keeps_loops [where i = "''web''" and random = "\<lambda>_. 0" and now' = 9,
        OF demo_ids(1) _ life c(1,2) rtranclp.rtrancl_refl] c(3) demo_ids(3)
    by simp
  moreover have "orphans ''web'' (fire 0 demo_service demo_boot) = 1" by code_simp
  ultimately show ?thesis by simp
qed

section \<open>Other corners of the status\<close>

text \<open>
  An incident that a restart finds open is not closed when the service turns out to be well: a
  first good check after boot shows the service operational and leaves its incident open.
\<close>

theorem stale_incident_stays_open:
  assumes "openFor i incidents = Some r" "s \<in> set (cf_services c)" "sv_id s = i"
    and "result_of oc = Good" "mc_failure_threshold (cf_monitor c) > 0"
  shows "let m = fst (settle_check now' s oc (boot_monitor r1 r2 now c checks incidents))
    in mo_status m i = Some Operational \<and> openFor i (mo_incidents m) \<noteq> None"
proof -
  let ?b = "boot_monitor r1 r2 now c checks incidents"
  have i: "i \<in> set (map sv_id (cf_services c))" using assms(2,3) by auto
  note b = boot_shown [OF i, of r1 r2 now checks incidents]
  have st: "ss_status (fst (apply_outcome oc (fresh_state c))) = Operational"
    using assms(4,5) by (simp add: apply_outcome_fields next_status_def count_result_def fresh_state_def new_state_def)
  have "mo_status (fst (settle_check now' s oc ?b)) i = Some Operational"
    using settle_check_shown [OF b, of now' s oc] assms(3) st by (simp add: shown_def)
  moreover have "mo_incidents (fst (settle_check now' s oc ?b)) = mo_incidents ?b"
  proof -
    obtain st' ch where a: "apply_outcome oc (fresh_state c) = (st', ch)" by (cases "apply_outcome oc (fresh_state c)")
    have st': "ss_status st' = Operational" using st a by simp
    have "ch = Some Operational" using a st' apply_outcome_changed [OF a]
      by (auto simp: fresh_state_def new_state_def split: option.splits)
    then show ?thesis using b assms(3) a
      by (simp add: settle_check_def Let_def shown_def onTransition_def was_down_def is_down_def fresh_state_def
          new_state_def split: option.splits)
  qed
  moreover have "open_rows i (mo_incidents ?b) \<noteq> []"
    using assms(1) boot_calm(2) [of i r1 r2 now c checks incidents] openFor_None [of i incidents] by simp
  ultimately show ?thesis by (simp add: Let_def openFor_None)
qed

theorem stale_incident_stays_open_witness:
  "let d = fst (open_incident ''web'' ''major'' ''Web is down'' 1 no_incidents);
       m = fst (settle_check 9 demo_service (demo_outcome True False) (boot_monitor (\<lambda>_. 0) (\<lambda>_. 0) 5 demo_config [] d))
   in mo_status m ''web'' = Some Operational \<and> openFor ''web'' (mo_incidents m) \<noteq> None"
proof -
  let ?d = "fst (open_incident ''web'' ''major'' ''Web is down'' 1 no_incidents)"
  obtain r where r: "openFor ''web'' ?d = Some r"
    by (simp add: open_incident_def openFor_def no_incidents_def sel_where_def order_by_desc_def open_row_def)
  have s: "demo_service \<in> set (cf_services demo_config)" "sv_id demo_service = ''web''"
    "result_of (demo_outcome True False) = Good" "mc_failure_threshold (cf_monitor demo_config) > 0"
    by (simp_all add: demo_config_def demo_service_def demo_outcome_def result_of_def)
  show ?thesis using stale_incident_stays_open [OF r s, of 9 "\<lambda>_. 0" "\<lambda>_. 0" 5 "[]"] by (simp add: Let_def)
qed

text \<open>
  A hard failure inside a streak of bad results is forgotten: an operational service that fails and
  is then merely slow is shown as degraded, not as an outage; in the other order it is an outage.
\<close>

lemma hard_failure_forgotten:
  "flap_status 2 2 [Slow, Bad, Good] = Degraded" "flap_status 2 2 [Bad, Slow, Good] = Major_outage"
  by (simp_all add: settle_def)

end
