(* ===== verification/Uptime.thy ===== *)
theory Uptime
  imports Monitor JS_Values
begin

text \<open>
  Uptime mathematics: \<open>src/src/lib/shared/uptime.ts\<close> and the weekly windows of
  \<open>src/src/lib/shared/maintenance.ts\<close>.  Divisions are exact, where the code rounds to a double; dates
  are UTC days counted from 1970-01-01 and written as \<open>Date.toISOString\<close> writes them.
\<close>

section \<open>Dates\<close>

definition DAY_MS :: ms where "DAY_MS = 86400000"

definition pad_digits :: "nat \<Rightarrow> int \<Rightarrow> string" where
  "pad_digits n k = (let d = int_text k in replicate (n - length d) (CHR ''0'') @ d)"

text \<open>Year, month and day of a day number (proleptic Gregorian calendar).\<close>

definition civil :: "int \<Rightarrow> int \<times> int \<times> int" where
  "civil day =
     (let z = day + 719468; era = z div 146097; doe = z mod 146097;
          yoe = (doe - doe div 1460 + doe div 36524 - doe div 146096) div 365;
          doy = doe - (365 * yoe + yoe div 4 - yoe div 100);
          mp = (5 * doy + 2) div 153;
          d = doy - (153 * mp + 2) div 5 + 1;
          m = (if mp < 10 then mp + 3 else mp - 9);
          y = yoe + era * 400 + (if m \<le> 2 then 1 else 0)
      in (y, m, d))"

definition year_text :: "int \<Rightarrow> string" where
  "year_text y = (if 0 \<le> y \<and> y \<le> 9999 then pad_digits 4 y
     else (if y < 0 then ''-'' else ''+'') @ pad_digits 6 \<bar>y\<bar>)"

definition date_text :: "ms \<Rightarrow> string" where
  "date_text t = (let (y, m, d) = civil (t div DAY_MS)
     in year_text y @ ''-'' @ pad_digits 2 m @ ''-'' @ pad_digits 2 d)"

definition iso_text :: "ms \<Rightarrow> string" where
  "iso_text t = (let r = t mod DAY_MS in date_text t @ ''T'' @ pad_digits 2 (r div 3600000) @ '':'' @
     pad_digits 2 (r div 60000 mod 60) @ '':'' @ pad_digits 2 (r div 1000 mod 60) @ ''.'' @
     pad_digits 3 (r mod 1000) @ ''Z'')"

definition dayKey :: "ms \<Rightarrow> ms \<Rightarrow> string" where
  "dayKey ts tzOffset = take 10 (iso_text (ts + tzOffset))"

text \<open>\<open>getUTCDay\<close>: the first of January 1970 was a Thursday.\<close>

definition utc_day :: "ms \<Rightarrow> int" where
  "utc_day t = (t div DAY_MS + 4) mod 7"

section \<open>Percentages\<close>

definition round2 :: "rat \<Rightarrow> rat" where
  "round2 n = of_int (js_round (n * 100)) / 100"

definition uptimePercent :: "check_row list \<Rightarrow> rat option" where
  "uptimePercent cs = (if cs = [] then None
     else Some (round2 (of_int (sum_list (map ck_ok cs)) / of_nat (length cs) * 100)))"

text \<open>The loop from the end of the rows down to the edge of the window.\<close>

fun walk_back :: "check_row list \<Rightarrow> ms \<Rightarrow> int \<Rightarrow> nat \<Rightarrow> int \<times> nat" where
  "walk_back [] from ok n = (ok, n)"
| "walk_back (c # cs) from ok n = (if ck_ts c < from then (ok, n) else walk_back cs from (ok + ck_ok c) (n + 1))"

definition uptimeFractionInRows :: "check_row list \<Rightarrow> ms \<Rightarrow> rat option" where
  "uptimeFractionInRows cs from =
     (let (ok, n) = walk_back (rev cs) from 0 0 in if n > 0 then Some (of_int ok / of_nat n) else None)"

section \<open>Daily buckets\<close>

record time_window =
  tw_start :: ms
  tw_end :: ms

record day_bucket =
  db_date :: string
  db_state :: day_state
  db_uptime :: "rat option"
  db_checks :: nat

definition day_zero :: "ms \<Rightarrow> nat \<Rightarrow> ms \<Rightarrow> ms" where
  "day_zero now days tz = (now + tz) div DAY_MS * DAY_MS - tz - (int days - 1) * DAY_MS"

text \<open>\<open>perDay\<close>: the number of checks and of good ones per day index.\<close>

definition count_check :: "ms \<Rightarrow> ms \<Rightarrow> check_row \<Rightarrow> (int \<Rightarrow> (nat \<times> int) option) \<Rightarrow> (int \<Rightarrow> (nat \<times> int) option)" where
  "count_check first now c per =
     (if ck_ts c < first \<or> ck_ts c > now then per
      else let idx = (ck_ts c - first) div DAY_MS; (n, up) = or_default (per idx) (0, 0)
           in per(idx \<mapsto> (n + 1, up + ck_ok c)))"

definition per_day :: "ms \<Rightarrow> ms \<Rightarrow> check_row list \<Rightarrow> (int \<Rightarrow> (nat \<times> int) option)" where
  "per_day first now cs = fold (count_check first now) cs (\<lambda>_. None)"

definition day_entry :: "ms \<Rightarrow> ms \<Rightarrow> time_window list \<Rightarrow> (int \<Rightarrow> (nat \<times> int) option) \<Rightarrow> nat \<Rightarrow> day_bucket" where
  "day_entry first tz maintenance per i =
     (let dayStart = first + int i * DAY_MS; dayEnd = dayStart + DAY_MS;
          fraction = (case per (int i) of None \<Rightarrow> None
            | Some (n, up) \<Rightarrow> if n > 0 then Some (of_int up / of_nat n) else None);
          full = list_ex (\<lambda>w. tw_start w \<le> dayStart \<and> tw_end w \<ge> dayEnd) maintenance
      in \<lparr> db_date = dayKey dayStart tz,
           db_state = (if full then Day_maintenance else classifyDay fraction),
           db_uptime = map_option (\<lambda>f. round2 (f * 100)) fraction,
           db_checks = (case per (int i) of None \<Rightarrow> 0 | Some (n, _) \<Rightarrow> n) \<rparr>)"

definition buildDayBuckets ::
  "ms \<Rightarrow> nat \<Rightarrow> check_row list \<Rightarrow> time_window list \<Rightarrow> ms option \<Rightarrow> day_bucket list" where
  "buildDayBuckets now days checks maintenance tzOffsetMs =
     (let tz = or_default tzOffsetMs 0; first = day_zero now days tz; per = per_day first now checks
      in map (day_entry first tz maintenance per) [0..<days])"

section \<open>Latency series\<close>

record latency_agg =
  la_sum :: int
  la_n :: nat
  la_min :: "int option"
  la_max :: int

record latency_point =
  lp_t :: int
  lp_avg :: "int option"
  lp_min :: "int option"
  lp_max :: "int option"

definition no_latency :: latency_agg where
  "no_latency = \<lparr> la_sum = 0, la_n = 0, la_min = None, la_max = 0 \<rparr>"

definition add_latency :: "int \<Rightarrow> latency_agg \<Rightarrow> latency_agg" where
  "add_latency l b = \<lparr> la_sum = la_sum b + l, la_n = la_n b + 1,
     la_min = (case la_min b of None \<Rightarrow> Some l | Some m \<Rightarrow> if l < m then Some l else Some m),
     la_max = (if l > la_max b then l else la_max b) \<rparr>"

definition bucket_index :: "ms \<Rightarrow> ms \<Rightarrow> nat \<Rightarrow> check_row \<Rightarrow> int" where
  "bucket_index start stop buckets c =
     (let width = of_int (stop - start) / of_nat buckets :: rat
      in min (int buckets - 1) \<lfloor>of_int (ck_ts c - start) / width\<rfloor>)"

definition add_check :: "ms \<Rightarrow> ms \<Rightarrow> nat \<Rightarrow> check_row \<Rightarrow> latency_agg list \<Rightarrow> latency_agg list" where
  "add_check start stop buckets c agg =
     (let i = bucket_index start stop buckets c
      in if i < 0 then agg else agg[nat i := add_latency (ck_latency c) (agg ! nat i)])"

definition latency_entry :: "ms \<Rightarrow> ms \<Rightarrow> nat \<Rightarrow> latency_agg \<Rightarrow> nat \<Rightarrow> latency_point" where
  "latency_entry start stop buckets b i =
     \<lparr> lp_t = js_round (of_int start + of_nat i * (of_int (stop - start) / of_nat buckets)),
       lp_avg = (if la_n b > 0 then Some (js_round (of_int (la_sum b) / of_nat (la_n b))) else None),
       lp_min = (if la_n b > 0 then la_min b else None),
       lp_max = (if la_n b > 0 then Some (la_max b) else None) \<rparr>"

definition buildLatencySeries :: "check_row list \<Rightarrow> ms \<Rightarrow> ms \<Rightarrow> nat \<Rightarrow> latency_point list" where
  "buildLatencySeries checks start stop buckets =
     (let agg = fold (add_check start stop buckets) checks (replicate buckets no_latency)
      in map (\<lambda>i. latency_entry start stop buckets (agg ! i) i) [0..<buckets])"

section \<open>Weekly windows\<close>

definition WEEKDAYS :: "string list" where
  "WEEKDAYS = [''sun'', ''mon'', ''tue'', ''wed'', ''thu'', ''fri'', ''sat'']"

definition index_of :: "'a \<Rightarrow> 'a list \<Rightarrow> int" where
  "index_of x xs = (let n = length (takeWhile (\<lambda>y. y \<noteq> x) xs) in if n < length xs then int n else -1)"

text \<open>
  \<open>at.split(':').map(Number)\<close> in milliseconds.  The schema admits \<open>HH:MM\<close> only, so the case without two
  integers does not arise; there the loop of the code would see NaN and add nothing.
\<close>

definition clock_ms :: "string \<Rightarrow> ms option" where
  "clock_ms clock = (case map (num_int \<circ> str_number) (split_on (CHR '':'') clock) of
       Some h # Some m # _ \<Rightarrow> Some ((h * 60 + m) * 60000) | _ \<Rightarrow> None)"

function weekly_loop :: "ms \<Rightarrow> ms \<Rightarrow> ms \<Rightarrow> ms \<Rightarrow> ms \<Rightarrow> time_window list" where
  "weekly_loop offset dur from till day =
     (if day + offset \<le> till then
        let start = day + offset; rest = weekly_loop offset dur from till (day + 7 * DAY_MS)
        in if start + dur \<ge> from \<and> start \<le> till
           then \<lparr> tw_start = start, tw_end = start + dur \<rparr> # rest else rest
      else [])"
  by pat_completeness auto
termination
  by (relation "measure (\<lambda>(offset, dur, from, till, day). nat (till - offset + 1 - day))")
    (auto simp: DAY_MS_def)

declare weekly_loop.simps [simp del]

definition weeklyOccurrences :: "string \<Rightarrow> string \<Rightarrow> nat \<Rightarrow> ms \<Rightarrow> ms \<Rightarrow> time_window list" where
  "weeklyOccurrences weekday clock durationMinutes from till =
     (case clock_ms clock of None \<Rightarrow> []
      | Some offset \<Rightarrow>
          (let day0 = from div DAY_MS * DAY_MS;
               shift = (index_of weekday WEEKDAYS - utc_day day0) mod 7
           in weekly_loop offset (int durationMinutes * 60000) from till
                (day0 + shift * DAY_MS - 7 * DAY_MS)))"

end
