(* ===== verification/Uptime_Props.thy ===== *)
theory Uptime_Props
  imports Uptime "HOL-Library.Multiset"
begin

text \<open>
  The uptime numbers against what they count: the loop over rows against the aggregate of the
  store, the daily buckets against a filter per day, the weekly windows against the calendar, and
  the bounds of the latency series.
\<close>

section \<open>Rows and the aggregate of the store\<close>

lemma walk_back_spec:
  "walk_back cs from ok n =
     (let w = takeWhile (\<lambda>c. ck_ts c \<ge> from) cs in (ok + sum_list (map ck_ok w), n + length w))"
  by (induction cs arbitrary: ok n) (auto simp: Let_def)

lemma takeWhile_sorted_desc:
  "sorted (map ck_ts (rev cs)) \<Longrightarrow> takeWhile (\<lambda>c. ck_ts c \<ge> from) cs = filter (\<lambda>c. ck_ts c \<ge> from) cs"
proof (induction cs)
  case (Cons c cs)
  then have s: "sorted (map ck_ts (rev cs))" "\<forall>x \<in> set cs. ck_ts x \<le> ck_ts c"
    by (auto simp: sorted_append)
  show ?case
  proof (cases "ck_ts c \<ge> from")
    case False
    then have "filter (\<lambda>c. ck_ts c \<ge> from) cs = []" using s(2) by (force simp: filter_empty_conv)
    with False show ?thesis by simp
  qed (simp add: Cons.IH [OF s(1)])
qed simp

lemma sum_list_filter_sort:
  "sum_list (map f (filter P (sort_key k t))) = (sum_list (map f (filter P t)) :: int)"
  "length (filter P (sort_key k t)) = length (filter P t)"
proof -
  have m: "mset (filter P (sort_key k t)) = mset (filter P t)" by simp
  then have "mset (map f (filter P (sort_key k t))) = mset (map f (filter P t))" by (metis mset_map)
  then show "sum_list (map f (filter P (sort_key k t))) = sum_list (map f (filter P t))"
    by (metis sum_mset_sum_list)
  show "length (filter P (sort_key k t)) = length (filter P t)" using m by (metis size_mset)
qed

text \<open>
  The uptime counted from fetched rows is the one the store would compute: for a window inside
  the fetched range the loop gives \<open>SUM(ok) / COUNT(*)\<close> over the rows of the table, and null exactly
  when there are none.
\<close>

theorem uptime_rows_mirror_store:
  assumes "since \<le> from"
  shows "uptimeFractionInRows (checks_since i since t) from = uptime_fraction i from t"
proof -
  let ?rs = "checks_since i since t" and ?P = "\<lambda>c. ck_ts c \<ge> from"
  have "sorted (map ck_ts ?rs)" by (simp add: checks_since_def order_by_sorted)
  then have w: "takeWhile ?P (rev ?rs) = filter ?P (rev ?rs)" by (intro takeWhile_sorted_desc) simp
  have f: "filter ?P (sel_where (\<lambda>r. ck_service_id r = i \<and> ck_ts r \<ge> since) t)
      = sel_where (\<lambda>r. ck_service_id r = i \<and> ck_ts r \<ge> from) t"
    using assms unfolding sel_where_def filter_filter by (intro filter_cong) auto
  have sums: "sum_list (map ck_ok (filter ?P (rev ?rs))) =
      sum_list (map ck_ok (sel_where (\<lambda>r. ck_service_id r = i \<and> ck_ts r \<ge> from) t))"
    "length (filter ?P (rev ?rs)) = length (sel_where (\<lambda>r. ck_service_id r = i \<and> ck_ts r \<ge> from) t)"
    unfolding f [symmetric] checks_since_def order_by_def rev_filter [symmetric] rev_map [symmetric] sum_list_rev length_rev
    by (rule sum_list_filter_sort)+
  show ?thesis
    by (simp add: uptimeFractionInRows_def uptime_fraction_def walk_back_spec w Let_def sums del: length_0_conv)
qed

definition demo_check :: "ms \<Rightarrow> bool \<Rightarrow> check_row" where
  "demo_check ts ok = \<lparr> ck_service_id = ''web'', ck_ts = ts, ck_ok = (if ok then 1 else 0), ck_latency = 10,
     ck_status = (if ok then ''up'' else ''down''), ck_detail = None \<rparr>"

theorem uptime_rows_mirror_store_witness:
  "uptimeFractionInRows (checks_since ''web'' 5 [demo_check 20 True, demo_check 4 True, demo_check 10 False]) 10
     = Some (1 / 2)"
proof -
  have "uptime_fraction ''web'' 10 [demo_check 20 True, demo_check 4 True, demo_check 10 False] = Some (1 / 2)"
    by (simp add: uptime_fraction_def sel_where_def demo_check_def)
  then show ?thesis
    using uptime_rows_mirror_store [of 5 10 "''web''" "[demo_check 20 True, demo_check 4 True, demo_check 10 False]"]
    by simp
qed

section \<open>Daily buckets\<close>

lemma per_day_spec:
  "fold (count_check first now) cs per k =
     (let sel = filter (\<lambda>c. first \<le> ck_ts c \<and> ck_ts c \<le> now \<and> (ck_ts c - first) div DAY_MS = k) cs in
      if sel = [] then per k
      else (case or_default (per k) (0, 0) of (n, up) \<Rightarrow> Some (n + length sel, up + sum_list (map ck_ok sel))))"
proof (induction cs arbitrary: per)
  case (Cons c cs)
  show ?case
  proof (cases "first \<le> ck_ts c \<and> ck_ts c \<le> now \<and> (ck_ts c - first) div DAY_MS = k")
    case True
    obtain n up where p: "or_default (per k) (0, 0) = (n, up)" by (cases "or_default (per k) (0, 0)")
    then have "count_check first now c per k = Some (n + 1, up + ck_ok c)"
      using True by (simp add: count_check_def Let_def)
    then show ?thesis using True p by (simp add: Cons.IH Let_def)
  next
    case False
    then have "count_check first now c per k = per k"
      by (auto simp: count_check_def Let_def split: prod.splits)
    moreover have "filter (\<lambda>c. first \<le> ck_ts c \<and> ck_ts c \<le> now \<and> (ck_ts c - first) div DAY_MS = k) (c # cs)
        = filter (\<lambda>c. first \<le> ck_ts c \<and> ck_ts c \<le> now \<and> (ck_ts c - first) div DAY_MS = k) cs"
      using False by (simp only: filter.simps if_False)
    ultimately show ?thesis unfolding Let_def fold_simps by (simp only: Cons.IH Let_def)
  qed
qed simp

lemma day_index:
  "first \<le> ts \<Longrightarrow> ((ts - first) div DAY_MS = k) = (first + k * DAY_MS \<le> ts \<and> ts < first + k * DAY_MS + DAY_MS)"
  by (auto simp: DAY_MS_def)

definition in_day :: "ms \<Rightarrow> nat \<Rightarrow> ms \<Rightarrow> nat \<Rightarrow> check_row \<Rightarrow> bool" where
  "in_day now days tz i c =
     (let start = day_zero now days tz + int i * DAY_MS in start \<le> ck_ts c \<and> ck_ts c < start + DAY_MS \<and> ck_ts c \<le> now)"

lemma per_day_entry:
  "per_day (day_zero now days tz) now cs (int i) =
     (let sel = filter (in_day now days tz i) cs in
      if sel = [] then None else Some (length sel, sum_list (map ck_ok sel)))"
proof -
  let ?z = "day_zero now days tz"
  have "(?z \<le> ck_ts c \<and> ck_ts c \<le> now \<and> (ck_ts c - ?z) div DAY_MS = int i) = in_day now days tz i c" for c
  proof -
    have "0 \<le> int i * DAY_MS" by (simp add: DAY_MS_def)
    then show ?thesis using day_index [of ?z "ck_ts c" "int i"]
      by (cases "?z \<le> ck_ts c") (auto simp: in_day_def Let_def)
  qed
  then have "filter (\<lambda>c. ?z \<le> ck_ts c \<and> ck_ts c \<le> now \<and> (ck_ts c - ?z) div DAY_MS = int i) cs
      = filter (in_day now days tz i) cs" by simp
  then show ?thesis unfolding per_day_def per_day_spec by (simp add: Let_def)
qed

text \<open>
  The daily history: one bucket per day asked for, the last one being the day of now; each
  counts exactly the checks of its 24 hours up to now, and its uptime is their share of good ones
  as a rounded percentage, null when there are none.
\<close>

theorem day_buckets_exact:
  assumes "0 < days"
  shows "length (buildDayBuckets now days checks mw (Some tz)) = days \<and>
    (day_zero now days tz + int (days - 1) * DAY_MS \<le> now \<and> now < day_zero now days tz + int days * DAY_MS) \<and>
    (\<forall>i < days. let b = buildDayBuckets now days checks mw (Some tz) ! i;
                    sel = filter (in_day now days tz i) checks
       in db_checks b = length sel \<and>
          db_uptime b = (if sel = [] then None
            else Some (round2 (of_int (sum_list (map ck_ok sel)) / of_nat (length sel) * 100))))"
proof -
  have n: "(now + tz) mod DAY_MS = now + tz - (now + tz) div DAY_MS * DAY_MS"
    "0 \<le> (now + tz) mod DAY_MS" "(now + tz) mod DAY_MS < DAY_MS"
    by (simp_all add: minus_div_mult_eq_mod DAY_MS_def)
  obtain d where d: "days = Suc d" using assms by (cases days) auto
  have z: "day_zero now days tz + int (days - 1) * DAY_MS = (now + tz) div DAY_MS * DAY_MS - tz"
    by (simp add: day_zero_def d algebra_simps)
  have "day_zero now days tz + int days * DAY_MS = (now + tz) div DAY_MS * DAY_MS - tz + DAY_MS"
    by (simp add: day_zero_def d algebra_simps)
  with n z have "day_zero now days tz + int (days - 1) * DAY_MS \<le> now \<and>
      now < day_zero now days tz + int days * DAY_MS" by linarith
  moreover have "let b = buildDayBuckets now days checks mw (Some tz) ! i;
                    sel = filter (in_day now days tz i) checks
       in db_checks b = length sel \<and>
          db_uptime b = (if sel = [] then None
            else Some (round2 (of_int (sum_list (map ck_ok sel)) / of_nat (length sel) * 100)))" if "i < days" for i
    using that by (simp add: buildDayBuckets_def day_entry_def per_day_entry Let_def)
  ultimately show ?thesis by (simp add: buildDayBuckets_def Let_def)
qed

theorem day_buckets_exact_witness:
  "length (buildDayBuckets 90000000 2 [demo_check 10 True, demo_check 86400005 False] [] (Some 0)) = 2"
  using day_buckets_exact [of 2 90000000 "[demo_check 10 True, demo_check 86400005 False]" "[]" 0] by simp

section \<open>Weekly windows\<close>

lemma weekly_loop_spec:
  "w \<in> set (weekly_loop offset dur from till day) \<longleftrightarrow>
     (\<exists>k \<ge> 0. tw_start w = day + k * (7 * DAY_MS) + offset) \<and> tw_end w = tw_start w + dur \<and>
     tw_start w + dur \<ge> from \<and> tw_start w \<le> till"
proof (induction offset dur "from" till day rule: weekly_loop.induct)
  case (1 offset dur "from" till day)
  show ?case
  proof (cases "day + offset \<le> till")
    case False
    have "0 \<le> k * (7 * DAY_MS)" if "0 \<le> k" for k :: int using that by (simp add: DAY_MS_def)
    then have "\<not> (\<exists>k \<ge> 0. tw_start w = day + k * (7 * DAY_MS) + offset \<and> tw_start w \<le> till)"
      using False by (smt (verit))
    then show ?thesis using False by (subst weekly_loop.simps) auto
  next
    case True
    have split: "(\<exists>k \<ge> 0. s = day + k * (7 * DAY_MS) + offset) \<longleftrightarrow>
        s = day + offset \<or> (\<exists>k \<ge> 0. s = day + 7 * DAY_MS + k * (7 * DAY_MS) + offset)" for s
    proof
      assume "\<exists>k \<ge> 0. s = day + k * (7 * DAY_MS) + offset"
      then obtain k where k: "0 \<le> k" "s = day + k * (7 * DAY_MS) + offset" by blast
      show "s = day + offset \<or> (\<exists>k \<ge> 0. s = day + 7 * DAY_MS + k * (7 * DAY_MS) + offset)"
      proof (cases "k = 0")
        case False
        then have "0 \<le> k - 1 \<and> s = day + 7 * DAY_MS + (k - 1) * (7 * DAY_MS) + offset"
          using k by (simp add: algebra_simps)
        then show ?thesis by blast
      qed (use k in simp)
    next
      assume "s = day + offset \<or> (\<exists>k \<ge> 0. s = day + 7 * DAY_MS + k * (7 * DAY_MS) + offset)"
      then show "\<exists>k \<ge> 0. s = day + k * (7 * DAY_MS) + offset"
      proof
        assume "s = day + offset"
        then show ?thesis by (intro exI [of _ 0]) simp
      next
        assume "\<exists>k \<ge> 0. s = day + 7 * DAY_MS + k * (7 * DAY_MS) + offset"
        then obtain k where "0 \<le> k" "s = day + 7 * DAY_MS + k * (7 * DAY_MS) + offset" by blast
        then show ?thesis by (intro exI [of _ "k + 1"]) (simp add: algebra_simps)
      qed
    qed
    let ?w = "\<lparr> tw_start = day + offset, tw_end = day + offset + dur \<rparr>"
    let ?rest = "weekly_loop offset dur from till (day + 7 * DAY_MS)"
    have e: "set (weekly_loop offset dur from till day) =
        (if day + offset + dur \<ge> from then insert ?w (set ?rest) else set ?rest)"
      using True by (subst weekly_loop.simps) (simp add: Let_def)
    have w: "w = ?w \<longleftrightarrow> tw_start w = day + offset \<and> tw_end w = tw_start w + dur" by (cases w) auto
    show ?thesis unfolding e split using 1 [OF True refl] w True by (auto split: if_splits)
  qed
qed

lemma index_of_weekday: "wd \<in> set WEEKDAYS \<Longrightarrow> 0 \<le> index_of wd WEEKDAYS \<and> index_of wd WEEKDAYS < 7"
  by (auto simp: WEEKDAYS_def index_of_def)

lemma weekday_days:
  fixes q q0 idx :: int
  assumes "0 \<le> idx" "idx < 7"
  shows "(q + 4) mod 7 = idx \<longleftrightarrow> (\<exists>k. q = q0 + (idx - (q0 + 4) mod 7) mod 7 - 7 + 7 * k)"
proof -
  define sh where "sh = (idx - (q0 + 4) mod 7) mod 7"
  have "(q0 + sh + 4) mod 7 = (q0 + 4 + (idx - (q0 + 4) mod 7) mod 7) mod 7" by (simp add: sh_def ac_simps)
  also have "\<dots> = (q0 + 4 + (idx - (q0 + 4) mod 7)) mod 7" by (rule mod_add_right_eq)
  also have "\<dots> = (idx + ((q0 + 4) - (q0 + 4) mod 7)) mod 7" by (simp add: algebra_simps)
  also have "\<dots> = idx mod 7" by (simp only: minus_mod_eq_mult_div mod_mult_self2)
  finally have idx: "(q0 + sh + 4) mod 7 = idx" using assms by simp
  have "(q + 4) mod 7 = (q0 + sh + 4) mod 7 \<longleftrightarrow> (\<exists>k. q = q0 + sh - 7 + 7 * k)"
  proof
    assume "(q + 4) mod 7 = (q0 + sh + 4) mod 7"
    then have "7 dvd q + 4 - (q0 + sh + 4)" by (simp add: mod_eq_dvd_iff)
    then obtain k where "q + 4 - (q0 + sh + 4) = 7 * k" by (auto elim: dvdE)
    then have "q = q0 + sh - 7 + 7 * (k + 1)" by simp
    then show "\<exists>k. q = q0 + sh - 7 + 7 * k" by blast
  next
    assume "\<exists>k. q = q0 + sh - 7 + 7 * k"
    then obtain k where "q = q0 + sh - 7 + 7 * k" by blast
    then have "q + 4 = q0 + sh + 4 + 7 * (k - 1)" by simp
    then show "(q + 4) mod 7 = (q0 + sh + 4) mod 7" by (simp only: mod_mult_self2)
  qed
  then show ?thesis using idx by (simp add: sh_def)
qed

text \<open>
  C36. A weekly maintenance rule stands for exactly its occurrences: on its weekday at its time of
  day, for its duration, that end no earlier than the range begins and begin no later than it
  ends.  No occurrence that began before the range and still lasts is missed, up to the longest
  duration the schema admits, which is a week.
\<close>

theorem weekly_exact:
  assumes "wd \<in> set WEEKDAYS" "clock_ms clock = Some off" "0 \<le> off" "off < DAY_MS" "minutes \<le> 10080"
  shows "w \<in> set (weeklyOccurrences wd clock minutes from till) \<longleftrightarrow>
    utc_day (tw_start w) = index_of wd WEEKDAYS \<and> tw_start w mod DAY_MS = off \<and>
    tw_end w = tw_start w + int minutes * 60000 \<and> from \<le> tw_end w \<and> tw_start w \<le> till"
proof -
  define s where "s = tw_start w"
  define q0 where "q0 = from div DAY_MS"
  define sh where "sh = (index_of wd WEEKDAYS - (q0 + 4) mod 7) mod 7"
  have sh: "0 \<le> sh" "sh < 7" by (simp_all add: sh_def)
  have q0: "q0 * DAY_MS \<le> from"
    using minus_mod_eq_div_mult [of "from" DAY_MS] pos_mod_sign [of DAY_MS "from"]
    by (simp add: q0_def DAY_MS_def)
  have "utc_day (from div DAY_MS * DAY_MS) = (q0 + 4) mod 7" by (simp add: utc_day_def q0_def DAY_MS_def)
  then have occ: "weeklyOccurrences wd clock minutes from till =
      weekly_loop off (int minutes * 60000) from till (q0 * DAY_MS + sh * DAY_MS - 7 * DAY_MS)"
    by (simp add: weeklyOccurrences_def assms(2) Let_def sh_def q0_def)
  have time: "s mod DAY_MS = off \<longleftrightarrow> s = s div DAY_MS * DAY_MS + off"
    using div_mult_mod_eq [of s DAY_MS] by (smt (verit))
  have day: "utc_day s = index_of wd WEEKDAYS \<longleftrightarrow> (\<exists>k. s div DAY_MS = q0 + sh - 7 + 7 * k)"
    using weekday_days [of "index_of wd WEEKDAYS" "s div DAY_MS" q0] index_of_weekday [OF assms(1)]
    by (simp add: utc_day_def sh_def)
  have "(\<exists>k. s = q0 * DAY_MS + sh * DAY_MS - 7 * DAY_MS + k * (7 * DAY_MS) + off) \<longleftrightarrow>
      utc_day s = index_of wd WEEKDAYS \<and> s mod DAY_MS = off"
  proof
    assume "\<exists>k. s = q0 * DAY_MS + sh * DAY_MS - 7 * DAY_MS + k * (7 * DAY_MS) + off"
    then obtain k where k: "s = (q0 + sh - 7 + 7 * k) * DAY_MS + off" by (auto simp: algebra_simps)
    then have "s div DAY_MS = q0 + sh - 7 + 7 * k" "s mod DAY_MS = off"
      using assms(3,4) by (simp_all add: div_pos_pos_trivial mod_pos_pos_trivial)
    with day show "utc_day s = index_of wd WEEKDAYS \<and> s mod DAY_MS = off" by blast
  next
    assume "utc_day s = index_of wd WEEKDAYS \<and> s mod DAY_MS = off"
    with day time obtain k where "s = (q0 + sh - 7 + 7 * k) * DAY_MS + off" by metis
    then have "s = q0 * DAY_MS + sh * DAY_MS - 7 * DAY_MS + k * (7 * DAY_MS) + off" by (simp add: algebra_simps)
    then show "\<exists>k. s = q0 * DAY_MS + sh * DAY_MS - 7 * DAY_MS + k * (7 * DAY_MS) + off" by blast
  qed
  moreover have "0 \<le> k" if "s = q0 * DAY_MS + sh * DAY_MS - 7 * DAY_MS + k * (7 * DAY_MS) + off"
    "from \<le> s + int minutes * 60000" for k
  proof -
    have "int minutes * 60000 \<le> 7 * DAY_MS" using assms(5) by (simp add: DAY_MS_def)
    with that q0 assms(4) sh(2) have "0 < (k + 1) * (7 * DAY_MS)" by (simp add: DAY_MS_def)
    then show ?thesis by (simp add: DAY_MS_def)
  qed
  moreover define at_week where "at_week k = (s = q0 * DAY_MS + sh * DAY_MS - 7 * DAY_MS + k * (7 * DAY_MS) + off)" for k
  ultimately have w: "(\<exists>k. at_week k) \<longleftrightarrow> utc_day s = index_of wd WEEKDAYS \<and> s mod DAY_MS = off"
    and pos: "at_week k \<Longrightarrow> from \<le> s + int minutes * 60000 \<Longrightarrow> 0 \<le> k" for k
    by simp_all
  have "(\<exists>k \<ge> 0. at_week k) \<longleftrightarrow> utc_day s = index_of wd WEEKDAYS \<and> s mod DAY_MS = off"
    if "from \<le> s + int minutes * 60000"
    using w pos that by blast
  then show ?thesis unfolding occ weekly_loop_spec s_def [symmetric] at_week_def [symmetric] by auto
qed

lemma demo_clock: "clock_ms ''02:30'' = Some 9000000"
  by code_simp

theorem weekly_exact_witness:
  "\<lparr> tw_start = 423000000, tw_end = 426600000 \<rparr> \<in> set (weeklyOccurrences ''mon'' ''02:30'' 60 400000000 500000000) \<longleftrightarrow>
     utc_day 423000000 = index_of ''mon'' WEEKDAYS \<and> 423000000 mod DAY_MS = 9000000 \<and>
     (426600000::int) = 423000000 + 3600000"
proof -
  have m: "''mon'' \<in> set WEEKDAYS" "(0::int) \<le> 9000000" "(9000000::int) < DAY_MS" "(60::nat) \<le> 10080"
    by (simp_all add: WEEKDAYS_def DAY_MS_def)
  from weekly_exact [OF m(1) demo_clock m(2,3,4), of "\<lparr> tw_start = 423000000, tw_end = 426600000 \<rparr>" 400000000 500000000]
  show ?thesis by simp
qed

section \<open>Latency series\<close>

definition agg_ok :: "latency_agg \<Rightarrow> bool" where
  "agg_ok b = ((la_n b = 0 \<longrightarrow> la_min b = None \<and> la_sum b = 0 \<and> la_max b = 0) \<and>
     (la_n b > 0 \<longrightarrow> (\<exists>m. la_min b = Some m \<and> int (la_n b) * m \<le> la_sum b \<and> m \<le> la_max b)) \<and>
     la_sum b \<le> int (la_n b) * la_max b)"

lemma add_latency_ok:
  assumes "agg_ok b" "0 \<le> l"
  shows "agg_ok (add_latency l b)"
proof (cases "la_n b = 0")
  case True
  then have b: "la_min b = None" "la_sum b = 0" "la_max b = 0" using assms(1) by (simp_all add: agg_ok_def)
  with True assms(2) show ?thesis by (simp add: agg_ok_def add_latency_def)
next
  case False
  then obtain m where m: "la_min b = Some m" "int (la_n b) * m \<le> la_sum b" "m \<le> la_max b"
    using assms(1) by (auto simp: agg_ok_def)
  let ?m = "min l m" and ?x = "max l (la_max b)"
  have "int (la_n b) * ?m \<le> int (la_n b) * m" "int (la_n b) * la_max b \<le> int (la_n b) * ?x"
    by (simp_all add: mult_left_mono)
  moreover have "la_sum b \<le> int (la_n b) * la_max b" using assms(1) by (simp add: agg_ok_def)
  ultimately have "(int (la_n b) + 1) * ?m \<le> la_sum b + l" "la_sum b + l \<le> (int (la_n b) + 1) * ?x"
    using m(2) by (simp_all add: distrib_right)
  moreover have "add_latency l b = \<lparr> la_sum = la_sum b + l, la_n = la_n b + 1, la_min = Some ?m, la_max = ?x \<rparr>"
    by (simp add: add_latency_def m(1) min_def max_def)
  ultimately show ?thesis by (simp add: agg_ok_def add.commute)
qed

lemma series_agg_ok:
  assumes "\<forall>c \<in> set cs. 0 \<le> ck_latency c" "\<forall>b \<in> set agg. agg_ok b" "length agg = buckets"
  shows "(\<forall>b \<in> set (fold (add_check start stop buckets) cs agg). agg_ok b) \<and>
    length (fold (add_check start stop buckets) cs agg) = buckets"
  using assms
proof (induction cs arbitrary: agg)
  case (Cons c cs)
  let ?i = "bucket_index start stop buckets c"
  have "\<forall>b \<in> set (add_check start stop buckets c agg). agg_ok b"
  proof (cases "?i < 0 \<or> buckets = 0")
    case True
    then show ?thesis using Cons.prems by (auto simp: add_check_def Let_def)
  next
    case False
    have "?i \<le> int buckets - 1" by (simp add: bucket_index_def Let_def)
    with False have "nat ?i < length agg" using Cons.prems(3) by linarith
    then have "agg_ok (agg ! nat ?i)" using Cons.prems(2) by simp
    then have "agg_ok (add_latency (ck_latency c) (agg ! nat ?i))" using Cons.prems(1) by (simp add: add_latency_ok)
    then show ?thesis using False Cons.prems(2)
      by (auto simp: add_check_def Let_def dest!: set_update_subset_insert [THEN subsetD])
  qed
  moreover have "length (add_check start stop buckets c agg) = buckets"
    using Cons.prems(3) by (simp add: add_check_def Let_def)
  ultimately show ?case using Cons.IH [of "add_check start stop buckets c agg"] Cons.prems(1) by simp
qed simp

lemma js_round_between:
  assumes "of_int a \<le> x" "x \<le> of_int b"
  shows "a \<le> js_round x \<and> js_round x \<le> b"
proof -
  have "of_int a \<le> x + 1 / 2" using assms(1) by simp
  then have "a \<le> js_round x" by (simp add: js_round_def le_floor_iff)
  moreover have "x + 1 / 2 < of_int (b + 1)" using assms(2) by simp
  then have "js_round x < b + 1" unfolding js_round_def floor_less_iff .
  ultimately show ?thesis by simp
qed

text \<open>
  The latency chart: one point per bucket, and in every point that has samples the average
  lies between the minimum and the maximum; a point without samples shows none of the three.
\<close>

theorem latency_points_ordered:
  assumes "\<forall>c \<in> set checks. 0 \<le> ck_latency c"
  shows "length (buildLatencySeries checks start stop buckets) = buckets \<and>
    (\<forall>p \<in> set (buildLatencySeries checks start stop buckets).
       case lp_avg p of None \<Rightarrow> lp_min p = None \<and> lp_max p = None
       | Some a \<Rightarrow> (\<exists>lo hi. lp_min p = Some lo \<and> lp_max p = Some hi \<and> lo \<le> a \<and> a \<le> hi))"
proof -
  let ?agg = "fold (add_check start stop buckets) checks (replicate buckets no_latency)"
  have "\<forall>b \<in> set (replicate buckets no_latency). agg_ok b" by (simp add: agg_ok_def no_latency_def)
  from series_agg_ok [OF assms this, of buckets start stop]
  have agg: "\<forall>b \<in> set ?agg. agg_ok b" "length ?agg = buckets" by simp_all
  have "case lp_avg p of None \<Rightarrow> lp_min p = None \<and> lp_max p = None
       | Some a \<Rightarrow> (\<exists>lo hi. lp_min p = Some lo \<and> lp_max p = Some hi \<and> lo \<le> a \<and> a \<le> hi)"
    if p: "p = latency_entry start stop buckets b i" and b: "agg_ok b" for p b i
  proof (cases "la_n b > 0")
    case True
    then obtain m where m: "la_min b = Some m" "int (la_n b) * m \<le> la_sum b" "la_sum b \<le> int (la_n b) * la_max b"
      using b by (auto simp: agg_ok_def)
    have "of_int (int (la_n b) * m) \<le> (of_int (la_sum b) :: rat)" "(of_int (la_sum b) :: rat) \<le> of_int (int (la_n b) * la_max b)"
      using m(2,3) by (simp_all only: of_int_le_iff)
    then have "of_int m \<le> (of_int (la_sum b) / of_nat (la_n b) :: rat)"
      "(of_int (la_sum b) / of_nat (la_n b) :: rat) \<le> of_int (la_max b)"
      using True by (simp_all add: pos_le_divide_eq pos_divide_le_eq mult.commute)
    from js_round_between [OF this] show ?thesis using True m(1) unfolding p by (simp add: latency_entry_def)
  qed (simp add: p latency_entry_def)
  note point = this
  have "case lp_avg p of None \<Rightarrow> lp_min p = None \<and> lp_max p = None
       | Some a \<Rightarrow> (\<exists>lo hi. lp_min p = Some lo \<and> lp_max p = Some hi \<and> lo \<le> a \<and> a \<le> hi)"
    if p: "p \<in> set (buildLatencySeries checks start stop buckets)" for p
  proof -
    from p obtain i where i: "i < buckets" "p = latency_entry start stop buckets (?agg ! i) i"
      by (auto simp: buildLatencySeries_def Let_def)
    with agg have "agg_ok (?agg ! i)" by simp
    from point [OF i(2) this] show ?thesis .
  qed
  then show ?thesis by (simp add: buildLatencySeries_def Let_def)
qed

theorem latency_points_ordered_witness:
  "length (buildLatencySeries [demo_check 5 True, demo_check 95 True] 0 100 4) = 4"
proof -
  have "\<forall>c \<in> set [demo_check 5 True, demo_check 95 True]. 0 \<le> ck_latency c" by (simp add: demo_check_def)
  from latency_points_ordered [OF this, of 0 100 4] show ?thesis by blast
qed

end
