(* ===== verification/Service_Groups.thy ===== *)
theory Service_Groups
  imports Deploy_Forms
begin

text \<open>
  Service groups and teams: \<open>src/src/lib/server/groups/store.ts\<close> and \<open>src/src/lib/server/teams/store.ts\<close>
  over their five tables.  Deleting a group deletes its membership and team rows (the foreign keys
  cascade, and the code deletes them too); the users and the apps that rows name are looked up in
  the tables of the other stores, which are arguments.  \<open>localeCompare\<close> is a parameter.
\<close>

section \<open>Tables\<close>

datatype store_fault = StoreFault nat string

record group_row =
  gr_id :: string
  gr_name :: string
  gr_color :: "string option"
  gr_created_at :: ms

record group_member =
  gm_kind :: string
  gm_id :: string

record member_row =
  mb_group_id :: string
  mb_member :: group_member

record team_row =
  te_id :: string
  te_name :: string
  te_created_at :: ms

record groups_db =
  gd_groups :: "group_row list"
  gd_members :: "member_row list"
  gd_teams :: "team_row list"
  gd_team_members :: "(string \<times> nat) list"
  gd_team_groups :: "(string \<times> string) list"

definition no_groups :: groups_db where
  "no_groups = \<lparr> gd_groups = [], gd_members = [], gd_teams = [], gd_team_members = [], gd_team_groups = [] \<rparr>"

record group_ref =
  gf_id :: string
  gf_name :: string
  gf_color :: "string option"

record service_group =
  sg_id :: string
  sg_name :: string
  sg_color :: "string option"
  sg_createdAt :: ms
  sg_memberCount :: nat
  sg_members :: "group_member list"

section \<open>Groups\<close>

definition valid_name :: "string \<Rightarrow> store_fault + string" where
  "valid_name name = (let n = js_trim name in
     if length n < 1 \<or> length n > 64 then Inl (StoreFault 422 ''name must be 1-64 characters'') else Inr n)"

definition COLOR_RE :: "string \<Rightarrow> bool" where
  "COLOR_RE s = (length s = 7 \<and> take 1 s = ''#'' \<and>
     list_all (\<lambda>c. is_digit c \<or> c \<in> set ''abcdef'') (drop 1 s))"

definition validColor :: "string option \<Rightarrow> store_fault + string option" where
  "validColor color = (case color of None \<Rightarrow> Inr None
     | Some c \<Rightarrow> if COLOR_RE c then Inr (Some c) else Inl (StoreFault 422 ''color must be hex like #3b82f6''))"

definition id_char :: "char \<Rightarrow> bool" where
  "id_char c = (is_digit c \<or> (CHR ''a'' \<le> c \<and> c \<le> CHR ''z'') \<or> (CHR ''A'' \<le> c \<and> c \<le> CHR ''Z''))"

definition MEMBER_ID_RE :: "string \<Rightarrow> bool" where
  "MEMBER_ID_RE s = (case s of [] \<Rightarrow> False
     | c # r \<Rightarrow> id_char c \<and> length r \<le> 127 \<and> list_all (\<lambda>d. id_char d \<or> d \<in> set ''_.:-'') r)"

definition members_of :: "string \<Rightarrow> groups_db \<Rightarrow> group_member list" where
  "members_of i d = map mb_member (order_by (\<lambda>m. gm_kind (mb_member m))
     (order_by (\<lambda>m. gm_id (mb_member m)) (sel_where (\<lambda>m. mb_group_id m = i) (gd_members d))))"

definition toGroup :: "groups_db \<Rightarrow> group_row \<Rightarrow> service_group" where
  "toGroup d r = (let ms = members_of (gr_id r) d in
     \<lparr> sg_id = gr_id r, sg_name = gr_name r, sg_color = gr_color r, sg_createdAt = gr_created_at r,
       sg_memberCount = length ms, sg_members = ms \<rparr>)"

definition group_get :: "string \<Rightarrow> groups_db \<Rightarrow> service_group option" where
  "group_get i d = map_option (toGroup d) (first_where (\<lambda>r. gr_id r = i) (gd_groups d))"

definition group_list :: "groups_db \<Rightarrow> service_group list" where
  "group_list d = map (toGroup d) (order_by gr_name (gd_groups d))"

definition listRefs :: "groups_db \<Rightarrow> group_ref list" where
  "listRefs d = map (\<lambda>r. \<lparr> gf_id = gr_id r, gf_name = gr_name r, gf_color = gr_color r \<rparr>)
     (order_by gr_name (gd_groups d))"

text \<open>The name, the colour and the draw of the identifier come before the insert, which fails on a
  name in use (or an identifier drawn before).\<close>

definition group_create ::
  "string \<Rightarrow> string \<Rightarrow> string option \<Rightarrow> ms \<Rightarrow> groups_db \<Rightarrow> store_fault + (groups_db \<times> service_group)" where
  "group_create i name color now d =
     and_then (valid_name name) (\<lambda>n. and_then (validColor color) (\<lambda>c.
       if \<exists>r \<in> set (gd_groups d). gr_name r = n \<or> gr_id r = i
       then Inl (StoreFault 409 ''a group with that name exists'')
       else Inr (d\<lparr> gd_groups := gd_groups d @ [\<lparr> gr_id = i, gr_name = n, gr_color = c, gr_created_at = now \<rparr>] \<rparr>,
                 \<lparr> sg_id = i, sg_name = n, sg_color = c, sg_createdAt = now, sg_memberCount = 0, sg_members = [] \<rparr>)))"

definition opt_ok :: "('a \<Rightarrow> store_fault + 'b) \<Rightarrow> 'a option \<Rightarrow> store_fault + 'b option" where
  "opt_ok f v = (case v of None \<Rightarrow> Inr None | Some x \<Rightarrow> map_sum id Some (f x))"

definition set_group :: "string option \<Rightarrow> string option option \<Rightarrow> group_row \<Rightarrow> group_row" where
  "set_group n c r = r\<lparr> gr_name := or_default n (gr_name r), gr_color := or_default c (gr_color r) \<rparr>"

text \<open>\<open>None\<close> as the answer is the 404 of the routes.\<close>

definition group_update ::
  "string \<Rightarrow> string option \<Rightarrow> string option option \<Rightarrow> groups_db \<Rightarrow> store_fault + (groups_db \<times> service_group option)" where
  "group_update i name color d =
     (if first_where (\<lambda>r. gr_id r = i) (gd_groups d) = None then Inr (d, None)
      else and_then (opt_ok valid_name name) (\<lambda>n. and_then (opt_ok validColor color) (\<lambda>c.
        if (case n of None \<Rightarrow> False | Some x \<Rightarrow> \<exists>r \<in> set (gd_groups d). gr_name r = x \<and> gr_id r \<noteq> i)
        then Inl (StoreFault 409 ''a group with that name exists'')
        else (let d' = d\<lparr> gd_groups := upd_where (\<lambda>r. gr_id r = i) (set_group n c) (gd_groups d) \<rparr>
              in Inr (d', group_get i d')))))"

definition group_remove :: "string \<Rightarrow> groups_db \<Rightarrow> groups_db \<times> bool" where
  "group_remove i d =
     (d\<lparr> gd_members := del_where (\<lambda>m. mb_group_id m = i) (gd_members d),
         gd_groups := del_where (\<lambda>r. gr_id r = i) (gd_groups d),
         gd_team_groups := del_where (\<lambda>l. snd l = i) (gd_team_groups d) \<rparr>,
      n_where (\<lambda>r. gr_id r = i) (gd_groups d) = 1)"

definition validMember :: "string list \<Rightarrow> group_member \<Rightarrow> store_fault + unit" where
  "validMember apps m =
     (if gm_kind m \<notin> {''service'', ''app''} then Inl (StoreFault 422 ''member kind must be service or app'')
      else if \<not> MEMBER_ID_RE (gm_id m) then
        Inl (StoreFault 422 ''member id must be 1-128 chars: letters, digits, _ . : -'')
      else if gm_kind m = ''app'' \<and> gm_id m \<notin> set apps then
        Inl (StoreFault 422 (''app not found: '' @ gm_id m))
      else Inr ())"

definition add_row :: "'a \<Rightarrow> 'a list \<Rightarrow> 'a list" where
  "add_row x t = (if x \<in> set t then t else t @ [x])"

definition group_setMembers ::
  "string list \<Rightarrow> string \<Rightarrow> group_member list \<Rightarrow> group_member list \<Rightarrow> groups_db
     \<Rightarrow> store_fault + (groups_db \<times> service_group)" where
  "group_setMembers apps i add remove d =
     (if group_get i d = None then Inl (StoreFault 404 ''group not found'')
      else and_then (map_ok (validMember apps) (add @ remove)) (\<lambda>_.
        let row = (\<lambda>m. \<lparr> mb_group_id = i, mb_member = m \<rparr>);
            t1 = fold (\<lambda>m. add_row (row m)) add (gd_members d);
            t2 = fold (\<lambda>m. del_where (\<lambda>r. r = row m)) remove t1;
            d' = d\<lparr> gd_members := t2 \<rparr>
        in case group_get i d' of None \<Rightarrow> Inl (StoreFault 500 ''group missing after update'')
           | Some g \<Rightarrow> Inr (d', g)))"

definition serviceGroupIndex :: "groups_db \<Rightarrow> string \<Rightarrow> string list" where
  "serviceGroupIndex d service =
     map mb_group_id (sel_where (\<lambda>m. gm_kind (mb_member m) = ''service'' \<and> gm_id (mb_member m) = service) (gd_members d))"

definition snapshotData :: "groups_db \<Rightarrow> group_ref list \<times> (string \<Rightarrow> string list)" where
  "snapshotData d = (listRefs d, serviceGroupIndex d)"

section \<open>Teams\<close>

record team_member =
  tm_id :: nat
  tm_username :: string
  tm_displayName :: string
  tm_hasAvatar :: bool

record team_info =
  ti_id :: string
  ti_name :: string
  ti_createdAt :: ms
  ti_members :: "team_member list"
  ti_groups :: "group_ref list"

definition MAX_MEMBERS :: nat where "MAX_MEMBERS = 500"
definition MAX_GROUPS :: nat where "MAX_GROUPS = 200"

text \<open>\<open>sort\<close> with a comparison: stable insertion.\<close>

fun insert_by :: "('a \<Rightarrow> 'a \<Rightarrow> bool) \<Rightarrow> 'a \<Rightarrow> 'a list \<Rightarrow> 'a list" where
  "insert_by le x [] = [x]"
| "insert_by le x (y # ys) = (if le x y then x # y # ys else y # insert_by le x ys)"

definition sort_by :: "('a \<Rightarrow> 'a \<Rightarrow> bool) \<Rightarrow> 'a list \<Rightarrow> 'a list" where
  "sort_by le xs = foldr (insert_by le) xs []"

definition team_member_of :: "user_row \<Rightarrow> team_member" where
  "team_member_of u = \<lparr> tm_id = u_id u, tm_username = u_username u, tm_displayName = u_display_name u,
     tm_hasAvatar = (u_avatar u \<noteq> None) \<rparr>"

definition team_members_of ::
  "(string \<Rightarrow> string \<Rightarrow> bool) \<Rightarrow> user_row list \<Rightarrow> groups_db \<Rightarrow> string \<Rightarrow> team_member list" where
  "team_members_of locale_le us d i =
     sort_by (\<lambda>a b. locale_le (tm_username a) (tm_username b))
       (List.map_filter (\<lambda>l. map_option team_member_of (first_where (\<lambda>u. u_id u = snd l) us))
         (sel_where (\<lambda>l. fst l = i) (gd_team_members d)))"

definition team_groups_of :: "(string \<Rightarrow> string \<Rightarrow> bool) \<Rightarrow> groups_db \<Rightarrow> string \<Rightarrow> group_ref list" where
  "team_groups_of locale_le d i =
     sort_by (\<lambda>a b. locale_le (gf_name a) (gf_name b))
       (List.map_filter (\<lambda>l. map_option (\<lambda>r. \<lparr> gf_id = gr_id r, gf_name = gr_name r, gf_color = gr_color r \<rparr>)
           (first_where (\<lambda>r. gr_id r = snd l) (gd_groups d)))
         (sel_where (\<lambda>l. fst l = i) (gd_team_groups d)))"

definition team_info_of ::
  "(string \<Rightarrow> string \<Rightarrow> bool) \<Rightarrow> user_row list \<Rightarrow> groups_db \<Rightarrow> team_row \<Rightarrow> team_info" where
  "team_info_of locale_le us d r = \<lparr> ti_id = te_id r, ti_name = te_name r, ti_createdAt = te_created_at r,
     ti_members = team_members_of locale_le us d (te_id r), ti_groups = team_groups_of locale_le d (te_id r) \<rparr>"

definition team_row_of :: "string \<Rightarrow> groups_db \<Rightarrow> team_row option" where
  "team_row_of i d = first_where (\<lambda>r. te_id r = i) (gd_teams d)"

definition team_get where
  "team_get locale_le us i d = map_option (team_info_of locale_le us d) (team_row_of i d)"

definition team_list where
  "team_list locale_le us d = map (team_info_of locale_le us d) (order_by te_name (gd_teams d))"

definition team_create :: "string \<Rightarrow> string \<Rightarrow> ms \<Rightarrow> groups_db \<Rightarrow> store_fault + (groups_db \<times> team_info)" where
  "team_create i name now d =
     and_then (valid_name name) (\<lambda>n.
       if \<exists>r \<in> set (gd_teams d). te_name r = n \<or> te_id r = i
       then Inl (StoreFault 409 ''a team with that name exists'')
       else Inr (d\<lparr> gd_teams := gd_teams d @ [\<lparr> te_id = i, te_name = n, te_created_at = now \<rparr>] \<rparr>,
                 \<lparr> ti_id = i, ti_name = n, ti_createdAt = now, ti_members = [], ti_groups = [] \<rparr>))"

definition team_update :: "string \<Rightarrow> string \<Rightarrow> groups_db \<Rightarrow> store_fault + (groups_db \<times> bool)" where
  "team_update i name d =
     and_then (valid_name name) (\<lambda>n.
       if team_row_of i d = None then Inr (d, False)
       else if \<exists>r \<in> set (gd_teams d). te_name r = n \<and> te_id r \<noteq> i
       then Inl (StoreFault 409 ''a team with that name exists'')
       else Inr (d\<lparr> gd_teams := upd_where (\<lambda>r. te_id r = i) (\<lambda>r. r\<lparr> te_name := n \<rparr>) (gd_teams d) \<rparr>, True))"

definition team_remove :: "string \<Rightarrow> groups_db \<Rightarrow> groups_db \<times> bool" where
  "team_remove i d =
     (d\<lparr> gd_team_members := del_where (\<lambda>l. fst l = i) (gd_team_members d),
         gd_team_groups := del_where (\<lambda>l. fst l = i) (gd_team_groups d),
         gd_teams := del_where (\<lambda>r. te_id r = i) (gd_teams d) \<rparr>,
      n_where (\<lambda>r. te_id r = i) (gd_teams d) = 1)"

definition team_setMembers ::
  "nat list \<Rightarrow> string \<Rightarrow> rat list \<Rightarrow> rat list \<Rightarrow> groups_db \<Rightarrow> store_fault + groups_db" where
  "team_setMembers user_ids i add remove d =
     (let ids = uniq (add @ remove); nat_id = (\<lambda>q. nat (fst (quotient_of q))) in
      if team_row_of i d = None then Inl (StoreFault 404 ''team not found'')
      else if length ids > MAX_MEMBERS then Inl (StoreFault 422 ''too many members'')
      else if list_ex (\<lambda>u. \<not> is_int u \<or> u < 1) ids then
        Inl (StoreFault 422 ''member ids must be positive integers'')
      else case find (\<lambda>u. nat_id u \<notin> set user_ids) ids of
        Some missing \<Rightarrow> Inl (StoreFault 422 (''user not found: '' @ int_text (fst (quotient_of missing))))
      | None \<Rightarrow>
          (let t1 = fold (\<lambda>u. add_row (i, nat_id u)) add (gd_team_members d);
               t2 = fold (\<lambda>u. del_where (\<lambda>l. l = (i, nat_id u))) remove t1
           in Inr (d\<lparr> gd_team_members := t2 \<rparr>)))"

definition team_setGroups :: "string \<Rightarrow> string list \<Rightarrow> groups_db \<Rightarrow> store_fault + groups_db" where
  "team_setGroups i groupIds d =
     (let ids = uniq groupIds in
      if team_row_of i d = None then Inl (StoreFault 404 ''team not found'')
      else if length ids > MAX_GROUPS then Inl (StoreFault 422 ''too many groups'')
      else case find (\<lambda>g. g \<notin> set (map gr_id (gd_groups d))) ids of
        Some missing \<Rightarrow> Inl (StoreFault 422 (''group not found: '' @ missing))
      | None \<Rightarrow> Inr (d\<lparr> gd_team_groups := del_where (\<lambda>l. fst l = i) (gd_team_groups d) @ map (\<lambda>g. (i, g)) ids \<rparr>))"

definition teamsForUser where
  "teamsForUser locale_le us userId d =
     (let ids = map fst (sel_where (\<lambda>l. snd l = userId) (gd_team_members d))
      in map (team_info_of locale_le us d) (order_by te_name (sel_where (\<lambda>r. te_id r \<in> set ids) (gd_teams d))))"

end
