(* ===== verification/Group_Props.thy ===== *)
theory Group_Props
  imports Service_Groups Account_Props Deploy_Props
begin

text \<open>
  Groups and teams as a transition system, beside the users and the apps they name: identifiers and
  names stay unique, no link names a group or team that is gone, though one can name a user or an
  app that is, and a membership edit is the set operation it says.
\<close>

definition groups_inv :: "groups_db \<Rightarrow> bool" where
  "groups_inv d =
     (unique_on gr_id (gd_groups d) \<and> unique_on gr_name (gd_groups d) \<and>
      unique_on te_id (gd_teams d) \<and> unique_on te_name (gd_teams d) \<and>
      distinct (gd_members d) \<and> distinct (gd_team_members d) \<and> distinct (gd_team_groups d) \<and>
      mb_group_id ` set (gd_members d) \<subseteq> gr_id ` set (gd_groups d) \<and>
      fst ` set (gd_team_members d) \<subseteq> te_id ` set (gd_teams d) \<and>
      fst ` set (gd_team_groups d) \<subseteq> te_id ` set (gd_teams d) \<and>
      snd ` set (gd_team_groups d) \<subseteq> gr_id ` set (gd_groups d))"

text \<open>The operations of the two stores, with the apps and the users that exist when they run.\<close>

inductive group_step :: "string list \<Rightarrow> nat list \<Rightarrow> groups_db \<Rightarrow> groups_db \<Rightarrow> bool" for apps us where
  created: "group_create i name color now d = Inr (d', g) \<Longrightarrow> group_step apps us d d'"
| updated: "group_update i name color' d = Inr (d', g') \<Longrightarrow> group_step apps us d d'"
| removed: "group_step apps us d (fst (group_remove i d))"
| members: "group_setMembers apps i add rem d = Inr (d', g) \<Longrightarrow> group_step apps us d d'"
| team_created: "team_create i name now d = Inr (d', t) \<Longrightarrow> group_step apps us d d'"
| team_updated: "team_update i name d = Inr (d', b) \<Longrightarrow> group_step apps us d d'"
| team_removed: "group_step apps us d (fst (team_remove i d))"
| team_members: "team_setMembers us i adds rems d = Inr d' \<Longrightarrow> group_step apps us d d'"
| team_groups: "team_setGroups i gs d = Inr d' \<Longrightarrow> group_step apps us d d'"

text \<open>Beside the operations on accounts and on deploys, which delete users and apps among others.\<close>

inductive org_step :: "groups_db \<times> accounts \<times> deploys \<Rightarrow> groups_db \<times> accounts \<times> deploys \<Rightarrow> bool" where
  groups: "group_step (map da_id (d_apps p)) (map u_id (users a)) g g' \<Longrightarrow> org_step (g, a, p) (g', a, p)"
| accounts: "acc_step h a a' \<Longrightarrow> org_step (g, a, p) (g, a', p)"
| deploys: "dstep p p' \<Longrightarrow> org_step (g, a, p) (g, a, p')"

lemma no_groups_inv: "groups_inv no_groups"
  by (simp add: groups_inv_def no_groups_def)

section \<open>Link tables\<close>

lemma add_row_facts: "set (add_row x t) = insert x (set t)" "distinct t \<Longrightarrow> distinct (add_row x t)"
  by (auto simp: add_row_def)

lemma fold_add_row:
  "set (fold (\<lambda>m. add_row (f m)) add t) = set t \<union> f ` set add"
  "distinct t \<Longrightarrow> distinct (fold (\<lambda>m. add_row (f m)) add t)"
  by (induction add arbitrary: t) (auto simp: add_row_facts)

lemma fold_del_row:
  "set (fold (\<lambda>m. del_where (\<lambda>r. r = f m)) rem t) = set t - f ` set rem"
  "distinct t \<Longrightarrow> distinct (fold (\<lambda>m. del_where (\<lambda>r. r = f m)) rem t)"
  by (induction rem arbitrary: t) (auto simp: del_where_def)

lemma group_get_Some: "group_get i d \<noteq> None \<longleftrightarrow> i \<in> gr_id ` set (gd_groups d)"
  by (auto simp: group_get_def first_where_None)

lemma team_row_Some: "team_row_of i d \<noteq> None \<longleftrightarrow> i \<in> te_id ` set (gd_teams d)"
  by (auto simp: team_row_of_def first_where_None)

lemma unique_on_rename:
  assumes "unique_on nm t" "\<forall>r \<in> set t. P r \<longrightarrow> nm (f r) = nm r \<or> (\<forall>r' \<in> set t. nm r' = nm (f r) \<longrightarrow> P r')"
    and "\<And>r r'. P r \<Longrightarrow> P r' \<Longrightarrow> r \<in> set t \<Longrightarrow> r' \<in> set t \<Longrightarrow> r = r'"
  shows "unique_on nm (upd_where P f t)"
  using assms
proof (induction t)
  case (Cons r t)
  have u: "unique_on nm t" "\<forall>x \<in> set t. nm x \<noteq> nm r"
    using Cons.prems(1) by (auto simp: unique_on_def) (metis imageI)
  have IH: "unique_on nm (upd_where P f t)"
  proof (rule Cons.IH [OF u(1)])
    show "\<forall>r \<in> set t. P r \<longrightarrow> nm (f r) = nm r \<or> (\<forall>r' \<in> set t. nm r' = nm (f r) \<longrightarrow> P r')"
      using Cons.prems(2) by (meson list.set_intros(2))
    show "P x \<Longrightarrow> P y \<Longrightarrow> x \<in> set t \<Longrightarrow> y \<in> set t \<Longrightarrow> x = y" for x y
      using Cons.prems(3) [of x y] by simp
  qed
  have "nm (if P r then f r else r) \<noteq> nm (if P x then f x else x)" if x: "x \<in> set t" for x
  proof (cases "P r")
    case True
    then have "\<not> P x" using Cons.prems(3) [of r x] x u(2) by auto
    then show ?thesis using Cons.prems(2) True x u(2) by auto
  next
    case False
    have "P x \<Longrightarrow> nm (f x) = nm x \<or> (nm r = nm (f x) \<longrightarrow> P r)"
      using Cons.prems(2) x by (meson list.set_intros)
    then show ?thesis using False x u(2) by (cases "P x") auto
  qed
  then have "\<forall>y \<in> set (upd_where P f t). nm y \<noteq> nm (if P r then f r else r)"
    using set_upd_whereD [of _ P f t] by metis
  then have "nm (if P r then f r else r) \<notin> nm ` set (upd_where P f t)" by (metis imageE)
  with IH show ?case by (simp add: unique_on_def upd_where_Cons)
qed simp

section \<open>Every operation keeps the invariant\<close>

lemma group_update_inv:
  assumes "groups_inv d" "group_update i name color d = Inr (d', g)"
  shows "groups_inv d'"
proof (cases "d' = d")
  case False
  obtain n c where d': "d' = d\<lparr> gd_groups := upd_where (\<lambda>r. gr_id r = i) (set_group n c) (gd_groups d) \<rparr>"
    and free: "\<And>x r. n = Some x \<Longrightarrow> r \<in> set (gd_groups d) \<Longrightarrow> gr_name r = x \<Longrightarrow> gr_id r = i"
    using assms(2) False unfolding group_update_def
    by (auto simp: and_then_Inr Let_def split: if_splits option.splits)
  let ?t = "upd_where (\<lambda>r. gr_id r = i) (set_group n c) (gd_groups d)"
  have ids: "map gr_id ?t = map gr_id (gd_groups d)" by (rule map_upd_where) (simp add: set_group_def)
  then have set_ids: "gr_id ` set ?t = gr_id ` set (gd_groups d)" by (metis list.set_map)
  have uid: "unique_on gr_id ?t" using assms(1) ids by (simp add: groups_inv_def unique_on_def)
  have "unique_on gr_name ?t"
  proof (rule unique_on_rename)
    show "unique_on gr_name (gd_groups d)" using assms(1) by (simp add: groups_inv_def)
    show "\<forall>r \<in> set (gd_groups d). gr_id r = i \<longrightarrow> gr_name (set_group n c r) = gr_name r \<or>
        (\<forall>r' \<in> set (gd_groups d). gr_name r' = gr_name (set_group n c r) \<longrightarrow> gr_id r' = i)"
      using free by (cases n) (auto simp: set_group_def)
    show "gr_id r = i \<Longrightarrow> gr_id r' = i \<Longrightarrow> r \<in> set (gd_groups d) \<Longrightarrow> r' \<in> set (gd_groups d) \<Longrightarrow> r = r'" for r r'
      using assms(1) by (auto simp: groups_inv_def dest: unique_onD)
  qed
  with uid set_ids assms(1) show ?thesis by (simp add: d' groups_inv_def)
qed (use assms in simp)

lemma team_update_inv:
  assumes "groups_inv d" "team_update i name d = Inr (d', b)"
  shows "groups_inv d'"
proof (cases "d' = d")
  case False
  obtain n where d': "d' = d\<lparr> gd_teams := upd_where (\<lambda>r. te_id r = i) (\<lambda>r. r\<lparr> te_name := n \<rparr>) (gd_teams d) \<rparr>"
    and free: "\<And>r. r \<in> set (gd_teams d) \<Longrightarrow> te_name r = n \<Longrightarrow> te_id r = i"
    using assms(2) False unfolding team_update_def
    by (auto simp: and_then_Inr Let_def split: if_splits)
  let ?t = "upd_where (\<lambda>r. te_id r = i) (\<lambda>r. r\<lparr> te_name := n \<rparr>) (gd_teams d)"
  have ids: "map te_id ?t = map te_id (gd_teams d)" by (rule map_upd_where) simp
  then have set_ids: "te_id ` set ?t = te_id ` set (gd_teams d)" by (metis list.set_map)
  have uid: "unique_on te_id ?t" using assms(1) ids by (simp add: groups_inv_def unique_on_def)
  have "unique_on te_name ?t"
  proof (rule unique_on_rename)
    show "unique_on te_name (gd_teams d)" using assms(1) by (simp add: groups_inv_def)
    show "\<forall>r \<in> set (gd_teams d). te_id r = i \<longrightarrow> te_name (r\<lparr> te_name := n \<rparr>) = te_name r \<or>
        (\<forall>r' \<in> set (gd_teams d). te_name r' = te_name (r\<lparr> te_name := n \<rparr>) \<longrightarrow> te_id r' = i)"
      using free by auto
    show "te_id r = i \<Longrightarrow> te_id r' = i \<Longrightarrow> r \<in> set (gd_teams d) \<Longrightarrow> r' \<in> set (gd_teams d) \<Longrightarrow> r = r'" for r r'
      using assms(1) by (auto simp: groups_inv_def dest: unique_onD)
  qed
  with uid set_ids assms(1) show ?thesis by (simp add: d' groups_inv_def)
qed (use assms in simp)

lemma group_setMembers_spec:
  assumes "group_setMembers apps i add rem d = Inr (d', g)"
  shows "i \<in> gr_id ` set (gd_groups d)" "list_all (\<lambda>m. validMember apps m = Inr ()) (add @ rem)"
    "d' = d\<lparr> gd_members := gd_members d' \<rparr>"
    "set (gd_members d') = set (gd_members d) \<union> (\<lambda>m. \<lparr> mb_group_id = i, mb_member = m \<rparr>) ` set add
       - (\<lambda>m. \<lparr> mb_group_id = i, mb_member = m \<rparr>) ` set rem"
    "distinct (gd_members d) \<Longrightarrow> distinct (gd_members d')"
proof -
  have ok: "list_all (\<lambda>m. f m = Inr ()) xs" if "map_ok f xs = Inr ys" for f xs and ys :: "unit list"
    using that by (induction xs arbitrary: ys) (auto simp: and_then_Inr)
  have "group_get i d \<noteq> None" using assms by (auto simp: group_setMembers_def split: if_splits)
  then show "i \<in> gr_id ` set (gd_groups d)" unfolding group_get_Some .
  obtain ys where "map_ok (validMember apps) (add @ rem) = Inr ys"
    using assms by (auto simp: group_setMembers_def and_then_Inr split: if_splits)
  from ok [OF this] show "list_all (\<lambda>m. validMember apps m = Inr ()) (add @ rem)" .
  have d': "gd_members d' = fold (\<lambda>m. del_where (\<lambda>r. r = \<lparr> mb_group_id = i, mb_member = m \<rparr>)) rem
      (fold (\<lambda>m. add_row \<lparr> mb_group_id = i, mb_member = m \<rparr>) add (gd_members d))"
    "d' = d\<lparr> gd_members := gd_members d' \<rparr>"
    using assms by (auto simp: group_setMembers_def and_then_Inr Let_def split: if_splits option.splits)
  show "d' = d\<lparr> gd_members := gd_members d' \<rparr>" by (rule d'(2))
  show "set (gd_members d') = set (gd_members d) \<union> (\<lambda>m. \<lparr> mb_group_id = i, mb_member = m \<rparr>) ` set add
       - (\<lambda>m. \<lparr> mb_group_id = i, mb_member = m \<rparr>) ` set rem"
    unfolding d'(1) fold_del_row fold_add_row ..
  show "distinct (gd_members d) \<Longrightarrow> distinct (gd_members d')"
    unfolding d'(1) by (intro fold_del_row fold_add_row)
qed

lemma group_step_inv:
  assumes "group_step apps us d d'" "groups_inv d"
  shows "groups_inv d'"
  using assms
proof cases
  case (created i name color now g)
  then obtain n c where "d' = d\<lparr> gd_groups := gd_groups d @ [\<lparr> gr_id = i, gr_name = n, gr_color = c, gr_created_at = now \<rparr>] \<rparr>"
    "\<forall>r \<in> set (gd_groups d). gr_name r \<noteq> n \<and> gr_id r \<noteq> i"
    by (auto simp: group_create_def and_then_Inr split: if_splits)
  then show ?thesis using assms(2) by (simp add: groups_inv_def unique_on_snoc subset_insertI2)
next
  case (updated i name color' g')
  then show ?thesis using group_update_inv assms(2) by blast
next
  case (removed i)
  have sub: "mb_group_id ` {m \<in> set (gd_members d). mb_group_id m \<noteq> i} \<subseteq> gr_id ` {r \<in> set (gd_groups d). gr_id r \<noteq> i}"
    "snd ` {l \<in> set (gd_team_groups d). snd l \<noteq> i} \<subseteq> gr_id ` {r \<in> set (gd_groups d). gr_id r \<noteq> i}"
    using assms(2) by (auto simp: groups_inv_def image_subset_iff)
  show ?thesis using assms(2) sub unfolding removed
    by (auto simp: group_remove_def groups_inv_def unique_on_del_where) (auto simp: del_where_def)
next
  case (members i add rem g)
  note m = group_setMembers_spec [OF members]
  have "mb_group_id ` set (gd_members d') \<subseteq> gr_id ` set (gd_groups d)"
    using assms(2) m(1,4) by (auto simp: groups_inv_def)
  moreover have "gd_groups d' = gd_groups d" "gd_teams d' = gd_teams d" "gd_team_members d' = gd_team_members d"
    "gd_team_groups d' = gd_team_groups d"
    by (subst m(3); simp)+
  ultimately show ?thesis using assms(2) m(5) by (simp add: groups_inv_def)
next
  case (team_created i name now t)
  then obtain n where "d' = d\<lparr> gd_teams := gd_teams d @ [\<lparr> te_id = i, te_name = n, te_created_at = now \<rparr>] \<rparr>"
    "\<forall>r \<in> set (gd_teams d). te_name r \<noteq> n \<and> te_id r \<noteq> i"
    by (auto simp: team_create_def and_then_Inr split: if_splits)
  then show ?thesis using assms(2) by (simp add: groups_inv_def unique_on_snoc subset_insertI2)
next
  case (team_updated i name b)
  then show ?thesis using team_update_inv assms(2) by blast
next
  case (team_removed i)
  have sub: "fst ` {l \<in> set (gd_team_members d). fst l \<noteq> i} \<subseteq> te_id ` {r \<in> set (gd_teams d). te_id r \<noteq> i}"
    "fst ` {l \<in> set (gd_team_groups d). fst l \<noteq> i} \<subseteq> te_id ` {r \<in> set (gd_teams d). te_id r \<noteq> i}"
    using assms(2) by (auto simp: groups_inv_def image_subset_iff)
  show ?thesis using assms(2) sub unfolding team_removed
    by (auto simp: team_remove_def groups_inv_def unique_on_del_where) (auto simp: del_where_def)
next
  case (team_members i adds rems)
  let ?f = "\<lambda>q :: rat. (i, nat (fst (quotient_of q)))"
  have d': "d' = d\<lparr> gd_team_members := fold (\<lambda>u. del_where (\<lambda>l. l = ?f u)) rems
      (fold (\<lambda>u. add_row (?f u)) adds (gd_team_members d)) \<rparr>" and i: "i \<in> te_id ` set (gd_teams d)"
    using team_members team_row_Some [of i d]
    by (auto simp: team_setMembers_def Let_def split: if_splits option.splits)
  have "fst ` set (fold (\<lambda>u. del_where (\<lambda>l. l = ?f u)) rems
      (fold (\<lambda>u. add_row (?f u)) adds (gd_team_members d))) \<subseteq> te_id ` set (gd_teams d)"
    using assms(2) i unfolding fold_del_row(1) fold_add_row(1) by (auto simp: groups_inv_def)
  moreover have "distinct (fold (\<lambda>u. del_where (\<lambda>l. l = ?f u)) rems
      (fold (\<lambda>u. add_row (?f u)) adds (gd_team_members d)))"
    using assms(2) by (intro fold_del_row fold_add_row) (simp add: groups_inv_def)
  ultimately show ?thesis using assms(2) unfolding d' by (simp add: groups_inv_def)
next
  case (team_groups i gs)
  have d': "d' = d\<lparr> gd_team_groups := del_where (\<lambda>l. fst l = i) (gd_team_groups d) @ map (\<lambda>g. (i, g)) (uniq gs) \<rparr>"
    and i: "i \<in> te_id ` set (gd_teams d)" and gs: "set gs \<subseteq> gr_id ` set (gd_groups d)"
    using team_groups team_row_Some [of i d]
    by (auto simp: team_setGroups_def Let_def find_None_iff split: if_splits option.splits)
  show ?thesis using assms(2) i gs unfolding d'
    by (auto simp: groups_inv_def distinct_map inj_on_def) (auto simp: del_where_def)
qed

definition demo_groups :: groups_db where
  "demo_groups = fst (projr (group_create ''g1'' ''Core'' (Some ''#3b82f6'') 5 no_groups))"

lemma demo_groups_step: "group_step apps us no_groups demo_groups"
proof (rule group_step.created)
  show "group_create ''g1'' ''Core'' (Some ''#3b82f6'') 5 no_groups =
      Inr (demo_groups, snd (projr (group_create ''g1'' ''Core'' (Some ''#3b82f6'') 5 no_groups)))"
    by code_simp
qed

text \<open>An app in a group and a user in a team, whose app and user are deleted afterwards.\<close>

definition demo_app_member :: groups_db where
  "demo_app_member = fst (projr (group_setMembers [''app_1''] ''g1'' [\<lparr> gm_kind = ''app'', gm_id = ''app_1'' \<rparr>] [] demo_groups))"

definition demo_team :: groups_db where
  "demo_team = fst (projr (team_create ''t1'' ''Ops'' 6 demo_app_member))"

definition demo_team_member :: groups_db where
  "demo_team_member = projr (team_setMembers [1] ''t1'' [1] [] demo_team)"

lemma demo_team_steps:
  "group_step [''app_1''] us demo_groups demo_app_member" "group_step apps us demo_app_member demo_team"
  "group_step apps [1] demo_team demo_team_member"
proof -
  have "group_setMembers [''app_1''] ''g1'' [\<lparr> gm_kind = ''app'', gm_id = ''app_1'' \<rparr>] [] demo_groups =
      Inr (demo_app_member, snd (projr (group_setMembers [''app_1''] ''g1''
        [\<lparr> gm_kind = ''app'', gm_id = ''app_1'' \<rparr>] [] demo_groups)))" by code_simp
  then show "group_step [''app_1''] us demo_groups demo_app_member" by (rule group_step.members)
  have "team_create ''t1'' ''Ops'' 6 demo_app_member =
      Inr (demo_team, snd (projr (team_create ''t1'' ''Ops'' 6 demo_app_member)))" by code_simp
  then show "group_step apps us demo_app_member demo_team" by (rule group_step.team_created)
  have "team_setMembers [1] ''t1'' [1] [] demo_team = Inr demo_team_member" by code_simp
  then show "group_step apps [1] demo_team demo_team_member" by (rule group_step.team_members)
qed

lemma org_accounts_run: "(acc_step h)\<^sup>*\<^sup>* a a' \<Longrightarrow> org_step\<^sup>*\<^sup>* (g, a, p) (g, a', p)"
  by (induction rule: rtranclp_induct) (auto intro: rtranclp.rtrancl_into_rtrancl org_step.accounts)

lemma org_deploys_run: "dstep\<^sup>*\<^sup>* p p' \<Longrightarrow> org_step\<^sup>*\<^sup>* (g, a, p) (g, a, p')"
  by (induction rule: rtranclp_induct) (auto intro: rtranclp.rtrancl_into_rtrancl org_step.deploys)

lemma demo_org:
  "org_step\<^sup>*\<^sup>* (no_groups, no_accounts, no_deploys) (demo_team_member, demo_accounts, demo_deploys)"
proof -
  have ids: "map da_id (d_apps demo_deploys) = [''app_1'']" "map u_id (users demo_accounts) = [1]"
    by (simp_all add: demo_deploys_def demo_app_def demo_accounts_eq)
  have g: "org_step (g, demo_accounts, demo_deploys) (g', demo_accounts, demo_deploys)"
    if "group_step [''app_1''] [1] g g'" for g g'
    by (rule org_step.groups) (simp only: ids that)
  have "org_step\<^sup>*\<^sup>* (no_groups, no_accounts, no_deploys) (no_groups, demo_accounts, no_deploys)"
    by (rule org_accounts_run [OF demo_accounts_run [of id]])
  also have "org_step\<^sup>*\<^sup>* (no_groups, demo_accounts, no_deploys) (no_groups, demo_accounts, demo_deploys)"
    by (rule org_deploys_run [OF demo_reached])
  finally have start: "org_step\<^sup>*\<^sup>* (no_groups, no_accounts, no_deploys) (no_groups, demo_accounts, demo_deploys)" .
  show ?thesis
    by (rule rtranclp.rtrancl_into_rtrancl [OF rtranclp.rtrancl_into_rtrancl [OF
        rtranclp.rtrancl_into_rtrancl [OF rtranclp.rtrancl_into_rtrancl [OF start g [OF demo_groups_step]]
        g [OF demo_team_steps(1)]] g [OF demo_team_steps(2)]] g [OF demo_team_steps(3)]])
qed

lemma dangling_members:
  "\<exists>g a p. org_step\<^sup>*\<^sup>* (no_groups, no_accounts, no_deploys) (g, a, p) \<and>
     (\<exists>l \<in> set (gd_team_members g). snd l \<notin> u_id ` set (users a)) \<and>
     (\<exists>r \<in> set (gd_members g). gm_kind (mb_member r) = ''app'' \<and> gm_id (mb_member r) \<notin> da_id ` set (d_apps p))"
proof -
  let ?a = "remove_user 1 demo_accounts" and ?p = "fst (deleteApp ''app_1'' demo_deploys)"
  have "org_step (demo_team_member, demo_accounts, demo_deploys) (demo_team_member, ?a, demo_deploys)"
    by (rule org_step.accounts [OF acc_step.remove])
  moreover have "org_step (demo_team_member, ?a, demo_deploys) (demo_team_member, ?a, ?p)"
    by (rule org_step.deploys [OF dstep.plain [OF plain_step.delete [OF prod.collapse [symmetric]]]])
  ultimately have "org_step\<^sup>*\<^sup>* (no_groups, no_accounts, no_deploys) (demo_team_member, ?a, ?p)"
    using demo_org by (meson rtranclp.rtrancl_into_rtrancl)
  moreover have "users ?a = []" by (simp add: remove_user_def demo_accounts_eq del_where_def)
  moreover have "d_apps ?p = []" by (simp add: deleteApp_def demo_deploys_def demo_app_def del_where_def)
  moreover have "gd_team_members demo_team_member = [(''t1'', 1)]" by code_simp
  moreover have "gd_members demo_team_member = [\<lparr> mb_group_id = ''g1'', mb_member = \<lparr> gm_kind = ''app'', gm_id = ''app_1'' \<rparr> \<rparr>]"
    by code_simp
  ultimately show ?thesis
    by (intro exI [of _ demo_team_member] exI [of _ ?a] exI [of _ ?p]) simp
qed

lemma org_run_inv: "org_step\<^sup>*\<^sup>* x y \<Longrightarrow> groups_inv (fst x) \<Longrightarrow> groups_inv (fst y)"
proof (induction rule: rtranclp_induct)
  case (step y z)
  from step(2) show ?case using step(3) [OF step(4)] by cases (auto intro: group_step_inv)
qed

text \<open>
  C33. Groups and teams, beside the operations on users and apps: however all of them run, identifiers
  and names of groups and teams stay unique, memberships are without duplicates, every membership row
  is of a group or a team that exists, and every assignment of a group to a team names both.  What a
  membership names on its other side is not kept: the deletion of a user leaves its team rows and the
  deletion of an app its group rows, and a run that ends with one of each is given.
\<close>

theorem groups_invariant:
  "(org_step\<^sup>*\<^sup>* (no_groups, no_accounts, no_deploys) (d, a, p) \<longrightarrow> groups_inv d) \<and>
   (\<exists>g a p. org_step\<^sup>*\<^sup>* (no_groups, no_accounts, no_deploys) (g, a, p) \<and>
     (\<exists>l \<in> set (gd_team_members g). snd l \<notin> u_id ` set (users a)) \<and>
     (\<exists>r \<in> set (gd_members g). gm_kind (mb_member r) = ''app'' \<and> gm_id (mb_member r) \<notin> da_id ` set (d_apps p)))"
  using org_run_inv [of "(no_groups, no_accounts, no_deploys)" "(d, a, p)"] no_groups_inv dangling_members by simp

theorem groups_invariant_witness: "groups_inv demo_team_member \<and> length (gd_groups demo_team_member) = 1"
proof
  show "groups_inv demo_team_member" using groups_invariant demo_org by blast
  show "length (gd_groups demo_team_member) = 1" by code_simp
qed

text \<open>
  A membership edit is the set operation it says: it is accepted only with every member valid
  (an app must exist), afterwards the group has its members and the added ones without the
  removed, and no other group and no team changes.
\<close>

theorem set_members_exact:
  assumes "group_setMembers apps i add rem d = Inr (d', g)"
  shows "(\<forall>m. \<lparr> mb_group_id = i, mb_member = m \<rparr> \<in> set (gd_members d') \<longleftrightarrow>
      (\<lparr> mb_group_id = i, mb_member = m \<rparr> \<in> set (gd_members d) \<or> m \<in> set add) \<and> m \<notin> set rem) \<and>
    (\<forall>r. mb_group_id r \<noteq> i \<longrightarrow> (r \<in> set (gd_members d') \<longleftrightarrow> r \<in> set (gd_members d))) \<and>
    (\<forall>m \<in> set (add @ rem). gm_kind m = ''service'' \<or> (gm_kind m = ''app'' \<and> gm_id m \<in> set apps)) \<and>
    d' = d\<lparr> gd_members := gd_members d' \<rparr>"
proof -
  note m = group_setMembers_spec [OF assms]
  have valid: "gm_kind m = ''service'' \<or> (gm_kind m = ''app'' \<and> gm_id m \<in> set apps)"
    if "m \<in> set (add @ rem)" for m
    using m(2) that by (fastforce simp: list_all_iff validMember_def split: if_splits)
  have inj: "\<lparr> mb_group_id = i, mb_member = m \<rparr> \<in> (\<lambda>m. \<lparr> mb_group_id = i, mb_member = m \<rparr>) ` S \<longleftrightarrow> m \<in> S" for m S
    by auto
  have other: "r \<notin> (\<lambda>m. \<lparr> mb_group_id = i, mb_member = m \<rparr>) ` S" if "mb_group_id r \<noteq> i" for r S
    using that by auto
  show ?thesis using m(3) valid by (simp add: m(4) inj other)
qed

theorem set_members_exact_witness:
  "let m = \<lparr> gm_kind = ''service'', gm_id = ''web'' \<rparr>; r = group_setMembers [] ''g1'' [m] [] demo_groups
   in \<lparr> mb_group_id = ''g1'', mb_member = m \<rparr> \<in> set (gd_members (fst (projr r)))"
proof -
  let ?m = "\<lparr> gm_kind = ''service'', gm_id = ''web'' \<rparr>"
  let ?r = "group_setMembers [] ''g1'' [?m] [] demo_groups"
  have "?r = Inr (fst (projr ?r), snd (projr ?r))" by code_simp
  from set_members_exact [OF this] show ?thesis by (simp add: Let_def)
qed

end
