(* ===== verification/Secrets.thy ===== *)
theory Secrets
  imports Service_Groups
begin

text \<open>
  Secret sets and their version history: \<open>src/src/lib/server/secrets/store.ts\<close>.  A map from keys to
  values is the list of its entries in insertion order, with distinct keys.  Sealing and opening
  are parameters; \<open>k in map\<close> also finds the properties every object inherits.
\<close>

section \<open>Tables and validation\<close>

type_synonym secret_map = "(string \<times> json) list"

record set_row =
  st_id :: string
  st_name :: string
  st_sealed :: string
  st_updated_by :: "string option"
  st_created_at :: ms
  st_updated_at :: ms

record version_row =
  vr_id :: nat
  vr_set_id :: string
  vr_version :: nat
  vr_sealed :: string
  vr_changed_keys :: string
  vr_actor :: "string option"
  vr_created_at :: ms

record secrets_db =
  sd_sets :: "set_row list"
  sd_versions :: "version_row list"
  sd_seq :: nat

definition no_secrets :: secrets_db where
  "no_secrets = \<lparr> sd_sets = [], sd_versions = [], sd_seq = 0 \<rparr>"

definition MAX_KEYS :: int where "MAX_KEYS = 128"
definition VERSION_CAP :: nat where "VERSION_CAP = 50"

definition KEY_RE :: "string \<Rightarrow> bool" where
  "KEY_RE s = (case s of [] \<Rightarrow> False
     | c # r \<Rightarrow> (alnum c \<and> \<not> is_digit c \<or> c = CHR ''_'') \<and> list_all (\<lambda>d. alnum d \<or> d = CHR ''_'') r)"

definition valid_entry :: "string \<times> json \<Rightarrow> store_fault + unit" where
  "valid_entry kv =
     (if \<not> KEY_RE (fst kv) then Inl (StoreFault 422 (''invalid key name: '' @ fst kv))
      else case snd kv of
        JStr v \<Rightarrow> if int (length v) > 32 * 1024 then Inl (StoreFault 422 (''value too large for key: '' @ fst kv)) else Inr ()
      | _ \<Rightarrow> Inl (StoreFault 422 (''value too large for key: '' @ fst kv)))"

definition validEntries :: "secret_map \<Rightarrow> store_fault + secret_map" where
  "validEntries es =
     (if int (length es) > MAX_KEYS then Inl (StoreFault 422 ''too many keys'')
      else and_then (map_ok valid_entry es) (\<lambda>_. Inr es))"

definition OBJECT_PROPS :: "string list" where
  "OBJECT_PROPS = [''constructor'', ''__defineGetter__'', ''__defineSetter__'', ''hasOwnProperty'',
     ''__lookupGetter__'', ''__lookupSetter__'', ''isPrototypeOf'', ''propertyIsEnumerable'', ''toString'',
     ''valueOf'', ''__proto__'', ''toLocaleString'']"

definition has_key :: "string \<Rightarrow> secret_map \<Rightarrow> bool" where
  "has_key k m = (k \<in> set (map fst m) \<or> k \<in> set OBJECT_PROPS)"

text \<open>\<open>prev[k] !== next[k]\<close>: strings, numbers, booleans and null by value, objects and arrays never the same.\<close>

definition strict_same :: "json option \<Rightarrow> json option \<Rightarrow> bool" where
  "strict_same a b = (case a of Some (JArr _) \<Rightarrow> False | Some (JObj _) \<Rightarrow> False | _ \<Rightarrow> a = b)"

definition diffKeys :: "secret_map \<Rightarrow> secret_map \<Rightarrow> string list" where
  "diffKeys prev next =
     sort (filter (\<lambda>k. \<not> has_key k prev \<or> \<not> strict_same (map_of prev k) (map_of next k)) (map fst next) @
           filter (\<lambda>k. \<not> has_key k next) (map fst prev))"

section \<open>The store\<close>

record secret_info =
  sf_id :: string
  sf_name :: string
  sf_keys :: "string list"
  sf_updatedBy :: "string option"
  sf_createdAt :: ms
  sf_updatedAt :: ms

definition openMap :: "(string \<Rightarrow> string option) \<Rightarrow> string \<Rightarrow> store_fault + secret_map" where
  "openMap opener sealed =
     (case opener sealed of None \<Rightarrow> Inl (StoreFault 500 ''sealed secret set is unreadable'')
      | Some plain \<Rightarrow> Inr (case json_parse plain of Some (JObj fs) \<Rightarrow> fs | _ \<Rightarrow> []))"

definition secret_info_of :: "set_row \<Rightarrow> string list \<Rightarrow> secret_info" where
  "secret_info_of r keys = \<lparr> sf_id = st_id r, sf_name = st_name r, sf_keys = keys, sf_updatedBy = st_updated_by r,
     sf_createdAt = st_created_at r, sf_updatedAt = st_updated_at r \<rparr>"

definition set_rowById :: "string \<Rightarrow> secrets_db \<Rightarrow> set_row option" where
  "set_rowById i d = first_where (\<lambda>r. st_id r = i) (sd_sets d)"

definition max_version :: "string \<Rightarrow> secrets_db \<Rightarrow> nat" where
  "max_version i d = fold max (map vr_version (sel_where (\<lambda>v. vr_set_id v = i) (sd_versions d))) 0"

definition newest_ids :: "string \<Rightarrow> version_row list \<Rightarrow> nat list" where
  "newest_ids i t = map vr_id (take VERSION_CAP (order_by_desc vr_version (sel_where (\<lambda>v. vr_set_id v = i) t)))"

definition writeVersion ::
  "string \<Rightarrow> string \<Rightarrow> string list \<Rightarrow> string option \<Rightarrow> ms \<Rightarrow> secrets_db \<Rightarrow> secrets_db" where
  "writeVersion i sealed changed actor now d =
     (let row = \<lparr> vr_id = sd_seq d + 1, vr_set_id = i, vr_version = max_version i d + 1, vr_sealed = sealed,
                  vr_changed_keys = stringify (json_strings changed), vr_actor = actor, vr_created_at = now \<rparr>;
          t = sd_versions d @ [row]
      in d\<lparr> sd_versions := del_where (\<lambda>v. vr_set_id v = i \<and> vr_id v \<notin> set (newest_ids i t)) t,
            sd_seq := sd_seq d + 1 \<rparr>)"

definition seal_map :: "(string \<Rightarrow> string) \<Rightarrow> secret_map \<Rightarrow> string" where
  "seal_map seal m = seal (stringify (JObj m))"

definition secret_create ::
  "(string \<Rightarrow> string) \<Rightarrow> string \<Rightarrow> string \<Rightarrow> secret_map \<Rightarrow> string option \<Rightarrow> ms \<Rightarrow> secrets_db
     \<Rightarrow> store_fault + (secrets_db \<times> secret_info)" where
  "secret_create seal i name entries actor now d =
     and_then (valid_name name) (\<lambda>n. and_then (validEntries entries) (\<lambda>m.
       if \<exists>r \<in> set (sd_sets d). st_name r = n \<or> st_id r = i
       then Inl (StoreFault 409 ''a set with that name exists'')
       else (let keys = sort (map fst m);
                 row = \<lparr> st_id = i, st_name = n, st_sealed = seal_map seal m, st_updated_by = actor,
                         st_created_at = now, st_updated_at = now \<rparr>
             in Inr (writeVersion i (seal_map seal m) keys actor now (d\<lparr> sd_sets := sd_sets d @ [row] \<rparr>),
                     secret_info_of row keys))))"

definition set_info :: "(string \<Rightarrow> string option) \<Rightarrow> set_row \<Rightarrow> store_fault + secret_info" where
  "set_info opener r = map_sum id (\<lambda>m. secret_info_of r (sort (map fst m))) (openMap opener (st_sealed r))"

definition secret_list :: "(string \<Rightarrow> string option) \<Rightarrow> secrets_db \<Rightarrow> store_fault + secret_info list" where
  "secret_list opener d = map_ok (set_info opener) (order_by st_name (sd_sets d))"

definition secret_get ::
  "(string \<Rightarrow> string option) \<Rightarrow> string \<Rightarrow> secrets_db \<Rightarrow> store_fault + secret_info option" where
  "secret_get opener i d =
     (case set_rowById i d of None \<Rightarrow> Inr None | Some r \<Rightarrow> map_sum id Some (set_info opener r))"

text \<open>The transaction of \<open>put\<close>; an error inside rolls it back, so nothing has changed.\<close>

definition put_tx ::
  "(string \<Rightarrow> string) \<Rightarrow> (string \<Rightarrow> string option) \<Rightarrow> string \<Rightarrow> string option \<Rightarrow> secret_map option \<Rightarrow> string option
     \<Rightarrow> ms \<Rightarrow> secrets_db \<Rightarrow> store_fault + secrets_db" where
  "put_tx seal opener i newName newEntries actor now d =
     (case set_rowById i d of None \<Rightarrow> Inl (StoreFault 404 ''secret set not found'')
      | Some row \<Rightarrow>
          and_then (case newEntries of Some m \<Rightarrow> Inr m | None \<Rightarrow> openMap opener (st_sealed row)) (\<lambda>m.
            let n = or_default newName (st_name row); sealed = seal_map seal m in
            if \<exists>r \<in> set (sd_sets d). st_name r = n \<and> st_id r \<noteq> i
            then Inl (StoreFault 409 ''a set with that name exists'')
            else and_then (openMap opener (st_sealed row)) (\<lambda>old.
              Inr (writeVersion i sealed (diffKeys old m) actor now
                (d\<lparr> sd_sets := upd_where (\<lambda>r. st_id r = i) (\<lambda>r. r\<lparr> st_name := n, st_sealed := sealed,
                       st_updated_by := actor, st_updated_at := now \<rparr>) (sd_sets d) \<rparr>)))))"

definition secret_put ::
  "(string \<Rightarrow> string) \<Rightarrow> (string \<Rightarrow> string option) \<Rightarrow> string \<Rightarrow> string option \<Rightarrow> secret_map option \<Rightarrow> string option
     \<Rightarrow> ms \<Rightarrow> secrets_db \<Rightarrow> secrets_db \<times> (store_fault + secret_info)" where
  "secret_put seal opener i name entries actor now d =
     (case and_then (opt_ok valid_name name) (\<lambda>n. and_then (opt_ok validEntries entries) (\<lambda>es.
             put_tx seal opener i n es actor now d)) of
        Inl e \<Rightarrow> (d, Inl e)
      | Inr d' \<Rightarrow> (d', case secret_get opener i d' of Inl e \<Rightarrow> Inl e
          | Inr None \<Rightarrow> Inl (StoreFault 500 ''secret set missing after update'')
          | Inr (Some info) \<Rightarrow> Inr info))"

record version_info =
  vi_version :: nat
  vi_changedKeys :: "string list"
  vi_actor :: "string option"
  vi_createdAt :: ms

definition string_items :: "json list \<Rightarrow> string list" where
  "string_items vs = List.map_filter (\<lambda>v. case v of JStr s \<Rightarrow> Some s | _ \<Rightarrow> None) vs"

definition versions :: "string \<Rightarrow> secrets_db \<Rightarrow> version_info list" where
  "versions i d = map (\<lambda>v. \<lparr> vi_version = vr_version v,
       vi_changedKeys = (case json_parse (vr_changed_keys v) of Some (JArr vs) \<Rightarrow> string_items vs | _ \<Rightarrow> []),
       vi_actor = vr_actor v, vi_createdAt = vr_created_at v \<rparr>)
     (order_by_desc vr_version (sel_where (\<lambda>v. vr_set_id v = i) (sd_versions d)))"

definition versionEntries ::
  "(string \<Rightarrow> string option) \<Rightarrow> string \<Rightarrow> nat \<Rightarrow> secrets_db \<Rightarrow> store_fault + secret_map option" where
  "versionEntries opener i ver d =
     (case first_where (\<lambda>v. vr_set_id v = i \<and> vr_version v = ver) (sd_versions d) of
        None \<Rightarrow> Inr None | Some v \<Rightarrow> map_sum id Some (openMap opener (vr_sealed v)))"

definition secret_restore ::
  "(string \<Rightarrow> string) \<Rightarrow> (string \<Rightarrow> string option) \<Rightarrow> string \<Rightarrow> nat \<Rightarrow> string option \<Rightarrow> ms \<Rightarrow> secrets_db
     \<Rightarrow> secrets_db \<times> (store_fault + secret_info)" where
  "secret_restore seal opener i ver actor now d =
     (if set_rowById i d = None then (d, Inl (StoreFault 404 ''secret set not found''))
      else case versionEntries opener i ver d of
        Inl e \<Rightarrow> (d, Inl e)
      | Inr None \<Rightarrow> (d, Inl (StoreFault 404 ''version not found''))
      | Inr (Some m) \<Rightarrow> secret_put seal opener i None (Some m) actor now d)"

definition secret_remove :: "string \<Rightarrow> secrets_db \<Rightarrow> secrets_db \<times> bool" where
  "secret_remove i d =
     (d\<lparr> sd_versions := del_where (\<lambda>v. vr_set_id v = i) (sd_versions d),
         sd_sets := del_where (\<lambda>r. st_id r = i) (sd_sets d) \<rparr>,
      n_where (\<lambda>r. st_id r = i) (sd_sets d) = 1)"

definition text_of :: "json option \<Rightarrow> string option" where
  "text_of v = (case v of Some (JStr s) \<Rightarrow> Some s | _ \<Rightarrow> None)"

definition reveal :: "(string \<Rightarrow> string option) \<Rightarrow> string \<Rightarrow> string \<Rightarrow> secrets_db \<Rightarrow> store_fault + string option" where
  "reveal opener i key d =
     (case set_rowById i d of None \<Rightarrow> Inr None
      | Some r \<Rightarrow> map_sum id (\<lambda>m. text_of (map_of m key)) (openMap opener (st_sealed r)))"

text \<open>\<open>secret:<set>:<KEY>\<close>: the set is what lies between the first two colons.\<close>

definition secret_ref :: "string \<Rightarrow> (string \<times> string) option" where
  "secret_ref t = (case split_on (CHR '':'') t of
       [p, s, k] \<Rightarrow> if p = ''secret'' \<and> s \<noteq> [] \<and> KEY_RE k then Some (s, k) else None | _ \<Rightarrow> None)"

definition resolveSecret :: "(string \<Rightarrow> string option) \<Rightarrow> string \<Rightarrow> secrets_db \<Rightarrow> string option" where
  "resolveSecret opener t d =
     (case secret_ref t of None \<Rightarrow> None
      | Some (s, key) \<Rightarrow>
          (case first_where (\<lambda>r. st_id r = s \<or> st_name r = s) (sd_sets d) of None \<Rightarrow> None
           | Some r \<Rightarrow> (case opener (st_sealed r) of None \<Rightarrow> None
             | Some plain \<Rightarrow> (case json_parse plain of Some (JObj fs) \<Rightarrow> text_of (map_of fs key) | _ \<Rightarrow> None))))"

end
