(* ===== verification/Secret_Props.thy ===== *)
theory Secret_Props
  imports Secrets Group_Props "HOL-Library.Multiset"
begin

text \<open>
  Secret sets and their history: the invariant of both tables (the newest version of a set is what
  the set holds, versions are numbered without repetition, at most fifty are kept) and what a
  restore brings back.
\<close>

section \<open>Appending a version\<close>

abbreviation of_set :: "string \<Rightarrow> version_row list \<Rightarrow> version_row list" where
  "of_set i t \<equiv> sel_where (\<lambda>v. vr_set_id v = i) t"

lemma fold_max: "fold max xs (a::nat) = Max (insert a (set xs))"
  using Max.set_eq_fold [of a xs] by simp

lemma max_version_le: "v \<in> set (sd_versions d) \<Longrightarrow> vr_set_id v = i \<Longrightarrow> vr_version v \<le> max_version i d"
  by (simp add: max_version_def fold_max)

lemma max_version_eqI:
  assumes "v \<in> set (sd_versions d)" "vr_set_id v = i" "\<forall>w \<in> set (sd_versions d). vr_set_id w = i \<longrightarrow> vr_version w \<le> vr_version v"
  shows "max_version i d = vr_version v"
proof -
  have "vr_version v \<in> insert 0 (set (map vr_version (of_set i (sd_versions d))))" using assms(1,2) by auto
  moreover have "\<forall>n \<in> insert 0 (set (map vr_version (of_set i (sd_versions d)))). n \<le> vr_version v"
    using assms(3) by auto
  ultimately show ?thesis unfolding max_version_def fold_max by (intro Max_eqI) auto
qed

lemma newest_first:
  assumes "x \<in> set t" "\<forall>y \<in> set t. y \<noteq> x \<longrightarrow> k y < (k x :: nat)"
  shows "\<exists>rest. order_by_desc k t = x # rest"
proof -
  obtain y rest where e: "order_by_desc k t = y # rest"
    using assms(1) set_order_by_desc [of k t] by (cases "order_by_desc k t") auto
  have "sorted (map k (rev (order_by_desc k t)))" by (simp add: order_by_desc_def)
  then have "\<forall>z \<in> set rest. k z \<le> k y" unfolding e by (simp add: sorted_append)
  moreover have "x \<in> set (y # rest)" "y \<in> set t" using assms(1) set_order_by_desc [of k t] e by auto
  ultimately have "y = x" using assms(2) by (metis leD set_ConsD)
  with e show ?thesis by blast
qed

definition new_version :: "string \<Rightarrow> string \<Rightarrow> string list \<Rightarrow> string option \<Rightarrow> ms \<Rightarrow> secrets_db \<Rightarrow> version_row" where
  "new_version i sealed changed actor now d =
     \<lparr> vr_id = sd_seq d + 1, vr_set_id = i, vr_version = max_version i d + 1, vr_sealed = sealed,
       vr_changed_keys = stringify (json_strings changed), vr_actor = actor, vr_created_at = now \<rparr>"

lemma new_version_fields [simp]:
  "vr_id (new_version i s c a now d) = sd_seq d + 1" "vr_set_id (new_version i s c a now d) = i"
  "vr_version (new_version i s c a now d) = max_version i d + 1" "vr_sealed (new_version i s c a now d) = s"
  by (simp_all add: new_version_def)

lemma writeVersion_eq:
  "writeVersion i sealed changed actor now d =
     (let t = sd_versions d @ [new_version i sealed changed actor now d]
      in d\<lparr> sd_versions := del_where (\<lambda>v. vr_set_id v = i \<and> vr_id v \<notin> set (newest_ids i t)) t, sd_seq := sd_seq d + 1 \<rparr>)"
  by (simp add: writeVersion_def new_version_def Let_def)

lemma order_by_desc_distinct: "distinct t \<Longrightarrow> distinct (order_by_desc k t)"
  by (simp add: order_by_desc_def)

lemma length_order_by_desc [simp]: "length (order_by_desc k t) = length t"
  by (simp add: order_by_desc_def)

lemma writeVersion_spec:
  fixes i sealed changed actor now d
  defines "row \<equiv> new_version i sealed changed actor now d"
  defines "d' \<equiv> writeVersion i sealed changed actor now d"
  assumes u: "unique_on vr_id (sd_versions d)" and b: "\<forall>v \<in> set (sd_versions d). vr_id v \<le> sd_seq d"
  shows "row \<in> set (sd_versions d')"
    and "set (sd_versions d') \<subseteq> insert row (set (sd_versions d))"
    and "\<forall>v \<in> set (sd_versions d). vr_set_id v \<noteq> i \<longrightarrow> v \<in> set (sd_versions d')"
    and "length (of_set i (sd_versions d)) < VERSION_CAP \<Longrightarrow> set (sd_versions d') = insert row (set (sd_versions d))"
    and "length (of_set i (sd_versions d')) \<le> VERSION_CAP"
    and "unique_on vr_id (sd_versions d')" and "sd_sets d' = sd_sets d" and "sd_seq d' = sd_seq d + 1"
    and "j \<noteq> i \<Longrightarrow> of_set j (sd_versions d') = of_set j (sd_versions d)"
proof -
  let ?t = "sd_versions d @ [row]"
  let ?S = "of_set i ?t"
  let ?P = "\<lambda>v. vr_set_id v = i \<and> vr_id v \<notin> set (newest_ids i ?t)"
  have d': "sd_versions d' = del_where ?P ?t" "sd_sets d' = sd_sets d" "sd_seq d' = sd_seq d + 1"
    by (simp_all add: d'_def writeVersion_eq row_def Let_def)
  have ut: "unique_on vr_id ?t" using u b by (auto simp: unique_on_snoc row_def)
  have dt: "distinct ?t" using ut by (auto simp: unique_on_def distinct_map)
  have row: "row \<in> set ?S" by (simp add: row_def)
  have "\<forall>v \<in> set ?S. v \<noteq> row \<longrightarrow> vr_version v < vr_version row"
    using max_version_le [of _ d i] by (auto simp: row_def less_Suc_eq_le)
  from newest_first [OF row this] obtain rest where o: "order_by_desc vr_version ?S = row # rest" by blast
  have inj: "v \<in> set (take VERSION_CAP (order_by_desc vr_version ?S))" if "v \<in> set ?S" "vr_id v \<in> set (newest_ids i ?t)" for v
  proof -
    from that(2) obtain w where w: "w \<in> set (take VERSION_CAP (order_by_desc vr_version ?S))" "vr_id w = vr_id v"
      by (auto simp: newest_ids_def)
    then have "w \<in> set ?S" using set_order_by_desc [of vr_version ?S] in_set_takeD by metis
    with that(1) w ut have "w = v" by (auto dest: unique_onD)
    with w show ?thesis by simp
  qed
  have kept: "vr_id v \<in> set (newest_ids i ?t)" if "v \<in> set (take VERSION_CAP (order_by_desc vr_version ?S))" for v
    using that by (simp add: newest_ids_def)
  have "row \<in> set (take VERSION_CAP (order_by_desc vr_version ?S))" by (simp add: o VERSION_CAP_def)
  from kept [OF this] show "row \<in> set (sd_versions d')" by (simp add: d')
  show "set (sd_versions d') \<subseteq> insert row (set (sd_versions d))" by (auto simp: d')
  show "\<forall>v \<in> set (sd_versions d). vr_set_id v \<noteq> i \<longrightarrow> v \<in> set (sd_versions d')" by (simp add: d')
  show "unique_on vr_id (sd_versions d')" using ut by (simp add: d' unique_on_del_where)
  show "sd_sets d' = sd_sets d" "sd_seq d' = sd_seq d + 1" by (simp_all add: d')
  show "of_set j (sd_versions d') = of_set j (sd_versions d)" if "j \<noteq> i"
    using that unfolding d' by (auto simp: del_where_def sel_where_def row_def intro!: filter_cong)
  show "length (of_set i (sd_versions d')) \<le> VERSION_CAP"
  proof -
    have "set (of_set i (sd_versions d')) \<subseteq> set (take VERSION_CAP (order_by_desc vr_version ?S))"
      using inj by (auto simp: d')
    moreover have "distinct (of_set i (sd_versions d'))"
      unfolding d'(1) sel_where_def del_where_def using dt by (intro distinct_filter)
    ultimately have "length (of_set i (sd_versions d')) \<le> card (set (take VERSION_CAP (order_by_desc vr_version ?S)))"
      by (metis List.finite_set card_mono distinct_card)
    also have "\<dots> \<le> VERSION_CAP" by (rule order_trans [OF card_length]) simp
    finally show ?thesis .
  qed
  show "set (sd_versions d') = insert row (set (sd_versions d))" if short: "length (of_set i (sd_versions d)) < VERSION_CAP"
  proof -
    have "length ?S \<le> VERSION_CAP" using short by (simp add: sel_where_def row_def)
    then have "take VERSION_CAP (order_by_desc vr_version ?S) = order_by_desc vr_version ?S" by simp
    then have "\<not> ?P v" if "v \<in> set ?t" for v using kept [of v] that by auto
    then show ?thesis by (auto simp: d')
  qed
qed

section \<open>The invariant\<close>

definition secrets_inv :: "secrets_db \<Rightarrow> bool" where
  "secrets_inv d =
     (unique_on st_id (sd_sets d) \<and> unique_on st_name (sd_sets d) \<and>
      unique_on vr_id (sd_versions d) \<and> (\<forall>v \<in> set (sd_versions d). vr_id v \<le> sd_seq d) \<and>
      (\<forall>v \<in> set (sd_versions d). \<forall>w \<in> set (sd_versions d).
         vr_set_id v = vr_set_id w \<and> vr_version v = vr_version w \<longrightarrow> v = w) \<and>
      (\<forall>v \<in> set (sd_versions d). vr_set_id v \<in> st_id ` set (sd_sets d)) \<and>
      (\<forall>r \<in> set (sd_sets d). \<exists>v \<in> set (sd_versions d). vr_set_id v = st_id r \<and>
         vr_version v = max_version (st_id r) d \<and> vr_sealed v = st_sealed r) \<and>
      (\<forall>i. length (of_set i (sd_versions d)) \<le> VERSION_CAP))"

lemma max_version_of: "max_version i d = fold max (map vr_version (of_set i (sd_versions d))) 0"
  by (simp add: max_version_def)

text \<open>
  A write: the set rows become \<open>t\<close>, in which only the set \<open>i\<close> is new or changed and holds what is
  sealed, and a version is appended.
\<close>

lemma write_inv:
  assumes inv: "secrets_inv d"
    and t: "unique_on st_id t" "unique_on st_name t" "st_id ` set t = insert i (st_id ` set (sd_sets d))"
    and own: "\<And>r. r \<in> set t \<Longrightarrow> st_id r = i \<Longrightarrow> st_sealed r = sealed"
    and others: "\<And>r. r \<in> set t \<Longrightarrow> st_id r \<noteq> i \<Longrightarrow> r \<in> set (sd_sets d)"
  shows "secrets_inv (writeVersion i sealed changed actor now (d\<lparr> sd_sets := t \<rparr>))"
proof -
  let ?d = "d\<lparr> sd_sets := t \<rparr>"
  let ?d' = "writeVersion i sealed changed actor now ?d"
  let ?row = "new_version i sealed changed actor now ?d"
  have u: "unique_on vr_id (sd_versions ?d)" and b: "\<forall>v \<in> set (sd_versions ?d). vr_id v \<le> sd_seq ?d"
    using inv by (simp_all add: secrets_inv_def)
  note w = writeVersion_spec [OF u b, where i = i and sealed = sealed and changed = changed and actor = actor and now = now]
  have mx: "max_version i ?d = max_version i d" by (simp add: max_version_def)
  have "max_version i ?d' = vr_version ?row"
  proof (rule max_version_eqI [OF w(1)])
    show "\<forall>v \<in> set (sd_versions ?d'). vr_set_id v = i \<longrightarrow> vr_version v \<le> vr_version ?row"
    proof (intro ballI impI)
      fix v assume v: "v \<in> set (sd_versions ?d')" "vr_set_id v = i"
      with w(2) have "v = ?row \<or> v \<in> set (sd_versions d)" by auto
      then show "vr_version v \<le> vr_version ?row" using max_version_le [of v d i] v(2) by (elim disjE) (simp_all add: mx)
    qed
  qed simp
  then have own_max: "max_version i ?d' = max_version i d + 1" by (simp add: mx)
  have other_max: "max_version j ?d' = max_version j d" if "j \<noteq> i" for j
    using w(9) [OF that] by (simp add: max_version_of)
  have pairs: "v = w'" if "v \<in> set (sd_versions ?d')" "w' \<in> set (sd_versions ?d')"
      "vr_set_id v = vr_set_id w'" "vr_version v = vr_version w'" for v w'
  proof -
    have old: "x = y" if "x \<in> set (sd_versions d)" "y \<in> set (sd_versions d)" "vr_set_id x = vr_set_id y"
        "vr_version x = vr_version y" for x y using inv that unfolding secrets_inv_def by blast
    have fresh: "vr_version x \<noteq> vr_version ?row" if "x \<in> set (sd_versions d)" "vr_set_id x = i" for x
      using max_version_le [OF that] by (simp add: mx)
    from that w(2) have "v = ?row \<or> v \<in> set (sd_versions d)" "w' = ?row \<or> w' \<in> set (sd_versions d)" by auto
    then show ?thesis using old [of v w'] fresh [of v] fresh [of w'] that(3,4) by auto
  qed
  have "\<exists>v \<in> set (sd_versions ?d'). vr_set_id v = st_id r \<and> vr_version v = max_version (st_id r) ?d' \<and>
      vr_sealed v = st_sealed r" if r: "r \<in> set t" for r
  proof (cases "st_id r = i")
    case True
    then show ?thesis using w(1) own [OF r] own_max by (intro bexI [of _ ?row]) (simp_all add: mx)
  next
    case False
    then obtain v where v: "v \<in> set (sd_versions d)" "vr_set_id v = st_id r"
        "vr_version v = max_version (st_id r) d" "vr_sealed v = st_sealed r"
      using inv others [OF r] unfolding secrets_inv_def by blast
    then have "v \<in> set (sd_versions ?d')" using w(3) False by simp
    with v other_max [OF False] show ?thesis by auto
  qed
  moreover have "length (of_set j (sd_versions ?d')) \<le> VERSION_CAP" for j
    using w(5) w(9) [of j] inv by (cases "j = i") (simp_all add: secrets_inv_def)
  moreover have "\<forall>v \<in> set (sd_versions ?d'). vr_id v \<le> sd_seq ?d'" using w(2,8) b by fastforce
  moreover have "\<forall>v \<in> set (sd_versions ?d'). vr_set_id v \<in> st_id ` set t"
  proof
    fix v assume "v \<in> set (sd_versions ?d')"
    with w(2) have "v = ?row \<or> v \<in> set (sd_versions d)" by auto
    then show "vr_set_id v \<in> st_id ` set t" using inv unfolding t(3) by (auto simp: secrets_inv_def)
  qed
  ultimately show ?thesis using t(1,2) w(6,7) pairs by (simp add: secrets_inv_def)
qed

section \<open>Creating, replacing, restoring and removing a set\<close>

inductive secret_step ::
  "(string \<Rightarrow> string) \<Rightarrow> (string \<Rightarrow> string option) \<Rightarrow> secrets_db \<Rightarrow> secrets_db \<Rightarrow> bool"
  for seal opener where
  created: "secret_create seal i name entries actor now d = Inr (d', info) \<Longrightarrow> secret_step seal opener d d'"
| replaced: "secret_put seal opener i name entries actor now d = (d', res) \<Longrightarrow> secret_step seal opener d d'"
| restored: "secret_restore seal opener i ver actor now d = (d', res) \<Longrightarrow> secret_step seal opener d d'"
| removed: "secret_remove i d = (d', gone) \<Longrightarrow> secret_step seal opener d d'"

lemma no_secrets_inv: "secrets_inv no_secrets"
  by (simp add: secrets_inv_def no_secrets_def sel_where_def)

lemma secret_create_inv:
  assumes "secrets_inv d" "secret_create seal i name entries actor now d = Inr (d', info)"
  shows "secrets_inv d'"
proof -
  from assms(2) obtain n m where
    free: "\<forall>r \<in> set (sd_sets d). st_name r \<noteq> n \<and> st_id r \<noteq> i" and
    d': "d' = writeVersion i (seal_map seal m) (sort (map fst m)) actor now
      (d\<lparr> sd_sets := sd_sets d @ [\<lparr> st_id = i, st_name = n, st_sealed = seal_map seal m, st_updated_by = actor,
           st_created_at = now, st_updated_at = now \<rparr>] \<rparr>)"
    by (auto simp: secret_create_def and_then_Inr Let_def split: if_splits)
  have u: "unique_on st_id (sd_sets d)" "unique_on st_name (sd_sets d)" using assms(1) by (simp_all add: secrets_inv_def)
  let ?row = "\<lparr> st_id = i, st_name = n, st_sealed = seal_map seal m, st_updated_by = actor,
           st_created_at = now, st_updated_at = now \<rparr>"
  show ?thesis unfolding d'
  proof (rule write_inv [OF assms(1)])
    show "st_sealed r = seal_map seal m" if "r \<in> set (sd_sets d @ [?row])" "st_id r = i" for r
    proof -
      have "r = ?row" using that free by auto
      then show ?thesis by (metis set_row.select_convs(3))
    qed
  qed (use u free in \<open>auto simp: unique_on_snoc\<close>)
qed

lemma put_tx_Inr:
  assumes "put_tx seal opener i n es actor now d = Inr d'"
  obtains r m old where "set_rowById i d = Some r" "es = Some m \<or> (es = None \<and> openMap opener (st_sealed r) = Inr m)"
    "openMap opener (st_sealed r) = Inr old"
    "\<forall>x \<in> set (sd_sets d). st_name x = or_default n (st_name r) \<longrightarrow> st_id x = i"
    "d' = writeVersion i (seal_map seal m) (diffKeys old m) actor now
      (d\<lparr> sd_sets := upd_where (\<lambda>x. st_id x = i) (\<lambda>x. x\<lparr> st_name := or_default n (st_name r), st_sealed := seal_map seal m,
           st_updated_by := actor, st_updated_at := now \<rparr>) (sd_sets d) \<rparr>)"
  using assms unfolding put_tx_def
  by (auto simp: and_then_Inr Let_def split: option.splits if_splits)

lemma put_tx_inv:
  assumes "secrets_inv d" "put_tx seal opener i n es actor now d = Inr d'"
  shows "secrets_inv d'"
  using assms(2)
proof (rule put_tx_Inr)
  fix r :: set_row and m old
  let ?f = "\<lambda>x. x\<lparr> st_name := or_default n (st_name r), st_sealed := seal_map seal m,
           st_updated_by := actor, st_updated_at := now \<rparr>"
  let ?t = "upd_where (\<lambda>x. st_id x = i) ?f (sd_sets d)"
  assume r: "set_rowById i d = Some r"
    and free: "\<forall>x \<in> set (sd_sets d). st_name x = or_default n (st_name r) \<longrightarrow> st_id x = i"
    and d': "d' = writeVersion i (seal_map seal m) (diffKeys old m) actor now (d\<lparr> sd_sets := ?t \<rparr>)"
  have in_r: "r \<in> set (sd_sets d)" "st_id r = i"
    using first_where_SomeD [OF r [unfolded set_rowById_def]] by simp_all
  have ids: "map st_id ?t = map st_id (sd_sets d)" by (rule map_upd_where) simp
  then have set_ids: "st_id ` set ?t = st_id ` set (sd_sets d)" by (metis list.set_map)
  show ?thesis unfolding d'
  proof (rule write_inv [OF assms(1)])
    show "unique_on st_id ?t" using assms(1) ids by (simp add: secrets_inv_def unique_on_def)
    show "unique_on st_name ?t"
    proof (rule unique_on_rename)
      show "unique_on st_name (sd_sets d)" using assms(1) by (simp add: secrets_inv_def)
      show "\<forall>x \<in> set (sd_sets d). st_id x = i \<longrightarrow> st_name (?f x) = st_name x \<or>
          (\<forall>y \<in> set (sd_sets d). st_name y = st_name (?f x) \<longrightarrow> st_id y = i)" using free by auto
      show "st_id x = i \<Longrightarrow> st_id y = i \<Longrightarrow> x \<in> set (sd_sets d) \<Longrightarrow> y \<in> set (sd_sets d) \<Longrightarrow> x = y" for x y
        using assms(1) by (auto simp: secrets_inv_def dest: unique_onD)
    qed
    show "st_id ` set ?t = insert i (st_id ` set (sd_sets d))" using in_r unfolding set_ids by auto
    show "st_sealed x = seal_map seal m" if "x \<in> set ?t" "st_id x = i" for x
    proof -
      from set_upd_whereD [OF that(1)] obtain y where "x = (if st_id y = i then ?f y else y)" by blast
      then show ?thesis using that(2) by (cases "st_id y = i") simp_all
    qed
    show "x \<in> set (sd_sets d)" if "x \<in> set ?t" "st_id x \<noteq> i" for x
    proof -
      from set_upd_whereD [OF that(1)] obtain y
        where "y \<in> set (sd_sets d)" "x = (if st_id y = i then ?f y else y)" by blast
      then show ?thesis using that(2) by (cases "st_id y = i") simp_all
    qed
  qed
qed

lemma secret_put_cases:
  assumes "secret_put seal opener i name entries actor now d = (d', res)"
  shows "d' = d \<or> (\<exists>n es. put_tx seal opener i n es actor now d = Inr d')"
  using assms unfolding secret_put_def
  by (auto simp: and_then_Inr split: sum.splits)

lemma secret_put_inv:
  "secrets_inv d \<Longrightarrow> secret_put seal opener i name entries actor now d = (d', res) \<Longrightarrow> secrets_inv d'"
  using secret_put_cases put_tx_inv by blast

lemma secret_remove_inv:
  assumes "secrets_inv d"
  shows "secrets_inv (fst (secret_remove i d))"
proof -
  let ?d' = "fst (secret_remove i d)"
  have v: "sd_versions ?d' = del_where (\<lambda>v. vr_set_id v = i) (sd_versions d)"
    and s: "sd_sets ?d' = del_where (\<lambda>r. st_id r = i) (sd_sets d)" "sd_seq ?d' = sd_seq d"
    by (simp_all add: secret_remove_def)
  have of: "of_set j (sd_versions ?d') = (if j = i then [] else of_set j (sd_versions d))" for j
    unfolding v by (auto simp: sel_where_def del_where_def intro!: filter_cong)
  then have mx: "max_version j ?d' = max_version j d" if "j \<noteq> i" for j using that by (simp add: max_version_of)
  have held: "\<exists>v \<in> set (sd_versions ?d'). vr_set_id v = st_id r \<and> vr_version v = max_version (st_id r) ?d' \<and>
      vr_sealed v = st_sealed r" if "r \<in> set (sd_sets ?d')" for r
  proof -
    have r: "r \<in> set (sd_sets d)" "st_id r \<noteq> i" using that by (simp_all add: s)
    then obtain w where "w \<in> set (sd_versions d)" "vr_set_id w = st_id r" "vr_version w = max_version (st_id r) d"
        "vr_sealed w = st_sealed r"
      using assms unfolding secrets_inv_def by blast
    then show ?thesis using r(2) mx [OF r(2)] by (intro bexI [of _ w]) (auto simp: v)
  qed
  have "\<forall>w \<in> set (sd_versions ?d'). vr_set_id w \<in> st_id ` set (sd_sets ?d')"
  proof
    fix w assume "w \<in> set (sd_versions ?d')"
    then have w: "w \<in> set (sd_versions d)" "vr_set_id w \<noteq> i" by (simp_all add: v)
    then obtain r where "r \<in> set (sd_sets d)" "vr_set_id w = st_id r" using assms unfolding secrets_inv_def by blast
    then show "vr_set_id w \<in> st_id ` set (sd_sets ?d')" using w(2) by (auto simp: s)
  qed
  moreover have "\<forall>x \<in> set (sd_versions ?d'). \<forall>y \<in> set (sd_versions ?d').
      vr_set_id x = vr_set_id y \<and> vr_version x = vr_version y \<longrightarrow> x = y"
    using assms unfolding secrets_inv_def v by auto
  moreover have "length (of_set j (sd_versions ?d')) \<le> VERSION_CAP" for j
    using assms by (simp add: of secrets_inv_def)
  moreover have "\<forall>w \<in> set (sd_versions ?d'). vr_id w \<le> sd_seq ?d'"
    using assms by (simp add: v s secrets_inv_def)
  ultimately show ?thesis using assms held
    by (simp add: secrets_inv_def v s unique_on_del_where)
qed

lemma secret_step_inv:
  assumes "secret_step seal opener d d'" "secrets_inv d"
  shows "secrets_inv d'"
  using assms
proof cases
  case (restored i ver actor now res)
  then show ?thesis using assms(2) secret_put_inv unfolding secret_restore_def
    by (auto split: if_splits sum.splits option.splits)
next
  case (removed i gone)
  then show ?thesis using secret_remove_inv [OF assms(2), of i] by simp
qed (use secret_create_inv secret_put_inv in blast)+

text \<open>
  C34. Secret sets and their history: however sets are created, replaced, restored and removed, names
  and identifiers stay unique, a version number is used once per set, no version belongs to a set
  that is gone, at most fifty versions of a set are kept, and the highest version of a set holds
  what the set holds now.
\<close>

theorem secrets_invariant:
  assumes "(secret_step seal opener)\<^sup>*\<^sup>* no_secrets d"
  shows "secrets_inv d"
  using assms by (induction rule: rtranclp_induct) (auto intro: no_secrets_inv secret_step_inv)

text \<open>A set created with one entry and then emptied: two versions.\<close>

definition demo_secrets :: secrets_db where
  "demo_secrets =
     (let d = fst (projr (secret_create id ''s1'' ''ci'' [(''TOKEN'', JStr ''x'')] None 5 no_secrets))
      in fst (secret_put id Some ''s1'' None (Some []) None 6 d))"

lemma demo_secrets_reach: "(secret_step id Some)\<^sup>*\<^sup>* no_secrets demo_secrets"
proof -
  let ?c = "secret_create id ''s1'' ''ci'' [(''TOKEN'', JStr ''x'')] None 5 no_secrets"
  have "?c = Inr (fst (projr ?c), snd (projr ?c))" by code_simp
  then have "secret_step id Some no_secrets (fst (projr ?c))" by (rule secret_step.created)
  moreover have "secret_step id Some (fst (projr ?c)) demo_secrets"
    unfolding demo_secrets_def Let_def by (rule secret_step.replaced [OF surjective_pairing])
  ultimately show ?thesis by (meson converse_rtranclp_into_rtranclp r_into_rtranclp)
qed

theorem secrets_invariant_witness:
  "secrets_inv demo_secrets \<and> map vr_version (sd_versions demo_secrets) = [1, 2]"
proof
  show "secrets_inv demo_secrets" by (rule secrets_invariant [OF demo_secrets_reach])
  show "map vr_version (sd_versions demo_secrets) = [1, 2]" by code_simp
qed

lemma writeVersion_set_rowById:
  "set_rowById j (writeVersion i sealed changed actor now d) = set_rowById j d"
  by (simp add: set_rowById_def writeVersion_def Let_def)

lemma first_where_of_set:
  "first_where (\<lambda>v. vr_set_id v = j \<and> vr_version v = n) t =
     first_where (\<lambda>v. vr_version v = n) (sel_where (\<lambda>v. vr_set_id v = j) t)"
  by (induction t) (auto simp: first_where_Cons sel_where_def)

lemma first_where_upd_same:
  "(\<And>r. P (f r) = P r) \<Longrightarrow> first_where P (upd_where P f t) = map_option f (first_where P t)"
  by (induction t) (auto simp: upd_where_Cons first_where_Cons)

lemma versionEntries_of:
  assumes "secrets_inv d" "v \<in> set (sd_versions d)"
  shows "versionEntries opener (vr_set_id v) (vr_version v) d = map_sum id Some (openMap opener (vr_sealed v))"
proof -
  let ?P = "\<lambda>w. vr_set_id w = vr_set_id v \<and> vr_version w = vr_version v"
  obtain w where w: "first_where ?P (sd_versions d) = Some w"
    using assms(2) first_where_None [of ?P "sd_versions d"] by (cases "first_where ?P (sd_versions d)") auto
  have "w = v"
  proof -
    have "\<forall>a \<in> set (sd_versions d). \<forall>b \<in> set (sd_versions d).
        vr_set_id a = vr_set_id b \<and> vr_version a = vr_version b \<longrightarrow> a = b"
      using assms(1) unfolding secrets_inv_def by blast
    then show ?thesis using assms(2) first_where_SomeD [OF w] by blast
  qed
  with w show ?thesis by (simp add: versionEntries_def)
qed

lemma versionEntries_Inr:
  assumes "versionEntries opener i ver d = Inr (Some m)"
  obtains v where "v \<in> set (sd_versions d)" "vr_set_id v = i" "vr_version v = ver" "openMap opener (vr_sealed v) = Inr m"
proof -
  obtain v where v: "first_where (\<lambda>v. vr_set_id v = i \<and> vr_version v = ver) (sd_versions d) = Some v"
      "map_sum id Some (openMap opener (vr_sealed v)) = Inr (Some m)"
    using assms unfolding versionEntries_def by (auto split: option.splits)
  then have "openMap opener (vr_sealed v) = Inr m" by (cases "openMap opener (vr_sealed v)") simp_all
  then show thesis using that first_where_SomeD [OF v(1)] by blast
qed

lemma validEntries_ok:
  assumes "validEntries m = Inr m'"
  shows "m' = m" "json_ok (JObj m)"
proof -
  have "json_ok_fields es" if "map_ok valid_entry es = Inr us" for es and us :: "unit list"
    using that by (induction es arbitrary: us)
      (auto simp: and_then_Inr valid_entry_def split: if_splits json.splits)
  then show "json_ok (JObj m)" using assms by (auto simp: validEntries_def and_then_Inr split: if_splits)
  show "m' = m" using assms by (auto simp: validEntries_def and_then_Inr split: if_splits)
qed

lemma openMap_seal:
  assumes "opener (seal (stringify (JObj m))) = Some (stringify (JObj m))" "json_ok (JObj m)"
  shows "openMap opener (seal_map seal m) = Inr m"
  using assms(1) json_roundtrip [OF assms(2)] by (simp add: openMap_def seal_map_def)

text \<open>
  C35. Restoring a version: with a cipher that opens what it sealed, a restore that succeeds leaves the
  set holding exactly the entries of that version, appended as a new version of its own; other
  sets keep their versions, and while the set has fewer than fifty versions every earlier one still
  reads the same, so the restore can be undone.
\<close>

theorem restore_exact:
  assumes "secrets_inv d" "\<forall>x. opener (seal x) = Some x"
    and "versionEntries opener i ver d = Inr (Some m)"
    and "secret_restore seal opener i ver actor now d = (d', Inr info)"
  shows "(\<exists>r. set_rowById i d' = Some r \<and> openMap opener (st_sealed r) = Inr m) \<and>
    versionEntries opener i (max_version i d + 1) d' = Inr (Some m) \<and>
    (\<forall>j ver'. j \<noteq> i \<longrightarrow> versionEntries opener j ver' d' = versionEntries opener j ver' d) \<and>
    (length (versions i d) < VERSION_CAP \<longrightarrow>
      (\<forall>ver' m'. versionEntries opener i ver' d = Inr (Some m') \<longrightarrow> versionEntries opener i ver' d' = Inr (Some m')))"
proof -
  have put: "secret_put seal opener i None (Some m) actor now d = (d', Inr info)"
    using assms(3,4) by (auto simp: secret_restore_def split: if_splits)
  have okm: "json_ok (JObj m)" and tx: "put_tx seal opener i None (Some m) actor now d = Inr d'"
  proof -
    show "json_ok (JObj m)" using put validEntries_ok(2) [of m]
      by (cases "validEntries m") (auto simp: secret_put_def opt_ok_def)
    show "put_tx seal opener i None (Some m) actor now d = Inr d'" using put validEntries_ok(1) [of m]
      by (cases "validEntries m") (auto simp: secret_put_def opt_ok_def split: sum.splits)
  qed
  have m: "openMap opener (seal_map seal m) = Inr m" using openMap_seal okm assms(2) by blast
  from tx show ?thesis
  proof (rule put_tx_Inr)
    fix r :: set_row and m' old
    let ?f = "\<lambda>x. x\<lparr> st_name := or_default None (st_name r), st_sealed := seal_map seal m', st_updated_by := actor,
           st_updated_at := now \<rparr>"
    let ?d = "d\<lparr> sd_sets := upd_where (\<lambda>x. st_id x = i) ?f (sd_sets d) \<rparr>"
    assume r: "set_rowById i d = Some r" and "Some m = Some m' \<or> (Some m = None \<and> openMap opener (st_sealed r) = Inr m')"
      and d': "d' = writeVersion i (seal_map seal m') (diffKeys old m') actor now ?d"
    then have mm: "m' = m" by simp
    have inv': "secrets_inv d'" using put_tx_inv [OF assms(1) tx] .
    have ub: "unique_on vr_id (sd_versions ?d)" "\<forall>v \<in> set (sd_versions ?d). vr_id v \<le> sd_seq ?d"
      using assms(1) by (simp_all add: secrets_inv_def)
    note w = writeVersion_spec [OF ub, where i = i and sealed = "seal_map seal m'" and changed = "diffKeys old m'"
        and actor = actor and now = now, folded d']
    have mx: "max_version i ?d = max_version i d" by (simp add: max_version_def)
    have "set_rowById i d' = Some (?f r)"
      unfolding d' writeVersion_set_rowById using r by (simp add: set_rowById_def first_where_upd_same)
    then have held: "\<exists>r. set_rowById i d' = Some r \<and> openMap opener (st_sealed r) = Inr m" using m mm by simp
    have new: "versionEntries opener i (max_version i d + 1) d' = Inr (Some m)"
      using versionEntries_of [OF inv' w(1), of opener] m unfolding new_version_fields mx unfolding mm by simp
    have other: "versionEntries opener j ver' d' = versionEntries opener j ver' d" if "j \<noteq> i" for j ver'
    proof -
      have "sel_where (\<lambda>v. vr_set_id v = j) (sd_versions d') = sel_where (\<lambda>v. vr_set_id v = j) (sd_versions d)"
        using w(9) [OF that] by simp
      then show ?thesis unfolding versionEntries_def by (metis first_where_of_set)
    qed
    have earlier: "versionEntries opener i ver' d' = Inr (Some m2)"
      if "length (versions i d) < VERSION_CAP" and "versionEntries opener i ver' d = Inr (Some m2)" for ver' m2
    proof -
      from that(2) obtain v where v: "v \<in> set (sd_versions d)" "vr_set_id v = i" "vr_version v = ver'"
        "openMap opener (vr_sealed v) = Inr m2" by (rule versionEntries_Inr)
      have "v \<in> set (sd_versions d')" using w(4) that(1) v(1) by (simp add: versions_def)
      from versionEntries_of [OF inv' this, of opener] show ?thesis using v by simp
    qed
    show ?thesis using held new other earlier by blast
  qed
qed

lemma demo_secrets_inv: "secrets_inv demo_secrets"
  using demo_secrets_reach
  by (induction rule: rtranclp_induct) (auto intro: no_secrets_inv secret_step_inv)

theorem restore_exact_witness:
  "let d' = fst (secret_restore id Some ''s1'' 1 None 7 demo_secrets)
   in versionEntries Some ''s1'' 3 d' = Inr (Some [(''TOKEN'', JStr ''x'')])"
proof -
  let ?r = "secret_restore id Some ''s1'' 1 None 7 demo_secrets"
  have e: "versionEntries Some ''s1'' 1 demo_secrets = Inr (Some [(''TOKEN'', JStr ''x'')])" by code_simp
  have r: "?r = (fst ?r, Inr (projr (snd ?r)))" by code_simp
  have m: "max_version ''s1'' demo_secrets + 1 = 3" by code_simp
  have cipher: "\<forall>x. Some (id x) = Some x" by simp
  note restore_exact [OF demo_secrets_inv cipher e r, unfolded m]
  then show ?thesis unfolding Let_def by blast
qed

end
