(* ===== verification/Markers.thy ===== *)
theory Markers
  imports Uptime
begin

text \<open>
  Deployment markers, the vertical lines of the charts: \<open>src/src/lib/server/store/markers.ts\<close>.
\<close>

record marker =
  mk_id :: nat
  mk_ts :: ms
  mk_title :: string
  mk_kind :: string
  mk_source :: "string option"
  mk_service :: "string option"

record marker_db =
  md_rows :: "marker list"
  md_seq :: nat

record marker_input =
  ma_ts :: "rat option"
  ma_title :: string
  ma_kind :: "string option"
  ma_source :: "string option"
  ma_service :: "string option"

definition MARKER_KINDS :: "string list" where
  "MARKER_KINDS = [''deploy'', ''release'', ''config'', ''note'']"

definition MAX_MARKERS :: nat where "MAX_MARKERS = 5000"

definition marker_kind :: "string option \<Rightarrow> string" where
  "marker_kind k = (case k of Some x \<Rightarrow> if x \<in> set MARKER_KINDS then x else ''note'' | None \<Rightarrow> ''note'')"

definition marker_add :: "marker_input \<Rightarrow> ms \<Rightarrow> marker_db \<Rightarrow> marker_db \<times> marker" where
  "marker_add m now d =
     (let row = \<lparr> mk_id = md_seq d + 1,
                  mk_ts = min (js_round (or_default (ma_ts m) (of_int now))) (now + 60000),
                  mk_title = take 256 (ma_title m), mk_kind = marker_kind (ma_kind m),
                  mk_source = map_option (take 128) (ma_source m), mk_service = ma_service m \<rparr>
      in (d\<lparr> md_rows := md_rows d @ [row], md_seq := md_seq d + 1 \<rparr>, row))"

definition marker_remove :: "nat \<Rightarrow> marker_db \<Rightarrow> marker_db \<times> bool" where
  "marker_remove i d =
     (let P = (\<lambda>r. mk_id r = i) in (d\<lparr> md_rows := del_where P (md_rows d) \<rparr>, n_where P (md_rows d) > 0))"

definition markers_between :: "ms \<Rightarrow> ms \<Rightarrow> string option \<Rightarrow> marker_db \<Rightarrow> marker list" where
  "markers_between from till svc d =
     order_by mk_ts (sel_where (\<lambda>r. from \<le> mk_ts r \<and> mk_ts r \<le> till \<and>
        (svc = None \<or> mk_service r = None \<or> mk_service r = svc)) (md_rows d))"

definition marker_list :: "nat \<Rightarrow> nat \<Rightarrow> marker_db \<Rightarrow> marker list \<times> nat" where
  "marker_list limit offset d =
     (take limit (drop offset (order_by_desc mk_ts (md_rows d))), length (md_rows d))"

definition marker_exists :: "string \<Rightarrow> ms \<Rightarrow> marker_db \<Rightarrow> bool" where
  "marker_exists title since d = list_ex (\<lambda>r. mk_title r = title \<and> mk_ts r \<ge> since) (md_rows d)"

definition marker_prune :: "ms \<Rightarrow> marker_db \<Rightarrow> marker_db" where
  "marker_prune cutoff d =
     (let t = del_where (\<lambda>r. mk_ts r < cutoff) (md_rows d);
          newest = map mk_id (take MAX_MARKERS (order_by_desc mk_ts t))
      in d\<lparr> md_rows := del_where (\<lambda>r. mk_id r \<notin> set newest) t \<rparr>)"

definition no_markers :: marker_db where
  "no_markers = \<lparr> md_rows = [], md_seq = 0 \<rparr>"

end
