(* ===== verification/Snapshot.thy ===== *)
theory Snapshot
  imports Markers Service_Groups
begin

text \<open>
  The public status snapshot, \<open>src/src/lib/server/status/snapshot.ts\<close>: the expansion of the maintenance
  windows, one entry per service, the rollup, the incidents, and the cache around \<open>build\<close>.

  \<open>Date.parse\<close> of a configured text is the parameter \<open>parse\<close>; the schema admits only texts it accepts.
  \<open>Date.parse\<close> of a text that \<open>toISOString\<close> wrote is the instant again, so a list that the code sorts by
  such a text is sorted by the instant here.  The services are built concurrently and each is put in
  its group when its own build has finished: \<open>finished\<close> is the order in which they do.  A build
  reads one state of the stores; what a change during a build does is the subject of the cache.
\<close>

section \<open>The wire types\<close>

record service_snapshot =
  ws_id :: string
  ws_name :: string
  ws_description :: "string option"
  ws_status :: service_status
  ws_latencyMs :: "int option"
  ws_d24 :: "rat option"
  ws_d7 :: "rat option"
  ws_d30 :: "rat option"
  ws_d90 :: "rat option"
  ws_latency :: "latency_point list"
  ws_markers :: "(ms \<times> string \<times> string) list"
  ws_slo :: "(rat \<times> nat \<times> rat option \<times> rat option \<times> rat option) option"
  ws_days :: "day_bucket list"
  ws_inMaintenance :: bool
  ws_lastCheckedAt :: "ms option"
  ws_lastDetail :: "string option"
  ws_certDays :: "int option"
  ws_certWarn :: bool
  ws_icon :: "string option"
  ws_groupIds :: "string list"

record incident_view =
  iv_id :: string
  iv_title :: string
  iv_severity :: string
  iv_services :: "string list"
  iv_startedAt :: string
  iv_resolvedAt :: "string option"
  iv_updates :: "(string \<times> string) list"
  iv_source :: string

record window_view =
  wv_id :: string
  wv_title :: string
  wv_description :: "string option"
  wv_services :: "string list"
  wv_startsAt :: string
  wv_endsAt :: string
  wv_active :: bool
  wv_weekly :: "string option"

record page_meta =
  pm_slug :: string
  pm_title :: string
  pm_description :: "string option"
  pm_accent :: "string option"
  pm_services :: "string list"
  pm_noindex :: bool

record site_view =
  vs_name :: string
  vs_title :: string
  vs_description :: string
  vs_url :: "string option"
  vs_logoUrl :: "string option"
  vs_accent :: string
  vs_ogTitle :: "string option"
  vs_ogDescription :: "string option"
  vs_ogImage :: "string option"
  vs_twitterSite :: "string option"
  vs_robots :: string
  vs_announcement :: "(string \<times> string) option"
  vs_links :: "link list"

record status_snapshot =
  sn_generatedAt :: string
  sn_site :: site_view
  sn_overall :: service_status
  sn_groups :: "(string \<times> service_snapshot list) list"
  sn_active :: "incident_view list"
  sn_recent :: "incident_view list"
  sn_maintenance_active :: "window_view list"
  sn_maintenance_upcoming :: "window_view list"
  sn_pages :: "page_meta list"
  sn_serviceGroups :: "group_ref list"
  sn_historyDays :: nat
  sn_refreshSeconds :: nat

section \<open>Maintenance windows\<close>

definition RECENT_INCIDENTS_MAX :: nat where "RECENT_INCIDENTS_MAX = 15"
definition UPCOMING_WINDOW_DAYS :: int where "UPCOMING_WINDOW_DAYS = 42"
definition UPCOMING_WINDOW_MAX :: nat where "UPCOMING_WINDOW_MAX = 12"

record expanded_window =
  ew_title :: string
  ew_description :: "string option"
  ew_services :: "string list"
  ew_weekly :: "string option"
  ew_start :: ms
  ew_end :: ms
  ew_entryIdx :: nat
  ew_configId :: "string option"

definition instant :: "(string \<Rightarrow> ms option) \<Rightarrow> string \<Rightarrow> ms" where
  "instant parse s = or_default (parse s) 0"

definition window_at :: "maintenance_entry \<Rightarrow> nat \<Rightarrow> time_window \<Rightarrow> expanded_window" where
  "window_at w idx occ = \<lparr> ew_title = me_title w, ew_description = me_description w, ew_services = me_services w,
     ew_weekly = me_weekly w, ew_start = tw_start occ, ew_end = tw_end occ, ew_entryIdx = idx, ew_configId = me_id w \<rparr>"

definition entry_windows ::
  "(string \<Rightarrow> ms option) \<Rightarrow> ms \<Rightarrow> ms \<Rightarrow> maintenance_entry \<Rightarrow> time_window list" where
  "entry_windows parse from till w =
     (case (non_empty (me_weekly w), non_empty (me_at w), me_duration_minutes w) of
        (Some day, Some clock, Some minutes) \<Rightarrow> weeklyOccurrences day clock minutes from till
      | _ \<Rightarrow> (case (non_empty (me_start w), non_empty (me_end w)) of
          (Some s, Some e) \<Rightarrow> [\<lparr> tw_start = instant parse s, tw_end = instant parse e \<rparr>]
        | _ \<Rightarrow> []))"

definition expandWindows :: "(string \<Rightarrow> ms option) \<Rightarrow> status_config \<Rightarrow> ms \<Rightarrow> ms \<Rightarrow> ms \<Rightarrow> expanded_window list" where
  "expandWindows parse c now pastMs futureMs =
     concat (map (\<lambda>(idx, w). map (window_at w idx) (entry_windows parse (now - pastMs) (now + futureMs) w))
       (enumerate 0 (cf_maintenance c)))"

definition all_or :: "string list \<Rightarrow> string list" where
  "all_or ss = (if ''all'' \<in> set ss then [''*''] else ss)"

definition window_active :: "ms \<Rightarrow> expanded_window \<Rightarrow> bool" where
  "window_active now w = (ew_start w \<le> now \<and> ew_end w \<ge> now)"

definition toPublicWindow :: "ms \<Rightarrow> expanded_window \<Rightarrow> window_view" where
  "toPublicWindow now w =
     \<lparr> wv_id = (case non_empty (ew_configId w) of Some i \<Rightarrow> i @ ''-'' @ int_text (ew_start w)
         | None \<Rightarrow> ''mw-'' @ int_text (int (ew_entryIdx w)) @ ''-'' @ int_text (ew_start w)),
       wv_title = ew_title w, wv_description = ew_description w, wv_services = all_or (ew_services w),
       wv_startsAt = iso_text (ew_start w), wv_endsAt = iso_text (ew_end w),
       wv_active = window_active now w, wv_weekly = ew_weekly w \<rparr>"

definition active_services :: "ms \<Rightarrow> expanded_window list \<Rightarrow> string list" where
  "active_services now ws = concat (map (\<lambda>w. all_or (ew_services w)) (filter (window_active now) ws))"

text \<open>The windows of a service: those for all services first, then its own, once per mention.\<close>

definition windows_of :: "string \<Rightarrow> expanded_window list \<Rightarrow> expanded_window list" where
  "windows_of i ws =
     filter (\<lambda>w. ''all'' \<in> set (ew_services w)) ws @
     concat (map (\<lambda>w. if ''all'' \<in> set (ew_services w) then []
       else map (\<lambda>_. w) (filter (\<lambda>s. s = i) (ew_services w))) ws)"

definition public_windows :: "ms \<Rightarrow> expanded_window list \<Rightarrow> expanded_window list" where
  "public_windows now ws = sort_key ew_start (filter (\<lambda>w. ew_end w > now) ws)"

text \<open>\<open>known\<close> holds the rules already listed, as weekday, colon and title.\<close>

fun upcoming_loop :: "ms \<Rightarrow> ms \<Rightarrow> string list \<Rightarrow> expanded_window list \<Rightarrow> expanded_window list" where
  "upcoming_loop now horizon known [] = []"
| "upcoming_loop now horizon known (w # ws) =
     (if window_active now w \<or> ew_start w > horizon then upcoming_loop now horizon known ws
      else case non_empty (ew_weekly w) of
        None \<Rightarrow> w # upcoming_loop now horizon known ws
      | Some day \<Rightarrow>
          (let key = day @ '':'' @ ew_title w in
           if key \<in> set known then upcoming_loop now horizon known ws
           else w # upcoming_loop now horizon (key # known) ws))"

section \<open>One service\<close>

definition HOUR_MS :: ms where "HOUR_MS = 3600000"

definition fracToPct :: "rat option \<Rightarrow> rat option" where
  "fracToPct frn = map_option (\<lambda>f. of_int (js_round (f * 10000)) / 100) frn"

definition uptimeFrac :: "string \<Rightarrow> check_row list \<Rightarrow> check_row list \<Rightarrow> ms \<Rightarrow> ms \<Rightarrow> rat option" where
  "uptimeFrac i table rows rowsFrom from =
     (if from \<ge> rowsFrom then uptimeFractionInRows rows from else uptime_fraction i from table)"

definition budget_remaining :: "rat option \<Rightarrow> rat \<Rightarrow> rat option" where
  "budget_remaining frn allowed =
     (case frn of None \<Rightarrow> None
      | Some f \<Rightarrow> if allowed \<le> 0 then Some 1 else Some (max 0 (min 1 (1 - (1 - f) / allowed))))"

definition burn_rate :: "rat option \<Rightarrow> rat \<Rightarrow> rat option" where
  "burn_rate hour allowed =
     (case hour of None \<Rightarrow> None | Some h \<Rightarrow> if allowed \<le> 0 then None else Some ((1 - h) / allowed))"

definition slo_state ::
  "(ms \<Rightarrow> rat option) \<Rightarrow> ms \<Rightarrow> slo \<Rightarrow> rat \<times> nat \<times> rat option \<times> rat option \<times> rat option" where
  "slo_state frac_from now s =
     (let frn = frac_from (now - int (sl_window_days s) * DAY_MS); hour = frac_from (now - HOUR_MS);
          allowed = (100 - sl_target_percent s) / 100
      in (sl_target_percent s, sl_window_days s, frn, budget_remaining frn allowed, burn_rate hour allowed))"

definition warn_days :: "status_config \<Rightarrow> service \<Rightarrow> int" where
  "warn_days c s = or_default (if sv_type s = ''http'' \<or> sv_type s = ''tcp'' then sv_cert_warn_days s else None)
     (mc_cert_warn_days (cf_monitor c))"

definition buildService ::
  "status_config \<Rightarrow> monitor \<Rightarrow> marker_db \<Rightarrow> (string \<Rightarrow> bool) \<Rightarrow> ms \<Rightarrow> ms \<Rightarrow> nat \<Rightarrow> expanded_window list
     \<Rightarrow> string list \<Rightarrow> string list \<Rightarrow> service \<Rightarrow> service_snapshot" where
  "buildService c m mk icon now since days windows activeServices groupIds s =
     (let i = sv_id s;
          inMaintenance = (i \<in> set activeServices \<or> ''*'' \<in> set activeServices);
          rowsFrom = since - DAY_MS;
          rows = checks_since i rowsFrom (mo_checks m);
          latest = latest_check i (mo_checks m);
          certDays = or_default (mo_certDays m i) None;
          frn = uptimeFrac i (mo_checks m) rows rowsFrom;
          d = (\<lambda>span. fracToPct (frn (now - span)));
          dayStart = now - 24 * HOUR_MS
      in \<lparr> ws_id = i, ws_name = sv_name s, ws_description = sv_description s,
           ws_status = (if inMaintenance then In_maintenance else or_default (mo_status m i) Not_known),
           ws_latencyMs = (case latest of Some r \<Rightarrow> if ck_ok r = 1 then Some (ck_latency r) else None | None \<Rightarrow> None),
           ws_d24 = d DAY_MS, ws_d7 = d (7 * DAY_MS), ws_d30 = d (30 * DAY_MS), ws_d90 = d (90 * DAY_MS),
           ws_latency = buildLatencySeries (filter (\<lambda>r. ck_ts r \<ge> dayStart) rows) dayStart now 144,
           ws_markers = map (\<lambda>r. (mk_ts r, mk_title r, mk_kind r)) (markers_between dayStart now (Some i) mk),
           ws_slo = map_option (slo_state frn now) (find (\<lambda>x. sl_service x = i) (cf_slos c)),
           ws_days = buildDayBuckets now days rows (map (\<lambda>w. \<lparr> tw_start = ew_start w, tw_end = ew_end w \<rparr>) windows) None,
           ws_inMaintenance = inMaintenance,
           ws_lastCheckedAt = map_option ck_ts latest,
           ws_lastDetail = Option.bind latest ck_detail,
           ws_certDays = certDays,
           ws_certWarn = (case certDays of Some n \<Rightarrow> n \<le> warn_days c s | None \<Rightarrow> False),
           ws_icon = (if icon i then Some (''/favicon/'' @ i) else None),
           ws_groupIds = groupIds \<rparr>)"

section \<open>Incidents\<close>

definition auto_incident :: "(nat \<Rightarrow> update_row list) \<Rightarrow> incident_row \<Rightarrow> incident_view" where
  "auto_incident updates r =
     \<lparr> iv_id = ''auto-'' @ int_text (int (ir_id r)), iv_title = ir_title r, iv_severity = ir_severity r,
       iv_services = [ir_service_id r], iv_startedAt = iso_text (ir_started_at r),
       iv_resolvedAt = (case ir_ended_at r of Some t \<Rightarrow> if t = 0 then None else Some (iso_text t) | None \<Rightarrow> None),
       iv_updates = map (\<lambda>u. (iso_text (ur_at u), case non_empty (ur_author u) of
           Some a \<Rightarrow> ur_message u @ '' ('' @ a @ '')'' | None \<Rightarrow> ur_message u)) (updates (ir_id r)),
       iv_source = ''auto'' \<rparr>"

definition manual_view :: "(string \<Rightarrow> ms option) \<Rightarrow> nat \<times> manual_incident \<Rightarrow> incident_view" where
  "manual_view parse = (\<lambda>(idx, i).
     \<lparr> iv_id = ''manual-'' @ int_text (int idx), iv_title = mi_title i, iv_severity = mi_severity i,
       iv_services = mi_services i, iv_startedAt = iso_text (instant parse (mi_started_at i)),
       iv_resolvedAt = map_option (\<lambda>t. iso_text (instant parse t)) (non_empty (mi_resolved_at i)),
       iv_updates = map (\<lambda>u. (iso_text (instant parse (in_at u)), in_message u))
         (sort_key (\<lambda>u. - instant parse (in_at u)) (mi_updates i)),
       iv_source = ''manual'' \<rparr>)"

definition incident_views :: "(string \<Rightarrow> ms option) \<Rightarrow> status_config \<Rightarrow> incident_db \<Rightarrow> (ms \<times> incident_view) list" where
  "incident_views parse c d =
     (let autoRows = allOpen d @ recent_incidents RECENT_INCIDENTS_MAX d;
          updates = updatesFor (map ir_id autoRows) d
      in sort_key (\<lambda>(t, _). - t)
           (map (\<lambda>r. (ir_started_at r, auto_incident updates r)) autoRows @
            map (\<lambda>(idx, i). (instant parse (mi_started_at i), manual_view parse (idx, i))) (enumerate 0 (cf_incidents c))))"

definition buildIncidents ::
  "(string \<Rightarrow> ms option) \<Rightarrow> status_config \<Rightarrow> incident_db \<Rightarrow> incident_view list \<times> incident_view list" where
  "buildIncidents parse c d =
     (let views = map snd (incident_views parse c d)
      in (filter (\<lambda>i. iv_resolvedAt i = None) views,
          take RECENT_INCIDENTS_MAX (filter (\<lambda>i. iv_resolvedAt i \<noteq> None) views)))"

section \<open>The snapshot\<close>

record world =
  wo_config :: status_config
  wo_monitor :: monitor
  wo_markers :: marker_db
  wo_groups :: groups_db
  wo_icon :: "string \<Rightarrow> bool"

definition site_of :: "status_config \<Rightarrow> site_view" where
  "site_of c = (let s = cf_site c; text = (\<lambda>t. if t = [] then None else Some t) in
     \<lparr> vs_name = si_name s, vs_title = or_default (si_title s) (si_name s @ '' Status''),
       vs_description = si_description s, vs_url = si_url s, vs_logoUrl = si_logo_url s, vs_accent = si_accent s,
       vs_ogTitle = text (si_og_title s), vs_ogDescription = text (si_og_description s),
       vs_ogImage = text (si_og_image s), vs_twitterSite = text (si_twitter_site s), vs_robots = si_robots s,
       vs_announcement = map_option (\<lambda>t. (t, si_announcement_severity s)) (non_empty (si_announcement s)),
       vs_links = cf_links c \<rparr>)"

definition page_of :: "page_def \<Rightarrow> page_meta" where
  "page_of p = \<lparr> pm_slug = pg_slug p, pm_title = pg_title p, pm_description = pg_description p,
     pm_accent = pg_accent p, pm_services = all_or (pg_services p), pm_noindex = pg_noindex p \<rparr>"

text \<open>The groups in order of their first service, each with its services in the order they finished.\<close>

definition group_snapshots ::
  "service list \<Rightarrow> service list \<Rightarrow> (service \<Rightarrow> service_snapshot) \<Rightarrow> (string \<times> service_snapshot list) list" where
  "group_snapshots services finished view =
     map (\<lambda>name. (name, map view (filter (\<lambda>s. sv_group s = name) finished))) (uniq (map sv_group services))"

definition service_view :: "(string \<Rightarrow> ms option) \<Rightarrow> ms \<Rightarrow> world \<Rightarrow> service \<Rightarrow> service_snapshot" where
  "service_view parse now w s =
     (let c = wo_config w; days = cf_history_days c; since = now - int days * DAY_MS;
          windows = expandWindows parse c now (int days * DAY_MS + 7 * DAY_MS) (UPCOMING_WINDOW_DAYS * DAY_MS)
      in buildService c (wo_monitor w) (wo_markers w) (wo_icon w) now since days (windows_of (sv_id s) windows)
           (active_services now windows) (snd (snapshotData (wo_groups w)) (sv_id s)) s)"

definition build :: "(string \<Rightarrow> ms option) \<Rightarrow> service list \<Rightarrow> ms \<Rightarrow> world \<Rightarrow> status_snapshot" where
  "build parse finished now w =
     (let c = wo_config w; days = cf_history_days c;
          windows = expandWindows parse c now (int days * DAY_MS + 7 * DAY_MS) (UPCOMING_WINDOW_DAYS * DAY_MS);
          groups = group_snapshots (cf_services c) finished (service_view parse now w);
          public = public_windows now windows;
          upcoming = upcoming_loop now (now + UPCOMING_WINDOW_DAYS * DAY_MS) [] public;
          (active, recent) = buildIncidents parse c (mo_incidents (wo_monitor w))
      in \<lparr> sn_generatedAt = iso_text now, sn_site = site_of c,
           sn_overall = worstStatus (concat (map (\<lambda>(_, ss). map ws_status ss) groups)),
           sn_groups = groups, sn_active = active, sn_recent = recent,
           sn_maintenance_active = filter wv_active (map (toPublicWindow now) public),
           sn_maintenance_upcoming = take UPCOMING_WINDOW_MAX (map (toPublicWindow now) upcoming),
           sn_pages = map page_of (cf_pages c), sn_serviceGroups = fst (snapshotData (wo_groups w)),
           sn_historyDays = days, sn_refreshSeconds = cf_refresh_seconds c \<rparr>)"

section \<open>The cache\<close>

text \<open>
  \<open>text\<close> stands for \<open>JSON.stringify\<close> and \<open>digest\<close> for the SHA-256 digest in base64url.  \<open>current\<close> awaits its
  build, so it is two steps: \<open>current_begin\<close> answers from the cache or reads the state, \<open>current_end\<close>
  stores what was built and marks the cache clean.
\<close>

record cache_entry =
  ce_json :: string
  ce_etag :: string
  ce_snapshot :: status_snapshot

record builder =
  bu_cached :: "cache_entry option"
  bu_dirty :: bool

definition new_builder :: builder where
  "new_builder = \<lparr> bu_cached = None, bu_dirty = True \<rparr>"

definition invalidate :: "builder \<Rightarrow> builder" where
  "invalidate b = b\<lparr> bu_dirty := True \<rparr>"

definition cache_of :: "(status_snapshot \<Rightarrow> string) \<Rightarrow> (string \<Rightarrow> string) \<Rightarrow> status_snapshot \<Rightarrow> cache_entry" where
  "cache_of json digest s =
     \<lparr> ce_json = json s, ce_etag = ''W/'' @ [CHR 0x22] @ take 32 (digest (json s)) @ [CHR 0x22], ce_snapshot = s \<rparr>"

definition current_begin :: "builder \<Rightarrow> cache_entry option" where
  "current_begin b = (if bu_dirty b then None else bu_cached b)"

definition current_end ::
  "(status_snapshot \<Rightarrow> string) \<Rightarrow> (string \<Rightarrow> string) \<Rightarrow> status_snapshot \<Rightarrow> builder \<Rightarrow> builder \<times> cache_entry" where
  "current_end json digest s b =
     (\<lparr> bu_cached = Some (cache_of json digest s), bu_dirty = False \<rparr>, cache_of json digest s)"

end
