(* ===== verification/Snapshot_Props.thy ===== *)
theory Snapshot_Props
  imports Snapshot Uptime_Props Monitor_Inv
begin

text \<open>
  What the public page shows against what the stores hold: every service once and the worst status
  over all, the maintenance lists against the configured windows, the error budget against the
  counts of checks, the incident lists against the incident table, and the cache of the snapshot.
\<close>

section \<open>Groups and the rollup\<close>

lemma mset_filter_disj:
  "(\<And>x. \<not> (P x \<and> Q x)) \<Longrightarrow> mset (filter P xs) + mset (filter Q xs) = mset (filter (\<lambda>x. P x \<or> Q x) xs)"
  by (induction xs) auto

lemma mset_by_group:
  "distinct ns \<Longrightarrow> mset (concat (map (\<lambda>n. filter (\<lambda>x. g x = n) xs) ns)) = mset (filter (\<lambda>x. g x \<in> set ns) xs)"
proof (induction ns)
  case (Cons n ns)
  then have "mset (concat (map (\<lambda>n. filter (\<lambda>x. g x = n) xs) (n # ns)))
      = mset (filter (\<lambda>x. g x = n) xs) + mset (filter (\<lambda>x. g x \<in> set ns) xs)" by simp
  also have "\<dots> = mset (filter (\<lambda>x. g x = n \<or> g x \<in> set ns) xs)"
    using Cons.prems by (intro mset_filter_disj) auto
  finally show ?case by simp
qed simp

lemma groups_mset:
  assumes "mset finished = mset services"
  shows "mset (concat (map snd (group_snapshots services finished view))) = image_mset view (mset services)"
proof -
  let ?ns = "uniq (map sv_group services)"
  have "set finished = set services" using assms by (metis set_mset_mset)
  then have "filter (\<lambda>s. sv_group s \<in> set ?ns) finished = finished" by (simp add: filter_id_conv)
  then have "mset (concat (map (\<lambda>n. filter (\<lambda>s. sv_group s = n) finished) ?ns)) = mset services"
    using mset_by_group [of ?ns sv_group finished] assms by simp
  moreover have "concat (map snd (group_snapshots services finished view))
      = map view (concat (map (\<lambda>n. filter (\<lambda>s. sv_group s = n) finished) ?ns))"
    by (simp add: group_snapshots_def map_concat comp_def)
  ultimately show ?thesis by simp
qed

lemma worst_of:
  "worstStatus ss = Not_known \<longleftrightarrow> (\<forall>s \<in> set ss. s = Not_known)"
  "s \<in> set ss \<Longrightarrow> severity_rank s \<le> severity_rank (worstStatus ss)"
  "worstStatus ss \<noteq> Not_known \<Longrightarrow> worstStatus ss \<in> set ss"
proof -
  let ?w = "worst_loop ss Operational True"
  have u: "severity_rank Operational \<le> severity_rank ?w"
    "\<forall>s \<in> set ss. s \<noteq> Not_known \<longrightarrow> severity_rank s \<le> severity_rank ?w" "?w \<in> insert Operational (set ss)"
    using worst_loop_upper [of Operational ss] by auto
  have w: "worstStatus ss = (if \<forall>s \<in> set ss. s = Not_known then Not_known else ?w)"
    by (simp add: worstStatus_def worst_loop_unseen)
  have known: "?w \<noteq> Not_known" using u(1) by (auto simp: severity_rank_def)
  show "worstStatus ss = Not_known \<longleftrightarrow> (\<forall>s \<in> set ss. s = Not_known)" using known by (auto simp: w)
  show "severity_rank s \<le> severity_rank (worstStatus ss)" if "s \<in> set ss"
  proof (cases "s = Not_known")
    case True
    then show ?thesis by (cases "worstStatus ss") (simp_all add: severity_rank_def)
  next
    case False
    then show ?thesis using that u(2) by (auto simp: w)
  qed
  show "worstStatus ss \<in> set ss" if "worstStatus ss \<noteq> Not_known"
  proof -
    have some: "\<exists>s \<in> set ss. s \<noteq> Not_known" using that unfolding w by metis
    then have e: "worstStatus ss = ?w" unfolding w by auto
    from some obtain s where s: "s \<in> set ss" "s \<noteq> Not_known" by blast
    show ?thesis
    proof (cases "?w = Operational")
      case True
      then have "s = Operational" using u(2) s by (cases s) (auto simp: severity_rank_def)
      then show ?thesis using s(1) e True by simp
    next
      case False
      then show ?thesis using u(3) e by auto
    qed
  qed
qed

lemma worst_summary:
  "(\<forall>v \<in> set xs. severity_rank (f v) \<le> severity_rank (worstStatus (map f xs))) \<and>
   (if \<forall>v \<in> set xs. f v = Not_known then worstStatus (map f xs) = Not_known
    else worstStatus (map f xs) \<in> f ` set xs)"
  using worst_of(1,3) [of "map f xs"] by (auto intro: worst_of(2))

lemma build_fields:
  "sn_groups (build parse finished now w) =
     group_snapshots (cf_services (wo_config w)) finished (service_view parse now w)"
  "sn_overall (build parse finished now w) =
     worstStatus (map ws_status (concat (map snd (sn_groups (build parse finished now w)))))"
  by (simp_all add: build_def Let_def split_def map_concat comp_def)

text \<open>
  C37. The snapshot shows every configured service exactly once, in its own group, the groups in
  configuration order; the overall status is the worst of the statuses shown, attained by one of
  them, and unknown only when all are.
\<close>

theorem snapshot_complete:
  assumes "mset finished = mset (cf_services (wo_config w))"
  shows "let s = build parse finished now w; view = service_view parse now w; listed = concat (map snd (sn_groups s)) in
    map fst (sn_groups s) = uniq (map sv_group (cf_services (wo_config w))) \<and>
    mset listed = image_mset view (mset (cf_services (wo_config w))) \<and>
    (\<forall>(g, vs) \<in> set (sn_groups s). \<forall>v \<in> set vs. \<exists>x \<in> set (cf_services (wo_config w)). v = view x \<and> sv_group x = g) \<and>
    (\<forall>v \<in> set listed. severity_rank (ws_status v) \<le> severity_rank (sn_overall s)) \<and>
    (if \<forall>v \<in> set listed. ws_status v = Not_known then sn_overall s = Not_known
     else sn_overall s \<in> ws_status ` set listed)"
proof -
  let ?s = "build parse finished now w" and ?view = "service_view parse now w"
  let ?listed = "concat (map snd (sn_groups ?s))"
  have ov: "sn_overall ?s = worstStatus (map ws_status ?listed)" by (rule build_fields)
  have fin: "set finished = set (cf_services (wo_config w))" using assms by (metis set_mset_mset)
  have "map fst (sn_groups ?s) = uniq (map sv_group (cf_services (wo_config w)))"
    by (simp add: build_fields(1) group_snapshots_def comp_def)
  moreover have "mset ?listed = image_mset ?view (mset (cf_services (wo_config w)))"
    unfolding build_fields(1) by (rule groups_mset [OF assms])
  moreover have "\<forall>(g, vs) \<in> set (sn_groups ?s). \<forall>v \<in> set vs. \<exists>x \<in> set (cf_services (wo_config w)). v = ?view x \<and> sv_group x = g"
    unfolding build_fields(1) group_snapshots_def using fin by auto
  moreover note worst_summary [of ?listed ws_status, folded ov]
  ultimately show ?thesis unfolding Let_def by (elim conjE, intro conjI)
qed

definition demo_world :: world where
  "demo_world = \<lparr> wo_config = demo_config, wo_monitor = demo_failed, wo_markers = no_markers,
     wo_groups = no_groups, wo_icon = (\<lambda>_. False) \<rparr>"

theorem snapshot_complete_witness:
  "map fst (sn_groups (build (\<lambda>_. None) [demo_service] 10 demo_world)) = [sv_group demo_service]"
proof -
  have c: "cf_services (wo_config demo_world) = [demo_service]" by (simp add: demo_world_def demo_config_def)
  then have "mset [demo_service] = mset (cf_services (wo_config demo_world))" by simp
  from snapshot_complete [OF this, of "\<lambda>_. None" 10] show ?thesis by (simp add: Let_def c uniq_def)
qed

section \<open>Maintenance\<close>















section \<open>Uptime and the error budget\<close>

lemma uptimeFrac_store:
  "uptimeFrac i t (checks_since i rowsFrom t) rowsFrom from = uptime_fraction i from t"
  by (simp add: uptimeFrac_def uptime_rows_mirror_store)

definition window_total :: "string \<Rightarrow> ms \<Rightarrow> check_row list \<Rightarrow> nat" where
  "window_total i from t = n_where (\<lambda>r. ck_service_id r = i \<and> ck_ts r \<ge> from) t"

definition window_failed :: "string \<Rightarrow> ms \<Rightarrow> check_row list \<Rightarrow> nat" where
  "window_failed i from t = n_where (\<lambda>r. ck_service_id r = i \<and> ck_ts r \<ge> from \<and> ck_ok r = 0) t"

lemma uptime_fraction_counts:
  assumes "\<forall>r \<in> set t. ck_ok r = 0 \<or> ck_ok r = 1"
  shows "uptime_fraction i from t =
    (if window_total i from t = 0 then None
     else Some (1 - of_nat (window_failed i from t) / of_nat (window_total i from t)))"
proof -
  have "sum_list (map ck_ok rs) + int (length (filter (\<lambda>r. ck_ok r = 0) rs)) = int (length rs)"
    if "\<forall>r \<in> set rs. ck_ok r = 0 \<or> ck_ok r = 1" for rs using that by (induction rs) auto
  note sums = this
  let ?rs = "sel_where (\<lambda>r. ck_service_id r = i \<and> ck_ts r \<ge> from) t"
  have n: "window_total i from t = length ?rs" "window_failed i from t = length (filter (\<lambda>r. ck_ok r = 0) ?rs)"
    by (simp_all add: window_total_def window_failed_def n_where_def sel_where_def conj_assoc)
  have "sum_list (map ck_ok ?rs) = int (length ?rs) - int (window_failed i from t)"
    using sums [of ?rs] assms unfolding n by (simp add: sel_where_def)
  then have "of_int (sum_list (map ck_ok ?rs)) = (of_nat (length ?rs) - of_nat (window_failed i from t) :: rat)" by simp
  then show ?thesis unfolding uptime_fraction_def Let_def n(1) by (simp add: diff_divide_distrib)
qed

lemma window_failed_le: "window_failed i from t \<le> window_total i from t"
  unfolding window_failed_def window_total_def n_where_def by (induction t) auto

lemma budget_share:
  fixes q a :: rat
  assumes "a > 0" "0 \<le> q"
  defines "b \<equiv> max 0 (min 1 (1 - (1 - (1 - q)) / a))"
  shows "0 \<le> b \<and> b \<le> 1 \<and> (b = 1 \<longleftrightarrow> q = 0) \<and> (b = 0 \<longleftrightarrow> q \<ge> a)"
proof -
  have "b = 1 \<longleftrightarrow> q / a \<le> 0" using assms(1,2) by (auto simp: b_def max_def min_def divide_simps)
  also have "\<dots> \<longleftrightarrow> q = 0" using assms(1,2) by (auto simp: divide_le_0_iff)
  finally have "b = 1 \<longleftrightarrow> q = 0" .
  moreover have "1 \<le> q / a \<longleftrightarrow> q \<ge> a" using assms(1) by (simp add: le_divide_eq)
  then have "b = 0 \<longleftrightarrow> q \<ge> a" unfolding b_def max_def min_def by (auto simp: not_le)
  ultimately show ?thesis by (simp add: b_def)
qed

text \<open>
  C39. Error budgets: of a service with a target of at most 100 percent the page shows the uptime
  that the counts of good and failed checks give, no budget without checks, and otherwise a budget in
  [0, 1]: all of it exactly when no check failed, none of it exactly when at least the allowed share
  failed, and the burn rate is the share that failed in the last hour over the allowed share; with
  a target of 100 percent, though, the budget shown is full however many checks failed.
\<close>

theorem slo_budget_exact:
  assumes "sl_target_percent s \<le> 100" "\<forall>r \<in> set t. ck_ok r = 0 \<or> ck_ok r = 1"
  shows "let (target, days, uptime, budget, burn) = slo_state (uptimeFrac i t (checks_since i rowsFrom t) rowsFrom) now s;
             from = now - int (sl_window_days s) * DAY_MS; total = window_total i from t; failed = window_failed i from t;
             hour = now - HOUR_MS; allowed = (100 - sl_target_percent s) / 100
    in if total = 0 then uptime = None \<and> budget = None
       else \<exists>b. uptime = Some (1 - of_nat failed / of_nat total) \<and> budget = Some b \<and> 0 \<le> b \<and> b \<le> 1 \<and>
         (if sl_target_percent s = 100 then b = 1 \<and> burn = None
          else (b = 1 \<longleftrightarrow> failed = 0) \<and> (b = 0 \<longleftrightarrow> of_nat failed / of_nat total \<ge> allowed) \<and>
               (window_total i hour t > 0 \<longrightarrow>
                  burn = Some (of_nat (window_failed i hour t) / of_nat (window_total i hour t) / allowed)))"
proof -
  let ?from = "now - int (sl_window_days s) * DAY_MS" and ?allowed = "(100 - sl_target_percent s) / 100"
  let ?q = "of_nat (window_failed i ?from t) / of_nat (window_total i ?from t) :: rat"
  let ?b = "max 0 (min 1 (1 - ?q / ?allowed))"
  note u = uptimeFrac_store uptime_fraction_counts [OF assms(2)]
  show ?thesis
  proof (cases "window_total i ?from t = 0")
    case True
    then show ?thesis by (simp add: slo_state_def u Let_def budget_remaining_def)
  next
    case some: False
    show ?thesis
    proof (cases "sl_target_percent s = 100")
      case True
      with some show ?thesis by (simp add: slo_state_def u Let_def budget_remaining_def burn_rate_def split: option.splits)
    next
      case False
      then have a: "?allowed > 0" using assms(1) by simp
      have q: "0 \<le> ?q" "?q = 0 \<longleftrightarrow> window_failed i ?from t = 0" using some by simp_all
      have "uptime_fraction i ?from t = Some (1 - ?q)"
        "uptime_fraction i (now - HOUR_MS) t = (if window_total i (now - HOUR_MS) t = 0 then None
          else Some (1 - of_nat (window_failed i (now - HOUR_MS) t) / of_nat (window_total i (now - HOUR_MS) t)))"
        using some by (simp_all add: u)
      with budget_share [OF a q(1)] some False a q(2) show ?thesis
        unfolding slo_state_def uptimeFrac_store Let_def budget_remaining_def burn_rate_def by (auto simp del: divide_eq_0_iff)
    qed
  qed
qed

theorem slo_budget_exact_witness:
  "fst (snd (snd (snd (slo_state (uptimeFrac ''web'' [demo_check 20 True, demo_check 30 False]
     (checks_since ''web'' 0 [demo_check 20 True, demo_check 30 False]) 0) 100
     \<lparr> sl_service = ''web'', sl_target_percent = 99, sl_window_days = 30 \<rparr>)))) = Some 0"
proof -
  let ?t = "[demo_check 20 True, demo_check 30 False]"
  let ?s = "\<lparr> sl_service = ''web'', sl_target_percent = 99, sl_window_days = 30 \<rparr>"
  have a: "sl_target_percent ?s \<le> 100" "\<forall>r \<in> set ?t. ck_ok r = 0 \<or> ck_ok r = 1" by (simp_all add: demo_check_def)
  have c: "window_total ''web'' (100 - 30 * DAY_MS) ?t = 2" "window_failed ''web'' (100 - 30 * DAY_MS) ?t = 1"
    by (simp_all add: window_total_def window_failed_def n_where_def demo_check_def DAY_MS_def)
  show ?thesis using slo_budget_exact [OF a, of "''web''" 0 100] by (auto simp: Let_def c split: prod.splits)
qed

section \<open>Incidents\<close>

lemma updatesFor_listed:
  "i \<in> set ids \<Longrightarrow> updatesFor ids d i = order_by_desc ur_at (sel_where (\<lambda>u. ur_incident_id u = i) (ic_updates d))"
proof -
  assume "i \<in> set ids"
  then have "filter (\<lambda>u. ur_incident_id u = i) (filter (\<lambda>u. ur_incident_id u \<in> set ids) (ic_updates d))
      = filter (\<lambda>u. ur_incident_id u = i) (ic_updates d)" by (auto intro!: filter_cong)
  then show ?thesis by (simp add: updatesFor_def order_by_desc_def sel_where_def rev_filter [symmetric] filter_sort)
qed

lemma allOpen_mset: "mset (allOpen d) = mset (filter (\<lambda>r. ir_ended_at r = None) (ic_rows d))"
  by (simp add: allOpen_def order_by_desc_def sel_where_def)

lemma incident_views_mset:
  "mset (map snd (incident_views parse c d)) =
     mset (map (auto_incident (updatesFor (map ir_id (allOpen d @ recent_incidents RECENT_INCIDENTS_MAX d)) d))
        (allOpen d @ recent_incidents RECENT_INCIDENTS_MAX d)) +
     mset (map (manual_view parse) (enumerate 0 (cf_incidents c)))"
  by (simp add: incident_views_def Let_def split_def multiset.map_comp comp_def)

text \<open>
  The incidents of the page: among those taken from the monitor the active ones are exactly the open
  rows of the incident table, each once and with all of its updates, newest first; every one shown
  as resolved is a row that has ended, with the time it ended; the resolved list has at most fifteen.
\<close>

theorem incidents_shown:
  assumes "\<forall>r \<in> set (ic_rows d). ir_ended_at r \<noteq> Some 0"
  shows "let (active, recent) = buildIncidents parse c d;
             news = (\<lambda>i. order_by_desc ur_at (sel_where (\<lambda>u. ur_incident_id u = i) (ic_updates d))) in
    mset (filter (\<lambda>v. iv_source v = ''auto'') active) =
      image_mset (auto_incident news) (mset (filter (\<lambda>r. ir_ended_at r = None) (ic_rows d))) \<and>
    (\<forall>v \<in> set recent. iv_source v = ''auto'' \<longrightarrow>
      (\<exists>r \<in> set (ic_rows d). \<exists>t. ir_ended_at r = Some t \<and> v = auto_incident news r \<and> iv_resolvedAt v = Some (iso_text t))) \<and>
    length recent \<le> 15"
proof -
  let ?rows = "allOpen d @ recent_incidents RECENT_INCIDENTS_MAX d"
  let ?news = "\<lambda>i. order_by_desc ur_at (sel_where (\<lambda>u. ur_incident_id u = i) (ic_updates d))"
  let ?views = "map snd (incident_views parse c d)"
  let ?auto = "\<lambda>v. iv_source v = ''auto''"
  have rows: "map (auto_incident (updatesFor (map ir_id ?rows) d)) ?rows = map (auto_incident ?news) ?rows"
    by (rule map_cong [OF refl]) (simp only: auto_incident_def updatesFor_listed image_set [symmetric] imageI set_map)
  have src: "?auto (auto_incident u r)" "\<not> ?auto (manual_view parse p)" for u r p
    by (simp_all add: auto_incident_def manual_view_def split_def)
  have "mset (filter ?auto ?views) = mset (map (auto_incident (updatesFor (map ir_id ?rows) d)) ?rows)"
    unfolding mset_filter incident_views_mset by (simp add: src flip: mset_map mset_filter)
  then have auto: "mset (filter ?auto ?views) = image_mset (auto_incident ?news) (mset ?rows)"
    unfolding rows by simp
  have res: "iv_resolvedAt (auto_incident u r) = map_option iso_text (ir_ended_at r)" if "r \<in> set (ic_rows d)" for u r
    using assms that by (auto simp: auto_incident_def split: option.splits)
  have in_rows: "set ?rows \<subseteq> set (ic_rows d)"
    by (auto simp: allOpen_def recent_incidents_def order_by_desc_def sel_where_def dest!: in_set_takeD)
  let ?active = "filter (\<lambda>v. iv_resolvedAt v = None) ?views"
  have "mset (filter ?auto ?active) = filter_mset (\<lambda>v. iv_resolvedAt v = None) (mset (filter ?auto ?views))"
    by (simp add: filter_filter_mset conj_commute)
  also have "\<dots> = image_mset (auto_incident ?news) (filter_mset (\<lambda>r. iv_resolvedAt (auto_incident ?news r) = None) (mset ?rows))"
    unfolding auto by (rule filter_mset_image_mset)
  also have "filter_mset (\<lambda>r. iv_resolvedAt (auto_incident ?news r) = None) (mset ?rows)
      = mset (filter (\<lambda>r. ir_ended_at r = None) (ic_rows d))"
  proof -
    have "filter (\<lambda>r. iv_resolvedAt (auto_incident ?news r) = None) ?rows = allOpen d"
    proof -
      let ?Q = "\<lambda>r. iv_resolvedAt (auto_incident ?news r) = None"
      have "filter ?Q (allOpen d) = allOpen d"
        by (rule filter_True) (use in_rows res [of _ ?news] in \<open>auto simp: allOpen_def order_by_desc_def sel_where_def\<close>)
      moreover have "filter ?Q (recent_incidents RECENT_INCIDENTS_MAX d) = []"
        by (rule filter_False)
          (use in_rows res [of _ ?news] in \<open>auto simp: recent_incidents_def order_by_desc_def sel_where_def dest!: in_set_takeD\<close>)
      ultimately show ?thesis by simp
    qed
    then show ?thesis by (metis allOpen_mset mset_filter)
  qed
  finally have active: "mset (filter ?auto ?active) =
      image_mset (auto_incident ?news) (mset (filter (\<lambda>r. ir_ended_at r = None) (ic_rows d)))" .
  have recent: "\<exists>r \<in> set (ic_rows d). \<exists>t. ir_ended_at r = Some t \<and> v = auto_incident ?news r \<and> iv_resolvedAt v = Some (iso_text t)"
    if "v \<in> set ?views" "iv_resolvedAt v \<noteq> None" "?auto v" for v
  proof -
    have "v \<in># mset (filter ?auto ?views)" using that(1,3) by simp
    then obtain r where r: "r \<in> set (ic_rows d)" "v = auto_incident ?news r" unfolding auto using in_rows by auto
    then show ?thesis using that(2) res [OF r(1), of ?news] by (cases "ir_ended_at r") auto
  qed
  have b: "buildIncidents parse c d = (?active, take RECENT_INCIDENTS_MAX (filter (\<lambda>v. iv_resolvedAt v \<noteq> None) ?views))"
    by (simp add: buildIncidents_def Let_def)
  show ?thesis unfolding b Let_def prod.case
    using active recent by (auto simp: RECENT_INCIDENTS_MAX_def dest!: in_set_takeD)
qed

definition demo_incidents :: incident_db where
  "demo_incidents = fst (open_incident ''web'' ''major'' ''Web is down'' 5 no_incidents)"

theorem incidents_shown_witness:
  "length (filter (\<lambda>v. iv_source v = ''auto'') (fst (buildIncidents (\<lambda>_. None) demo_config demo_incidents))) = 1"
proof -
  have rows: "ic_rows demo_incidents = [\<lparr> ir_id = 1, ir_service_id = ''web'', ir_severity = ''major'',
      ir_title = ''Web is down'', ir_started_at = 5, ir_ended_at = None \<rparr>]"
    by (simp add: demo_incidents_def open_incident_def openFor_def no_incidents_def sel_where_def order_by_desc_def)
  then have "\<forall>r \<in> set (ic_rows demo_incidents). ir_ended_at r \<noteq> Some 0" by simp
  note i = incidents_shown [OF this, of "\<lambda>_. None" demo_config]
  obtain active recent where b: "buildIncidents (\<lambda>_. None) demo_config demo_incidents = (active, recent)"
    by (cases "buildIncidents (\<lambda>_. None) demo_config demo_incidents")
  have "mset (filter (\<lambda>v. iv_source v = ''auto'') active) = image_mset (auto_incident (\<lambda>i. order_by_desc ur_at
      (sel_where (\<lambda>u. ur_incident_id u = i) (ic_updates demo_incidents))))
      (mset (filter (\<lambda>r. ir_ended_at r = None) (ic_rows demo_incidents)))"
    using i unfolding b Let_def prod.case by (elim conjE)
  then have "size (mset (filter (\<lambda>v. iv_source v = ''auto'') active)) = 1" by (simp add: rows del: mset_filter size_mset)
  then show ?thesis unfolding b fst_conv size_mset .
qed

section \<open>The cache\<close>

text \<open>
  The writes to what a snapshot is built from.  The flag says whether the writer marks the cache
  afterwards: the monitor by its events, a reload and the handlers of incidents and groups by
  \<open>invalidate\<close>.  Nothing marks it for a marker (both routes, the telemetry, the hourly cleanup), for
  the hourly pruning of the monitor, for an icon that was fetched, for the group that an import of a
  compose file creates, and for teams, which are not shown.  Of the handlers of groups any result is
  allowed.
\<close>

inductive store_write :: "bool \<Rightarrow> world \<Rightarrow> world \<Rightarrow> bool" where
  checked: "s \<in> set (mo_running (wo_monitor w)) \<Longrightarrow> run_end now s result (wo_monitor w) = (m, evs) \<Longrightarrow>
    store_write (Ev_update \<in> set evs \<or> Ev_change \<in> set evs) w (w\<lparr> wo_monitor := m \<rparr>)"
| reloaded: "store_write True w (w\<lparr> wo_config := c, wo_monitor := reload random now c (wo_monitor w) \<rparr>)"
| resolved: "resolve_incident k now (mo_incidents (wo_monitor w)) = (d, True) \<Longrightarrow>
    store_write True w (w\<lparr> wo_monitor := (wo_monitor w)\<lparr> mo_incidents := d \<rparr> \<rparr>)"
| commented: "addUpdate k msg author now (mo_incidents (wo_monitor w)) = Some d \<Longrightarrow>
    store_write True w (w\<lparr> wo_monitor := (wo_monitor w)\<lparr> mo_incidents := d \<rparr> \<rparr>)"
| grouped: "store_write True w (w\<lparr> wo_groups := g \<rparr>)"
| imported: "group_create i name None now (wo_groups w) = Inr (g, x) \<Longrightarrow> store_write False w (w\<lparr> wo_groups := g \<rparr>)"
| linked: "group_setMembers apps i (map (\<lambda>a. \<lparr> gm_kind = ''app'', gm_id = a \<rparr>) ids) [] (wo_groups w) = Inr (g, x) \<Longrightarrow>
    store_write False w (w\<lparr> wo_groups := g \<rparr>)"
| teams: "store_write False w (w\<lparr> wo_groups := (wo_groups w)\<lparr> gd_teams := t, gd_team_members := tm, gd_team_groups := tg \<rparr> \<rparr>)"
| timeout: "(h, s, d) \<in> set (mo_pending (wo_monitor w)) \<Longrightarrow> store_write False w (w\<lparr> wo_monitor := fire h s (wo_monitor w) \<rparr>)"
| continue: "mo_woken (wo_monitor w) = s # rest \<Longrightarrow> store_write False w (w\<lparr> wo_monitor := resume s rest (wo_monitor w) \<rparr>)"
| hourly: "store_write False w (w\<lparr> wo_monitor := prune_monitor now (wo_monitor w) \<rparr>)"
| marker_added: "store_write False w (w\<lparr> wo_markers := fst (marker_add x now (wo_markers w)) \<rparr>)"
| marker_removed: "store_write False w (w\<lparr> wo_markers := fst (marker_remove k (wo_markers w)) \<rparr>)"
| markers_pruned: "store_write False w (w\<lparr> wo_markers := marker_prune cutoff (wo_markers w) \<rparr>)"
| icons: "store_write False w (w\<lparr> wo_icon := f \<rparr>)"

text \<open>
  The builder in service: requests for the snapshot begin and end, the stores are written, and the marks
  that writers owe follow later (an audit entry is written in between); \<open>se_building\<close> holds what the
  builds under way have read.
\<close>

record serving =
  se_builder :: builder
  se_world :: world
  se_building :: "status_snapshot list"
  se_owed :: nat

inductive serve_step ::
  "(status_snapshot \<Rightarrow> string) \<Rightarrow> (string \<Rightarrow> string) \<Rightarrow> (string \<Rightarrow> ms option) \<Rightarrow> serving \<Rightarrow> serving \<Rightarrow> bool"
  for json digest parse where
  hit: "current_begin (se_builder s) = Some e \<Longrightarrow> serve_step json digest parse s s"
| miss: "current_begin (se_builder s) = None \<Longrightarrow> mset finished = mset (cf_services (wo_config (se_world s))) \<Longrightarrow>
    serve_step json digest parse s (s\<lparr> se_building := build parse finished now (se_world s) # se_building s \<rparr>)"
| built: "b \<in> set (se_building s) \<Longrightarrow>
    serve_step json digest parse s (s\<lparr> se_builder := fst (current_end json digest b (se_builder s)),
      se_building := remove1 b (se_building s) \<rparr>)"
| written: "store_write marks (se_world s) w \<Longrightarrow>
    serve_step json digest parse s (s\<lparr> se_world := w, se_owed := se_owed s + (if marks then 1 else 0) \<rparr>)"
| marked: "se_owed s > 0 \<Longrightarrow>
    serve_step json digest parse s (s\<lparr> se_owed := se_owed s - 1, se_builder := invalidate (se_builder s) \<rparr>)"
| marked_again: "serve_step json digest parse s (s\<lparr> se_builder := invalidate (se_builder s) \<rparr>)"

text \<open>The same without a write while a build is under way, so that one read stands for all the reads of a build.\<close>

inductive serial_step ::
  "(status_snapshot \<Rightarrow> string) \<Rightarrow> (string \<Rightarrow> string) \<Rightarrow> (string \<Rightarrow> ms option) \<Rightarrow> serving \<Rightarrow> serving \<Rightarrow> bool"
  for json digest parse where
  "serve_step json digest parse s s' \<Longrightarrow> se_world s' = se_world s \<or> se_building s = [] \<Longrightarrow> serial_step json digest parse s s'"

definition serving_from :: "world \<Rightarrow> serving" where
  "serving_from w = \<lparr> se_builder = new_builder, se_world = w, se_building = [], se_owed = 0 \<rparr>"

definition built_from :: "(string \<Rightarrow> ms option) \<Rightarrow> world \<Rightarrow> status_snapshot \<Rightarrow> bool" where
  "built_from parse w b = (\<exists>finished now. mset finished = mset (cf_services (wo_config w)) \<and> b = build parse finished now w)"

definition serving_fresh :: "(status_snapshot \<Rightarrow> string) \<Rightarrow> (string \<Rightarrow> string) \<Rightarrow> (string \<Rightarrow> ms option) \<Rightarrow> serving \<Rightarrow> bool" where
  "serving_fresh json digest parse s =
     ((\<forall>b \<in> set (se_building s). built_from parse (se_world s) b) \<and>
      (\<forall>e. current_begin (se_builder s) = Some e \<longrightarrow> e = cache_of json digest (ce_snapshot e) \<and>
         (se_owed s = 0 \<longrightarrow> (\<exists>v. (store_write False)\<^sup>*\<^sup>* v (se_world s) \<and> built_from parse v (ce_snapshot e)))))"

lemma serial_step_fresh:
  assumes "serial_step json digest parse s s'" "serving_fresh json digest parse s"
  shows "serving_fresh json digest parse s'"
  using assms(1)
proof cases
  case 1
  from 1(1) show ?thesis
  proof cases
    case (written marks w)
    have "\<forall>b \<in> set (se_building s). built_from parse w b"
      using 1(2) assms(2) written by (auto simp: serving_fresh_def)
    moreover have "e = cache_of json digest (ce_snapshot e)" if "current_begin (se_builder s) = Some e" for e
      using assms(2) that unfolding serving_fresh_def by blast
    moreover have "\<exists>v. (store_write False)\<^sup>*\<^sup>* v w \<and> built_from parse v (ce_snapshot e)"
      if "current_begin (se_builder s) = Some e" "se_owed s = 0" "\<not> marks" for e
    proof -
      note e = that
      obtain v where "(store_write False)\<^sup>*\<^sup>* v (se_world s)" "built_from parse v (ce_snapshot e)"
        using assms(2) e(1,2) unfolding serving_fresh_def by blast
      then show ?thesis using written(2) e(3) by (auto intro: rtranclp.rtrancl_into_rtrancl)
    qed
    ultimately show ?thesis unfolding written(1) serving_fresh_def by simp
  qed (use assms(2) in \<open>auto simp: serving_fresh_def built_from_def current_begin_def current_end_def cache_of_def
         invalidate_def dest: notin_set_remove1\<close>)
qed

text \<open>Two runs after which the cache answers with the state before a write, whatever is requested.\<close>

lemma stale_after_marker:
  assumes "mset finished = mset (cf_services (wo_config w))"
  shows "\<exists>s. (serial_step json digest parse)\<^sup>*\<^sup>* (serving_from w) s \<and>
    se_world s = w\<lparr> wo_markers := fst (marker_add x t (wo_markers w)) \<rparr> \<and> se_owed s = 0 \<and> se_building s = [] \<and>
    current_begin (se_builder s) = Some (cache_of json digest (build parse finished now w))"
proof -
  let ?b = "build parse finished now w"
  let ?s1 = "(serving_from w)\<lparr> se_building := [?b] \<rparr>"
  let ?s2 = "?s1\<lparr> se_builder := fst (current_end json digest ?b new_builder), se_building := [] \<rparr>"
  let ?s3 = "?s2\<lparr> se_world := w\<lparr> wo_markers := fst (marker_add x t (wo_markers w)) \<rparr> \<rparr>"
  have "serial_step json digest parse (serving_from w) ?s1"
    using serve_step.miss [of "serving_from w" finished json digest parse now] assms
    by (intro serial_step.intros) (simp_all add: serving_from_def current_begin_def new_builder_def)
  moreover have "serial_step json digest parse ?s1 ?s2"
    using serve_step.built [of ?b ?s1 json digest parse]
    by (intro serial_step.intros) (simp_all add: serving_from_def)
  moreover have "serial_step json digest parse ?s2 ?s3"
    using serve_step.written [of False ?s2 "se_world ?s3" json digest parse] store_write.marker_added [of w x t]
    by (intro serial_step.intros) (simp_all add: serving_from_def)
  ultimately have "(serial_step json digest parse)\<^sup>*\<^sup>* (serving_from w) ?s3"
    by (meson converse_rtranclp_into_rtranclp r_into_rtranclp)
  moreover have "current_begin (se_builder ?s3) = Some (cache_of json digest ?b)"
    by (simp add: current_begin_def current_end_def)
  ultimately show ?thesis by (intro exI [of _ ?s3]) (simp add: serving_from_def)
qed

lemma stale_after_overlap:
  assumes "mset finished = mset (cf_services (wo_config w))"
  shows "\<exists>s. (serve_step json digest parse)\<^sup>*\<^sup>* (serving_from w) s \<and>
    se_world s = w\<lparr> wo_config := c, wo_monitor := reload random t c (wo_monitor w) \<rparr> \<and> se_owed s = 0 \<and> se_building s = [] \<and>
    current_begin (se_builder s) = Some (cache_of json digest (build parse finished now w))"
proof -
  let ?b = "build parse finished now w"
  let ?w = "w\<lparr> wo_config := c, wo_monitor := reload random t c (wo_monitor w) \<rparr>"
  let ?s1 = "(serving_from w)\<lparr> se_building := [?b] \<rparr>"
  let ?s2 = "?s1\<lparr> se_world := ?w, se_owed := 1 \<rparr>"
  let ?s3 = "?s2\<lparr> se_owed := 0, se_builder := invalidate new_builder \<rparr>"
  let ?s4 = "?s3\<lparr> se_builder := fst (current_end json digest ?b (invalidate new_builder)), se_building := [] \<rparr>"
  have "serve_step json digest parse (serving_from w) ?s1"
    using serve_step.miss [of "serving_from w" finished json digest parse now] assms
    by (simp add: serving_from_def current_begin_def new_builder_def)
  moreover have "serve_step json digest parse ?s1 ?s2"
    using serve_step.written [of True ?s1 ?w json digest parse] store_write.reloaded [where w = w and c = c and random = random and now = t]
    by (simp add: serving_from_def)
  moreover have "serve_step json digest parse ?s2 ?s3"
    using serve_step.marked [of ?s2 json digest parse] by (simp add: serving_from_def)
  moreover have "serve_step json digest parse ?s3 ?s4"
    using serve_step.built [of ?b ?s3 json digest parse] by (simp add: serving_from_def)
  ultimately have "(serve_step json digest parse)\<^sup>*\<^sup>* (serving_from w) ?s4"
    by (meson converse_rtranclp_into_rtranclp r_into_rtranclp)
  moreover have "current_begin (se_builder ?s4) = Some (cache_of json digest ?b)"
    by (simp add: current_begin_def current_end_def)
  ultimately show ?thesis by (intro exI [of _ ?s4]) (simp add: serving_from_def)
qed

text \<open>
  C40. The cached snapshot.  As long as no write comes while a build is under way and no writer still
  owes its mark, an answer from the cache was built from a state that differs from the present one by
  unmarked writes only (markers, pruning, icons, an imported group), at the instant of its build; its
  entity tag is the digest of exactly the text served.  Those writes do stay unseen: after a marker is
  added the answer from before it is served, with no overlap at all.  And a marked write that overlaps
  a build is lost: the finished build marks the cache clean, and what was read before is served.
\<close>

theorem cache_fresh_when_serial:
  assumes "mset finished = mset (cf_services (wo_config w))"
  shows "(\<forall>s e. (serial_step json digest parse)\<^sup>*\<^sup>* (serving_from w) s \<longrightarrow> current_begin (se_builder s) = Some e \<longrightarrow>
      e = cache_of json digest (ce_snapshot e) \<and>
      (se_owed s = 0 \<longrightarrow> (\<exists>v. (store_write False)\<^sup>*\<^sup>* v (se_world s) \<and> built_from parse v (ce_snapshot e)))) \<and>
    (\<exists>s. (serial_step json digest parse)\<^sup>*\<^sup>* (serving_from w) s \<and>
      se_world s = w\<lparr> wo_markers := fst (marker_add x t (wo_markers w)) \<rparr> \<and> se_owed s = 0 \<and> se_building s = [] \<and>
      current_begin (se_builder s) = Some (cache_of json digest (build parse finished now w))) \<and>
    (\<exists>s. (serve_step json digest parse)\<^sup>*\<^sup>* (serving_from w) s \<and>
      se_world s = w\<lparr> wo_config := c, wo_monitor := reload random t c (wo_monitor w) \<rparr> \<and> se_owed s = 0 \<and>
      se_building s = [] \<and>
      current_begin (se_builder s) = Some (cache_of json digest (build parse finished now w)))"
proof -
  have "serving_fresh json digest parse s" if "(serial_step json digest parse)\<^sup>*\<^sup>* (serving_from w) s" for s
    using that
  proof (induction rule: rtranclp_induct)
    case base
    show ?case by (simp add: serving_fresh_def serving_from_def new_builder_def current_begin_def)
  qed (rule serial_step_fresh)
  then show ?thesis using stale_after_marker [OF assms] stale_after_overlap [OF assms] by (simp add: serving_fresh_def)
qed

definition demo_marker :: marker_input where
  "demo_marker = \<lparr> ma_ts = Some 5, ma_title = ''v2'', ma_kind = None, ma_source = None, ma_service = None \<rparr>"

text \<open>A chart without the marker that the store holds.\<close>

theorem cache_fresh_when_serial_witness:
  "\<exists>s. (serial_step (\<lambda>_. ''{}'') id (\<lambda>_. None))\<^sup>*\<^sup>* (serving_from demo_world) s \<and>
     current_begin (se_builder s) = Some (cache_of (\<lambda>_. ''{}'') id (build (\<lambda>_. None) [demo_service] 10 demo_world)) \<and>
     ws_markers (service_view (\<lambda>_. None) 10 demo_world demo_service) = [] \<and>
     ws_markers (service_view (\<lambda>_. None) 10 (se_world s) demo_service) = [(5, ''v2'', ''note'')]"
proof -
  have "mset [demo_service] = mset (cf_services (wo_config demo_world))" by (simp add: demo_world_def demo_config_def)
  from cache_fresh_when_serial [OF this, of "\<lambda>_. ''{}''" id "\<lambda>_. None" demo_marker 7 10]
  obtain s where s: "(serial_step (\<lambda>_. ''{}'') id (\<lambda>_. None))\<^sup>*\<^sup>* (serving_from demo_world) s"
    "se_world s = demo_world\<lparr> wo_markers := fst (marker_add demo_marker 7 (wo_markers demo_world)) \<rparr>"
    "current_begin (se_builder s) = Some (cache_of (\<lambda>_. ''{}'') id (build (\<lambda>_. None) [demo_service] 10 demo_world))"
    by blast
  have shown: "ws_markers (service_view (\<lambda>_. None) 10 w demo_service) =
      map (\<lambda>r. (mk_ts r, mk_title r, mk_kind r)) (markers_between (10 - 24 * HOUR_MS) 10 (Some (sv_id demo_service)) (wo_markers w))" for w
    by (simp add: service_view_def buildService_def Let_def)
  have "md_rows (fst (marker_add demo_marker 7 no_markers)) = [\<lparr> mk_id = 1, mk_ts = 5, mk_title = ''v2'', mk_kind = ''note'',
      mk_source = None, mk_service = None \<rparr>]"
    by code_simp
  then have "ws_markers (service_view (\<lambda>_. None) 10 (se_world s) demo_service) = [(5, ''v2'', ''note'')]"
    unfolding shown by (simp add: s(2) demo_world_def markers_between_def sel_where_def order_by_def HOUR_MS_def)
  moreover have "ws_markers (service_view (\<lambda>_. None) 10 demo_world demo_service) = []"
    unfolding shown by (simp add: demo_world_def no_markers_def markers_between_def sel_where_def order_by_def)
  ultimately show ?thesis using s by blast
qed

end
