(* ===== verification/Agents.thy ===== *)
theory Agents
  imports Uptime Deploy_Flow
begin

text \<open>
  The registry of remote agents and its samples, \<open>src/src/lib/server/ingress/agents.ts\<close>, the edge
  reports of \<open>ingress/edge.ts\<close> and the alert rules of \<open>ingress/alerts.ts\<close>.  The payload is what the
  schema library has validated; its texts as JSON are fields of it.  A measured number is exact.
\<close>

section \<open>Tables\<close>

record agent_db_row =
  ag_id :: string
  ag_name :: string
  ag_token_hash :: string
  ag_fingerprint :: "string option"
  ag_pubkey :: "string option"
  ag_bind_nonce :: "string option"
  ag_created_at :: ms
  ag_created_by :: "string option"
  ag_last_seen_at :: "ms option"
  ag_last_payload :: "string option"
  ag_meta :: "string option"
  ag_alerts :: "string option"
  ag_muted_until :: "ms option"
  ag_revoked_at :: "ms option"

record agent_sample =
  sm_agent_id :: string
  sm_ts :: ms
  sm_cpu :: rat
  sm_mem_pct :: rat
  sm_disk_pct :: "rat option"
  sm_rx_bps :: rat
  sm_tx_bps :: rat
  sm_load1 :: rat
  sm_temp_max :: "rat option"
  sm_mem_used :: rat
  sm_disk_used :: "rat option"

record agents_db =
  ad_agents :: "agent_db_row list"
  ad_samples :: "agent_sample list"

definition no_agents :: agents_db where
  "no_agents = \<lparr> ad_agents = [], ad_samples = [] \<rparr>"

type_synonym alert_map = "(string \<times> json) list"

record agent_row =
  ar_id :: string
  ar_name :: string
  ar_fingerprint :: "string option"
  ar_pubkey :: "string option"
  ar_bindNonce :: "string option"
  ar_createdAt :: ms
  ar_createdBy :: "string option"
  ar_lastSeenAt :: "ms option"
  ar_meta :: json
  ar_alerts :: alert_map
  ar_mutedUntil :: "ms option"
  ar_revokedAt :: "ms option"

text \<open>\<open>safeJson\<close>: nothing and an unreadable text give the fallback.\<close>

definition safeJson :: "string option \<Rightarrow> json \<Rightarrow> json" where
  "safeJson raw fallback =
     (case raw of None \<Rightarrow> fallback | Some t \<Rightarrow> if t = [] then fallback else or_default (json_parse t) fallback)"

definition alert_map :: "json \<Rightarrow> alert_map" where
  "alert_map v = (case v of JObj fs \<Rightarrow> fs | _ \<Rightarrow> [])"

definition agent_toRow :: "agent_db_row \<Rightarrow> agent_row" where
  "agent_toRow r = \<lparr> ar_id = ag_id r, ar_name = ag_name r, ar_fingerprint = ag_fingerprint r,
     ar_pubkey = ag_pubkey r, ar_bindNonce = ag_bind_nonce r, ar_createdAt = ag_created_at r,
     ar_createdBy = ag_created_by r, ar_lastSeenAt = ag_last_seen_at r, ar_meta = safeJson (ag_meta r) JNull,
     ar_alerts = alert_map (safeJson (ag_alerts r) (JObj [])), ar_mutedUntil = ag_muted_until r,
     ar_revokedAt = ag_revoked_at r \<rparr>"

section \<open>The payload\<close>

record disk =
  dk_pct :: rat
  dk_used :: rat

record agent_payload =
  pl_fingerprint :: string
  pl_ts :: ms
  pl_backfill :: bool
  pl_version :: string
  pl_hostname :: string
  pl_os :: string
  pl_arch :: string
  pl_kernel :: "string option"
  pl_uptimeSec :: string
  pl_caps :: "string list option"
  pl_cpu_pct :: rat
  pl_load1 :: rat
  pl_mem_pct :: rat
  pl_mem_used :: rat
  pl_disks :: "disk list option"
  pl_temps :: "rat list option"
  pl_rxBps :: rat
  pl_txBps :: rat
  pl_json :: string

definition meta_json :: "agent_payload \<Rightarrow> string" where
  "meta_json p = stringify (JObj [(''version'', JStr (pl_version p)), (''hostname'', JStr (pl_hostname p)),
     (''os'', JStr (pl_os p)), (''arch'', JStr (pl_arch p)), (''kernel'', json_opt JStr (pl_kernel p)),
     (''uptimeSec'', JNum (pl_uptimeSec p)), (''caps'', json_opt json_strings (pl_caps p))])"

definition max_of :: "rat list option \<Rightarrow> rat option" where
  "max_of xs = (case xs of Some (y # ys) \<Rightarrow> Some (fold max ys y) | _ \<Rightarrow> None)"

definition disk_pct :: "agent_payload \<Rightarrow> rat option" where
  "disk_pct p = max_of (map_option (map dk_pct) (pl_disks p))"

definition disk_used :: "agent_payload \<Rightarrow> rat option" where
  "disk_used p = (case pl_disks p of Some (d # ds) \<Rightarrow> Some (sum_list (map dk_used (d # ds))) | _ \<Rightarrow> None)"

definition sample_of :: "string \<Rightarrow> agent_payload \<Rightarrow> agent_sample" where
  "sample_of i p = \<lparr> sm_agent_id = i, sm_ts = pl_ts p, sm_cpu = pl_cpu_pct p, sm_mem_pct = pl_mem_pct p,
     sm_disk_pct = disk_pct p, sm_rx_bps = pl_rxBps p, sm_tx_bps = pl_txBps p, sm_load1 = pl_load1 p,
     sm_temp_max = max_of (pl_temps p), sm_mem_used = pl_mem_used p, sm_disk_used = disk_used p \<rparr>"

section \<open>The store\<close>

definition upd_agent :: "string \<Rightarrow> (agent_db_row \<Rightarrow> agent_db_row) \<Rightarrow> agents_db \<Rightarrow> agents_db" where
  "upd_agent i f d = d\<lparr> ad_agents := upd_where (\<lambda>r. ag_id r = i) f (ad_agents d) \<rparr>"

definition new_agent :: "string \<Rightarrow> string \<Rightarrow> string \<Rightarrow> ms \<Rightarrow> string option \<Rightarrow> agent_db_row" where
  "new_agent i name tokenHash now createdBy =
     \<lparr> ag_id = i, ag_name = name, ag_token_hash = tokenHash, ag_fingerprint = None, ag_pubkey = None,
       ag_bind_nonce = None, ag_created_at = now, ag_created_by = createdBy, ag_last_seen_at = None,
       ag_last_payload = None, ag_meta = None, ag_alerts = None, ag_muted_until = None, ag_revoked_at = None \<rparr>"

text \<open>The identifier and the token are random; an insert that meets one of them throws.\<close>

definition agent_create ::
  "(string \<Rightarrow> string) \<Rightarrow> string \<Rightarrow> string \<Rightarrow> string \<Rightarrow> string option \<Rightarrow> ms \<Rightarrow> agents_db \<Rightarrow> (agents_db \<times> string \<times> string) option" where
  "agent_create hash i token name createdBy now d =
     (if \<exists>r \<in> set (ad_agents d). ag_id r = i \<or> ag_token_hash r = hash token then None
      else Some (d\<lparr> ad_agents := ad_agents d @ [new_agent i name (hash token) now createdBy] \<rparr>, i, token))"

definition resolveToken :: "(string \<Rightarrow> string) \<Rightarrow> string \<Rightarrow> agents_db \<Rightarrow> (agent_row \<times> string) option" where
  "resolveToken hash token d =
     (if length token < 8 \<or> length token > 256 then None
      else map_option (\<lambda>r. (agent_toRow r, ag_token_hash r))
        (first_where (\<lambda>r. ag_token_hash r = hash token \<and> ag_revoked_at r = None) (ad_agents d)))"

datatype binding = Bind_ok | Bind_bound | Bind_mismatch

text \<open>
  Binding on first use, for a column read by \<open>get\<close> and written by \<open>put\<close>: \<open>was\<close> is what the caller read
  of it earlier, the UPDATE is conditional and its loser reads again.
\<close>

definition bind_first ::
  "(agent_db_row \<Rightarrow> string option) \<Rightarrow> (string \<Rightarrow> agent_db_row \<Rightarrow> agent_db_row) \<Rightarrow> string \<Rightarrow> string option \<Rightarrow> string
     \<Rightarrow> agents_db \<Rightarrow> agents_db \<times> binding" where
  "bind_first get put i was v d =
     (case was of
        Some cur \<Rightarrow> (d, if cur = v then Bind_ok else Bind_mismatch)
      | None \<Rightarrow>
          (let P = (\<lambda>r. ag_id r = i \<and> get r = None) in
           if n_where P (ad_agents d) > 0 then (d\<lparr> ad_agents := upd_where P (put v) (ad_agents d) \<rparr>, Bind_bound)
           else (d, if Option.bind (first_where (\<lambda>r. ag_id r = i) (ad_agents d)) get = Some v
                    then Bind_ok else Bind_mismatch)))"

definition checkFingerprint :: "agent_row \<Rightarrow> string \<Rightarrow> agents_db \<Rightarrow> agents_db \<times> binding" where
  "checkFingerprint a fp d =
     (if fp = [] then (d, Bind_ok)
      else bind_first ag_fingerprint (\<lambda>v r. r\<lparr> ag_fingerprint := Some v \<rparr>) (ar_id a) (ar_fingerprint a) fp d)"

definition checkPubkey :: "agent_row \<Rightarrow> string \<Rightarrow> agents_db \<Rightarrow> agents_db \<times> binding" where
  "checkPubkey a pubkey d =
     bind_first ag_pubkey (\<lambda>v r. r\<lparr> ag_pubkey := Some v \<rparr>) (ar_id a) (ar_pubkey a) pubkey d"

definition setBindNonce :: "string \<Rightarrow> string \<Rightarrow> agents_db \<Rightarrow> agents_db" where
  "setBindNonce i nonce = upd_agent i (\<lambda>r. r\<lparr> ag_bind_nonce := Some nonce \<rparr>)"

definition clearBindNonce :: "string \<Rightarrow> agents_db \<Rightarrow> agents_db" where
  "clearBindNonce i = upd_agent i (\<lambda>r. r\<lparr> ag_bind_nonce := None \<rparr>)"

definition insert_sample :: "agent_sample \<Rightarrow> agent_sample list \<Rightarrow> agent_sample list" where
  "insert_sample s t =
     (if \<exists>x \<in> set t. sm_agent_id x = sm_agent_id s \<and> sm_ts x = sm_ts s then t else t @ [s])"

definition agent_record :: "string \<Rightarrow> agent_payload \<Rightarrow> ms \<Rightarrow> agents_db \<Rightarrow> agents_db" where
  "agent_record i p now d =
     upd_agent i (\<lambda>r. if pl_backfill p then r\<lparr> ag_last_seen_at := Some now \<rparr>
         else r\<lparr> ag_last_seen_at := Some now, ag_last_payload := Some (pl_json p), ag_meta := Some (meta_json p) \<rparr>)
       (d\<lparr> ad_samples := insert_sample (sample_of i p) (ad_samples d) \<rparr>)"

definition touch :: "string \<Rightarrow> ms \<Rightarrow> agents_db \<Rightarrow> agents_db" where
  "touch i now = upd_agent i (\<lambda>r. r\<lparr> ag_last_seen_at := Some now \<rparr>)"

definition agent_with_payload :: "agent_db_row \<Rightarrow> agent_row \<times> json" where
  "agent_with_payload r = (agent_toRow r, safeJson (ag_last_payload r) JNull)"

definition agent_list :: "agents_db \<Rightarrow> (agent_row \<times> json) list" where
  "agent_list d = map agent_with_payload (order_by ag_created_at (ad_agents d))"

definition agent_get :: "string \<Rightarrow> agents_db \<Rightarrow> (agent_row \<times> json) option" where
  "agent_get i d = map_option agent_with_payload (first_where (\<lambda>r. ag_id r = i) (ad_agents d))"

definition agent_revoke :: "string \<Rightarrow> ms \<Rightarrow> agents_db \<Rightarrow> agents_db" where
  "agent_revoke i now = upd_agent i (\<lambda>r. r\<lparr> ag_revoked_at := Some now, ag_alerts := None \<rparr>)"

definition setAlerts :: "string \<Rightarrow> alert_map \<Rightarrow> agents_db \<Rightarrow> agents_db" where
  "setAlerts i alerts =
     upd_agent i (\<lambda>r. r\<lparr> ag_alerts := (if alerts = [] then None else Some (stringify (JObj alerts))) \<rparr>)"

definition setMutedUntil :: "string \<Rightarrow> ms \<Rightarrow> agents_db \<Rightarrow> agents_db" where
  "setMutedUntil i t = upd_agent i (\<lambda>r. r\<lparr> ag_muted_until := Some t \<rparr>)"

definition agent_scan :: "agents_db \<Rightarrow> agent_row list" where
  "agent_scan d = map agent_toRow (sel_where (\<lambda>r. ag_revoked_at r = None) (ad_agents d))"

definition agent_remove :: "string \<Rightarrow> agents_db \<Rightarrow> agents_db" where
  "agent_remove i d = d\<lparr> ad_samples := del_where (\<lambda>s. sm_agent_id s = i) (ad_samples d),
     ad_agents := del_where (\<lambda>r. ag_id r = i) (ad_agents d) \<rparr>"

text \<open>
  The UPDATEs of the operator's routes \<open>PATCH /admin/api/agents/[id]\<close> and \<open>POST /admin/api/agents/[id]/token\<close>.
  \<open>None\<close> is the 404 of an agent that is not there, or the throw of a token digest that is taken.
\<close>

definition agent_rename :: "string \<Rightarrow> string \<Rightarrow> agents_db \<Rightarrow> agents_db option" where
  "agent_rename i name d =
     (if agent_get i d = None then None
      else Some (upd_agent i (\<lambda>r. r\<lparr> ag_name := name \<rparr>) d))"

definition agent_rotate :: "(string \<Rightarrow> string) \<Rightarrow> string \<Rightarrow> string \<Rightarrow> agents_db \<Rightarrow> agents_db option" where
  "agent_rotate hash i token d =
     (if agent_get i d = None \<or> (\<exists>r \<in> set (ad_agents d). ag_id r \<noteq> i \<and> ag_token_hash r = hash token) then None
      else Some (upd_agent i (\<lambda>r. r\<lparr> ag_token_hash := hash token, ag_fingerprint := None, ag_pubkey := None,
             ag_bind_nonce := None, ag_revoked_at := None \<rparr>) d))"

definition prune_samples :: "ms \<Rightarrow> agents_db \<Rightarrow> agents_db" where
  "prune_samples olderThan d = d\<lparr> ad_samples := del_where (\<lambda>s. sm_ts s < olderThan) (ad_samples d) \<rparr>"

text \<open>The series of a chart: averages over buckets of equal width, NULLs left out.\<close>

definition avg :: "rat list \<Rightarrow> rat option" where
  "avg xs = (if xs = [] then None else Some (sum_list xs / of_nat (length xs)))"

definition avg_opt :: "rat option list \<Rightarrow> rat option" where
  "avg_opt xs = avg (List.map_filter id xs)"

record history_point =
  hp_ts :: int
  hp_cpu :: "rat option"
  hp_mem_pct :: "rat option"
  hp_disk_pct :: "rat option"
  hp_rx_bps :: "rat option"
  hp_tx_bps :: "rat option"
  hp_load1 :: "rat option"
  hp_temp_max :: "rat option"
  hp_mem_used :: "rat option"
  hp_disk_used :: "rat option"

definition history_width :: "string \<Rightarrow> ms \<Rightarrow> nat \<Rightarrow> ms \<Rightarrow> agents_db \<Rightarrow> int" where
  "history_width i since maxPoints now d =
     (let ts = map sm_ts (sel_where (\<lambda>s. sm_agent_id s = i \<and> sm_ts s \<ge> since) (ad_samples d));
          first = (case ts of [] \<Rightarrow> now | t # r \<Rightarrow> fold min r t);
          span = max (now - max since first) 1
      in max 1 \<lceil>of_int span / of_nat maxPoints :: rat\<rceil>)"

definition bucket_point :: "int \<Rightarrow> agent_sample list \<Rightarrow> history_point" where
  "bucket_point t ss = \<lparr> hp_ts = t, hp_cpu = avg (map sm_cpu ss), hp_mem_pct = avg (map sm_mem_pct ss),
     hp_disk_pct = avg_opt (map sm_disk_pct ss), hp_rx_bps = avg (map sm_rx_bps ss), hp_tx_bps = avg (map sm_tx_bps ss),
     hp_load1 = avg (map sm_load1 ss), hp_temp_max = avg_opt (map sm_temp_max ss),
     hp_mem_used = avg (map sm_mem_used ss), hp_disk_used = avg_opt (map sm_disk_used ss) \<rparr>"

definition agent_history :: "string \<Rightarrow> ms \<Rightarrow> nat \<Rightarrow> ms \<Rightarrow> agents_db \<Rightarrow> history_point list" where
  "agent_history i since maxPoints now d =
     (let w = history_width i since maxPoints now d;
          ss = sel_where (\<lambda>s. sm_agent_id s = i \<and> sm_ts s \<ge> since) (ad_samples d)
      in map (\<lambda>k. bucket_point (k * w) (filter (\<lambda>s. sm_ts s div w = k) ss))
           (sort (remdups (map (\<lambda>s. sm_ts s div w) ss))))"

section \<open>Edge reports\<close>

record edge_report =
  er_ts :: ms
  er_windowSec :: rat
  er_requests :: int
  er_s2xx :: int
  er_s3xx :: int
  er_s4xx :: int
  er_s5xx :: int
  er_errors :: nat
  er_json :: string

record edge_row =
  eg_agent_id :: string
  eg_ts :: ms
  eg_window_s :: int
  eg_requests :: int
  eg_s2xx :: int
  eg_s3xx :: int
  eg_s4xx :: int
  eg_s5xx :: int
  eg_errs :: int
  eg_report :: string

definition edge_record :: "string \<Rightarrow> edge_report \<Rightarrow> edge_row list \<Rightarrow> edge_row list" where
  "edge_record i r t =
     (if \<exists>x \<in> set t. eg_agent_id x = i \<and> eg_ts x = er_ts r then t
      else t @ [\<lparr> eg_agent_id = i, eg_ts = er_ts r, eg_window_s = js_round (er_windowSec r),
             eg_requests = er_requests r, eg_s2xx = er_s2xx r, eg_s3xx = er_s3xx r, eg_s4xx = er_s4xx r,
             eg_s5xx = er_s5xx r, eg_errs = int (er_errors r), eg_report = er_json r \<rparr>])"

definition edge_latest :: "string \<Rightarrow> edge_row list \<Rightarrow> json option" where
  "edge_latest i t =
     Option.bind (limit_one (order_by_desc eg_ts (sel_where (\<lambda>r. eg_agent_id r = i) t))) (\<lambda>r. json_parse (eg_report r))"

record edge_sample =
  es_ts :: ms
  es_windowSec :: int
  es_requests :: int
  es_s2xx :: int
  es_s3xx :: int
  es_s4xx :: int
  es_s5xx :: int
  es_errs :: int

definition MAX_HISTORY_POINTS :: int where "MAX_HISTORY_POINTS = 600"

definition edge_mean :: "(edge_row \<Rightarrow> int) \<Rightarrow> edge_row list \<Rightarrow> int" where
  "edge_mean f rs = js_round (of_int (sum_list (map f rs)) / of_nat (length rs))"

definition edge_point :: "edge_row list \<Rightarrow> edge_sample" where
  "edge_point rs = \<lparr> es_ts = eg_ts (last rs), es_windowSec = eg_window_s (last rs),
     es_requests = edge_mean eg_requests rs, es_s2xx = edge_mean eg_s2xx rs, es_s3xx = edge_mean eg_s3xx rs,
     es_s4xx = edge_mean eg_s4xx rs, es_s5xx = edge_mean eg_s5xx rs, es_errs = edge_mean eg_errs rs \<rparr>"

definition edge_raw :: "edge_row \<Rightarrow> edge_sample" where
  "edge_raw r = \<lparr> es_ts = eg_ts r, es_windowSec = eg_window_s r, es_requests = eg_requests r, es_s2xx = eg_s2xx r,
     es_s3xx = eg_s3xx r, es_s4xx = eg_s4xx r, es_s5xx = eg_s5xx r, es_errs = eg_errs r \<rparr>"

definition edge_history :: "string \<Rightarrow> ms \<Rightarrow> edge_row list \<Rightarrow> edge_sample list" where
  "edge_history i since t =
     (let rs = order_by eg_ts (sel_where (\<lambda>r. eg_agent_id r = i \<and> eg_ts r \<ge> since) t) in
      if int (length rs) \<le> MAX_HISTORY_POINTS then map edge_raw rs
      else let t0 = eg_ts (hd rs); span = eg_ts (last rs) - t0;
               bucket = max 1 \<lceil>of_int span / of_int MAX_HISTORY_POINTS :: rat\<rceil>;
               slot = (\<lambda>r. min ((eg_ts r - t0) div bucket) (MAX_HISTORY_POINTS - 1))
           in map (\<lambda>b. edge_point (filter (\<lambda>r. slot r = b) rs)) (uniq (map slot rs)))"

definition edge_prune :: "ms \<Rightarrow> edge_row list \<Rightarrow> edge_row list" where
  "edge_prune olderThan t = del_where (\<lambda>r. eg_ts r < olderThan) t"

section \<open>Alerts\<close>

datatype alert_event = Ev_down | Ev_degraded | Ev_recovered

record notify_event =
  ne_event :: alert_event
  ne_serviceId :: string
  ne_serviceName :: string
  ne_detail :: string

record ingress_rules =
  ru_enabled :: bool
  ru_offline_minutes :: int
  ru_cpu_pct :: rat
  ru_mem_pct :: rat
  ru_disk_pct :: rat

definition HYSTERESIS :: rat where "HYSTERESIS = 10"

definition fire_alert :: "agent_row \<Rightarrow> alert_event \<Rightarrow> string \<Rightarrow> notify_event" where
  "fire_alert a e detail = \<lparr> ne_event = e, ne_serviceId = ''agent:'' @ ar_id a, ne_serviceName = ar_name a, ne_detail = detail \<rparr>"

text \<open>\<open>value.toFixed(1)\<close> of a number that is not negative.\<close>

definition to_fixed1 :: "rat \<Rightarrow> string" where
  "to_fixed1 x = (let n = js_round (x * 10) in int_text (n div 10) @ ''.'' @ int_text (n mod 10))"

definition rule_label :: "string \<Rightarrow> string" where
  "rule_label rule = (if rule = ''cpu'' then ''CPU'' else if rule = ''mem'' then ''memory'' else ''disk'')"

definition thresholds :: "ingress_rules \<Rightarrow> agent_payload \<Rightarrow> (string \<times> rat \<times> rat) list" where
  "thresholds ru p = [(''cpu'', ru_cpu_pct ru, pl_cpu_pct p), (''mem'', ru_mem_pct ru, pl_mem_pct p),
     (''disk'', ru_disk_pct ru, or_default (disk_pct p) 0)]"

definition drop_alert :: "string \<Rightarrow> alert_map \<Rightarrow> alert_map" where
  "drop_alert k m = filter (\<lambda>(k', _). k' \<noteq> k) m"

definition has_alert :: "string \<Rightarrow> alert_map \<Rightarrow> bool" where
  "has_alert k m = (k \<in> set (map fst m))"

text \<open>One rule against the map of active alerts: the new map, whether it was written, what is fired.\<close>

definition rule_step ::
  "agent_row \<Rightarrow> ms \<Rightarrow> string \<times> rat \<times> rat \<Rightarrow> alert_map \<times> bool \<times> notify_event list \<Rightarrow> alert_map \<times> bool \<times> notify_event list" where
  "rule_step a now rule st = (case (rule, st) of ((name, threshold, value), (alerts, dirty, fired)) \<Rightarrow>
     if threshold \<le> 0 then
       (if has_alert name alerts then (drop_alert name alerts, True, fired) else (alerts, dirty, fired))
     else if \<not> has_alert name alerts \<and> value \<ge> threshold then
       (alerts @ [(name, json_int now)], True, fired @ [fire_alert a Ev_degraded
          (rule_label name @ '' at '' @ to_fixed1 value @ ''% (threshold '' @ rat_text threshold @ ''%)'')])
     else if has_alert name alerts \<and> value < threshold - HYSTERESIS then
       (drop_alert name alerts, True, fired @ [fire_alert a Ev_recovered
          (rule_label name @ '' back to '' @ to_fixed1 value @ ''% (threshold '' @ rat_text threshold @ ''%)'')])
     else (alerts, dirty, fired))"

definition onSample ::
  "ingress_rules \<Rightarrow> agent_row \<Rightarrow> agent_payload \<Rightarrow> ms \<Rightarrow> agents_db \<Rightarrow> agents_db \<times> notify_event list" where
  "onSample ru a p now d =
     (let back = has_alert ''offline'' (ar_alerts a);
          st0 = (if back then (drop_alert ''offline'' (ar_alerts a), True, [fire_alert a Ev_recovered ''agent reporting again''])
                 else (ar_alerts a, False, []));
          (alerts, dirty, fired) = fold (rule_step a now) (thresholds ru p) st0
      in (if dirty then setAlerts (ar_id a) alerts d else d, fired))"

text \<open>What the silence detector does with one scanned agent.\<close>

definition tick_agent :: "ingress_rules \<Rightarrow> ms \<Rightarrow> agent_row \<Rightarrow> agents_db \<times> notify_event list \<Rightarrow> agents_db \<times> notify_event list" where
  "tick_agent ru now a st = (case st of (d, fired) \<Rightarrow>
     if ru_offline_minutes ru \<le> 0 then
       (if has_alert ''offline'' (ar_alerts a) then (setAlerts (ar_id a) (drop_alert ''offline'' (ar_alerts a)) d, fired)
        else (d, fired))
     else case ar_lastSeenAt a of None \<Rightarrow> (d, fired)
       | Some last_seen \<Rightarrow>
           if has_alert ''offline'' (ar_alerts a) then (d, fired)
           else if (case ar_mutedUntil a of Some m \<Rightarrow> now < m | None \<Rightarrow> False) then (d, fired)
           else if now - last_seen \<le> ru_offline_minutes ru * 60000 then (d, fired)
           else (setAlerts (ar_id a) (ar_alerts a @ [(''offline'', json_int now)]) d,
                 fired @ [fire_alert a Ev_down (''no metrics for '' @
                   int_text (js_round (of_int (now - last_seen) / 60000)) @ '' min'')]))"

definition alert_tick :: "ingress_rules \<Rightarrow> ms \<Rightarrow> agents_db \<Rightarrow> agents_db \<times> notify_event list" where
  "alert_tick ru now d = fold (tick_agent ru now) (agent_scan d) (d, [])"

end
