(* ===== verification/Hub_Keys.thy ===== *)
theory Hub_Keys
  imports JS_Values
begin

text \<open>
  The identity of the hub towards its agents, \<open>src/src/lib/server/ingress/keys.ts\<close>: one row that holds the
  sealed signing key, the last rotation and a derivation secret that survives rotations, and the
  cache in front of it.  Ed25519, the sealing of \<open>admin/crypto.ts\<close> and the encodings of \<open>Buffer\<close> are fields
  of \<open>keyring\<close>; a private key is the Base64 text of its DER form.
\<close>

record keyring =
  kr_sign :: "string \<Rightarrow> nat list \<Rightarrow> string"
  kr_pub :: "string \<Rightarrow> nat list"
  kr_seal :: "string \<Rightarrow> string"
  kr_open :: "string \<Rightarrow> string option"
  kr_hex :: "nat list \<Rightarrow> string"
  kr_unhex :: "string \<Rightarrow> nat list"
  kr_unbase64 :: "string \<Rightarrow> nat list"
  kr_utf8 :: "string \<Rightarrow> nat list"

record hub_key_row =
  hk_priv :: string
  hk_pub :: string
  hk_prev_pub :: "string option"
  hk_rotated_at :: "ms option"
  hk_proof :: "string option"
  hk_secret :: "string option"

record hub_keys =
  ky_priv :: string
  ky_pubB64 :: string
  ky_prevPubB64 :: "string option"
  ky_rotatedAt :: "ms option"
  ky_proof :: "string option"
  ky_secret :: "nat list"

record key_store =
  ks_row :: "hub_key_row option"
  ks_cache :: "hub_keys option"

definition starts_v1 :: "string \<Rightarrow> bool" where
  "starts_v1 s = (take 3 s = ''v1.'')"

text \<open>The private key of a row and the row after an unsealed one has been resealed.\<close>

definition row_priv :: "keyring \<Rightarrow> hub_key_row \<Rightarrow> (string \<times> hub_key_row) option" where
  "row_priv k r =
     (if starts_v1 (hk_priv r) then map_option (\<lambda>p. (p, r)) (kr_open k (hk_priv r))
      else Some (hk_priv r, r\<lparr> hk_priv := kr_seal k (hk_priv r) \<rparr>))"

definition row_secret :: "keyring \<Rightarrow> string \<Rightarrow> hub_key_row \<Rightarrow> string \<times> hub_key_row" where
  "row_secret k priv r =
     (case hk_secret r of
        Some s \<Rightarrow> if s \<noteq> [] then (s, r)
          else (let t = kr_seal k (kr_hex k (kr_unbase64 k priv)) in (t, r\<lparr> hk_secret := Some t \<rparr>))
      | None \<Rightarrow> (let t = kr_seal k (kr_hex k (kr_unbase64 k priv)) in (t, r\<lparr> hk_secret := Some t \<rparr>)))"

definition load_keys :: "keyring \<Rightarrow> key_store \<Rightarrow> key_store \<times> hub_keys option" where
  "load_keys k s =
     (case ks_row s of None \<Rightarrow> (s, None)
      | Some r \<Rightarrow> (case row_priv k r of
          None \<Rightarrow> (s\<lparr> ks_row := None \<rparr>, None)
        | Some (priv, r1) \<Rightarrow>
            (let (sealed, r2) = row_secret k priv r1 in
             (s\<lparr> ks_row := Some r2 \<rparr>,
              Some \<lparr> ky_priv = priv, ky_pubB64 = hk_pub r2, ky_prevPubB64 = hk_prev_pub r2,
                ky_rotatedAt = hk_rotated_at r2, ky_proof = hk_proof r2,
                ky_secret = (case kr_open k sealed of Some h \<Rightarrow> kr_unhex k h | None \<Rightarrow> kr_unbase64 k priv) \<rparr>))))"

text \<open>\<open>draw\<close> is the generated private key, \<open>rnd\<close> the 32 random bytes of the secret.\<close>

definition create_keys :: "keyring \<Rightarrow> string \<Rightarrow> nat list \<Rightarrow> key_store \<Rightarrow> key_store \<times> hub_keys" where
  "create_keys k draw rnd s =
     (let pub = base64 (kr_pub k draw);
          row = \<lparr> hk_priv = kr_seal k draw, hk_pub = pub, hk_prev_pub = None, hk_rotated_at = None,
                  hk_proof = None, hk_secret = Some (kr_seal k (kr_hex k rnd)) \<rparr>;
          s1 = (if ks_row s = None then s\<lparr> ks_row := Some row \<rparr> else s)
      in case load_keys k s1 of
           (s2, Some ks) \<Rightarrow> (s2, ks)
         | (s2, None) \<Rightarrow> (s2, \<lparr> ky_priv = draw, ky_pubB64 = pub, ky_prevPubB64 = None, ky_rotatedAt = None,
                              ky_proof = None, ky_secret = rnd \<rparr>))"

definition get_keys :: "keyring \<Rightarrow> string \<Rightarrow> nat list \<Rightarrow> key_store \<Rightarrow> key_store \<times> hub_keys" where
  "get_keys k draw rnd s =
     (case ks_cache s of Some ks \<Rightarrow> (s, ks)
      | None \<Rightarrow>
          (let (s2, ks) = (case load_keys k s of (s1, Some ks) \<Rightarrow> (s1, ks) | (s1, None) \<Rightarrow> create_keys k draw rnd s1)
           in (s2\<lparr> ks_cache := Some ks \<rparr>, ks)))"

definition hubSecret :: "keyring \<Rightarrow> string \<Rightarrow> nat list \<Rightarrow> key_store \<Rightarrow> key_store \<times> nat list" where
  "hubSecret k draw rnd s = (let (s', ks) = get_keys k draw rnd s in (s', ky_secret ks))"

definition signToken :: "keyring \<Rightarrow> string \<Rightarrow> nat list \<Rightarrow> string \<Rightarrow> key_store \<Rightarrow> key_store \<times> string" where
  "signToken k draw rnd token s = (let (s', ks) = get_keys k draw rnd s in (s', kr_sign k (ky_priv ks) (kr_utf8 k token)))"

definition publicKeyB64 :: "keyring \<Rightarrow> string \<Rightarrow> nat list \<Rightarrow> key_store \<Rightarrow> key_store \<times> string" where
  "publicKeyB64 k draw rnd s = (let (s', ks) = get_keys k draw rnd s in (s', ky_pubB64 ks))"

record key_info =
  ki_pub :: string
  ki_rotation :: "(string \<times> ms \<times> string) option"

definition key_info_of :: "hub_keys \<Rightarrow> key_info" where
  "key_info_of ks = \<lparr> ki_pub = ky_pubB64 ks,
     ki_rotation = (case (ky_prevPubB64 ks, ky_rotatedAt ks, ky_proof ks) of
        (Some prev, Some t, Some proof) \<Rightarrow> if prev \<noteq> [] \<and> proof \<noteq> [] then Some (prev, t, proof) else None
      | _ \<Rightarrow> None) \<rparr>"

definition publicKeyInfo :: "keyring \<Rightarrow> string \<Rightarrow> nat list \<Rightarrow> key_store \<Rightarrow> key_store \<times> key_info" where
  "publicKeyInfo k draw rnd s = (let (s', ks) = get_keys k draw rnd s in (s', key_info_of ks))"

text \<open>\<open>draw\<close> and \<open>rnd\<close> serve a first boot, \<open>draw'\<close> is the new private key.\<close>

definition rotateHubKey ::
  "keyring \<Rightarrow> string \<Rightarrow> nat list \<Rightarrow> string \<Rightarrow> ms \<Rightarrow> key_store \<Rightarrow> key_store \<times> key_info" where
  "rotateHubKey k draw rnd draw' now s =
     (let (s1, cur) = get_keys k draw rnd s;
          pub = kr_pub k draw';
          proof = kr_sign k (ky_priv cur) pub;
          s2 = s1\<lparr> ks_row := map_option (\<lambda>r. r\<lparr> hk_priv := kr_seal k draw', hk_pub := base64 pub,
                     hk_prev_pub := Some (ky_pubB64 cur), hk_rotated_at := Some now, hk_proof := Some proof \<rparr>) (ks_row s1),
                   ks_cache := None \<rparr>
      in publicKeyInfo k draw rnd s2)"

end
