(* ===== verification/Scans.thy ===== *)
theory Scans
  imports Deploy_Flow
begin

text \<open>
  Vulnerability scans and hardening recommendations: \<open>src/src/lib/server/scan/store.ts\<close> with the types of
  \<open>src/src/lib/shared/scan.ts\<close>.
\<close>

section \<open>Types\<close>

datatype severity = Critical | High | Medium | Low | Unranked

definition severity_text :: "severity \<Rightarrow> string" where
  "severity_text s = (case s of Critical \<Rightarrow> ''critical'' | High \<Rightarrow> ''high'' | Medium \<Rightarrow> ''medium'' | Low \<Rightarrow> ''low''
     | Unranked \<Rightarrow> ''unknown'')"

definition SEVERITIES :: "severity list" where
  "SEVERITIES = [Critical, High, Medium, Low, Unranked]"

datatype rec_kind = Pin_image_tag | Add_healthcheck | Run_non_root | Unexpose_ports | Upgrade_base_image | Set_resource_limits

definition rec_kind_text :: "rec_kind \<Rightarrow> string" where
  "rec_kind_text k = (case k of Pin_image_tag \<Rightarrow> ''pin-image-tag'' | Add_healthcheck \<Rightarrow> ''add-healthcheck''
     | Run_non_root \<Rightarrow> ''run-non-root'' | Unexpose_ports \<Rightarrow> ''unexpose-ports''
     | Upgrade_base_image \<Rightarrow> ''upgrade-base-image'' | Set_resource_limits \<Rightarrow> ''set-resource-limits'')"

datatype scan_status = Scan_queued | Scan_running | Scan_done | Scan_failed

datatype rec_status = Rec_open | Rec_applied | Rec_dismissed | Rec_wontfix

definition MAX_FINDINGS_PER_REPORT :: nat where "MAX_FINDINGS_PER_REPORT = 5000"
definition MAX_VULN_ID :: nat where "MAX_VULN_ID = 64"
definition MAX_PKG :: nat where "MAX_PKG = 160"
definition MAX_VERSION :: nat where "MAX_VERSION = 80"
definition MAX_TITLE :: nat where "MAX_TITLE = 200"
definition MAX_REC_TITLE :: nat where "MAX_REC_TITLE = 160"
definition MAX_REC_DETAIL :: nat where "MAX_REC_DETAIL = 2000"
definition MAX_TARGET :: nat where "MAX_TARGET = 300"
definition MAX_SCAN_ERROR :: nat where "MAX_SCAN_ERROR = 500"

type_synonym scan_summary = "severity \<Rightarrow> nat"

definition emptySummary :: scan_summary where "emptySummary = (\<lambda>_. 0)"

record report_row =
  sr_id :: string
  sr_app_id :: string
  sr_release_id :: "string option"
  sr_target :: string
  sr_status :: scan_status
  sr_started_at :: ms
  sr_finished_at :: "ms option"
  sr_summary :: scan_summary
  sr_duration_ms :: "int option"
  sr_error :: "string option"

record finding_row =
  fd_report_id :: string
  fd_vuln_id :: string
  fd_pkg :: string
  fd_installed :: "string option"
  fd_fixed :: "string option"
  fd_severity :: severity
  fd_title :: "string option"
  fd_cvss :: "rat option"

record rec_row =
  rc_id :: string
  rc_app_id :: string
  rc_kind :: rec_kind
  rc_dedupe_key :: string
  rc_severity :: severity
  rc_title :: string
  rc_detail :: string
  rc_data :: "string option"
  rc_auto_fixable :: bool
  rc_status :: rec_status
  rc_created_at :: ms
  rc_applied_at :: "ms option"

record scans =
  sc_reports :: "report_row list"
  sc_findings :: "finding_row list"
  sc_recs :: "rec_row list"

definition no_scans :: scans where
  "no_scans = \<lparr> sc_reports = [], sc_findings = [], sc_recs = [] \<rparr>"

text \<open>A finding as it arrives: texts of any length, the severity and the score as they were sent.\<close>

record raw_finding =
  rf_vulnId :: string
  rf_pkg :: string
  rf_installed :: "string option"
  rf_fixed :: "string option"
  rf_severity :: "json option"
  rf_title :: "string option"
  rf_cvss :: "js_num option"

record new_rec =
  nr_kind :: rec_kind
  nr_dedupeKey :: string
  nr_severity :: severity
  nr_title :: string
  nr_detail :: string
  nr_data :: "json option"
  nr_autoFixable :: bool

record recommendation =
  re_id :: string
  re_appId :: string
  re_kind :: rec_kind
  re_dedupeKey :: string
  re_severity :: severity
  re_title :: string
  re_detail :: string
  re_data :: "json option"
  re_autoFixable :: bool
  re_status :: rec_status
  re_createdAt :: ms
  re_appliedAt :: "ms option"

text \<open>
  The data column is what \<open>sync\<close> wrote, the text of an object.  A text that does not parse makes the code
  raise and reads as no data here.
\<close>

definition toRec :: "rec_row \<Rightarrow> recommendation" where
  "toRec r = \<lparr> re_id = rc_id r, re_appId = rc_app_id r, re_kind = rc_kind r, re_dedupeKey = rc_dedupe_key r,
     re_severity = rc_severity r, re_title = rc_title r, re_detail = rc_detail r,
     re_data = Option.bind (rc_data r) json_parse, re_autoFixable = rc_auto_fixable r, re_status = rc_status r,
     re_createdAt = rc_created_at r, re_appliedAt = rc_applied_at r \<rparr>"

section \<open>Reports\<close>

definition clip :: "string option \<Rightarrow> nat \<Rightarrow> string option" where
  "clip v n = (case v of Some s \<Rightarrow> if s = [] then None else Some (take n s) | None \<Rightarrow> None)"

definition normSeverity :: "json option \<Rightarrow> severity" where
  "normSeverity v = (let s = js_lower (js_string_opt v) in
     or_default (find (\<lambda>x. severity_text x = s) SEVERITIES) Unranked)"

definition scan_report :: "string \<Rightarrow> scans \<Rightarrow> report_row option" where
  "scan_report i d = first_where (\<lambda>r. sr_id r = i) (sc_reports d)"

definition createReport ::
  "string \<Rightarrow> string \<Rightarrow> string \<Rightarrow> string option \<Rightarrow> ms \<Rightarrow> scans \<Rightarrow> deploy_fault + (scans \<times> report_row)" where
  "createReport i appId target releaseId now d =
     (if scan_report i d \<noteq> None then Inl Thrown
      else let row = \<lparr> sr_id = i, sr_app_id = appId, sr_release_id = releaseId, sr_target = take MAX_TARGET target,
                     sr_status = Scan_queued, sr_started_at = now, sr_finished_at = None, sr_summary = emptySummary,
                     sr_duration_ms = None, sr_error = None \<rparr>
           in Inr (d\<lparr> sc_reports := sc_reports d @ [row] \<rparr>, row))"

definition clamp :: "nat \<Rightarrow> nat \<Rightarrow> nat \<Rightarrow> nat" where
  "clamp lo hi n = min (max n lo) hi"

definition listForApp :: "string \<Rightarrow> nat \<Rightarrow> scans \<Rightarrow> report_row list" where
  "listForApp appId limit d =
     take (clamp 1 200 limit) (order_by_desc sr_started_at (sel_where (\<lambda>r. sr_app_id r = appId) (sc_reports d)))"

definition latestForApp :: "string \<Rightarrow> scans \<Rightarrow> report_row option" where
  "latestForApp appId d = limit_one (order_by_desc sr_started_at (sel_where (\<lambda>r. sr_app_id r = appId) (sc_reports d)))"

definition latestPerApp :: "nat \<Rightarrow> scans \<Rightarrow> report_row list" where
  "latestPerApp limit d =
     take (clamp 1 500 limit) (order_by_desc sr_started_at
       (sel_where (\<lambda>r. list_all (\<lambda>x. sr_app_id x = sr_app_id r \<longrightarrow> sr_started_at x \<le> sr_started_at r) (sc_reports d)) (sc_reports d)))"

definition in_flight :: "report_row \<Rightarrow> bool" where
  "in_flight r = (sr_status r = Scan_queued \<or> sr_status r = Scan_running)"

definition activeForApp :: "string \<Rightarrow> scans \<Rightarrow> report_row option" where
  "activeForApp appId d =
     limit_one (order_by_desc sr_started_at (sel_where (\<lambda>r. sr_app_id r = appId \<and> in_flight r) (sc_reports d)))"

definition markRunning :: "string \<Rightarrow> ms \<Rightarrow> scans \<Rightarrow> scans" where
  "markRunning i now d = d\<lparr> sc_reports := upd_where (\<lambda>r. sr_id r = i \<and> sr_status r = Scan_queued)
     (\<lambda>r. r\<lparr> sr_status := Scan_running, sr_started_at := now \<rparr>) (sc_reports d) \<rparr>"

definition finding_key :: "raw_finding \<Rightarrow> (string \<times> string) option" where
  "finding_key f = (case (clip (Some (rf_vulnId f)) MAX_VULN_ID, clip (Some (rf_pkg f)) MAX_PKG) of
     (Some v, Some p) \<Rightarrow> Some (v, p) | _ \<Rightarrow> None)"

definition finding_of :: "string \<Rightarrow> string \<times> string \<Rightarrow> raw_finding \<Rightarrow> finding_row" where
  "finding_of i vp f = \<lparr> fd_report_id = i, fd_vuln_id = fst vp, fd_pkg = snd vp,
     fd_installed = clip (rf_installed f) MAX_VERSION, fd_fixed = clip (rf_fixed f) MAX_VERSION,
     fd_severity = normSeverity (rf_severity f), fd_title = clip (rf_title f) MAX_TITLE,
     fd_cvss = (case rf_cvss f of Some (Fin q) \<Rightarrow> Some (min (max q 0) 10) | _ \<Rightarrow> None) \<rparr>"

text \<open>
  The loop over the findings with the set of keys met so far, a key being the identifier and the
  package written one after the other.
\<close>

fun finding_rows :: "string \<Rightarrow> string list \<Rightarrow> raw_finding list \<Rightarrow> finding_row list" where
  "finding_rows i known [] = []"
| "finding_rows i known (f # fs) =
     (case finding_key f of None \<Rightarrow> finding_rows i known fs
      | Some (v, p) \<Rightarrow>
          if v @ p \<in> set known then finding_rows i known fs
          else finding_of i (v, p) f # finding_rows i ((v @ p) # known) fs)"

definition summary_of :: "finding_row list \<Rightarrow> scan_summary" where
  "summary_of fs = fold (\<lambda>r s. s(fd_severity r := s (fd_severity r) + 1)) fs emptySummary"

definition complete ::
  "string \<Rightarrow> bool \<Rightarrow> string option \<Rightarrow> raw_finding list \<Rightarrow> ms \<Rightarrow> scans \<Rightarrow> scans \<times> report_row option" where
  "complete i good error findings now d =
     (case scan_report i d of None \<Rightarrow> (d, None)
      | Some existing \<Rightarrow>
          if \<not> in_flight existing then (d, Some existing)
          else let rows = finding_rows i [] (take MAX_FINDINGS_PER_REPORT findings);
                   P = (\<lambda>r. sr_id r = i \<and> in_flight r);
                   f = (\<lambda>r. r\<lparr> sr_status := (if good then Scan_done else Scan_failed), sr_finished_at := Some now,
                              sr_duration_ms := Some (max 0 (now - sr_started_at existing)),
                              sr_summary := summary_of rows, sr_error := clip error MAX_SCAN_ERROR \<rparr>);
                   d' = d\<lparr> sc_reports := upd_where P f (sc_reports d),
                          sc_findings := del_where (\<lambda>x. fd_report_id x = i) (sc_findings d) @ rows \<rparr>
               in (d', scan_report i d'))"

definition sev_rank :: "severity \<Rightarrow> nat" where
  "sev_rank s = (case s of Critical \<Rightarrow> 0 | High \<Rightarrow> 1 | Medium \<Rightarrow> 2 | Low \<Rightarrow> 3 | Unranked \<Rightarrow> 4)"

definition findings_of :: "string \<Rightarrow> nat \<Rightarrow> scans \<Rightarrow> finding_row list" where
  "findings_of i limit d =
     take (clamp 1 MAX_FINDINGS_PER_REPORT limit) (sort_key (\<lambda>f. sev_rank (fd_severity f))
       (take MAX_FINDINGS_PER_REPORT (order_by fd_vuln_id (sel_where (\<lambda>f. fd_report_id f = i) (sc_findings d)))))"

section \<open>Recommendations\<close>

definition scan_rec :: "string \<Rightarrow> scans \<Rightarrow> recommendation option" where
  "scan_rec i d = map_option toRec (first_where (\<lambda>r. rc_id r = i) (sc_recs d))"

definition recsForApp :: "string \<Rightarrow> bool option \<Rightarrow> nat option \<Rightarrow> scans \<Rightarrow> recommendation list" where
  "recsForApp appId openOnly limit d =
     map toRec (take (clamp 1 500 (or_default limit 200)) (order_by_desc rc_created_at
       (sel_where (\<lambda>r. rc_app_id r = appId \<and> (openOnly = Some False \<or> rc_status r = Rec_open)) (sc_recs d))))"

definition allOpenRecs :: "nat \<Rightarrow> scans \<Rightarrow> recommendation list" where
  "allOpenRecs limit d = map toRec (take (clamp 1 1000 limit) (order_by_desc rc_created_at
     (sel_where (\<lambda>r. rc_status r = Rec_open) (sc_recs d))))"

definition openCounts :: "scans \<Rightarrow> string \<Rightarrow> nat option" where
  "openCounts d appId =
     (let n = n_where (\<lambda>r. rc_app_id r = appId \<and> rc_status r = Rec_open) (sc_recs d) in if n = 0 then None else Some n)"

definition rec_key :: "rec_kind \<Rightarrow> string \<Rightarrow> string" where
  "rec_key k dedupe = rec_kind_text k @ dedupe"

definition rec_fields :: "new_rec \<Rightarrow> rec_row \<Rightarrow> rec_row" where
  "rec_fields r row = row\<lparr> rc_severity := nr_severity r, rc_title := take MAX_REC_TITLE (nr_title r),
     rc_detail := take MAX_REC_DETAIL (nr_detail r),
     rc_data := map_option (\<lambda>v. take 4096 (stringify v)) (nr_data r), rc_auto_fixable := nr_autoFixable r \<rparr>"

definition fresh_rec :: "string \<Rightarrow> string \<Rightarrow> ms \<Rightarrow> new_rec \<Rightarrow> rec_row" where
  "fresh_rec i appId now r = rec_fields r
     \<lparr> rc_id = i, rc_app_id = appId, rc_kind = nr_kind r, rc_dedupe_key = nr_dedupeKey r,
       rc_severity = nr_severity r, rc_title = [], rc_detail = [], rc_data = None, rc_auto_fixable = False,
       rc_status = Rec_open, rc_created_at = now, rc_applied_at = None \<rparr>"

text \<open>One recommendation against the rows that were there; a taken key or identifier makes the insert throw.\<close>

definition sync_one ::
  "string \<Rightarrow> ms \<Rightarrow> rec_row list \<Rightarrow> string \<times> new_rec \<Rightarrow> rec_row list option \<Rightarrow> rec_row list option" where
  "sync_one appId now existing ir t = Option.bind t (\<lambda>rows. let (i, r) = ir in
     (case first_where (\<lambda>c. rec_key (rc_kind c) (rc_dedupe_key c) = rec_key (nr_kind r) (nr_dedupeKey r)) (rev existing) of
        None \<Rightarrow>
          if \<exists>x \<in> set rows. rc_id x = i \<or> (rc_app_id x = appId \<and> rc_kind x = nr_kind r \<and> rc_dedupe_key x = nr_dedupeKey r)
          then None else Some (rows @ [fresh_rec i appId now r])
      | Some cur \<Rightarrow>
          (case rc_status cur of
             Rec_open \<Rightarrow> Some (upd_where (\<lambda>x. rc_id x = rc_id cur) (rec_fields r) rows)
           | Rec_applied \<Rightarrow> Some (upd_where (\<lambda>x. rc_id x = rc_id cur)
               (\<lambda>x. (rec_fields r x)\<lparr> rc_status := Rec_open, rc_applied_at := None, rc_created_at := now \<rparr>) rows)
           | _ \<Rightarrow> Some rows)))"

definition sync_recs :: "string \<Rightarrow> (string \<times> new_rec) list \<Rightarrow> ms \<Rightarrow> scans \<Rightarrow> scans option" where
  "sync_recs appId recs now d =
     (let existing = sel_where (\<lambda>r. rc_app_id r = appId) (sc_recs d);
          known = map (\<lambda>(_, r). rec_key (nr_kind r) (nr_dedupeKey r)) recs;
          gone = map rc_id (filter (\<lambda>c. rc_status c = Rec_open \<and> rec_key (rc_kind c) (rc_dedupe_key c) \<notin> set known) existing)
      in map_option (\<lambda>rows. d\<lparr> sc_recs := del_where (\<lambda>x. rc_id x \<in> set gone \<and> rc_status x = Rec_open) rows \<rparr>)
           (fold (sync_one appId now existing) recs (Some (sc_recs d))))"

definition setStatus :: "string \<Rightarrow> rec_status \<Rightarrow> ms \<Rightarrow> scans \<Rightarrow> scans \<times> bool" where
  "setStatus i st now d =
     (let P = (\<lambda>r. rc_id r = i \<and> rc_status r = Rec_open) in
      (d\<lparr> sc_recs := upd_where P (\<lambda>r. r\<lparr> rc_status := st, rc_applied_at := (if st = Rec_applied then Some now else None) \<rparr>)
            (sc_recs d) \<rparr>, n_where P (sc_recs d) = 1))"

definition prune_scans :: "ms \<Rightarrow> scans \<Rightarrow> scans \<times> nat" where
  "prune_scans olderThan d =
     (let stale = map sr_id (sel_where (\<lambda>r. sr_started_at r < olderThan) (sc_reports d)) in
      (d\<lparr> sc_findings := del_where (\<lambda>f. fd_report_id f \<in> set stale) (sc_findings d),
          sc_reports := del_where (\<lambda>r. sr_id r \<in> set stale) (sc_reports d),
          sc_recs := del_where (\<lambda>r. rc_status r \<noteq> Rec_open \<and> rc_created_at r < olderThan) (sc_recs d) \<rparr>, length stale))"

end
