(* ===== verification/Scan_Flow.thy ===== *)
theory Scan_Flow
  imports Scans Service_Groups
begin

text \<open>
  The recommendation engine \<open>src/src/lib/server/scan/recommend.ts\<close> and the life of a scan job,
  \<open>src/src/lib/server/scan/trigger.ts\<close>.  A frozen deploy spec is the JSON value of its text; reading a member
  of \<open>undefined\<close> or \<open>null\<close> throws.  The order of \<open>localeCompare\<close> is the parameter \<open>locale_le\<close>.
\<close>

section \<open>Image references\<close>

definition last_index :: "char \<Rightarrow> string \<Rightarrow> int" where
  "last_index c s = (let t = dropWhile (\<lambda>d. d \<noteq> c) (rev s) in int (length t) - 1)"

definition digest_char :: "char \<Rightarrow> bool" where
  "digest_char c = (id_char c \<or> c \<in> set ''./_-'')"

definition DIGEST_RE :: "string \<Rightarrow> bool" where
  "DIGEST_RE s =
     (let n = length s - 72; name = take n s; rest = drop n s in
      length s > 72 \<and> js_lower (take 8 rest) = ''@sha256:'' \<and> list_all (\<lambda>c. hex_val c \<noteq> None) (drop 8 rest) \<and>
      id_char (hd name) \<and> list_all digest_char name)"

definition repoName :: "string \<Rightarrow> string" where
  "repoName r = (let noDigest = takeWhile (\<lambda>c. c \<noteq> CHR ''@'') r; slash = last_index (CHR ''/'') noDigest;
       colon = last_index (CHR '':'') noDigest
     in if colon > slash then take (nat colon) noDigest else noDigest)"

definition unpinned :: "string \<Rightarrow> bool" where
  "unpinned r =
     (if CHR ''@'' \<in> set r then False
      else let slash = last_index (CHR ''/'') r; colon = last_index (CHR '':'') r
           in if colon \<le> slash then True else drop (nat (colon + 1)) r = ''latest'')"

definition basename :: "string \<Rightarrow> string" where
  "basename r = (let name = repoName r in drop (nat (last_index (CHR ''/'') name + 1)) name)"

definition digest_matches :: "string \<Rightarrow> string \<Rightarrow> bool" where
  "digest_matches r d =
     (let want = repoName r; have_name = repoName d in
      DIGEST_RE d \<and> (have_name = want \<or> js_ends_with have_name (''/'' @ want) \<or> js_ends_with want (''/'' @ have_name) \<or>
        basename have_name = basename want))"

definition pickDigest :: "string \<Rightarrow> string list \<Rightarrow> string option" where
  "pickDigest r digests = find (digest_matches r) digests"

section \<open>evaluate and fixFor\<close>

text \<open>\<open>v.k\<close>.\<close>

definition jdot :: "string \<Rightarrow> json option \<Rightarrow> deploy_fault + json option" where
  "jdot k v = (if v = None \<or> v = Some JNull then Inl Thrown else Inr (jmember k (the v)))"

definition as_list :: "json option \<Rightarrow> json list" where
  "as_list v = (case v of Some (JArr xs) \<Rightarrow> xs | _ \<Rightarrow> [])"

record run_view =
  rv_user :: "json option"
  rv_resources :: "json option"
  rv_ports :: "json list"
  rv_domains :: "json list"

text \<open>
  The parts of a spec that are read: \<open>run\<close> and its ports, and the domains of its route, which are lists in
  every spec the hub stores.  A spec in which they are something else reads as one with empty lists,
  where the code can raise on \<open>run.ports[0]\<close>.
\<close>

definition run_view_of :: "json \<Rightarrow> deploy_fault + run_view" where
  "run_view_of spec =
     and_then (jdot ''run'' (Some spec)) (\<lambda>run. and_then (jdot ''ports'' run) (\<lambda>ports.
       and_then (jdot ''route'' (Some spec)) (\<lambda>route. and_then (jdot ''domains'' route) (\<lambda>domains.
         Inr \<lparr> rv_user = Option.bind run (jmember ''user''), rv_resources = Option.bind run (jmember ''resources''),
               rv_ports = as_list ports, rv_domains = as_list domains \<rparr>))))"

definition pin_rec :: "deploy_app \<Rightarrow> string list \<Rightarrow> new_rec list" where
  "pin_rec app digests =
     (case src_url (app_source app) of
        Some url \<Rightarrow>
          if is_kind ''image'' app \<and> url \<noteq> [] \<and> unpinned url
          then (let digest = pickDigest url digests in
            [\<lparr> nr_kind = Pin_image_tag, nr_dedupeKey = [], nr_severity = Medium,
               nr_title = ''Pin the image to a tag or digest'',
               nr_detail = url @ '' is unpinned, so pulls can silently drift. '' @
                 (case digest of Some d \<Rightarrow> ''Pin to the observed digest '' @ d @ ''.''
                  | None \<Rightarrow> ''Set a specific tag or digest on the image source.''),
               nr_data = map_option (\<lambda>d. JObj [(''ref'', JStr d)]) digest, nr_autoFixable = (digest \<noteq> None) \<rparr>])
          else []
      | None \<Rightarrow> [])"

definition health_port :: "deploy_app \<Rightarrow> run_view option \<Rightarrow> json option" where
  "health_port app v =
     (case app_healthcheck app of
        Some h \<Rightarrow> if hc_port h > 0 then Some (json_int (hc_port h))
          else Option.bind (Option.bind v (\<lambda>r. limit_one (rv_ports r))) (jmember ''container'')
      | None \<Rightarrow> Option.bind (Option.bind v (\<lambda>r. limit_one (rv_ports r))) (jmember ''container''))"

definition health_rec :: "deploy_app \<Rightarrow> run_view option \<Rightarrow> new_rec list" where
  "health_rec app v =
     (if (case app_healthcheck app of Some h \<Rightarrow> truthy (Some (hc_kind h)) \<and> hc_port h \<noteq> 0 | None \<Rightarrow> False) then []
      else let port = health_port app v in
        [\<lparr> nr_kind = Add_healthcheck, nr_dedupeKey = [], nr_severity = Medium,
           nr_title = ''Add a container healthcheck'',
           nr_detail = ''Without a healthcheck a deploy cannot prove the new release is serving before the old one stops, so swaps take the slow path. A tcp check on the app port is enough.'',
           nr_data = (if truthy port then Some (JObj [(''port'', the port)]) else None),
           nr_autoFixable = (case js_integer port of Some n \<Rightarrow> n > 0 | None \<Rightarrow> False) \<rparr>])"

definition rootish :: "json option \<Rightarrow> bool" where
  "rootish u = (u = None \<or> u = Some (JStr []) \<or> u = Some (JStr ''root'') \<or> u = Some (JStr ''0'') \<or> js_integer u = Some 0)"

definition root_rec :: "run_view \<Rightarrow> new_rec list" where
  "root_rec v = (if \<not> rootish (rv_user v) then [] else
     [\<lparr> nr_kind = Run_non_root, nr_dedupeKey = [], nr_severity = Low,
        nr_title = ''Run the container as a non-root user'',
        nr_detail = ''The run spec sets no user, so the container uses the image default, which is usually root. Set USER to a non-root account in the Dockerfile, or run.user once the spec supports it.'',
        nr_data = None, nr_autoFixable = False \<rparr>])"

fun join_with :: "string \<Rightarrow> string list \<Rightarrow> string" where
  "join_with sep [] = []"
| "join_with sep [x] = x"
| "join_with sep (x # y # zs) = x @ sep @ join_with sep (y # zs)"

definition port_pair :: "json \<Rightarrow> string" where
  "port_pair p = js_string_opt (jmember ''host'' p) @ '':'' @ js_string_opt (jmember ''container'' p)"

definition ports_rec :: "run_view \<Rightarrow> new_rec list" where
  "ports_rec v = (if rv_ports v = [] \<or> rv_domains v = [] then [] else
     (let pairs = take 16 (sort (map port_pair (rv_ports v))) in
      [\<lparr> nr_kind = Unexpose_ports, nr_dedupeKey = join_with '','' pairs, nr_severity = Medium,
         nr_title = ''Remove direct port publishes'',
         nr_detail = ''Published host ports '' @ join_with '', '' pairs @ '' bypass the routed domain and the edge proxy. Let the route carry traffic and drop the publishes.'',
         nr_data = None, nr_autoFixable = False \<rparr>]))"

definition finding_le :: "(string \<Rightarrow> string \<Rightarrow> bool) \<Rightarrow> finding_row \<Rightarrow> finding_row \<Rightarrow> bool" where
  "finding_le locale_le a b =
     (sev_rank (fd_severity a) < sev_rank (fd_severity b) \<or>
      (sev_rank (fd_severity a) = sev_rank (fd_severity b) \<and> locale_le (fd_pkg a) (fd_pkg b)))"

definition MAX_DETAIL_PKGS :: nat where "MAX_DETAIL_PKGS = 5"

definition base_rec :: "(string \<Rightarrow> string \<Rightarrow> bool) \<Rightarrow> finding_row list \<Rightarrow> new_rec list" where
  "base_rec locale_le fs =
     (let serious = sort_by (finding_le locale_le) (filter (\<lambda>f. fd_severity f = Critical \<or> fd_severity f = High) fs);
          top = map (\<lambda>f. fd_pkg f @ '' '' @ fd_vuln_id f @
              (case non_empty (fd_fixed f) of Some x \<Rightarrow> '' (fixed in '' @ x @ '')'' | None \<Rightarrow> [])) (take MAX_DETAIL_PKGS serious)
      in if serious = [] then [] else
        [\<lparr> nr_kind = Upgrade_base_image, nr_dedupeKey = [],
           nr_severity = (if list_ex (\<lambda>f. fd_severity f = Critical) serious then High else Medium),
           nr_title = ''Rebuild on an updated base image'',
           nr_detail = nat_digits (length serious) @ '' critical or high findings. Most image findings clear by rebuilding on a fresher base. Top offenders: '' @ join_with ''; '' top @ ''.'',
           nr_data = None, nr_autoFixable = False \<rparr>])"

definition limits_rec :: "run_view \<Rightarrow> new_rec list" where
  "limits_rec v = (if rv_resources v = None \<or> truthy (rv_resources v) then [] else
     [\<lparr> nr_kind = Set_resource_limits, nr_dedupeKey = [], nr_severity = Low,
        nr_title = ''Set container resource limits'',
        nr_detail = ''The run spec supports resource limits but none are set, so one container can starve the host. Set memory and cpu limits on the app.'',
        nr_data = None, nr_autoFixable = False \<rparr>])"

definition evaluate ::
  "(string \<Rightarrow> string \<Rightarrow> bool) \<Rightarrow> deploy_app \<Rightarrow> json option \<Rightarrow> finding_row list \<Rightarrow> string list \<Rightarrow> deploy_fault + new_rec list" where
  "evaluate locale_le app spec fs digests =
     and_then (case spec of Some s \<Rightarrow> if truthy spec then map_sum id Some (run_view_of s) else Inr None | None \<Rightarrow> Inr None)
       (\<lambda>v. Inr (pin_rec app digests @ health_rec app v @ (case v of Some r \<Rightarrow> root_rec r @ ports_rec r | None \<Rightarrow> []) @
          base_rec locale_le fs @ (case v of Some r \<Rightarrow> limits_rec r | None \<Rightarrow> [])))"

datatype app_fix = Fix_source app_source | Fix_healthcheck int

definition fixFor :: "recommendation \<Rightarrow> deploy_app \<Rightarrow> app_fix option" where
  "fixFor r app =
     (case re_kind r of
        Pin_image_tag \<Rightarrow>
          if \<not> is_kind ''image'' app then None
          else (case Option.bind (re_data r) (jmember ''ref'') of
              Some (JStr ref) \<Rightarrow> if DIGEST_RE ref then Some (Fix_source ((app_source app)\<lparr> src_url := Some ref \<rparr>)) else None
            | _ \<Rightarrow> None)
      | Add_healthcheck \<Rightarrow>
          (case js_integer (Option.bind (re_data r) (jmember ''port'')) of
             Some p \<Rightarrow> if p < 1 \<or> p > 65535 then None else Some (Fix_healthcheck p) | None \<Rightarrow> None)
      | _ \<Rightarrow> None)"

section \<open>Scan jobs\<close>

record scan_rt =
  srt_rt :: runtime
  srt_scans :: scans

definition tag_char :: "char \<Rightarrow> bool" where
  "tag_char c = (lower_or_digit c \<or> c \<in> set ''_.-'')"

definition foldTag :: "string \<Rightarrow> string" where
  "foldTag v = take 128 (map (\<lambda>c. if tag_char c then c else CHR ''-'') (js_lower v))"

definition text_value :: "json option \<Rightarrow> deploy_fault + string" where
  "text_value v = (case v of Some (JStr s) \<Rightarrow> Inr s | _ \<Rightarrow> Inl Thrown)"

definition specImage :: "json option \<Rightarrow> deploy_fault + string option" where
  "specImage spec =
     (if \<not> truthy spec then Inr None
      else and_then (jdot ''run'' spec) (\<lambda>run. and_then (jdot ''image'' run) (\<lambda>img.
        if truthy img then map_sum id Some (text_value img)
        else and_then (jdot ''source'' spec) (\<lambda>src. and_then (jdot ''kind'' src) (\<lambda>kind.
          if kind = Some (JStr ''image'') \<and> truthy (Option.bind src (jmember ''url''))
          then map_sum id Some (text_value (Option.bind src (jmember ''url''))) else Inr None)))))"

definition scan_releaseSpec :: "string \<Rightarrow> deploys \<Rightarrow> json option" where
  "scan_releaseSpec i d = (case releaseSpec i d of None \<Rightarrow> None | Some t \<Rightarrow> if t = [] then None else json_parse t)"

definition release_ref :: "string \<Rightarrow> release \<Rightarrow> deploys \<Rightarrow> deploy_fault + string" where
  "release_ref appId rel d =
     and_then (case rel_image rel of Some i \<Rightarrow> Inr (Some i) | None \<Rightarrow> specImage (scan_releaseSpec (rel_id rel) d))
       (\<lambda>r. Inr (case r of Some x \<Rightarrow> if x \<noteq> [] then x else foldTag appId @ '':'' @ foldTag (rel_id rel)
                 | None \<Rightarrow> foldTag appId @ '':'' @ foldTag (rel_id rel)))"

definition resolveTarget :: "string \<Rightarrow> string option \<Rightarrow> deploys \<Rightarrow> deploy_fault + (string \<times> string option)" where
  "resolveTarget appId releaseId d =
     (case getApp appId d of None \<Rightarrow> Inl (DeployError 404 ''app not found'')
      | Some app \<Rightarrow>
          (case non_empty releaseId of
             Some i \<Rightarrow>
               (case get_release i d of None \<Rightarrow> Inl (DeployError 404 ''release not found'')
                | Some rel \<Rightarrow>
                    if rel_appId rel \<noteq> appId then Inl (DeployError 422 ''release belongs to another app'')
                    else map_sum id (\<lambda>r. (r, Some i)) (release_ref appId rel d))
           | None \<Rightarrow>
               (case liveRelease appId d of
                  Some live \<Rightarrow> map_sum id (\<lambda>r. (r, Some (rel_id live))) (release_ref appId live d)
                | None \<Rightarrow>
                    (case src_url (app_source app) of
                       Some url \<Rightarrow> if is_kind ''image'' app \<and> url \<noteq> [] then Inr (url, None)
                         else Inl (DeployError 422 ''nothing to scan yet: deploy the app or use an image source'')
                     | None \<Rightarrow> Inl (DeployError 422 ''nothing to scan yet: deploy the app or use an image source'')))))"

definition scan_key :: "string \<Rightarrow> string \<Rightarrow> string" where
  "scan_key appId reportId = ''scan:'' @ appId @ '':'' @ reportId"

definition scan_spec_json :: "string \<Rightarrow> string \<Rightarrow> string \<Rightarrow> string option \<Rightarrow> json" where
  "scan_spec_json scanId appId imageRef releaseId = JObj ([(''scanId'', JStr scanId), (''appId'', JStr appId),
     (''imageRef'', JStr imageRef)] @ opt_field ''releaseId'' JStr releaseId @ [(''jobKey'', JStr (scan_key appId scanId))])"

definition queue_scan ::
  "string \<Rightarrow> ms \<Rightarrow> deploy_app \<Rightarrow> string \<Rightarrow> string option \<Rightarrow> scan_rt \<Rightarrow> scan_rt \<times> (deploy_fault + (job option \<times> report_row \<times> bool))" where
  "queue_scan i now app imageRef releaseId s =
     (case createReport i (app_id app) imageRef releaseId now (srt_scans s) of
        Inl e \<Rightarrow> (s, Inl e)
      | Inr (sc, report) \<Rightarrow>
          (let s1 = s\<lparr> srt_scans := sc \<rparr>;
               (rt, r) = run_enqueue \<lparr> eo_kind = Scan, eo_target = Some (app_agentId app),
                 eo_spec = stringify (scan_spec_json i (app_id app) imageRef releaseId),
                 eo_jobKey = Some (scan_key (app_id app) i), eo_maxAttempts = Some 2, eo_notBefore = None \<rparr> now (srt_rt s1)
           in (s1\<lparr> srt_rt := rt \<rparr>, map_sum id (\<lambda>j. (Some j, report, False)) r)))"

definition enqueueScan ::
  "string \<Rightarrow> ms \<Rightarrow> string \<Rightarrow> string option \<Rightarrow> scan_rt \<Rightarrow> scan_rt \<times> (deploy_fault + (job option \<times> report_row \<times> bool))" where
  "enqueueScan i now appId releaseId s =
     (case getApp appId (rt_deploys (srt_rt s)) of None \<Rightarrow> (s, Inl (DeployError 404 ''app not found''))
      | Some app \<Rightarrow>
          (let go = (\<lambda>s1. (case resolveTarget appId releaseId (rt_deploys (srt_rt s1)) of
                 Inl e \<Rightarrow> (s1, Inl e) | Inr (imageRef, rel) \<Rightarrow> queue_scan i now app imageRef rel s1))
           in case activeForApp appId (srt_scans s) of
                None \<Rightarrow> go s
              | Some active \<Rightarrow>
                  (case byKey (scan_key appId (sr_id active)) (rt_jobs (srt_rt s)) of
                     Some existing \<Rightarrow> (s, Inr (Some existing, active, True))
                   | None \<Rightarrow> go (s\<lparr> srt_scans := fst (complete (sr_id active) False
                        (Some ''scan job lost before completion'') [] now (srt_scans s)) \<rparr>))))"

definition scanSpec :: "job \<Rightarrow> json option" where
  "scanSpec j =
     (case json_parse (jb_spec j) of
        Some v \<Rightarrow> (case (jmember ''scanId'' v, jmember ''imageRef'' v) of (Some (JStr _), Some (JStr _)) \<Rightarrow> Some v | _ \<Rightarrow> None)
      | None \<Rightarrow> None)"

definition spec_scan_id :: "json \<Rightarrow> string" where
  "spec_scan_id v = str_or_empty (jmember ''scanId'' v)"

definition markScanJobRunning :: "nat \<Rightarrow> ms \<Rightarrow> scan_rt \<Rightarrow> scan_rt" where
  "markScanJobRunning jobId now s =
     (case get_job jobId (rt_jobs (srt_rt s)) of None \<Rightarrow> s
      | Some j \<Rightarrow> if jb_kind j \<noteq> Scan then s
          else (case scanSpec j of None \<Rightarrow> s
            | Some spec \<Rightarrow> s\<lparr> srt_scans := markRunning (spec_scan_id spec) now (srt_scans s) \<rparr>))"

definition text_field :: "string \<Rightarrow> json \<Rightarrow> string option" where
  "text_field k v = (case jmember k v of Some (JStr s) \<Rightarrow> Some s | _ \<Rightarrow> None)"

definition wire_finding :: "json \<Rightarrow> raw_finding option" where
  "wire_finding f =
     (case (text_field ''vulnId'' f, text_field ''pkg'' f) of
        (Some v, Some p) \<Rightarrow> Some \<lparr> rf_vulnId = v, rf_pkg = p, rf_installed = text_field ''installed'' f,
          rf_fixed = text_field ''fixed'' f, rf_severity = jmember ''severity'' f, rf_title = text_field ''title'' f,
          rf_cvss = (case jmember ''cvss'' f of Some (JNum t) \<Rightarrow> Some (js_number (Some (JNum t))) | _ \<Rightarrow> None) \<rparr>
      | _ \<Rightarrow> None)"

definition wireFindings :: "json \<Rightarrow> raw_finding list" where
  "wireFindings result =
     List.map_filter wire_finding (take MAX_FINDINGS_PER_REPORT (as_list (jmember ''findings'' result)))"

definition scan_error :: "string \<Rightarrow> string" where
  "scan_error result =
     (case json_parse result of
        Some v \<Rightarrow> (case text_field ''error'' v of Some e \<Rightarrow> if e \<noteq> [] then e else ''scan job failed'' | None \<Rightarrow> ''scan job failed'')
      | None \<Rightarrow> ''scan job failed'')"

definition scan_digests :: "json \<Rightarrow> string list" where
  "scan_digests result =
     take 8 (List.map_filter (\<lambda>d. case d of JStr x \<Rightarrow> Some x | _ \<Rightarrow> None) (as_list (jmember ''repoDigests'' result)))"

text \<open>After a successful scan: the report is done, the recommendations are synchronised.\<close>

definition settle_success ::
  "(string \<Rightarrow> string \<Rightarrow> bool) \<Rightarrow> (nat \<Rightarrow> string) \<Rightarrow> ms \<Rightarrow> json \<Rightarrow> json \<Rightarrow> scan_rt \<Rightarrow> scan_rt \<times> (deploy_fault + unit)" where
  "settle_success locale_le ids now spec result s =
     (let (sc, report) = complete (spec_scan_id spec) True None (wireFindings result) now (srt_scans s);
          s1 = s\<lparr> srt_scans := sc \<rparr>; appId = str_or_empty (jmember ''appId'' spec);
          d = rt_deploys (srt_rt s)
      in if map_option sr_status report \<noteq> Some Scan_done then (s1, Inr ())
         else case getApp appId d of None \<Rightarrow> (s1, Inr ())
           | Some app \<Rightarrow>
               (let relSpec = (case text_field ''releaseId'' spec of
                      Some i \<Rightarrow> if i = [] then None else scan_releaseSpec i d | None \<Rightarrow> None)
                in case evaluate locale_le app relSpec (findings_of (spec_scan_id spec) MAX_FINDINGS_PER_REPORT sc)
                          (scan_digests result) of
                     Inl e \<Rightarrow> (s1, Inl e)
                   | Inr recs \<Rightarrow>
                       (case sync_recs appId (map (\<lambda>(n, r). (ids n, r)) (enumerate 0 recs)) now sc of
                          None \<Rightarrow> (s1, Inl Thrown) | Some sc' \<Rightarrow> (s1\<lparr> srt_scans := sc' \<rparr>, Inr ()))))"

definition settleScanJob ::
  "(string \<Rightarrow> string \<Rightarrow> bool) \<Rightarrow> (nat \<Rightarrow> string) \<Rightarrow> ms \<Rightarrow> nat \<Rightarrow> scan_rt \<Rightarrow> scan_rt \<times> (deploy_fault + unit)" where
  "settleScanJob locale_le ids now jobId s =
     (case get_job jobId (rt_jobs (srt_rt s)) of None \<Rightarrow> (s, Inr ())
      | Some j \<Rightarrow>
          if jb_kind j \<noteq> Scan \<or> jb_result j = None \<or> jb_result j = Some [] then (s, Inr ())
          else case scanSpec j of None \<Rightarrow> (s, Inr ())
            | Some spec \<Rightarrow>
                (let close = (\<lambda>e. (s\<lparr> srt_scans := fst (complete (spec_scan_id spec) False (Some e) [] now (srt_scans s)) \<rparr>, Inr ()))
                 in if jb_status j \<noteq> Succeeded then close (scan_error (the (jb_result j)))
                    else case json_parse (the (jb_result j)) of
                      None \<Rightarrow> close ''malformed scan result''
                    | Some JNull \<Rightarrow> (s, Inl Thrown)
                    | Some result \<Rightarrow>
                        if jmember ''scanId'' result \<noteq> Some (JStr (spec_scan_id spec)) then close ''scan id mismatch in result''
                        else settle_success locale_le ids now spec result s))"

end
