(* ===== verification/Ingress.thy ===== *)
theory Ingress
  imports Agents Hub_Keys Scan_Flow
begin

text \<open>
  The endpoints agents talk to: the gates of \<open>src/src/lib/server/ingress/http.ts\<close> with the proofs of
  \<open>ingress/proof.ts\<close>, and the route handlers under \<open>src/src/routes/ingress\<close>.  The schema library, Ed25519 and
  the encodings of \<open>Buffer\<close> are fields of \<open>ienv\<close>; a handler keeps the state it reached when it ends in an
  error.  The text of a body is \<open>None\<close> when it is larger than the route allows.
\<close>

section \<open>State, request and reply\<close>

record ingress =
  in_agents :: agents_db
  in_edge :: "edge_row list"
  in_keys :: key_store
  in_srt :: scan_rt
  in_fired :: "notify_event list"

record ienv =
  ie_now :: ms
  ie_hash :: "string \<Rightarrow> string"
  ie_ring :: keyring
  ie_verify :: "nat list \<Rightarrow> nat list \<Rightarrow> string \<Rightarrow> bool"
  ie_draw :: string
  ie_rnd :: "nat list"
  ie_nonce :: "nat list"
  ie_lease :: string
  ie_rules :: ingress_rules
  ie_payload :: "json \<Rightarrow> agent_payload option"
  ie_report :: "json \<Rightarrow> edge_report option"
  ie_fenv :: fenv
  ie_locale :: "string \<Rightarrow> string \<Rightarrow> bool"
  ie_ids :: "nat \<Rightarrow> string"

record ing_request =
  iq_auth :: "string option"
  iq_pubkey :: "string option"
  iq_proof :: "string option"
  iq_text :: "string option"
  iq_param :: string

datatype ing_answer = Ans_ok bool | Ans_pending nat | Ans_handshake string string string
  | Ans_hello bool "bool option" string | Ans_job "claimed_job option" | Ans_fail bool job_status
  | Ans_secrets env_map "(string \<times> string) option" | Ans_applied nat

datatype ing_reply = IngOk ing_answer | IngError nat string | IngCrash

definition with_text :: "ing_request \<Rightarrow> ingress \<Rightarrow> (string \<Rightarrow> ingress \<times> ing_reply) \<Rightarrow> ingress \<times> ing_reply" where
  "with_text q s k = (case iq_text q of None \<Rightarrow> (s, IngError 413 ''body too large'') | Some t \<Rightarrow> k t)"

text \<open>A parsed body; the handlers read members of it, which throws on \<open>null\<close>.\<close>

definition with_json :: "string \<Rightarrow> ingress \<Rightarrow> (json \<Rightarrow> ingress \<times> ing_reply) \<Rightarrow> ingress \<times> ing_reply" where
  "with_json t s k = (case json_parse t of None \<Rightarrow> (s, IngError 400 ''expected a JSON body'')
     | Some v \<Rightarrow> if v = JNull then (s, IngCrash) else k v)"

section \<open>Gates\<close>

definition bearerToken :: "string option \<Rightarrow> string option" where
  "bearerToken h = (case h of None \<Rightarrow> None
     | Some t \<Rightarrow> if \<not> starts_with ''Bearer '' t then None else non_empty (Some (js_trim (drop 7 t))))"

definition gate ::
  "ienv \<Rightarrow> string option \<Rightarrow> ingress \<Rightarrow> (agent_row \<Rightarrow> ingress \<times> ing_reply) \<Rightarrow> ingress \<times> ing_reply" where
  "gate e token s k =
     (if \<not> ru_enabled (ie_rules e) then (s, IngError 404 ''not found'')
      else case non_empty token of None \<Rightarrow> (s, IngError 401 ''missing bearer token'')
        | Some t \<Rightarrow> (case resolveToken (ie_hash e) t (in_agents s) of
            None \<Rightarrow> (s, IngError 401 ''invalid token'') | Some (a, _) \<Rightarrow> k a))"

definition decodePubkey :: "keyring \<Rightarrow> json option \<Rightarrow> nat list option" where
  "decodePubkey k v = (case v of
       Some (JStr b) \<Rightarrow> if b = [] \<or> length b > 128 then None
         else (let raw = kr_unbase64 k b in if length raw \<noteq> 32 \<or> base64 raw \<noteq> b then None else Some raw)
     | _ \<Rightarrow> None)"

definition verifyAgentSig :: "ienv \<Rightarrow> nat list \<Rightarrow> nat list \<Rightarrow> json option \<Rightarrow> bool" where
  "verifyAgentSig e pub msg sig = (case sig of
       Some (JStr b) \<Rightarrow> b \<noteq> [] \<and> length b \<le> 256 \<and> ie_verify e pub msg b | _ \<Rightarrow> False)"

definition header_json :: "string option \<Rightarrow> json option" where
  "header_json h = map_option JStr h"

definition proofGate ::
  "ienv \<Rightarrow> agent_row \<Rightarrow> ing_request \<Rightarrow> string \<Rightarrow> ingress \<Rightarrow> (ingress \<Rightarrow> ingress \<times> ing_reply) \<Rightarrow> ingress \<times> ing_reply" where
  "proofGate e a q body s k =
     (let msg = kr_utf8 (ie_ring e) body in
      case ar_pubkey a of
        Some bound \<Rightarrow>
          if iq_pubkey q \<noteq> Some bound
          then (s, IngError 403 ''agent key proof required: this registration is key-bound'')
          else if \<not> verifyAgentSig e (kr_unbase64 (ie_ring e) bound) msg (header_json (iq_proof q))
          then (s, IngError 403 ''invalid agent key proof'')
          else k s
      | None \<Rightarrow>
          (case iq_pubkey q of
             None \<Rightarrow> if iq_proof q = None then k s else (s, IngError 403 ''invalid agent key proof'')
           | Some pub \<Rightarrow>
               (case decodePubkey (ie_ring e) (Some (JStr pub)) of
                  None \<Rightarrow> (s, IngError 403 ''invalid agent key proof'')
                | Some raw \<Rightarrow>
                    if \<not> verifyAgentSig e raw msg (header_json (iq_proof q))
                    then (s, IngError 403 ''invalid agent key proof'')
                    else (let (ad, b) = checkPubkey a pub (in_agents s); s' = s\<lparr> in_agents := ad \<rparr> in
                      if b = Bind_mismatch
                      then (s', IngError 403 ''agent key mismatch: this token is bound to another key'')
                      else k s'))))"

section \<open>Handshake and hello\<close>

definition post_handshake :: "ienv \<Rightarrow> ing_request \<Rightarrow> ingress \<Rightarrow> ingress \<times> ing_reply" where
  "post_handshake e q s = with_text q s (\<lambda>t. with_json t s (\<lambda>body.
     let token = text_field ''token'' body in gate e token s (\<lambda>a.
       let nonce = base64 (ie_nonce e);
           s1 = s\<lparr> in_agents := setBindNonce (ar_id a) nonce (in_agents s) \<rparr>;
           (ks, sig) = signToken (ie_ring e) (ie_draw e) (ie_rnd e) (or_default token []) (in_keys s1);
           (ks', pub) = publicKeyB64 (ie_ring e) (ie_draw e) (ie_rnd e) ks
       in (s1\<lparr> in_keys := ks' \<rparr>, IngOk (Ans_handshake sig pub nonce)))))"

definition keyed_hello :: "json \<Rightarrow> bool" where
  "keyed_hello body = (case jmember ''pubkey'' body of None \<Rightarrow> False | Some JNull \<Rightarrow> False | Some _ \<Rightarrow> True)"

text \<open>The part of a keyed hello after the nonce is consumed and the fingerprint checked.\<close>

definition hello_key ::
  "ienv \<Rightarrow> agent_row \<Rightarrow> string option \<Rightarrow> bool \<Rightarrow> json \<Rightarrow> ingress \<Rightarrow> ingress \<times> ing_reply" where
  "hello_key e a nonce fresh body s =
     (case decodePubkey (ie_ring e) (jmember ''pubkey'' body) of
        None \<Rightarrow> (s, IngError 422 ''pubkey must be base64 raw 32 bytes'')
      | Some raw \<Rightarrow>
          (case nonce of None \<Rightarrow> (s, IngError 403 ''missing challenge nonce: run the handshake first'')
           | Some n \<Rightarrow>
               if \<not> verifyAgentSig e raw (kr_unbase64 (ie_ring e) n) (jmember ''proof'' body)
               then (s, IngError 403 ''invalid key proof'')
               else (let (ad, b) = checkPubkey a (base64 raw) (in_agents s); s' = s\<lparr> in_agents := ad \<rparr> in
                 if b = Bind_mismatch
                 then (s', IngError 403 ''agent key mismatch: this token is bound to another key'')
                 else (s', IngOk (Ans_hello fresh (Some (b = Bind_bound)) (ar_id a))))))"

definition hello_agent :: "ienv \<Rightarrow> json \<Rightarrow> agent_row \<Rightarrow> ingress \<Rightarrow> ingress \<times> ing_reply" where
  "hello_agent e body a s =
     (let keyed = keyed_hello body;
          s1 = (if keyed then s\<lparr> in_agents := clearBindNonce (ar_id a) (in_agents s) \<rparr> else s);
          fp = take 128 (str_or_empty (jmember ''fingerprint'' body));
          (ad, check) = checkFingerprint a fp (in_agents s1);
          s2 = s1\<lparr> in_agents := ad \<rparr>
      in if check = Bind_mismatch
         then (s2, IngError 403 ''fingerprint mismatch: this token is bound to another machine'')
         else if \<not> keyed then
           (if ar_pubkey a \<noteq> None
            then (s2, IngError 403 ''agent key proof required: this registration is key-bound'')
            else (s2, IngOk (Ans_hello (check = Bind_bound) None (ar_id a))))
         else hello_key e a (ar_bindNonce a) (check = Bind_bound) body s2)"

definition post_hello :: "ienv \<Rightarrow> ing_request \<Rightarrow> ingress \<Rightarrow> ingress \<times> ing_reply" where
  "post_hello e q s = with_text q s (\<lambda>t. with_json t s (\<lambda>body.
     gate e (text_field ''token'' body) s (\<lambda>a. hello_agent e body a s)))"

section \<open>Metrics and edge reports\<close>

definition MAX_SKEW_MS :: ms where "MAX_SKEW_MS = 3600000"
definition BACKFILL_AGE_MS :: ms where "BACKFILL_AGE_MS = 48 * 3600000"
definition BACKFILL_FUTURE_MS :: ms where "BACKFILL_FUTURE_MS = 60000"

definition ts_ok :: "agent_payload \<Rightarrow> ms \<Rightarrow> bool" where
  "ts_ok p now = (if pl_backfill p then pl_ts p \<le> now + BACKFILL_FUTURE_MS \<and> pl_ts p \<ge> now - BACKFILL_AGE_MS
     else \<bar>pl_ts p - now\<bar> \<le> MAX_SKEW_MS)"

definition ingest_payload :: "ienv \<Rightarrow> agent_row \<Rightarrow> agent_payload \<Rightarrow> ingress \<Rightarrow> ingress \<times> ing_reply" where
  "ingest_payload e a p s =
     (if \<not> ts_ok p (ie_now e) then (s, IngError 422 ''payload timestamp out of accepted window'')
      else let (ad, check) = checkFingerprint a (pl_fingerprint p) (in_agents s); s1 = s\<lparr> in_agents := ad \<rparr> in
        if check = Bind_mismatch
        then (s1, IngError 403 ''fingerprint mismatch: this token is bound to another machine'')
        else let ad1 = agent_record (ar_id a) p (ie_now e) ad;
                 (ad2, fired) = (if pl_backfill p then (ad1, []) else onSample (ie_rules e) a p (ie_now e) ad1)
             in (s1\<lparr> in_agents := ad2, in_fired := in_fired s1 @ fired \<rparr>,
                 IngOk (Ans_pending (pending (Some (ar_id a)) None (rt_jobs (srt_rt (in_srt s1)))))))"

definition post_metrics :: "ienv \<Rightarrow> ing_request \<Rightarrow> ingress \<Rightarrow> ingress \<times> ing_reply" where
  "post_metrics e q s = gate e (bearerToken (iq_auth q)) s (\<lambda>a. with_text q s (\<lambda>t.
     proofGate e a q t s (\<lambda>s1.
       case json_parse t of None \<Rightarrow> (s1, IngError 400 ''expected a JSON body'')
       | Some v \<Rightarrow> (case ie_payload e v of None \<Rightarrow> (s1, IngError 422 ''invalid payload'')
           | Some p \<Rightarrow> ingest_payload e a p s1))))"

definition post_edge :: "ienv \<Rightarrow> ing_request \<Rightarrow> ingress \<Rightarrow> ingress \<times> ing_reply" where
  "post_edge e q s = gate e (bearerToken (iq_auth q)) s (\<lambda>a. with_text q s (\<lambda>t.
     case json_parse t of None \<Rightarrow> (s, IngError 400 ''expected a JSON body'')
     | Some v \<Rightarrow> (case ie_report e v of None \<Rightarrow> (s, IngError 422 ''invalid report'')
         | Some r \<Rightarrow>
             if \<bar>er_ts r - ie_now e\<bar> > MAX_SKEW_MS then (s, IngError 422 ''report timestamp out of accepted window'')
             else (s\<lparr> in_edge := edge_record (ar_id a) r (in_edge s),
                     in_agents := touch (ar_id a) (ie_now e) (in_agents s) \<rparr>, IngOk (Ans_ok True)))))"

section \<open>Jobs\<close>

definition JOB_KINDS :: "(string \<times> job_kind) list" where
  "JOB_KINDS = [(''deploy'', Deploy), (''teardown'', Teardown), (''agent-task'', AgentTask), (''scan'', Scan)]"

definition set_jobs :: "jobs_db \<Rightarrow> ingress \<Rightarrow> ingress" where
  "set_jobs db s = s\<lparr> in_srt := (in_srt s)\<lparr> srt_rt := (srt_rt (in_srt s))\<lparr> rt_jobs := db \<rparr> \<rparr> \<rparr>"

definition jobs_of :: "ingress \<Rightarrow> jobs_db" where
  "jobs_of s = rt_jobs (srt_rt (in_srt s))"

text \<open>
  The kinds asked for: an entry passes when its text is a kind; one that is not itself a text cannot be
  bound to the query.
\<close>

definition wanted_kinds :: "json \<Rightarrow> job_kind option list" where
  "wanted_kinds body = (case jmember ''kinds'' body of
       Some (JArr ks) \<Rightarrow> map (\<lambda>k. case k of JStr t \<Rightarrow> map_of JOB_KINDS t | _ \<Rightarrow> None)
         (filter (\<lambda>k. js_string k \<in> fst ` set JOB_KINDS) ks)
     | _ \<Rightarrow> map (Some \<circ> snd) JOB_KINDS)"

fun claim_first :: "ienv \<Rightarrow> string \<Rightarrow> job_kind option list \<Rightarrow> ingress \<Rightarrow> ingress \<times> ing_reply" where
  "claim_first e target [] s = (s, IngOk (Ans_job None))"
| "claim_first e target (None # ks) s = (s, IngCrash)"
| "claim_first e target (Some k # ks) s =
     (case claim k (Some target) DEFAULT_LEASE_MS (ie_lease e) (ie_now e) (jobs_of s) of
        (db, Some j) \<Rightarrow> (set_jobs db s, IngOk (Ans_job (Some j)))
      | (db, None) \<Rightarrow> claim_first e target ks (set_jobs db s))"

definition post_claim :: "ienv \<Rightarrow> ing_request \<Rightarrow> ingress \<Rightarrow> ingress \<times> ing_reply" where
  "post_claim e q s = gate e (bearerToken (iq_auth q)) s (\<lambda>a. with_text q s (\<lambda>t.
     proofGate e a q t s (\<lambda>s1.
       if js_trim t = [] then claim_first e (ar_id a) (map (Some \<circ> snd) JOB_KINDS) s1
       else with_json t s1 (\<lambda>body. claim_first e (ar_id a) (wanted_kinds body) s1))))"

definition job_param :: "string \<Rightarrow> nat option" where
  "job_param p = (case num_int (str_number p) of Some n \<Rightarrow> if n > 0 then Some (nat n) else None | None \<Rightarrow> None)"

text \<open>The settling of a finished job: its deploy release, then its scan report.\<close>

definition settle_job :: "ienv \<Rightarrow> nat \<Rightarrow> ingress \<Rightarrow> ingress \<times> bool" where
  "settle_job e i s =
     (case settleDeployJob (ie_fenv e) i (srt_rt (in_srt s)) of
        (rt, Inl _) \<Rightarrow> (s\<lparr> in_srt := (in_srt s)\<lparr> srt_rt := rt \<rparr> \<rparr>, False)
      | (rt, Inr _) \<Rightarrow>
          (case settleScanJob (ie_locale e) (ie_ids e) (ie_now e) i ((in_srt s)\<lparr> srt_rt := rt \<rparr>) of
             (t, Inl _) \<Rightarrow> (s\<lparr> in_srt := t \<rparr>, False)
           | (t, Inr _) \<Rightarrow> (s\<lparr> in_srt := t \<rparr>, True)))"

definition settle_then :: "ienv \<Rightarrow> nat \<Rightarrow> bool \<Rightarrow> ing_reply \<Rightarrow> ingress \<Rightarrow> ingress \<times> ing_reply" where
  "settle_then e i b r s = (if \<not> b then (s, r) else case settle_job e i s of (s', ok) \<Rightarrow> (s', if ok then r else IngCrash))"

definition job_result_text :: "json \<Rightarrow> string option" where
  "job_result_text body = map_option stringify (jmember ''result'' body)"

definition job_succeed :: "ienv \<Rightarrow> nat \<Rightarrow> string \<Rightarrow> json \<Rightarrow> ingress \<Rightarrow> ingress \<times> ing_reply" where
  "job_succeed e i lease body s =
     (case succeed i lease (job_result_text body) (ie_now e) (jobs_of s) of
        Inl _ \<Rightarrow> (s, IngCrash) | Inr (db, ok) \<Rightarrow> settle_then e i ok (IngOk (Ans_ok ok)) (set_jobs db s))"

definition job_fail :: "ienv \<Rightarrow> nat \<Rightarrow> string \<Rightarrow> bool \<Rightarrow> json \<Rightarrow> ingress \<Rightarrow> ingress \<times> ing_reply" where
  "job_fail e i lease rolledBack body s =
     (case fail i lease (job_result_text body) rolledBack (ie_now e) (jobs_of s) of
        Inl _ \<Rightarrow> (s, IngCrash)
      | Inr (db, st) \<Rightarrow> settle_then e i (st = (if rolledBack then RolledBack else Failed))
          (IngOk (Ans_fail (st = Queued) st)) (set_jobs db s))"

definition job_action :: "ienv \<Rightarrow> nat \<Rightarrow> string \<Rightarrow> string \<Rightarrow> json \<Rightarrow> ingress \<Rightarrow> ingress \<times> ing_reply" where
  "job_action e i lease action body s =
     (let now = ie_now e; db0 = jobs_of s in
      if action = ''start'' then
        (let (db, ok) = start i lease now db0; s1 = set_jobs db s
         in (if ok then s1\<lparr> in_srt := markScanJobRunning i now (in_srt s1) \<rparr> else s1, IngOk (Ans_ok ok)))
      else if action = ''heartbeat'' then
        (let (db, ok) = heartbeat i lease DEFAULT_LEASE_MS now db0 in (set_jobs db s, IngOk (Ans_ok ok)))
      else if action = ''progress'' then
        (let (db, ok) = progress i lease (take (64 * 1024) (str_or_empty (jmember ''chunk'' body))) now db0
         in (set_jobs db s, IngOk (Ans_ok ok)))
      else if action = ''succeed'' then job_succeed e i lease body s
      else if action = ''fail'' then job_fail e i lease False body s
      else job_fail e i lease True body s)"

definition ACTIONS :: "string list" where
  "ACTIONS = [''start'', ''heartbeat'', ''progress'', ''succeed'', ''fail'', ''rolled_back'']"

definition post_job :: "ienv \<Rightarrow> ing_request \<Rightarrow> ingress \<Rightarrow> ingress \<times> ing_reply" where
  "post_job e q s = gate e (bearerToken (iq_auth q)) s (\<lambda>a.
     case job_param (iq_param q) of None \<Rightarrow> (s, IngError 404 ''not found'')
     | Some i \<Rightarrow> with_text q s (\<lambda>t. proofGate e a q t s (\<lambda>s1. with_json t s1 (\<lambda>body.
         let lease = str_or_empty (jmember ''lease'' body); action = str_or_empty (jmember ''action'' body) in
         if lease = [] \<or> action \<notin> set ACTIONS then (s1, IngError 422 ''expected lease and a valid action'')
         else job_action e i lease action body s1))))"

text \<open>Whether a job hands its secrets to the holder of a lease.\<close>

definition serves_secrets :: "string \<Rightarrow> string \<Rightarrow> job \<Rightarrow> bool" where
  "serves_secrets lease agentId j =
     (jb_kind j = Deploy \<and> jb_leaseOwner j = Some lease \<and> jb_status j \<in> {Claimed, Running} \<and>
      or_default (jb_target j) agentId = agentId)"

definition job_secrets :: "ienv \<Rightarrow> job \<Rightarrow> ingress \<Rightarrow> ingress \<times> ing_reply" where
  "job_secrets e j s =
     (case json_parse (jb_spec j) of None \<Rightarrow> (s, IngError 500 ''corrupt job spec'')
      | Some spec \<Rightarrow>
          if spec = JNull then (s, IngCrash)
          else let appId = str_or_empty (jmember ''appId'' spec); d = rt_deploys (srt_rt (in_srt s)) in
            (case (deployKeyFor (fe_d (ie_fenv e)) appId d, envFor (fe_d (ie_fenv e)) appId d) of
               (Inr key, Inr env) \<Rightarrow> (s, IngOk (Ans_secrets env key)) | _ \<Rightarrow> (s, IngCrash)))"

definition post_secrets :: "ienv \<Rightarrow> ing_request \<Rightarrow> ingress \<Rightarrow> ingress \<times> ing_reply" where
  "post_secrets e q s = gate e (bearerToken (iq_auth q)) s (\<lambda>a.
     case job_param (iq_param q) of None \<Rightarrow> (s, IngError 404 ''not found'')
     | Some i \<Rightarrow> with_text q s (\<lambda>t. proofGate e a q t s (\<lambda>s1. with_json t s1 (\<lambda>body.
         let lease = str_or_empty (jmember ''lease'' body) in
         if lease = [] then (s1, IngError 422 ''expected lease'')
         else case get_job i (jobs_of s1) of
             None \<Rightarrow> (s1, IngError 403 ''no live lease for this job'')
           | Some j \<Rightarrow> if \<not> serves_secrets lease (ar_id a) j then (s1, IngError 403 ''no live lease for this job'')
               else job_secrets e j s1))))"

definition outcome_of :: "json option \<Rightarrow> job_status option" where
  "outcome_of v = (case v of Some (JStr t) \<Rightarrow>
       map_of [(''succeeded'', Succeeded), (''failed'', Failed), (''rolled_back'', RolledBack)] t | _ \<Rightarrow> None)"

definition reconcile_item :: "ienv \<Rightarrow> string \<Rightarrow> json \<Rightarrow> ingress \<Rightarrow> ingress \<times> bool option" where
  "reconcile_item e agentId item s =
     (case (num_int (js_number (jmember ''id'' item)), outcome_of (jmember ''outcome'' item)) of
        (Some n, Some oc) \<Rightarrow>
          if n \<le> 0 then (s, Some False)
          else (case get_job (nat n) (jobs_of s) of None \<Rightarrow> (s, Some False)
            | Some j \<Rightarrow>
                if jb_target j \<noteq> None \<and> jb_target j \<noteq> Some agentId then (s, Some False)
                else (case reconcile (nat n) oc (job_result_text item) (ie_now e) (jobs_of s) of
                    (db, False) \<Rightarrow> (set_jobs db s, Some False)
                  | (db, True) \<Rightarrow> (case settle_job e (nat n) (set_jobs db s) of
                      (s', ok) \<Rightarrow> (s', if ok then Some True else None))))
      | _ \<Rightarrow> (s, Some False))"

text \<open>The loop over the items; an item that is \<open>null\<close> throws.\<close>

fun reconcile_items :: "ienv \<Rightarrow> string \<Rightarrow> json list \<Rightarrow> nat \<Rightarrow> ingress \<Rightarrow> ingress \<times> ing_reply" where
  "reconcile_items e agentId [] n s = (s, IngOk (Ans_applied n))"
| "reconcile_items e agentId (i # items) n s =
     (if i = JNull then (s, IngCrash)
      else case reconcile_item e agentId i s of
        (s', None) \<Rightarrow> (s', IngCrash)
      | (s', Some b) \<Rightarrow> reconcile_items e agentId items (if b then n + 1 else n) s')"

definition post_reconcile :: "ienv \<Rightarrow> ing_request \<Rightarrow> ingress \<Rightarrow> ingress \<times> ing_reply" where
  "post_reconcile e q s = gate e (bearerToken (iq_auth q)) s (\<lambda>a. with_text q s (\<lambda>t.
     proofGate e a q t s (\<lambda>s1. with_json t s1 (\<lambda>body.
       reconcile_items e (ar_id a) (take 100 (as_list (jmember ''jobs'' body))) 0 s1))))"

end
