(* ===== verification/Ingress_Props.thy ===== *)
theory Ingress_Props
  imports Ingress Flow_Props
begin

text \<open>
  What a request of an agent can do: it reaches the row of the agent its token names only, a key is
  bound by a proof only, a binding is never undone, and a registration with a key needs a proof for
  everything but the edge report.
\<close>

section \<open>The endpoints together\<close>

datatype endpoint = To_handshake | To_hello | To_metrics | To_edge | To_claim | To_job | To_secrets | To_reconcile

definition serve :: "ienv \<Rightarrow> endpoint \<Rightarrow> ing_request \<Rightarrow> ingress \<Rightarrow> ingress \<times> ing_reply" where
  "serve e ep q s = (case ep of
       To_handshake \<Rightarrow> post_handshake e q s | To_hello \<Rightarrow> post_hello e q s
     | To_metrics \<Rightarrow> post_metrics e q s | To_edge \<Rightarrow> post_edge e q s
     | To_claim \<Rightarrow> post_claim e q s | To_job \<Rightarrow> post_job e q s
     | To_secrets \<Rightarrow> post_secrets e q s | To_reconcile \<Rightarrow> post_reconcile e q s)"

text \<open>The two proofs of a key: over the exact body, and over the nonce of the handshake.\<close>

definition body_proof :: "ienv \<Rightarrow> ing_request \<Rightarrow> string \<Rightarrow> bool" where
  "body_proof e q k = (iq_pubkey q = Some k \<and> (case iq_text q of None \<Rightarrow> False
     | Some t \<Rightarrow> verifyAgentSig e (kr_unbase64 (ie_ring e) k) (kr_utf8 (ie_ring e) t) (header_json (iq_proof q))))"

definition nonce_proof :: "ienv \<Rightarrow> ing_request \<Rightarrow> string option \<Rightarrow> string \<Rightarrow> bool" where
  "nonce_proof e q nonce k = (case (nonce, Option.bind (iq_text q) json_parse) of
       (Some n, Some body) \<Rightarrow> jmember ''pubkey'' body = Some (JStr k) \<and>
          verifyAgentSig e (kr_unbase64 (ie_ring e) k) (kr_unbase64 (ie_ring e) n) (jmember ''proof'' body)
     | _ \<Rightarrow> False)"

section \<open>Changes of one row\<close>

definition agent_evo :: "(string \<Rightarrow> bool) \<Rightarrow> agent_db_row \<Rightarrow> agent_db_row \<Rightarrow> bool" where
  "agent_evo K r r' =
     (ag_id r' = ag_id r \<and> ag_name r' = ag_name r \<and> ag_token_hash r' = ag_token_hash r \<and>
      ag_revoked_at r' = ag_revoked_at r \<and> ag_muted_until r' = ag_muted_until r \<and>
      (ag_fingerprint r = None \<or> ag_fingerprint r' = ag_fingerprint r) \<and>
      (ag_pubkey r' = ag_pubkey r \<or> ag_pubkey r = None \<and> (\<exists>k. ag_pubkey r' = Some k \<and> K k)))"

definition only_agent :: "string \<Rightarrow> (string \<Rightarrow> bool) \<Rightarrow> agents_db \<Rightarrow> agents_db \<Rightarrow> bool" where
  "only_agent i K d d' =
     list_all2 (\<lambda>r r'. r' = r \<or> ag_id r = i \<and> agent_evo K r r') (ad_agents d) (ad_agents d')"

lemma agent_evo_refl [simp]: "agent_evo K r r"
  by (simp add: agent_evo_def)

lemma agent_evo_trans: "agent_evo K r r' \<Longrightarrow> agent_evo K r' r'' \<Longrightarrow> agent_evo K r r''"
  by (auto simp: agent_evo_def)

lemma only_agent_refl [simp]: "only_agent i K d d"
  by (simp add: only_agent_def list.rel_refl)

lemma only_agent_trans:
  assumes "only_agent i K d d'" "only_agent i K d' d''"
  shows "only_agent i K d d''"
  using assms unfolding only_agent_def
  by (rule list_all2_trans [rotated]) (auto simp: agent_evo_def)

lemma only_agent_map:
  assumes "ad_agents d' = map f (ad_agents d)" "\<And>r. f r = r \<or> ag_id r = i \<and> agent_evo K r (f r)"
  shows "only_agent i K d d'"
  using assms(2) by (simp add: only_agent_def assms(1) list_all2_map2 list.rel_refl)

lemma only_agent_upd:
  assumes "\<And>r. P r \<Longrightarrow> ag_id r = i \<and> agent_evo K r (f r)"
  shows "only_agent i K d (d\<lparr> ad_agents := upd_where P f (ad_agents d) \<rparr>)"
  by (rule only_agent_map [where f = "\<lambda>r. if P r then f r else r"]) (use assms in \<open>auto simp: upd_where_def\<close>)

lemma only_agent_upd_agent:
  assumes "\<And>r. agent_evo K r (f r)"
  shows "only_agent i K d (upd_agent i f d)"
  unfolding upd_agent_def by (rule only_agent_upd) (use assms in auto)

lemma only_agent_weaken:
  "only_agent i K d d' \<Longrightarrow> (\<And>k. K k \<Longrightarrow> K' k) \<Longrightarrow> only_agent i K' d d'"
  unfolding only_agent_def by (erule list_all2_mono) (auto simp: agent_evo_def)

lemma only_agent_same: "ad_agents d' = ad_agents d \<Longrightarrow> only_agent i K d d'"
  by (simp add: only_agent_def list.rel_refl)

text \<open>The updates of the store.\<close>

lemma checkFingerprint_only: "only_agent (ar_id a) K d (fst (checkFingerprint a fp d))"
  by (auto simp: checkFingerprint_def bind_first_def Let_def agent_evo_def split: option.split intro!: only_agent_upd)

lemma checkPubkey_only: "K pub \<Longrightarrow> only_agent (ar_id a) K d (fst (checkPubkey a pub d))"
  by (auto simp: checkPubkey_def bind_first_def Let_def agent_evo_def split: option.split intro!: only_agent_upd)

lemma checkPubkey_mismatch: "checkPubkey a pub d = (d', Bind_mismatch) \<Longrightarrow> d' = d"
  by (auto simp: checkPubkey_def bind_first_def Let_def split: option.splits if_splits)

lemma nonce_only:
  "only_agent i K d (setBindNonce i n d)" "only_agent i K d (clearBindNonce i d)" "only_agent i K d (touch i now d)"
  "only_agent i K d (setAlerts i m d)"
  by (auto simp: setBindNonce_def clearBindNonce_def touch_def setAlerts_def agent_evo_def intro!: only_agent_upd_agent)

lemma agent_record_only: "only_agent i K d (agent_record i p now d)"
proof -
  have "only_agent i K (d\<lparr> ad_samples := x \<rparr>) (upd_agent i f (d\<lparr> ad_samples := x \<rparr>))" if "\<And>r. agent_evo K r (f r)" for f x
    by (rule only_agent_upd_agent) (rule that)
  then show ?thesis
    unfolding agent_record_def only_agent_def by (simp add: agent_evo_def)
qed

lemma onSample_only: "only_agent (ar_id a) K d (fst (onSample ru a p now d))"
  by (auto simp: onSample_def Let_def nonce_only split: prod.split)

section \<open>The gates\<close>

text \<open>How a handler ends: turned_away with the state it found, or by what follows the gate.\<close>

definition turned_away :: "ing_reply \<Rightarrow> bool" where
  "turned_away r = (\<forall>x. r \<noteq> IngOk x)"

lemma turned_away_simps [simp]: "turned_away (IngError n m)" "turned_away IngCrash" "\<not> turned_away (IngOk x)"
  by (auto simp: turned_away_def)

lemma gate_cases:
  assumes "gate e token s k = (s', r)"
  obtains "s' = s" "turned_away r"
  | t a h where "token = Some t" "t \<noteq> []" "ru_enabled (ie_rules e)" "resolveToken (ie_hash e) t (in_agents s) = Some (a, h)"
      "k a = (s', r)"
  using assms by (auto simp: gate_def non_empty_def split: if_splits option.splits prod.splits)

lemma with_text_cases:
  assumes "with_text q s k = (s', r)"
  obtains "s' = s" "turned_away r" | t where "iq_text q = Some t" "k t = (s', r)"
  using assms by (auto simp: with_text_def split: option.splits)

lemma with_json_cases:
  assumes "with_json t s k = (s', r)"
  obtains "s' = s" "turned_away r" | v where "json_parse t = Some v" "v \<noteq> JNull" "k v = (s', r)"
  using assms by (auto simp: with_json_def split: option.splits if_splits)

lemma proofGate_cases:
  assumes "proofGate e a q t s k = (s', r)" "iq_text q = Some t"
  obtains "s' = s" "turned_away r"
  | s1 where "only_agent (ar_id a) (body_proof e q) (in_agents s) (in_agents s1)" "in_srt s1 = in_srt s"
      "in_edge s1 = in_edge s" "k s1 = (s', r)" "\<And>b. ar_pubkey a = Some b \<Longrightarrow> body_proof e q b \<and> s1 = s"
proof (cases "ar_pubkey a")
  case (Some b)
  show ?thesis
  proof (cases "body_proof e q b")
    case True
    then have "k s = (s', r)"
      using assms Some by (auto simp: proofGate_def Let_def body_proof_def)
    then show ?thesis
      using that(2) [of s] True Some by simp
  next
    case False
    then have "s' = s \<and> turned_away r"
      using assms Some by (auto simp: proofGate_def Let_def body_proof_def split: if_splits)
    then show ?thesis
      using that(1) by blast
  qed
next
  case None
  show ?thesis
  proof (cases "iq_pubkey q")
    case None2: None
    show ?thesis
      using assms(1) that(1) that(2) [of s] None None2 by (auto simp: proofGate_def Let_def split: if_splits)
  next
    case (Some pub)
    obtain ad b where c: "checkPubkey a pub (in_agents s) = (ad, b)"
      by fastforce
    consider "s' = s" "turned_away r"
      | "body_proof e q pub" "k (s\<lparr> in_agents := ad \<rparr>) = (s', r)"
      using assms None Some c checkPubkey_mismatch [of a pub "in_agents s" ad]
      by (auto simp: proofGate_def Let_def body_proof_def decodePubkey_def split: if_splits option.splits)
    then show ?thesis
    proof cases
      case 1
      then show ?thesis using that(1) by blast
    next
      case 2
      have "only_agent (ar_id a) (body_proof e q) (in_agents s) ad"
        using checkPubkey_only [of "body_proof e q" pub a "in_agents s"] 2(1) c by simp
      then show ?thesis
        using that(2) [of "s\<lparr> in_agents := ad \<rparr>"] 2(2) None by simp
    qed
  qed
qed

section \<open>The handlers behind the gates\<close>

lemma set_jobs_same [simp]: "in_agents (set_jobs db s) = in_agents s" "in_edge (set_jobs db s) = in_edge s"
  by (simp_all add: set_jobs_def)

lemma settle_job_agents: "in_agents (fst (settle_job e i s)) = in_agents s"
  by (simp add: settle_job_def split: prod.split sum.split)

lemma settle_then_agents: "in_agents (fst (settle_then e i b r s)) = in_agents s"
  using settle_job_agents [of e i s] by (cases "settle_job e i s") (simp add: settle_then_def)

lemma job_succeed_agents: "in_agents (fst (job_succeed e i lease body s)) = in_agents s"
  by (simp add: job_succeed_def settle_then_agents split: prod.split sum.split)

lemma job_fail_agents: "in_agents (fst (job_fail e i lease b body s)) = in_agents s"
  by (simp add: job_fail_def settle_then_agents split: prod.split sum.split)

lemma job_action_agents: "in_agents (fst (job_action e i lease action body s)) = in_agents s"
  by (simp add: job_action_def Let_def job_succeed_agents job_fail_agents split: prod.split)

lemma claim_first_agents: "in_agents (fst (claim_first e target ks s)) = in_agents s"
  by (induction e target ks s rule: claim_first.induct) (auto split: prod.split option.split)

lemma job_secrets_agents: "in_agents (fst (job_secrets e j s)) = in_agents s"
  by (simp add: job_secrets_def Let_def split: prod.split sum.split option.split)

lemma reconcile_item_agents: "in_agents (fst (reconcile_item e i item s)) = in_agents s"
  using settle_job_agents by (auto simp: reconcile_item_def split: prod.split option.split bool.split) (metis fst_conv set_jobs_same(1))+

lemma reconcile_items_agents: "in_agents (fst (reconcile_items e i items n s)) = in_agents s"
proof (induction items arbitrary: n s)
  case (Cons x items)
  obtain s' b where "reconcile_item e i x s = (s', b)"
    by fastforce
  then show ?case
    using Cons reconcile_item_agents [of e i x s] by (auto split: option.split)
qed simp

section \<open>One request\<close>

definition presented :: "endpoint \<Rightarrow> ing_request \<Rightarrow> string option" where
  "presented ep q = (if ep = To_handshake \<or> ep = To_hello
     then Option.bind (Option.bind (iq_text q) json_parse) (text_field ''token'') else bearerToken (iq_auth q))"

definition caller :: "ienv \<Rightarrow> endpoint \<Rightarrow> ing_request \<Rightarrow> ingress \<Rightarrow> agent_row option" where
  "caller e ep q s = Option.bind (presented ep q) (\<lambda>t. map_option fst (resolveToken (ie_hash e) t (in_agents s)))"

abbreviation key_proofs :: "ienv \<Rightarrow> ing_request \<Rightarrow> agent_row \<Rightarrow> string \<Rightarrow> bool" where
  "key_proofs e q a k \<equiv> body_proof e q k \<or> nonce_proof e q (ar_bindNonce a) k"

lemma gate_caller:
  assumes "gate e (presented ep q) s k = (s', r)"
  obtains "s' = s" "turned_away r" | a where "caller e ep q s = Some a" "ru_enabled (ie_rules e)" "k a = (s', r)"
  using assms by (rule gate_cases) (auto simp: caller_def)

lemma decodePubkey_SomeD:
  "decodePubkey k v = Some raw \<Longrightarrow> v = Some (JStr (base64 raw)) \<and> raw = kr_unbase64 k (base64 raw)"
  by (auto simp: decodePubkey_def Let_def split: option.splits json.splits if_splits)

lemma hello_key_only:
  assumes "hello_key e a nonce fresh body s = (s', r)" "Option.bind (iq_text q) json_parse = Some body"
  shows "only_agent (ar_id a) (nonce_proof e q nonce) (in_agents s) (in_agents s')"
proof (cases "in_agents s' = in_agents s")
  case False
  then obtain raw n where d: "decodePubkey (ie_ring e) (jmember ''pubkey'' body) = Some raw" "nonce = Some n"
      "verifyAgentSig e raw (kr_unbase64 (ie_ring e) n) (jmember ''proof'' body)"
      "in_agents s' = fst (checkPubkey a (base64 raw) (in_agents s))"
    using assms(1) by (auto simp: hello_key_def Let_def split: option.splits if_splits prod.splits)
  then show ?thesis
    using decodePubkey_SomeD [OF d(1)] assms(2) checkPubkey_only [of "nonce_proof e q nonce" "base64 raw" a "in_agents s"]
    by (simp add: nonce_proof_def)
qed simp

lemma hello_agent_only:
  assumes "hello_agent e body a s = (s', r)" "Option.bind (iq_text q) json_parse = Some body"
  shows "only_agent (ar_id a) (nonce_proof e q (ar_bindNonce a)) (in_agents s) (in_agents s')"
proof -
  let ?K = "nonce_proof e q (ar_bindNonce a)"
  define s1 where "s1 = (if keyed_hello body then s\<lparr> in_agents := clearBindNonce (ar_id a) (in_agents s) \<rparr> else s)"
  define fp where "fp = take 128 (str_or_empty (jmember ''fingerprint'' body))"
  obtain ad check where c: "checkFingerprint a fp (in_agents s1) = (ad, check)"
    by fastforce
  have 1: "only_agent (ar_id a) ?K (in_agents s) (in_agents s1)"
    by (simp add: s1_def nonce_only)
  have 2: "only_agent (ar_id a) ?K (in_agents s1) ad"
    using checkFingerprint_only [of a ?K "in_agents s1" fp] c by simp
  consider "in_agents s' = ad"
    | "hello_key e a (ar_bindNonce a) (check = Bind_bound) body (s\<lparr> in_agents := ad \<rparr>) = (s', r)"
    using assms(1) c unfolding hello_agent_def
    by (auto simp: Let_def s1_def simp flip: fp_def split: if_splits)
  then show ?thesis
  proof cases
    case 1
    then show ?thesis using only_agent_trans [OF \<open>only_agent _ _ _ (in_agents s1)\<close> 2] by simp
  next
    case 2
    then show ?thesis
      using hello_key_only [OF 2 assms(2)] only_agent_trans [OF 1 \<open>only_agent _ _ _ ad\<close>]
      by (auto intro: only_agent_trans)
  qed
qed

lemma ingest_payload_only: "only_agent (ar_id a) K (in_agents s) (in_agents (fst (ingest_payload e a p s)))"
proof -
  obtain ad c where c: "checkFingerprint a (pl_fingerprint p) (in_agents s) = (ad, c)"
    by fastforce
  obtain ad2 fired where f: "(if pl_backfill p then (agent_record (ar_id a) p (ie_now e) ad, [])
      else onSample (ie_rules e) a p (ie_now e) (agent_record (ar_id a) p (ie_now e) ad)) = (ad2, fired)"
    by fastforce
  have 1: "only_agent (ar_id a) K (in_agents s) ad"
    using checkFingerprint_only [of a K "in_agents s"] c by (metis fst_conv)
  have 2: "only_agent (ar_id a) K ad (agent_record (ar_id a) p (ie_now e) ad)"
    by (rule agent_record_only)
  have 3: "only_agent (ar_id a) K (agent_record (ar_id a) p (ie_now e) ad) ad2"
    using f onSample_only [of a K _ "ie_rules e" p "ie_now e"] by (metis fst_conv only_agent_refl)
  show ?thesis
    using 1 only_agent_trans [OF only_agent_trans [OF 1 2] 3] c f
    by (simp add: ingest_payload_def Let_def)
qed

text \<open>What may happen behind the proof gate when the handler leaves the registry alone afterwards.\<close>

lemma proofGate_only:
  assumes "proofGate e a q t s k = (s', r)" "iq_text q = Some t"
    and "\<And>s1. only_agent (ar_id a) (body_proof e q) (in_agents s1) (in_agents (fst (k s1)))"
  shows "only_agent (ar_id a) (body_proof e q) (in_agents s) (in_agents s')"
  using assms(1,2)
proof (rule proofGate_cases)
  fix s1
  assume "only_agent (ar_id a) (body_proof e q) (in_agents s) (in_agents s1)" "k s1 = (s', r)"
  then show ?thesis
    using assms(3) [of s1] by (auto intro: only_agent_trans)
qed simp

lemma with_json_only:
  assumes "\<And>v. only_agent i K (in_agents s) (in_agents (fst (k v)))"
  shows "only_agent i K (in_agents s) (in_agents (fst (with_json t s k)))"
  using assms by (simp add: with_json_def split: option.split)

lemma post_handshake_only:
  assumes "serve e To_handshake q s = (s', r)"
  shows "s' = s \<and> turned_away r \<or> (\<exists>a. caller e To_handshake q s = Some a \<and> only_agent (ar_id a) K (in_agents s) (in_agents s'))"
proof -
  have "post_handshake e q s = (s', r)"
    using assms by (simp add: serve_def)
  then show ?thesis
    unfolding post_handshake_def
  proof (elim with_text_cases with_json_cases)
    fix t v
    assume p: "iq_text q = Some t" "json_parse t = Some v"
      and k: "(let token = text_field ''token'' v in gate e token s (\<lambda>a.
       let nonce = base64 (ie_nonce e);
           s1 = s\<lparr> in_agents := setBindNonce (ar_id a) nonce (in_agents s) \<rparr>;
           (ks, sig) = signToken (ie_ring e) (ie_draw e) (ie_rnd e) (or_default token []) (in_keys s1);
           (ks', pub) = publicKeyB64 (ie_ring e) (ie_draw e) (ie_rnd e) ks
       in (s1\<lparr> in_keys := ks' \<rparr>, IngOk (Ans_handshake sig pub nonce)))) = (s', r)"
    have tk: "text_field ''token'' v = presented To_handshake q"
      using p by (simp add: presented_def)
    show ?thesis
      using k unfolding Let_def tk
      by (rule gate_caller) (auto simp: nonce_only split: prod.splits)
  qed auto
qed

lemma post_hello_only:
  assumes "serve e To_hello q s = (s', r)"
  shows "s' = s \<and> turned_away r \<or>
    (\<exists>a. caller e To_hello q s = Some a \<and> only_agent (ar_id a) (nonce_proof e q (ar_bindNonce a)) (in_agents s) (in_agents s'))"
proof -
  have "post_hello e q s = (s', r)"
    using assms by (simp add: serve_def)
  then show ?thesis
    unfolding post_hello_def
  proof (elim with_text_cases with_json_cases)
    fix t v
    assume p: "iq_text q = Some t" "json_parse t = Some v"
      and k: "gate e (text_field ''token'' v) s (\<lambda>a. hello_agent e v a s) = (s', r)"
    have tk: "text_field ''token'' v = presented To_hello q"
      using p by (simp add: presented_def)
    have b: "Option.bind (iq_text q) json_parse = Some v"
      using p by simp
    show ?thesis
      using k unfolding tk by (rule gate_caller) (use hello_agent_only [OF _ b] in auto)
  qed auto
qed

lemma bearer_presented: "ep \<notin> {To_handshake, To_hello} \<Longrightarrow> bearerToken (iq_auth q) = presented ep q"
  by (auto simp: presented_def)

text \<open>The endpoints that take a bearer token and, the edge report excepted, pass the proof gate.\<close>

lemma gated:
  assumes "gate e (presented ep q) s (\<lambda>a. with_text q s (\<lambda>t. proofGate e a q t s (k a t))) = (s', r)"
    and "\<And>a t s1. only_agent (ar_id a) (body_proof e q) (in_agents s1) (in_agents (fst (k a t s1)))"
  obtains "s' = s" "turned_away r"
  | a t k where "caller e ep q s = Some a" "iq_text q = Some t" "proofGate e a q t s k = (s', r)"
      "\<And>s1. only_agent (ar_id a) (body_proof e q) (in_agents s1) (in_agents (fst (k s1)))"
  using assms(1)
proof (rule gate_caller)
  fix a
  assume a: "caller e ep q s = Some a" and "with_text q s (\<lambda>t. proofGate e a q t s (k a t)) = (s', r)"
  from this(2) show ?thesis
    by (rule with_text_cases) (use a assms(2) that in blast)+
qed (rule that(1))

lemma ignored_gate: "gate e tk s (\<lambda>a. (s, IngError n m)) = (s', r) \<Longrightarrow> s' = s \<and> turned_away r"
  by (auto simp: gate_def split: option.splits if_splits)

lemma keyed_endpoints:
  assumes "serve e ep q s = (s', r)" "ep \<in> {To_metrics, To_claim, To_job, To_secrets, To_reconcile}"
  obtains "s' = s" "turned_away r"
  | a t k where "caller e ep q s = Some a" "iq_text q = Some t" "proofGate e a q t s k = (s', r)"
      "\<And>s1. only_agent (ar_id a) (body_proof e q) (in_agents s1) (in_agents (fst (k s1)))"
proof -
  note same = claim_first_agents job_action_agents job_secrets_agents reconcile_items_agents
  have tk: "bearerToken (iq_auth q) = presented ep q"
    using assms(2) by (auto simp: presented_def)
  consider k where "gate e (presented ep q) s (\<lambda>a. with_text q s (\<lambda>t. proofGate e a q t s (k a t))) = (s', r)"
      "\<And>a t s1. only_agent (ar_id a) (body_proof e q) (in_agents s1) (in_agents (fst (k a t s1)))"
    | n m where "gate e (presented ep q) s (\<lambda>a. (s, IngError n m)) = (s', r)"
  proof -
    consider "ep = To_metrics" | "ep = To_claim" | "ep = To_job" | "ep = To_secrets" | "ep = To_reconcile"
      using assms(2) by blast
    then show thesis
    proof cases
      case 1
      show thesis
        using assms(1) unfolding 1 serve_def endpoint.case post_metrics_def tk [unfolded 1]
        by (rule that(1) [unfolded 1]) (auto simp: ingest_payload_only split: option.split)
    next
      case 2
      show thesis
        using assms(1) unfolding 2 serve_def endpoint.case post_claim_def tk [unfolded 2]
        by (rule that(1) [unfolded 2]) (auto intro!: with_json_only simp: same)
    next
      case 3
      show thesis
        using assms(1) unfolding 3 serve_def endpoint.case post_job_def tk [unfolded 3]
        by (cases "job_param (iq_param q)", simp_all add: that(2) [unfolded 3], elim that(1) [unfolded 3])
          (auto intro!: with_json_only simp: same Let_def)
    next
      case 4
      show thesis
        using assms(1) unfolding 4 serve_def endpoint.case post_secrets_def tk [unfolded 4]
        by (cases "job_param (iq_param q)", simp_all add: that(2) [unfolded 4], elim that(1) [unfolded 4])
          (auto intro!: with_json_only simp: same Let_def split: option.split)
    next
      case 5
      show thesis
        using assms(1) unfolding 5 serve_def endpoint.case post_reconcile_def tk [unfolded 5]
        by (rule that(1) [unfolded 5]) (auto intro!: with_json_only simp: same)
    qed
  qed
  then show ?thesis
  proof cases
    case 1
    then show ?thesis using that by (rule gated) auto
  next
    case 2
    then show ?thesis using that(1) ignored_gate by blast
  qed
qed

lemma post_edge_only:
  assumes "serve e To_edge q s = (s', r)"
  shows "s' = s \<and> turned_away r \<or> (\<exists>a. caller e To_edge q s = Some a \<and> only_agent (ar_id a) K (in_agents s) (in_agents s'))"
proof -
  have "gate e (presented To_edge q) s (\<lambda>a. with_text q s (\<lambda>t.
     case json_parse t of None \<Rightarrow> (s, IngError 400 ''expected a JSON body'')
     | Some v \<Rightarrow> (case ie_report e v of None \<Rightarrow> (s, IngError 422 ''invalid report'')
         | Some rp \<Rightarrow>
             if \<bar>er_ts rp - ie_now e\<bar> > MAX_SKEW_MS then (s, IngError 422 ''report timestamp out of accepted window'')
             else (s\<lparr> in_edge := edge_record (ar_id a) rp (in_edge s),
                     in_agents := touch (ar_id a) (ie_now e) (in_agents s) \<rparr>, IngOk (Ans_ok True))))) = (s', r)"
    using assms by (simp add: serve_def post_edge_def presented_def)
  then show ?thesis
    by (elim gate_caller with_text_cases) (auto simp: nonce_only split: option.splits if_splits)
qed

lemma serve_effect:
  assumes "serve e ep q s = (s', r)"
  shows "s' = s \<and> turned_away r \<or>
    (\<exists>a. caller e ep q s = Some a \<and> only_agent (ar_id a) (key_proofs e q a) (in_agents s) (in_agents s'))"
proof -
  consider "ep = To_handshake" | "ep = To_hello" | "ep = To_edge"
    | "ep \<in> {To_metrics, To_claim, To_job, To_secrets, To_reconcile}"
    by (cases ep) auto
  then show ?thesis
  proof cases
    case 1
    then show ?thesis
      using post_handshake_only [of e q s s' r "\<lambda>_. False"] assms by (auto intro: only_agent_weaken)
  next
    case 2
    then show ?thesis
      using post_hello_only [of e q s s' r] assms by (auto intro: only_agent_weaken)
  next
    case 3
    then show ?thesis
      using post_edge_only [of e q s s' r "\<lambda>_. False"] assms by (auto intro: only_agent_weaken)
  next
    case 4
    show ?thesis
      using assms 4
    proof (rule keyed_endpoints)
      fix a t k
      assume "caller e ep q s = Some a" "proofGate e a q t s k = (s', r)" "iq_text q = Some t"
        "\<And>s1. only_agent (ar_id a) (body_proof e q) (in_agents s1) (in_agents (fst (k s1)))"
      then show ?thesis
        by (auto intro: only_agent_weaken [OF proofGate_only])
    qed simp
  qed
qed

text \<open>
  C18. One request, of any kind.  When the token it presents names no live agent, it is turned_away and
  nothing changes.  Otherwise only the row of that agent can change, and there the identity, the
  token and the revocation stay, a fingerprint that is set stays, and so does a key; a key appears only
  if this request carries a valid signature under it, over its body or over the nonce that the last
  handshake stored.
\<close>

theorem request_effect:
  "case caller e ep q s of
     None \<Rightarrow> fst (serve e ep q s) = s \<and> turned_away (snd (serve e ep q s))
   | Some a \<Rightarrow> only_agent (ar_id a) (key_proofs e q a) (in_agents s) (in_agents (fst (serve e ep q s)))"
proof -
  obtain s' r where "serve e ep q s = (s', r)"
    by fastforce
  then show ?thesis
    using serve_effect [of e ep q s s' r] by (auto split: option.split)
qed

section \<open>A registration with a key\<close>

lemma hello_key_turned_away:
  assumes "hello_key e a nonce fresh body s = (s', r)" "Option.bind (iq_text q) json_parse = Some body"
    "ar_pubkey a = Some k" "\<not> nonce_proof e q nonce k"
  shows "turned_away r \<and> s' = s"
proof -
  have "k = base64 raw" if "snd (checkPubkey a (base64 raw) (in_agents s)) \<noteq> Bind_mismatch" for raw
    using that assms(3) by (auto simp: checkPubkey_def bind_first_def split: if_splits)
  then have no: "snd (checkPubkey a (base64 raw) (in_agents s)) = Bind_mismatch"
    if "decodePubkey (ie_ring e) (jmember ''pubkey'' body) = Some raw" "nonce = Some n"
      "verifyAgentSig e raw (kr_unbase64 (ie_ring e) n) (jmember ''proof'' body)" for raw n
    using that decodePubkey_SomeD [OF that(1)] assms(2,4) by (force simp: nonce_proof_def)
  have keep: "fst (checkPubkey a v (in_agents s)) = in_agents s" for v
    using assms(3) by (simp add: checkPubkey_def bind_first_def)
  show ?thesis
  proof (cases "turned_away r \<and> s' = s")
    case False
    then obtain raw n where d: "decodePubkey (ie_ring e) (jmember ''pubkey'' body) = Some raw" "nonce = Some n"
        "verifyAgentSig e raw (kr_unbase64 (ie_ring e) n) (jmember ''proof'' body)"
      using assms(1) by (auto simp: hello_key_def split: option.splits if_splits)
    obtain ad b where c: "checkPubkey a (base64 raw) (in_agents s) = (ad, b)" by fastforce
    have "b = Bind_mismatch" "ad = in_agents s" using no [OF d] keep [of "base64 raw"] c by simp_all
    then have "hello_key e a nonce fresh body s = (s\<lparr> in_agents := in_agents s \<rparr>,
        IngError 403 ''agent key mismatch: this token is bound to another key'')"
      using c d unfolding hello_key_def by (simp add: Let_def)
    with assms(1) show ?thesis by auto
  qed simp
qed

text \<open>
  What a hello does to the registry whatever its proof: the nonce is cleared when the body has a key, and
  the fingerprint is bound when the registration has none.
\<close>

definition hello_marks :: "agent_row \<Rightarrow> json \<Rightarrow> agents_db \<Rightarrow> agents_db" where
  "hello_marks a body d = fst (checkFingerprint a (take 128 (str_or_empty (jmember ''fingerprint'' body)))
     (if keyed_hello body then clearBindNonce (ar_id a) d else d))"

lemma hello_agent_turned_away:
  assumes "hello_agent e body a s = (s', r)" "Option.bind (iq_text q) json_parse = Some body"
    "ar_pubkey a = Some k" "\<not> nonce_proof e q (ar_bindNonce a) k"
  shows "turned_away r \<and> s' = s\<lparr> in_agents := hello_marks a body (in_agents s) \<rparr>"
proof -
  let ?s1 = "if keyed_hello body then s\<lparr> in_agents := clearBindNonce (ar_id a) (in_agents s) \<rparr> else s"
  obtain ad check where c: "checkFingerprint a (take 128 (str_or_empty (jmember ''fingerprint'' body))) (in_agents ?s1)
      = (ad, check)" by fastforce
  have s1: "?s1\<lparr> in_agents := ad \<rparr> = s\<lparr> in_agents := ad \<rparr>" by simp
  have "hello_marks a body (in_agents s) = ad" using c by (simp add: hello_marks_def split: if_splits)
  moreover have "turned_away r \<and> s' = s\<lparr> in_agents := ad \<rparr>"
    using assms(1) hello_key_turned_away [OF _ assms(2-4)] assms(3) c
    unfolding hello_agent_def Let_def by (auto simp: s1 split: if_splits)
  ultimately show ?thesis by simp
qed

lemma proofGate_bound:
  assumes "proofGate e a q t s k = (s', r)" "iq_text q = Some t" "ar_pubkey a = Some b" "\<not> body_proof e q b"
  shows "s' = s \<and> turned_away r"
  using assms(1,2) by (rule proofGate_cases) (use assms(3,4) in auto)

lemma post_hello_bound:
  assumes "serve e To_hello q s = (s', r)" "caller e To_hello q s = Some a" "ar_pubkey a = Some k"
    "\<not> nonce_proof e q (ar_bindNonce a) k"
  shows "turned_away r \<and> (s' = s \<or> (\<exists>body. Option.bind (iq_text q) json_parse = Some body \<and>
    s' = s\<lparr> in_agents := hello_marks a body (in_agents s) \<rparr>))"
proof -
  have "post_hello e q s = (s', r)"
    using assms(1) by (simp add: serve_def)
  then show ?thesis
    unfolding post_hello_def
  proof (elim with_text_cases with_json_cases)
    fix t v
    assume p: "iq_text q = Some t" "json_parse t = Some v"
      and k: "gate e (text_field ''token'' v) s (\<lambda>a. hello_agent e v a s) = (s', r)"
    have tk: "text_field ''token'' v = presented To_hello q"
      using p by (simp add: presented_def)
    have b: "Option.bind (iq_text q) json_parse = Some v"
      using p by simp
    show ?thesis
      using k unfolding tk by (rule gate_caller) (use hello_agent_turned_away [OF _ b] assms(2-4) b in auto)
  qed auto
qed

lemma post_handshake_bound:
  assumes "serve e To_handshake q s = (s', r)" "caller e To_handshake q s = Some a"
  shows "s' = s \<and> turned_away r \<or> (\<exists>ks sig pub. r = IngOk (Ans_handshake sig pub (base64 (ie_nonce e))) \<and>
    s' = s\<lparr> in_agents := setBindNonce (ar_id a) (base64 (ie_nonce e)) (in_agents s), in_keys := ks \<rparr>)"
proof -
  have "post_handshake e q s = (s', r)"
    using assms(1) by (simp add: serve_def)
  then show ?thesis
    unfolding post_handshake_def
  proof (elim with_text_cases with_json_cases)
    fix t v
    assume p: "iq_text q = Some t" "json_parse t = Some v"
      and k: "(let token = text_field ''token'' v in gate e token s (\<lambda>a.
       let nonce = base64 (ie_nonce e);
           s1 = s\<lparr> in_agents := setBindNonce (ar_id a) nonce (in_agents s) \<rparr>;
           (ks, sig) = signToken (ie_ring e) (ie_draw e) (ie_rnd e) (or_default token []) (in_keys s1);
           (ks', pub) = publicKeyB64 (ie_ring e) (ie_draw e) (ie_rnd e) ks
       in (s1\<lparr> in_keys := ks' \<rparr>, IngOk (Ans_handshake sig pub nonce)))) = (s', r)"
    have tk: "text_field ''token'' v = presented To_handshake q"
      using p by (simp add: presented_def)
    show ?thesis
      using k unfolding Let_def tk by (rule gate_caller) (use assms(2) in \<open>auto split: prod.splits\<close>)
  qed auto
qed

lemma post_edge_bound:
  assumes "caller e To_edge q s = Some a"
  shows "fst (serve e To_edge q s) = s \<or> (\<exists>r. fst (serve e To_edge q s) = s\<lparr> in_edge := edge_record (ar_id a) r (in_edge s),
    in_agents := touch (ar_id a) (ie_now e) (in_agents s) \<rparr>)"
proof -
  obtain s' r where "post_edge e q s = (s', r)" by fastforce
  then have "s' = s \<or> (\<exists>r. s' = s\<lparr> in_edge := edge_record (ar_id a) r (in_edge s),
      in_agents := touch (ar_id a) (ie_now e) (in_agents s) \<rparr>)"
    unfolding post_edge_def bearer_presented [of To_edge, simplified]
    by (rule gate_caller) (use assms in \<open>auto elim!: with_text_cases split: option.splits if_splits\<close>)
  with \<open>post_edge e q s = (s', r)\<close> show ?thesis by (simp add: serve_def)
qed

text \<open>
  C13. What the token of a registration that is bound to a key \<open>k\<close> can do on each endpoint without a proof
  of \<open>k\<close>.  Without a signature under \<open>k\<close> over the exact body, the metrics, claim, job, secrets and
  reconcile endpoints refuse and change nothing at all.  Three endpoints do act on the token alone, and
  this is all they do: a handshake sets the challenge nonce of that row (the hub's key pair may be made
  or read for its answer); a hello without a signature under \<open>k\<close> over the nonce of the last handshake is
  refused, but it clears the nonce when its body has a key, and binds the fingerprint when the
  registration has none yet; an edge report is stored and marks the agent as seen, whatever the key
  and proof headers are.
\<close>

theorem bound_key_required:
  assumes "caller e ep q s = Some a" "ar_pubkey a = Some k"
  shows "case ep of
      To_handshake \<Rightarrow> fst (serve e ep q s) = s \<and> turned_away (snd (serve e ep q s)) \<or>
        (\<exists>ks sig pub. serve e ep q s =
          (s\<lparr> in_agents := setBindNonce (ar_id a) (base64 (ie_nonce e)) (in_agents s), in_keys := ks \<rparr>,
           IngOk (Ans_handshake sig pub (base64 (ie_nonce e)))))
    | To_edge \<Rightarrow> serve e ep (q\<lparr> iq_pubkey := x, iq_proof := y \<rparr>) s = serve e ep q s \<and>
        (fst (serve e ep q s) = s \<or> (\<exists>r. fst (serve e ep q s) =
          s\<lparr> in_edge := edge_record (ar_id a) r (in_edge s), in_agents := touch (ar_id a) (ie_now e) (in_agents s) \<rparr>))
    | To_hello \<Rightarrow> nonce_proof e q (ar_bindNonce a) k \<or> (turned_away (snd (serve e ep q s)) \<and>
        (fst (serve e ep q s) = s \<or> (\<exists>body. Option.bind (iq_text q) json_parse = Some body \<and>
           fst (serve e ep q s) = s\<lparr> in_agents := hello_marks a body (in_agents s) \<rparr>)))
    | _ \<Rightarrow> body_proof e q k \<or> (fst (serve e ep q s) = s \<and> turned_away (snd (serve e ep q s)))"
proof -
  have *: "body_proof e q k \<or> s' = s \<and> turned_away r"
    if "serve e ep q s = (s', r)" "ep \<in> {To_metrics, To_claim, To_job, To_secrets, To_reconcile}" for s' r
    using that by (rule keyed_endpoints) (use proofGate_bound assms in auto)
  note whole = prod.collapse [symmetric, of "serve e ep q s"]
  have edge: "serve e To_edge (q\<lparr> iq_pubkey := x, iq_proof := y \<rparr>) s = serve e To_edge q s"
    by (simp add: serve_def post_edge_def with_text_def)
  show ?thesis
  proof (cases ep)
    case To_handshake
    then show ?thesis using post_handshake_bound [of e q s _ _ a, OF whole [unfolded To_handshake]] assms(1)
      by (auto simp: prod_eq_iff)
  next
    case To_hello
    then show ?thesis
      using post_hello_bound [of e q s _ _ a k, OF whole [unfolded To_hello] _ assms(2)] assms(1) by auto
  next
    case To_edge
    then show ?thesis using edge post_edge_bound [of e q s a] assms(1) by simp
  qed (use * [OF whole] in simp_all)
qed

definition demo_ring :: keyring where
  "demo_ring = \<lparr> kr_sign = (\<lambda>p m. p @ map char_of m), kr_pub = map of_char, kr_seal = (\<lambda>x. ''v1.'' @ x),
     kr_open = (\<lambda>x. Some (drop 3 x)), kr_hex = map char_of, kr_unhex = map of_char, kr_unbase64 = map of_char,
     kr_utf8 = map of_char \<rparr>"

definition demo_ienv :: ienv where
  "demo_ienv = \<lparr> ie_now = 5000, ie_hash = (\<lambda>t. t), ie_ring = demo_ring,
     ie_verify = (\<lambda>pub msg sig. map of_char sig = pub @ msg), ie_draw = ''P0'', ie_rnd = [1], ie_nonce = [2],
     ie_lease = ''lease'', ie_rules = \<lparr> ru_enabled = True, ru_offline_minutes = 5, ru_cpu_pct = 90, ru_mem_pct = 90, ru_disk_pct = 0 \<rparr>,
     ie_payload = (\<lambda>_. None),
     ie_report = (\<lambda>_. Some \<lparr> er_ts = 5000, er_windowSec = 60, er_requests = 9, er_s2xx = 9, er_s3xx = 0, er_s4xx = 0,
        er_s5xx = 0, er_errors = 0, er_json = ''{}'' \<rparr>),
     ie_fenv = demo_fenv, ie_locale = (\<le>), ie_ids = (\<lambda>n. ''rec'') \<rparr>"

definition demo_agent :: agent_db_row where
  "demo_agent = (new_agent ''ag_1'' ''web'' ''token-one'' 0 None)\<lparr> ag_fingerprint := Some ''fp'', ag_pubkey := Some ''K1'' \<rparr>"

definition demo_ingress :: ingress where
  "demo_ingress = \<lparr> in_agents = \<lparr> ad_agents = [demo_agent], ad_samples = [] \<rparr>, in_edge = [],
     in_keys = \<lparr> ks_row = None, ks_cache = None \<rparr>, in_srt = \<lparr> srt_rt = demo_runtime, srt_scans = no_scans \<rparr>, in_fired = [] \<rparr>"

definition demo_stolen :: ing_request where
  "demo_stolen = \<lparr> iq_auth = Some ''Bearer token-one'', iq_pubkey = None, iq_proof = None, iq_text = Some ''{}'', iq_param = ''1'' \<rparr>"

lemma demo_caller: "ep \<in> {To_claim, To_edge} \<Longrightarrow> caller demo_ienv ep demo_stolen demo_ingress = Some (agent_toRow demo_agent)"
  by (auto simp: caller_def presented_def) code_simp+

theorem bound_key_required_witness:
  "fst (serve demo_ienv To_claim demo_stolen demo_ingress) = demo_ingress \<and>
   turned_away (snd (serve demo_ienv To_claim demo_stolen demo_ingress)) \<and>
   snd (serve demo_ienv To_edge (demo_stolen\<lparr> iq_pubkey := Some ''K2'', iq_proof := None \<rparr>) demo_ingress) = IngOk (Ans_ok True)"
proof -
  have k: "ar_pubkey (agent_toRow demo_agent) = Some ''K1''"
    by (simp add: agent_toRow_def demo_agent_def)
  have "\<not> body_proof demo_ienv demo_stolen ''K1''"
    by (simp add: body_proof_def demo_stolen_def)
  moreover have "snd (serve demo_ienv To_edge demo_stolen demo_ingress) = IngOk (Ans_ok True)"
    by code_simp
  ultimately show ?thesis
    using bound_key_required [OF demo_caller k, of To_claim] bound_key_required [OF demo_caller k, where ep = To_edge and x = "Some ''K2''" and y = None]
    by simp
qed

section \<open>Bindings in a run\<close>

text \<open>
  What happens to the registry: the requests of agents, and the operators' registrations, renames,
  revocations, mutes, token rotations and removals, the silence detector and pruning.  A step that
  ends the binding of an agent on purpose, rotating its token or removing it, is labelled with it.
\<close>

inductive ing_step :: "string option \<Rightarrow> ingress \<Rightarrow> ingress \<Rightarrow> bool" where
  request: "serve e ep q s = (s', r) \<Longrightarrow> ing_step None s s'"
| register: "agent_create hash j token name by_user now (in_agents s) = Some (ad, x) \<Longrightarrow> ing_step None s (s\<lparr> in_agents := ad \<rparr>)"
| rename: "agent_rename j name (in_agents s) = Some ad \<Longrightarrow> ing_step None s (s\<lparr> in_agents := ad \<rparr>)"
| revoke: "ing_step None s (s\<lparr> in_agents := agent_revoke j now (in_agents s) \<rparr>)"
| mute: "ing_step None s (s\<lparr> in_agents := setMutedUntil j t (in_agents s) \<rparr>)"
| rotate: "agent_rotate hash j token (in_agents s) = Some ad \<Longrightarrow> ing_step (Some j) s (s\<lparr> in_agents := ad \<rparr>)"
| remove: "ing_step (Some j) s (s\<lparr> in_agents := agent_remove j (in_agents s) \<rparr>)"
| tick: "alert_tick ru now (in_agents s) = (ad, fired) \<Longrightarrow> ing_step None s (s\<lparr> in_agents := ad, in_fired := in_fired s @ fired \<rparr>)"
| prune: "ing_step None s (s\<lparr> in_agents := prune_samples t (in_agents s) \<rparr>)"

text \<open>A step that does not end the binding of the agent \<open>i\<close>.\<close>

definition spares :: "string \<Rightarrow> ingress \<Rightarrow> ingress \<Rightarrow> bool" where
  "spares i s s' \<longleftrightarrow> (\<exists>l. l \<noteq> Some i \<and> ing_step l s s')"

definition registry_ok :: "agents_db \<Rightarrow> bool" where
  "registry_ok d = (unique_on ag_id (ad_agents d) \<and> unique_on ag_token_hash (ad_agents d))"

text \<open>The later row of an agent has the token of the earlier one and whatever was bound there.\<close>

definition keeps_bound :: "agent_db_row \<Rightarrow> agent_db_row \<Rightarrow> bool" where
  "keeps_bound r r' = (ag_id r' = ag_id r \<and> ag_token_hash r' = ag_token_hash r \<and>
     (ag_fingerprint r \<noteq> None \<longrightarrow> ag_fingerprint r' = ag_fingerprint r) \<and>
     (ag_pubkey r \<noteq> None \<longrightarrow> ag_pubkey r' = ag_pubkey r) \<and> (ag_revoked_at r \<noteq> None \<longrightarrow> ag_revoked_at r' \<noteq> None))"

lemma keeps_bound_refl [simp]: "keeps_bound r r"
  by (simp add: keeps_bound_def)

lemma keeps_bound_trans: "keeps_bound r r' \<Longrightarrow> keeps_bound r' r'' \<Longrightarrow> keeps_bound r r''"
  by (auto simp: keeps_bound_def)

lemma only_agent_keeps: "only_agent i K d d' \<Longrightarrow> list_all2 keeps_bound (ad_agents d) (ad_agents d')"
  unfolding only_agent_def by (erule list_all2_mono) (auto simp: agent_evo_def keeps_bound_def)

lemma upd_agent_keeps: "(\<And>r. keeps_bound r (f r)) \<Longrightarrow> list_all2 keeps_bound (ad_agents d) (ad_agents (upd_agent j f d))"
  by (simp add: upd_agent_def upd_where_def list_all2_map2 list.rel_refl)

lemma keeps_map:
  assumes "list_all2 keeps_bound t t'"
  shows "map ag_id t' = map ag_id t" "map ag_token_hash t' = map ag_token_hash t"
  using assms by (induction t t') (auto simp: keeps_bound_def)

lemma keeps_registry:
  assumes "list_all2 keeps_bound (ad_agents d) (ad_agents d')" "registry_ok d"
  shows "registry_ok d'" "r \<in> set (ad_agents d) \<Longrightarrow> \<exists>r' \<in> set (ad_agents d'). keeps_bound r r'"
proof -
  show "registry_ok d'"
    using assms(2) keeps_map [OF assms(1)] by (simp add: registry_ok_def unique_on_def)
  show "r \<in> set (ad_agents d) \<Longrightarrow> \<exists>r' \<in> set (ad_agents d'). keeps_bound r r'"
    using assms(1) by (fastforce simp: list_all2_conv_all_nth in_set_conv_nth)
qed

lemma tick_keeps: "list_all2 keeps_bound (ad_agents d) (ad_agents (fst (fold (tick_agent ru now) as (d, fired))))"
proof (induction "as" arbitrary: d fired)
  case (Cons a as)
  have keep: "list_all2 keeps_bound (ad_agents d) (ad_agents (fst (tick_agent ru now a (d, fired))))"
    by (auto simp: tick_agent_def setAlerts_def keeps_bound_def list.rel_refl upd_agent_keeps split: option.split)
  obtain d1 f1 where t: "tick_agent ru now a (d, fired) = (d1, f1)"
    by fastforce
  show ?case
    using list_all2_trans [OF keeps_bound_trans keep [unfolded t fst_conv] Cons.IH [of d1 f1]] t by simp
qed (simp add: list.rel_refl)

lemma agent_create_Some:
  assumes "agent_create hash j token name u now d = Some (ad, x)" "registry_ok d"
  shows "registry_ok ad" "set (ad_agents d) \<subseteq> set (ad_agents ad)"
  using assms by (auto simp: agent_create_def registry_ok_def unique_on_snoc new_agent_def split: if_splits)

lemma rekeyed_unique:
  assumes "unique_on ag_id t" "unique_on ag_token_hash t" "\<And>r. ag_token_hash (f r) = h"
    "\<And>r. r \<in> set t \<Longrightarrow> ag_id r \<noteq> i \<Longrightarrow> ag_token_hash r \<noteq> h"
  shows "unique_on ag_token_hash (map (\<lambda>r. if ag_id r = i then f r else r) t)"
  using assms(1,2,4)
proof (induction t)
  case (Cons a t)
  let ?g = "\<lambda>r. if ag_id r = i then f r else r"
  have IH: "unique_on ag_token_hash (map ?g t)"
    using Cons by (simp add: unique_on_def)
  have "ag_token_hash (?g a) \<noteq> ag_token_hash (?g r)" if r: "r \<in> set t" for r
  proof -
    have "ag_id a \<noteq> ag_id r" "ag_token_hash a \<noteq> ag_token_hash r"
      using Cons.prems(1,2) r by (simp_all add: unique_on_def image_iff)
    then show ?thesis using Cons.prems(3) [of a] Cons.prems(3) [of r] assms(3) r by auto
  qed
  then have "ag_token_hash (?g a) \<notin> set (map ag_token_hash (map ?g t))" unfolding set_map by blast
  with IH show ?case unfolding unique_on_def list.map distinct.simps by blast
qed (simp add: unique_on_def)

lemma agent_rotate_Some:
  assumes "agent_rotate hash i token d = Some ad" "registry_ok d"
  shows "registry_ok ad" "r \<in> set (ad_agents d) \<Longrightarrow> ag_id r \<noteq> i \<Longrightarrow> r \<in> set (ad_agents ad)"
    "r \<in> set (ad_agents d) \<Longrightarrow> ag_id r = i \<Longrightarrow> r\<lparr> ag_token_hash := hash token, ag_fingerprint := None,
       ag_pubkey := None, ag_bind_nonce := None, ag_revoked_at := None \<rparr> \<in> set (ad_agents ad)"
proof -
  let ?f = "\<lambda>r. r\<lparr> ag_token_hash := hash token, ag_fingerprint := None, ag_pubkey := None, ag_bind_nonce := None,
      ag_revoked_at := None \<rparr>"
  have ad: "ad_agents ad = map (\<lambda>r. if ag_id r = i then ?f r else r) (ad_agents d)"
    and free: "\<And>r. r \<in> set (ad_agents d) \<Longrightarrow> ag_id r \<noteq> i \<Longrightarrow> ag_token_hash r \<noteq> hash token"
    using assms(1) by (auto simp: agent_rotate_def upd_agent_def upd_where_def split: if_splits)
  have ids: "unique_on ag_id (ad_agents d)" "unique_on ag_token_hash (ad_agents d)"
    using assms(2) by (simp_all add: registry_ok_def)
  have "map ag_id (ad_agents ad) = map ag_id (ad_agents d)" by (simp add: ad)
  then have "unique_on ag_id (ad_agents ad)" using ids(1) by (simp only: unique_on_def)
  moreover have "unique_on ag_token_hash (map (\<lambda>r. if ag_id r = i then ?f r else r) (ad_agents d))"
    by (rule rekeyed_unique [OF ids]) (use free in auto)
  ultimately show "registry_ok ad" by (simp only: registry_ok_def ad)
  show "r \<in> set (ad_agents d) \<Longrightarrow> ag_id r \<noteq> i \<Longrightarrow> r \<in> set (ad_agents ad)" by (force simp: ad)
  show "r \<in> set (ad_agents d) \<Longrightarrow> ag_id r = i \<Longrightarrow> ?f r \<in> set (ad_agents ad)" by (force simp: ad)
qed

lemma ing_step_kept:
  assumes "ing_step l s s'" "registry_ok (in_agents s)"
  shows "registry_ok (in_agents s')"
    "l \<noteq> Some i \<Longrightarrow> r \<in> set (ad_agents (in_agents s)) \<Longrightarrow> ag_id r = i \<Longrightarrow>
       \<exists>r' \<in> set (ad_agents (in_agents s')). keeps_bound r r'"
proof -
  have *: "registry_ok (in_agents s') \<and> (l \<noteq> Some i \<longrightarrow> r \<in> set (ad_agents (in_agents s)) \<longrightarrow> ag_id r = i \<longrightarrow>
      (\<exists>r' \<in> set (ad_agents (in_agents s')). keeps_bound r r'))"
    if whole: "list_all2 keeps_bound (ad_agents (in_agents s)) (ad_agents (in_agents s'))"
    using keeps_registry [OF whole assms(2)] by blast
  have "registry_ok (in_agents s') \<and> (l \<noteq> Some i \<longrightarrow> r \<in> set (ad_agents (in_agents s)) \<longrightarrow> ag_id r = i \<longrightarrow>
      (\<exists>r' \<in> set (ad_agents (in_agents s')). keeps_bound r r'))"
    using assms(1)
  proof (cases rule: ing_step.cases)
    case (request e ep q r)
    show ?thesis by (rule *) (use serve_effect [OF request(2)] in \<open>auto simp: list.rel_refl dest: only_agent_keeps\<close>)
  next
    case (register hash j token name by_user now ad x)
    then show ?thesis using agent_create_Some [OF register(3) assms(2)] keeps_bound_refl by fastforce
  next
    case (rename j name ad)
    show ?thesis by (rule *) (use rename in \<open>auto simp: agent_rename_def keeps_bound_def split: if_splits intro!: upd_agent_keeps\<close>)
  next
    case (revoke j now)
    show ?thesis by (rule *) (use revoke in \<open>auto simp: agent_revoke_def keeps_bound_def intro!: upd_agent_keeps\<close>)
  next
    case (mute j t)
    show ?thesis by (rule *) (use mute in \<open>auto simp: setMutedUntil_def keeps_bound_def intro!: upd_agent_keeps\<close>)
  next
    case (rotate hash j token ad)
    then show ?thesis using agent_rotate_Some [OF rotate(3) assms(2)] keeps_bound_refl by fastforce
  next
    case (remove j)
    then show ?thesis
      using assms(2) keeps_bound_refl
      by (auto simp: agent_remove_def registry_ok_def set_del_where intro: unique_on_del_where)
  next
    case (tick ru now ad fired)
    show ?thesis
      by (rule *) (use tick_keeps [of "in_agents s" ru now "agent_scan (in_agents s)" "[]"] tick in \<open>simp add: alert_tick_def\<close>)
  next
    case (prune t)
    show ?thesis by (rule *) (simp add: prune prune_samples_def list.rel_refl)
  qed
  then show "registry_ok (in_agents s')"
    "l \<noteq> Some i \<Longrightarrow> r \<in> set (ad_agents (in_agents s)) \<Longrightarrow> ag_id r = i \<Longrightarrow>
       \<exists>r' \<in> set (ad_agents (in_agents s')). keeps_bound r r'" by blast+
qed

lemma spared_run:
  assumes "(spares i)\<^sup>*\<^sup>* s s'" "registry_ok (in_agents s)" "r \<in> set (ad_agents (in_agents s))" "ag_id r = i"
  shows "registry_ok (in_agents s') \<and> (\<exists>r' \<in> set (ad_agents (in_agents s')). keeps_bound r r')"
  using assms(1)
proof (induction rule: rtranclp_induct)
  case base
  then show ?case using assms keeps_bound_refl by blast
next
  case (step s1 s2)
  then obtain r1 l where r1: "r1 \<in> set (ad_agents (in_agents s1))" "keeps_bound r r1" and l: "l \<noteq> Some i" "ing_step l s1 s2"
    by (auto simp: spares_def)
  then have "ag_id r1 = i"
    using assms(4) by (simp add: keeps_bound_def)
  then show ?case
    using ing_step_kept [OF l(2)] step(3) l(1) r1 keeps_bound_trans by blast
qed

text \<open>
  C19. Bindings end only on purpose.  Identifiers and token digests of agents stay unique, and through
  any run of requests (one at a time), registrations, renames, revocations, mutes, alert ticks, pruning
  and rotations and removals of other agents, an agent keeps its token, the fingerprint and the key
  once they are bound, and its revocation.  What ends them is a removal of the agent or the rotation of
  its token: that clears the fingerprint, the key, the nonce and the revocation, puts the digest of the
  new token in place of the old one, and leaves every other agent as it was.
\<close>

theorem binding_final:
  assumes "registry_ok (in_agents s)" "r \<in> set (ad_agents (in_agents s))" "ag_id r = i"
  shows "((spares i)\<^sup>*\<^sup>* s s' \<longrightarrow>
      registry_ok (in_agents s') \<and> (\<exists>r' \<in> set (ad_agents (in_agents s')). keeps_bound r r')) \<and>
    (agent_rotate hash i token (in_agents s) = Some ad \<longrightarrow> registry_ok ad \<and>
      r\<lparr> ag_token_hash := hash token, ag_fingerprint := None, ag_pubkey := None, ag_bind_nonce := None,
         ag_revoked_at := None \<rparr> \<in> set (ad_agents ad) \<and>
      (\<forall>q \<in> set (ad_agents (in_agents s)). ag_id q \<noteq> i \<longrightarrow> q \<in> set (ad_agents ad)))"
  using spared_run [OF _ assms] agent_rotate_Some [OF _ assms(1)] assms(2,3) by blast

theorem binding_final_witness:
  "\<exists>s'. spares ''ag_1'' demo_ingress s' \<and> ad_agents (in_agents s') \<noteq> ad_agents (in_agents demo_ingress) \<and>
     (\<exists>r' \<in> set (ad_agents (in_agents s')). keeps_bound demo_agent r')"
proof -
  let ?s' = "fst (serve demo_ienv To_edge demo_stolen demo_ingress)"
  have st: "spares ''ag_1'' demo_ingress ?s'"
    unfolding spares_def using ing_step.request [OF prod.collapse [symmetric]] by blast
  moreover have "ad_agents (in_agents ?s') \<noteq> ad_agents (in_agents demo_ingress)"
    by code_simp
  moreover have "registry_ok (in_agents demo_ingress)" "demo_agent \<in> set (ad_agents (in_agents demo_ingress))"
    "ag_id demo_agent = ''ag_1''"
    by (simp_all add: demo_ingress_def registry_ok_def unique_on_def demo_agent_def new_agent_def)
  ultimately show ?thesis
    using binding_final [where s' = ?s'] r_into_rtranclp [of "spares ''ag_1''", OF st] by blast
qed

section \<open>Secrets of a deploy job\<close>

definition job_app :: "job \<Rightarrow> string" where
  "job_app j = (case json_parse (jb_spec j) of Some v \<Rightarrow> str_or_empty (jmember ''appId'' v) | None \<Rightarrow> [])"

definition body_lease :: "ing_request \<Rightarrow> string" where
  "body_lease q = (case Option.bind (iq_text q) json_parse of Some v \<Rightarrow> str_or_empty (jmember ''lease'' v) | None \<Rightarrow> [])"

lemma proofGate_ok:
  assumes "proofGate e a q t s k = (s', IngOk x)" "iq_text q = Some t"
  obtains s1 where "in_srt s1 = in_srt s" "k s1 = (s', IngOk x)"
  using assms by (rule proofGate_cases) auto

lemma get_job_same: "in_srt s1 = in_srt s \<Longrightarrow> get_job i (jobs_of s1) = get_job i (jobs_of s)"
  by (simp add: jobs_of_def)

lemma job_secrets_ok:
  assumes "job_secrets e j s = (s', IngOk x)"
  obtains env key where "x = Ans_secrets env key" "s' = s"
    "envFor (fe_d (ie_fenv e)) (job_app j) (rt_deploys (srt_rt (in_srt s))) = Inr env"
    "deployKeyFor (fe_d (ie_fenv e)) (job_app j) (rt_deploys (srt_rt (in_srt s))) = Inr key"
  using assms by (auto simp: job_secrets_def job_app_def Let_def split: option.splits if_splits sum.splits)

definition leased_secrets :: "ienv \<Rightarrow> nat \<Rightarrow> agent_row \<Rightarrow> ingress \<Rightarrow> json \<Rightarrow> ingress \<times> ing_reply" where
  "leased_secrets e i a s1 body = (let lease = str_or_empty (jmember ''lease'' body) in
         if lease = [] then (s1, IngError 422 ''expected lease'')
         else case get_job i (jobs_of s1) of
             None \<Rightarrow> (s1, IngError 403 ''no live lease for this job'')
           | Some j \<Rightarrow> if \<not> serves_secrets lease (ar_id a) j then (s1, IngError 403 ''no live lease for this job'')
               else job_secrets e j s1)"

lemma post_secrets_eq:
  "post_secrets e q s = gate e (bearerToken (iq_auth q)) s (\<lambda>a.
     case job_param (iq_param q) of None \<Rightarrow> (s, IngError 404 ''not found'')
     | Some i \<Rightarrow> with_text q s (\<lambda>t. proofGate e a q t s (\<lambda>s1. with_json t s1 (leased_secrets e i a s1))))"
  unfolding post_secrets_def leased_secrets_def [abs_def] ..

lemma leased_secrets_ok:
  assumes "leased_secrets e i a s1 body = (s', IngOk x)"
  obtains j where "get_job i (jobs_of s1) = Some j" "str_or_empty (jmember ''lease'' body) \<noteq> []"
    "serves_secrets (str_or_empty (jmember ''lease'' body)) (ar_id a) j" "job_secrets e j s1 = (s', IngOk x)"
  using assms by (cases "get_job i (jobs_of s1)") (auto simp: leased_secrets_def Let_def split: if_splits)

lemma job_secrets_same:
  "in_srt s1 = in_srt s \<Longrightarrow> job_secrets e j s1 = (s', IngOk x) \<Longrightarrow> job_secrets e j s = (s, IngOk x) \<and> s' = s1"
  by (auto simp: job_secrets_def Let_def split: option.splits if_splits sum.splits)

lemma post_secrets_ok:
  assumes "serve e To_secrets q s = (s', IngOk x)"
  obtains a i j where "caller e To_secrets q s = Some a" "job_param (iq_param q) = Some i"
    "get_job i (jobs_of s) = Some j" "body_lease q \<noteq> []" "serves_secrets (body_lease q) (ar_id a) j"
    "in_srt s' = in_srt s" "job_secrets e j s = (s, IngOk x)"
proof -
  have "gate e (presented To_secrets q) s (\<lambda>a.
     case job_param (iq_param q) of None \<Rightarrow> (s, IngError 404 ''not found'')
     | Some i \<Rightarrow> with_text q s (\<lambda>t. proofGate e a q t s (\<lambda>s1. with_json t s1 (leased_secrets e i a s1)))) = (s', IngOk x)"
    using assms bearer_presented [of To_secrets q] by (simp add: serve_def post_secrets_eq)
  then show ?thesis
  proof (rule gate_caller)
    fix a
    assume a: "caller e To_secrets q s = Some a"
      and "(case job_param (iq_param q) of None \<Rightarrow> (s, IngError 404 ''not found'')
     | Some i \<Rightarrow> with_text q s (\<lambda>t. proofGate e a q t s (\<lambda>s1. with_json t s1 (leased_secrets e i a s1)))) = (s', IngOk x)"
    from this(2) obtain i where i: "job_param (iq_param q) = Some i"
      and "with_text q s (\<lambda>t. proofGate e a q t s (\<lambda>s1. with_json t s1 (leased_secrets e i a s1))) = (s', IngOk x)"
      by (cases "job_param (iq_param q)") auto
    from this(2) obtain t where t: "iq_text q = Some t"
      and "proofGate e a q t s (\<lambda>s1. with_json t s1 (leased_secrets e i a s1)) = (s', IngOk x)"
      by (rule with_text_cases) auto
    from this(2,1) obtain s1 where s1: "in_srt s1 = in_srt s"
      and "with_json t s1 (leased_secrets e i a s1) = (s', IngOk x)"
      by (rule proofGate_ok)
    from this(2) obtain body where b: "json_parse t = Some body" and "leased_secrets e i a s1 body = (s', IngOk x)"
      by (rule with_json_cases) auto
    from this(2) obtain j where "get_job i (jobs_of s1) = Some j" "str_or_empty (jmember ''lease'' body) \<noteq> []"
        "serves_secrets (str_or_empty (jmember ''lease'' body)) (ar_id a) j" "job_secrets e j s1 = (s', IngOk x)"
      by (rule leased_secrets_ok)
    then have j: "get_job i (jobs_of s) = Some j" "body_lease q \<noteq> []"
        "serves_secrets (body_lease q) (ar_id a) j" "job_secrets e j s1 = (s', IngOk x)"
      using t b by (simp_all add: get_job_same [OF s1] body_lease_def)
    from j(4) have "in_srt s' = in_srt s" "job_secrets e j s = (s, IngOk x)"
      using job_secrets_same [OF s1] s1 by (auto elim: job_secrets_ok)
    then show ?thesis using that a i j by blast
  qed auto
qed

lemma verifyAgentSig_now: "verifyAgentSig (e\<lparr> ie_now := t \<rparr>) pub msg sig = verifyAgentSig e pub msg sig"
  by (simp add: verifyAgentSig_def split: option.split json.split)

lemma proofGate_now: "proofGate (e\<lparr> ie_now := t \<rparr>) a q b s k = proofGate e a q b s k"
  by (simp add: proofGate_def Let_def verifyAgentSig_now split: option.split)

lemma gate_now: "gate (e\<lparr> ie_now := t \<rparr>) tk s k = gate e tk s k"
  by (simp add: gate_def split: option.split)

lemma job_secrets_now: "job_secrets (e\<lparr> ie_now := t \<rparr>) j s = job_secrets e j s"
  by (simp add: job_secrets_def Let_def split: option.split)

lemma leased_secrets_now: "leased_secrets (e\<lparr> ie_now := t \<rparr>) = leased_secrets e"
  by (auto simp: fun_eq_iff leased_secrets_def Let_def job_secrets_now split: option.split)

lemma post_secrets_now: "post_secrets (e\<lparr> ie_now := t \<rparr>) q s = post_secrets e q s"
  unfolding post_secrets_eq gate_now leased_secrets_now proofGate_now ..

text \<open>
  C23. Who gets the secrets of an app.  An answer with secrets goes only to a live agent that presents
  the lease token of a deploy job which is claimed or running and targeted at that agent or at
  nobody, and it holds exactly the environment and the key of the app in the frozen spec.  The job
  table stays as it is.  The clock is not asked: the same request has the same answer at any later
  time while the row is not touched, so a lease that expired without a recovery still opens the
  secrets.
\<close>

theorem secrets_delivery:
  assumes "serve e To_secrets q s = (s', IngOk x)"
  shows "(\<exists>a i j env key. caller e To_secrets q s = Some a \<and> job_param (iq_param q) = Some i \<and>
      get_job i (jobs_of s) = Some j \<and> jb_kind j = Deploy \<and> jb_status j \<in> {Claimed, Running} \<and>
      body_lease q \<noteq> [] \<and> jb_leaseOwner j = Some (body_lease q) \<and>
      (jb_target j = None \<or> jb_target j = Some (ar_id a)) \<and> x = Ans_secrets env key \<and>
      envFor (fe_d (ie_fenv e)) (job_app j) (rt_deploys (srt_rt (in_srt s))) = Inr env \<and>
      deployKeyFor (fe_d (ie_fenv e)) (job_app j) (rt_deploys (srt_rt (in_srt s))) = Inr key) \<and>
    in_srt s' = in_srt s \<and> (\<forall>t. serve (e\<lparr> ie_now := t \<rparr>) To_secrets q s = (s', IngOk x))"
proof (intro conjI allI)
  obtain a i j where j: "caller e To_secrets q s = Some a" "job_param (iq_param q) = Some i"
    "get_job i (jobs_of s) = Some j" "body_lease q \<noteq> []" "serves_secrets (body_lease q) (ar_id a) j"
    "in_srt s' = in_srt s" "job_secrets e j s = (s, IngOk x)"
    using assms by (rule post_secrets_ok)
  from j(7) obtain env key where x: "x = Ans_secrets env key"
      "envFor (fe_d (ie_fenv e)) (job_app j) (rt_deploys (srt_rt (in_srt s))) = Inr env"
      "deployKeyFor (fe_d (ie_fenv e)) (job_app j) (rt_deploys (srt_rt (in_srt s))) = Inr key"
    by (rule job_secrets_ok)
  show "\<exists>a i j env key. caller e To_secrets q s = Some a \<and> job_param (iq_param q) = Some i \<and>
      get_job i (jobs_of s) = Some j \<and> jb_kind j = Deploy \<and> jb_status j \<in> {Claimed, Running} \<and>
      body_lease q \<noteq> [] \<and> jb_leaseOwner j = Some (body_lease q) \<and>
      (jb_target j = None \<or> jb_target j = Some (ar_id a)) \<and> x = Ans_secrets env key \<and>
      envFor (fe_d (ie_fenv e)) (job_app j) (rt_deploys (srt_rt (in_srt s))) = Inr env \<and>
      deployKeyFor (fe_d (ie_fenv e)) (job_app j) (rt_deploys (srt_rt (in_srt s))) = Inr key"
    using j x by (cases "jb_target j") (auto simp: serves_secrets_def)
  show "in_srt s' = in_srt s"
    by (rule j(6))
next
  fix t
  show "serve (e\<lparr> ie_now := t \<rparr>) To_secrets q s = (s', IngOk x)"
    using assms post_secrets_now by (simp add: serve_def)
qed

definition demo_serving :: ingress where
  "demo_serving = demo_ingress\<lparr> in_agents := \<lparr> ad_agents = [new_agent ''ag'' ''web'' ''token-two'' 0 None], ad_samples = [] \<rparr>,
     in_srt := \<lparr> srt_rt = \<lparr> rt_deploys = demo_deploys, rt_jobs = \<lparr> rows = [\<lparr> jr_id = 1, jr_job_key = ''k'', jr_kind = Deploy,
        jr_target = Some ''ag'', jr_status = Running, jr_spec = stringify (JObj [(''appId'', JStr ''app_1'')]), jr_result = None,
        jr_log = None, jr_lease_owner = Some ''L'', jr_lease_until = Some 10, jr_not_before = None, jr_attempts = 1,
        jr_max_attempts = 1, jr_created_at = 0, jr_updated_at = 0 \<rparr>], seq = 1 \<rparr> \<rparr>, srt_scans = no_scans \<rparr> \<rparr>"

definition demo_ask :: ing_request where
  "demo_ask = demo_stolen\<lparr> iq_auth := Some ''Bearer token-two'', iq_text := Some (stringify (JObj [(''lease'', JStr ''L'')])) \<rparr>"

lemma demo_serves: "\<exists>s' x. serve demo_ienv To_secrets demo_ask demo_serving = (s', IngOk x)"
proof -
  have "\<not> turned_away (snd (serve demo_ienv To_secrets demo_ask demo_serving)) \<longleftrightarrow>
      (case snd (serve demo_ienv To_secrets demo_ask demo_serving) of IngOk x \<Rightarrow> True | _ \<Rightarrow> False)"
    by (simp split: ing_reply.split)
  moreover have "(case snd (serve demo_ienv To_secrets demo_ask demo_serving) of IngOk x \<Rightarrow> True | _ \<Rightarrow> False)"
    by code_simp
  ultimately show ?thesis
    by (cases "serve demo_ienv To_secrets demo_ask demo_serving") (auto simp: turned_away_def)
qed

theorem secrets_delivery_witness:
  "\<exists>x. (\<exists>s'. serve (demo_ienv\<lparr> ie_now := 86400000 \<rparr>) To_secrets demo_ask demo_serving = (s', IngOk x)) \<and>
     (\<exists>j. get_job 1 (jobs_of demo_serving) = Some j \<and> jb_leaseUntil j = Some 10)"
proof -
  obtain s' x where "serve demo_ienv To_secrets demo_ask demo_serving = (s', IngOk x)"
    using demo_serves by blast
  then have "serve (demo_ienv\<lparr> ie_now := 86400000 \<rparr>) To_secrets demo_ask demo_serving = (s', IngOk x)"
    using secrets_delivery [of demo_ienv demo_ask demo_serving s' x] by blast
  moreover have "map_option jb_leaseUntil (get_job 1 (jobs_of demo_serving)) = Some (Some 10)"
    by code_simp
  ultimately show ?thesis by auto
qed

end
