(* ===== verification/Key_Props.thy ===== *)
theory Key_Props
  imports Ingress_Props
begin

text \<open>
  The identity of the hub over restarts and rotations: the published key is the one that signs, every
  rotation is signed by the key before it, and the derivation secret never changes.
\<close>

section \<open>What sealing and encoding promise\<close>

definition key_laws :: "keyring \<Rightarrow> bool" where
  "key_laws k = ((\<forall>x. kr_open k (kr_seal k x) = Some x) \<and> (\<forall>x. starts_v1 (kr_seal k x)) \<and>
     (\<forall>b. kr_unhex k (kr_hex k b) = b) \<and> (\<forall>p m. kr_sign k p m \<noteq> []) \<and> (\<forall>p. kr_pub k p \<noteq> []))"

lemma key_lawsD:
  assumes "key_laws k"
  shows "kr_open k (kr_seal k x) = Some x" "starts_v1 (kr_seal k x)" "kr_unhex k (kr_hex k b) = b"
    "kr_sign k p m \<noteq> []" "kr_pub k p \<noteq> []" "kr_seal k x \<noteq> []"
  using assms by (auto simp: key_laws_def) (metis starts_v1_def take_Nil list.distinct(1))

section \<open>Consistent stores\<close>

text \<open>A row publishes the key it holds, and a recorded rotation was signed by the key it replaced.\<close>

definition row_good :: "keyring \<Rightarrow> hub_key_row \<Rightarrow> bool" where
  "row_good k r = (\<forall>p r'. row_priv k r = Some (p, r') \<longrightarrow> hk_pub r = base64 (kr_pub k p))"

definition ready :: "keyring \<Rightarrow> key_store \<Rightarrow> hub_keys \<Rightarrow> bool" where
  "ready k s c = (ks_cache s = Some c \<and> load_keys k s = (s, Some c) \<and> ky_pubB64 c = base64 (kr_pub k (ky_priv c)))"

definition keys_good :: "keyring \<Rightarrow> key_store \<Rightarrow> bool" where
  "keys_good k s = ((\<forall>r. ks_row s = Some r \<longrightarrow> row_good k r) \<and> (\<forall>c. ks_cache s = Some c \<longrightarrow> ready k s c))"

lemma load_again:
  assumes "key_laws k" "load_keys k s = (s1, Some c)" "\<forall>r. ks_row s = Some r \<longrightarrow> row_good k r"
  shows "load_keys k s1 = (s1, Some c)" "ky_pubB64 c = base64 (kr_pub k (ky_priv c))" "ks_cache s1 = ks_cache s"
    "ks_row s1 \<noteq> None" "\<And>r. ks_row s1 = Some r \<Longrightarrow> row_good k r"
proof -
  obtain r p r1 where r: "ks_row s = Some r" "row_priv k r = Some (p, r1)"
    and s1: "s1 = s\<lparr> ks_row := Some (snd (row_secret k p r1)) \<rparr>"
    and c: "c = \<lparr> ky_priv = p, ky_pubB64 = hk_pub (snd (row_secret k p r1)), ky_prevPubB64 = hk_prev_pub (snd (row_secret k p r1)),
                ky_rotatedAt = hk_rotated_at (snd (row_secret k p r1)), ky_proof = hk_proof (snd (row_secret k p r1)),
                ky_secret = (case kr_open k (fst (row_secret k p r1)) of Some h \<Rightarrow> kr_unhex k h | None \<Rightarrow> kr_unbase64 k p) \<rparr>"
    using assms(2) by (auto simp: load_keys_def Let_def split: option.splits prod.splits)
  let ?r2 = "snd (row_secret k p r1)"
  have p2: "row_priv k ?r2 = Some (p, ?r2)"
    using r(2) key_lawsD [OF assms(1)] by (auto simp: row_priv_def row_secret_def Let_def split: if_splits option.splits)
  have sec: "row_secret k p ?r2 = (fst (row_secret k p r1), ?r2)"
    using key_lawsD [OF assms(1)] by (auto simp: row_secret_def Let_def split: option.splits)
  have pub: "hk_pub ?r2 = hk_pub r"
    using r(2) by (auto simp: row_priv_def row_secret_def Let_def split: if_splits option.splits)
  show "load_keys k s1 = (s1, Some c)"
    by (simp add: load_keys_def s1 p2 sec c split: prod.split)
  show g: "ky_pubB64 c = base64 (kr_pub k (ky_priv c))"
    using assms(3) r by (simp add: row_good_def c pub)
  show "ks_cache s1 = ks_cache s" "ks_row s1 \<noteq> None"
    by (simp_all add: s1)
  show "row_good k r'" if "ks_row s1 = Some r'" for r'
    using that g p2 by (simp add: s1 row_good_def c)
qed

lemma load_None:
  assumes "load_keys k s = (s1, None)"
  shows "ks_row s1 = None" "ks_cache s1 = ks_cache s"
  using assms by (auto simp: load_keys_def Let_def split: option.splits prod.splits)

lemma create_ready:
  assumes "key_laws k" "ks_row s = None" "create_keys k draw rnd s = (s1, c)"
  shows "load_keys k s1 = (s1, Some c)" "ky_pubB64 c = base64 (kr_pub k (ky_priv c))" "ks_cache s1 = ks_cache s"
    "\<And>r. ks_row s1 = Some r \<Longrightarrow> row_good k r"
proof -
  let ?row = "\<lparr> hk_priv = kr_seal k draw, hk_pub = base64 (kr_pub k draw), hk_prev_pub = None, hk_rotated_at = None,
                  hk_proof = None, hk_secret = Some (kr_seal k (kr_hex k rnd)) \<rparr>"
  have good: "row_good k ?row"
    using key_lawsD [OF assms(1)] by (simp add: row_good_def row_priv_def)
  have load: "load_keys k (s\<lparr> ks_row := Some ?row \<rparr>) = (s1, Some c)"
    using assms key_lawsD [OF assms(1)]
    by (auto simp: create_keys_def Let_def load_keys_def row_priv_def row_secret_def)
  have "\<forall>r. ks_row (s\<lparr> ks_row := Some ?row \<rparr>) = Some r \<longrightarrow> row_good k r"
    using good by simp
  note made = load_again [OF assms(1) load this]
  show "load_keys k s1 = (s1, Some c)" "ky_pubB64 c = base64 (kr_pub k (ky_priv c))" "ks_cache s1 = ks_cache s"
    using made(1,2,3) by simp_all
  show "row_good k r" if "ks_row s1 = Some r" for r
    using made(5) that by blast
qed

lemma load_cache: "load_keys k (s\<lparr> ks_cache := x \<rparr>) = (let (s', c) = load_keys k s in (s'\<lparr> ks_cache := x \<rparr>, c))"
  by (simp add: load_keys_def Let_def split: option.split prod.split)

lemma get_keys_ready:
  assumes "key_laws k" "keys_good k s" "get_keys k draw rnd s = (s1, c)"
  shows "ready k s1 c" "keys_good k s1"
proof -
  have "ready k s1 c \<and> (\<forall>r. ks_row s1 = Some r \<longrightarrow> row_good k r)"
  proof (cases "ks_cache s")
    case (Some c')
    then show ?thesis
      using assms(2,3) by (auto simp: get_keys_def keys_good_def)
  next
    case None
    obtain s2 m where l: "load_keys k s = (s2, m)"
      by fastforce
    have rows: "\<forall>r. ks_row s = Some r \<longrightarrow> row_good k r"
      using assms(2) by (simp add: keys_good_def)
    obtain s3 where s1: "s1 = s3\<lparr> ks_cache := Some c \<rparr>" and s3: "load_keys k s3 = (s3, Some c)"
        "ky_pubB64 c = base64 (kr_pub k (ky_priv c))" "\<forall>r. ks_row s3 = Some r \<longrightarrow> row_good k r"
    proof (cases m)
      case None
      have "create_keys k draw rnd s2 = (fst (create_keys k draw rnd s2), c)"
        "s1 = (fst (create_keys k draw rnd s2))\<lparr> ks_cache := Some c \<rparr>"
        using assms(3) \<open>ks_cache s = None\<close> l None by (auto simp: get_keys_def split: prod.splits)
      note made = create_ready [OF assms(1) load_None(1) [OF l [unfolded None]] this(1)]
      show ?thesis
        by (rule that [OF \<open>s1 = _\<close> made(1,2)]) (use made(4) in blast)
    next
      case (Some c')
      have "c' = c" "s1 = s2\<lparr> ks_cache := Some c \<rparr>"
        using assms(3) \<open>ks_cache s = None\<close> l Some by (auto simp: get_keys_def)
      note made = load_again [OF assms(1) l [unfolded Some \<open>c' = c\<close>] rows]
      show ?thesis
        by (rule that [OF \<open>s1 = _\<close> made(1,2)]) (use made(5) in blast)
    qed
    then show ?thesis
      by (simp add: ready_def load_cache)
  qed
  then show "ready k s1 c" "keys_good k s1"
    by (auto simp: keys_good_def ready_def)
qed

section \<open>A run of the hub\<close>

text \<open>Every use of the keys (tokens, secret, advertised key) goes through \<open>get_keys\<close>; a restart empties the cache.\<close>

inductive key_step :: "keyring \<Rightarrow> key_store \<Rightarrow> key_store \<Rightarrow> bool" for k where
  sign: "signToken k d r t s = (s', sig) \<Longrightarrow> key_step k s s'"
| derive: "hubSecret k d r s = (s', x) \<Longrightarrow> key_step k s s'"
| pub: "publicKeyB64 k d r s = (s', x) \<Longrightarrow> key_step k s s'"
| advertise: "publicKeyInfo k d r s = (s', i) \<Longrightarrow> key_step k s s'"
| rotate: "rotateHubKey k d r d' now s = (s', i) \<Longrightarrow> key_step k s s'"
| restart: "key_step k s (s\<lparr> ks_cache := None \<rparr>)"

definition rotated :: "keyring \<Rightarrow> string \<Rightarrow> ms \<Rightarrow> hub_keys \<Rightarrow> hub_key_row \<Rightarrow> hub_key_row" where
  "rotated k d' now c r = r\<lparr> hk_priv := kr_seal k d', hk_pub := base64 (kr_pub k d'), hk_prev_pub := Some (ky_pubB64 c),
     hk_rotated_at := Some now, hk_proof := Some (kr_sign k (ky_priv c) (kr_pub k d')) \<rparr>"

lemma rotateHubKey_eq:
  "rotateHubKey k d r d' now s = (let (s1, c) = get_keys k d r s in
     publicKeyInfo k d r (s1\<lparr> ks_row := map_option (rotated k d' now c) (ks_row s1), ks_cache := None \<rparr>))"
  by (simp add: rotateHubKey_def rotated_def [abs_def] Let_def split: prod.split)

text \<open>The keys after a rotation: the new pair, the proof of the old one, the old secret.\<close>

definition next_keys :: "keyring \<Rightarrow> string \<Rightarrow> ms \<Rightarrow> hub_keys \<Rightarrow> hub_keys" where
  "next_keys k d' now c = \<lparr> ky_priv = d', ky_pubB64 = base64 (kr_pub k d'), ky_prevPubB64 = Some (ky_pubB64 c),
     ky_rotatedAt = Some now, ky_proof = Some (kr_sign k (ky_priv c) (kr_pub k d')), ky_secret = ky_secret c \<rparr>"

text \<open>A stored row whose secret column opens on its own, which a load writes and a creation too.\<close>

definition secret_opens :: "keyring \<Rightarrow> key_store \<Rightarrow> bool" where
  "secret_opens k s = (\<forall>r t. ks_row s = Some r \<longrightarrow> hk_secret r = Some t \<longrightarrow> t \<noteq> [] \<longrightarrow> kr_open k t \<noteq> None)"

lemma load_secret_opens:
  assumes "key_laws k" "secret_opens k s" "load_keys k s = (s1, m)"
  shows "secret_opens k s1"
proof (cases m)
  case None
  then show ?thesis using load_None [OF assms(3) [unfolded None]] by (simp add: secret_opens_def)
next
  case (Some c)
  obtain r p r1 where "ks_row s = Some r" "row_priv k r = Some (p, r1)"
    "ks_row s1 = Some (snd (row_secret k p r1))"
    using assms(3) Some by (auto simp: load_keys_def Let_def split: option.splits prod.splits)
  then show ?thesis
    using assms(2) key_lawsD [OF assms(1)]
    by (auto simp: secret_opens_def row_secret_def row_priv_def Let_def split: option.splits if_splits)
qed

lemma create_secret_opens:
  assumes "key_laws k" "secret_opens k s" "create_keys k d r s = (s1, c)"
  shows "secret_opens k s1"
proof -
  let ?row = "\<lparr> hk_priv = kr_seal k d, hk_pub = base64 (kr_pub k d), hk_prev_pub = None, hk_rotated_at = None,
                  hk_proof = None, hk_secret = Some (kr_seal k (kr_hex k r)) \<rparr>"
  define s0 where "s0 = (if ks_row s = None then s\<lparr> ks_row := Some ?row \<rparr> else s)"
  have "secret_opens k s0"
    using assms(2) key_lawsD [OF assms(1)] by (simp add: s0_def secret_opens_def)
  moreover obtain m where "load_keys k s0 = (s1, m)"
    using assms(3) by (auto simp: create_keys_def Let_def s0_def [symmetric] split: prod.splits option.splits)
  ultimately show ?thesis
    using load_secret_opens [OF assms(1)] by blast
qed

lemma get_secret_opens:
  assumes "key_laws k" "secret_opens k s" "get_keys k d r s = (s1, c)"
  shows "secret_opens k s1"
proof (cases "ks_cache s")
  case None
  obtain s2 m where l: "load_keys k s = (s2, m)"
    by fastforce
  have 2: "secret_opens k s2"
    by (rule load_secret_opens [OF assms(1,2) l])
  show ?thesis
  proof (cases m)
    case None
    then have "s1 = (fst (create_keys k d r s2))\<lparr> ks_cache := Some c \<rparr>"
      using assms(3) \<open>ks_cache s = None\<close> l by (auto simp: get_keys_def split: prod.splits)
    then show ?thesis
      using create_secret_opens [OF assms(1) 2 prod.collapse [symmetric]] by (simp add: secret_opens_def)
  next
    case (Some c')
    then show ?thesis
      using assms(3) \<open>ks_cache s = None\<close> l 2 by (auto simp: get_keys_def secret_opens_def)
  qed
qed (use assms in \<open>auto simp: get_keys_def\<close>)

lemma ready_row:
  assumes "key_laws k" "ready k s c"
  obtains r t where "ks_row s = Some r" "row_priv k r = Some (ky_priv c, r)" "hk_secret r = Some t" "t \<noteq> []" "ky_pubB64 c = hk_pub r"
    "ky_secret c = (case kr_open k t of Some h \<Rightarrow> kr_unhex k h | None \<Rightarrow> kr_unbase64 k (ky_priv c))"
proof -
  have l: "load_keys k s = (s, Some c)"
    using assms(2) by (simp add: ready_def)
  then obtain r where r: "ks_row s = Some r"
    by (cases "ks_row s") (auto simp: load_keys_def)
  obtain p r1 where p: "row_priv k r = Some (p, r1)"
    using l r by (cases "row_priv k r") (auto simp: load_keys_def)
  have s: "s\<lparr> ks_row := Some (snd (row_secret k p r1)) \<rparr> = s" and c: "p = ky_priv c" "ky_pubB64 c = hk_pub (snd (row_secret k p r1))"
    and sec: "ky_secret c = (case kr_open k (fst (row_secret k p r1)) of Some h \<Rightarrow> kr_unhex k h | None \<Rightarrow> kr_unbase64 k p)"
    using l by (auto simp: load_keys_def r p Let_def split: prod.splits)
  have r2: "r = snd (row_secret k p r1)"
    using arg_cong [OF s, of ks_row] r by simp
  have t: "hk_secret (snd (row_secret k p r1)) = Some (fst (row_secret k p r1))" "fst (row_secret k p r1) \<noteq> []"
    using key_lawsD [OF assms(1)] unfolding r2
    by (auto simp: row_secret_def Let_def split: option.split)
  have same: "hk_priv (snd (row_secret k p r1)) = hk_priv r1"
    by (simp add: row_secret_def Let_def split: option.split)
  have "r1 = r"
  proof (cases "starts_v1 (hk_priv r)")
    case False
    then have "starts_v1 (hk_priv r1)"
      using p key_lawsD(2) [OF assms(1)] by (auto simp: row_priv_def)
    then show ?thesis
      using False same r2 by simp
  qed (use p in \<open>auto simp: row_priv_def\<close>)
  then have "row_priv k r = Some (ky_priv c, r)" "hk_secret r = Some (fst (row_secret k p r1))"
    using p t(1) r2 c by simp_all
  then show ?thesis
    using that r t(2) sec [unfolded c(1)] c(2) r2 unfolding c(1) by metis
qed

lemma rotate_ready:
  assumes "key_laws k" "keys_good k s" "secret_opens k s" "get_keys k d r s = (s1, c)"
    "rotateHubKey k d r d' now s = (s', info)"
  shows "ready k s' (next_keys k d' now c)" "info = key_info_of (next_keys k d' now c)"
proof -
  obtain row t where row: "ks_row s1 = Some row" "row_priv k row = Some (ky_priv c, row)" "hk_secret row = Some t" "t \<noteq> []"
    "ky_pubB64 c = hk_pub row" "ky_secret c = (case kr_open k t of Some h \<Rightarrow> kr_unhex k h | None \<Rightarrow> kr_unbase64 k (ky_priv c))"
    using get_keys_ready(1) [OF assms(1,2,4)] by (rule ready_row [OF assms(1)])
  obtain h where h: "kr_open k t = Some h"
    using get_secret_opens [OF assms(1,3,4)] row by (auto simp: secret_opens_def)
  let ?s2 = "s1\<lparr> ks_row := Some (rotated k d' now c row), ks_cache := None \<rparr>"
  have load: "load_keys k (?s2\<lparr> ks_cache := x \<rparr>) = (?s2\<lparr> ks_cache := x \<rparr>, Some (next_keys k d' now c))" for x
    using row h key_lawsD [OF assms(1)]
    by (simp add: load_keys_def row_priv_def row_secret_def rotated_def next_keys_def)
  have "publicKeyInfo k d r ?s2 = (s', info)"
    using assms(4,5) row(1) by (simp add: rotateHubKey_eq)
  then have "s' = ?s2\<lparr> ks_cache := Some (next_keys k d' now c) \<rparr>" "info = key_info_of (next_keys k d' now c)"
    using load [of None] by (simp_all add: publicKeyInfo_def get_keys_def)
  then show "ready k s' (next_keys k d' now c)" "info = key_info_of (next_keys k d' now c)"
    using load [of "Some (next_keys k d' now c)"] by (simp_all add: ready_def next_keys_def)
qed

definition store_ok :: "keyring \<Rightarrow> key_store \<Rightarrow> bool" where
  "store_ok k s = (keys_good k s \<and> secret_opens k s)"

definition holds_secret :: "keyring \<Rightarrow> nat list \<Rightarrow> key_store \<Rightarrow> bool" where
  "holds_secret k x s = ((\<exists>s' c. load_keys k (s\<lparr> ks_cache := None \<rparr>) = (s', Some c) \<and> ky_secret c = x) \<and>
     (\<forall>c. ks_cache s = Some c \<longrightarrow> ky_secret c = x))"

lemma ready_holds: "ready k s c \<Longrightarrow> holds_secret k (ky_secret c) s"
  by (simp add: ready_def holds_secret_def load_cache)

lemma holds_get:
  assumes "holds_secret k x s" "get_keys k d r s = (s1, c)"
  shows "ky_secret c = x"
proof (cases "ks_cache s")
  case None
  then show ?thesis
    using assms by (auto simp: holds_secret_def get_keys_def load_cache split: prod.splits)
qed (use assms in \<open>auto simp: holds_secret_def get_keys_def\<close>)

lemma get_ok:
  assumes "key_laws k" "store_ok k s" "get_keys k d r s = (s1, c)"
  shows "store_ok k s1" "ready k s1 c" "holds_secret k x s \<Longrightarrow> holds_secret k x s1"
  using get_keys_ready [OF assms(1) _ assms(3)] get_secret_opens [OF assms(1) _ assms(3)] assms(2)
    ready_holds holds_get [OF _ assms(3)] by (auto simp: store_ok_def)

lemma rotate_ok:
  assumes "key_laws k" "store_ok k s" "rotateHubKey k d r d' now s = (s', i)"
  shows "store_ok k s'" "holds_secret k x s \<Longrightarrow> holds_secret k x s'"
proof -
  obtain s1 c where g: "get_keys k d r s = (s1, c)"
    by fastforce
  have s: "keys_good k s" "secret_opens k s"
    using assms(2) by (simp_all add: store_ok_def)
  note rd = rotate_ready(1) [OF assms(1) s g assms(3)]
  obtain r2 t where r2: "ks_row s' = Some r2" "row_priv k r2 = Some (ky_priv (next_keys k d' now c), r2)"
    "ky_pubB64 (next_keys k d' now c) = hk_pub r2"
    by (rule ready_row [OF assms(1) rd])
  let ?s2 = "s1\<lparr> ks_row := map_option (rotated k d' now c) (ks_row s1), ks_cache := None \<rparr>"
  have "secret_opens k ?s2"
    using get_secret_opens [OF assms(1) s(2) g] by (auto simp: secret_opens_def rotated_def)
  moreover have "s' = fst (get_keys k d r ?s2)"
    using assms(3) g by (simp add: rotateHubKey_eq publicKeyInfo_def split: prod.splits)
  ultimately have "secret_opens k s'"
    using get_secret_opens [OF assms(1) _ prod.collapse [symmetric]] by simp
  then show "store_ok k s'"
    using rd r2 by (simp add: store_ok_def keys_good_def row_good_def) (simp add: ready_def)
  show "holds_secret k x s \<Longrightarrow> holds_secret k x s'"
    using ready_holds [OF rd] holds_get [OF _ g, of x] by (simp add: next_keys_def)
qed

lemma key_step_ok:
  assumes "key_step k s s'" "key_laws k" "store_ok k s"
  shows "store_ok k s' \<and> (\<forall>x. holds_secret k x s \<longrightarrow> holds_secret k x s')"
  using assms
proof (cases rule: key_step.cases)
  case (rotate d r d' now i)
  then show ?thesis using rotate_ok assms by blast
next
  case restart
  then show ?thesis
    using assms(3) by (auto simp: store_ok_def keys_good_def secret_opens_def holds_secret_def)
qed (use get_ok [OF assms(2,3)] in \<open>auto simp: signToken_def hubSecret_def publicKeyB64_def publicKeyInfo_def split: prod.splits\<close>)

lemma key_run_ok:
  assumes "(key_step k)\<^sup>*\<^sup>* s s'" "key_laws k" "store_ok k s"
  shows "store_ok k s' \<and> (\<forall>x. holds_secret k x s \<longrightarrow> holds_secret k x s')"
  using assms(1)
proof (induction rule: rtranclp_induct)
  case (step s1 s2)
  then show ?case using key_step_ok [OF step(2) assms(2)] by blast
qed (use assms(3) in simp)

lemma base64_nonempty: "b \<noteq> [] \<Longrightarrow> base64 b \<noteq> []"
  by (cases b rule: base64.cases) auto

text \<open>
  C24. The hub keeps its identity.  After any run of signatures, reads, rotations and restarts from a
  consistent row, a new or an unsealed one included, with \<open>c\<close> the keys in use: the advertised key is
  the public half of the key that signs tokens; a rotation advertises the new key together with the
  old one and a signature over the raw new key by the old private key, so an agent pinned to the old
  key can follow; and the derivation secret is the same at every later time.
\<close>

theorem hub_key_continuity:
  assumes "key_laws k" "store_ok k s0" "(key_step k)\<^sup>*\<^sup>* s0 s" "get_keys k d r s = (s1, c)"
  shows "snd (publicKeyB64 k d r s) = base64 (kr_pub k (ky_priv c)) \<and>
    snd (signToken k d r token s) = kr_sign k (ky_priv c) (kr_utf8 k token) \<and>
    snd (rotateHubKey k d r d' now s) = \<lparr> ki_pub = base64 (kr_pub k d'), ki_rotation =
      Some (base64 (kr_pub k (ky_priv c)), now, kr_sign k (ky_priv c) (kr_pub k d')) \<rparr> \<and>
    ((key_step k)\<^sup>*\<^sup>* s1 s2 \<longrightarrow> snd (hubSecret k d2 r2 s2) = snd (hubSecret k d r s))"
proof -
  have ok: "store_ok k s"
    using key_run_ok [OF assms(3,1,2)] by blast
  note g = get_ok [OF assms(1) ok assms(4)]
  have pub: "ky_pubB64 c = base64 (kr_pub k (ky_priv c))"
    using g(2) by (simp add: ready_def)
  have rot: "snd (rotateHubKey k d r d' now s) = key_info_of (next_keys k d' now c)"
    using rotate_ready(2) [OF assms(1) _ _ assms(4) prod.collapse [symmetric]] ok by (simp add: store_ok_def)
  have "snd (hubSecret k d2 r2 s2) = ky_secret c" if "(key_step k)\<^sup>*\<^sup>* s1 s2"
  proof -
    obtain s3 c3 where g3: "get_keys k d2 r2 s2 = (s3, c3)"
      by fastforce
    have "holds_secret k (ky_secret c) s2"
      using key_run_ok [OF that assms(1) g(1)] ready_holds [OF g(2)] by blast
    then show ?thesis
      using holds_get [OF _ g3] g3 by (simp add: hubSecret_def)
  qed
  then show ?thesis
    using assms(4) pub rot base64_nonempty key_lawsD(4,5) [OF assms(1)]
    by (simp add: publicKeyB64_def signToken_def hubSecret_def key_info_of_def next_keys_def)
qed

fun demo_unhex :: "nat \<Rightarrow> string \<Rightarrow> nat list" where
  "demo_unhex n [] = []"
| "demo_unhex n (c # cs) = (if c = CHR ''b'' then n # demo_unhex 0 cs else demo_unhex (Suc n) cs)"

definition demo_keyring :: keyring where
  "demo_keyring = demo_ring\<lparr> kr_sign := (\<lambda>p m. ''sig '' @ p), kr_pub := (\<lambda>p. 1 # map of_char p),
     kr_hex := (\<lambda>b. concat (map (\<lambda>n. replicate n CHR ''a'' @ ''b'') b)), kr_unhex := demo_unhex 0 \<rparr>"

lemma demo_unhex_run: "demo_unhex m (replicate n CHR ''a'' @ CHR ''b'' # cs) = (m + n) # demo_unhex 0 cs"
  by (induction n arbitrary: m) auto

lemma demo_key_laws: "key_laws demo_keyring"
proof -
  have "demo_unhex 0 (concat (map (\<lambda>n. replicate n CHR ''a'' @ ''b'') b)) = b" for b
    by (induction b) (simp_all add: demo_unhex_run)
  then show ?thesis
    by (simp add: key_laws_def demo_keyring_def demo_ring_def starts_v1_def)
qed

abbreviation first_boot :: key_store where
  "first_boot \<equiv> \<lparr> ks_row = None, ks_cache = None \<rparr>"

theorem hub_key_continuity_witness:
  "snd (rotateHubKey demo_keyring ''P0'' [1] ''P1'' 7 first_boot) =
     \<lparr> ki_pub = base64 (kr_pub demo_keyring ''P1''), ki_rotation = Some (base64 (kr_pub demo_keyring ''P0''), 7, ''sig P0'') \<rparr> \<and>
   snd (hubSecret demo_keyring ''P9'' [9] (fst (rotateHubKey demo_keyring ''P0'' [1] ''P1'' 7
      (fst (get_keys demo_keyring ''P0'' [1] first_boot))))) = [1]"
proof -
  obtain s1 c where g: "get_keys demo_keyring ''P0'' [1] first_boot = (s1, c)"
    by fastforce
  have c: "ky_priv c = ''P0''" "ky_secret c = [1]" "kr_sign demo_keyring ''P0'' m = ''sig P0''" for m
  proof -
    have "ky_priv (snd (get_keys demo_keyring ''P0'' [1] first_boot)) = ''P0''"
      "ky_secret (snd (get_keys demo_keyring ''P0'' [1] first_boot)) = [1]"
      by code_simp+
    then show "ky_priv c = ''P0''" "ky_secret c = [1]" "kr_sign demo_keyring ''P0'' m = ''sig P0''"
      using g by (simp_all add: demo_keyring_def)
  qed
  have ok: "store_ok demo_keyring first_boot"
    by (simp add: store_ok_def keys_good_def secret_opens_def)
  have step: "(key_step demo_keyring)\<^sup>*\<^sup>* s1 (fst (rotateHubKey demo_keyring ''P0'' [1] ''P1'' 7 s1))"
    by (intro r_into_rtranclp key_step.rotate [OF prod.collapse [symmetric]])
  show ?thesis
    using hub_key_continuity [OF demo_key_laws ok rtranclp.rtrancl_refl g, of "[]" "''P1''" 7, THEN conjunct2] step g c
    by (simp add: hubSecret_def)
qed

end
