(* ===== verification/Poll_Props.thy ===== *)
theory Poll_Props
  imports Job_Contract
begin

text \<open>
  The pull model of the queue: an executor claims until it is told there is nothing left.  That this
  ends is a measure on the table, the number of rows it could still claim.
\<close>

lemma n_where_less:
  assumes "\<And>x. x \<in> set t \<Longrightarrow> P (f x) \<Longrightarrow> P x" "c \<in> set t" "P c" "\<not> P (f c)"
  shows "n_where P (map f t) < n_where P t"
proof -
  have le: "n_where P (map f u) \<le> n_where P u" if "set u \<subseteq> set t" for u
    using that assms(1) by (induction u) (auto simp: n_where_def)
  obtain u v where t: "t = u @ c # v"
    using assms(2) by (auto simp: in_set_conv_decomp)
  have "n_where P (map f u) \<le> n_where P u" "n_where P (map f v) \<le> n_where P v"
    using le [of u] le [of v] t by auto
  then show ?thesis
    using assms(3,4) by (simp add: t n_where_def)
qed

lemma claimable_claim_set [simp]: "\<not> claimable kind target now (claim_set owner leaseMs now' r)"
  by (simp add: claimable_def)

lemma claim_fewer:
  assumes "claim kind target leaseMs owner now db = (db', Some c)"
  shows "n_where (claimable kind target now) (rows db') < n_where (claimable kind target now) (rows db)"
  using assms
proof (cases rule: claim_cases)
  case (some cand)
  let ?f = "\<lambda>r. if claim_row (jr_id cand) r then claim_set owner leaseMs now r else r"
  have "n_where (claimable kind target now) (map ?f (rows db)) < n_where (claimable kind target now) (rows db)"
    using some(1,2) by (intro n_where_less [of _ _ _ cand]) (auto simp: claim_row_def claimable_def split: if_splits)
  then show ?thesis
    by (simp add: some(4) upd_where_def)
qed simp

text \<open>An executor that polls at time \<open>now\<close>; \<open>owner n\<close> is the lease token drawn by poll \<open>n\<close>.\<close>

function drain ::
  "job_kind \<Rightarrow> string option \<Rightarrow> ms \<Rightarrow> (nat \<Rightarrow> string) \<Rightarrow> ms \<Rightarrow> nat \<Rightarrow> jobs_db \<Rightarrow> jobs_db \<times> claimed_job list" where
  "drain kind target leaseMs owner now n db =
     (case claim kind target leaseMs (owner n) now db of
        (db', None) \<Rightarrow> (db', [])
      | (db', Some c) \<Rightarrow> (let (db'', cs) = drain kind target leaseMs owner now (Suc n) db' in (db'', c # cs)))"
  by pat_completeness auto
termination
  by (relation "measure (\<lambda>(kind, target, leaseMs, owner, now, n, db). n_where (claimable kind target now) (rows db))")
    (auto dest: claim_fewer [OF sym])

declare drain.simps [simp del]

abbreviation claimable_ids :: "job_kind \<Rightarrow> string option \<Rightarrow> ms \<Rightarrow> jobs_db \<Rightarrow> nat set" where
  "claimable_ids kind target now db \<equiv> jr_id ` {r \<in> set (rows db). claimable kind target now r}"

lemma claim_ids:
  assumes "claim kind target leaseMs owner now db = (db', Some c)"
  shows "claimable_ids kind target now db' = claimable_ids kind target now db - {cj_id c}"
    "cj_id c = Min (claimable_ids kind target now db)" "claimable_ids kind target now db \<noteq> {}" "cj_lease c = owner"
proof -
  from assms obtain cand where c: "cand \<in> set (rows db)" "claimable kind target now cand"
      "\<And>r. r \<in> set (rows db) \<Longrightarrow> claimable kind target now r \<Longrightarrow> jr_id cand \<le> jr_id r"
      "db' = db\<lparr> rows := upd_where (claim_row (jr_id cand)) (claim_set owner leaseMs now) (rows db) \<rparr>"
      "cj_id c = jr_id cand" "cj_lease c = owner"
    by (cases rule: claim_cases) auto
  show "claimable_ids kind target now db' = claimable_ids kind target now db - {cj_id c}"
    unfolding c(4,5)
    by (auto simp: upd_where_def image_iff claim_row_def claimable_def split: if_splits)
  show "cj_id c = Min (claimable_ids kind target now db)"
    unfolding c(5) by (rule Min_eqI [symmetric]) (use c in auto)
  show "claimable_ids kind target now db \<noteq> {}" "cj_lease c = owner"
    using c by auto
qed

lemma claim_none:
  assumes "claim kind target leaseMs owner now db = (db', None)"
  shows "claimable_ids kind target now db = {}" "db' = db"
proof -
  show db: "db' = db"
    using assms by (rule claim_cases) auto
  show "claimable_ids kind target now db = {}"
  proof (rule ccontr)
    assume "claimable_ids kind target now db \<noteq> {}"
    then have "order_by jr_id (sel_where (claimable kind target now) (rows db)) \<noteq> []"
      by (metis (no_types, lifting) empty_set empty_Collect_eq image_is_empty set_order_by set_sel_where)
    then obtain cand where "limit_one (order_by jr_id (sel_where (claimable kind target now) (rows db))) = Some cand"
      by (cases "order_by jr_id (sel_where (claimable kind target now) (rows db))") auto
    with limit_one_order_by_least [OF this] show False
      using assms by (auto simp: claim_def Let_def first_where_None claim_row_def claimable_def split: option.splits)
  qed
qed

text \<open>
  C20. Polling ends, after one claim for every job that can be claimed and one more that is told there
  is none.  The jobs come out in the order of their identifiers, each once, each with the lease token of
  its own poll, and afterwards no row can be claimed at that time.
\<close>

theorem polling_drains:
  "map cj_id (snd (drain kind target leaseMs owner now n db)) = sorted_list_of_set (claimable_ids kind target now db) \<and>
   map cj_lease (snd (drain kind target leaseMs owner now n db)) =
     map owner [n ..< n + length (snd (drain kind target leaseMs owner now n db))] \<and>
   claimable_ids kind target now (fst (drain kind target leaseMs owner now n db)) = {}"
proof (induction kind target leaseMs owner now n db rule: drain.induct)
  case (1 kind target leaseMs owner now n db)
  obtain db1 m where c: "claim kind target leaseMs (owner n) now db = (db1, m)"
    by fastforce
  show ?case
  proof (cases m)
    case None
    then show ?thesis
      by (simp add: drain.simps [of kind target leaseMs owner now n db] c claim_none [OF c [unfolded None]])
  next
    case (Some j)
    note ids = claim_ids [OF c [unfolded Some]]
    obtain db2 cs where d: "drain kind target leaseMs owner now (Suc n) db1 = (db2, cs)"
      by fastforce
    have "sorted_list_of_set (claimable_ids kind target now db) =
        cj_id j # sorted_list_of_set (claimable_ids kind target now db1)"
      using sorted_list_of_set_nonempty [OF _ ids(3)] unfolding ids(1,2) by simp
    moreover have "[n ..< Suc (n + length cs)] = n # [Suc n ..< Suc (n + length cs)]"
      by (simp add: upt_rec)
    ultimately show ?thesis
      using "1.IH" [OF c [symmetric] Some] c d ids(4)
      by (simp add: drain.simps [of kind target leaseMs owner now n db] Some)
  qed
qed

end
