(* ===== verification/Scan_Props.thy ===== *)
theory Scan_Props
  imports Scan_Flow Deploy_Props
begin

text \<open>
  The scan store: rows keep the types and limits of \<open>shared/scan.ts\<close>, the counts of a report are those
  of its stored findings, a finished report is final, a synchronisation of recommendations does what
  it says, and what a finished job makes of its report.
\<close>

section \<open>Well-formed rows\<close>

definition opt_text_ok :: "nat \<Rightarrow> string option \<Rightarrow> bool" where
  "opt_text_ok n v = (case v of None \<Rightarrow> True | Some s \<Rightarrow> s \<noteq> [] \<and> length s \<le> n)"

definition finding_typed :: "finding_row \<Rightarrow> bool" where
  "finding_typed f = (opt_text_ok MAX_VULN_ID (Some (fd_vuln_id f)) \<and> opt_text_ok MAX_PKG (Some (fd_pkg f)) \<and>
     opt_text_ok MAX_VERSION (fd_installed f) \<and> opt_text_ok MAX_VERSION (fd_fixed f) \<and> opt_text_ok MAX_TITLE (fd_title f) \<and>
     (case fd_cvss f of None \<Rightarrow> True | Some q \<Rightarrow> 0 \<le> q \<and> q \<le> 10))"

definition report_typed :: "report_row \<Rightarrow> bool" where
  "report_typed r = (length (sr_target r) \<le> MAX_TARGET \<and> opt_text_ok MAX_SCAN_ERROR (sr_error r) \<and>
     (if in_flight r then sr_finished_at r = None \<and> sr_duration_ms r = None \<and> sr_error r = None
      else sr_finished_at r \<noteq> None \<and> (case sr_duration_ms r of None \<Rightarrow> False | Some n \<Rightarrow> 0 \<le> n)))"

definition rec_typed :: "rec_row \<Rightarrow> bool" where
  "rec_typed r = (length (rc_title r) \<le> MAX_REC_TITLE \<and> length (rc_detail r) \<le> MAX_REC_DETAIL \<and>
     (case rc_data r of None \<Rightarrow> True | Some t \<Rightarrow> length t \<le> 4096) \<and>
     (rc_applied_at r \<noteq> None \<longleftrightarrow> rc_status r = Rec_applied))"

definition findings_for :: "string \<Rightarrow> scans \<Rightarrow> finding_row list" where
  "findings_for i d = filter (\<lambda>f. fd_report_id f = i) (sc_findings d)"

definition finding_text :: "finding_row \<Rightarrow> string" where
  "finding_text f = fd_vuln_id f @ fd_pkg f"

definition report_ok :: "scans \<Rightarrow> report_row \<Rightarrow> bool" where
  "report_ok d r = (report_typed r \<and> sr_summary r = summary_of (findings_for (sr_id r) d) \<and>
     (in_flight r \<longrightarrow> findings_for (sr_id r) d = []) \<and> length (findings_for (sr_id r) d) \<le> MAX_FINDINGS_PER_REPORT \<and>
     distinct (map finding_text (findings_for (sr_id r) d)))"

definition recs_ok :: "rec_row list \<Rightarrow> bool" where
  "recs_ok t = (unique_on rc_id t \<and> unique_on (\<lambda>r. (rc_app_id r, rc_kind r, rc_dedupe_key r)) t \<and> (\<forall>r \<in> set t. rec_typed r))"

definition scans_inv :: "scans \<Rightarrow> bool" where
  "scans_inv d = (unique_on sr_id (sc_reports d) \<and> (\<forall>r \<in> set (sc_reports d). report_ok d r) \<and>
     (\<forall>f \<in> set (sc_findings d). finding_typed f \<and> (\<exists>r \<in> set (sc_reports d). sr_id r = fd_report_id f)) \<and>
     recs_ok (sc_recs d))"

inductive scan_step :: "scans \<Rightarrow> scans \<Rightarrow> bool" where
  created: "createReport i appId target rel now d = Inr (d', r) \<Longrightarrow> scan_step d d'"
| started: "scan_step d (markRunning i now d)"
| completed: "complete i good err fs now d = (d', r) \<Longrightarrow> scan_step d d'"
| synced: "sync_recs appId recs now d = Some d' \<Longrightarrow> scan_step d d'"
| decided: "st \<noteq> Rec_open \<Longrightarrow> setStatus i st now d = (d', b) \<Longrightarrow> scan_step d d'"
| pruned: "prune_scans t d = (d', n) \<Longrightarrow> scan_step d d'"

section \<open>Reports\<close>

lemma clip_ok: "opt_text_ok n (clip v n)" if "n > 0"
  using that by (auto simp: clip_def opt_text_ok_def split: option.split)

lemma limits_pos [simp]: "0 < MAX_VERSION" "0 < MAX_TITLE" "0 < MAX_SCAN_ERROR" "0 < MAX_VULN_ID" "0 < MAX_PKG"
  by (simp_all add: MAX_VERSION_def MAX_TITLE_def MAX_SCAN_ERROR_def MAX_VULN_ID_def MAX_PKG_def)

lemma finding_of_typed:
  assumes "finding_key f = Some vp"
  shows "finding_typed (finding_of i vp f)"
proof -
  obtain v p where vp: "vp = (v, p)" "clip (Some (rf_vulnId f)) MAX_VULN_ID = Some v" "clip (Some (rf_pkg f)) MAX_PKG = Some p"
    using assms by (auto simp: finding_key_def split: option.splits)
  have "opt_text_ok MAX_VULN_ID (Some v)" "opt_text_ok MAX_PKG (Some p)"
    unfolding vp(2,3) [symmetric] by (simp_all only: clip_ok limits_pos)
  moreover have "case fd_cvss (finding_of i vp f) of None \<Rightarrow> True | Some q \<Rightarrow> 0 \<le> q \<and> q \<le> 10"
  proof (cases "rf_cvss f")
    case (Some n)
    then show ?thesis by (cases n) (simp_all add: finding_of_def)
  qed (simp add: finding_of_def)
  ultimately show ?thesis
    unfolding finding_typed_def by (simp add: finding_of_def vp(1) clip_ok)
qed

lemma finding_rows_ok:
  "(\<forall>r \<in> set (finding_rows i known fs). fd_report_id r = i \<and> finding_typed r \<and> finding_text r \<notin> set known) \<and>
   distinct (map finding_text (finding_rows i known fs)) \<and> length (finding_rows i known fs) \<le> length fs"
proof (induction fs arbitrary: known)
  case (Cons f fs)
  show ?case
  proof (cases "finding_key f")
    case None
    then have "finding_rows i known (f # fs) = finding_rows i known fs"
      by simp
    then show ?thesis using Cons [of known] by simp
  next
    case (Some vp)
    obtain v p where vp: "vp = (v, p)"
      by fastforce
    have row: "fd_report_id (finding_of i (v, p) f) = i" "finding_text (finding_of i (v, p) f) = v @ p"
      "finding_typed (finding_of i (v, p) f)"
      using finding_of_typed [OF Some, of i] by (simp_all add: finding_of_def finding_text_def vp)
    show ?thesis
    proof (cases "v @ p \<in> set known")
      case True
      then have "finding_rows i known (f # fs) = finding_rows i known fs"
        using Some vp by simp
      then show ?thesis using Cons [of known] by simp
    next
      case False
      have "finding_rows i known (f # fs) = finding_of i (v, p) f # finding_rows i ((v @ p) # known) fs"
        using False Some vp by simp
      moreover have "finding_text (finding_of i (v, p) f) \<notin> set known"
        using False row(2) by simp
      moreover note Cons [of "(v @ p) # known"]
      ultimately show ?thesis
        unfolding row(2) [symmetric] using row(1,3) by (auto simp del: finding_rows.simps)
    qed
  qed
qed simp

lemma summary_of_Nil [simp]: "summary_of [] = emptySummary"
  by (simp add: summary_of_def)

lemma createReport_inv:
  assumes "createReport i appId target rel now d = Inr (d', r)" "scans_inv d"
  shows "scans_inv d'"
proof -
  have new: "\<forall>x \<in> set (sc_reports d). sr_id x \<noteq> i"
    and r: "sr_id r = i" "report_typed r" "in_flight r" "sr_summary r = emptySummary"
    and d': "d' = d\<lparr> sc_reports := sc_reports d @ [r] \<rparr>"
    using assms(1)
    by (auto simp: createReport_def Let_def scan_report_def first_where_None report_typed_def in_flight_def opt_text_ok_def
        split: if_splits)
  have no: "findings_for i d = []"
    using new assms(2) by (fastforce simp: findings_for_def scans_inv_def filter_empty_conv)
  show ?thesis
    using assms(2) new r no
    by (auto simp: d' scans_inv_def unique_on_snoc report_ok_def findings_for_def)
qed

lemma report_upd_inv:
  assumes "scans_inv d" "\<And>r. P r \<Longrightarrow> sr_id (f r) = sr_id r"
    and "\<And>r. r \<in> set (sc_reports d) \<Longrightarrow> P r \<Longrightarrow> report_ok d (f r)"
  shows "scans_inv (d\<lparr> sc_reports := upd_where P f (sc_reports d) \<rparr>)"
proof -
  have ids: "sr_id (if P r then f r else r) = sr_id r" for r
    using assms(2) by simp
  have "unique_on sr_id (upd_where P f (sc_reports d))"
    using assms(1) ids by (simp add: scans_inv_def unique_on_def upd_where_def o_def)
  moreover have "\<exists>r \<in> set (upd_where P f (sc_reports d)). sr_id r = k" if "\<exists>r \<in> set (sc_reports d). sr_id r = k" for k
    using that ids by (fastforce simp: upd_where_def)
  ultimately show ?thesis
    using assms(1,3) by (auto simp: scans_inv_def upd_where_def report_ok_def findings_for_def)
qed

lemma markRunning_inv: "scans_inv d \<Longrightarrow> scans_inv (markRunning i now d)"
  unfolding markRunning_def
  by (rule report_upd_inv) (auto simp: scans_inv_def report_ok_def report_typed_def in_flight_def split: if_splits)

text \<open>A completion of a report in flight, and of one that is not.\<close>

lemma complete_cases:
  assumes "complete i good err fs now d = (d', res)"
  obtains (idle) "d' = d" "\<And>r. scan_report i d = Some r \<Longrightarrow> \<not> in_flight r"
  | (closed) existing rs where "scan_report i d = Some existing" "in_flight existing"
      "rs = finding_rows i [] (take MAX_FINDINGS_PER_REPORT fs)"
      "d' = d\<lparr> sc_reports := upd_where (\<lambda>r. sr_id r = i \<and> in_flight r)
             (\<lambda>r. r\<lparr> sr_status := (if good then Scan_done else Scan_failed), sr_finished_at := Some now,
                sr_duration_ms := Some (max 0 (now - sr_started_at existing)), sr_summary := summary_of rs,
                sr_error := clip err MAX_SCAN_ERROR \<rparr>) (sc_reports d),
           sc_findings := del_where (\<lambda>x. fd_report_id x = i) (sc_findings d) @ rs \<rparr>"
proof (cases "scan_report i d")
  case None
  then show ?thesis using assms idle by (simp add: complete_def)
next
  case (Some existing)
  show ?thesis
  proof (cases "in_flight existing")
    case True
    then show ?thesis using assms Some closed by (auto simp: complete_def Let_def)
  next
    case False
    then have "d' = d"
      using assms Some by (simp add: complete_def)
    then show ?thesis
      using idle False Some by (metis option.inject)
  qed
qed

lemma findings_replaced:
  assumes "\<forall>f \<in> set rs. fd_report_id f = i"
  shows "findings_for j (d\<lparr> sc_reports := t, sc_findings := del_where (\<lambda>x. fd_report_id x = i) (sc_findings d) @ rs \<rparr>) =
     (if j = i then rs else findings_for j d)"
proof -
  have 1: "filter (\<lambda>f. fd_report_id f = j) rs = (if j = i then rs else [])"
    using assms by (auto simp: filter_empty_conv filter_id_conv)
  have 2: "filter (\<lambda>f. fd_report_id f = j) (del_where (\<lambda>x. fd_report_id x = i) u) =
      (if j = i then [] else filter (\<lambda>f. fd_report_id f = j) u)" for u
    by (induction u) (auto simp: del_where_def)
  show ?thesis
    by (simp add: findings_for_def 1 2)
qed

lemma complete_inv:
  assumes "complete i good err fs now d = (d', res)" "scans_inv d"
  shows "scans_inv d'"
  using assms(1)
proof (cases rule: complete_cases)
  case idle
  then show ?thesis using assms(2) by simp
next
  case (closed existing rs)
  have rs: "\<forall>f \<in> set rs. fd_report_id f = i \<and> finding_typed f" "distinct (map finding_text rs)"
    "length rs \<le> MAX_FINDINGS_PER_REPORT"
    using finding_rows_ok [of i "[]" "take MAX_FINDINGS_PER_REPORT fs"] by (auto simp: closed(3))
  have ex: "existing \<in> set (sc_reports d)" "sr_id existing = i"
    using closed(1) by (auto simp: scan_report_def dest: first_where_SomeD)
  define f where "f = (\<lambda>r::report_row. r\<lparr> sr_status := (if good then Scan_done else Scan_failed), sr_finished_at := Some now,
                sr_duration_ms := Some (max 0 (now - sr_started_at existing)), sr_summary := summary_of rs,
                sr_error := clip err MAX_SCAN_ERROR \<rparr>)"
  define P where "P = (\<lambda>r. sr_id r = i \<and> in_flight r)"
  have d': "d' = d\<lparr> sc_reports := upd_where P f (sc_reports d),
      sc_findings := del_where (\<lambda>x. fd_report_id x = i) (sc_findings d) @ rs \<rparr>"
    using closed(4) by (simp add: f_def P_def)
  have ids: "sr_id (if P r then f r else r) = sr_id r" for r
    by (simp add: f_def)
  have findings: "findings_for j d' = (if j = i then rs else findings_for j d)" for j
    unfolding d' by (rule findings_replaced) (use rs in blast)
  have only: "P r" if "r \<in> set (sc_reports d)" "sr_id r = i" for r
    using assms(2) that ex closed(2) unique_onD [of sr_id "sc_reports d" r existing] by (simp add: scans_inv_def P_def)
  have ok: "report_ok d' (if P r then f r else r)" if r: "r \<in> set (sc_reports d)" for r
  proof (cases "P r")
    case True
    then show ?thesis
      using assms(2) r rs clip_ok [of MAX_SCAN_ERROR err]
      by (auto simp: report_ok_def findings f_def P_def report_typed_def in_flight_def scans_inv_def)
  next
    case False
    then have "sr_id r \<noteq> i"
      using only r by blast
    then show ?thesis
      using False assms(2) r by (simp add: report_ok_def findings scans_inv_def)
  qed
  have uniq: "unique_on sr_id (sc_reports d')"
    using assms(2) ids by (simp add: d' scans_inv_def unique_on_def upd_where_def o_def)
  have still: "\<exists>r \<in> set (sc_reports d'). sr_id r = k" if "\<exists>r \<in> set (sc_reports d). sr_id r = k" for k
    using that ids by (fastforce simp: d' upd_where_def)
  have "finding_typed x \<and> (\<exists>r \<in> set (sc_reports d). sr_id r = fd_report_id x)" if "x \<in> set (sc_findings d')" for x
    using that rs(1) ex assms(2) by (auto simp: d' set_del_where scans_inv_def)
  moreover have "report_ok d' r" if "r \<in> set (sc_reports d')" for r
  proof -
    obtain x where "x \<in> set (sc_reports d)" "r = (if P x then f x else x)"
      using \<open>r \<in> _\<close> unfolding d' by (auto simp: upd_where_def)
    then show ?thesis
      using ok by simp
  qed
  moreover have "recs_ok (sc_recs d')"
    using assms(2) by (simp add: d' scans_inv_def)
  ultimately show ?thesis
    unfolding scans_inv_def using uniq still by blast
qed

lemma prune_scans_inv:
  assumes "prune_scans t d = (d', n)" "scans_inv d"
  shows "scans_inv d'"
proof -
  define stale where "stale = set (map sr_id (sel_where (\<lambda>r. sr_started_at r < t) (sc_reports d)))"
  have d': "d' = d\<lparr> sc_findings := del_where (\<lambda>f. fd_report_id f \<in> stale) (sc_findings d),
          sc_reports := del_where (\<lambda>r. sr_id r \<in> stale) (sc_reports d),
          sc_recs := del_where (\<lambda>r. rc_status r \<noteq> Rec_open \<and> rc_created_at r < t) (sc_recs d) \<rparr>"
    using assms(1) by (auto simp: prune_scans_def Let_def stale_def)
  have same: "findings_for j d' = findings_for j d" if "j \<notin> stale" for j
    using that by (auto simp: d' findings_for_def del_where_def intro!: filter_cong)
  have "report_ok d' r" if "r \<in> set (sc_reports d')" for r
  proof -
    have "r \<in> set (sc_reports d)" "sr_id r \<notin> stale"
      using that by (auto simp: d' set_del_where)
    then show ?thesis
      using assms(2) same by (simp add: report_ok_def scans_inv_def)
  qed
  moreover have "finding_typed x \<and> (\<exists>r \<in> set (sc_reports d'). sr_id r = fd_report_id x)" if "x \<in> set (sc_findings d')" for x
  proof -
    have x: "x \<in> set (sc_findings d)" "fd_report_id x \<notin> stale"
      using that by (auto simp: d' set_del_where)
    then obtain r where "finding_typed x" "r \<in> set (sc_reports d)" "sr_id r = fd_report_id x"
      using assms(2) by (auto simp: scans_inv_def)
    then show ?thesis
      using x(2) by (auto simp: d' set_del_where)
  qed
  ultimately show ?thesis
    using assms(2) by (auto simp: scans_inv_def d' set_del_where recs_ok_def intro: unique_on_del_where)
qed

section \<open>Recommendations\<close>

text \<open>A row and its scoped key, and updates that leave them alone.\<close>

definition rec_scope :: "rec_row \<Rightarrow> string \<times> rec_kind \<times> string" where
  "rec_scope r = (rc_app_id r, rc_kind r, rc_dedupe_key r)"

lemma rec_fields_simps [simp]:
  "rc_id (rec_fields n r) = rc_id r" "rec_scope (rec_fields n r) = rec_scope r"
  "rc_app_id (rec_fields n r) = rc_app_id r" "rc_kind (rec_fields n r) = rc_kind r"
  "rc_dedupe_key (rec_fields n r) = rc_dedupe_key r"
  "rc_status (rec_fields n r) = rc_status r" "rc_applied_at (rec_fields n r) = rc_applied_at r"
  by (simp_all add: rec_fields_def rec_scope_def)

lemma rec_fields_typed:
  "rc_applied_at r \<noteq> None \<longleftrightarrow> rc_status r = Rec_applied \<Longrightarrow> rec_typed (rec_fields n r)"
  by (simp add: rec_typed_def rec_fields_def split: option.split)

lemma recs_ok_scope: "recs_ok t = (unique_on rc_id t \<and> unique_on rec_scope t \<and> (\<forall>r \<in> set t. rec_typed r))"
  by (simp add: recs_ok_def rec_scope_def [abs_def])

lemma recs_ok_upd:
  assumes "recs_ok t" "\<And>r. P r \<Longrightarrow> rc_id (f r) = rc_id r \<and> rec_scope (f r) = rec_scope r"
    and "\<And>r. r \<in> set t \<Longrightarrow> P r \<Longrightarrow> rec_typed (f r)"
  shows "recs_ok (upd_where P f t)"
proof -
  have "rc_id (if P r then f r else r) = rc_id r" "rec_scope (if P r then f r else r) = rec_scope r" for r
    using assms(2) by simp_all
  then show ?thesis
    using assms(1,3) by (auto simp: recs_ok_scope unique_on_def upd_where_def o_def)
qed

lemma recs_ok_del: "recs_ok t \<Longrightarrow> recs_ok (del_where P t)"
  by (auto simp: recs_ok_def set_del_where intro: unique_on_del_where)

lemma fresh_rec_simps [simp]:
  "rc_id (fresh_rec i appId now n) = i" "rec_scope (fresh_rec i appId now n) = (appId, nr_kind n, nr_dedupeKey n)"
  "rc_app_id (fresh_rec i appId now n) = appId" "rc_kind (fresh_rec i appId now n) = nr_kind n"
  "rc_dedupe_key (fresh_rec i appId now n) = nr_dedupeKey n" "rc_status (fresh_rec i appId now n) = Rec_open"
  by (simp_all add: fresh_rec_def rec_scope_def)

lemma fresh_rec_typed: "rec_typed (fresh_rec i appId now n)"
  unfolding fresh_rec_def by (rule rec_fields_typed) simp

definition reopened :: "ms \<Rightarrow> new_rec \<Rightarrow> rec_row \<Rightarrow> rec_row" where
  "reopened now n x = (rec_fields n x)\<lparr> rc_status := Rec_open, rc_applied_at := None, rc_created_at := now \<rparr>"

lemma reopened_simps [simp]:
  "rc_id (reopened now n r) = rc_id r" "rec_scope (reopened now n r) = rec_scope r"
  "rc_app_id (reopened now n r) = rc_app_id r" "rc_kind (reopened now n r) = rc_kind r"
  "rc_dedupe_key (reopened now n r) = rc_dedupe_key r" "rc_status (reopened now n r) = Rec_open"
  by (simp_all add: reopened_def) (simp_all add: rec_scope_def)

lemma reopened_typed: "rec_typed (reopened now n r)"
  using rec_fields_typed [of "r\<lparr> rc_status := Rec_open, rc_applied_at := None \<rparr>" n]
  by (simp add: reopened_def rec_typed_def rec_fields_def)

lemma sync_one_cases:
  assumes "sync_one appId now existing (i, n) (Some t) = Some t'"
  obtains (insert) "t' = t @ [fresh_rec i appId now n]"
      "\<forall>x \<in> set t. rc_id x \<noteq> i \<and> rec_scope x \<noteq> (appId, nr_kind n, nr_dedupeKey n)"
      "\<forall>c \<in> set existing. rec_key (rc_kind c) (rc_dedupe_key c) \<noteq> rec_key (nr_kind n) (nr_dedupeKey n)"
  | (known) cur where "cur \<in> set existing" "rec_key (rc_kind cur) (rc_dedupe_key cur) = rec_key (nr_kind n) (nr_dedupeKey n)"
      "t' = (case rc_status cur of Rec_open \<Rightarrow> upd_where (\<lambda>x. rc_id x = rc_id cur) (rec_fields n) t
         | Rec_applied \<Rightarrow> upd_where (\<lambda>x. rc_id x = rc_id cur) (reopened now n) t | _ \<Rightarrow> t)"
proof (cases "first_where (\<lambda>c. rec_key (rc_kind c) (rc_dedupe_key c) = rec_key (nr_kind n) (nr_dedupeKey n)) (rev existing)")
  case None
  have "t' = t @ [fresh_rec i appId now n]" "\<forall>x \<in> set t. rc_id x \<noteq> i \<and> rec_scope x \<noteq> (appId, nr_kind n, nr_dedupeKey n)"
    using assms by (auto simp: sync_one_def None rec_scope_def split: if_splits)
  then show ?thesis
    using insert None by (auto simp: first_where_None)
next
  case (Some cur)
  then have "cur \<in> set existing" "rec_key (rc_kind cur) (rc_dedupe_key cur) = rec_key (nr_kind n) (nr_dedupeKey n)"
    by (auto dest: first_where_SomeD)
  then show ?thesis
    by (rule known) (use assms in \<open>cases "rc_status cur"; simp add: sync_one_def Some reopened_def [abs_def]\<close>)
qed

lemma sync_one_ok:
  assumes "sync_one appId now existing (i, n) (Some t) = Some t'" "recs_ok t"
  shows "recs_ok t'"
  using assms(1)
proof (cases rule: sync_one_cases)
  case insert
  then show ?thesis
    using assms(2) fresh_rec_typed by (auto simp: recs_ok_scope unique_on_snoc)
next
  case (known cur)
  have "recs_ok (upd_where (\<lambda>x. rc_id x = rc_id cur) (rec_fields n) t)"
  proof (rule recs_ok_upd [OF assms(2)])
    fix r
    assume "r \<in> set t"
    then show "rec_typed (rec_fields n r)"
      using assms(2) by (intro rec_fields_typed) (auto simp: recs_ok_def rec_typed_def)
  qed simp
  moreover have "recs_ok (upd_where (\<lambda>x. rc_id x = rc_id cur) (reopened now n) t)"
    by (rule recs_ok_upd [OF assms(2)]) (simp_all add: reopened_typed)
  ultimately show ?thesis
    using assms(2) known(3) by (auto split: rec_status.splits)
qed

lemma sync_fold_None: "fold (sync_one appId now existing) recs None = None"
  by (induction recs) (auto simp: sync_one_def)

lemma sync_fold_ok:
  "fold (sync_one appId now existing) recs (Some t) = Some t' \<Longrightarrow> recs_ok t \<Longrightarrow> recs_ok t'"
proof (induction recs arbitrary: t)
  case (Cons x recs)
  obtain i n t1 where x: "x = (i, n)" and "sync_one appId now existing (i, n) (Some t) = Some t1"
    "fold (sync_one appId now existing) recs (Some t1) = Some t'"
    using Cons.prems(1) sync_fold_None [of appId now existing recs]
    by (cases x, cases "sync_one appId now existing x (Some t)") auto
  then show ?case
    using Cons.IH sync_one_ok Cons.prems(2) by blast
qed simp

lemma sync_recs_parts:
  assumes "sync_recs appId recs now d = Some d'"
  obtains rows where "fold (sync_one appId now (sel_where (\<lambda>r. rc_app_id r = appId) (sc_recs d))) recs (Some (sc_recs d)) = Some rows"
    "d' = d\<lparr> sc_recs := del_where (\<lambda>x. (\<exists>c \<in> set (sc_recs d). rc_app_id c = appId \<and> rc_id c = rc_id x \<and> rc_status c = Rec_open \<and>
         rec_key (rc_kind c) (rc_dedupe_key c) \<notin> (\<lambda>(_, r). rec_key (nr_kind r) (nr_dedupeKey r)) ` set recs) \<and> rc_status x = Rec_open) rows \<rparr>"
proof -
  let ?ex = "sel_where (\<lambda>r. rc_app_id r = appId) (sc_recs d)"
  let ?known = "(\<lambda>(_, r). rec_key (nr_kind r) (nr_dedupeKey r)) ` set recs"
  have gone: "(x \<in> set (map rc_id (filter (\<lambda>c. rc_status c = Rec_open \<and>
      rec_key (rc_kind c) (rc_dedupe_key c) \<notin> set (map (\<lambda>(_, r). rec_key (nr_kind r) (nr_dedupeKey r)) recs)) ?ex))) =
    (\<exists>c \<in> set (sc_recs d). rc_app_id c = appId \<and> rc_id c = x \<and> rc_status c = Rec_open \<and> rec_key (rc_kind c) (rc_dedupe_key c) \<notin> ?known)" for x
    by (auto simp: set_sel_where)
  obtain rows where r: "fold (sync_one appId now ?ex) recs (Some (sc_recs d)) = Some rows"
    using assms by (cases "fold (sync_one appId now ?ex) recs (Some (sc_recs d))") (simp_all add: sync_recs_def Let_def)
  show ?thesis
    using assms by (intro that [OF r]) (simp only: sync_recs_def Let_def r option.map gone option.inject)
qed

lemma sync_recs_inv: "sync_recs appId recs now d = Some d' \<Longrightarrow> scans_inv d \<Longrightarrow> scans_inv d'"
  using sync_fold_ok recs_ok_del
  by (elim sync_recs_parts) (fastforce simp: scans_inv_def report_ok_def findings_for_def)

section \<open>The store as a map from scoped keys\<close>

definition rec_at :: "rec_row list \<Rightarrow> string \<times> rec_kind \<times> string \<Rightarrow> rec_row option" where
  "rec_at t s = first_where (\<lambda>r. rec_scope r = s) t"

lemma rec_at_SomeD: "rec_at t s = Some c \<Longrightarrow> c \<in> set t \<and> rec_scope c = s"
  by (auto simp: rec_at_def dest: first_where_SomeD)

lemma rec_at_member: "recs_ok t \<Longrightarrow> c \<in> set t \<Longrightarrow> rec_at t (rec_scope c) = Some c"
  unfolding rec_at_def recs_ok_scope by (rule first_where_unique [of rec_scope]) auto

lemma rec_at_None: "rec_at t s = None \<longleftrightarrow> (\<forall>c \<in> set t. rec_scope c \<noteq> s)"
  by (auto simp: rec_at_def first_where_None)

lemma rec_at_snoc: "\<forall>c \<in> set t. rec_scope c \<noteq> rec_scope x \<Longrightarrow>
    rec_at (t @ [x]) s = (if s = rec_scope x then Some x else rec_at t s)"
  by (induction t) (auto simp: rec_at_def first_where_Cons)

lemma rec_at_upd:
  assumes "recs_ok t" "c \<in> set t" "\<And>r. rec_scope (f r) = rec_scope r"
  shows "rec_at (upd_where (\<lambda>x. rc_id x = rc_id c) f t) s = (if s = rec_scope c then Some (f c) else rec_at t s)"
proof -
  have same: "r = c" if "r \<in> set t" "rc_id r = rc_id c" for r
    using assms(1,2) that unique_onD [of rc_id t r c] by (simp add: recs_ok_def)
  have "rec_at (upd_where (\<lambda>x. rc_id x = rc_id c) f u) s =
      map_option (\<lambda>r. if rc_id r = rc_id c then f r else r) (rec_at u s)" for u
    using assms(3) by (induction u) (auto simp: rec_at_def upd_where_Cons first_where_Cons)
  note upd = this [of t]
  show ?thesis
  proof (cases "s = rec_scope c")
    case True
    then show ?thesis using upd rec_at_member [OF assms(1,2)] by simp
  next
    case False
    show ?thesis
    proof (cases "rec_at t s")
      case (Some r)
      then have "rc_id r \<noteq> rc_id c"
        using rec_at_SomeD [OF Some] same [of r] False by blast
      then show ?thesis using upd Some False by simp
    qed (use upd False in simp)
  qed
qed

lemma upd_ids:
  assumes "\<And>r. rc_id (f r) = rc_id r"
  shows "rc_id ` set (upd_where P f t) = rc_id ` set t"
proof -
  have "map rc_id (upd_where P f t) = map rc_id t"
    using assms by (induction t) (auto simp: upd_where_Cons)
  then show ?thesis
    by (metis set_map)
qed

lemma rec_key_inject: "rec_key k x = rec_key k' y \<longleftrightarrow> k = k' \<and> x = y"
  by (cases k; cases k') (auto simp: rec_key_def rec_kind_text_def)

text \<open>
  What a fresh evaluation makes of the row at a key: dismissed rows suppress, applied rows open again,
  open rows are refreshed or go.
\<close>

definition reconciled :: "string \<Rightarrow> ms \<Rightarrow> (string \<times> new_rec) option \<Rightarrow> rec_row option \<Rightarrow> rec_row option" where
  "reconciled appId now new old = (case (new, old) of
       (None, None) \<Rightarrow> None
     | (None, Some c) \<Rightarrow> if rc_status c = Rec_open then None else Some c
     | (Some (i, n), None) \<Rightarrow> Some (fresh_rec i appId now n)
     | (Some (i, n), Some c) \<Rightarrow> (case rc_status c of Rec_open \<Rightarrow> Some (rec_fields n c)
         | Rec_applied \<Rightarrow> Some (reopened now n c) | _ \<Rightarrow> Some c))"

definition new_at :: "(string \<times> new_rec) list \<Rightarrow> rec_kind \<Rightarrow> string \<Rightarrow> (string \<times> new_rec) option" where
  "new_at recs k x = find (\<lambda>(i, n). nr_kind n = k \<and> nr_dedupeKey n = x) recs"

definition rec_scopes :: "(string \<times> new_rec) list \<Rightarrow> (rec_kind \<times> string) list" where
  "rec_scopes recs = map (\<lambda>(i, n). (nr_kind n, nr_dedupeKey n)) recs"

lemma new_at_Cons: "new_at ((i, n) # recs) k x = (if nr_kind n = k \<and> nr_dedupeKey n = x then Some (i, n) else new_at recs k x)"
  by (simp add: new_at_def)

lemma new_at_None: "new_at recs k x = None \<longleftrightarrow> (k, x) \<notin> set (rec_scopes recs)"
  by (auto simp: new_at_def rec_scopes_def find_None_iff)

text \<open>One pass of the loop, seen at the keys; \<open>t0\<close> is the table before the loop.\<close>

lemma sync_one_at:
  assumes "sync_one appId now (sel_where (\<lambda>r. rc_app_id r = appId) t0) (i, n) (Some t) = Some t1" "recs_ok t" "recs_ok t0"
    "rec_at t (appId, nr_kind n, nr_dedupeKey n) = rec_at t0 (appId, nr_kind n, nr_dedupeKey n)"
  shows "rec_at t1 s = (if s = (appId, nr_kind n, nr_dedupeKey n) then reconciled appId now (Some (i, n)) (rec_at t s) else rec_at t s)"
    "rc_id ` set t \<subseteq> rc_id ` set t1"
    "\<forall>x \<in> set t1. (\<exists>y \<in> set t. rc_id x = rc_id y \<and> rec_scope x = rec_scope y) \<or> rc_id x \<notin> rc_id ` set t"
proof -
  let ?s = "(appId, nr_kind n, nr_dedupeKey n)"
  have "(rec_at t1 s = (if s = ?s then reconciled appId now (Some (i, n)) (rec_at t s) else rec_at t s)) \<and>
    rc_id ` set t \<subseteq> rc_id ` set t1 \<and>
    (\<forall>x \<in> set t1. (\<exists>y \<in> set t. rc_id x = rc_id y \<and> rec_scope x = rec_scope y) \<or> rc_id x \<notin> rc_id ` set t)"
    using assms(1)
  proof (cases rule: sync_one_cases)
    case insert
    then have "rec_at t ?s = None"
      by (auto simp: rec_at_None)
    then show ?thesis
      using insert(2) by (auto simp: insert(1) rec_at_snoc reconciled_def)
  next
    case (known cur)
    then have cur: "cur \<in> set t0" "rec_scope cur = ?s"
      by (auto simp: set_sel_where rec_scope_def rec_key_inject)
    then have at: "rec_at t ?s = Some cur"
      using rec_at_member [OF assms(3)] assms(4) by fastforce
    then have mem: "cur \<in> set t"
      by (auto dest: rec_at_SomeD)
    have upd: "rec_at (upd_where (\<lambda>x. rc_id x = rc_id cur) f t) s = (if s = ?s then Some (f cur) else rec_at t s)"
      "rc_id ` set t \<subseteq> rc_id ` set (upd_where (\<lambda>x. rc_id x = rc_id cur) f t)"
      "\<forall>x \<in> set (upd_where (\<lambda>x. rc_id x = rc_id cur) f t). \<exists>y \<in> set t. rc_id x = rc_id y \<and> rec_scope x = rec_scope y"
      if "\<And>r. rec_scope (f r) = rec_scope r" "\<And>r. rc_id (f r) = rc_id r" for f
      subgoal using rec_at_upd [OF assms(2) mem that(1), of s] cur(2) by simp
      subgoal using upd_ids [of f] that(2) by simp
      subgoal using that by (auto simp: upd_where_def split: if_splits)
      done
    show ?thesis
      using upd [of "rec_fields n"] upd [of "reopened now n"] at
      by (cases "rc_status cur") (auto simp: known(3) reconciled_def)
  qed
  then show "rec_at t1 s = (if s = ?s then reconciled appId now (Some (i, n)) (rec_at t s) else rec_at t s)"
    "rc_id ` set t \<subseteq> rc_id ` set t1"
    "\<forall>x \<in> set t1. (\<exists>y \<in> set t. rc_id x = rc_id y \<and> rec_scope x = rec_scope y) \<or> rc_id x \<notin> rc_id ` set t"
    by blast+
qed

lemma sync_fold_at:
  assumes "fold (sync_one appId now (sel_where (\<lambda>r. rc_app_id r = appId) t0)) recs (Some t) = Some t'" "recs_ok t" "recs_ok t0"
    "distinct (rec_scopes recs)" "\<And>k x. (k, x) \<in> set (rec_scopes recs) \<Longrightarrow> rec_at t (appId, k, x) = rec_at t0 (appId, k, x)"
  shows "(rec_at t' (a, k, x) = (if a = appId \<and> new_at recs k x \<noteq> None
        then reconciled appId now (new_at recs k x) (rec_at t (a, k, x)) else rec_at t (a, k, x))) \<and>
    rc_id ` set t \<subseteq> rc_id ` set t' \<and>
    (\<forall>r \<in> set t'. (\<exists>y \<in> set t. rc_id r = rc_id y \<and> rec_scope r = rec_scope y) \<or> rc_id r \<notin> rc_id ` set t)"
  using assms(1,2,4,5)
proof (induction recs arbitrary: t)
  case Nil
  then show ?case by (auto simp: new_at_def)
next
  case (Cons m recs)
  let ?step = "sync_one appId now (sel_where (\<lambda>r. rc_app_id r = appId) t0)"
  obtain i n where m: "m = (i, n)"
    by fastforce
  obtain t1 where t1: "?step (i, n) (Some t) = Some t1" and rest: "fold ?step recs (Some t1) = Some t'"
    using Cons.prems(1) sync_fold_None [of appId now _ recs] by (cases "?step m (Some t)") (auto simp: m)
  have new: "(nr_kind n, nr_dedupeKey n) \<notin> set (rec_scopes recs)" "distinct (rec_scopes recs)"
    using Cons.prems(3) by (simp_all add: rec_scopes_def m)
  have here: "rec_at t (appId, nr_kind n, nr_dedupeKey n) = rec_at t0 (appId, nr_kind n, nr_dedupeKey n)"
    by (rule Cons.prems(4)) (simp add: rec_scopes_def m)
  note one = sync_one_at [OF t1 Cons.prems(2) assms(3) here]
  have ok: "recs_ok t1"
    by (rule sync_one_ok [OF t1 Cons.prems(2)])
  have later: "rec_at t1 (appId, k', x') = rec_at t0 (appId, k', x')" if "(k', x') \<in> set (rec_scopes recs)" for k' x'
  proof -
    have "(k', x') \<in> set (rec_scopes (m # recs))"
      using that by (simp add: rec_scopes_def)
    moreover have "(appId, k', x') \<noteq> (appId, nr_kind n, nr_dedupeKey n)"
      using new(1) that by auto
    then have "rec_at t1 (appId, k', x') = rec_at t (appId, k', x')"
      using one(1) [of "(appId, k', x')"] by (simp only: if_False)
    ultimately show ?thesis
      using Cons.prems(4) by simp
  qed
  note IH = Cons.IH [OF rest ok new(2) later]
  have A: "rec_at t' (a, k, x) = (if a = appId \<and> new_at (m # recs) k x \<noteq> None
        then reconciled appId now (new_at (m # recs) k x) (rec_at t (a, k, x)) else rec_at t (a, k, x))"
  proof (cases "a = appId \<and> k = nr_kind n \<and> x = nr_dedupeKey n")
    case True
    then have "new_at recs k x = None"
      using new(1) by (simp add: new_at_None)
    then show ?thesis
      using IH [THEN conjunct1] one(1) [of "(a, k, x)"] True by (simp add: m new_at_Cons)
  next
    case False
    then have "rec_at t1 (a, k, x) = rec_at t (a, k, x)"
      using one(1) [of "(a, k, x)"] by auto
    then show ?thesis
      using IH [THEN conjunct1] False by (auto simp: m new_at_Cons)
  qed
  have B: "rc_id ` set t \<subseteq> rc_id ` set t'"
    using IH [THEN conjunct2, THEN conjunct1] one(2) by (rule subset_trans [rotated])
  have C: "(\<exists>y \<in> set t. rc_id r = rc_id y \<and> rec_scope r = rec_scope y) \<or> rc_id r \<notin> rc_id ` set t" if rt: "r \<in> set t'" for r
  proof -
    consider y where "y \<in> set t1" "rc_id r = rc_id y" "rec_scope r = rec_scope y" | "rc_id r \<notin> rc_id ` set t1"
      using bspec [OF IH [THEN conjunct2, THEN conjunct2] rt] by blast
    then show ?thesis
    proof cases
      case 1
      then show ?thesis using bspec [OF one(3) 1(1)] by (metis (no_types))
    next
      case 2
      then show ?thesis using one(2) by blast
    qed
  qed
  show ?case
    using A B C by (intro conjI ballI)
qed

text \<open>With fresh identifiers the loop meets no UNIQUE constraint.\<close>

lemma sync_fold_total:
  assumes "recs_ok t" "recs_ok t0" "distinct (rec_scopes recs)" "distinct (map fst recs)" "fst ` set recs \<inter> rc_id ` set t = {}"
    "\<And>k x. (k, x) \<in> set (rec_scopes recs) \<Longrightarrow> rec_at t (appId, k, x) = rec_at t0 (appId, k, x)"
  shows "\<exists>t'. fold (sync_one appId now (sel_where (\<lambda>r. rc_app_id r = appId) t0)) recs (Some t) = Some t'"
  using assms(1,3-)
proof (induction recs arbitrary: t)
  case (Cons m recs)
  let ?step = "sync_one appId now (sel_where (\<lambda>r. rc_app_id r = appId) t0)"
  obtain i n where m: "m = (i, n)"
    by fastforce
  let ?s = "(appId, nr_kind n, nr_dedupeKey n)"
  have here: "rec_at t ?s = rec_at t0 ?s"
    by (rule Cons.prems(5)) (simp add: rec_scopes_def m)
  have fresh: "\<forall>x \<in> set t. rc_id x \<noteq> i"
    using Cons.prems(4) by (auto simp: m)
  obtain t1 where t1: "?step (i, n) (Some t) = Some t1" "rc_id ` set t1 \<subseteq> insert i (rc_id ` set t)"
  proof (cases "first_where (\<lambda>c. rec_key (rc_kind c) (rc_dedupe_key c) = rec_key (nr_kind n) (nr_dedupeKey n))
      (rev (sel_where (\<lambda>r. rc_app_id r = appId) t0))")
    case None
    then have "rec_at t0 ?s = None"
      by (auto simp: rec_at_None first_where_None rec_scope_def)
    then have "rec_at t ?s = None"
      using here by simp
    then have "\<forall>x \<in> set t. rec_scope x \<noteq> ?s"
      by (simp only: rec_at_None)
    then have "?step (i, n) (Some t) = Some (t @ [fresh_rec i appId now n])"
      using fresh by (auto simp: sync_one_def None rec_scope_def)
    then show ?thesis by (rule that) simp
  next
    case (Some c)
    have "rc_id ` set (upd_where P (rec_fields n) t) = rc_id ` set t" "rc_id ` set (upd_where P (reopened now n) t) = rc_id ` set t" for P
      by (simp_all add: upd_ids)
    then show ?thesis
      using that by (cases "rc_status c") (auto simp: sync_one_def Some reopened_def [abs_def])
  qed
  have new: "(nr_kind n, nr_dedupeKey n) \<notin> set (rec_scopes recs)" "distinct (rec_scopes recs)"
    using Cons.prems(2) by (simp_all add: rec_scopes_def m)
  have "rec_at t1 (appId, k', x') = rec_at t0 (appId, k', x')" if "(k', x') \<in> set (rec_scopes recs)" for k' x'
  proof -
    have "(appId, k', x') \<noteq> ?s"
      using new(1) that by auto
    then have "rec_at t1 (appId, k', x') = rec_at t (appId, k', x')"
      using sync_one_at(1) [OF t1(1) Cons.prems(1) assms(2) here, of "(appId, k', x')"] by (simp only: if_False)
    also have "\<dots> = rec_at t0 (appId, k', x')"
      by (rule Cons.prems(5)) (use that in \<open>simp add: rec_scopes_def m\<close>)
    finally show ?thesis .
  qed
  moreover have "distinct (map fst recs)" "i \<notin> fst ` set recs" "fst ` set recs \<inter> rc_id ` set t = {}"
    using Cons.prems(3,4) by (simp_all add: m)
  moreover from this(2,3) t1(2) have "fst ` set recs \<inter> rc_id ` set t1 = {}"
    by blast
  ultimately show ?case
    using Cons.IH [OF sync_one_ok [OF t1(1) Cons.prems(1)] new(2)] t1(1) by (simp add: m)
qed simp

lemma rec_at_del:
  assumes "recs_ok t"
  shows "rec_at (del_where Q t) s = (case rec_at t s of None \<Rightarrow> None | Some r \<Rightarrow> if Q r then None else Some r)"
proof (cases "rec_at t s")
  case None
  then have "rec_at (del_where Q t) s = None"
    by (simp add: rec_at_None set_del_where)
  then show ?thesis using None by simp
next
  case (Some r)
  have ok: "recs_ok (del_where Q t)"
    by (rule recs_ok_del [OF assms])
  show ?thesis
  proof (cases "Q r")
    case True
    have "rec_scope c \<noteq> s" if "c \<in> set (del_where Q t)" for c
      using that True rec_at_member [OF assms, of c] Some by (auto simp: set_del_where)
    then show ?thesis using Some True by (simp add: rec_at_None)
  next
    case False
    then show ?thesis
      using Some rec_at_SomeD [OF Some] rec_at_member [OF ok, of r] by (auto simp: set_del_where)
  qed
qed

text \<open>An evaluation raises a kind at most once.\<close>

lemma kinds_once:
  assumes "p = [] \<or> p = [Pin_image_tag]" "h = [] \<or> h = [Add_healthcheck]" "r = [] \<or> r = [Run_non_root]"
    "u = [] \<or> u = [Unexpose_ports]" "b = [] \<or> b = [Upgrade_base_image]" "l = [] \<or> l = [Set_resource_limits]"
  shows "distinct (p @ h @ r @ u @ b @ l)"
proof -
  have "set p \<subseteq> {Pin_image_tag}" "set h \<subseteq> {Add_healthcheck}" "set r \<subseteq> {Run_non_root}" "set u \<subseteq> {Unexpose_ports}"
    "set b \<subseteq> {Upgrade_base_image}" "set l \<subseteq> {Set_resource_limits}"
    "distinct p" "distinct h" "distinct r" "distinct u" "distinct b" "distinct l"
    using assms by (elim disjE; simp only: set_simps distinct.simps; blast)+
  then show ?thesis
    by (simp only: distinct_append set_append) blast
qed

lemma evaluate_kinds:
  assumes "evaluate le app spec fs digests = Inr ns"
  shows "distinct (map nr_kind ns)"
proof -
  note kind = list.map new_rec.select_convs Let_def simp_thms
  have pin: "map nr_kind (pin_rec app digests) = [] \<or> map nr_kind (pin_rec app digests) = [Pin_image_tag]"
    unfolding pin_rec_def by (simp only: kind split: option.split if_split)
  have health: "map nr_kind (health_rec app v) = [] \<or> map nr_kind (health_rec app v) = [Add_healthcheck]" for v
    unfolding health_rec_def by (simp only: kind split: if_split)
  have parts: "map nr_kind (root_rec v) = [] \<or> map nr_kind (root_rec v) = [Run_non_root]"
    "map nr_kind (ports_rec v) = [] \<or> map nr_kind (ports_rec v) = [Unexpose_ports]"
    "map nr_kind (limits_rec v) = [] \<or> map nr_kind (limits_rec v) = [Set_resource_limits]" for v
    unfolding root_rec_def ports_rec_def limits_rec_def by (simp_all only: kind split: if_split)
  have base: "map nr_kind (base_rec le fs) = [] \<or> map nr_kind (base_rec le fs) = [Upgrade_base_image]"
    unfolding base_rec_def by (simp only: kind split: if_split)
  obtain v where "ns = pin_rec app digests @ health_rec app v @ (case v of Some r \<Rightarrow> root_rec r @ ports_rec r | None \<Rightarrow> []) @
          base_rec le fs @ (case v of Some r \<Rightarrow> limits_rec r | None \<Rightarrow> [])"
    using assms by (auto simp: evaluate_def and_then_def split: sum.splits)
  then have "map nr_kind ns = map nr_kind (pin_rec app digests) @ map nr_kind (health_rec app v) @
      (case v of Some r \<Rightarrow> map nr_kind (root_rec r) | None \<Rightarrow> []) @ (case v of Some r \<Rightarrow> map nr_kind (ports_rec r) | None \<Rightarrow> []) @
      map nr_kind (base_rec le fs) @ (case v of Some r \<Rightarrow> map nr_kind (limits_rec r) | None \<Rightarrow> [])"
    by (simp split: option.split)
  then show ?thesis
    by (simp only:) (rule kinds_once [OF pin health _ _ base]; use parts in \<open>simp split: option.split\<close>)
qed

definition numbered :: "(nat \<Rightarrow> string) \<Rightarrow> new_rec list \<Rightarrow> (string \<times> new_rec) list" where
  "numbered ids ns = map (\<lambda>(k, n). (ids k, n)) (enumerate 0 ns)"

lemma numbered_scopes:
  assumes "distinct (map nr_kind ns)"
  shows "distinct (rec_scopes (numbered ids ns))"
proof -
  have "map (\<lambda>x. nr_kind (snd x)) (enumerate j ns) = map nr_kind ns" for j
    by (induction ns arbitrary: j) auto
  then have "map fst (rec_scopes (numbered ids ns)) = map nr_kind ns"
    by (simp add: rec_scopes_def numbered_def case_prod_beta o_def)
  then show ?thesis
    using assms distinct_map by metis
qed

lemma setStatus_inv:
  assumes "setStatus i st now d = (d', b)" "st \<noteq> Rec_open" "scans_inv d"
  shows "scans_inv d'"
proof -
  define f where "f = (\<lambda>r :: rec_row. r\<lparr> rc_status := st, rc_applied_at := (if st = Rec_applied then Some now else None) \<rparr>)"
  have "recs_ok (upd_where (\<lambda>r. rc_id r = i \<and> rc_status r = Rec_open) f (sc_recs d))"
    by (rule recs_ok_upd) (use assms(3) in \<open>auto simp: f_def scans_inv_def recs_ok_def rec_typed_def rec_scope_def\<close>)
  then show ?thesis
    using assms(1,3) by (auto simp: setStatus_def Let_def f_def [symmetric] scans_inv_def report_ok_def findings_for_def)
qed

lemma scan_step_inv: "scan_step d d' \<Longrightarrow> scans_inv d \<Longrightarrow> scans_inv d'"
  by (induction rule: scan_step.induct)
    (blast intro: createReport_inv markRunning_inv complete_inv sync_recs_inv setStatus_inv prune_scans_inv)+

lemma no_scans_inv: "scans_inv no_scans"
  by (simp add: no_scans_def scans_inv_def recs_ok_def)

lemma scan_run_inv: "scan_step\<^sup>*\<^sup>* d d' \<Longrightarrow> scans_inv d \<Longrightarrow> scans_inv d'"
  by (induction rule: rtranclp_induct) (auto intro: scan_step_inv)

text \<open>
  C14. The tables of the scan store are well typed.  In every state the operations reach, whatever an
  agent posted, reports, findings and recommendations keep the limits of \<open>shared/scan.ts\<close>, a report has an
  end and a duration exactly when it is finished, its counts are those of its stored findings, at most
  5000 of them and none twice, an unfinished report has none, no finding is without its report, and
  recommendations are unique per app, kind and key.
\<close>

theorem scan_rows_well_typed:
  assumes "scan_step\<^sup>*\<^sup>* no_scans d"
  shows "scans_inv d"
  using scan_run_inv [OF assms no_scans_inv] .

definition demo_finding :: "string \<Rightarrow> raw_finding" where
  "demo_finding v = \<lparr> rf_vulnId = v, rf_pkg = ''zlib'', rf_installed = None, rf_fixed = Some ''1.3'',
     rf_severity = Some (JStr ''HIGH''), rf_title = None, rf_cvss = Some (Fin 12) \<rparr>"

definition demo_scanned :: scans where
  "demo_scanned = (case createReport ''r1'' ''app_1'' ''img'' None 5 no_scans of
     Inr (d, r) \<Rightarrow> fst (complete ''r1'' True None [demo_finding ''CVE-1'', demo_finding ''CVE-1''] 9 d) | Inl e \<Rightarrow> no_scans)"

theorem scan_rows_well_typed_witness:
  "scan_step\<^sup>*\<^sup>* no_scans demo_scanned \<and> scans_inv demo_scanned \<and> map fd_cvss (sc_findings demo_scanned) = [Some 10]"
proof -
  obtain d r where c: "createReport ''r1'' ''app_1'' ''img'' None 5 no_scans = Inr (d, r)"
    by (simp add: createReport_def scan_report_def no_scans_def Let_def)
  have "scan_step\<^sup>*\<^sup>* no_scans d"
    by (rule r_into_rtranclp) (rule scan_step.created [OF c])
  moreover have "scan_step d demo_scanned"
    unfolding demo_scanned_def c by simp (rule scan_step.completed [OF prod.collapse [symmetric]])
  ultimately have run: "scan_step\<^sup>*\<^sup>* no_scans demo_scanned"
    by (rule rtranclp.rtrancl_into_rtrancl)
  moreover have "map fd_cvss (sc_findings demo_scanned) = [Some 10]"
    by code_simp
  ultimately show ?thesis
    using scan_rows_well_typed [OF run] by blast
qed

text \<open>The final deletion leaves at a key what \<open>reconciled\<close> says.\<close>

lemma deleted_reconciled:
  assumes "recs_ok t0" "\<forall>r \<in> set t. (\<exists>y \<in> set t0. rc_id r = rc_id y \<and> rec_scope r = rec_scope y) \<or> rc_id r \<notin> rc_id ` set t0"
    and at: "rec_at t (a, k, x) = (if a = appId \<and> new k x \<noteq> None then reconciled appId now (new k x) (rec_at t0 (a, k, x)) else rec_at t0 (a, k, x))"
    and gone: "\<And>r. gone r = ((\<exists>c \<in> set t0. rc_app_id c = appId \<and> rc_id c = rc_id r \<and> rc_status c = Rec_open \<and>
        new (rc_kind c) (rc_dedupe_key c) = None) \<and> rc_status r = Rec_open)"
  shows "(case rec_at t (a, k, x) of None \<Rightarrow> None | Some r \<Rightarrow> if gone r then None else Some r) =
    (if a = appId then reconciled appId now (new k x) (rec_at t0 (a, k, x)) else rec_at t0 (a, k, x))"
proof (cases "rec_at t (a, k, x)")
  case None
  then show ?thesis
    using at by (auto simp: reconciled_def split: if_splits option.splits)
next
  case (Some r)
  have r: "r \<in> set t" "rec_scope r = (a, k, x)"
    using rec_at_SomeD [OF Some] by auto
  have old: "rec_scope c = (a, k, x)" if c: "c \<in> set t0" "rc_id c = rc_id r" for c
  proof -
    have "rc_id r \<in> rc_id ` set t0"
      using c by (metis image_eqI)
    then obtain y where "y \<in> set t0" "rc_id r = rc_id y" "rec_scope r = rec_scope y"
      using bspec [OF assms(2) r(1)] by blast
    then show ?thesis
      using unique_onD [of rc_id t0 c y] c assms(1) r(2) by (simp add: recs_ok_def)
  qed
  show ?thesis
  proof (cases "a = appId \<and> new k x = None")
    case True
    then have "r \<in> set t0"
      using at Some rec_at_SomeD [of t0 "(a, k, x)" r] by simp
    then have "gone r = (rc_status r = Rec_open)"
      using gone r(2) True by (auto simp: rec_scope_def)
    then show ?thesis
      using at Some True by (simp add: reconciled_def)
  next
    case False
    then have "\<not> gone r"
      using gone old by (force simp: rec_scope_def)
    moreover have "(if a = appId then reconciled appId now (new k x) (rec_at t0 (a, k, x)) else rec_at t0 (a, k, x)) = rec_at t (a, k, x)"
      using at False by auto
    ultimately show ?thesis
      using Some by simp
  qed
qed

lemma sync_at:
  assumes "scans_inv d" "evaluate le app spec fs digests = Inr ns" "sync_recs appId (numbered ids ns) now d = Some d'"
  shows "rec_at (sc_recs d') (a, k, x) = (if a = appId
      then reconciled appId now (new_at (numbered ids ns) k x) (rec_at (sc_recs d) (a, k, x)) else rec_at (sc_recs d) (a, k, x)) \<and>
    sc_reports d' = sc_reports d \<and> sc_findings d' = sc_findings d"
proof -
  let ?recs = "numbered ids ns"
  let ?gone = "\<lambda>x. (\<exists>c \<in> set (sc_recs d). rc_app_id c = appId \<and> rc_id c = rc_id x \<and> rc_status c = Rec_open \<and>
         rec_key (rc_kind c) (rc_dedupe_key c) \<notin> (\<lambda>(_, r). rec_key (nr_kind r) (nr_dedupeKey r)) ` set ?recs) \<and> rc_status x = Rec_open"
  obtain rows where fold: "fold (sync_one appId now (sel_where (\<lambda>r. rc_app_id r = appId) (sc_recs d))) ?recs (Some (sc_recs d)) = Some rows"
    and d': "d' = d\<lparr> sc_recs := del_where ?gone rows \<rparr>"
    using assms(3) by (rule sync_recs_parts)
  have ok: "recs_ok (sc_recs d)"
    using assms(1) by (simp add: scans_inv_def)
  have "distinct (rec_scopes ?recs)"
    by (intro numbered_scopes evaluate_kinds [OF assms(2)])
  note at = sync_fold_at [OF fold ok ok this refl, of a k x]
  have known: "(rec_key k' x' \<notin> (\<lambda>(_, r). rec_key (nr_kind r) (nr_dedupeKey r)) ` set ?recs) = (new_at ?recs k' x' = None)" for k' x'
    by (auto simp: new_at_None rec_scopes_def rec_key_inject)
  note del = rec_at_del [OF sync_fold_ok [OF fold ok], of ?gone "(a, k, x)"]
  show ?thesis
    using deleted_reconciled [where new = "new_at ?recs" and gone = ?gone, OF ok _ conjunct1 [OF at]] at del
    by (simp add: d' known)
qed

lemma numbered_ids: "map fst (numbered ids ns) = map ids [0..<length ns]"
proof -
  have "map (\<lambda>x. ids (fst x)) (enumerate j ns) = map ids [j..<j + length ns]" for j
    by (induction ns arbitrary: j) (auto simp: upt_conv_Cons simp del: upt_Suc)
  then show ?thesis
    by (simp add: numbered_def case_prod_beta o_def)
qed

lemma sync_runs:
  assumes "scans_inv d" "distinct (map nr_kind ns)" "inj ids" "\<And>n. ids n \<notin> rc_id ` set (sc_recs d)"
  shows "\<exists>d'. sync_recs appId (numbered ids ns) now d = Some d'"
proof -
  have ok: "recs_ok (sc_recs d)"
    using assms(1) by (simp add: scans_inv_def)
  have ids: "distinct (map fst (numbered ids ns))" "fst ` set (numbered ids ns) \<inter> rc_id ` set (sc_recs d) = {}"
  proof -
    show "distinct (map fst (numbered ids ns))"
      unfolding numbered_ids using assms(3) by (simp add: distinct_map inj_on_def inj_def)
    have "fst ` set (numbered ids ns) = set (map ids [0..<length ns])"
      unfolding numbered_ids [symmetric] by simp
    then show "fst ` set (numbered ids ns) \<inter> rc_id ` set (sc_recs d) = {}"
      using assms(4) by auto
  qed
  show ?thesis
    using sync_fold_total [OF ok ok numbered_scopes [OF assms(2)] ids refl, of appId now]
    by (auto simp: sync_recs_def Let_def)
qed

text \<open>
  C21. A synchronisation of recommendations, seen as a map from app, kind and key to rows.  With the
  result of one evaluation of an app and fresh identifiers it meets no UNIQUE constraint, and it does at
  every key of that app what \<open>reconciled\<close> says (a new condition is raised, an open one refreshed or, when
  it is gone, deleted, an applied one opens again, a dismissed one stays as the user left it) and
  nothing at the keys of other apps; reports and findings are not touched.
\<close>

theorem sync_exact:
  assumes "scans_inv d" "evaluate le app spec fs digests = Inr ns" "inj ids" "\<forall>n. ids n \<notin> rc_id ` set (sc_recs d)"
  shows "\<exists>d'. sync_recs appId (numbered ids ns) now d = Some d' \<and>
    sc_reports d' = sc_reports d \<and> sc_findings d' = sc_findings d \<and>
    (\<forall>a k x. rec_at (sc_recs d') (a, k, x) = (if a = appId
      then reconciled appId now (new_at (numbered ids ns) k x) (rec_at (sc_recs d) (a, k, x)) else rec_at (sc_recs d) (a, k, x)))"
proof -
  obtain d' where s: "sync_recs appId (numbered ids ns) now d = Some d'"
    using sync_runs [OF assms(1) evaluate_kinds [OF assms(2)] assms(3)] assms(4) by blast
  show ?thesis
    using s sync_at [OF assms(1,2) s] by blast
qed

lemma demo_scanned_inv: "scans_inv demo_scanned"
proof -
  obtain d r where c: "createReport ''r1'' ''app_1'' ''img'' None 5 no_scans = Inr (d, r)"
    by (simp add: createReport_def scan_report_def no_scans_def Let_def)
  show ?thesis
    unfolding demo_scanned_def c
    using complete_inv [OF prod.collapse [symmetric] createReport_inv [OF c no_scans_inv]] by simp
qed

definition demo_ids :: "nat \<Rightarrow> string" where
  "demo_ids n = replicate n CHR ''x''"

theorem sync_exact_witness:
  "\<exists>ns d'. evaluate (\<le>) (toApp demo_deploys demo_app) None [] [] = Inr ns \<and>
     sync_recs ''app_1'' (numbered demo_ids ns) 9 demo_scanned = Some d' \<and>
     rec_at (sc_recs d') (''app_1'', Add_healthcheck, []) =
       reconciled ''app_1'' 9 (new_at (numbered demo_ids ns) Add_healthcheck []) None"
proof -
  obtain ns where e: "evaluate (\<le>) (toApp demo_deploys demo_app) None [] [] = Inr ns"
    by (simp add: evaluate_def)
  have recs: "sc_recs demo_scanned = []"
    by code_simp
  have "inj demo_ids"
    by (auto simp: demo_ids_def inj_def)
  then show ?thesis
    using sync_exact [OF demo_scanned_inv e, of demo_ids "''app_1''" 9] e by (auto simp: recs rec_at_def)
qed

section \<open>From a finished job to its report\<close>

definition was_open :: "string \<Rightarrow> scans \<Rightarrow> bool" where
  "was_open i d = (\<exists>r \<in> set (sc_reports d). sr_id r = i \<and> in_flight r)"

definition closed_as :: "bool \<Rightarrow> string \<Rightarrow> scans \<Rightarrow> scans \<Rightarrow> bool" where
  "closed_as good i d d' = (\<forall>r \<in> set (sc_reports d'). sr_id r = i \<longrightarrow>
     \<not> in_flight r \<and> (was_open i d \<longrightarrow> sr_status r = (if good then Scan_done else Scan_failed)))"

lemma complete_closes:
  assumes "complete i good err fs now d = (d', res)" "scans_inv d"
  shows "closed_as good i d d'"
  using assms(1)
proof (cases rule: complete_cases)
  case idle
  have "\<not> in_flight r" if "r \<in> set (sc_reports d)" "sr_id r = i" for r
  proof -
    have "scan_report i d = Some r"
      unfolding scan_report_def by (rule first_where_unique [of sr_id]) (use assms(2) that in \<open>auto simp: scans_inv_def\<close>)
    then show ?thesis using idle by blast
  qed
  then show ?thesis
    by (auto simp: closed_as_def was_open_def idle(1))
next
  case (closed existing rs)
  have ex: "existing \<in> set (sc_reports d)" "sr_id existing = i"
    using first_where_SomeD [OF closed(1) [unfolded scan_report_def]] by simp_all
  have only: "in_flight r" if "r \<in> set (sc_reports d)" "sr_id r = i" for r
    using closed(2) assms(2) that ex unique_onD [of sr_id "sc_reports d" r existing] by (simp add: scans_inv_def)
  let ?P = "\<lambda>r. sr_id r = i \<and> in_flight r"
  let ?st = "if good then Scan_done else Scan_failed"
  have "sr_status r = ?st" if r: "r \<in> set (sc_reports d')" "sr_id r = i" for r
  proof -
    obtain x where x: "x \<in> set (sc_reports d)" "\<not> ?P x \<and> r = x \<or> ?P x \<and> sr_status r = ?st"
      using r(1) unfolding closed(4) by (auto simp: upd_where_def split: if_splits)
    then show ?thesis
      using only [of x] r(2) by blast
  qed
  then show ?thesis
    by (auto simp: closed_as_def in_flight_def)
qed

lemma sync_recs_reports: "sync_recs appId recs now d = Some d' \<Longrightarrow> sc_reports d' = sc_reports d"
  by (elim sync_recs_parts) simp

lemma settle_success_closes:
  assumes "settle_success le ids now spec result s = (s', res)" "scans_inv (srt_scans s)"
  shows "closed_as True (spec_scan_id spec) (srt_scans s) (srt_scans s')"
proof -
  obtain sc report where c: "complete (spec_scan_id spec) True None (wireFindings result) now (srt_scans s) = (sc, report)"
    by fastforce
  have "sc_reports (srt_scans s') = sc_reports sc"
    using assms(1) c sync_recs_reports
    by (auto simp: settle_success_def Let_def split: if_splits option.splits sum.splits)
  then show ?thesis
    using complete_closes [OF c assms(2)] by (simp add: closed_as_def)
qed

text \<open>
  C22. What becomes of the report of a finished scan job, whatever text the agent posted as its result.
  The report ends as done exactly when the job succeeded with a JSON value that names this report, and
  as failed otherwise, malformed text included; a report that had ended before stays ended.  The one
  exception is a successful job with the result \<open>null\<close>, which is also what a missing result is stored
  as: there the handler throws and the report stays open.
\<close>

theorem scan_settles:
  assumes "scans_inv (srt_scans s)" "get_job jobId (rt_jobs (srt_rt s)) = Some j" "jb_kind j = Scan"
    "jb_result j = Some t" "t \<noteq> []" "scanSpec j = Some spec" "settleScanJob le ids now jobId s = (s', res)"
  shows "if jb_status j = Succeeded \<and> json_parse t = Some JNull then s' = s \<and> res = Inl Thrown
    else closed_as (jb_status j = Succeeded \<and>
        Option.bind (json_parse t) (jmember ''scanId'') = Some (JStr (spec_scan_id spec)))
      (spec_scan_id spec) (srt_scans s) (srt_scans s')"
proof -
  let ?i = "spec_scan_id spec"
  have failed: "closed_as False ?i (srt_scans s) (fst (complete ?i False e [] now (srt_scans s)))" for e
    by (rule complete_closes [OF prod.collapse [symmetric] assms(1)])
  note st = assms(7) [unfolded settleScanJob_def assms(2,6) option.case Let_def]
  consider "jb_status j \<noteq> Succeeded" | "jb_status j = Succeeded" "json_parse t = None"
    | "jb_status j = Succeeded" "json_parse t = Some JNull"
    | v where "jb_status j = Succeeded" "json_parse t = Some v" "v \<noteq> JNull"
    by (cases "json_parse t") auto
  then show ?thesis
  proof cases
    case 4
    show ?thesis
    proof (cases "jmember ''scanId'' v = Some (JStr ?i)")
      case True
      have "settle_success le ids now spec v s = (s', res)"
        using st 4 assms(3-5) True by (cases v) auto
      then show ?thesis
        using settle_success_closes assms(1) 4 True by simp
    next
      case False
      then have "srt_scans s' = fst (complete ?i False (Some ''scan id mismatch in result'') [] now (srt_scans s))"
        using st 4 assms(3-5) by (cases v) auto
      then show ?thesis
        using failed 4 False by simp
    qed
  qed (use st assms(3-5) failed in auto)
qed

definition demo_scan_row :: job_row where
  "demo_scan_row = \<lparr> jr_id = 1, jr_job_key = ''k'', jr_kind = Scan, jr_target = Some ''ag'', jr_status = Failed,
     jr_spec = stringify (scan_spec_json ''r1'' ''app_1'' ''img'' None), jr_result = Some ''broken'', jr_log = None,
     jr_lease_owner = None, jr_lease_until = None, jr_not_before = None, jr_attempts = 2, jr_max_attempts = 2,
     jr_created_at = 0, jr_updated_at = 0 \<rparr>"

definition demo_scan_rt :: scan_rt where
  "demo_scan_rt = \<lparr> srt_rt = \<lparr> rt_deploys = demo_deploys, rt_jobs = \<lparr> rows = [demo_scan_row], seq = 1 \<rparr> \<rparr>,
     srt_scans = (case createReport ''r1'' ''app_1'' ''img'' None 5 no_scans of Inr (d, r) \<Rightarrow> d | Inl e \<Rightarrow> no_scans) \<rparr>"

theorem scan_settles_witness:
  "was_open ''r1'' (srt_scans demo_scan_rt) \<and>
   closed_as False ''r1'' (srt_scans demo_scan_rt) (srt_scans (fst (settleScanJob (\<le>) demo_ids 9 1 demo_scan_rt)))"
proof -
  have open_report: "was_open ''r1'' (srt_scans demo_scan_rt)"
    by (simp add: was_open_def demo_scan_rt_def createReport_def scan_report_def no_scans_def in_flight_def Let_def)
  have inv: "scans_inv (srt_scans demo_scan_rt)"
    using createReport_inv [OF _ no_scans_inv]
    by (auto simp: demo_scan_rt_def no_scans_inv split: sum.split)
  have job: "get_job 1 (rt_jobs (srt_rt demo_scan_rt)) = Some (toJob demo_scan_row)"
    by (simp add: demo_scan_rt_def get_job_def demo_scan_row_def first_where_Cons)
  have "map_option spec_scan_id (scanSpec (toJob demo_scan_row)) = Some ''r1''"
    by code_simp
  then obtain spec where spec: "scanSpec (toJob demo_scan_row) = Some spec" "spec_scan_id spec = ''r1''"
    by auto
  have "jb_kind (toJob demo_scan_row) = Scan" "jb_result (toJob demo_scan_row) = Some ''broken''"
    "jb_status (toJob demo_scan_row) = Failed"
    by (simp_all add: toJob_def demo_scan_row_def)
  then show ?thesis
    using scan_settles [OF inv job _ _ _ spec(1) prod.collapse [symmetric], of "''broken''" "(\<le>)" demo_ids 9] open_report spec(2)
    by simp
qed

end
