(* ===== verification/Spec2Isabelle.thy ===== *)
theory Spec2Isabelle
  imports Job_Props Audit_Props Admin_Grants Path_Filter Flow_Props Egress_Props Loop_Props Uptime_Props Group_Props Secret_Props Snapshot_Props Key_Props Poll_Props Scan_Props
begin

text \<open>
  A verification development of the Wharfinger hub, the server half of a status page and deploy
  panel written in TypeScript (\<open>src/src\<close>).  Every definition is translated from the source it names;
  the theorems say what makes each part correct, and where the code does something else they
  prove that.

  The program.  One process keeps a SQLite database.  Route handlers under \<open>src/src/routes\<close> check the
  caller's permission and call stores; the stores run SQL statements.  The parts meet in five
  places: a login reads accounts, roles and the attempt log and writes sessions and the audit log;
  a webhook reads the deploy tables and puts a job in the queue; the sweep of expired previews
  removes apps and puts teardown jobs in the queue; the monitor runs checks on timers, derives the
  status of a service and opens and closes incidents, and the snapshot shows them.  Agents register
  over the ingress routes, report metrics, claim jobs, fetch the secrets of the jobs they hold and
  settle them, and what they report of a scan becomes findings and recommendations.

  How the code is modelled.  A table is a list of records in rowid order and a statement one of the
  operations of theory \<open>Prelude\<close>; a statement of the SQLite driver is atomic, a handler that awaits
  between statements is split where the interleaving matters (\<open>fail_read\<close> and \<open>fail_write\<close>,
  \<open>consume_read\<close> and \<open>consume_write\<close>, \<open>permsFor_begin\<close> and \<open>permsFor_fill\<close>, \<open>update_plan\<close> and \<open>update_write\<close>,
  \<open>current_begin\<close> and \<open>current_end\<close>).  Elsewhere an operation is one step, and what it would do
  overlapped by another is not covered.  An exception is the left of a sum, an HTTP answer a value of
  \<open>reply\<close>.  Time, random tokens, hashes, ciphers, the network and the
  libraries outside \<open>src\<close> are arguments.

  Theories and what they model.
  \<^item> \<open>Prelude\<close>: SQL statements, unique columns, and the interfaces \<open>autoinc_table\<close> (an AUTOINCREMENT
    table under a step relation), \<open>single_use\<close> (a conditional update that hands something out once) and
    \<open>stamped\<close> (optimistic concurrency: once a save has moved a stamp on, no admitted step brings the old
    one back).
  \<^item> \<open>Json\<close>, \<open>JS_Values\<close>: \<open>JSON.stringify\<close>/\<open>JSON.parse\<close> with the round trip, conversions of the language.
  \<^item> \<open>Jobs\<close> (\<open>lib/server/jobs/queue.ts\<close>), \<open>Job_Queue\<close> (the queue as a transition system with the lease
    tokens handed out), \<open>Job_Contract\<close> (interpretation \<open>jq\<close>), \<open>Job_Props\<close>.
  \<^item> \<open>Accounts\<close> (\<open>admin/users.ts\<close>), \<open>Sessions\<close> (\<open>sessions.ts\<close>, \<open>invites.ts\<close>, \<open>protection.ts\<close>), \<open>Roles\<close> (\<open>roles.ts\<close>,
    \<open>authz.ts\<close>), \<open>Audit_Log\<close> (\<open>audit.ts\<close>); \<open>Account_Inv\<close>, \<open>Account_Props\<close> (interpretation \<open>su\<close>), \<open>Role_Props\<close>
    (interpretation \<open>ru\<close>, the cache against the table), \<open>Audit_Props\<close> (the hash chain).
  \<^item> \<open>Admin_Http\<close>, \<open>Admin_Routes\<close>, \<open>Admin_Auth\<close>: the handlers under \<open>routes/admin/api\<close> for roles, users,
    invitations, login, setup and the account page; \<open>Admin_Inv\<close> (the invariant across stores),
    \<open>Admin_Stable\<close> (interpretation \<open>sa\<close>: which requests can touch an account predicate), \<open>Admin_Props\<close>,
    \<open>Admin_Grants\<close>.
  \<^item> \<open>Deploy_Forms\<close>, \<open>Deploy_Store\<close>, \<open>Deploy_Releases\<close> (\<open>deploy/store.ts\<close>), \<open>Deploy_Forge\<close> (\<open>forge.ts\<close>), \<open>Deploy_Hook\<close>
    (\<open>hook.ts\<close>), \<open>Deploy_Flow\<close> (\<open>trigger.ts\<close>), \<open>Deploy_Preview\<close> (\<open>preview.ts\<close> and the webhook route);
    \<open>Deploy_Inv\<close> (the tables as two systems: \<open>dstep\<close> runs the operations one after the other, \<open>istep\<close> lets
    others run between the rows an edit was planned from and its UPDATE), \<open>Deploy_Props\<close> (interpretation
    \<open>da\<close>), \<open>Flow_Props\<close>, \<open>Path_Filter\<close> (the glob matcher against its documentation).
  \<^item> \<open>Egress\<close> (\<open>http/egress.ts\<close>) and \<open>Egress_Props\<close> (the address guard against the addresses it means).
  \<^item> \<open>Status_Config\<close>, \<open>Service_State\<close>, \<open>Monitor\<close> (\<open>monitor/monitor.ts\<close> with the stores of checks, incidents
    and check-in beats, and the timers of the process), \<open>Monitor_Inv\<close>, \<open>Monitor_Props\<close>, \<open>Incident_Props\<close>
    (interpretation \<open>ai\<close>), \<open>Loop_Props\<close>; \<open>Uptime\<close> (\<open>shared/uptime.ts\<close>, \<open>shared/maintenance.ts\<close>) and
    \<open>Uptime_Props\<close>.
  \<^item> \<open>Service_Groups\<close> (\<open>groups/store.ts\<close>, \<open>teams/store.ts\<close>) and \<open>Group_Props\<close>, beside the operations on users
    and apps; \<open>Secrets\<close> (\<open>secrets/store.ts\<close>) and \<open>Secret_Props\<close>.
  \<^item> \<open>Markers\<close> (\<open>store/markers.ts\<close>), \<open>Snapshot\<close> (\<open>status/snapshot.ts\<close>) and \<open>Snapshot_Props\<close>, with the writes to
    what a snapshot is built from (\<open>store_write\<close>) and which of them mark the cache.
  \<^item> \<open>Agents\<close>, \<open>Hub_Keys\<close>, \<open>Ingress\<close> (\<open>lib/server/ingress\<close>, \<open>routes/ingress\<close> and the agent routes of the panel):
    the registry, the signing key, every endpoint; \<open>Ingress_Props\<close>, \<open>Key_Props\<close>, \<open>Poll_Props\<close> (claiming).
  \<^item> \<open>Scans\<close> (\<open>scan/store.ts\<close>), \<open>Scan_Flow\<close> (\<open>scan/recommend.ts\<close>, \<open>scan/trigger.ts\<close>) and \<open>Scan_Props\<close>.

  What the lemmas show.  Each stateful part has a step relation with one rule per operation, an
  invariant every rule keeps, and properties of whole runs that rest on the locales above: finished
  jobs are final, leases exclude each other, an administrator remains, links are used once, a stale
  edit is refused, one release is live, an ended incident is final, a binding of an agent ends only by
  a rotation or a removal.  Where the code breaks what it means to keep, the property gives the run
  that does so: interleaved edits of an app, rows of deleted users and apps, stale snapshots.  Pure parts have exact
  characterisations: the audit chain detects every change of a row, the glob matcher agrees with a
  reference on path segments, the flap protection with one on the list of results.

  Bounds and fuel.  \<open>parse_value\<close> of \<open>Json\<close> runs on fuel; \<open>json_parse\<close> supplies the length of the text,
  which suffices because every call consumes a character.  Every other recursion is structural or
  has a measure.  Characters are Latin-1, standing for UTF-16 code units.  Numbers are exact: a
  double that the code would round is not rounded.

  Not modelled: the user interface; SurrealDB and its translation of SQL; telemetry; notification
  delivery; the edge table and compose import; the valibot schemas apart from the conditions in
  \<open>Status_Config\<close>; the protocol clients of the checkers; chat, AI, the passkey routes and the external
  login protocols.  They are I/O, third-party protocols or parts planned for a later extension, as
  the manifest says one by one.
\<close>

end
